(* ===== verification/Prelude.thy ===== *)
theory Prelude
  imports Main "HOL-Library.Word" "HOL-Library.State_Monad"
begin

unbundle bit_operations_syntax

text \<open>
  Types, constants and small lemmas that every component shares.

  C integers keep their width: \<^verbatim>\<open>uint8_t\<close> is an \<open>8 word\<close>, \<^verbatim>\<open>uint32_t\<close> and \<^verbatim>\<open>unsigned int\<close>
  a \<open>32 word\<close>. Return codes are \<open>int\<close>: zero or positive for success, the negated error
  number for failure, as the code returns them.

  Everything outside \<^verbatim>\<open>src/\<close> (the bus, the kernel's frameworks, the system calls) is an
  \<open>env\<close>: a function that answers a call, given the calls made before it. The state of
  a component records those calls in order, so that what the hardware or the kernel sees
  is part of the model.
\<close>

type_synonym u8 = "8 word"
type_synonym u16 = "16 word"
type_synonym u32 = "32 word"

abbreviation ENOENT :: int where "ENOENT \<equiv> 2"
abbreviation EIO :: int where "EIO \<equiv> 5"
abbreviation ENXIO :: int where "ENXIO \<equiv> 6"
abbreviation E2BIG :: int where "E2BIG \<equiv> 7"
abbreviation ENOMEM :: int where "ENOMEM \<equiv> 12"
abbreviation EBUSY :: int where "EBUSY \<equiv> 16"
abbreviation ENODEV :: int where "ENODEV \<equiv> 19"
abbreviation EINVAL :: int where "EINVAL \<equiv> 22"
abbreviation EL2HLT :: int where "EL2HLT \<equiv> 51"
abbreviation ENODATA :: int where "ENODATA \<equiv> 61"
abbreviation ETIME :: int where "ETIME \<equiv> 62"

named_theorems run_simps \<open>unfolding of state programs applied to a state\<close>

subsection \<open>State programs\<close>

lemma run_bind [run_simps]:
  "run_state (State_Monad.bind m f) s =
     (case run_state m s of (a, t) \<Rightarrow> run_state (f a) t)"
  by (simp add: State_Monad.bind_def)

lemma run_return [run_simps]: "run_state (State_Monad.return a) s = (a, s)"
  by (simp add: State_Monad.return_def)

lemma run_if [run_simps]:
  "run_state (if b then m else n) s = (if b then run_state m s else run_state n s)"
  by simp

lemma run_case_sum [run_simps]:
  "run_state (case x of Inl a \<Rightarrow> f a | Inr b \<Rightarrow> g b) s =
     (case x of Inl a \<Rightarrow> run_state (f a) s | Inr b \<Rightarrow> run_state (g b) s)"
  by (simp split: sum.split)

subsection \<open>Undefined behaviour\<close>

text \<open>The outcome of code that may access memory out of bounds or through a null pointer.\<close>

datatype 'a mem = Fault | Ret 'a

subsection \<open>Calls to the environment\<close>

type_synonym ('c, 'r) env = "'c list \<Rightarrow> 'c \<Rightarrow> 'r"

subsection \<open>Words\<close>

lemma word_eqI_bit:
  fixes x y :: "'a::len word"
  assumes "\<And>n. n < LENGTH('a) \<Longrightarrow> bit x n = bit y n"
  shows "x = y"
  using assms by (rule bit_word_eqI)

lemma xor_right_cancel: "(a XOR c = b XOR c) = (a = (b :: 'a::len word))"
  by (metis xor.assoc xor_self_eq xor.right_neutral)

lemma unat_lt_pow: "unat (x :: 'a::len word) < 2 ^ LENGTH('a)"
  by (rule unsigned_less)

lemma unat_u8_bound [simp]: "unat (x :: u8) < 256"
  using unat_lt_pow [of x] by simp

lemma unat_u16_bound [simp]: "unat (x :: u16) < 65536"
  using unat_lt_pow [of x] by simp

lemma unat_u32_bound [simp]: "unat (x :: u32) < 4294967296"
  using unat_lt_pow [of x] by simp

subsection \<open>Lists\<close>

lemma list_all_upt: "list_all P [0..<n] \<longleftrightarrow> (\<forall>i<n. P i)"
  by (auto simp: list_all_iff)

lemma take_Suc_snoc: "i < length xs \<Longrightarrow> take (Suc i) xs = take i xs @ [xs ! i]"
  by (rule take_Suc_conv_app_nth)

subsection \<open>Runs of operations\<close>

text \<open>
  A component whose operations are a step function: \<open>step op s\<close> is the state after the
  operation, \<open>None\<close> when it never returns. An invariant that every admissible operation keeps
  holds after every run.
\<close>

fun run_ops :: "('o \<Rightarrow> 's \<Rightarrow> 's option) \<Rightarrow> 'o list \<Rightarrow> 's \<Rightarrow> 's option" where
  "run_ops step [] s = Some s"
| "run_ops step (x # xs) s = (case step x s of None \<Rightarrow> None | Some t \<Rightarrow> run_ops step xs t)"

locale stepped =
  fixes step :: "'o \<Rightarrow> 's \<Rightarrow> 's option"
    and admissible :: "'o \<Rightarrow> bool"
    and inv :: "'s \<Rightarrow> bool"
  assumes step_keeps: "inv s \<Longrightarrow> admissible x \<Longrightarrow> step x s = Some t \<Longrightarrow> inv t"
begin

lemma run_keeps:
  "inv s \<Longrightarrow> list_all admissible xs \<Longrightarrow> run_ops step xs s = Some t \<Longrightarrow> inv t"
  by (induction xs arbitrary: s) (auto split: option.splits dest: step_keeps)

end

text \<open>When moreover every admissible operation returns, a run never gets stuck.\<close>

locale live = stepped +
  assumes step_returns: "inv s \<Longrightarrow> admissible x \<Longrightarrow> \<exists>t. step x s = Some t"
begin

lemma run_returns:
  "inv s \<Longrightarrow> list_all admissible xs \<Longrightarrow> \<exists>t. run_ops step xs s = Some t \<and> inv t"
proof (induction xs arbitrary: s)
  case (Cons x xs)
  then obtain t where "step x s = Some t" "inv t"
    using step_returns step_keeps by fastforce
  then show ?case using Cons by simp
qed simp

end

end
