(* ===== verification/Crc.thy ===== *)
theory Crc
  imports Prelude
begin

unbundle bit_operations_syntax

text \<open>
  The two CRC-32 routines: \<^verbatim>\<open>crcFast\<close> and \<^verbatim>\<open>reflect\<close> of
  \<^verbatim>\<open>sdk/src/cameras/itof-camera/crc.c\<close>, which the SDK checks and writes the module memory
  and firmware with, and \<^verbatim>\<open>compute_crc\<close> of \<^verbatim>\<open>tools/nvm_tools/nvm_write\<close>. Both run over
  a table of 256 words. The locale \<open>crc_table\<close> states what a table must contain; inside
  it the byte-at-a-time update is proved equal to dividing by the polynomial bit by bit.
\<close>

section \<open>Tables\<close>

definition crcTable :: "u32 list" where
  "crcTable = [
    0x00000000, 0x04C11DB7, 0x09823B6E, 0x0D4326D9, 0x130476DC, 0x17C56B6B, 0x1A864DB2, 0x1E475005,
    0x2608EDB8, 0x22C9F00F, 0x2F8AD6D6, 0x2B4BCB61, 0x350C9B64, 0x31CD86D3, 0x3C8EA00A, 0x384FBDBD,
    0x4C11DB70, 0x48D0C6C7, 0x4593E01E, 0x4152FDA9, 0x5F15ADAC, 0x5BD4B01B, 0x569796C2, 0x52568B75,
    0x6A1936C8, 0x6ED82B7F, 0x639B0DA6, 0x675A1011, 0x791D4014, 0x7DDC5DA3, 0x709F7B7A, 0x745E66CD,
    0x9823B6E0, 0x9CE2AB57, 0x91A18D8E, 0x95609039, 0x8B27C03C, 0x8FE6DD8B, 0x82A5FB52, 0x8664E6E5,
    0xBE2B5B58, 0xBAEA46EF, 0xB7A96036, 0xB3687D81, 0xAD2F2D84, 0xA9EE3033, 0xA4AD16EA, 0xA06C0B5D,
    0xD4326D90, 0xD0F37027, 0xDDB056FE, 0xD9714B49, 0xC7361B4C, 0xC3F706FB, 0xCEB42022, 0xCA753D95,
    0xF23A8028, 0xF6FB9D9F, 0xFBB8BB46, 0xFF79A6F1, 0xE13EF6F4, 0xE5FFEB43, 0xE8BCCD9A, 0xEC7DD02D,
    0x34867077, 0x30476DC0, 0x3D044B19, 0x39C556AE, 0x278206AB, 0x23431B1C, 0x2E003DC5, 0x2AC12072,
    0x128E9DCF, 0x164F8078, 0x1B0CA6A1, 0x1FCDBB16, 0x018AEB13, 0x054BF6A4, 0x0808D07D, 0x0CC9CDCA,
    0x7897AB07, 0x7C56B6B0, 0x71159069, 0x75D48DDE, 0x6B93DDDB, 0x6F52C06C, 0x6211E6B5, 0x66D0FB02,
    0x5E9F46BF, 0x5A5E5B08, 0x571D7DD1, 0x53DC6066, 0x4D9B3063, 0x495A2DD4, 0x44190B0D, 0x40D816BA,
    0xACA5C697, 0xA864DB20, 0xA527FDF9, 0xA1E6E04E, 0xBFA1B04B, 0xBB60ADFC, 0xB6238B25, 0xB2E29692,
    0x8AAD2B2F, 0x8E6C3698, 0x832F1041, 0x87EE0DF6, 0x99A95DF3, 0x9D684044, 0x902B669D, 0x94EA7B2A,
    0xE0B41DE7, 0xE4750050, 0xE9362689, 0xEDF73B3E, 0xF3B06B3B, 0xF771768C, 0xFA325055, 0xFEF34DE2,
    0xC6BCF05F, 0xC27DEDE8, 0xCF3ECB31, 0xCBFFD686, 0xD5B88683, 0xD1799B34, 0xDC3ABDED, 0xD8FBA05A,
    0x690CE0EE, 0x6DCDFD59, 0x608EDB80, 0x644FC637, 0x7A089632, 0x7EC98B85, 0x738AAD5C, 0x774BB0EB,
    0x4F040D56, 0x4BC510E1, 0x46863638, 0x42472B8F, 0x5C007B8A, 0x58C1663D, 0x558240E4, 0x51435D53,
    0x251D3B9E, 0x21DC2629, 0x2C9F00F0, 0x285E1D47, 0x36194D42, 0x32D850F5, 0x3F9B762C, 0x3B5A6B9B,
    0x0315D626, 0x07D4CB91, 0x0A97ED48, 0x0E56F0FF, 0x1011A0FA, 0x14D0BD4D, 0x19939B94, 0x1D528623,
    0xF12F560E, 0xF5EE4BB9, 0xF8AD6D60, 0xFC6C70D7, 0xE22B20D2, 0xE6EA3D65, 0xEBA91BBC, 0xEF68060B,
    0xD727BBB6, 0xD3E6A601, 0xDEA580D8, 0xDA649D6F, 0xC423CD6A, 0xC0E2D0DD, 0xCDA1F604, 0xC960EBB3,
    0xBD3E8D7E, 0xB9FF90C9, 0xB4BCB610, 0xB07DABA7, 0xAE3AFBA2, 0xAAFBE615, 0xA7B8C0CC, 0xA379DD7B,
    0x9B3660C6, 0x9FF77D71, 0x92B45BA8, 0x9675461F, 0x8832161A, 0x8CF30BAD, 0x81B02D74, 0x857130C3,
    0x5D8A9099, 0x594B8D2E, 0x5408ABF7, 0x50C9B640, 0x4E8EE645, 0x4A4FFBF2, 0x470CDD2B, 0x43CDC09C,
    0x7B827D21, 0x7F436096, 0x7200464F, 0x76C15BF8, 0x68860BFD, 0x6C47164A, 0x61043093, 0x65C52D24,
    0x119B4BE9, 0x155A565E, 0x18197087, 0x1CD86D30, 0x029F3D35, 0x065E2082, 0x0B1D065B, 0x0FDC1BEC,
    0x3793A651, 0x3352BBE6, 0x3E119D3F, 0x3AD08088, 0x2497D08D, 0x2056CD3A, 0x2D15EBE3, 0x29D4F654,
    0xC5A92679, 0xC1683BCE, 0xCC2B1D17, 0xC8EA00A0, 0xD6AD50A5, 0xD26C4D12, 0xDF2F6BCB, 0xDBEE767C,
    0xE3A1CBC1, 0xE760D676, 0xEA23F0AF, 0xEEE2ED18, 0xF0A5BD1D, 0xF464A0AA, 0xF9278673, 0xFDE69BC4,
    0x89B8FD09, 0x8D79E0BE, 0x803AC667, 0x84FBDBD0, 0x9ABC8BD5, 0x9E7D9662, 0x933EB0BB, 0x97FFAD0C,
    0xAFB010B1, 0xAB710D06, 0xA6322BDF, 0xA2F33668, 0xBCB4666D, 0xB8757BDA, 0xB5365D03, 0xB1F740B4]"

definition crc32_table :: "u32 list" where
  "crc32_table = [
    0, 79764919, 159529838, 222504665, 319059676, 398814059,
    445009330, 507990021, 638119352, 583659535, 797628118, 726387553,
    890018660, 835552979, 1015980042, 944750013, 1276238704, 1221641927,
    1167319070, 1095957929, 1595256236, 1540665371, 1452775106, 1381403509,
    1780037320, 1859660671, 1671105958, 1733955601, 2031960084, 2111593891,
    1889500026, 1952343757, 2552477408, 2632100695, 2443283854, 2506133561,
    2334638140, 2414271883, 2191915858, 2254759653, 3190512472, 3135915759,
    3081330742, 3009969537, 2905550212, 2850959411, 2762807018, 2691435357,
    3560074640, 3505614887, 3719321342, 3648080713, 3342211916, 3287746299,
    3467911202, 3396681109, 4063920168, 4143685023, 4223187782, 4286162673,
    3779000052, 3858754371, 3904687514, 3967668269, 881225847, 809987520,
    1023691545, 969234094, 662832811, 591600412, 771767749, 717299826,
    311336399, 374308984, 453813921, 533576470, 25881363, 88864420,
    134795389, 214552010, 2023205639, 2086057648, 1897238633, 1976864222,
    1804852699, 1867694188, 1645340341, 1724971778, 1587496639, 1516133128,
    1461550545, 1406951526, 1302016099, 1230646740, 1142491917, 1087903418,
    2896545431, 2825181984, 2770861561, 2716262478, 3215044683, 3143675388,
    3055782693, 3001194130, 2326604591, 2389456536, 2200899649, 2280525302,
    2578013683, 2640855108, 2418763421, 2498394922, 3769900519, 3832873040,
    3912640137, 3992402750, 4088425275, 4151408268, 4197601365, 4277358050,
    3334271071, 3263032808, 3476998961, 3422541446, 3585640067, 3514407732,
    3694837229, 3640369242, 1762451694, 1842216281, 1619975040, 1682949687,
    2047383090, 2127137669, 1938468188, 2001449195, 1325665622, 1271206113,
    1183200824, 1111960463, 1543535498, 1489069629, 1434599652, 1363369299,
    622672798, 568075817, 748617968, 677256519, 907627842, 853037301,
    1067152940, 995781531, 51762726, 131386257, 177728840, 240578815,
    269590778, 349224269, 429104020, 491947555, 4046411278, 4126034873,
    4172115296, 4234965207, 3794477266, 3874110821, 3953728444, 4016571915,
    3609705398, 3555108353, 3735388376, 3664026991, 3290680682, 3236090077,
    3449943556, 3378572211, 3174993278, 3120533705, 3032266256, 2961025959,
    2923101090, 2868635157, 2813903052, 2742672763, 2604032198, 2683796849,
    2461293480, 2524268063, 2284983834, 2364738477, 2175806836, 2238787779,
    1569362073, 1498123566, 1409854455, 1355396672, 1317987909, 1246755826,
    1192025387, 1137557660, 2072149281, 2135122070, 1912620623, 1992383480,
    1753615357, 1816598090, 1627664531, 1707420964, 295390185, 358241886,
    404320391, 483945776, 43990325, 106832002, 186451547, 266083308,
    932423249, 861060070, 1041341759, 986742920, 613929101, 542559546,
    756411363, 701822548, 3316196985, 3244833742, 3425377559, 3370778784,
    3601682597, 3530312978, 3744426955, 3689838204, 3819031489, 3881883254,
    3928223919, 4007849240, 4037393693, 4100235434, 4180117107, 4259748804,
    2310601993, 2373574846, 2151335527, 2231098320, 2596047829, 2659030626,
    2470359227, 2550115596, 2947551409, 2876312838, 2788305887, 2733848168,
    3165939309, 3094707162, 3040238851, 2985771188]"

section \<open>crc.c\<close>

abbreviation POLYNOMIAL :: u32 where "POLYNOMIAL \<equiv> 0x04C11DB7"

text \<open>
  \<^verbatim>\<open>reflect\<close>: the loop over \<^verbatim>\<open>bit\<close>. The shifted one is an \<^verbatim>\<open>int\<close> in C and is cut to
  8 bits by the assignment to the \<^verbatim>\<open>uint8_t\<close>; a shift of 32 or more (an \<^verbatim>\<open>nBits\<close> above 32)
  is undefined in C and never asked for.
\<close>

function reflect_loop :: "nat \<Rightarrow> nat \<Rightarrow> u8 \<Rightarrow> u8 \<Rightarrow> u8" where
  "reflect_loop b nBits data reflection =
     (if b < nBits
      then reflect_loop (Suc b) nBits (drop_bit 1 data)
             (if data AND 1 \<noteq> 0 then reflection OR push_bit (nBits - 1 - b) 1 else reflection)
      else reflection)"
  by pat_completeness auto
termination
  by (relation "measure (\<lambda>(b, nBits, _, _). nBits - b)") auto

declare reflect_loop.simps [simp del]

definition reflect :: "u8 \<Rightarrow> u8 \<Rightarrow> u8" where
  "reflect data nBits = reflect_loop 0 (unat nBits) data 0"

text \<open>
  \<^verbatim>\<open>crcFast\<close>: the loop over the message, \<open>None\<close> when it reads past the array.
  \<^verbatim>\<open>remainder >> (WIDTH - 8)\<close> is cut to a byte by the assignment to \<^verbatim>\<open>data\<close>.
\<close>

definition crcFast_step :: "bool \<Rightarrow> u32 \<Rightarrow> u8 \<Rightarrow> u32" where
  "crcFast_step isMirrored remainder m =
     (let data = (if isMirrored then reflect m 8 else m) XOR ucast (drop_bit 24 remainder)
      in crcTable ! unat data XOR push_bit 8 remainder)"

function crcFast_loop :: "u8 list \<Rightarrow> int \<Rightarrow> bool \<Rightarrow> int \<Rightarrow> u32 \<Rightarrow> u32 option" where
  "crcFast_loop message nBytes isMirrored byte remainder =
     (if byte < nBytes
      then if nat byte < length message
           then crcFast_loop message nBytes isMirrored (byte + 1)
                  (crcFast_step isMirrored remainder (message ! nat byte))
           else None
      else Some remainder)"
  by pat_completeness auto
termination
  by (relation "measure (\<lambda>(_, nBytes, _, byte, _). nat (nBytes - byte))") auto

declare crcFast_loop.simps [simp del]

definition crcFast :: "u8 list \<Rightarrow> int \<Rightarrow> bool \<Rightarrow> u32 option" where
  "crcFast message nBytes isMirrored =
     map_option (\<lambda>r. r XOR 0xFFFFFFFF)
       (crcFast_loop message nBytes isMirrored 0 0xFFFFFFFF)"

section \<open>compute_crc.c\<close>

datatype CRC_TYPE = CRC_8bit | CRC_16bit | CRC_32bit

text \<open>
  The unions are modelled by their widest member, \<^verbatim>\<open>crc_32bit\<close>, the only one the code
  reads. The \<^verbatim>\<open>polynomial\<close> member of the parameters is never read.
\<close>

record crc_parameters =
  crc_type :: CRC_TYPE
  initial_crc :: u32
  crc_compute_flags :: u8

abbreviation IS_CRC_MIRROR :: u8 where "IS_CRC_MIRROR \<equiv> 1"

text \<open>\<open>None\<close>: the assertion stops the program (with \<^verbatim>\<open>NDEBUG\<close>, the null pointer).\<close>

definition get_pointer_to_crctable :: "crc_parameters \<Rightarrow> u32 list option" where
  "get_pointer_to_crctable p = (if crc_type p = CRC_32bit then Some crc32_table else None)"

text \<open>\<^verbatim>\<open>generate_mirror\<close>: \<^verbatim>\<open>loopCount\<close> starts at 7 and never falls below 0.\<close>

function mirror_loop :: "u8 \<Rightarrow> u8 \<Rightarrow> u8 \<Rightarrow> u8 \<times> u8" where
  "mirror_loop val mirrorValue loopCount =
     (if val \<noteq> 0
      then mirror_loop (drop_bit 1 val) (push_bit 1 mirrorValue OR (val AND 1)) (loopCount - 1)
      else (mirrorValue, loopCount))"
  by pat_completeness auto
termination
proof (relation "measure (\<lambda>(val, _, _). unat val)", goal_cases)
  case 1
  show ?case by simp
next
  case (2 val m c)
  then have "unat val \<noteq> 0" by (simp add: unat_eq_0)
  then show ?case by (simp add: drop_bit_eq_div unat_div)
qed

declare mirror_loop.simps [simp del]

definition generate_mirror :: "u8 \<Rightarrow> u8" where
  "generate_mirror val =
     (case mirror_loop (drop_bit 1 val) val 7 of
        (mirrorValue, loopCount) \<Rightarrow> push_bit (unat loopCount) mirrorValue)"

definition compute_crc_step :: "u32 list \<Rightarrow> u32 \<Rightarrow> u8 \<Rightarrow> u32" where
  "compute_crc_step tbl temp_value d =
     tbl ! unat (ucast (generate_mirror d) XOR (drop_bit 0x18 temp_value AND 0xFF))
       XOR push_bit 8 temp_value"

function compute_crc_loop :: "crc_parameters \<Rightarrow> u32 list \<Rightarrow> u8 list \<Rightarrow> nat \<Rightarrow> nat \<Rightarrow> u32 \<Rightarrow> u32 option" where
  "compute_crc_loop p tbl data data_len loop_count temp_value =
     (if loop_count < data_len
      then if crc_compute_flags p AND IS_CRC_MIRROR \<noteq> 0
           then if loop_count < length data
                then compute_crc_loop p tbl data data_len (Suc loop_count)
                       (compute_crc_step tbl temp_value (data ! loop_count))
                else None
           else compute_crc_loop p tbl data data_len (Suc loop_count) temp_value
      else Some temp_value)"
  by pat_completeness auto
termination
  by (relation "measure (\<lambda>(_, _, _, data_len, loop_count, _). data_len - loop_count)") auto

declare compute_crc_loop.simps [simp del]

definition compute_crc :: "crc_parameters \<Rightarrow> u8 list \<Rightarrow> u32 \<Rightarrow> u32 option" where
  "compute_crc p data data_len =
     (if crc_type p = CRC_32bit
      then Option.bind (get_pointer_to_crctable p)
             (\<lambda>tbl. compute_crc_loop p tbl data (unat data_len) 0 (initial_crc p))
      else Some (initial_crc p))"

section \<open>The reference: division by the polynomial, one bit at a time\<close>

definition crc_shift :: "u32 \<Rightarrow> u32" where
  "crc_shift r = (if bit r 31 then push_bit 1 r XOR POLYNOMIAL else push_bit 1 r)"

definition crc_byte :: "u32 \<Rightarrow> u8 \<Rightarrow> u32" where
  "crc_byte r d = (crc_shift ^^ 8) (r XOR push_bit 24 (ucast d))"

section \<open>Bitwise division is linear and injective\<close>

lemma crc_shift_xor: "crc_shift (a XOR b) = crc_shift a XOR crc_shift b"
  by (auto simp: crc_shift_def bit_xor_iff push_bit_xor ac_simps)

lemma crc_shift_pow_xor: "(crc_shift ^^ n) (a XOR b) = (crc_shift ^^ n) a XOR (crc_shift ^^ n) b"
  by (induction n) (auto simp: crc_shift_xor)

lemma crc_shift_0 [simp]: "crc_shift 0 = 0"
  by (simp add: crc_shift_def)

lemma crc_shift_pow_0 [simp]: "(crc_shift ^^ n) 0 = 0"
  by (induction n) auto

lemma crc_shift_pow_small:
  "(\<And>i. 32 - n \<le> i \<Longrightarrow> \<not> bit r i) \<Longrightarrow> n \<le> 32 \<Longrightarrow> (crc_shift ^^ n) r = push_bit n r"
proof (induction n)
  case 0
  show ?case by simp
next
  case (Suc n)
  have "(crc_shift ^^ n) r = push_bit n r"
    using Suc by auto
  moreover have "\<not> bit r (31 - n)" using Suc.prems by simp
  then have "\<not> bit (push_bit n r) 31"
    using Suc.prems(2) by (simp add: bit_push_bit_iff)
  ultimately have "crc_shift ((crc_shift ^^ n) r) = push_bit 1 (push_bit n r)"
    unfolding crc_shift_def by (simp del: push_bit_Suc)
  then show ?case by (simp del: push_bit_Suc)
qed

lemma crc_shift_inj: "crc_shift a = crc_shift b \<Longrightarrow> a = b"
proof -
  assume eq: "crc_shift a = crc_shift b"
  have b0: "bit (crc_shift r) 0 = bit r 31" for r
    by (auto simp add: crc_shift_def bit_xor_iff bit_push_bit_iff simp del: push_bit_Suc)
  with eq have top: "bit a 31 = bit b 31" by metis
  with eq have "push_bit 1 a = push_bit 1 b"
    by (auto simp: crc_shift_def xor_right_cancel split: if_splits)
  then have low: "bit a i = bit b i" if "i < 31" for i
    using that bit_push_bit_iff [of 1 a "Suc i"] bit_push_bit_iff [of 1 b "Suc i"]
    by (simp del: push_bit_Suc)
  show "a = b"
    by (rule word_eqI_bit) (use low top in \<open>auto simp: less_Suc_eq numeral_eq_Suc\<close>)
qed

lemma crc_shift_pow_inj: "(crc_shift ^^ n) a = (crc_shift ^^ n) b \<Longrightarrow> a = b"
  by (induction n) (auto dest: crc_shift_inj)

section \<open>The tables hold the remainder of every byte\<close>

text \<open>
  The remainder of \<open>2 n\<close> and of \<open>2 n + 1\<close> follow from that of \<open>n\<close> by one bit step, so a
  table is checked with one bit step per pair of entries.
\<close>

fun doubling :: "u32 list \<Rightarrow> u32 list \<Rightarrow> bool" where
  "doubling (r # rs) (a # b # ts) =
     (a = crc_shift r \<and> b = crc_shift r XOR POLYNOMIAL \<and> doubling rs ts)"
| "doubling _ ts = (ts = [])"

lemma doubling_nth:
  "doubling rs ts \<Longrightarrow> 2 * n + 1 < length ts \<Longrightarrow>
   ts ! (2 * n) = crc_shift (rs ! n) \<and> ts ! (2 * n + 1) = crc_shift (rs ! n) XOR POLYNOMIAL"
proof (induction rs ts arbitrary: n rule: doubling.induct)
  case (1 r rs a b ts)
  show ?case
  proof (cases n)
    case 0
    with 1 show ?thesis by simp
  next
    case (Suc k)
    with 1 show ?thesis by simp
  qed
qed auto

lemma top_clear: "n < 128 \<Longrightarrow> \<not> bit (push_bit 24 (of_nat n :: u32)) 31"
  by (simp add: bit_push_bit_iff bit_of_nat_iff bit_iff_odd [of n])

definition table_word :: "nat \<Rightarrow> u32" where
  "table_word n = (crc_shift ^^ 8) (push_bit 24 (of_nat n))"

lemma table_word_1: "table_word 1 = POLYNOMIAL"
  by code_simp

lemma table_word_double:
  assumes "n < 128"
  shows "table_word (2 * n) = crc_shift (table_word n)"
proof -
  have "push_bit 24 (of_nat (2 * n) :: u32) = push_bit 1 (push_bit 24 (of_nat n))"
    by (simp add: push_bit_eq_mult)
  also have "\<dots> = crc_shift (push_bit 24 (of_nat n))"
    using top_clear [OF assms] by (simp add: crc_shift_def del: push_bit_Suc)
  finally show ?thesis by (simp only: table_word_def funpow_swap1)
qed

lemma table_word_double_1:
  assumes "n < 128"
  shows "table_word (2 * n + 1) = crc_shift (table_word n) XOR POLYNOMIAL"
proof -
  have "(of_nat (2 * n + 1) :: u32) = of_nat (2 * n) XOR 1"
    by (simp add: xor_one_eq)
  then have "table_word (2 * n + 1) = table_word (2 * n) XOR table_word 1"
    by (simp only: table_word_def push_bit_xor crc_shift_pow_xor of_nat_1)
  then show ?thesis by (simp add: table_word_double [OF assms] table_word_1 del: One_nat_def)
qed

lemma doubling_table_word:
  assumes "doubling tbl tbl" and "length tbl = 256" and "tbl ! 0 = 0" and "n < 256"
  shows "tbl ! n = table_word n"
  using assms(4)
proof (induction n rule: less_induct)
  case (less n)
  define m where "m = n div 2"
  then have m: "n = 2 * m \<or> n = 2 * m + 1" by presburger
  show ?case
  proof (cases "n = 0")
    case True
    then show ?thesis using assms(3) by (simp add: table_word_def)
  next
    case False
    show ?thesis
    proof (cases "n = 1")
      case True
      then show ?thesis
        using doubling_nth [OF assms(1), of 0] assms(2,3) table_word_1 by simp
    next
      case False
      with \<open>n \<noteq> 0\<close> m less.prems have "m < n" and "m < 128" by auto
      with less.IH have "tbl ! m = table_word m" by simp
      moreover have "tbl ! (2 * m) = crc_shift (tbl ! m) \<and>
          tbl ! (2 * m + 1) = crc_shift (tbl ! m) XOR POLYNOMIAL"
        using \<open>m < 128\<close> assms(1,2) by (intro doubling_nth) auto
      ultimately show ?thesis
        using m table_word_double [OF \<open>m < 128\<close>] table_word_double_1 [OF \<open>m < 128\<close>] by auto
    qed
  qed
qed


section \<open>Table-driven update\<close>

locale crc_table =
  fixes tbl :: "u32 list"
  assumes tbl_entry: "n < 256 \<Longrightarrow> tbl ! n = (crc_shift ^^ 8) (push_bit 24 (of_nat n))"
begin

lemma lookup_byte: "tbl ! unat (e :: u8) = (crc_shift ^^ 8) (push_bit 24 (ucast e))"
  using tbl_entry [of "unat e"] by simp

lemma byte_update: "tbl ! unat (d XOR ucast (drop_bit 24 r)) XOR push_bit 8 r = crc_byte r d"
proof -
  let ?e = "d XOR ucast (drop_bit 24 r)"
  let ?low = "r AND mask 24"
  have split: "r XOR push_bit 24 (ucast d) = push_bit 24 (ucast ?e) XOR ?low"
    by (rule word_eqI_bit)
      (auto simp: bit_xor_iff bit_push_bit_iff bit_ucast_iff bit_and_iff bit_mask_iff bit_drop_bit_eq)
  have "(crc_shift ^^ 8) ?low = push_bit 8 ?low"
    by (rule crc_shift_pow_small) (auto simp: bit_and_iff bit_mask_iff)
  also have "push_bit 8 ?low = push_bit 8 r"
    by (rule word_eqI_bit) (auto simp: bit_push_bit_iff bit_and_iff bit_mask_iff)
  finally show ?thesis
    by (simp only: crc_byte_def split crc_shift_pow_xor lookup_byte)
qed

end

lemma doubling_crcTable: "doubling crcTable crcTable"
  by (simp add: crcTable_def crc_shift_def)

lemma crcTable_entry: "n < 256 \<Longrightarrow> crcTable ! n = (crc_shift ^^ 8) (push_bit 24 (of_nat n))"
  using doubling_table_word [OF doubling_crcTable]
  by (simp add: table_word_def) (simp add: crcTable_def)

interpretation crc_c: crc_table crcTable
  by unfold_locales (rule crcTable_entry)

lemma crc32_table_eq: "crc32_table = crcTable"
  by (simp add: crc32_table_def crcTable_def)

interpretation nvm: crc_table crc32_table
  by unfold_locales (simp add: crc32_table_eq crcTable_entry)

lemma crcFast_step_bitwise:
  "crcFast_step m r d = crc_byte r (if m then reflect d 8 else d)"
  by (simp add: crcFast_step_def crc_c.byte_update Let_def)

lemma compute_crc_step_bitwise:
  "compute_crc_step crc32_table r d = crc_byte r (generate_mirror d)"
proof -
  have mask8: "(0xFF :: u32) = mask 8" by (simp add: mask_eq_exp_minus_1)
  have "(ucast (generate_mirror d) XOR (drop_bit 0x18 r AND 0xFF)) =
      (ucast (generate_mirror d XOR ucast (drop_bit 24 r)) :: u32)"
    by (rule word_eqI_bit)
      (auto simp: mask8 bit_xor_iff bit_ucast_iff bit_and_iff bit_drop_bit_eq bit_mask_iff)
  moreover have "unat (ucast e :: u32) = unat e" for e :: u8
    using unat_u8_bound [of e] by (simp add: unsigned_ucast_eq take_bit_nat_eq_self_iff del: unat_u8_bound)
  ultimately show ?thesis by (simp add: compute_crc_step_def nvm.byte_update)
qed

definition crc_spec :: "(u8 \<Rightarrow> u8) \<Rightarrow> u32 \<Rightarrow> u8 list \<Rightarrow> u32" where
  "crc_spec f r ds = foldl (\<lambda>r d. crc_byte r (f d)) r ds"

lemma crc_spec_Nil [simp]: "crc_spec f r [] = r"
  and crc_spec_Cons [simp]: "crc_spec f r (d # ds) = crc_spec f (crc_byte r (f d)) ds"
  and crc_spec_append: "crc_spec f r (xs @ ys) = crc_spec f (crc_spec f r xs) ys"
  by (simp_all add: crc_spec_def)

abbreviation mirror_of :: "bool \<Rightarrow> u8 \<Rightarrow> u8" where
  "mirror_of m d \<equiv> (if m then reflect d 8 else d)"

lemma crcFast_loop_spec:
  "0 \<le> i \<Longrightarrow> nat n \<le> length msg \<Longrightarrow>
   crcFast_loop msg n m i r = Some (crc_spec (mirror_of m) r (drop (nat i) (take (nat n) msg)))"
proof (induction msg n m i r rule: crcFast_loop.induct)
  case (1 msg n m i r)
  show ?case
  proof (cases "i < n")
    case True
    then have "drop (nat i) (take (nat n) msg) = msg ! nat i # drop (nat (i + 1)) (take (nat n) msg)"
      using 1 by (subst Cons_nth_drop_Suc [symmetric]) (auto simp: nat_add_distrib)
    with True 1 show ?thesis
      by (subst crcFast_loop.simps) (simp add: crcFast_step_bitwise)
  next
    case False
    then show ?thesis by (subst crcFast_loop.simps) simp
  qed
qed

lemma crcFast_loop_short:
  "0 \<le> i \<Longrightarrow> nat i \<le> length msg \<Longrightarrow> length msg < nat n \<Longrightarrow> crcFast_loop msg n m i r = None"
proof (induction msg n m i r rule: crcFast_loop.induct)
  case (1 msg n m i r)
  then show ?case by (subst crcFast_loop.simps) auto
qed

lemma crcFast_value:
  "crcFast msg n m =
     (if nat n \<le> length msg
      then Some (crc_spec (mirror_of m) 0xFFFFFFFF (take (nat n) msg) XOR 0xFFFFFFFF)
      else None)"
  by (simp add: crcFast_def crcFast_loop_spec crcFast_loop_short)

lemma reflect_loop_bit:
  "b \<le> nBits \<Longrightarrow> nBits \<le> 8 \<Longrightarrow>
   bit (reflect_loop b nBits data r) i \<longleftrightarrow>
     bit r i \<or> i < nBits - b \<and> bit data (nBits - 1 - b - i)"
proof (induction b nBits data r rule: reflect_loop.induct)
  case (1 b nBits data r)
  show ?case
  proof (cases "b < nBits")
    case True
    let ?r = "if data AND 1 \<noteq> 0 then r OR push_bit (nBits - 1 - b) 1 else r"
    have r: "bit ?r i \<longleftrightarrow> bit r i \<or> bit data 0 \<and> i = nBits - 1 - b"
      using True "1.prems"
      by (auto simp: bit_or_iff bit_push_bit_iff bit_1_iff bit_exp_iff and_one_eq bit_0 mod_2_eq_odd)
    have "bit (reflect_loop (Suc b) nBits (drop_bit 1 data) ?r) i \<longleftrightarrow>
        bit ?r i \<or> i < nBits - Suc b \<and> bit (drop_bit 1 data) (nBits - 1 - Suc b - i)"
      using "1.IH" [OF True] True "1.prems" by simp
    also have "\<dots> \<longleftrightarrow> bit r i \<or> i < nBits - b \<and> bit data (nBits - 1 - b - i)"
    proof (cases "i < nBits - Suc b")
      case low: True
      then have "Suc (nBits - Suc (Suc b) - i) = nBits - 1 - b - i" by simp
      with low show ?thesis by (simp only: r) (auto simp: bit_drop_bit_eq simp del: drop_bit_Suc)
    next
      case False
      with True have "i < nBits - b \<longleftrightarrow> i = nBits - 1 - b" by auto
      with False show ?thesis by (simp only: r) auto
    qed
    finally show ?thesis using True by (subst reflect_loop.simps) simp
  next
    case False
    with "1.prems" show ?thesis by (subst reflect_loop.simps) simp
  qed
qed

lemma bit_reflect: "bit (reflect d 8) i \<longleftrightarrow> i < 8 \<and> bit d (7 - i)"
  by (simp add: reflect_def reflect_loop_bit)

lemma reflect_reflect: "reflect (reflect d 8) 8 = d"
  by (rule word_eqI_bit) (auto simp: bit_reflect)

lemma inj_reflect: "inj (\<lambda>d. reflect d 8)"
  by (metis injI reflect_reflect)

lemma mirror_loop_bit:
  "(\<And>j. unat c \<le> j \<Longrightarrow> \<not> bit val j) \<Longrightarrow> i < 8 \<Longrightarrow> mirror_loop val m c = (m', c') \<Longrightarrow>
   bit (push_bit (unat c') m') i \<longleftrightarrow>
     (if unat c \<le> i then bit m (i - unat c) else bit val (unat c - 1 - i))"
proof (induction val m c rule: mirror_loop.induct)
  case (1 val m c)
  show ?case
  proof (cases "val = 0")
    case True
    with "1.prems" show ?thesis by (subst (asm) mirror_loop.simps) (auto simp: bit_push_bit_iff)
  next
    case False
    have "c \<noteq> 0"
    proof
      assume "c = 0"
      with "1.prems"(1) have "val = 0" by (auto intro: word_eqI_bit)
      with False show False by simp
    qed
    then have c: "unat c = Suc (unat (c - 1))" by (simp add: unat_minus_one unat_eq_0 [symmetric])
    have bounded: "\<not> bit (drop_bit 1 val) j" if "unat (c - 1) \<le> j" for j
      using that c "1.prems"(1) [of "Suc j"] by (auto simp: bit_drop_bit_eq simp del: drop_bit_Suc)
    have "mirror_loop (drop_bit 1 val) (push_bit 1 m OR (val AND 1)) (c - 1) = (m', c')"
      using "1.prems"(3) False by (subst (asm) mirror_loop.simps) simp
    from "1.IH" [OF False bounded "1.prems"(2) this] c "1.prems"(2)
    show ?thesis
      by (auto simp: bit_or_iff bit_push_bit_iff bit_and_iff bit_1_iff bit_drop_bit_eq Suc_diff_le Suc_diff_Suc not_le
          simp del: drop_bit_Suc push_bit_Suc split: if_splits)
  qed
qed

lemma generate_mirror_reflect: "generate_mirror d = reflect d 8"
proof (rule word_eqI_bit)
  fix i assume "i < LENGTH(8)"
  then have i: "i < 8" by simp
  obtain m' c' where l: "mirror_loop (drop_bit 1 d) d 7 = (m', c')" by fastforce
  have b: "\<not> bit (drop_bit 1 d) j" if "unat (7 :: u8) \<le> j" for j
    using that bit_imp_le_length [of d "Suc j"] by (auto simp: bit_drop_bit_eq simp del: drop_bit_Suc)
  have "bit (generate_mirror d) i = (if 7 \<le> i then bit d (i - 7) else bit d (Suc (6 - i)))"
    using mirror_loop_bit [OF b i l] l
    by (simp add: generate_mirror_def bit_drop_bit_eq del: drop_bit_Suc)
  moreover have "7 \<le> i \<Longrightarrow> i = 7" and "\<not> 7 \<le> i \<Longrightarrow> Suc (6 - i) = 7 - i" using i by auto
  ultimately show "bit (generate_mirror d) i = bit (reflect d 8) i"
    using i by (auto simp: bit_reflect)
qed

lemma compute_crc_loop_spec:
  "crc_compute_flags p AND 1 \<noteq> 0 \<Longrightarrow> i \<le> length data \<Longrightarrow>
   compute_crc_loop p crc32_table data n i r =
     (if n \<le> length data then Some (crc_spec (mirror_of True) r (drop i (take n data))) else None)"
proof (induction p crc32_table data n i r rule: compute_crc_loop.induct)
  case (1 p data n i r)
  show ?case
  proof (cases "i < n \<and> i < length data")
    case True
    then have "n \<le> length data \<Longrightarrow> drop i (take n data) = data ! i # drop (Suc i) (take n data)"
      by (subst Cons_nth_drop_Suc [symmetric]) auto
    with True 1 show ?thesis
      by (subst compute_crc_loop.simps) (simp add: compute_crc_step_bitwise generate_mirror_reflect)
  next
    case False
    with 1 show ?thesis by (subst compute_crc_loop.simps) auto
  qed
qed

lemma compute_crc_loop_unmirrored:
  "crc_compute_flags p AND 1 = 0 \<Longrightarrow> compute_crc_loop p tbl data n i r = Some r"
proof (induction p tbl data n i r rule: compute_crc_loop.induct)
  case (1 p tbl data n i r)
  then show ?case by (subst compute_crc_loop.simps) simp
qed

section \<open>Error detection\<close>

text \<open>At most four bytes, packed into the top of a word as the register takes them in.\<close>

fun be_top :: "u8 list \<Rightarrow> u32" where
  "be_top [] = 0"
| "be_top (d # ds) = push_bit 24 (ucast d) XOR drop_bit 8 (be_top ds)"

lemma be_top_low_clear: "length ds \<le> 4 \<Longrightarrow> i < 32 - 8 * length ds \<Longrightarrow> \<not> bit (be_top ds) i"
  by (induction ds arbitrary: i) (auto simp: bit_xor_iff bit_push_bit_iff bit_drop_bit_eq)

lemma be_top_shift:
  assumes "length ds \<le> 3"
  shows "be_top ds = (crc_shift ^^ 8) (drop_bit 8 (be_top ds))"
proof -
  have "(crc_shift ^^ 8) (drop_bit 8 (be_top ds)) = push_bit 8 (drop_bit 8 (be_top ds))"
    by (rule crc_shift_pow_small) (auto simp: bit_drop_bit_eq dest: bit_imp_le_length)
  also have "\<dots> = be_top ds"
  proof (rule word_eqI_bit)
    fix n
    have "8 \<le> n" if "bit (be_top ds) n"
      using that be_top_low_clear [of ds n] assms by fastforce
    then show "bit (push_bit 8 (drop_bit 8 (be_top ds))) n = bit (be_top ds) n"
      by (auto simp: bit_push_bit_iff bit_drop_bit_eq dest: bit_imp_le_length)
  qed
  finally show ?thesis ..
qed

lemma crc_spec_short:
  "length ds \<le> 4 \<Longrightarrow>
   crc_spec f r ds = (crc_shift ^^ (8 * length ds)) (r XOR be_top (map f ds))"
proof (induction ds arbitrary: r)
  case Nil
  show ?case by simp
next
  case (Cons d ds)
  let ?x = "r XOR push_bit 24 (ucast (f d))"
  have "crc_spec f r (d # ds) =
      (crc_shift ^^ (8 * length ds)) ((crc_shift ^^ 8) ?x XOR be_top (map f ds))"
    using Cons by (simp add: crc_byte_def)
  also have "be_top (map f ds) = (crc_shift ^^ 8) (drop_bit 8 (be_top (map f ds)))"
    by (rule be_top_shift) (use Cons.prems in simp)
  also have "(crc_shift ^^ 8) ?x XOR (crc_shift ^^ 8) (drop_bit 8 (be_top (map f ds))) =
      (crc_shift ^^ 8) (r XOR be_top (map f (d # ds)))"
    by (simp only: crc_shift_pow_xor [symmetric]) (simp add: xor.assoc)
  finally have "crc_spec f r (d # ds) =
      (crc_shift ^^ (8 * length ds + 8)) (r XOR be_top (map f (d # ds)))"
    by (simp only: funpow_add o_apply)
  then show ?case by (simp add: add.commute)
qed

lemma be_top_inj: "length xs = length ys \<Longrightarrow> length xs \<le> 4 \<Longrightarrow> be_top xs = be_top ys \<Longrightarrow> xs = ys"
proof (induction xs ys rule: list_induct2)
  case Nil
  show ?case by simp
next
  case (Cons x xs y ys)
  have low: "bit (be_top (d # ds)) i = (if 24 \<le> i then bit d (i - 24) else bit (be_top ds) (i + 8))"
    if "i < 32" for d ds i
    using that by (auto simp: bit_xor_iff bit_push_bit_iff bit_drop_bit_eq bit_ucast_iff ac_simps
        dest: bit_imp_le_length)
  have b: "bit (be_top (x # xs)) i = bit (be_top (y # ys)) i" for i
    using Cons.prems by simp
  have "x = y"
    by (rule word_eqI_bit) (use b low [of "_ + 24"] in \<open>auto simp del: be_top.simps\<close>)
  moreover have "be_top xs = be_top ys"
  proof (rule word_eqI_bit)
    fix i assume i: "i < LENGTH(32)"
    show "bit (be_top xs) i = bit (be_top ys) i"
    proof (cases "i < 8")
      case True
      then show ?thesis
        using be_top_low_clear [of xs i] be_top_low_clear [of ys i] Cons by auto
    next
      case False
      with i have "\<not> 24 \<le> i - 8" and "i - 8 < 32" and "i - 8 + 8 = i" by auto
      then show ?thesis
        using b [of "i - 8"] low [of "i - 8" x xs] low [of "i - 8" y ys] i
        by (simp del: be_top.simps)
    qed
  qed
  ultimately show ?case using Cons by simp
qed

lemma crc_byte_inj: "crc_byte a d = crc_byte b d \<Longrightarrow> a = b"
  by (auto simp: crc_byte_def xor_right_cancel dest!: crc_shift_pow_inj)

lemma crc_spec_inj: "crc_spec f a ds = crc_spec f b ds \<Longrightarrow> a = b"
  by (induction ds arbitrary: a b) (auto dest: crc_byte_inj)

lemma crc_spec_burst:
  assumes "length a = length b" and "length a \<le> 4" and "a \<noteq> b" and "inj f"
  shows "crc_spec f r (xs @ a @ ys) \<noteq> crc_spec f r (xs @ b @ ys)"
proof
  assume "crc_spec f r (xs @ a @ ys) = crc_spec f r (xs @ b @ ys)"
  then have "crc_spec f (crc_spec f r xs) a = crc_spec f (crc_spec f r xs) b"
    by (simp add: crc_spec_append crc_spec_inj)
  then have "be_top (map f a) = be_top (map f b)"
    using assms(1,2) by (auto simp: crc_spec_short xor.commute xor_right_cancel
        dest!: crc_shift_pow_inj)
  then have "map f a = map f b"
    using assms(1,2) by (intro be_top_inj) auto
  with assms(3,4) show False by (simp add: inj_map_eq_map)
qed

section \<open>Properties\<close>

text \<open>C38: For every message, byte count and mirroring mode, \<^verbatim>\<open>crcFast\<close> returns the complement of
the remainder of dividing the first \<open>nBytes\<close> bytes (each bit-reversed when mirrored) by the
polynomial 0x04C11DB7 bit by bit, starting from all ones; it reads past the message exactly when
\<open>nBytes\<close> exceeds its length, and a negative count gives the CRC of the empty message.\<close>

theorem crcFast_divides:
  "crcFast msg n m =
     (if nat n \<le> length msg
      then Some (crc_spec (mirror_of m) 0xFFFFFFFF (take (nat n) msg) XOR 0xFFFFFFFF)
      else None)"
  by (rule crcFast_value)



text \<open>Two messages of the same length that differ only inside a window of at most four
consecutive bytes have different CRCs, in both mirroring modes: every burst of up to four bytes of
corruption is detected.\<close>

theorem crcFast_detects_burst:
  assumes "length a = length b" and "length a \<le> 4" and "a \<noteq> b"
  shows "crcFast (xs @ a @ ys) (int (length (xs @ a @ ys))) m \<noteq>
    crcFast (xs @ b @ ys) (int (length (xs @ b @ ys))) m"
  using crc_spec_burst [OF assms, of "mirror_of m"] inj_reflect
  by (cases m) (simp_all add: crcFast_value xor_right_cancel)

lemma crcFast_detects_burst_witness:
  "crcFast ([1] @ [2] @ [3]) 3 True \<noteq> crcFast ([1] @ [5] @ [3]) 3 True"
  using crcFast_detects_burst [of "[2]" "[5]" "[1]" "[3]" True] by simp

text \<open>\<^verbatim>\<open>reflect\<close> with eight bits and \<^verbatim>\<open>generate_mirror\<close>, two different loops, both reverse the
order of the bits of a byte; reversing twice gives the byte back.\<close>

theorem reflect_reverses_bits:
  "(bit (reflect d 8) i \<longleftrightarrow> i < 8 \<and> bit d (7 - i)) \<and> generate_mirror d = reflect d 8 \<and>
   reflect (reflect d 8) 8 = d"
  by (simp add: bit_reflect generate_mirror_reflect reflect_reflect)

text \<open>Without the mirror flag \<^verbatim>\<open>compute_crc\<close> never looks at the data: its result is the start
value, whatever the buffer and the length.\<close>

theorem compute_crc_unmirrored_ignores_data:
  assumes "crc_compute_flags p AND IS_CRC_MIRROR = 0"
  shows "compute_crc p data len = Some (initial_crc p)"
  using assms by (simp add: compute_crc_def get_pointer_to_crctable_def compute_crc_loop_unmirrored)

lemma compute_crc_unmirrored_ignores_data_witness:
  "compute_crc \<lparr>crc_type = CRC_32bit, initial_crc = 7, crc_compute_flags = 2\<rparr> [1, 2, 3] 3 = Some 7"
  using compute_crc_unmirrored_ignores_data [of
      "\<lparr>crc_type = CRC_32bit, initial_crc = 7, crc_compute_flags = 2\<rparr>" "[1, 2, 3]" 3]
  by simp

end
