(* ===== verification/Ccb.thy ===== *)
theory Ccb
  imports Prelude
begin

text \<open>
  The calibration file reader, \<^verbatim>\<open>sdk/common/adi/ccb/src/ccb.c\<close>: it walks the blocks of a
  CCB file held in memory. A pointer into the file is the offset from its start (the sum of
  all block sizes stays below \<open>2 ^ 48\<close>, so the pointers never wrap), \<^verbatim>\<open>NULL\<close> is \<open>None\<close>, and
  every load goes through \<open>load8\<close>, \<open>load16\<close> or \<open>load32\<close>, which fault outside the buffer. The
  files are little-endian, as are the hosts.
\<close>

section \<open>Memory\<close>

record ccb_data_t =
  ccb_p :: "u8 list"
  ccb_size :: nat

definition load8 :: "ccb_data_t \<Rightarrow> nat \<Rightarrow> u8 mem" where
  "load8 d off = (if off < length (ccb_p d) then Ret (ccb_p d ! off) else Fault)"

definition load16 :: "ccb_data_t \<Rightarrow> nat \<Rightarrow> nat mem" where
  "load16 d off =
     (if off + 1 < length (ccb_p d)
      then Ret (unat (ccb_p d ! off) + 256 * unat (ccb_p d ! (off + 1)))
      else Fault)"

definition load32 :: "ccb_data_t \<Rightarrow> nat \<Rightarrow> nat mem" where
  "load32 d off =
     (if off + 3 < length (ccb_p d)
      then Ret (unat (ccb_p d ! off) + 256 * unat (ccb_p d ! (off + 1))
             + 65536 * unat (ccb_p d ! (off + 2)) + 16777216 * unat (ccb_p d ! (off + 3)))
      else Fault)"

text \<open>Sizes and field offsets of the structures of \<^verbatim>\<open>TOF_Calibration_Types.h\<close>.\<close>

abbreviation sizeof_CAL_BLOCK_INFO_V1 :: nat where "sizeof_CAL_BLOCK_INFO_V1 \<equiv> 24"
abbreviation sizeof_CAL_FILE_HEADER_V1 :: nat where "sizeof_CAL_FILE_HEADER_V1 \<equiv> 16"
abbreviation sizeof_CAL_HEADER_BLOCK_V3 :: nat where "sizeof_CAL_HEADER_BLOCK_V3 \<equiv> 240"

definition block_BlockID :: "ccb_data_t \<Rightarrow> nat \<Rightarrow> u8 mem" where
  "block_BlockID d p = load8 d p"

definition block_BlockSize :: "ccb_data_t \<Rightarrow> nat \<Rightarrow> nat mem" where
  "block_BlockSize d p = load32 d (p + 4)"

definition p0_Mode :: "ccb_data_t \<Rightarrow> nat \<Rightarrow> u8 mem" where
  "p0_Mode d p = load8 d (p + sizeof_CAL_BLOCK_INFO_V1)"

definition header_nBlocks :: "ccb_data_t \<Rightarrow> nat \<Rightarrow> nat mem" where
  "header_nBlocks d p = load16 d (p + sizeof_CAL_BLOCK_INFO_V1)"

section \<open>Block kinds\<close>

datatype block_t = KIND_ALL | BLOCK_ID u8

definition BLOCK_ALL :: block_t where "BLOCK_ALL = KIND_ALL"
definition BLOCK_ADDRVAL_REG_BLOCK_V1 :: block_t where "BLOCK_ADDRVAL_REG_BLOCK_V1 = BLOCK_ID 0x41"
definition BLOCK_FOI_MASK_BLOCK_V0_V1INFO :: block_t where "BLOCK_FOI_MASK_BLOCK_V0_V1INFO = BLOCK_ID 0x46"
definition BLOCK_GEOMETRIC_BLOCK_V3 :: block_t where "BLOCK_GEOMETRIC_BLOCK_V3 = BLOCK_ID 0x47"
definition BLOCK_ILLUM_PROFILE_BLOCK_V2 :: block_t where "BLOCK_ILLUM_PROFILE_BLOCK_V2 = BLOCK_ID 0x49"
definition BLOCK_LSDAC_BLOCK_V1 :: block_t where "BLOCK_LSDAC_BLOCK_V1 = BLOCK_ID 0x4C"
definition BLOCK_P0BLOCK_V4 :: block_t where "BLOCK_P0BLOCK_V4 = BLOCK_ID 0x50"
definition BLOCK_SPATIAL_TEMP_CORR_BLOCK :: block_t where "BLOCK_SPATIAL_TEMP_CORR_BLOCK = BLOCK_ID 0x53"
definition BLOCK_TEMP_CORR_BLOCK_V0_V1INFO :: block_t where "BLOCK_TEMP_CORR_BLOCK_V0_V1INFO = BLOCK_ID 0x54"
definition BLOCK_RELATIVE_ILLUM_BLOCK :: block_t where "BLOCK_RELATIVE_ILLUM_BLOCK = BLOCK_ID 0x56"
definition BLOCK_GAIN_CORRECTION_BLOCK :: block_t where "BLOCK_GAIN_CORRECTION_BLOCK = BLOCK_ID 0xD7"

fun block_id_matches :: "u8 \<Rightarrow> block_t \<Rightarrow> bool" where
  "block_id_matches ccb_block_id KIND_ALL = True"
| "block_id_matches ccb_block_id (BLOCK_ID b) = (ccb_block_id = b)"

section \<open>Headers and the search for a block\<close>

definition ccb_read_header :: "ccb_data_t \<Rightarrow> nat option" where
  "ccb_read_header d =
     (let p = 0 in
      if p + sizeof_CAL_FILE_HEADER_V1 \<ge> ccb_size d then None else Some p)"

definition ccb_read_header_block :: "ccb_data_t \<Rightarrow> nat option" where
  "ccb_read_header_block d =
     (let p = sizeof_CAL_FILE_HEADER_V1 in
      if p + sizeof_CAL_HEADER_BLOCK_V3 \<ge> ccb_size d then None else Some p)"

text \<open>The loop of \<^verbatim>\<open>ccb_get_cal_block_info\<close>; the first argument is \<^verbatim>\<open>nBlocks - block_index\<close>.\<close>

fun cal_block_info_loop ::
  "nat \<Rightarrow> ccb_data_t \<Rightarrow> block_t \<Rightarrow> nat \<Rightarrow> nat \<Rightarrow> nat \<Rightarrow> nat option mem" where
  "cal_block_info_loop 0 d block_id index p filter_count = Ret None"
| "cal_block_info_loop (Suc n) d block_id index p filter_count =
     (if p + sizeof_CAL_BLOCK_INFO_V1 \<ge> ccb_size d then Ret None
      else case block_BlockID d p of
        Fault \<Rightarrow> Fault
      | Ret bid \<Rightarrow>
          if block_id_matches bid block_id \<and> filter_count = index then Ret (Some p)
          else case block_BlockSize d p of
            Fault \<Rightarrow> Fault
          | Ret sz \<Rightarrow>
              cal_block_info_loop n d block_id index (p + sz)
                (if block_id_matches bid block_id then filter_count + 1 else filter_count))"

definition first_block :: nat where
  "first_block = sizeof_CAL_FILE_HEADER_V1 + sizeof_CAL_HEADER_BLOCK_V3"

definition ccb_get_cal_block_info :: "ccb_data_t \<Rightarrow> block_t \<Rightarrow> nat \<Rightarrow> nat option mem" where
  "ccb_get_cal_block_info d block_id index =
     (case ccb_read_header d of
        None \<Rightarrow> Ret None
      | Some header \<Rightarrow>
          (case ccb_read_header_block d of
             None \<Rightarrow> Ret None
           | Some header_block \<Rightarrow>
               (case header_nBlocks d header_block of
                  Fault \<Rightarrow> Fault
                | Ret nBlocks \<Rightarrow> cal_block_info_loop nBlocks d block_id index first_block 0)))"

text \<open>The ten accessors that \<^verbatim>\<open>DEFINE_GET_CAL_BLOCK\<close> generates.\<close>

definition ccb_get_cal_block_addrval_reglist where
  "ccb_get_cal_block_addrval_reglist d index = ccb_get_cal_block_info d BLOCK_ADDRVAL_REG_BLOCK_V1 index"
definition ccb_get_cal_block_foi_mask where
  "ccb_get_cal_block_foi_mask d index = ccb_get_cal_block_info d BLOCK_FOI_MASK_BLOCK_V0_V1INFO index"
definition ccb_get_cal_block_geometric where
  "ccb_get_cal_block_geometric d index = ccb_get_cal_block_info d BLOCK_GEOMETRIC_BLOCK_V3 index"
definition ccb_get_cal_block_illum_profile where
  "ccb_get_cal_block_illum_profile d index = ccb_get_cal_block_info d BLOCK_ILLUM_PROFILE_BLOCK_V2 index"
definition ccb_get_cal_block_lsdacs where
  "ccb_get_cal_block_lsdacs d index = ccb_get_cal_block_info d BLOCK_LSDAC_BLOCK_V1 index"
definition ccb_get_cal_block_p0 where
  "ccb_get_cal_block_p0 d index = ccb_get_cal_block_info d BLOCK_P0BLOCK_V4 index"
definition ccb_get_cal_block_spatial_tempcor where
  "ccb_get_cal_block_spatial_tempcor d index = ccb_get_cal_block_info d BLOCK_SPATIAL_TEMP_CORR_BLOCK index"
definition ccb_get_cal_block_tempcorrection where
  "ccb_get_cal_block_tempcorrection d index = ccb_get_cal_block_info d BLOCK_TEMP_CORR_BLOCK_V0_V1INFO index"
definition ccb_get_cal_block_relative_illum where
  "ccb_get_cal_block_relative_illum d index = ccb_get_cal_block_info d BLOCK_RELATIVE_ILLUM_BLOCK index"
definition ccb_get_cal_block_gaincorrection where
  "ccb_get_cal_block_gaincorrection d index = ccb_get_cal_block_info d BLOCK_GAIN_CORRECTION_BLOCK index"

section \<open>The modes of the P0 blocks\<close>

text \<open>
  \<^verbatim>\<open>ccb_get_available_modes\<close>: \<open>buf\<close> is the caller's array (\<open>None\<close> for \<^verbatim>\<open>NULL\<close>), \<open>m\<close> how far the
  \<^verbatim>\<open>modes\<close> pointer has moved into it, \<open>num\<close> the \<^verbatim>\<open>uint8_t\<close> behind \<^verbatim>\<open>NumberofModes\<close>. The test reads
  \<^verbatim>\<open>modes[*NumberofModes]\<close>, the array at \<open>m + num\<close>; the store goes to \<open>m\<close>.
\<close>

fun available_modes_loop ::
  "nat \<Rightarrow> ccb_data_t \<Rightarrow> block_t \<Rightarrow> nat \<Rightarrow> u8 list option \<Rightarrow> nat \<Rightarrow> u8 \<Rightarrow>
   (u8 \<times> u8 list option \<times> u8) mem" where
  "available_modes_loop 0 d block_id p buf m num = Ret (1, buf, num)"
| "available_modes_loop (Suc n) d block_id p buf m num =
     (if p + sizeof_CAL_BLOCK_INFO_V1 \<ge> ccb_size d then Ret (0, buf, num)
      else case (block_BlockID d p, block_BlockSize d p) of
        (Ret bid, Ret sz) \<Rightarrow>
          (case buf of
             Some modes \<Rightarrow>
               if block_id_matches bid block_id
               then if m + unat num < length modes
                 then case p0_Mode d p of
                     Fault \<Rightarrow> Fault
                   | Ret md \<Rightarrow>
                       if modes ! (m + unat num) \<noteq> md
                       then available_modes_loop n d block_id (p + sz)
                              (Some (modes[m := md])) (m + 1) (num + 1)
                       else available_modes_loop n d block_id (p + sz) buf m num
                 else Fault
               else available_modes_loop n d block_id (p + sz) buf m num
           | None \<Rightarrow> available_modes_loop n d block_id (p + sz) buf m num)
      | _ \<Rightarrow> Fault)"

definition ccb_get_available_modes ::
  "ccb_data_t \<Rightarrow> block_t \<Rightarrow> u8 list option \<Rightarrow> u8 \<Rightarrow> (u8 \<times> u8 list option \<times> u8) mem" where
  "ccb_get_available_modes d block_id modes num =
     (case ccb_read_header d of
        None \<Rightarrow> Ret (0, modes, num)
      | Some header \<Rightarrow>
          (case ccb_read_header_block d of
             None \<Rightarrow> Ret (0, modes, num)
           | Some header_block \<Rightarrow>
               (case header_nBlocks d header_block of
                  Fault \<Rightarrow> Fault
                | Ret nBlocks \<Rightarrow> available_modes_loop nBlocks d block_id first_block modes 0 num)))"

definition ccb_get_modes_from_blocks_p0 ::
  "ccb_data_t \<Rightarrow> u8 list option \<Rightarrow> u8 \<Rightarrow> (u8 \<times> u8 list option \<times> u8) mem" where
  "ccb_get_modes_from_blocks_p0 d modes num = ccb_get_available_modes d BLOCK_P0BLOCK_V4 modes num"

section \<open>The blocks of one mode\<close>

text \<open>
  \<^verbatim>\<open>ccb_get_mode_block_info\<close>: the linked list, newest block first, as a list of offsets;
  \<^verbatim>\<open>no_of_blocks\<close> is a \<^verbatim>\<open>uint16_t\<close>. \<open>alloc k\<close> says whether the \<open>k\<close>-th \<^verbatim>\<open>calloc\<close> succeeds. The mode
  is an \<^verbatim>\<open>uint16_t\<close> compared with the block's byte.
\<close>

record ccb_mode_data =
  no_of_blocks :: u16
  block_list :: "nat list"

definition empty_mode_data :: ccb_mode_data where
  "empty_mode_data = \<lparr>no_of_blocks = 0, block_list = []\<rparr>"

fun mode_block_loop ::
  "(nat \<Rightarrow> bool) \<Rightarrow> nat \<Rightarrow> ccb_data_t \<Rightarrow> block_t \<Rightarrow> u16 \<Rightarrow> nat \<Rightarrow> ccb_mode_data \<Rightarrow> ccb_mode_data mem" where
  "mode_block_loop alloc 0 d block_id mode p md = Ret md"
| "mode_block_loop alloc (Suc n) d block_id mode p md =
     (if p + sizeof_CAL_BLOCK_INFO_V1 \<ge> ccb_size d then Ret empty_mode_data
      else case (block_BlockID d p, block_BlockSize d p) of
        (Ret bid, Ret sz) \<Rightarrow>
          if block_id_matches bid block_id
          then case p0_Mode d p of
              Fault \<Rightarrow> Fault
            | Ret m \<Rightarrow>
                if ucast m = mode
                then if alloc (length (block_list md))
                  then mode_block_loop alloc n d block_id mode (p + sz)
                         \<lparr>no_of_blocks = no_of_blocks md + 1, block_list = p # block_list md\<rparr>
                  else Ret empty_mode_data
                else mode_block_loop alloc n d block_id mode (p + sz) md
          else mode_block_loop alloc n d block_id mode (p + sz) md
      | _ \<Rightarrow> Fault)"

definition ccb_get_mode_block_info ::
  "(nat \<Rightarrow> bool) \<Rightarrow> ccb_data_t \<Rightarrow> block_t \<Rightarrow> u16 \<Rightarrow> ccb_mode_data mem" where
  "ccb_get_mode_block_info alloc d block_id mode =
     (case ccb_read_header d of
        None \<Rightarrow> Ret empty_mode_data
      | Some header \<Rightarrow>
          (case ccb_read_header_block d of
             None \<Rightarrow> Ret empty_mode_data
           | Some header_block \<Rightarrow>
               (case header_nBlocks d header_block of
                  Fault \<Rightarrow> Fault
                | Ret nBlocks \<Rightarrow>
                    mode_block_loop alloc nBlocks d block_id mode first_block empty_mode_data)))"

definition ccb_get_mode_block_p0 :: "(nat \<Rightarrow> bool) \<Rightarrow> ccb_data_t \<Rightarrow> u16 \<Rightarrow> ccb_mode_data mem" where
  "ccb_get_mode_block_p0 alloc d mode = ccb_get_mode_block_info alloc d BLOCK_P0BLOCK_V4 mode"

section \<open>The index over all blocks\<close>

lemma cal_block_info_loop_Some_index:
  "cal_block_info_loop n d b index p fc = Ret (Some q) \<Longrightarrow> fc \<le> index \<and> index < fc + n"
  by (induction n arbitrary: p fc)
    (auto split: if_splits mem.splits dest: Suc_leD, (fastforce)+)

lemma load16_bound: "load16 d p = Ret n \<Longrightarrow> n < 65536"
proof -
  assume h: "load16 d p = Ret n"
  have "unat (ccb_p d ! p) < 256" "unat (ccb_p d ! (p + 1)) < 256" by simp_all
  moreover have "n = unat (ccb_p d ! p) + 256 * unat (ccb_p d ! (p + 1))"
    using h by (auto simp: load16_def split: if_splits)
  ultimately show ?thesis by linarith
qed

lemma ccb_get_cal_block_info_index:
  "ccb_get_cal_block_info d b index = Ret (Some p) \<Longrightarrow> index < 65536"
  using cal_block_info_loop_Some_index load16_bound
  by (fastforce simp: ccb_get_cal_block_info_def header_nBlocks_def split: option.splits mem.splits)

text \<open>
  \<^verbatim>\<open>index_cal_blocks\<close> appends the blocks of one kind to the storage that ten calls share. The
  state holds the caller's variables: \<^verbatim>\<open>_storage\<close> up to the \<^verbatim>\<open>pp_block\<close> pointer, \<^verbatim>\<open>available\<close>,
  \<^verbatim>\<open>num_blocks\<close> and \<^verbatim>\<open>complete\<close>. An array of the index is the position in the storage where it
  starts and its count. The loop ends because \<^verbatim>\<open>nBlocks\<close> is a 16-bit count.
\<close>

record index_state =
  storage :: "nat list"
  available :: nat
  num_blocks :: int
  complete :: bool

function index_cal_blocks_loop ::
  "ccb_data_t \<Rightarrow> block_t \<Rightarrow> nat \<Rightarrow> nat \<Rightarrow> index_state \<Rightarrow> (nat \<times> index_state) mem" where
  "index_cal_blocks_loop d block_id i count st =
     (case ccb_get_cal_block_info d block_id i of
        Fault \<Rightarrow> Fault
      | Ret None \<Rightarrow> Ret (count, st)
      | Ret (Some p_block) \<Rightarrow>
          (let st = st\<lparr>num_blocks := num_blocks st + 1\<rparr> in
           if available st > 0
           then index_cal_blocks_loop d block_id (i + 1) (count + 1)
                  (st\<lparr>storage := storage st @ [p_block], available := available st - 1\<rparr>)
           else index_cal_blocks_loop d block_id (i + 1) count (st\<lparr>complete := False\<rparr>)))"
  by pat_completeness auto
termination
  by (relation "measure (\<lambda>(d, b, i, c, st). 65536 - i)")
    (use ccb_get_cal_block_info_index in \<open>fastforce+\<close>)

declare index_cal_blocks_loop.simps [simp del]

definition index_cal_blocks ::
  "ccb_data_t \<Rightarrow> block_t \<Rightarrow> index_state \<Rightarrow> ((nat \<times> nat) \<times> index_state) mem" where
  "index_cal_blocks d block_id st =
     (let result = length (storage st) in
      case index_cal_blocks_loop d block_id 0 0 st of
        Fault \<Rightarrow> Fault
      | Ret (count, st) \<Rightarrow> Ret ((result, count), st))"

text \<open>The arrays of \<^verbatim>\<open>ccb_index_t\<close>, in the order of the structure.\<close>

record ccb_index_t =
  index_num_blocks :: int
  arrays :: "(nat \<times> nat) list"
  index_storage :: "nat list"

abbreviation sizeof_ccb_index_t :: nat where "sizeof_ccb_index_t \<equiv> 168"

definition index_kinds :: "block_t list" where
  "index_kinds =
     [BLOCK_ADDRVAL_REG_BLOCK_V1, BLOCK_FOI_MASK_BLOCK_V0_V1INFO, BLOCK_GEOMETRIC_BLOCK_V3,
      BLOCK_ILLUM_PROFILE_BLOCK_V2, BLOCK_LSDAC_BLOCK_V1, BLOCK_P0BLOCK_V4,
      BLOCK_SPATIAL_TEMP_CORR_BLOCK, BLOCK_TEMP_CORR_BLOCK_V0_V1INFO,
      BLOCK_RELATIVE_ILLUM_BLOCK, BLOCK_GAIN_CORRECTION_BLOCK]"

fun index_all ::
  "ccb_data_t \<Rightarrow> block_t list \<Rightarrow> index_state \<Rightarrow> ((nat \<times> nat) list \<times> index_state) mem" where
  "index_all d [] st = Ret ([], st)"
| "index_all d (b # bs) st =
     (case index_cal_blocks d b st of
        Fault \<Rightarrow> Fault
      | Ret (arr, st) \<Rightarrow>
          (case index_all d bs st of
             Fault \<Rightarrow> Fault
           | Ret (arrs, st) \<Rightarrow> Ret (arr # arrs, st)))"

definition ccb_build_cal_block_index :: "ccb_data_t \<Rightarrow> nat \<Rightarrow> ccb_index_t option mem" where
  "ccb_build_cal_block_index d buffer_size =
     (if buffer_size < sizeof_ccb_index_t then Ret None
      else case index_all d index_kinds
             \<lparr>storage = [], available = (buffer_size - sizeof_ccb_index_t) div 8,
              num_blocks = 0, complete = True\<rparr> of
          Fault \<Rightarrow> Fault
        | Ret (arrs, st) \<Rightarrow>
            Ret (Some \<lparr>index_num_blocks = (if complete st then num_blocks st else - num_blocks st),
                       arrays = arrs, index_storage = storage st\<rparr>))"

section \<open>Specification: the blocks of a file\<close>

text \<open>
  The blocks the header announces, as the offsets at which they start, and whether all of
  them lie inside the file.
\<close>

definition size_at :: "ccb_data_t \<Rightarrow> nat \<Rightarrow> nat" where
  "size_at d p = (case block_BlockSize d p of Ret sz \<Rightarrow> sz | Fault \<Rightarrow> 0)"

definition id_at :: "ccb_data_t \<Rightarrow> nat \<Rightarrow> u8" where
  "id_at d p = (case block_BlockID d p of Ret b \<Rightarrow> b | Fault \<Rightarrow> 0)"

definition mode_at :: "ccb_data_t \<Rightarrow> nat \<Rightarrow> u8" where
  "mode_at d p = (case p0_Mode d p of Ret b \<Rightarrow> b | Fault \<Rightarrow> 0)"

fun walk :: "nat \<Rightarrow> ccb_data_t \<Rightarrow> nat \<Rightarrow> nat list \<times> bool" where
  "walk 0 d p = ([], True)"
| "walk (Suc n) d p =
     (if p + sizeof_CAL_BLOCK_INFO_V1 \<ge> ccb_size d then ([], False)
      else case walk n d (p + size_at d p) of (ps, ok) \<Rightarrow> (p # ps, ok))"

definition headers_ok :: "ccb_data_t \<Rightarrow> bool" where
  "headers_ok d \<longleftrightarrow> first_block < ccb_size d"

definition announced :: "ccb_data_t \<Rightarrow> nat" where
  "announced d = (case header_nBlocks d sizeof_CAL_FILE_HEADER_V1 of Ret n \<Rightarrow> n | Fault \<Rightarrow> 0)"

definition blocks :: "ccb_data_t \<Rightarrow> nat list" where
  "blocks d = (if headers_ok d then fst (walk (announced d) d first_block) else [])"

definition intact :: "ccb_data_t \<Rightarrow> bool" where
  "intact d \<longleftrightarrow> headers_ok d \<and> snd (walk (announced d) d first_block)"

definition of_kind :: "block_t \<Rightarrow> ccb_data_t \<Rightarrow> nat list" where
  "of_kind b d = filter (\<lambda>p. block_id_matches (id_at d p) b) (blocks d)"

definition nth_opt :: "'a list \<Rightarrow> nat \<Rightarrow> 'a option" where
  "nth_opt xs i = (if i < length xs then Some (xs ! i) else None)"

text \<open>The descriptor is sound: the size it states is backed by the buffer.\<close>

definition backed :: "ccb_data_t \<Rightarrow> bool" where
  "backed d \<longleftrightarrow> ccb_size d \<le> length (ccb_p d)"

section \<open>Every load is inside the file\<close>

lemma loads_ok:
  assumes "backed d" "p + sizeof_CAL_BLOCK_INFO_V1 < ccb_size d"
  shows "block_BlockID d p = Ret (id_at d p)"
    and "block_BlockSize d p = Ret (size_at d p)"
    and "p0_Mode d p = Ret (mode_at d p)"
  using assms
  by (auto simp: backed_def id_at_def size_at_def mode_at_def block_BlockID_def
      block_BlockSize_def p0_Mode_def load8_def load32_def)

lemma announced_ok:
  "backed d \<Longrightarrow> headers_ok d \<Longrightarrow> header_nBlocks d 16 = Ret (announced d)"
  by (auto simp: backed_def headers_ok_def first_block_def announced_def header_nBlocks_def load16_def)

lemma announced_bound: "announced d < 65536"
  using load16_bound by (auto simp: announced_def header_nBlocks_def split: mem.split)

lemma headers_read:
  "ccb_read_header d = (if 16 < ccb_size d then Some 0 else None)"
  "ccb_read_header_block d = (if headers_ok d then Some 16 else None)"
  by (auto simp: ccb_read_header_def ccb_read_header_block_def headers_ok_def first_block_def)

lemma headers_ok_16: "headers_ok d \<Longrightarrow> 16 < ccb_size d"
  by (simp add: headers_ok_def first_block_def)

lemmas header_simps = headers_read headers_ok_16 announced_ok

lemma length_walk: "length (fst (walk n d p)) \<le> n"
  by (induction n arbitrary: p) (auto split: prod.split simp: case_prod_beta)

lemma nth_opt_Cons: "nth_opt (x # xs) i = (if i = 0 then Some x else nth_opt xs (i - 1))"
  by (auto simp: nth_opt_def)

lemma cal_block_info_loop_walk:
  assumes "backed d" "fc \<le> index"
  shows "cal_block_info_loop n d b index p fc =
    Ret (nth_opt (filter (\<lambda>p. block_id_matches (id_at d p) b) (fst (walk n d p))) (index - fc))"
  using assms(2)
proof (induction n arbitrary: p fc)
  case 0
  then show ?case by (simp add: nth_opt_def)
next
  case (Suc n)
  show ?case
  proof (cases "p + 24 \<ge> ccb_size d")
    case True
    then show ?thesis by (simp add: nth_opt_def)
  next
    case False
    then have l: "p + 24 < ccb_size d" by simp
    show ?thesis
      using Suc loads_ok [OF assms(1) l] False
      by (auto simp: case_prod_beta nth_opt_Cons)
  qed
qed

lemma get_cal_block_info_value:
  assumes "backed d"
  shows "ccb_get_cal_block_info d b index = Ret (nth_opt (of_kind b d) index)"
proof (cases "headers_ok d")
  case True
  then show ?thesis
    using assms cal_block_info_loop_walk [OF assms, of 0 index "announced d" b first_block]
    by (simp add: ccb_get_cal_block_info_def header_simps of_kind_def blocks_def)
next
  case False
  then show ?thesis
    by (auto simp: ccb_get_cal_block_info_def headers_read of_kind_def blocks_def nth_opt_def)
qed

section \<open>The list of modes\<close>

definition p0_modes :: "ccb_data_t \<Rightarrow> u8 list" where
  "p0_modes d = map (mode_at d) (of_kind BLOCK_P0BLOCK_V4 d)"

lemma available_modes_loop_walk:
  assumes "backed d" "snd (walk n d p)"
    and "md = filter (\<lambda>x. x \<noteq> 0) (map (mode_at d)
           (filter (\<lambda>p. block_id_matches (id_at d p) b) (fst (walk n d p))))"
    and "2 * length (pre @ md) < length pre + length rest" "length (pre @ md) < 256"
    and "\<forall>x\<in>set rest. x = 0"
  shows "available_modes_loop n d b p (Some (pre @ rest)) (length pre) (of_nat (length pre)) =
    Ret (1, Some (pre @ md @ drop (length md) rest), of_nat (length (pre @ md)))"
  using assms(2-)
proof (induction n arbitrary: p pre rest md)
  case 0
  then show ?case by simp
next
  case (Suc n)
  have l: "p + 24 < ccb_size d"
    using Suc.prems(1) by (auto split: if_splits)
  let ?q = "p + size_at d p"
  let ?md = "filter (\<lambda>x. x \<noteq> 0) (map (mode_at d)
      (filter (\<lambda>p. block_id_matches (id_at d p) b) (fst (walk n d ?q))))"
  have w: "snd (walk n d ?q)" "fst (walk (Suc n) d p) = p # fst (walk n d ?q)"
    using Suc.prems(1) l by (auto simp: case_prod_beta)
  have num: "unat (of_nat (length pre) :: u8) = length pre"
    using Suc.prems(4) by (simp add: unat_of_nat)
  show ?case
  proof (cases "block_id_matches (id_at d p) b")
    case False
    then have "md = ?md" using Suc.prems(2) w(2) by simp
    then show ?thesis
      using Suc.IH [OF w(1) _ _ _ Suc.prems(5), of ?md pre] Suc.prems(3,4) loads_ok [OF assms(1) l] False l
      by (simp add: case_prod_beta)
  next
    case True
    have inb: "length pre < length rest" using Suc.prems(3) by simp
    have zero: "(pre @ rest) ! (length pre + length pre) = 0"
      using inb Suc.prems(5) by (simp add: nth_append)
    show ?thesis
    proof (cases "mode_at d p = 0")
      case True
      then have "md = ?md" using Suc.prems(2) w(2) by simp
      then show ?thesis
        using Suc.IH [OF w(1) _ _ _ Suc.prems(5), of ?md pre] Suc.prems(3,4) loads_ok [OF assms(1) l]
          \<open>block_id_matches _ _\<close> l inb zero num True
        by (simp add: case_prod_beta)
    next
      case nz: False
      then have md: "md = mode_at d p # ?md" using Suc.prems(2) w(2) True by simp
      obtain r rs where rest: "rest = r # rs" using inb by (cases rest) auto
      have upd: "(pre @ rest)[length pre := mode_at d p] = (pre @ [mode_at d p]) @ rs"
        by (simp add: rest list_update_append)
      have ih: "available_modes_loop n d b ?q (Some ((pre @ [mode_at d p]) @ rs))
          (length (pre @ [mode_at d p])) (of_nat (length (pre @ [mode_at d p]))) =
        Ret (1, Some ((pre @ [mode_at d p]) @ ?md @ drop (length ?md) rs),
             of_nat (length ((pre @ [mode_at d p]) @ ?md)))"
        by (rule Suc.IH [OF w(1) refl]) (use Suc.prems(3-5) md rest in auto)
      show ?thesis
        using ih loads_ok [OF assms(1) l] True l inb zero num nz
        by (simp add: case_prod_beta upd md rest add.commute del: append_assoc)
          (simp add: rest)
    qed
  qed
qed

lemma available_modes_value:
  assumes "backed d" "intact d"
    and "ms = filter (\<lambda>x. x \<noteq> 0) (p0_modes d)" "length ms < 256" "2 * length ms < k"
  shows "ccb_get_modes_from_blocks_p0 d (Some (replicate k 0)) 0 =
    Ret (1, Some (ms @ replicate (k - length ms) 0), of_nat (length ms))"
proof -
  have h: "headers_ok d" "snd (walk (announced d) d first_block)"
    using assms(2) by (simp_all add: intact_def)
  have "available_modes_loop (announced d) d BLOCK_P0BLOCK_V4 first_block
      (Some ([] @ replicate k 0)) (length ([] :: u8 list)) (of_nat (length ([] :: u8 list))) =
    Ret (1, Some ([] @ ms @ drop (length ms) (replicate k 0)), of_nat (length ([] @ ms)))"
    by (rule available_modes_loop_walk [where pre = "[]" and rest = "replicate k 0" and md = ms,
          OF assms(1) h(2)])
      (use assms(3-5) h(1) in \<open>auto simp: p0_modes_def of_kind_def blocks_def\<close>)
  then show ?thesis
    using h assms(1)
    by (simp add: ccb_get_modes_from_blocks_p0_def ccb_get_available_modes_def header_simps)
qed

section \<open>The blocks of one mode\<close>

lemma mode_block_loop_walk:
  assumes "backed d" "\<forall>k. alloc k"
  shows "mode_block_loop alloc n d b mode p md =
    Ret (if snd (walk n d p)
         then let qs = filter (\<lambda>p. block_id_matches (id_at d p) b \<and> ucast (mode_at d p) = mode)
                    (fst (walk n d p))
           in \<lparr>no_of_blocks = no_of_blocks md + of_nat (length qs),
               block_list = rev qs @ block_list md\<rparr>
         else empty_mode_data)"
proof (induction n arbitrary: p md)
  case 0
  then show ?case by simp
next
  case (Suc n)
  show ?case
  proof (cases "p + 24 < ccb_size d")
    case True
    then show ?thesis
      using Suc loads_ok [OF assms(1) True] assms(2)
      by (simp add: case_prod_beta Let_def algebra_simps)
  next
    case False
    then show ?thesis by simp
  qed
qed

lemma mode_block_value:
  assumes "backed d" "\<forall>k. alloc k"
  shows "ccb_get_mode_block_p0 alloc d mode =
    Ret (if intact d
         then let qs = filter (\<lambda>p. ucast (mode_at d p) = mode) (of_kind BLOCK_P0BLOCK_V4 d)
           in \<lparr>no_of_blocks = of_nat (length qs), block_list = rev qs\<rparr>
         else empty_mode_data)"
proof (cases "headers_ok d")
  case True
  then show ?thesis
    using assms(1)
    by (simp add: mode_block_loop_walk [OF assms] ccb_get_mode_block_p0_def ccb_get_mode_block_info_def header_simps intact_def
        of_kind_def blocks_def Let_def empty_mode_data_def filter_filter conj_commute [of "ucast _ = _"])
next
  case False
  then show ?thesis
    by (auto simp: ccb_get_mode_block_p0_def ccb_get_mode_block_info_def headers_read intact_def)
qed

section \<open>The index\<close>

lemma index_loop_value:
  assumes "backed d" "qs = drop i (of_kind b d)"
  shows "index_cal_blocks_loop d b i count st =
    Ret (count + min (length qs) (available st),
      \<lparr>storage = storage st @ take (available st) qs,
       available = available st - length qs,
       num_blocks = num_blocks st + int (length qs),
       complete = (complete st \<and> length qs \<le> available st)\<rparr>)"
  using assms(2)
proof (induction qs arbitrary: i count st)
  case Nil
  then have "nth_opt (of_kind b d) i = None" by (simp add: nth_opt_def)
  then show ?case
    using get_cal_block_info_value [OF assms(1)]
    by (subst index_cal_blocks_loop.simps) simp
next
  case (Cons q qs)
  then have i: "i < length (of_kind b d)" "of_kind b d ! i = q" "qs = drop (i + 1) (of_kind b d)"
    by (metis drop_all leI list.distinct(1), metis hd_drop_conv_nth drop_all leI list.distinct(1) list.sel(1),
        metis Suc_eq_plus1 drop_Suc list.sel(3) tl_drop)
  then have "nth_opt (of_kind b d) i = Some q" by (simp add: nth_opt_def)
  then show ?case
    using get_cal_block_info_value [OF assms(1)] Cons.IH [OF i(3)]
    by (subst index_cal_blocks_loop.simps) (cases "available st", auto simp: Let_def)
qed

text \<open>Positions and counts of the arrays, when \<open>avail\<close> slots are left from \<open>start\<close> on.\<close>

fun slices :: "nat \<Rightarrow> nat \<Rightarrow> nat list \<Rightarrow> (nat \<times> nat) list" where
  "slices start avail [] = []"
| "slices start avail (n # ns) = (start, min n avail) # slices (start + min n avail) (avail - n) ns"

lemma index_all_value:
  assumes "backed d"
  shows "index_all d ks st =
    Ret (slices (length (storage st)) (available st) (map (\<lambda>k. length (of_kind k d)) ks),
      (let all = concat (map (\<lambda>k. of_kind k d) ks) in
       \<lparr>storage = storage st @ take (available st) all,
        available = available st - length all,
        num_blocks = num_blocks st + int (length all),
        complete = (complete st \<and> length all \<le> available st)\<rparr>))"
proof (induction ks arbitrary: st)
  case Nil
  then show ?case by simp
next
  case (Cons k ks)
  have "index_cal_blocks d k st = Ret
      ((length (storage st), min (length (of_kind k d)) (available st)),
       \<lparr>storage = storage st @ take (available st) (of_kind k d),
        available = available st - length (of_kind k d),
        num_blocks = num_blocks st + int (length (of_kind k d)),
        complete = (complete st \<and> length (of_kind k d) \<le> available st)\<rparr>)"
    using index_loop_value [OF assms, of "of_kind k d" 0 k] by (simp add: index_cal_blocks_def)
  then show ?case
    using Cons.IH by (auto simp: Let_def min.commute)
qed

lemma slices_concat:
  "length (concat xss) \<le> avail \<Longrightarrow>
   map (\<lambda>(s, c). take c (drop s (pre @ concat xss))) (slices (length pre) avail (map length xss)) = xss"
proof (induction xss arbitrary: pre avail)
  case Nil
  then show ?case by simp
next
  case (Cons xs xss)
  then have "map (\<lambda>(s, c). take c (drop s ((pre @ xs) @ concat xss)))
      (slices (length (pre @ xs)) (avail - length xs) (map length xss)) = xss"
    by (intro Cons.IH) simp
  then show ?case using Cons.prems by (simp add: min_absorb1)
qed

definition indexed :: "ccb_data_t \<Rightarrow> nat list" where
  "indexed d = concat (map (\<lambda>k. of_kind k d) index_kinds)"

lemma build_index_value:
  assumes "backed d" "168 \<le> bsz" "room = (bsz - 168) div 8"
  shows "ccb_build_cal_block_index d bsz =
    Ret (Some \<lparr>index_num_blocks =
           (if length (indexed d) \<le> room then int (length (indexed d)) else - int (length (indexed d))),
         arrays = slices 0 room (map (\<lambda>k. length (of_kind k d)) index_kinds),
         index_storage = take room (indexed d)\<rparr>)"
  using assms(2,3)
  by (simp add: ccb_build_cal_block_index_def index_all_value [OF assms(1)] indexed_def Let_def)

lemma slices_indexed:
  assumes "length (indexed d) \<le> room"
  shows "map (\<lambda>(s, c). take c (drop s (indexed d)))
      (slices 0 room (map (\<lambda>k. length (of_kind k d)) index_kinds)) = map (\<lambda>k. of_kind k d) index_kinds"
  using slices_concat [of "map (\<lambda>k. of_kind k d) index_kinds" room "[]"] assms
  by (simp add: indexed_def comp_def)

lemma mode_block_loop_no_fault:
  assumes "backed d"
  shows "mode_block_loop alloc n d b mode p md \<noteq> Fault"
proof (induction n arbitrary: p md)
  case (Suc n)
  then show ?case using loads_ok [OF assms] by (cases "p + 24 < ccb_size d") auto
qed simp

section \<open>A small file for the witnesses\<close>

text \<open>
  Three blocks: a P0 block of mode 1, another of mode 1, and a geometric block, in a file
  with a few bytes after the last block.
\<close>

definition sample :: ccb_data_t where
  "sample =
     (let p0 = [0x50, 0, 0, 0, 32, 0, 0, 0] @ replicate 16 0 @ [1] @ replicate 7 0;
          geo = [0x47, 0, 0, 0, 24, 0, 0, 0] @ replicate 16 0;
          file = replicate 40 0 @ [3, 0] @ replicate 214 0 @ p0 @ p0 @ geo @ replicate 8 0
      in \<lparr>ccb_p = file, ccb_size = length file\<rparr>)"

lemma sample_size: "ccb_size sample = 352" "length (ccb_p sample) = 352"
  by (simp_all add: sample_def Let_def)

lemma sample_backed: "backed sample"
  by (simp add: backed_def sample_size)

lemmas sample_reads = sample_def Let_def nth_append nth_Cons' load8_def load16_def load32_def
  block_BlockID_def block_BlockSize_def p0_Mode_def header_nBlocks_def

lemma sample_ids: "id_at sample 256 = 0x50" "id_at sample 288 = 0x50" "id_at sample 320 = 0x47"
  by (simp_all add: id_at_def sample_reads)

lemma sample_sizes: "size_at sample 256 = 32" "size_at sample 288 = 32" "size_at sample 320 = 24"
  by (simp_all add: size_at_def sample_reads)

lemma sample_mode_bytes: "mode_at sample 256 = 1" "mode_at sample 288 = 1"
  by (simp_all add: mode_at_def sample_reads)

lemma sample_announced: "announced sample = 3"
  by (simp add: announced_def sample_reads)

lemma sample_walk: "walk 3 sample 256 = ([256, 288, 320], True)"
  by (simp add: numeral_3_eq_3 sample_size sample_sizes)

lemma sample_blocks: "blocks sample = [256, 288, 320]" and sample_intact: "intact sample"
  by (simp_all add: blocks_def intact_def headers_ok_def first_block_def sample_announced
      sample_walk sample_size)

lemma sample_p0: "of_kind BLOCK_P0BLOCK_V4 sample = [256, 288]"
  by (simp add: of_kind_def sample_blocks sample_ids BLOCK_P0BLOCK_V4_def)

lemma sample_modes: "p0_modes sample = [1, 1]"
  by (simp add: p0_modes_def sample_p0 sample_mode_bytes)

lemma sample_indexed: "indexed sample = [320, 256, 288]"
  by (simp add: indexed_def index_kinds_def of_kind_def sample_blocks sample_ids
      BLOCK_ADDRVAL_REG_BLOCK_V1_def BLOCK_FOI_MASK_BLOCK_V0_V1INFO_def
      BLOCK_GEOMETRIC_BLOCK_V3_def BLOCK_ILLUM_PROFILE_BLOCK_V2_def BLOCK_LSDAC_BLOCK_V1_def
      BLOCK_P0BLOCK_V4_def BLOCK_SPATIAL_TEMP_CORR_BLOCK_def BLOCK_TEMP_CORR_BLOCK_V0_V1INFO_def
      BLOCK_RELATIVE_ILLUM_BLOCK_def BLOCK_GAIN_CORRECTION_BLOCK_def)

section \<open>Properties\<close>

text \<open>C40: in a file whose stated size is backed by the buffer, the search for the \<open>index\<close>-th
  block of a kind returns exactly the \<open>index\<close>-th element of the list of such blocks, and NULL
  beyond its end; no load leaves the buffer.\<close>

theorem get_cal_block_info_refines:
  assumes "backed d"
  shows "ccb_get_cal_block_info d b index = Ret (nth_opt (of_kind b d) index)"
  by (rule get_cal_block_info_value [OF assms])

theorem get_cal_block_info_refines_witness:
  "ccb_get_cal_block_p0 sample 1 = Ret (Some 288) \<and> ccb_get_cal_block_p0 sample 2 = Ret None"
  using get_cal_block_info_refines [OF sample_backed, of BLOCK_P0BLOCK_V4]
  by (simp add: ccb_get_cal_block_p0_def sample_p0 nth_opt_def)

text \<open>No search faults, whatever the block sizes in the file say: the headers, the block
  search, the list of a mode's blocks and the index only read below the stated size, also when
  an allocation fails. (A P0 block's mode byte lies just past the checked 24 bytes; the strict
  comparison keeps it inside.)\<close>

theorem ccb_never_faults:
  assumes "backed d"
  shows "ccb_get_cal_block_info d b index \<noteq> Fault \<and>
    ccb_get_mode_block_info alloc d b mode \<noteq> Fault \<and>
    ccb_build_cal_block_index d bsz \<noteq> Fault"
proof (intro conjI)
  show "ccb_get_cal_block_info d b index \<noteq> Fault"
    by (simp add: get_cal_block_info_value [OF assms])
  show "ccb_get_mode_block_info alloc d b mode \<noteq> Fault"
    using assms mode_block_loop_no_fault [OF assms]
    by (cases "headers_ok d") (auto simp: ccb_get_mode_block_info_def header_simps headers_read)
  show "ccb_build_cal_block_index d bsz \<noteq> Fault"
    using build_index_value [OF assms _ refl]
    by (cases "168 \<le> bsz") (auto simp: ccb_build_cal_block_index_def)
qed

theorem ccb_never_faults_witness:
  "ccb_get_cal_block_info sample BLOCK_ALL 7 \<noteq> Fault \<and>
   ccb_get_mode_block_info (\<lambda>k. k = 0) sample BLOCK_ALL 1 \<noteq> Fault \<and>
   ccb_build_cal_block_index sample 176 \<noteq> Fault"
  using ccb_never_faults [OF sample_backed] by blast

text \<open>Given a zeroed array large enough, the list of modes of an intact file is the nonzero
  modes of its P0 blocks in file order, one entry per block: the test that is to drop
  repetitions looks past the entries written so far, so repeated modes stay, and mode 0 is
  never listed.\<close>

theorem available_modes_lists_blocks:
  assumes "backed d" "intact d"
    and "ms = filter (\<lambda>x. x \<noteq> 0) (p0_modes d)" "length ms < 256" "2 * length ms < k"
  shows "ccb_get_modes_from_blocks_p0 d (Some (replicate k 0)) 0 =
    Ret (1, Some (ms @ replicate (k - length ms) 0), of_nat (length ms))"
  by (rule available_modes_value [OF assms])

theorem available_modes_lists_blocks_witness:
  "ccb_get_modes_from_blocks_p0 sample (Some (replicate 5 0)) 0 = Ret (1, Some [1, 1, 0, 0, 0], 2)"
proof -
  have "ccb_get_modes_from_blocks_p0 sample (Some (replicate 5 0)) 0 =
      Ret (1, Some ([1, 1] @ replicate (5 - length [1, 1 :: u8]) 0), of_nat (length [1, 1 :: u8]))"
    by (rule available_modes_lists_blocks [OF sample_backed sample_intact])
      (simp_all add: sample_modes)
  then show ?thesis by (simp add: numeral_eq_Suc)
qed

text \<open>The list of a mode's blocks is every P0 block of that mode, the last block of the file
  first, with its length; a truncated file gives the empty list.\<close>

theorem mode_blocks_of_mode:
  assumes "backed d" "\<forall>k. alloc k"
  shows "ccb_get_mode_block_p0 alloc d mode =
    Ret (if intact d
         then let qs = filter (\<lambda>p. ucast (mode_at d p) = mode) (of_kind BLOCK_P0BLOCK_V4 d)
           in \<lparr>no_of_blocks = of_nat (length qs), block_list = rev qs\<rparr>
         else empty_mode_data)"
  by (rule mode_block_value [OF assms])

theorem mode_blocks_of_mode_witness:
  "ccb_get_mode_block_p0 (\<lambda>k. True) sample 1 = Ret \<lparr>no_of_blocks = 2, block_list = [288, 256]\<rparr>"
proof -
  show ?thesis
    using mode_blocks_of_mode [OF sample_backed, of "\<lambda>k. True" 1]
    by (simp add: sample_intact sample_p0 sample_mode_bytes)
qed

text \<open>The index. Its storage holds the blocks of the ten kinds, kind after kind, as far as
  the caller's buffer has room; \<^verbatim>\<open>num_blocks\<close> is their number, negated exactly when they do not
  all fit; and when they fit every array is exactly the blocks of its kind.\<close>

theorem build_index_complete:
  assumes "backed d" "168 \<le> bsz" "room = (bsz - 168) div 8"
  shows "\<exists>idx. ccb_build_cal_block_index d bsz = Ret (Some idx) \<and>
    index_storage idx = take room (indexed d) \<and>
    \<bar>index_num_blocks idx\<bar> = int (length (indexed d)) \<and>
    (index_num_blocks idx < 0 \<longleftrightarrow> room < length (indexed d)) \<and>
    (0 \<le> index_num_blocks idx \<longrightarrow>
      map (\<lambda>(s, c). take c (drop s (index_storage idx))) (arrays idx) =
        map (\<lambda>k. of_kind k d) index_kinds)"
  using build_index_value [OF assms] slices_indexed [of d room] by auto

theorem build_index_complete_witness:
  "\<exists>idx. ccb_build_cal_block_index sample 192 = Ret (Some idx) \<and>
     index_storage idx = [320, 256, 288] \<and> index_num_blocks idx = 3"
  using build_index_complete [OF sample_backed, of 192 3] by (auto simp: sample_indexed)

end
