(* ===== verification/Adsd3500_Modes.thy ===== *)
theory Adsd3500_Modes
  imports Prelude
begin

text \<open>
  The mode table of the ADSD3500 sensor driver (\<^verbatim>\<open>drivers/adsd3500/nxp/src/i2c/adsd3500.c\<close> and
  \<^verbatim>\<open>adsd3500_regs.h\<close>), the pad operations that enumerate it, and the search for the mode nearest
  to a requested size. The table is cut into pieces, in the order of the source.
\<close>

section \<open>Media bus codes\<close>

abbreviation MEDIA_BUS_FMT_SBGGR8_1X8 :: u32 where "MEDIA_BUS_FMT_SBGGR8_1X8 \<equiv> 0x3001"
abbreviation MEDIA_BUS_FMT_SBGGR12_1X12 :: u32 where "MEDIA_BUS_FMT_SBGGR12_1X12 \<equiv> 0x3008"
abbreviation MEDIA_BUS_FMT_SBGGR16_1X16 :: u32 where "MEDIA_BUS_FMT_SBGGR16_1X16 \<equiv> 0x301d"
abbreviation MEDIA_BUS_FMT_Y12_1X12 :: u32 where "MEDIA_BUS_FMT_Y12_1X12 \<equiv> 0x2013"

section \<open>The mode table\<close>

record adsd3500_mode_info =
  width :: u32
  height :: u32
  pixel_rate :: u32
  code :: u32
  link_freq_idx :: u32

definition link_freq_tbl :: "int list" where "link_freq_tbl = [732000000]"

definition mode_info_raw8_a :: "adsd3500_mode_info list" where
  "mode_info_raw8_a =
    [\<lparr>width = 512, height = 512, pixel_rate = 488000000,
        code = MEDIA_BUS_FMT_SBGGR8_1X8, link_freq_idx = 0\<rparr>,
     \<lparr>width = 1024, height = 512, pixel_rate = 488000000,
        code = MEDIA_BUS_FMT_SBGGR8_1X8, link_freq_idx = 0\<rparr>,
     \<lparr>width = 1280, height = 512, pixel_rate = 488000000,
        code = MEDIA_BUS_FMT_SBGGR8_1X8, link_freq_idx = 0\<rparr>,
     \<lparr>width = 1536, height = 512, pixel_rate = 488000000,
        code = MEDIA_BUS_FMT_SBGGR8_1X8, link_freq_idx = 0\<rparr>,
     \<lparr>width = 1792, height = 512, pixel_rate = 488000000,
        code = MEDIA_BUS_FMT_SBGGR8_1X8, link_freq_idx = 0\<rparr>,
     \<lparr>width = 2048, height = 512, pixel_rate = 488000000,
        code = MEDIA_BUS_FMT_SBGGR8_1X8, link_freq_idx = 0\<rparr>,
     \<lparr>width = 2304, height = 512, pixel_rate = 488000000,
        code = MEDIA_BUS_FMT_SBGGR8_1X8, link_freq_idx = 0\<rparr>,
     \<lparr>width = 2560, height = 512, pixel_rate = 488000000,
        code = MEDIA_BUS_FMT_SBGGR8_1X8, link_freq_idx = 0\<rparr>,
     \<lparr>width = 512, height = 640, pixel_rate = 488000000,
        code = MEDIA_BUS_FMT_SBGGR8_1X8, link_freq_idx = 0\<rparr>,
     \<lparr>width = 1024, height = 640, pixel_rate = 488000000,
        code = MEDIA_BUS_FMT_SBGGR8_1X8, link_freq_idx = 0\<rparr>,
     \<lparr>width = 1536, height = 640, pixel_rate = 488000000,
        code = MEDIA_BUS_FMT_SBGGR8_1X8, link_freq_idx = 0\<rparr>,
     \<lparr>width = 2048, height = 640, pixel_rate = 488000000,
        code = MEDIA_BUS_FMT_SBGGR8_1X8, link_freq_idx = 0\<rparr>,
     \<lparr>width = 2560, height = 640, pixel_rate = 488000000,
        code = MEDIA_BUS_FMT_SBGGR8_1X8, link_freq_idx = 0\<rparr>,
     \<lparr>width = 256, height = 320, pixel_rate = 488000000,
        code = MEDIA_BUS_FMT_SBGGR8_1X8, link_freq_idx = 0\<rparr>,
     \<lparr>width = 512, height = 320, pixel_rate = 488000000,
        code = MEDIA_BUS_FMT_SBGGR8_1X8, link_freq_idx = 0\<rparr>,
     \<lparr>width = 768, height = 320, pixel_rate = 488000000,
        code = MEDIA_BUS_FMT_SBGGR8_1X8, link_freq_idx = 0\<rparr>,
     \<lparr>width = 1024, height = 320, pixel_rate = 488000000,
        code = MEDIA_BUS_FMT_SBGGR8_1X8, link_freq_idx = 0\<rparr>,
     \<lparr>width = 1280, height = 320, pixel_rate = 488000000,
        code = MEDIA_BUS_FMT_SBGGR8_1X8, link_freq_idx = 0\<rparr>]"

definition mode_info_raw8_b :: "adsd3500_mode_info list" where
  "mode_info_raw8_b =
    [\<lparr>width = 2048, height = 3328, pixel_rate = 488000000,
        code = MEDIA_BUS_FMT_SBGGR8_1X8, link_freq_idx = 0\<rparr>,
     \<lparr>width = 1024, height = 1664, pixel_rate = 488000000,
        code = MEDIA_BUS_FMT_SBGGR8_1X8, link_freq_idx = 0\<rparr>,
     \<lparr>width = 1024, height = 2080, pixel_rate = 488000000,
        code = MEDIA_BUS_FMT_SBGGR8_1X8, link_freq_idx = 0\<rparr>,
     \<lparr>width = 512, height = 1040, pixel_rate = 488000000,
        code = MEDIA_BUS_FMT_SBGGR8_1X8, link_freq_idx = 0\<rparr>,
     \<lparr>width = 2048, height = 2560, pixel_rate = 488000000,
        code = MEDIA_BUS_FMT_SBGGR8_1X8, link_freq_idx = 0\<rparr>,
     \<lparr>width = 1024, height = 1280, pixel_rate = 488000000,
        code = MEDIA_BUS_FMT_SBGGR8_1X8, link_freq_idx = 0\<rparr>,
     \<lparr>width = 1024, height = 1600, pixel_rate = 488000000,
        code = MEDIA_BUS_FMT_SBGGR8_1X8, link_freq_idx = 0\<rparr>,
     \<lparr>width = 512, height = 800, pixel_rate = 488000000,
        code = MEDIA_BUS_FMT_SBGGR8_1X8, link_freq_idx = 0\<rparr>,
     \<lparr>width = 2048, height = 4096, pixel_rate = 488000000,
        code = MEDIA_BUS_FMT_SBGGR8_1X8, link_freq_idx = 0\<rparr>,
     \<lparr>width = 1024, height = 2048, pixel_rate = 488000000,
        code = MEDIA_BUS_FMT_SBGGR8_1X8, link_freq_idx = 0\<rparr>,
     \<lparr>width = 1024, height = 2560, pixel_rate = 488000000,
        code = MEDIA_BUS_FMT_SBGGR8_1X8, link_freq_idx = 0\<rparr>,
     \<lparr>width = 512, height = 1280, pixel_rate = 488000000,
        code = MEDIA_BUS_FMT_SBGGR8_1X8, link_freq_idx = 0\<rparr>,
     \<lparr>width = 2048, height = 3072, pixel_rate = 488000000,
        code = MEDIA_BUS_FMT_SBGGR8_1X8, link_freq_idx = 0\<rparr>,
     \<lparr>width = 1024, height = 1536, pixel_rate = 488000000,
        code = MEDIA_BUS_FMT_SBGGR8_1X8, link_freq_idx = 0\<rparr>,
     \<lparr>width = 1024, height = 1920, pixel_rate = 488000000,
        code = MEDIA_BUS_FMT_SBGGR8_1X8, link_freq_idx = 0\<rparr>,
     \<lparr>width = 512, height = 960, pixel_rate = 488000000,
        code = MEDIA_BUS_FMT_SBGGR8_1X8, link_freq_idx = 0\<rparr>,
     \<lparr>width = 3584, height = 3072, pixel_rate = 488000000,
        code = MEDIA_BUS_FMT_SBGGR8_1X8, link_freq_idx = 0\<rparr>,
     \<lparr>width = 1792, height = 1536, pixel_rate = 488000000,
        code = MEDIA_BUS_FMT_SBGGR8_1X8, link_freq_idx = 0\<rparr>,
     \<lparr>width = 1792, height = 1920, pixel_rate = 488000000,
        code = MEDIA_BUS_FMT_SBGGR8_1X8, link_freq_idx = 0\<rparr>,
     \<lparr>width = 896, height = 960, pixel_rate = 488000000,
        code = MEDIA_BUS_FMT_SBGGR8_1X8, link_freq_idx = 0\<rparr>]"

definition mode_info_raw8_c :: "adsd3500_mode_info list" where
  "mode_info_raw8_c =
    [\<lparr>width = 3584, height = 2048, pixel_rate = 488000000,
        code = MEDIA_BUS_FMT_SBGGR8_1X8, link_freq_idx = 0\<rparr>,
     \<lparr>width = 1792, height = 1024, pixel_rate = 488000000,
        code = MEDIA_BUS_FMT_SBGGR8_1X8, link_freq_idx = 0\<rparr>,
     \<lparr>width = 1792, height = 1280, pixel_rate = 488000000,
        code = MEDIA_BUS_FMT_SBGGR8_1X8, link_freq_idx = 0\<rparr>,
     \<lparr>width = 896, height = 640, pixel_rate = 488000000,
        code = MEDIA_BUS_FMT_SBGGR8_1X8, link_freq_idx = 0\<rparr>,
     \<lparr>width = 4096, height = 3072, pixel_rate = 488000000,
        code = MEDIA_BUS_FMT_SBGGR8_1X8, link_freq_idx = 0\<rparr>,
     \<lparr>width = 2048, height = 1536, pixel_rate = 488000000,
        code = MEDIA_BUS_FMT_SBGGR8_1X8, link_freq_idx = 0\<rparr>,
     \<lparr>width = 2048, height = 1920, pixel_rate = 488000000,
        code = MEDIA_BUS_FMT_SBGGR8_1X8, link_freq_idx = 0\<rparr>,
     \<lparr>width = 1024, height = 960, pixel_rate = 488000000,
        code = MEDIA_BUS_FMT_SBGGR8_1X8, link_freq_idx = 0\<rparr>,
     \<lparr>width = 2048, height = 6144, pixel_rate = 488000000,
        code = MEDIA_BUS_FMT_SBGGR8_1X8, link_freq_idx = 0\<rparr>,
     \<lparr>width = 3072, height = 3072, pixel_rate = 488000000,
        code = MEDIA_BUS_FMT_SBGGR8_1X8, link_freq_idx = 0\<rparr>,
     \<lparr>width = 3072, height = 3840, pixel_rate = 488000000,
        code = MEDIA_BUS_FMT_SBGGR8_1X8, link_freq_idx = 0\<rparr>,
     \<lparr>width = 512, height = 1920, pixel_rate = 488000000,
        code = MEDIA_BUS_FMT_SBGGR8_1X8, link_freq_idx = 0\<rparr>,
     \<lparr>width = 1536, height = 1920, pixel_rate = 488000000,
        code = MEDIA_BUS_FMT_SBGGR8_1X8, link_freq_idx = 0\<rparr>]"

definition mode_info_raw12_a :: "adsd3500_mode_info list" where
  "mode_info_raw12_a =
    [\<lparr>width = 2048, height = 4608, pixel_rate = 488000000,
        code = MEDIA_BUS_FMT_SBGGR12_1X12, link_freq_idx = 0\<rparr>,
     \<lparr>width = 1024, height = 2304, pixel_rate = 488000000,
        code = MEDIA_BUS_FMT_SBGGR12_1X12, link_freq_idx = 0\<rparr>,
     \<lparr>width = 1024, height = 2880, pixel_rate = 488000000,
        code = MEDIA_BUS_FMT_SBGGR12_1X12, link_freq_idx = 0\<rparr>,
     \<lparr>width = 512, height = 1440, pixel_rate = 488000000,
        code = MEDIA_BUS_FMT_SBGGR12_1X12, link_freq_idx = 0\<rparr>,
     \<lparr>width = 2048, height = 3072, pixel_rate = 488000000,
        code = MEDIA_BUS_FMT_SBGGR12_1X12, link_freq_idx = 0\<rparr>,
     \<lparr>width = 1024, height = 1536, pixel_rate = 488000000,
        code = MEDIA_BUS_FMT_SBGGR12_1X12, link_freq_idx = 0\<rparr>,
     \<lparr>width = 1024, height = 1920, pixel_rate = 488000000,
        code = MEDIA_BUS_FMT_SBGGR12_1X12, link_freq_idx = 0\<rparr>,
     \<lparr>width = 512, height = 960, pixel_rate = 488000000,
        code = MEDIA_BUS_FMT_SBGGR12_1X12, link_freq_idx = 0\<rparr>,
     \<lparr>width = 512, height = 512, pixel_rate = 488000000,
        code = MEDIA_BUS_FMT_SBGGR12_1X12, link_freq_idx = 0\<rparr>,
     \<lparr>width = 512, height = 640, pixel_rate = 488000000,
        code = MEDIA_BUS_FMT_SBGGR12_1X12, link_freq_idx = 0\<rparr>,
     \<lparr>width = 2048, height = 512, pixel_rate = 488000000,
        code = MEDIA_BUS_FMT_SBGGR12_1X12, link_freq_idx = 0\<rparr>,
     \<lparr>width = 1024, height = 1024, pixel_rate = 488000000,
        code = MEDIA_BUS_FMT_SBGGR12_1X12, link_freq_idx = 0\<rparr>,
     \<lparr>width = 1024, height = 3072, pixel_rate = 488000000,
        code = MEDIA_BUS_FMT_SBGGR12_1X12, link_freq_idx = 0\<rparr>,
     \<lparr>width = 1024, height = 4096, pixel_rate = 488000000,
        code = MEDIA_BUS_FMT_SBGGR12_1X12, link_freq_idx = 0\<rparr>,
     \<lparr>width = 2048, height = 5376, pixel_rate = 488000000,
        code = MEDIA_BUS_FMT_SBGGR12_1X12, link_freq_idx = 0\<rparr>,
     \<lparr>width = 2048, height = 3584, pixel_rate = 488000000,
        code = MEDIA_BUS_FMT_SBGGR12_1X12, link_freq_idx = 0\<rparr>]"

definition mode_info_raw12_b :: "adsd3500_mode_info list" where
  "mode_info_raw12_b =
    [\<lparr>width = 512, height = 640, pixel_rate = 488000000,
        code = MEDIA_BUS_FMT_Y12_1X12, link_freq_idx = 0\<rparr>,
     \<lparr>width = 1024, height = 480, pixel_rate = 488000000,
        code = MEDIA_BUS_FMT_Y12_1X12, link_freq_idx = 0\<rparr>,
     \<lparr>width = 1024, height = 720, pixel_rate = 488000000,
        code = MEDIA_BUS_FMT_Y12_1X12, link_freq_idx = 0\<rparr>,
     \<lparr>width = 1024, height = 960, pixel_rate = 488000000,
        code = MEDIA_BUS_FMT_Y12_1X12, link_freq_idx = 0\<rparr>,
     \<lparr>width = 1024, height = 1920, pixel_rate = 488000000,
        code = MEDIA_BUS_FMT_Y12_1X12, link_freq_idx = 0\<rparr>,
     \<lparr>width = 1024, height = 2880, pixel_rate = 488000000,
        code = MEDIA_BUS_FMT_Y12_1X12, link_freq_idx = 0\<rparr>]"

definition adsd3500_mode_info_data :: "adsd3500_mode_info list" where
  "adsd3500_mode_info_data =
     mode_info_raw8_a @ mode_info_raw8_b @ mode_info_raw8_c @ mode_info_raw12_a @ mode_info_raw12_b"

lemmas mode_table = adsd3500_mode_info_data_def mode_info_raw8_a_def mode_info_raw8_b_def
  mode_info_raw8_c_def mode_info_raw12_a_def mode_info_raw12_b_def

abbreviation n_modes :: nat where "n_modes \<equiv> 73"

lemma length_mode_table [simp]: "length adsd3500_mode_info_data = n_modes"
  by (simp add: mode_table)

section \<open>Enumeration\<close>

text \<open>
  A failing call leaves the caller's structure as it was, a successful one fills it in: \<open>Inl\<close>
  is the error code, \<open>Inr\<close> the structure after the call.
\<close>

record v4l2_subdev_mbus_code_enum =
  ce_pad :: u32
  ce_index :: u32
  ce_code :: u32

definition adsd3500_enum_mbus_code ::
  "v4l2_subdev_mbus_code_enum \<Rightarrow> int + v4l2_subdev_mbus_code_enum" where
  "adsd3500_enum_mbus_code c =
     (if ce_pad c \<noteq> 0 then Inl (- EINVAL)
      else if ce_index c = 0 then Inr (c\<lparr>ce_code := MEDIA_BUS_FMT_SBGGR8_1X8\<rparr>)
      else if ce_index c = 1 then Inr (c\<lparr>ce_code := MEDIA_BUS_FMT_SBGGR12_1X12\<rparr>)
      else if ce_index c = 2 then Inr (c\<lparr>ce_code := MEDIA_BUS_FMT_SBGGR16_1X16\<rparr>)
      else Inl (- EINVAL))"

record v4l2_subdev_frame_size_enum =
  fse_index :: u32
  fse_code :: u32
  min_width :: u32
  max_width :: u32
  min_height :: u32
  max_height :: u32

text \<open>The loop stops at the entry that brings the count of matching entries above the index.\<close>

fun enum_frame_size_loop :: "adsd3500_mode_info list \<Rightarrow> u32 \<Rightarrow> nat \<Rightarrow> u32 \<Rightarrow> adsd3500_mode_info option" where
  "enum_frame_size_loop [] c j index = None"
| "enum_frame_size_loop (m # ms) c j index =
     (let j = (if code m = c then j + 1 else j) in
      if j > unat index then Some m else enum_frame_size_loop ms c j index)"

definition adsd3500_enum_frame_size ::
  "v4l2_subdev_frame_size_enum \<Rightarrow> int + v4l2_subdev_frame_size_enum" where
  "adsd3500_enum_frame_size fse =
     (if unat (fse_index fse) \<ge> length adsd3500_mode_info_data then Inl (- EINVAL)
      else case enum_frame_size_loop adsd3500_mode_info_data (fse_code fse) 0 (fse_index fse) of
          Some m \<Rightarrow> Inr (fse\<lparr>min_width := width m, max_width := width m,
                              min_height := height m, max_height := height m\<rparr>)
        | None \<Rightarrow> Inl (- EINVAL))"

section \<open>Enumeration is indexing the modes of a code\<close>

definition modes_of_code :: "u32 \<Rightarrow> adsd3500_mode_info list" where
  "modes_of_code c = filter (\<lambda>m. code m = c) adsd3500_mode_info_data"

lemma enum_frame_size_loop_nth:
  assumes "j \<le> unat index"
  shows "enum_frame_size_loop ms c j index =
    (let fs = filter (\<lambda>m. code m = c) ms in
     if unat index - j < length fs then Some (fs ! (unat index - j)) else None)"
  using assms
proof (induction ms arbitrary: j)
  case Nil
  then show ?case by simp
next
  case (Cons m ms)
  show ?case
  proof (cases "code m = c \<and> j + 1 > unat index")
    case True
    then show ?thesis using Cons.prems by (simp add: Let_def)
  next
    case False
    then show ?thesis
      using Cons.prems Cons.IH [of j] Cons.IH [of "j + 1"] by (auto simp: Let_def nth_Cons')
  qed
qed

lemma enum_frame_size_value:
  "adsd3500_enum_frame_size fse =
    (let ms = modes_of_code (fse_code fse); i = unat (fse_index fse) in
     if i < length ms
     then Inr (fse\<lparr>min_width := width (ms ! i), max_width := width (ms ! i),
                   min_height := height (ms ! i), max_height := height (ms ! i)\<rparr>)
     else Inl (- EINVAL))"
proof -
  have "length (modes_of_code c) \<le> n_modes" for c
    using length_filter_le [of "\<lambda>m. code m = c" adsd3500_mode_info_data] by (simp add: modes_of_code_def)
  from this [of "fse_code fse"] show ?thesis
    by (auto simp: adsd3500_enum_frame_size_def enum_frame_size_loop_nth Let_def
        modes_of_code_def [symmetric])
qed

section \<open>The nearest mode\<close>

text \<open>
  \<^verbatim>\<open>v4l2_find_nearest_size\<close> is the kernel's: what the driver relies on is that it answers the
  index of an entry with the least distance (sum of the differences of width and height).
\<close>

definition size_distance :: "u32 \<Rightarrow> u32 \<Rightarrow> adsd3500_mode_info \<Rightarrow> int" where
  "size_distance w h m = \<bar>uint (width m) - uint w\<bar> + \<bar>uint (height m) - uint h\<bar>"

definition finds_nearest :: "(adsd3500_mode_info list \<Rightarrow> u32 \<Rightarrow> u32 \<Rightarrow> nat) \<Rightarrow> bool" where
  "finds_nearest f \<longleftrightarrow> (\<forall>w h. let i = f adsd3500_mode_info_data w h in
     i < n_modes \<and>
     (\<forall>m\<in>set adsd3500_mode_info_data.
        size_distance w h (adsd3500_mode_info_data ! i) \<le> size_distance w h m))"

text \<open>A concrete such search, which keeps the first of the nearest entries.\<close>

fun nearest_from :: "u32 \<Rightarrow> u32 \<Rightarrow> nat \<Rightarrow> adsd3500_mode_info list \<Rightarrow> nat \<times> int" where
  "nearest_from w h i [] = (i, -1)"
| "nearest_from w h i [m] = (i, size_distance w h m)"
| "nearest_from w h i (m # ms) =
     (case nearest_from w h (i + 1) ms of (k, d) \<Rightarrow>
        if size_distance w h m \<le> d then (i, size_distance w h m) else (k, d))"

definition nearest_size :: "adsd3500_mode_info list \<Rightarrow> u32 \<Rightarrow> u32 \<Rightarrow> nat" where
  "nearest_size ms w h = fst (nearest_from w h 0 ms)"

lemma nearest_from_least:
  "ms \<noteq> [] \<Longrightarrow> nearest_from w h i ms = (k, d) \<Longrightarrow>
   i \<le> k \<and> k < i + length ms \<and> size_distance w h (ms ! (k - i)) = d \<and>
   (\<forall>m\<in>set ms. d \<le> size_distance w h m)"
proof (induction w h i ms arbitrary: k d rule: nearest_from.induct)
  case (3 w h i m m' ms)
  obtain k' d' where r: "nearest_from w h (i + 1) (m' # ms) = (k', d')" by fastforce
  from "3.IH" [OF _ r] have ih: "i + 1 \<le> k'" "k' < i + 1 + length (m' # ms)"
    "size_distance w h ((m' # ms) ! (k' - (i + 1))) = d'"
    "\<forall>x\<in>set (m' # ms). d' \<le> size_distance w h x" by auto
  have "k' - i = Suc (k' - (i + 1))" using ih(1) by simp
  then show ?case using "3.prems" r ih by (auto split: if_splits)
qed auto

lemma nearest_size_finds: "finds_nearest nearest_size"
proof -
  have ne: "adsd3500_mode_info_data \<noteq> []" using length_mode_table by fastforce
  show ?thesis
    unfolding finds_nearest_def nearest_size_def
    using nearest_from_least [OF ne, of _ _ 0] by (auto simp: Let_def split: prod.split) 
      (metis diff_zero fst_conv length_mode_table plus_nat.add_0 surj_pair)+
qed

lemma finds_nearest_exact:
  assumes "finds_nearest f" "m \<in> set adsd3500_mode_info_data"
  shows "width (adsd3500_mode_info_data ! f adsd3500_mode_info_data (width m) (height m)) = width m \<and>
    height (adsd3500_mode_info_data ! f adsd3500_mode_info_data (width m) (height m)) = height m"
proof -
  let ?k = "adsd3500_mode_info_data ! f adsd3500_mode_info_data (width m) (height m)"
  have "size_distance (width m) (height m) ?k \<le> size_distance (width m) (height m) m"
    using assms by (auto simp: finds_nearest_def Let_def)
  then have "\<bar>uint (width ?k) - uint (width m)\<bar> + \<bar>uint (height ?k) - uint (height m)\<bar> \<le> 0"
    by (simp add: size_distance_def)
  then have "uint (width ?k) = uint (width m) \<and> uint (height ?k) = uint (height m)"
    by arith
  then show ?thesis by (simp add: word_uint_eqI)
qed

section \<open>Properties\<close>

text \<open>Enumerating frame sizes lists, index by index and in the order of the table, exactly the
  modes with the asked code, and then fails with EINVAL; a failure leaves the caller's structure.\<close>

theorem frame_sizes_enumerated:
  "adsd3500_enum_frame_size fse =
    (let ms = modes_of_code (fse_code fse); i = unat (fse_index fse) in
     if i < length ms
     then Inr (fse\<lparr>min_width := width (ms ! i), max_width := width (ms ! i),
                   min_height := height (ms ! i), max_height := height (ms ! i)\<rparr>)
     else Inl (- EINVAL))"
  by (rule enum_frame_size_value)

lemma no_raw16_modes: "modes_of_code MEDIA_BUS_FMT_SBGGR16_1X16 = []"
  by (simp add: modes_of_code_def mode_table)

lemma y12_modes: "length (modes_of_code MEDIA_BUS_FMT_Y12_1X12) = 6"
  by (simp add: modes_of_code_def mode_table)

text \<open>The enumerated codes and the table disagree: the third code offered, 16-bit raw, has no
  frame size at all, while the six 12-bit grey modes of the table have a code that is never
  offered.\<close>

theorem enumerated_codes_miss_the_table:
  "adsd3500_enum_mbus_code \<lparr>ce_pad = 0, ce_index = 2, ce_code = c\<rparr> =
     Inr \<lparr>ce_pad = 0, ce_index = 2, ce_code = MEDIA_BUS_FMT_SBGGR16_1X16\<rparr> \<and>
   adsd3500_enum_frame_size (fse\<lparr>fse_code := MEDIA_BUS_FMT_SBGGR16_1X16\<rparr>) = Inl (- EINVAL) \<and>
   (case adsd3500_enum_mbus_code ce of Inl e \<Rightarrow> e = - EINVAL | Inr ce' \<Rightarrow> ce_code ce' \<noteq> MEDIA_BUS_FMT_Y12_1X12) \<and>
   length (modes_of_code MEDIA_BUS_FMT_Y12_1X12) = 6"
  by (simp add: adsd3500_enum_mbus_code_def enum_frame_size_value no_raw16_modes y12_modes Let_def)

text \<open>A request for the size of a table entry is answered with an entry of exactly that size,
  whatever search the kernel uses to find the nearest one.\<close>

theorem table_sizes_are_exact:
  assumes "finds_nearest f" "m \<in> set adsd3500_mode_info_data"
  shows "width (adsd3500_mode_info_data ! f adsd3500_mode_info_data (width m) (height m)) = width m \<and>
    height (adsd3500_mode_info_data ! f adsd3500_mode_info_data (width m) (height m)) = height m"
  by (rule finds_nearest_exact [OF assms])

theorem table_sizes_are_exact_witness:
  "width (adsd3500_mode_info_data ! nearest_size adsd3500_mode_info_data 1280 512) = 1280"
  using table_sizes_are_exact [OF nearest_size_finds, of "\<lparr>width = 1280, height = 512,
      pixel_rate = 488000000, code = MEDIA_BUS_FMT_SBGGR8_1X8, link_freq_idx = 0\<rparr>"]
  by (simp add: mode_table)

end
