(* ===== verification/Adsd3500_Driver.thy ===== *)
theory Adsd3500_Driver
  imports Adsd3500_Modes
begin

text \<open>
  The ADSD3500 sensor driver, \<^verbatim>\<open>drivers/adsd3500/nxp/src/i2c/adsd3500.c\<close>: its state, the runtime
  PM callbacks, the controls, the pad and video operations, the debugfs file and the interrupt
  handler.

  The register map, the bus, the delays and the runtime PM calls are calls to the environment:
  every one is recorded in \<open>calls\<close>, and the environment answers it from the calls before it.
  The control framework and the PM core call back into the driver; they are arguments of the
  model that take the callback.
\<close>

section \<open>State\<close>

record adsd3500_config_info =
  nr_depth_bits :: u8
  nr_ab_bits :: u8
  nr_confidence_bits :: u8
  nr_mipi_lanes :: u8
  use_vc :: bool

text \<open>\<open>ff_rest\<close> is the part of a frame format that the driver copies and never looks at.\<close>

record v4l2_mbus_framefmt =
  ff_width :: u32
  ff_height :: u32
  ff_code :: u32
  ff_field :: u32
  ff_colorspace :: u32
  ff_rest :: "u32 list"

record v4l2_rect =
  r_left :: int
  r_top :: int
  r_width :: u32
  r_height :: u32

text \<open>
  Calls to the kernel, in the order of their first use in the driver; the last ones are those that
  only the SPI variant makes: a write, and a message of transfers that send bytes followed by one
  that receives as many as stated.
\<close>

datatype call =
    Regmap_Read u32
  | Regmap_Write u32 u32
  | I2c_Master_Send "u8 list"
  | I2c_Master_Recv nat
  | Send_Sig_Info int nat
  | Pm_Runtime_Get_Sync
  | Pm_Runtime_Put
  | Pm_Runtime_Put_Noidle
  | Msleep nat
  | Devm_Kzalloc
  | Devm_Regmap_Init
  | Kvzalloc nat
  | Kfree
  | Request_Firmware
  | Release_Firmware
  | Graph_Get_Next_Endpoint
  | Fwnode_Endpoint_Parse
  | Fwnode_Handle_Put
  | Gpiod_Get_Optional string
  | Gpiod_To_Irq
  | Gpiod_Set_Reset int
  | Gpiod_Put string
  | Of_Property_Read_Bool string
  | Devm_Request_Irq int
  | Debugfs_Create_Dir
  | Debugfs_Create_File
  | Debugfs_Remove
  | Ctrl_Handler_Init nat
  | Ctrl_New u32
  | Ctrl_Handler_Error
  | Ctrl_Handler_Free
  | Mutex_Init
  | Mutex_Destroy
  | I2c_Subdev_Init
  | Media_Entity_Pads_Init
  | Media_Entity_Cleanup
  | Async_Register_Subdev
  | Async_Unregister_Subdev
  | Pm_Runtime_Set_Active
  | Pm_Runtime_Enable
  | Pm_Runtime_Idle
  | Pm_Runtime_Disable
  | Pm_Runtime_Status_Suspended
  | Pm_Runtime_Set_Suspended
  | Spi_Write "u8 list"
  | Spi_Sync "u8 list list" nat
  | Kmalloc nat
  | Devm_Pinctrl_Get
  | Pinctrl_Lookup string
  | Pinctrl_Select string
  | Devm_Free_Irq int

text \<open>An answer: the return code, a value read, bytes read.\<close>

record resp =
  rc :: int
  rval :: u32
  rdata :: "u8 list"

record v4l2_ctrl =
  ctrl_id :: u32
  ctrl_val :: int
  p_new :: "u8 list"

text \<open>A pointer to a gpio, which may be null or an error pointer.\<close>

datatype gpio_ptr = Null_Gpio | Gpio | Err_Gpio int

text \<open>
  The driver's state. \<open>vals\<close> holds the current values of the controls, by id; \<open>locked\<close> is the
  mutex; \<open>current_mode\<close> and \<open>task\<close> are pointers that may be null.
\<close>

record adsd3500 =
  fmt :: v4l2_mbus_framefmt
  crop :: v4l2_rect
  current_mode :: "adsd3500_mode_info option"
  current_config :: adsd3500_config_info
  vals :: "u32 \<Rightarrow> int"
  locked :: bool
  streaming :: bool
  main_fw :: "u8 list option"
  rst_gpio :: gpio_ptr
  irq_gpio :: gpio_ptr
  link_freq_flags :: u32
  irq :: int
  debugfs :: bool
  task :: "nat option"
  signalnum :: int
  calls :: "call list"

text \<open>
  What is outside the driver: the environment, the search for the nearest size, the control
  framework's \<^verbatim>\<open>v4l2_ctrl_s_ctrl\<close> and the PM core's \<^verbatim>\<open>pm_runtime_get_sync\<close>, which take the
  driver's callback.
\<close>

record kernel =
  env :: "(call, resp) env"
  find_nearest_size :: "adsd3500_mode_info list \<Rightarrow> u32 \<Rightarrow> u32 \<Rightarrow> nat"
  ctrl_core :: "(v4l2_ctrl \<Rightarrow> adsd3500 \<Rightarrow> (int \<times> v4l2_ctrl) \<times> adsd3500) \<Rightarrow> u32 \<Rightarrow> int \<Rightarrow>
                adsd3500 \<Rightarrow> int \<times> adsd3500"
  pm_core :: "(adsd3500 \<Rightarrow> int \<times> adsd3500) \<Rightarrow> adsd3500 \<Rightarrow> int \<times> adsd3500"

definition call :: "kernel \<Rightarrow> call \<Rightarrow> adsd3500 \<Rightarrow> resp \<times> adsd3500" where
  "call k c s = (env k (calls s) c, s\<lparr>calls := calls s @ [c]\<rparr>)"

definition regmap_read :: "kernel \<Rightarrow> u32 \<Rightarrow> adsd3500 \<Rightarrow> resp \<times> adsd3500" where
  "regmap_read k reg = call k (Regmap_Read reg)"

definition regmap_write :: "kernel \<Rightarrow> u32 \<Rightarrow> u32 \<Rightarrow> adsd3500 \<Rightarrow> int \<times> adsd3500" where
  "regmap_write k reg v s = (case call k (Regmap_Write reg v) s of (r, t) \<Rightarrow> (rc r, t))"

section \<open>Registers\<close>

abbreviation GET_CHIP_ID_CMD :: u32 where "GET_CHIP_ID_CMD \<equiv> 0x0112"
abbreviation STREAM_ON_CMD :: u32 where "STREAM_ON_CMD \<equiv> 0x00AD"
abbreviation STREAM_ON_VAL :: u32 where "STREAM_ON_VAL \<equiv> 0x00C5"
abbreviation STREAM_OFF_CMD :: u32 where "STREAM_OFF_CMD \<equiv> 0x000C"
abbreviation STREAM_OFF_VAL :: u32 where "STREAM_OFF_VAL \<equiv> 0x0002"
abbreviation SET_IMAGER_MODE_CMD :: u32 where "SET_IMAGER_MODE_CMD \<equiv> 0xDA00"
abbreviation GET_IMAGER_MODE_CMD :: u32 where "GET_IMAGER_MODE_CMD \<equiv> 0x0012"
abbreviation GET_IMAGER_AB_INVLD_TRSHLD :: u32 where "GET_IMAGER_AB_INVLD_TRSHLD \<equiv> 0x0015"
abbreviation GET_IMAGER_CONFIDENCE_TRSHLD :: u32 where "GET_IMAGER_CONFIDENCE_TRSHLD \<equiv> 0x0016"
abbreviation GET_IMAGER_JBLF_STATE :: u32 where "GET_IMAGER_JBLF_STATE \<equiv> 0x0017"
abbreviation GET_IMAGER_JBLF_FILT_SIZE :: u32 where "GET_IMAGER_JBLF_FILT_SIZE \<equiv> 0x0018"
abbreviation GET_IMAGER_STATUS_CMD :: u32 where "GET_IMAGER_STATUS_CMD \<equiv> 0x0020"
abbreviation SET_FRAMERATE_CMD :: u32 where "SET_FRAMERATE_CMD \<equiv> 0x0022"
abbreviation GET_FRAMERATE_CMD :: u32 where "GET_FRAMERATE_CMD \<equiv> 0x0023"
abbreviation ADSD3500_CHIP_ID :: u32 where "ADSD3500_CHIP_ID \<equiv> 0x5931"

text \<open>
  \<^verbatim>\<open>GENMASK\<close> and \<^verbatim>\<open>FIELD_PREP\<close> work on \<^verbatim>\<open>unsigned long\<close>: the value is converted to 64 bits,
  shifted to the mask's lowest bit and cut off by the mask.
\<close>

definition GENMASK :: "nat \<Rightarrow> nat \<Rightarrow> 64 word" where
  "GENMASK h l = push_bit l (mask (h - l + 1))"

definition FIELD_PREP :: "nat \<Rightarrow> nat \<Rightarrow> int \<Rightarrow> 64 word" where
  "FIELD_PREP h l v = push_bit l (word_of_int v) AND GENMASK h l"

definition SET_IMAGER_MODE where "SET_IMAGER_MODE v = FIELD_PREP 7 0 v"
definition SET_IMAGER_MODE_DEPTH_EN where "SET_IMAGER_MODE_DEPTH_EN v = FIELD_PREP 0 0 v"
definition SET_IMAGER_MODE_VC_EN where "SET_IMAGER_MODE_VC_EN v = FIELD_PREP 1 1 v"
definition SET_IMAGER_MODE_AB_EN where "SET_IMAGER_MODE_AB_EN v = FIELD_PREP 2 2 v"
definition SET_IMAGER_MODE_AB_AVG_EN where "SET_IMAGER_MODE_AB_AVG_EN v = FIELD_PREP 3 3 v"
definition SET_IMAGER_MODE_DEPTH_BITS where "SET_IMAGER_MODE_DEPTH_BITS v = FIELD_PREP 6 4 v"
definition SET_IMAGER_MODE_AB_BITS where "SET_IMAGER_MODE_AB_BITS v = FIELD_PREP 9 7 v"
definition SET_IMAGER_MODE_CONF_BITS where "SET_IMAGER_MODE_CONF_BITS v = FIELD_PREP 11 10 v"
definition SET_IMAGER_MODE_MIPI_LANES_NR where "SET_IMAGER_MODE_MIPI_LANES_NR v = FIELD_PREP 13 12 v"

definition adsd3500_regmap_accessible_reg :: "u32 \<Rightarrow> bool" where
  "adsd3500_regmap_accessible_reg reg \<longleftrightarrow>
     reg = GET_CHIP_ID_CMD \<or> reg = GET_IMAGER_MODE_CMD \<or> reg = GET_IMAGER_AB_INVLD_TRSHLD \<or>
     reg = GET_IMAGER_CONFIDENCE_TRSHLD \<or> reg = GET_IMAGER_JBLF_STATE \<or>
     reg = GET_IMAGER_JBLF_FILT_SIZE \<or> reg = GET_FRAMERATE_CMD \<or> reg = GET_IMAGER_STATUS_CMD"

record regmap_config =
  reg_bits :: nat
  val_bits :: nat
  readable_reg :: "u32 \<Rightarrow> bool"

definition adsd3500_regmap_config :: regmap_config where
  "adsd3500_regmap_config =
     \<lparr>reg_bits = 16, val_bits = 16, readable_reg = adsd3500_regmap_accessible_reg\<rparr>"

section \<open>Control ids\<close>

text \<open>\<^verbatim>\<open>V4L2_CID_USER_BASE\<close> is \<open>0x980900\<close>, and the image processing class starts at \<open>0x9f0900\<close>.\<close>

abbreviation V4L2_CID_LINK_FREQ :: u32 where "V4L2_CID_LINK_FREQ \<equiv> 0x9f0901"
abbreviation V4L2_CID_PIXEL_RATE :: u32 where "V4L2_CID_PIXEL_RATE \<equiv> 0x9f0902"
abbreviation V4L2_CID_ADSD3500_OPERATING_MODE :: u32 where "V4L2_CID_ADSD3500_OPERATING_MODE \<equiv> 0x9819f0"
abbreviation V4L2_CID_ADSD3500_CHIP_CONFIG :: u32 where "V4L2_CID_ADSD3500_CHIP_CONFIG \<equiv> 0x9819f1"
abbreviation V4L2_CID_ADSD3500_DEPTH_BITS :: u32 where "V4L2_CID_ADSD3500_DEPTH_BITS \<equiv> 0x9819f2"
abbreviation V4L2_CID_ADSD3500_AB_BITS :: u32 where "V4L2_CID_ADSD3500_AB_BITS \<equiv> 0x9819f3"
abbreviation V4L2_CID_ADSD3500_CONFIDENCE_BITS :: u32 where "V4L2_CID_ADSD3500_CONFIDENCE_BITS \<equiv> 0x9819f4"
abbreviation V4L2_CID_ADSD3500_AB_AVG :: u32 where "V4L2_CID_ADSD3500_AB_AVG \<equiv> 0x9819f5"
abbreviation V4L2_CID_ADSD3500_DEPTH_EN :: u32 where "V4L2_CID_ADSD3500_DEPTH_EN \<equiv> 0x9819f6"

section \<open>Runtime PM\<close>

definition imager_mode_cmd :: "adsd3500 \<Rightarrow> u32" where
  "imager_mode_cmd s =
     SET_IMAGER_MODE_CMD OR ucast (SET_IMAGER_MODE (vals s V4L2_CID_ADSD3500_OPERATING_MODE))"

definition imager_mode_val :: "adsd3500 \<Rightarrow> u32" where
  "imager_mode_val s =
     (let config = current_config s;
          depth = uint (nr_depth_bits config); ab = uint (nr_ab_bits config);
          write_val = 0;
          write_val = write_val OR ucast (SET_IMAGER_MODE_DEPTH_EN
            (if depth \<noteq> 0 then vals s V4L2_CID_ADSD3500_DEPTH_EN else 0));
          write_val = write_val OR ucast (SET_IMAGER_MODE_DEPTH_BITS (if depth \<noteq> 0 then 6 - depth else 7));
          write_val = write_val OR ucast (SET_IMAGER_MODE_AB_EN (if ab \<noteq> 0 then 1 else 0));
          write_val = write_val OR ucast (SET_IMAGER_MODE_AB_BITS (if ab \<noteq> 0 then 6 - ab else 0));
          write_val = write_val OR ucast (SET_IMAGER_MODE_CONF_BITS (uint (nr_confidence_bits config)));
          write_val = write_val OR ucast (SET_IMAGER_MODE_VC_EN (if use_vc config then 0 else 1));
          write_val = write_val OR ucast (SET_IMAGER_MODE_AB_AVG_EN (vals s V4L2_CID_ADSD3500_AB_AVG))
      in write_val OR ucast (SET_IMAGER_MODE_MIPI_LANES_NR (uint (nr_mipi_lanes config))))"

text \<open>The chip id is read; a failed read or a wrong id is only logged.\<close>

definition adsd3500_power_on :: "kernel \<Rightarrow> adsd3500 \<Rightarrow> int \<times> adsd3500" where
  "adsd3500_power_on k s =
     (let (read_val, s) = regmap_read k GET_CHIP_ID_CMD s;
          (ret, s) = regmap_write k (imager_mode_cmd s) (imager_mode_val s) s
      in if ret \<noteq> 0 then (ret, s) else (0, s))"

definition adsd3500_power_off :: "kernel \<Rightarrow> adsd3500 \<Rightarrow> int \<times> adsd3500" where
  "adsd3500_power_off k s = (0, s)"

definition pm_runtime_get_sync :: "kernel \<Rightarrow> adsd3500 \<Rightarrow> int \<times> adsd3500" where
  "pm_runtime_get_sync k s =
     (let (r, s) = call k Pm_Runtime_Get_Sync s in pm_core k (adsd3500_power_on k) s)"

definition pm_runtime_put :: "kernel \<Rightarrow> adsd3500 \<Rightarrow> adsd3500" where
  "pm_runtime_put k s = snd (call k Pm_Runtime_Put s)"

definition pm_runtime_put_noidle :: "kernel \<Rightarrow> adsd3500 \<Rightarrow> adsd3500" where
  "pm_runtime_put_noidle k s = snd (call k Pm_Runtime_Put_Noidle s)"

section \<open>Register access for debugging, power\<close>

record v4l2_dbg_register =
  dbg_size :: u32
  dbg_reg :: "64 word"
  dbg_val :: "64 word"

definition adsd3500_g_register ::
  "kernel \<Rightarrow> v4l2_dbg_register \<Rightarrow> adsd3500 \<Rightarrow> (int \<times> v4l2_dbg_register) \<times> adsd3500" where
  "adsd3500_g_register k reg s =
     (let (r, s) = regmap_read k (ucast (dbg_reg reg)) s
      in ((rc r, reg\<lparr>dbg_size := 2, dbg_val := ucast (rval r)\<rparr>), s))"

definition adsd3500_s_register :: "kernel \<Rightarrow> v4l2_dbg_register \<Rightarrow> adsd3500 \<Rightarrow> int \<times> adsd3500" where
  "adsd3500_s_register k reg s = regmap_write k (ucast (dbg_reg reg)) (ucast (dbg_val reg)) s"

definition adsd3500_s_power :: "int \<Rightarrow> adsd3500 \<Rightarrow> int \<times> adsd3500" where
  "adsd3500_s_power on s = (0, s)"

section \<open>Controls\<close>

text \<open>
  The bit counts are stored in \<^verbatim>\<open>uint8_t\<close> fields. \<open>p_new\<close> is the control's new payload; for the
  chip configuration its first byte selects read or write, the next two are the size, and the
  bytes behind them the data that is sent, or replaced by what is received.
\<close>

definition adsd3500_bpp_config :: "v4l2_ctrl \<Rightarrow> adsd3500 \<Rightarrow> int \<times> adsd3500" where
  "adsd3500_bpp_config ctrl s =
     (0, s\<lparr>current_config :=
       (let c = current_config s; v = word_of_int (ctrl_val ctrl) in
        if ctrl_id ctrl = V4L2_CID_ADSD3500_DEPTH_BITS then c\<lparr>nr_depth_bits := v\<rparr>
        else if ctrl_id ctrl = V4L2_CID_ADSD3500_AB_BITS then c\<lparr>nr_ab_bits := v\<rparr>
        else if ctrl_id ctrl = V4L2_CID_ADSD3500_CONFIDENCE_BITS then c\<lparr>nr_confidence_bits := v\<rparr>
        else c)\<rparr>)"

definition pld_size_of :: "u8 list \<Rightarrow> u16" where
  "pld_size_of p = word_of_nat (unat (p ! 1) * 256 + unat (p ! 2))"

definition adsd3500_chip_config ::
  "kernel \<Rightarrow> v4l2_ctrl \<Rightarrow> adsd3500 \<Rightarrow> (int \<times> v4l2_ctrl) \<times> adsd3500" where
  "adsd3500_chip_config k ctrl s =
     (let r_w = p_new ctrl ! 0;
          pld_size = unat (pld_size_of (p_new ctrl));
          data = drop 3 (p_new ctrl)
      in if pld_size > 4096 \<or> pld_size < 2 then ((- EINVAL, ctrl), s)
         else if r_w > 1 then ((- EINVAL, ctrl), s)
         else if r_w \<noteq> 0
         then (case call k (I2c_Master_Send (take pld_size data)) s of (r, s) \<Rightarrow>
                 if rc r < 0 then ((- EIO, ctrl), s)
                 else ((0, ctrl\<lparr>p_new := (p_new ctrl)[0 := 0xFF]\<rparr>), s))
         else (case call k (I2c_Master_Recv pld_size) s of (r, s) \<Rightarrow>
                 if rc r < 0 then ((- EIO, ctrl), s)
                 else (let got = take pld_size (rdata r) in
                       ((0, ctrl\<lparr>p_new :=
                         (take 3 (p_new ctrl) @ got @ drop (length got) data)[0 := 0xFF]\<rparr>), s))))"

definition adsd3500_s_ctrl ::
  "kernel \<Rightarrow> v4l2_ctrl \<Rightarrow> adsd3500 \<Rightarrow> (int \<times> v4l2_ctrl) \<times> adsd3500" where
  "adsd3500_s_ctrl k ctrl s =
     (if ctrl_id ctrl \<in> {V4L2_CID_ADSD3500_OPERATING_MODE, V4L2_CID_ADSD3500_AB_AVG,
           V4L2_CID_ADSD3500_DEPTH_EN, V4L2_CID_PIXEL_RATE, V4L2_CID_LINK_FREQ}
      then ((0, ctrl), s)
      else if ctrl_id ctrl = V4L2_CID_ADSD3500_CHIP_CONFIG then adsd3500_chip_config k ctrl s
      else if ctrl_id ctrl \<in> {V4L2_CID_ADSD3500_DEPTH_BITS, V4L2_CID_ADSD3500_AB_BITS,
           V4L2_CID_ADSD3500_CONFIDENCE_BITS}
      then (case adsd3500_bpp_config ctrl s of (r, s) \<Rightarrow> ((r, ctrl), s))
      else ((- EINVAL, ctrl), s))"

definition nr_bits_qmenu :: "int list" where
  "nr_bits_qmenu = [0, 4, 8, 10, 12, 14, 16]"

datatype ctrl_type = CTRL_INTEGER | CTRL_BOOLEAN | CTRL_INTEGER_MENU | CTRL_U8

record v4l2_ctrl_config =
  cfg_id :: u32
  cfg_name :: string
  cfg_type :: ctrl_type
  cfg_def :: int
  cfg_min :: int
  cfg_max :: int
  cfg_step :: int
  cfg_dims :: "nat list"
  menu_skip_mask :: int
  qmenu_int :: "int list"

definition adsd3500_ctrl_operating_mode :: v4l2_ctrl_config where
  "adsd3500_ctrl_operating_mode =
     \<lparr>cfg_id = V4L2_CID_ADSD3500_OPERATING_MODE, cfg_name = ''Operating Mode'',
      cfg_type = CTRL_INTEGER, cfg_def = 0, cfg_min = 0, cfg_max = 10, cfg_step = 1,
      cfg_dims = [], menu_skip_mask = 0, qmenu_int = []\<rparr>"

definition adsd3500_ctrl_chip_config :: v4l2_ctrl_config where
  "adsd3500_ctrl_chip_config =
     \<lparr>cfg_id = V4L2_CID_ADSD3500_CHIP_CONFIG, cfg_name = ''Chip Config'',
      cfg_type = CTRL_U8, cfg_def = 0, cfg_min = 0, cfg_max = 0xFF, cfg_step = 1,
      cfg_dims = [4099], menu_skip_mask = 0, qmenu_int = []\<rparr>"

definition adsd3500_ctrl_depth_bits :: v4l2_ctrl_config where
  "adsd3500_ctrl_depth_bits =
     \<lparr>cfg_id = V4L2_CID_ADSD3500_DEPTH_BITS, cfg_name = ''Phase / Depth Bits'',
      cfg_type = CTRL_INTEGER_MENU, cfg_def = 0, cfg_min = 0, cfg_max = 6, cfg_step = 0,
      cfg_dims = [], menu_skip_mask = 2, qmenu_int = nr_bits_qmenu\<rparr>"

definition adsd3500_ab_depth_bits :: v4l2_ctrl_config where
  "adsd3500_ab_depth_bits =
     \<lparr>cfg_id = V4L2_CID_ADSD3500_AB_BITS, cfg_name = ''AB Bits'',
      cfg_type = CTRL_INTEGER_MENU, cfg_def = 0, cfg_min = 0, cfg_max = 6, cfg_step = 0,
      cfg_dims = [], menu_skip_mask = 2, qmenu_int = nr_bits_qmenu\<rparr>"

definition adsd3500_confidence_bits :: v4l2_ctrl_config where
  "adsd3500_confidence_bits =
     \<lparr>cfg_id = V4L2_CID_ADSD3500_CONFIDENCE_BITS, cfg_name = ''Confidence Bits'',
      cfg_type = CTRL_INTEGER_MENU, cfg_def = 0, cfg_min = 0, cfg_max = 2, cfg_step = 0,
      cfg_dims = [], menu_skip_mask = 0, qmenu_int = nr_bits_qmenu\<rparr>"

definition adsd3500_ab_avg :: v4l2_ctrl_config where
  "adsd3500_ab_avg =
     \<lparr>cfg_id = V4L2_CID_ADSD3500_AB_AVG, cfg_name = ''AB Averaging'',
      cfg_type = CTRL_BOOLEAN, cfg_def = 1, cfg_min = 0, cfg_max = 1, cfg_step = 1,
      cfg_dims = [], menu_skip_mask = 0, qmenu_int = []\<rparr>"

definition adsd3500_depth_en :: v4l2_ctrl_config where
  "adsd3500_depth_en =
     \<lparr>cfg_id = V4L2_CID_ADSD3500_DEPTH_EN, cfg_name = ''Depth enable'',
      cfg_type = CTRL_BOOLEAN, cfg_def = 1, cfg_min = 0, cfg_max = 1, cfg_step = 1,
      cfg_dims = [], menu_skip_mask = 0, qmenu_int = []\<rparr>"

definition v4l2_ctrl_s_ctrl :: "kernel \<Rightarrow> u32 \<Rightarrow> int \<Rightarrow> adsd3500 \<Rightarrow> int \<times> adsd3500" where
  "v4l2_ctrl_s_ctrl k cid v s = ctrl_core k (adsd3500_s_ctrl k) cid v s"

section \<open>Formats\<close>

text \<open>
  A file handle's try configuration, by pad. A pad format or crop rectangle is reached by a
  pointer, to the try configuration or to the driver's own; \<open>Inl\<close> is an error pointer.
\<close>

record v4l2_subdev_pad_config =
  try_fmt :: v4l2_mbus_framefmt
  try_crop :: v4l2_rect

type_synonym pad_config = "u32 \<Rightarrow> v4l2_subdev_pad_config"

abbreviation V4L2_SUBDEV_FORMAT_TRY :: u32 where "V4L2_SUBDEV_FORMAT_TRY \<equiv> 0"
abbreviation V4L2_SUBDEV_FORMAT_ACTIVE :: u32 where "V4L2_SUBDEV_FORMAT_ACTIVE \<equiv> 1"
abbreviation V4L2_FIELD_NONE :: u32 where "V4L2_FIELD_NONE \<equiv> 1"
abbreviation V4L2_COLORSPACE_RAW :: u32 where "V4L2_COLORSPACE_RAW \<equiv> 11"
abbreviation V4L2_SEL_TGT_CROP :: u32 where "V4L2_SEL_TGT_CROP \<equiv> 0"

record v4l2_subdev_format =
  sf_which :: u32
  sf_pad :: u32
  sf_format :: v4l2_mbus_framefmt

record v4l2_subdev_selection =
  sel_which :: u32
  sel_pad :: u32
  sel_target :: u32
  sel_r :: v4l2_rect

datatype pad_ptr = TRY_PAD u32 | ACTIVE_PAD

definition adsd3500_get_pad_format :: "u32 \<Rightarrow> u32 \<Rightarrow> int + pad_ptr" where
  "adsd3500_get_pad_format pad which =
     (if which = V4L2_SUBDEV_FORMAT_TRY then Inr (TRY_PAD pad)
      else if which = V4L2_SUBDEV_FORMAT_ACTIVE then Inr ACTIVE_PAD
      else Inl (- EINVAL))"

definition adsd3500_get_pad_crop :: "u32 \<Rightarrow> u32 \<Rightarrow> int + pad_ptr" where
  "adsd3500_get_pad_crop pad which =
     (if which = V4L2_SUBDEV_FORMAT_TRY then Inr (TRY_PAD pad)
      else if which = V4L2_SUBDEV_FORMAT_ACTIVE then Inr ACTIVE_PAD
      else Inl (- EINVAL))"

fun read_fmt :: "pad_ptr \<Rightarrow> pad_config \<Rightarrow> adsd3500 \<Rightarrow> v4l2_mbus_framefmt" where
  "read_fmt (TRY_PAD p) cfg s = try_fmt (cfg p)"
| "read_fmt ACTIVE_PAD cfg s = fmt s"

fun write_fmt :: "pad_ptr \<Rightarrow> v4l2_mbus_framefmt \<Rightarrow> pad_config \<Rightarrow> adsd3500 \<Rightarrow> pad_config \<times> adsd3500" where
  "write_fmt (TRY_PAD p) f cfg s = (cfg(p := (cfg p)\<lparr>try_fmt := f\<rparr>), s)"
| "write_fmt ACTIVE_PAD f cfg s = (cfg, s\<lparr>fmt := f\<rparr>)"

fun read_crop :: "pad_ptr \<Rightarrow> pad_config \<Rightarrow> adsd3500 \<Rightarrow> v4l2_rect" where
  "read_crop (TRY_PAD p) cfg s = try_crop (cfg p)"
| "read_crop ACTIVE_PAD cfg s = crop s"

fun write_crop :: "pad_ptr \<Rightarrow> v4l2_rect \<Rightarrow> pad_config \<Rightarrow> adsd3500 \<Rightarrow> pad_config \<times> adsd3500" where
  "write_crop (TRY_PAD p) r cfg s = (cfg(p := (cfg p)\<lparr>try_crop := r\<rparr>), s)"
| "write_crop ACTIVE_PAD r cfg s = (cfg, s\<lparr>crop := r\<rparr>)"

definition adsd3500_get_format ::
  "pad_config \<Rightarrow> v4l2_subdev_format \<Rightarrow> adsd3500 \<Rightarrow> int \<times> v4l2_subdev_format" where
  "adsd3500_get_format cfg format s =
     (case adsd3500_get_pad_format (sf_pad format) (sf_which format) of
        Inl e \<Rightarrow> (e, format)
      | Inr pad_format \<Rightarrow> (0, format\<lparr>sf_format := read_fmt pad_format cfg s\<rparr>))"

text \<open>The mutex: \<open>None\<close> is waiting forever, since nobody else is left to release it.\<close>

definition mutex_lock :: "adsd3500 \<Rightarrow> adsd3500 option" where
  "mutex_lock s = (if locked s then None else Some (s\<lparr>locked := True\<rparr>))"

definition mutex_unlock :: "adsd3500 \<Rightarrow> adsd3500" where
  "mutex_unlock s = s\<lparr>locked := False\<rparr>"

text \<open>The part of \<^verbatim>\<open>adsd3500_set_format\<close> for an active format: rate, link frequency, mode.\<close>

definition set_active_mode :: "kernel \<Rightarrow> adsd3500_mode_info \<Rightarrow> adsd3500 \<Rightarrow> int \<times> adsd3500" where
  "set_active_mode k new_mode s =
     (let (ret, s) = v4l2_ctrl_s_ctrl k V4L2_CID_PIXEL_RATE (uint (pixel_rate new_mode)) s in
      if ret < 0 then (ret, s)
      else let (ret, s) = v4l2_ctrl_s_ctrl k V4L2_CID_LINK_FREQ (sint (link_freq_idx new_mode)) s in
        if ret < 0 then (ret, s)
        else (0, s\<lparr>current_mode := Some new_mode\<rparr>))"

definition adsd3500_set_format ::
  "kernel \<Rightarrow> pad_config \<Rightarrow> v4l2_subdev_format \<Rightarrow> adsd3500 \<Rightarrow>
   (int \<times> pad_config \<times> v4l2_subdev_format \<times> adsd3500) option" where
  "adsd3500_set_format k cfg format s =
     (case mutex_lock s of
        None \<Rightarrow> None
      | Some s \<Rightarrow>
        if sf_pad format \<noteq> 0 then Some (- EINVAL, cfg, format, s)
        else case adsd3500_get_pad_crop (sf_pad format) (sf_which format) of
          Inl e \<Rightarrow> Some (e, cfg, format, s)
        | Inr cp \<Rightarrow>
          (let new_mode = adsd3500_mode_info_data !
                 find_nearest_size k adsd3500_mode_info_data
                   (ff_width (sf_format format)) (ff_height (sf_format format));
               (cfg, s) = write_crop cp
                 ((read_crop cp cfg s)\<lparr>r_width := width new_mode, r_height := height new_mode\<rparr>) cfg s;
               (ret, s) = (if sf_which format = V4L2_SUBDEV_FORMAT_ACTIVE
                           then set_active_mode k new_mode s else (0, s))
           in if ret < 0 then Some (ret, cfg, format, s)
              else case adsd3500_get_pad_format (sf_pad format) (sf_which format) of
                Inl e \<Rightarrow> Some (e, cfg, format, s)
              | Inr fp \<Rightarrow>
                (let framefmt = (read_fmt fp cfg s)
                       \<lparr>ff_width := r_width (read_crop cp cfg s),
                        ff_height := r_height (read_crop cp cfg s),
                        ff_code := ff_code (sf_format format),
                        ff_field := V4L2_FIELD_NONE, ff_colorspace := V4L2_COLORSPACE_RAW\<rparr>;
                     (cfg, s) = write_fmt fp framefmt cfg s
                 in Some (0, cfg, format\<lparr>sf_format := framefmt\<rparr>,
                          mutex_unlock (s\<lparr>fmt := framefmt\<rparr>)))))"

text \<open>
  With a null configuration the format is the active one, and the configuration (here whatever
  stands for the null pointer) is not touched.
\<close>

definition zero_fmt :: v4l2_mbus_framefmt where
  "zero_fmt = \<lparr>ff_width = 0, ff_height = 0, ff_code = 0, ff_field = 0, ff_colorspace = 0, ff_rest = []\<rparr>"

definition adsd3500_entity_init_cfg ::
  "kernel \<Rightarrow> bool \<Rightarrow> pad_config \<Rightarrow> adsd3500 \<Rightarrow> (int \<times> pad_config \<times> adsd3500) option" where
  "adsd3500_entity_init_cfg k have_cfg cfg s =
     (let m = adsd3500_mode_info_data ! 0;
          f = \<lparr>sf_which = (if have_cfg then V4L2_SUBDEV_FORMAT_TRY else V4L2_SUBDEV_FORMAT_ACTIVE),
                 sf_pad = 0,
                 sf_format = zero_fmt\<lparr>ff_width := width m, ff_height := height m, ff_code := code m\<rparr>\<rparr>
      in case adsd3500_set_format k cfg f s of
           None \<Rightarrow> None
         | Some (ret, cfg, f, s) \<Rightarrow> Some (ret, cfg, s))"

definition adsd3500_get_selection ::
  "pad_config \<Rightarrow> v4l2_subdev_selection \<Rightarrow> adsd3500 \<Rightarrow> int \<times> v4l2_subdev_selection" where
  "adsd3500_get_selection cfg sel s =
     (if sel_target sel \<noteq> V4L2_SEL_TGT_CROP then (- EINVAL, sel)
      else case adsd3500_get_pad_crop (sel_pad sel) (sel_which sel) of
          Inl e \<Rightarrow> (e, sel)
        | Inr cp \<Rightarrow> (0, sel\<lparr>sel_r := read_crop cp cfg s\<rparr>))"

section \<open>Streaming\<close>

definition adsd3500_start_streaming :: "kernel \<Rightarrow> adsd3500 \<Rightarrow> int \<times> adsd3500" where
  "adsd3500_start_streaming k s = regmap_write k STREAM_ON_CMD STREAM_ON_VAL s"

definition adsd3500_stop_streaming :: "kernel \<Rightarrow> adsd3500 \<Rightarrow> int \<times> adsd3500" where
  "adsd3500_stop_streaming k s = regmap_write k STREAM_OFF_CMD STREAM_OFF_VAL s"

definition adsd3500_s_stream :: "kernel \<Rightarrow> int \<Rightarrow> adsd3500 \<Rightarrow> (int \<times> adsd3500) option" where
  "adsd3500_s_stream k enable s =
     (case mutex_lock s of
        None \<Rightarrow> None
      | Some s \<Rightarrow>
        if (if streaming s then 1 else 0) = enable then Some (0, mutex_unlock s)
        else if enable \<noteq> 0
        then (case pm_runtime_get_sync k s of (ret, s) \<Rightarrow>
            if ret < 0 then Some (ret, mutex_unlock (pm_runtime_put_noidle k s))
            else (case adsd3500_start_streaming k s of (ret, s) \<Rightarrow>
              if ret \<noteq> 0 then Some (ret, mutex_unlock (pm_runtime_put k s))
              else Some (ret, mutex_unlock (s\<lparr>streaming := True\<rparr>))))
        else (case adsd3500_stop_streaming k s of (_, s) \<Rightarrow>
            Some (0, mutex_unlock ((pm_runtime_put k s)\<lparr>streaming := False\<rparr>))))"

section \<open>Frame interval\<close>

record v4l2_fract =
  numerator :: u32
  denominator :: u32

definition adsd3500_g_frame_interval ::
  "kernel \<Rightarrow> adsd3500 \<Rightarrow> (int \<times> v4l2_fract) \<times> adsd3500" where
  "adsd3500_g_frame_interval k s =
     (let fi = \<lparr>numerator = 1, denominator = 10\<rparr>;
          (r, s) = regmap_read k GET_FRAMERATE_CMD s
      in if rc r < 0 then ((rc r, fi), s)
         else ((rc r, fi\<lparr>denominator := rval r\<rparr>), s))"

text \<open>The division is the machine's: it faults on a zero numerator, and the sum before it wraps.\<close>

definition DIV_ROUND_UP :: "u32 \<Rightarrow> u32 \<Rightarrow> u32 mem" where
  "DIV_ROUND_UP n d = (if d = 0 then Fault else Ret ((n + d - 1) div d))"

definition adsd3500_s_frame_interval :: "kernel \<Rightarrow> v4l2_fract \<Rightarrow> adsd3500 \<Rightarrow> (int \<times> adsd3500) mem" where
  "adsd3500_s_frame_interval k fi s =
     (case DIV_ROUND_UP (denominator fi) (numerator fi) of
        Fault \<Rightarrow> Fault
      | Ret val \<Rightarrow> Ret (regmap_write k SET_FRAMERATE_CMD val s))"

definition adsd3500_link_setup :: "u32 \<Rightarrow> adsd3500 \<Rightarrow> int \<times> adsd3500" where
  "adsd3500_link_setup flags s = (0, s)"

section \<open>The debugfs file and the interrupt\<close>

text \<open>
  A task is named by its process id; \<open>cur\<close> is the calling one. \<open>i_private\<close> of the file's inode
  is the driver, set when the file is created, so open and release leave the file's pointer at
  this driver.
\<close>

abbreviation USER_TASK :: u32 where "USER_TASK \<equiv> 0x40084101"
abbreviation SIGETX :: int where "SIGETX \<equiv> 44"

definition debug_open :: "adsd3500 \<Rightarrow> int \<times> adsd3500" where
  "debug_open s = (0, s)"

definition debug_release :: "nat \<Rightarrow> adsd3500 \<Rightarrow> int \<times> adsd3500" where
  "debug_release cur s = (0, if Some cur = task s then s\<lparr>task := None\<rparr> else s)"

text \<open>\<^verbatim>\<open>%.4X\<close>: upper-case hexadecimal, at least four digits.\<close>

definition hex_digit :: "nat \<Rightarrow> char" where
  "hex_digit n = ''0123456789ABCDEF'' ! n"

function hex_digits :: "nat \<Rightarrow> nat \<Rightarrow> string" where
  "hex_digits prec n =
     (if n = 0 \<and> prec = 0 then [] else hex_digits (prec - 1) (n div 16) @ [hex_digit (n mod 16)])"
  by pat_completeness auto
termination
proof (relation "measure (\<lambda>(prec, n). prec + n)")
  fix prec n :: nat
  assume "\<not> (n = 0 \<and> prec = 0)"
  moreover have "n div 16 < n \<or> n = 0" by auto
  ultimately show "((prec - 1, n div 16), (prec, n)) \<in> measure (\<lambda>(prec, n). prec + n)"
    by auto
qed simp

declare hex_digits.simps [simp del]

definition status_text :: "resp \<Rightarrow> string" where
  "status_text r =
     (if rc r < 0 then ''Read failed'' @ [CHR 0x0A]
      else ''0x'' @ hex_digits 4 (unat (rval r)) @ [CHR 0x0A])"

text \<open>\<open>copy_out\<close> is the kernel's \<^verbatim>\<open>simple_read_from_buffer\<close>, given count, offset and the text.\<close>

definition debug_read ::
  "kernel \<Rightarrow> (nat \<Rightarrow> int \<Rightarrow> string \<Rightarrow> 'r) \<Rightarrow> nat \<Rightarrow> int \<Rightarrow> adsd3500 \<Rightarrow> 'r \<times> adsd3500" where
  "debug_read k copy_out count offset s =
     (let (r, s) = regmap_read k GET_IMAGER_STATUS_CMD s
      in (copy_out count offset (status_text r), s))"

definition debug_write :: "string \<Rightarrow> nat \<Rightarrow> adsd3500 \<Rightarrow> nat \<times> adsd3500" where
  "debug_write buff count s = (count, s)"

definition debug_ioctl :: "u32 \<Rightarrow> nat \<Rightarrow> adsd3500 \<Rightarrow> int \<times> adsd3500" where
  "debug_ioctl cmd cur s =
     (0, if cmd = USER_TASK then s\<lparr>task := Some cur, signalnum := SIGETX\<rparr> else s)"

definition adsd3500_irq_handler :: "kernel \<Rightarrow> adsd3500 \<Rightarrow> adsd3500" where
  "adsd3500_irq_handler k s =
     (case task s of
        None \<Rightarrow> s
      | Some t \<Rightarrow> snd (call k (Send_Sig_Info SIGETX t) s))"

end
