(* ===== verification/Adsd3500_Facts.thy ===== *)
theory Adsd3500_Facts
  imports Adsd3500_Driver
begin

text \<open>
  What the ADSD3500 driver guarantees: the register encoding of the imager mode, the chip
  configuration control, formats and the mutex, streaming and the runtime PM count over whole
  runs of operations, the frame interval, and the debugfs file.
\<close>

section \<open>The kernel's side of the contract\<close>

text \<open>
  \<^verbatim>\<open>v4l2_ctrl_s_ctrl\<close> calls the driver back at most once, with the control of that id, and stores
  the value when the callback succeeds. \<^verbatim>\<open>pm_runtime_get_sync\<close> runs the resume callback at most
  once and reports its failure.
\<close>

definition ctrl_core_ok :: "kernel \<Rightarrow> bool" where
  "ctrl_core_ok k \<longleftrightarrow> (\<forall>cb cid v s. \<exists>r t.
     ctrl_core k cb cid v s = (r, t) \<and>
     (t = s \<or>
      (\<exists>w p c u. cb \<lparr>ctrl_id = cid, ctrl_val = w, p_new = p\<rparr> s = ((r, c), u) \<and>
         t = (if r = 0 then u\<lparr>vals := (vals u)(cid := w)\<rparr> else u))))"

definition pm_core_ok :: "kernel \<Rightarrow> bool" where
  "pm_core_ok k \<longleftrightarrow> (\<forall>cb s. \<exists>r t. pm_core k cb s = (r, t) \<and>
     (t = s \<or> (\<exists>e. cb s = (e, t) \<and> (e < 0 \<longrightarrow> r < 0))))"

definition kernel_ok :: "kernel \<Rightarrow> bool" where
  "kernel_ok k \<longleftrightarrow> finds_nearest (find_nearest_size k) \<and> ctrl_core_ok k \<and> pm_core_ok k"

text \<open>A kernel that satisfies it: controls are always set, the device always resumed.\<close>

definition eager_ctrl where
  "eager_ctrl cb cid v s =
     (case cb \<lparr>ctrl_id = cid, ctrl_val = v, p_new = []\<rparr> s of ((r, c), u) \<Rightarrow>
        (r, if r = 0 then u\<lparr>vals := (vals u)(cid := v)\<rparr> else u))"

definition eager_kernel :: "(call, resp) env \<Rightarrow> kernel" where
  "eager_kernel e = \<lparr>env = e, find_nearest_size = nearest_size, ctrl_core = eager_ctrl,
                     pm_core = (\<lambda>cb s. cb s)\<rparr>"

lemma eager_ctrl_core_ok: "ctrl_core_ok (eager_kernel e)"
  unfolding ctrl_core_ok_def eager_kernel_def eager_ctrl_def
  by (auto split: prod.split)

lemma eager_pm_core_ok: "pm_core_ok (eager_kernel e)"
  unfolding pm_core_ok_def eager_kernel_def by (auto intro: prod.exhaust)

lemma eager_kernel_ok: "kernel_ok (eager_kernel e)"
  using eager_ctrl_core_ok eager_pm_core_ok
  by (simp add: kernel_ok_def) (simp add: eager_kernel_def nearest_size_finds)

lemma eager_env [simp]: "env (eager_kernel e) = e"
  by (simp add: eager_kernel_def)

lemma setting_rate_or_link:
  assumes "ctrl_core_ok k" "cid \<in> {V4L2_CID_PIXEL_RATE, V4L2_CID_LINK_FREQ}"
  shows "\<exists>r g. v4l2_ctrl_s_ctrl k cid v s = (r, s\<lparr>vals := g\<rparr>)"
proof -
  obtain r t where "v4l2_ctrl_s_ctrl k cid v s = (r, t)"
    and "t = s \<or> (\<exists>w p c u. adsd3500_s_ctrl k \<lparr>ctrl_id = cid, ctrl_val = w, p_new = p\<rparr> s = ((r, c), u) \<and>
         t = (if r = 0 then u\<lparr>vals := (vals u)(cid := w)\<rparr> else u))"
    using assms(1) unfolding ctrl_core_ok_def v4l2_ctrl_s_ctrl_def by meson
  moreover have "\<exists>g. s = s\<lparr>vals := g\<rparr>" by (rule exI [of _ "vals s"]) simp
  ultimately show ?thesis
    using assms(2) by (auto simp: adsd3500_s_ctrl_def split: if_splits)
qed

section \<open>Formats and the mutex\<close>

lemma set_active_mode_frame:
  assumes "ctrl_core_ok k"
  shows "\<exists>r g. set_active_mode k m s = (r, s\<lparr>vals := g\<rparr>) \<and> r < 0 \<or>
    set_active_mode k m s = (0, s\<lparr>vals := g, current_mode := Some m\<rparr>)"
proof -
  obtain r1 g1 where 1: "v4l2_ctrl_s_ctrl k V4L2_CID_PIXEL_RATE (uint (pixel_rate m)) s = (r1, s\<lparr>vals := g1\<rparr>)"
    using setting_rate_or_link [OF assms] by blast
  obtain r2 g2 where 2: "v4l2_ctrl_s_ctrl k V4L2_CID_LINK_FREQ (sint (link_freq_idx m)) (s\<lparr>vals := g1\<rparr>) =
      (r2, s\<lparr>vals := g2\<rparr>)"
    using setting_rate_or_link [OF assms, of V4L2_CID_LINK_FREQ _ "s\<lparr>vals := g1\<rparr>"] by fastforce
  show ?thesis using 1 2 by (auto simp: set_active_mode_def Let_def)
qed

definition nearest_mode :: "kernel \<Rightarrow> v4l2_subdev_format \<Rightarrow> adsd3500_mode_info" where
  "nearest_mode k f = adsd3500_mode_info_data ! find_nearest_size k adsd3500_mode_info_data
     (ff_width (sf_format f)) (ff_height (sf_format f))"

definition sized :: "kernel \<Rightarrow> v4l2_subdev_format \<Rightarrow> v4l2_mbus_framefmt \<Rightarrow> v4l2_mbus_framefmt" where
  "sized k f old = old\<lparr>ff_width := width (nearest_mode k f), ff_height := height (nearest_mode k f),
     ff_code := ff_code (sf_format f), ff_field := V4L2_FIELD_NONE,
     ff_colorspace := V4L2_COLORSPACE_RAW\<rparr>"

lemma set_format_pad:
  "\<not> locked s \<Longrightarrow> sf_pad f \<noteq> 0 \<Longrightarrow>
   adsd3500_set_format k cfg f s = Some (- EINVAL, cfg, f, s\<lparr>locked := True\<rparr>)"
  by (simp add: adsd3500_set_format_def mutex_lock_def)

lemma set_format_which:
  "\<not> locked s \<Longrightarrow> sf_pad f = 0 \<Longrightarrow> sf_which f \<notin> {0, 1} \<Longrightarrow>
   adsd3500_set_format k cfg f s = Some (- EINVAL, cfg, f, s\<lparr>locked := True\<rparr>)"
  by (simp add: adsd3500_set_format_def mutex_lock_def adsd3500_get_pad_crop_def)

lemma set_format_try:
  "\<not> locked s \<Longrightarrow> sf_pad f = 0 \<Longrightarrow> sf_which f = V4L2_SUBDEV_FORMAT_TRY \<Longrightarrow>
   adsd3500_set_format k cfg f s =
     (let F = sized k f (try_fmt (cfg 0)) in
      Some (0, cfg(0 := (cfg 0)\<lparr>
                try_crop := (try_crop (cfg 0))\<lparr>r_width := width (nearest_mode k f),
                                              r_height := height (nearest_mode k f)\<rparr>,
                try_fmt := F\<rparr>),
            f\<lparr>sf_format := F\<rparr>, s\<lparr>fmt := F, locked := False\<rparr>))"
  by (simp add: adsd3500_set_format_def mutex_lock_def adsd3500_get_pad_crop_def
      adsd3500_get_pad_format_def nearest_mode_def sized_def Let_def mutex_unlock_def)

lemma set_format_active:
  assumes "ctrl_core_ok k" "\<not> locked s" "sf_pad f = 0" "sf_which f = V4L2_SUBDEV_FORMAT_ACTIVE"
  shows "\<exists>r g. let m = nearest_mode k f; F = sized k f (fmt s);
      t = s\<lparr>crop := (crop s)\<lparr>r_width := width m, r_height := height m\<rparr>, vals := g\<rparr> in
    adsd3500_set_format k cfg f s =
      (if r < 0 then Some (r, cfg, f, t\<lparr>locked := True\<rparr>)
       else Some (0, cfg, f\<lparr>sf_format := F\<rparr>, t\<lparr>fmt := F, current_mode := Some m, locked := False\<rparr>))"
proof -
  let ?m = "nearest_mode k f"
  let ?s = "s\<lparr>locked := True, crop := (crop s)\<lparr>r_width := width ?m, r_height := height ?m\<rparr>\<rparr>"
  have m: "adsd3500_mode_info_data ! find_nearest_size k adsd3500_mode_info_data
      (ff_width (sf_format f)) (ff_height (sf_format f)) = ?m"
    by (simp add: nearest_mode_def)
  obtain r g where "set_active_mode k ?m ?s = (r, ?s\<lparr>vals := g\<rparr>) \<and> r < 0 \<or>
      set_active_mode k ?m ?s = (0, ?s\<lparr>vals := g, current_mode := Some ?m\<rparr>)"
    using set_active_mode_frame [OF assms(1)] by blast
  then show ?thesis
  proof
    assume h: "set_active_mode k ?m ?s = (r, ?s\<lparr>vals := g\<rparr>) \<and> r < 0"
    then show ?thesis
      using assms(2-4) h by (intro exI [of _ r] exI [of _ g])
        (simp add: adsd3500_set_format_def mutex_lock_def adsd3500_get_pad_crop_def Let_def m)
  next
    assume h: "set_active_mode k ?m ?s = (0, ?s\<lparr>vals := g, current_mode := Some ?m\<rparr>)"
    then show ?thesis
      using assms(2-4) h by (intro exI [of _ "0::int"] exI [of _ g])
        (simp add: adsd3500_set_format_def mutex_lock_def adsd3500_get_pad_crop_def
          adsd3500_get_pad_format_def Let_def m sized_def mutex_unlock_def)
  qed
qed

text \<open>The two ways \<^verbatim>\<open>adsd3500_set_format\<close> ends.\<close>

lemma set_format_cases:
  assumes "ctrl_core_ok k" "adsd3500_set_format k cfg f s = Some (r, cfg', f', s')"
  obtains (fails) g c where "r < 0" "s' = s\<lparr>crop := c, vals := g, locked := True\<rparr>"
        "cfg' = cfg" "f' = f"
  | (tried) "r = 0" "sf_which f = V4L2_SUBDEV_FORMAT_TRY" "sf_pad f = 0"
        "sf_format f' = sized k f (try_fmt (cfg 0))" "try_fmt (cfg' 0) = sf_format f'"
        "s' = s\<lparr>fmt := sf_format f', locked := False\<rparr>"
  | (activated) g where "r = 0" "sf_which f = V4L2_SUBDEV_FORMAT_ACTIVE" "sf_pad f = 0" "cfg' = cfg"
        "sf_format f' = sized k f (fmt s)"
        "s' = s\<lparr>crop := (crop s)\<lparr>r_width := width (nearest_mode k f), r_height := height (nearest_mode k f)\<rparr>,
               vals := g, fmt := sf_format f', current_mode := Some (nearest_mode k f), locked := False\<rparr>"
proof -
  have nl: "\<not> locked s" using assms(2) by (auto simp: adsd3500_set_format_def mutex_lock_def)
  consider "sf_pad f \<noteq> 0" | "sf_pad f = 0" "sf_which f \<notin> {0, 1}"
    | "sf_pad f = 0" "sf_which f = 0" | "sf_pad f = 0" "sf_which f = 1" by blast
  then show ?thesis
  proof cases
    case 1
    then show ?thesis
      using set_format_pad [OF nl] assms(2) by (intro fails [of "vals s" "crop s"]) auto
  next
    case 2
    then show ?thesis
      using set_format_which [OF nl] assms(2) by (intro fails [of "vals s" "crop s"]) auto
  next
    case 3
    then show ?thesis
      using set_format_try [OF nl 3] assms(2) by (intro tried) (auto simp: Let_def)
  next
    case 4
    obtain r0 g where "adsd3500_set_format k cfg f s =
      (let m = nearest_mode k f; F = sized k f (fmt s);
         t = s\<lparr>crop := (crop s)\<lparr>r_width := width m, r_height := height m\<rparr>, vals := g\<rparr> in
       if r0 < 0 then Some (r0, cfg, f, t\<lparr>locked := True\<rparr>)
       else Some (0, cfg, f\<lparr>sf_format := F\<rparr>, t\<lparr>fmt := F, current_mode := Some m, locked := False\<rparr>))"
      using set_format_active [OF assms(1) nl 4] unfolding Let_def by blast
    then show ?thesis
      using assms(2) 4 by (cases "r0 < 0") (auto simp: Let_def intro: fails activated)
  qed
qed

lemma blocked:
  "locked s \<Longrightarrow> adsd3500_set_format k cfg f s = None"
  "locked s \<Longrightarrow> adsd3500_s_stream k e s = None"
  by (simp_all add: adsd3500_set_format_def adsd3500_s_stream_def mutex_lock_def)

lemma nearest_mode_in:
  assumes "kernel_ok k"
  shows "nearest_mode k f \<in> set adsd3500_mode_info_data"
  using assms by (auto simp: kernel_ok_def finds_nearest_def Let_def nearest_mode_def)

lemma nearest_mode_least:
  assumes "kernel_ok k" "m \<in> set adsd3500_mode_info_data"
  shows "size_distance (ff_width (sf_format f)) (ff_height (sf_format f)) (nearest_mode k f) \<le>
    size_distance (ff_width (sf_format f)) (ff_height (sf_format f)) m"
  using assms by (auto simp: kernel_ok_def finds_nearest_def Let_def nearest_mode_def)

text \<open>A state for the witnesses, and an environment in which every call succeeds.\<close>

definition idle_state :: adsd3500 where
  "idle_state = \<lparr>fmt = zero_fmt, crop = \<lparr>r_left = 0, r_top = 0, r_width = 0, r_height = 0\<rparr>,
     current_mode = None,
     current_config = \<lparr>nr_depth_bits = 4, nr_ab_bits = 4, nr_confidence_bits = 2,
                       nr_mipi_lanes = 2, use_vc = False\<rparr>,
     vals = (\<lambda>c. 1), locked = False, streaming = False, main_fw = None, rst_gpio = Gpio, irq_gpio = Gpio, link_freq_flags = 4, irq = 7,
     debugfs = True, task = None, signalnum = 0, calls = []\<rparr>"

definition quiet_env :: "(call, resp) env" where
  "quiet_env h c = \<lparr>rc = 0, rval = 0x5931, rdata = [0x0B, 0, 0, 0]\<rparr>"

definition no_cfg :: pad_config where
  "no_cfg p = \<lparr>try_fmt = zero_fmt, try_crop = \<lparr>r_left = 0, r_top = 0, r_width = 0, r_height = 0\<rparr>\<rparr>"

definition request :: "u32 \<Rightarrow> u32 \<Rightarrow> u32 \<Rightarrow> u32 \<Rightarrow> u32 \<Rightarrow> v4l2_subdev_format" where
  "request which pad w h c = \<lparr>sf_which = which, sf_pad = pad,
     sf_format = zero_fmt\<lparr>ff_width := w, ff_height := h, ff_code := c\<rparr>\<rparr>"

lemma request_code: "ff_code (sf_format (request a b w h c)) = c"
  by (simp add: request_def)

text \<open>C1: a format that is set successfully has the size of a mode of the table at the least
  distance from the request, the requested code (whatever it is), no field order and the raw
  colour space; it is what the next active get returns, and the mutex is free again. An active
  format makes that mode current and crops to it. A try format leaves mode and crop, but it too
  becomes the driver's active format.\<close>

theorem set_format_applies:
  assumes "kernel_ok k" "adsd3500_set_format k cfg f s = Some (0, cfg', f', s')"
  shows "\<exists>m\<in>set adsd3500_mode_info_data.
    (\<forall>m'\<in>set adsd3500_mode_info_data.
       size_distance (ff_width (sf_format f)) (ff_height (sf_format f)) m \<le>
       size_distance (ff_width (sf_format f)) (ff_height (sf_format f)) m') \<and>
    ff_width (sf_format f') = width m \<and> ff_height (sf_format f') = height m \<and>
    ff_code (sf_format f') = ff_code (sf_format f) \<and>
    ff_field (sf_format f') = V4L2_FIELD_NONE \<and> ff_colorspace (sf_format f') = V4L2_COLORSPACE_RAW \<and>
    adsd3500_get_format cfg' (f\<lparr>sf_which := V4L2_SUBDEV_FORMAT_ACTIVE\<rparr>) s' =
      (0, f\<lparr>sf_which := V4L2_SUBDEV_FORMAT_ACTIVE, sf_format := sf_format f'\<rparr>) \<and>
    \<not> locked s' \<and>
    (sf_which f = V4L2_SUBDEV_FORMAT_ACTIVE \<and> current_mode s' = Some m \<and>
       r_width (crop s') = width m \<and> r_height (crop s') = height m \<or>
     sf_which f = V4L2_SUBDEV_FORMAT_TRY \<and> current_mode s' = current_mode s \<and> crop s' = crop s \<and>
       adsd3500_get_format cfg' f s' = (0, f\<lparr>sf_format := sf_format f'\<rparr>))"
proof -
  have c: "ctrl_core_ok k" using assms(1) by (simp add: kernel_ok_def)
  from c assms(2) show ?thesis
  proof (cases rule: set_format_cases)
    case tried
    then show ?thesis
      using nearest_mode_in [OF assms(1), of f] nearest_mode_least [OF assms(1), of _ f]
      by (intro bexI [of _ "nearest_mode k f"])
        (simp_all add: sized_def adsd3500_get_format_def adsd3500_get_pad_format_def)
  next
    case activated
    then show ?thesis
      using nearest_mode_in [OF assms(1), of f] nearest_mode_least [OF assms(1), of _ f]
      by (intro bexI [of _ "nearest_mode k f"])
        (simp_all add: sized_def adsd3500_get_format_def adsd3500_get_pad_format_def)
  qed simp
qed

theorem set_format_applies_witness:
  "\<exists>cfg' f' s'. adsd3500_set_format (eager_kernel quiet_env) no_cfg (request 1 0 512 512 0) idle_state =
       Some (0, cfg', f', s') \<and> \<not> locked s' \<and> ff_code (sf_format f') = 0"
proof -
  obtain cfg' f' s' where *: "adsd3500_set_format (eager_kernel quiet_env) no_cfg (request 1 0 512 512 0)
      idle_state = Some (0, cfg', f', s')"
    by (simp add: adsd3500_set_format_def idle_state_def request_def mutex_lock_def
        adsd3500_get_pad_crop_def adsd3500_get_pad_format_def set_active_mode_def v4l2_ctrl_s_ctrl_def
        eager_kernel_def eager_ctrl_def adsd3500_s_ctrl_def Let_def)
  show ?thesis
    using set_format_applies [OF eager_kernel_ok *] * by (auto simp: request_code)
qed

text \<open>C18: \<^verbatim>\<open>adsd3500_set_format\<close> releases the mutex exactly when it succeeds. After any failure (a
  pad other than 0, an unknown \<^verbatim>\<open>which\<close>, a control that cannot be set) the mutex stays held, and
  every later attempt to set a format, initialise a configuration or start or stop the stream
  waits forever.\<close>

theorem set_format_error_keeps_mutex:
  assumes "ctrl_core_ok k" "adsd3500_set_format k cfg f s = Some (r, cfg', f', s')"
  shows "locked s' = (r \<noteq> 0) \<and>
    (r = 0 \<or> (\<forall>c g. adsd3500_set_format k c g s' = None) \<and>
             (\<forall>b c. adsd3500_entity_init_cfg k b c s' = None) \<and>
             (\<forall>e. adsd3500_s_stream k e s' = None))"
  using assms by (elim set_format_cases) (auto simp: blocked adsd3500_entity_init_cfg_def Let_def)

theorem set_format_error_keeps_mutex_witness:
  "\<exists>s'. adsd3500_set_format (eager_kernel quiet_env) no_cfg (request 1 3 512 512 0x3001) idle_state =
       Some (- EINVAL, no_cfg, request 1 3 512 512 0x3001, s') \<and>
     adsd3500_s_stream (eager_kernel quiet_env) 1 s' = None"
proof -
  have *: "adsd3500_set_format (eager_kernel quiet_env) no_cfg (request 1 3 512 512 0x3001) idle_state =
      Some (- EINVAL, no_cfg, request 1 3 512 512 0x3001, idle_state\<lparr>locked := True\<rparr>)"
    by (rule set_format_pad) (simp_all add: idle_state_def request_def)
  show ?thesis
    using set_format_error_keeps_mutex [OF eager_ctrl_core_ok *] * by auto
qed

section \<open>The imager mode register\<close>

lemma bit_FIELD_PREP:
  "l \<le> h \<Longrightarrow> h < 64 \<Longrightarrow> bit (FIELD_PREP h l v) n \<longleftrightarrow> l \<le> n \<and> n \<le> h \<and> bit v (n - l)"
  by (auto simp: FIELD_PREP_def GENMASK_def bit_and_iff bit_push_bit_iff bit_mask_iff bit_word_of_int_iff)

lemma field_of:
  fixes v :: u32
  assumes "\<And>n. n < w \<Longrightarrow> bit v (l + n) = bit x n" "l + w \<le> 32"
  shows "drop_bit l v AND mask w = word_of_int (x mod 2 ^ w)"
  using assms(2) by (intro word_eqI_bit)
    (auto simp: bit_and_iff bit_drop_bit_eq bit_mask_iff bit_word_of_int_iff assms
      take_bit_eq_mod [symmetric] bit_take_bit_iff)

lemmas register_fields = SET_IMAGER_MODE_def SET_IMAGER_MODE_DEPTH_EN_def SET_IMAGER_MODE_VC_EN_def
  SET_IMAGER_MODE_AB_EN_def SET_IMAGER_MODE_AB_AVG_EN_def SET_IMAGER_MODE_DEPTH_BITS_def
  SET_IMAGER_MODE_AB_BITS_def SET_IMAGER_MODE_CONF_BITS_def SET_IMAGER_MODE_MIPI_LANES_NR_def

lemma bit_imager_mode_val:
  fixes s :: adsd3500
  defines "depth \<equiv> uint (nr_depth_bits (current_config s))" and "ab \<equiv> uint (nr_ab_bits (current_config s))"
  assumes "n < 32"
  shows "bit (imager_mode_val s) n \<longleftrightarrow>
    0 \<le> n \<and> n \<le> 0 \<and> bit (if depth \<noteq> 0 then vals s V4L2_CID_ADSD3500_DEPTH_EN else 0) (n - 0) \<or>
    4 \<le> n \<and> n \<le> 6 \<and> bit (if depth \<noteq> 0 then 6 - depth else 7) (n - 4) \<or>
    2 \<le> n \<and> n \<le> 2 \<and> bit (if ab \<noteq> 0 then 1 else 0 :: int) (n - 2) \<or>
    7 \<le> n \<and> n \<le> 9 \<and> bit (if ab \<noteq> 0 then 6 - ab else 0) (n - 7) \<or>
    10 \<le> n \<and> n \<le> 11 \<and> bit (uint (nr_confidence_bits (current_config s))) (n - 10) \<or>
    1 \<le> n \<and> n \<le> 1 \<and> bit (if use_vc (current_config s) then 0 else 1 :: int) (n - 1) \<or>
    3 \<le> n \<and> n \<le> 3 \<and> bit (vals s V4L2_CID_ADSD3500_AB_AVG) (n - 3) \<or>
    12 \<le> n \<and> n \<le> 13 \<and> bit (uint (nr_mipi_lanes (current_config s))) (n - 12)"
proof -
  have f: "bit (ucast (FIELD_PREP h l v) :: u32) n \<longleftrightarrow> l \<le> n \<and> n \<le> h \<and> bit v (n - l)"
    if "l \<le> h" "h < 64" for h l v
    using that assms(3) by (simp add: bit_ucast_iff bit_FIELD_PREP)
  show ?thesis
    unfolding imager_mode_val_def register_fields Let_def depth_def ab_def bit_or_iff
    using f by simp
qed

lemma bit_low: "bit (v :: 32 word) (0 + n) = bit v n"
  by simp

lemma imager_mode_val_fields:
  fixes s :: adsd3500
  defines "c \<equiv> current_config s"
  shows "drop_bit 0 (imager_mode_val s) AND mask 1 =
      word_of_int ((if nr_depth_bits c \<noteq> 0 then vals s V4L2_CID_ADSD3500_DEPTH_EN else 0) mod 2 ^ 1)"
    and "drop_bit 1 (imager_mode_val s) AND mask 1 = word_of_int ((if use_vc c then 0 else 1) mod 2 ^ 1)"
    and "drop_bit 2 (imager_mode_val s) AND mask 1 = word_of_int ((if nr_ab_bits c \<noteq> 0 then 1 else 0) mod 2 ^ 1)"
    and "drop_bit 3 (imager_mode_val s) AND mask 1 = word_of_int (vals s V4L2_CID_ADSD3500_AB_AVG mod 2 ^ 1)"
    and "drop_bit 4 (imager_mode_val s) AND mask 3 =
      word_of_int ((if nr_depth_bits c \<noteq> 0 then 6 - uint (nr_depth_bits c) else 7) mod 2 ^ 3)"
    and "drop_bit 7 (imager_mode_val s) AND mask 3 =
      word_of_int ((if nr_ab_bits c \<noteq> 0 then 6 - uint (nr_ab_bits c) else 0) mod 2 ^ 3)"
    and "drop_bit 10 (imager_mode_val s) AND mask 2 = word_of_int (uint (nr_confidence_bits c) mod 2 ^ 2)"
    and "drop_bit 12 (imager_mode_val s) AND mask 2 = word_of_int (uint (nr_mipi_lanes c) mod 2 ^ 2)"
    and "drop_bit 14 (imager_mode_val s) AND mask 18 = word_of_int (0 mod 2 ^ 18)"
  unfolding c_def
  by (rule field_of; simp add: bit_imager_mode_val unsigned_eq_0_iff split del: if_split; fail)+

lemma imager_mode_cmd_fields:
  "drop_bit 0 (imager_mode_cmd s) AND mask 8 = word_of_int (vals s V4L2_CID_ADSD3500_OPERATING_MODE mod 2 ^ 8)"
  "drop_bit 8 (imager_mode_cmd s) AND mask 24 = word_of_int (0xDA mod 2 ^ 24)"
proof -
  have b: "bit (imager_mode_cmd s) n \<longleftrightarrow> bit (0xDA00 :: u32) n \<or>
      n \<le> 7 \<and> bit (vals s V4L2_CID_ADSD3500_OPERATING_MODE) n" if "n < 32" for n
    using that by (simp add: imager_mode_cmd_def SET_IMAGER_MODE_def bit_or_iff bit_ucast_iff bit_FIELD_PREP)
  have low: "\<not> bit (0xDA00 :: u32) n" if "n < 8" for n
  proof -
    have "list_all (\<lambda>n. \<not> bit (0xDA00 :: u32) n) [0..<8]" by code_simp
    then show ?thesis using that by (simp add: list_all_upt)
  qed
  have high: "bit (0xDA00 :: u32) (8 + n) = bit (0xDA :: int) n" if "n < 24" for n
  proof -
    have "list_all (\<lambda>n. bit (0xDA00 :: u32) (8 + n) = bit (0xDA :: int) n) [0..<24]" by code_simp
    then show ?thesis using that by (simp add: list_all_upt)
  qed
  show "drop_bit 0 (imager_mode_cmd s) AND mask 8 =
      word_of_int (vals s V4L2_CID_ADSD3500_OPERATING_MODE mod 2 ^ 8)"
    by (rule field_of) (use low in \<open>auto simp: b\<close>)
  show "drop_bit 8 (imager_mode_cmd s) AND mask 24 = word_of_int (0xDA mod 2 ^ 24)"
    by (rule field_of) (use high in \<open>simp_all add: b\<close>)
qed

lemma power_on_value:
  "\<exists>r. adsd3500_power_on k s =
    (r, s\<lparr>calls := calls s @ [Regmap_Read GET_CHIP_ID_CMD,
                              Regmap_Write (imager_mode_cmd s) (imager_mode_val s)]\<rparr>)"
  by (simp add: adsd3500_power_on_def regmap_read_def regmap_write_def call_def Let_def
      imager_mode_cmd_def imager_mode_val_def)

text \<open>C27: resuming the device reads the chip id and writes the imager mode register, once, and
  reports only whether that write failed: a chip that does not answer, or answers with a wrong
  id, does not stop it. The written command carries the operating mode, and the value carries
  every configured field at its place: enables, the bit counts as \<open>6 - n\<close> (7 and 0 for none), the
  confidence bits, and the lanes modulo four.\<close>

theorem power_on_programs_mode:
  fixes s :: adsd3500
  defines "c \<equiv> current_config s" and "cmd \<equiv> imager_mode_cmd s" and "v \<equiv> imager_mode_val s"
  shows "adsd3500_power_on k s =
      (rc (env k (calls s @ [Regmap_Read GET_CHIP_ID_CMD]) (Regmap_Write cmd v)),
       s\<lparr>calls := calls s @ [Regmap_Read GET_CHIP_ID_CMD, Regmap_Write cmd v]\<rparr>) \<and>
    drop_bit 8 cmd AND mask 24 = word_of_int 0xDA \<and>
    drop_bit 0 cmd AND mask 8 = word_of_int (vals s V4L2_CID_ADSD3500_OPERATING_MODE mod 2 ^ 8) \<and>
    drop_bit 0 v AND mask 1 =
      word_of_int ((if nr_depth_bits c \<noteq> 0 then vals s V4L2_CID_ADSD3500_DEPTH_EN else 0) mod 2 ^ 1) \<and>
    drop_bit 1 v AND mask 1 = word_of_int ((if use_vc c then 0 else 1) mod 2 ^ 1) \<and>
    drop_bit 2 v AND mask 1 = word_of_int ((if nr_ab_bits c \<noteq> 0 then 1 else 0) mod 2 ^ 1) \<and>
    drop_bit 3 v AND mask 1 = word_of_int (vals s V4L2_CID_ADSD3500_AB_AVG mod 2 ^ 1) \<and>
    drop_bit 4 v AND mask 3 =
      word_of_int ((if nr_depth_bits c \<noteq> 0 then 6 - uint (nr_depth_bits c) else 7) mod 2 ^ 3) \<and>
    drop_bit 7 v AND mask 3 =
      word_of_int ((if nr_ab_bits c \<noteq> 0 then 6 - uint (nr_ab_bits c) else 0) mod 2 ^ 3) \<and>
    drop_bit 10 v AND mask 2 = word_of_int (uint (nr_confidence_bits c) mod 2 ^ 2) \<and>
    drop_bit 12 v AND mask 2 = word_of_int (uint (nr_mipi_lanes c) mod 2 ^ 2) \<and>
    drop_bit 14 v AND mask 18 = word_of_int (0 mod 2 ^ 18)"
  unfolding c_def cmd_def v_def
proof (intro conjI imager_mode_val_fields imager_mode_cmd_fields)
  show "adsd3500_power_on k s =
      (rc (env k (calls s @ [Regmap_Read GET_CHIP_ID_CMD])
            (Regmap_Write (imager_mode_cmd s) (imager_mode_val s))),
       s\<lparr>calls := calls s @ [Regmap_Read GET_CHIP_ID_CMD,
                             Regmap_Write (imager_mode_cmd s) (imager_mode_val s)]\<rparr>)"
    by (simp add: adsd3500_power_on_def regmap_read_def regmap_write_def call_def Let_def
        imager_mode_cmd_def imager_mode_val_def)
  show "drop_bit 8 (imager_mode_cmd s) AND mask 24 = word_of_int 0xDA"
    using imager_mode_cmd_fields(2) [of s] by simp
qed

section \<open>The chip configuration control\<close>

lemma pld_size_unat: "unat (pld_size_of p) = unat (p ! 1) * 256 + unat (p ! 2)"
proof -
  have "unat (p ! 1) < 256" "unat (p ! 2) < 256" by simp_all
  then have "unat (p ! 1) * 256 + unat (p ! 2) < 65536" by linarith
  then show ?thesis by (simp only: pld_size_of_def unat_of_nat) simp
qed

lemma chip_config_recv:
  assumes "2 \<le> unat (pld_size_of p)" "unat (pld_size_of p) \<le> 4096" "p ! 0 = 0" "p = p_new ctrl"
    and "n = unat (pld_size_of p)" "r = env k (calls s) (I2c_Master_Recv n)" "d = rdata r"
  shows "adsd3500_chip_config k ctrl s =
    (if rc r < 0 then (- EIO, ctrl)
     else (0, ctrl\<lparr>p_new := (take 3 p @ take n d @ drop (length (take n d)) (drop 3 p))[0 := 0xFF]\<rparr>),
     s\<lparr>calls := calls s @ [I2c_Master_Recv n]\<rparr>)"
  using assms by (simp add: adsd3500_chip_config_def call_def Let_def)

lemma received_bytes:
  assumes "length p = 4099" "length d = n" "2 \<le> n" "n \<le> 4096"
  defines "q \<equiv> (take 3 p @ take n d @ drop (length (take n d)) (drop 3 p))[0 := 0xFF]"
  shows "length q = 4099" "q ! 0 = 0xFF" "take n (drop 3 q) = d" "drop (3 + n) q = drop (3 + n) p"
    "q ! 1 = p ! 1" "q ! 2 = p ! 2"
  using assms by (simp_all add: nth_list_update nth_append drop_update_cancel min_absorb2 add.commute)

text \<open>The chip configuration control. With a payload of the registered 4099 bytes, a size
  below 2 or above 4096 and a direction other than 0 and 1 are refused without touching the bus;
  otherwise there is exactly one transfer, of exactly the stated number of bytes, all of them
  inside the payload. A failed transfer is reported as EIO and leaves the payload; a successful
  one marks it with 0xFF in front, and a read puts the received bytes at offset 3 and leaves the
  others.\<close>

theorem chip_config_transfers:
  fixes ctrl :: v4l2_ctrl
  assumes "length (p_new ctrl) = 4099"
  defines "p \<equiv> p_new ctrl"
  defines "n \<equiv> unat (p ! 1) * 256 + unat (p ! 2)"
  defines "out \<equiv> take n (drop 3 p)"
  shows "if n < 2 \<or> 4096 < n \<or> 1 < p ! 0
    then adsd3500_chip_config k ctrl s = ((- EINVAL, ctrl), s)
    else \<exists>c q. adsd3500_chip_config k ctrl s =
        (if rc (env k (calls s) c) < 0 then (- EIO, ctrl) else (0, ctrl\<lparr>p_new := q\<rparr>),
         s\<lparr>calls := calls s @ [c]\<rparr>) \<and>
      (p ! 0 = 1 \<and> c = I2c_Master_Send out \<and> length out = n \<and> q = p[0 := 0xFF] \<or>
       p ! 0 = 0 \<and> c = I2c_Master_Recv n \<and>
       (length (rdata (env k (calls s) c)) \<noteq> n \<or>
        length q = 4099 \<and> q ! 0 = 0xFF \<and> q ! 1 = p ! 1 \<and> q ! 2 = p ! 2 \<and>
        take n (drop 3 q) = rdata (env k (calls s) c) \<and> drop (3 + n) q = drop (3 + n) p))"
proof (cases "n < 2 \<or> 4096 < n \<or> 1 < p ! 0")
  case True
  then show ?thesis
    by (auto simp: adsd3500_chip_config_def Let_def pld_size_unat p_def n_def)
next
  case False
  have l: "length p = 4099" using assms(1) by (simp add: p_def)
  from False have "p ! 0 = 0 \<or> p ! 0 = 1"
    by (metis le_less_linear word_le_0_iff word_less_1 not_less less_le)
  then show ?thesis
  proof
    assume "p ! 0 = 1"
    then show ?thesis
      using False l by (auto simp: adsd3500_chip_config_def Let_def pld_size_unat p_def n_def call_def out_def)
  next
    assume z: "p ! 0 = 0"
    let ?d = "rdata (env k (calls s) (I2c_Master_Recv n))"
    let ?q = "(take 3 p @ take n ?d @ drop (length (take n ?d)) (drop 3 p))[0 := 0xFF]"
    have n: "2 \<le> n" "n \<le> 4096" "unat (pld_size_of p) = n"
      using False by (auto simp: pld_size_unat n_def)
    have "adsd3500_chip_config k ctrl s =
        (if rc (env k (calls s) (I2c_Master_Recv n)) < 0 then (- EIO, ctrl) else (0, ctrl\<lparr>p_new := ?q\<rparr>),
         s\<lparr>calls := calls s @ [I2c_Master_Recv n]\<rparr>)"
      by (rule chip_config_recv) (use n z in \<open>simp_all add: p_def\<close>)
    moreover have "length ?d \<noteq> n \<or> length ?q = 4099 \<and> ?q ! 0 = 0xFF \<and> ?q ! 1 = p ! 1 \<and> ?q ! 2 = p ! 2 \<and>
        take n (drop 3 ?q) = ?d \<and> drop (3 + n) ?q = drop (3 + n) p"
      using received_bytes [OF l _ n(1,2), of ?d] by blast
    ultimately show ?thesis using False z by (auto simp: add.commute intro!: exI [of _ "I2c_Master_Recv n"] exI [of _ ?q])
  qed
qed

text \<open>A write of two bytes, 0x00 0x19.\<close>

definition sample_ctrl :: v4l2_ctrl where
  "sample_ctrl = \<lparr>ctrl_id = V4L2_CID_ADSD3500_CHIP_CONFIG, ctrl_val = 0,
                  p_new = [1, 0, 2, 0x00, 0x19] @ replicate 4094 0\<rparr>"

theorem chip_config_transfers_witness:
  "\<exists>q. adsd3500_chip_config (eager_kernel quiet_env) sample_ctrl idle_state =
     ((0, sample_ctrl\<lparr>p_new := q\<rparr>), idle_state\<lparr>calls := [I2c_Master_Send [0x00, 0x19]]\<rparr>)"
proof -
  have l: "length (p_new sample_ctrl) = 4099" by (simp add: sample_ctrl_def)
  have p: "p_new sample_ctrl ! 0 = 1" "p_new sample_ctrl ! 1 = 0" "p_new sample_ctrl ! 2 = 2"
    "take 2 (drop 3 (p_new sample_ctrl)) = [0x00, 0x19]"
    by (simp_all add: sample_ctrl_def numeral_2_eq_2 numeral_3_eq_3)
  have e: "calls idle_state = []" "rc (quiet_env h c) = 0" for h c
    by (simp_all add: idle_state_def quiet_env_def)
  have n: "unat (0 :: u8) * 256 + unat (2 :: u8) = 2" by simp
  from chip_config_transfers [OF l, of "eager_kernel quiet_env" idle_state]
  obtain c q where "adsd3500_chip_config (eager_kernel quiet_env) sample_ctrl idle_state =
      ((0, sample_ctrl\<lparr>p_new := q\<rparr>), idle_state\<lparr>calls := [c]\<rparr>)" "c = I2c_Master_Send [0x00, 0x19]"
    unfolding p n e eager_env by auto
  then show ?thesis by blast
qed

section \<open>The frame interval\<close>

lemma div_round_up:
  assumes "d \<noteq> 0" "unat n + unat d \<le> 4294967296"
  shows "\<exists>v. DIV_ROUND_UP n d = Ret v \<and> unat n \<le> unat v * unat d \<and> unat v * unat d < unat n + unat d"
proof -
  have d: "0 < unat d" using assms(1) by (simp add: unat_gt_0)
  have s: "unat (n + d - 1) = unat n + unat d - 1"
  proof -
    have "uint (n + d - 1) = (uint n + uint d - 1) mod 4294967296"
      by (simp add: uint_word_ariths take_bit_eq_mod mod_simps)
    moreover have "uint n + uint d - 1 < 4294967296" "0 \<le> uint n + uint d - 1"
      using assms(2) d uint_nat [of n] uint_nat [of d] by linarith+
    ultimately have "uint (n + d - 1) = uint n + uint d - 1" by simp
    then show ?thesis using d uint_nat [of n] uint_nat [of d] uint_nat [of "n + d - 1"] by linarith
  qed
  have "unat ((n + d - 1) div d) = (unat n + unat d - 1) div unat d"
    by (simp add: unat_div s)
  moreover have "unat n \<le> (unat n + unat d - 1) div unat d * unat d"
    "(unat n + unat d - 1) div unat d * unat d < unat n + unat d"
  proof -
    let ?x = "unat n + unat d - 1"
    have e: "?x div unat d * unat d + ?x mod unat d = ?x" by simp
    have m: "?x mod unat d < unat d" using d by simp
    show "unat n \<le> ?x div unat d * unat d" using e m d by linarith
    show "?x div unat d * unat d < unat n + unat d" using e d by linarith
  qed
  ultimately show ?thesis using assms(1) by (simp add: DIV_ROUND_UP_def)
qed

text \<open>Setting a frame interval writes the frame rate rounded up: the least \<open>v\<close> with
  \<open>denominator \<le> v * numerator\<close>, provided the sum of the two fits 32 bits. A zero numerator, which
  nothing rejects, is a division by zero.\<close>

theorem s_frame_interval_rounds_up:
  assumes "unat (denominator fi) + unat (numerator fi) \<le> 2 ^ 32"
  shows "if numerator fi = 0 then adsd3500_s_frame_interval k fi s = Fault
    else \<exists>v. adsd3500_s_frame_interval k fi s =
          Ret (rc (env k (calls s) (Regmap_Write SET_FRAMERATE_CMD v)),
               s\<lparr>calls := calls s @ [Regmap_Write SET_FRAMERATE_CMD v]\<rparr>) \<and>
        unat (denominator fi) \<le> unat v * unat (numerator fi) \<and>
        unat v * unat (numerator fi) < unat (denominator fi) + unat (numerator fi)"
proof (cases "numerator fi = 0")
  case True
  then show ?thesis by (simp add: adsd3500_s_frame_interval_def DIV_ROUND_UP_def)
next
  case False
  have "unat (denominator fi) + unat (numerator fi) \<le> 4294967296"
    using assms by simp
  from div_round_up [OF False this] show ?thesis
    using False by (auto simp: adsd3500_s_frame_interval_def regmap_write_def call_def)
qed

theorem s_frame_interval_rounds_up_witness:
  "adsd3500_s_frame_interval (eager_kernel quiet_env) \<lparr>numerator = 0, denominator = 10\<rparr> idle_state = Fault \<and>
   (\<exists>v s. adsd3500_s_frame_interval (eager_kernel quiet_env) \<lparr>numerator = 3, denominator = 10\<rparr> idle_state =
      Ret (0, s) \<and> calls s = [Regmap_Write SET_FRAMERATE_CMD v] \<and> 10 \<le> unat v * 3 \<and> unat v * 3 < 13)"
  using s_frame_interval_rounds_up [of "\<lparr>numerator = 0, denominator = 10\<rparr>" "eager_kernel quiet_env" idle_state]
    s_frame_interval_rounds_up [of "\<lparr>numerator = 3, denominator = 10\<rparr>" "eager_kernel quiet_env" idle_state]
  by (auto simp: quiet_env_def idle_state_def)

section \<open>The status file\<close>

definition digit_value :: "char \<Rightarrow> nat" where
  "digit_value c = (if of_char c \<le> (57 :: nat) then of_char c - 48 else of_char c - 55)"

definition hex_value :: "string \<Rightarrow> nat" where
  "hex_value = foldl (\<lambda>v c. v * 16 + digit_value c) 0"

lemma digit_value_hex_digit: "d < 16 \<Longrightarrow> digit_value (hex_digit d) = d"
proof -
  have "list_all (\<lambda>d. digit_value (hex_digit d) = d) [0..<16]" by code_simp
  then show "d < 16 \<Longrightarrow> digit_value (hex_digit d) = d" by (simp add: list_all_upt)
qed

lemma hex_value_hex_digits: "hex_value (hex_digits prec n) = n"
proof (induction prec n rule: hex_digits.induct)
  case (1 prec n)
  then show ?case
    by (subst hex_digits.simps)
      (simp add: hex_value_def digit_value_hex_digit)
qed

lemma length_hex_digits: "n < 16 ^ k \<Longrightarrow> prec \<le> length (hex_digits prec n) \<and> length (hex_digits prec n) \<le> max prec k"
proof (induction prec n arbitrary: k rule: hex_digits.induct)
  case (1 prec n)
  show ?case
  proof (cases "n = 0 \<and> prec = 0")
    case True
    then show ?thesis by (simp add: hex_digits.simps)
  next
    case False
    have "n div 16 < 16 ^ (k - 1)"
    proof (cases k)
      case 0
      then show ?thesis using "1.prems" by simp
    next
      case (Suc j)
      then show ?thesis using "1.prems" by (simp add: less_mult_imp_div_less mult.commute)
    qed
    from "1.IH" [OF False this] show ?thesis
      using False "1.prems" by (subst (1 2) hex_digits.simps) (cases k; auto simp: max_def split: if_splits)
  qed
qed

text \<open>Reading the debugfs file issues one read of the status register; the text handed out
  fits the 16-byte buffer with its terminator, and on success it is \<^verbatim>\<open>0x\<close>, four to eight
  hexadecimal digits whose value is the register's, and a newline.\<close>

theorem debug_read_reports_status:
  fixes s :: adsd3500 and k :: kernel
  defines "r \<equiv> env k (calls s) (Regmap_Read GET_IMAGER_STATUS_CMD)"
  shows "debug_read k copy_out count offset s =
      (copy_out count offset (status_text r), s\<lparr>calls := calls s @ [Regmap_Read GET_IMAGER_STATUS_CMD]\<rparr>) \<and>
    length (status_text r) < 16 \<and>
    (if rc r < 0 then status_text r = ''Read failed'' @ [CHR 0x0A]
     else \<exists>ds. status_text r = ''0x'' @ ds @ [CHR 0x0A] \<and> hex_value ds = unat (rval r) \<and>
            4 \<le> length ds \<and> length ds \<le> 8)"
proof -
  have "unat (rval r) < 16 ^ 8" by simp
  from length_hex_digits [OF this, of 4]
  have l: "4 \<le> length (hex_digits 4 (unat (rval r)))" "length (hex_digits 4 (unat (rval r))) \<le> 8" by simp_all
  show ?thesis
    using l by (auto simp: debug_read_def regmap_read_def call_def status_text_def r_def hex_value_hex_digits)
qed

section \<open>Streaming over runs of operations\<close>

text \<open>
  The operations that user space, the PM core and the interrupt line invoke on a probed device.
  \<open>driver_op\<close> is the state after one of them, \<open>None\<close> when it does not return.
\<close>

datatype op =
    Set_Format v4l2_subdev_format pad_config
  | Init_Cfg bool pad_config
  | S_Stream int
  | S_Ctrl u32 int
  | S_Frame_Interval v4l2_fract
  | G_Frame_Interval
  | G_Register v4l2_dbg_register
  | Debug_Read nat int
  | Debug_Ioctl u32 nat
  | Debug_Release nat
  | Irq

definition driver_op :: "kernel \<Rightarrow> op \<Rightarrow> adsd3500 \<Rightarrow> adsd3500 option" where
  "driver_op k op s =
     (case op of
        Set_Format f cfg \<Rightarrow> map_option (\<lambda>(r, cfg, f, t). t) (adsd3500_set_format k cfg f s)
      | Init_Cfg b cfg \<Rightarrow> map_option (\<lambda>(r, cfg, t). t) (adsd3500_entity_init_cfg k b cfg s)
      | S_Stream e \<Rightarrow> map_option snd (adsd3500_s_stream k e s)
      | S_Ctrl cid v \<Rightarrow> Some (snd (v4l2_ctrl_s_ctrl k cid v s))
      | S_Frame_Interval fi \<Rightarrow>
          (case adsd3500_s_frame_interval k fi s of Fault \<Rightarrow> None | Ret (r, t) \<Rightarrow> Some t)
      | G_Frame_Interval \<Rightarrow> Some (snd (adsd3500_g_frame_interval k s))
      | G_Register reg \<Rightarrow> Some (snd (adsd3500_g_register k reg s))
      | Debug_Read n off \<Rightarrow> Some (snd (debug_read k (\<lambda>n off txt. ()) n off s))
      | Debug_Ioctl cmd cur \<Rightarrow> Some (snd (debug_ioctl cmd cur s))
      | Debug_Release cur \<Rightarrow> Some (snd (debug_release cur s))
      | Irq \<Rightarrow> Some (adsd3500_irq_handler k s))"

text \<open>The media framework only passes 0 and 1 to \<^verbatim>\<open>s_stream\<close>.\<close>

fun boolean_enable :: "op \<Rightarrow> bool" where
  "boolean_enable (S_Stream e) = (e = 0 \<or> e = 1)"
| "boolean_enable _ = True"

fun pm_delta :: "call \<Rightarrow> int" where
  "pm_delta Pm_Runtime_Get_Sync = 1"
| "pm_delta Pm_Runtime_Put = -1"
| "pm_delta Pm_Runtime_Put_Noidle = -1"
| "pm_delta _ = 0"

definition pm_count :: "call list \<Rightarrow> int" where
  "pm_count cs = sum_list (map pm_delta cs)"

fun stream_cmd :: "call \<Rightarrow> bool" where
  "stream_cmd (Regmap_Write reg v) = (reg = STREAM_ON_CMD \<or> reg = STREAM_OFF_CMD)"
| "stream_cmd _ = False"

definition last_stream_cmd :: "call list \<Rightarrow> call option" where
  "last_stream_cmd cs =
     (let xs = filter stream_cmd cs in if xs = [] then None else Some (last xs))"

definition stream_inv :: "adsd3500 \<Rightarrow> bool" where
  "stream_inv s \<longleftrightarrow> pm_count (calls s) = (if streaming s then 1 else 0) \<and>
     (streaming s \<longrightarrow> last_stream_cmd (calls s) = Some (Regmap_Write STREAM_ON_CMD STREAM_ON_VAL))"

text \<open>Calls that neither touch the PM count nor start or stop the stream.\<close>

definition neutral :: "call \<Rightarrow> bool" where
  "neutral c \<longleftrightarrow> pm_delta c = 0 \<and> \<not> stream_cmd c"

definition quiet :: "adsd3500 \<Rightarrow> adsd3500 \<Rightarrow> bool" where
  "quiet s t \<longleftrightarrow> streaming t = streaming s \<and> (\<exists>cs. calls t = calls s @ cs \<and> list_all neutral cs)"

lemma quiet_refl [intro, simp]: "quiet s s"
  by (simp add: quiet_def)

lemma quiet_trans: "quiet s t \<Longrightarrow> quiet t u \<Longrightarrow> quiet s u"
  by (auto simp: quiet_def)

lemma quiet_same: "calls t = calls s \<Longrightarrow> streaming t = streaming s \<Longrightarrow> quiet s t"
  by (simp add: quiet_def)

lemma quiet_call: "neutral c \<Longrightarrow> calls t = calls s @ [c] \<Longrightarrow> streaming t = streaming s \<Longrightarrow> quiet s t"
  by (auto simp: quiet_def)

lemma filter_neutral: "list_all neutral cs \<Longrightarrow> filter stream_cmd cs = []"
  by (induction cs) (auto simp: neutral_def)

lemma sum_neutral: "list_all neutral cs \<Longrightarrow> sum_list (map pm_delta cs) = 0"
  by (induction cs) (auto simp: neutral_def)

lemma quiet_counts:
  assumes "quiet s t"
  shows "pm_count (calls t) = pm_count (calls s)" "last_stream_cmd (calls t) = last_stream_cmd (calls s)"
    "streaming t = streaming s"
  using assms by (auto simp: quiet_def pm_count_def last_stream_cmd_def filter_neutral sum_neutral)

lemma quiet_inv: "quiet s t \<Longrightarrow> stream_inv s \<Longrightarrow> stream_inv t"
  by (simp add: stream_inv_def quiet_counts)

lemma pm_count_snoc: "pm_count (cs @ [c]) = pm_count cs + pm_delta c"
  by (simp add: pm_count_def)

lemma last_stream_cmd_snoc:
  "last_stream_cmd (cs @ [c]) = (if stream_cmd c then Some c else last_stream_cmd cs)"
  by (simp add: last_stream_cmd_def Let_def)

lemma imager_mode_cmd_neutral: "neutral (Regmap_Write (imager_mode_cmd s) v)"
proof -
  have "imager_mode_cmd s \<noteq> w" if "drop_bit 8 w AND mask 24 \<noteq> (0xDA :: u32)" for w
    using that imager_mode_cmd_fields(2) [of s] by auto
  then have "imager_mode_cmd s \<noteq> STREAM_ON_CMD" "imager_mode_cmd s \<noteq> STREAM_OFF_CMD" by simp_all
  then show ?thesis by (simp add: neutral_def)
qed

lemma power_on_quiet: "adsd3500_power_on k s = (r, t) \<Longrightarrow> quiet s t"
  using power_on_value [of k s] imager_mode_cmd_neutral [of s]
  by (auto simp: quiet_def neutral_def)

lemma quiet_vals [simp]: "quiet s (u\<lparr>vals := g\<rparr>) = quiet s u"
  by (simp add: quiet_def)

lemma chip_config_quiet: "adsd3500_chip_config k ctrl s = (x, t) \<Longrightarrow> quiet s t"
  by (auto simp: adsd3500_chip_config_def call_def Let_def neutral_def
      intro!: quiet_call split: if_splits)

lemma s_ctrl_quiet: "adsd3500_s_ctrl k ctrl s = (x, t) \<Longrightarrow> quiet s t"
  by (auto simp: adsd3500_s_ctrl_def adsd3500_bpp_config_def split: if_splits
      intro: chip_config_quiet quiet_same)

lemma ctrl_quiet:
  assumes "ctrl_core_ok k" "v4l2_ctrl_s_ctrl k cid v s = (r, t)"
  shows "quiet s t"
proof -
  obtain r' t' where "v4l2_ctrl_s_ctrl k cid v s = (r', t')"
    and "t' = s \<or> (\<exists>w p c u. adsd3500_s_ctrl k \<lparr>ctrl_id = cid, ctrl_val = w, p_new = p\<rparr> s = ((r', c), u) \<and>
         t' = (if r' = 0 then u\<lparr>vals := (vals u)(cid := w)\<rparr> else u))"
    using assms(1) unfolding ctrl_core_ok_def v4l2_ctrl_s_ctrl_def by meson
  then show ?thesis
    using assms(2) by (auto dest!: s_ctrl_quiet intro: quiet_trans quiet_same)
qed

lemma ctrl_quiet_snd: "ctrl_core_ok k \<Longrightarrow> quiet s (snd (v4l2_ctrl_s_ctrl k cid v s))"
  by (cases "v4l2_ctrl_s_ctrl k cid v s") (simp add: ctrl_quiet)

lemma quiet_one_call [simp]: "quiet s (s\<lparr>calls := calls s @ [c]\<rparr>) = neutral c"
  by (simp add: quiet_def)

lemma set_format_quiet:
  "ctrl_core_ok k \<Longrightarrow> adsd3500_set_format k cfg f s = Some (r, cfg', f', t) \<Longrightarrow> quiet s t"
  by (erule (1) set_format_cases) (simp_all add: quiet_same)

lemma pm_core_quiet:
  assumes "pm_core_ok k" "pm_core k (adsd3500_power_on k) s = (r, t)"
  shows "quiet s t"
proof -
  obtain r' t' where "pm_core k (adsd3500_power_on k) s = (r', t')"
    "t' = s \<or> (\<exists>e. adsd3500_power_on k s = (e, t') \<and> (e < 0 \<longrightarrow> r' < 0))"
    using assms(1) unfolding pm_core_ok_def by meson
  then show ?thesis using assms(2) power_on_quiet by auto
qed

text \<open>The ways \<^verbatim>\<open>adsd3500_s_stream\<close> ends, for a boolean argument.\<close>

lemma s_stream_cases:
  assumes "pm_core_ok k" "e = 0 \<or> e = 1" "adsd3500_s_stream k e s = Some (r, t)"
  obtains (same) "streaming s = (e = 1)" "r = 0" "t = s"
  | (no_power) cs where "e = 1" "\<not> streaming s" "r < 0" "list_all neutral cs"
      "calls t = calls s @ [Pm_Runtime_Get_Sync] @ cs @ [Pm_Runtime_Put_Noidle]" "\<not> streaming t"
  | (no_start) cs where "e = 1" "\<not> streaming s" "r \<noteq> 0" "list_all neutral cs"
      "calls t = calls s @ [Pm_Runtime_Get_Sync] @ cs @ [Regmap_Write STREAM_ON_CMD STREAM_ON_VAL, Pm_Runtime_Put]"
      "\<not> streaming t"
  | (started) cs where "e = 1" "\<not> streaming s" "r = 0" "list_all neutral cs"
      "calls t = calls s @ [Pm_Runtime_Get_Sync] @ cs @ [Regmap_Write STREAM_ON_CMD STREAM_ON_VAL]"
      "streaming t"
  | (stopped) "e = 0" "streaming s" "r = 0"
      "calls t = calls s @ [Regmap_Write STREAM_OFF_CMD STREAM_OFF_VAL, Pm_Runtime_Put]"
      "\<not> streaming t"
proof -
  have nl: "\<not> locked s" using assms(3) by (auto simp: adsd3500_s_stream_def mutex_lock_def)
  consider "streaming s = (e = 1)" | "e = 1" "\<not> streaming s" | "e = 0" "streaming s"
    using assms(2) by auto
  then show ?thesis
  proof cases
    case 1
    then show ?thesis
      using assms(2,3) nl same
      by (auto simp: adsd3500_s_stream_def mutex_lock_def mutex_unlock_def split: if_splits)
  next
    case 2
    let ?s = "s\<lparr>locked := True, calls := calls s @ [Pm_Runtime_Get_Sync]\<rparr>"
    obtain r1 u where pm: "pm_core k (adsd3500_power_on k) ?s = (r1, u)" by fastforce
    obtain cs where u: "calls u = calls s @ [Pm_Runtime_Get_Sync] @ cs" "list_all neutral cs" "\<not> streaming u"
      using pm_core_quiet [OF assms(1) pm] 2(2) by (auto simp: quiet_def)
    show ?thesis
      using assms(3) nl 2 pm u no_power [of cs] no_start [of cs] started [of cs]
      by (auto simp: adsd3500_s_stream_def mutex_lock_def mutex_unlock_def pm_runtime_get_sync_def
          call_def pm_runtime_put_noidle_def pm_runtime_put_def adsd3500_start_streaming_def
          regmap_write_def split: if_splits)
  next
    case 3
    then show ?thesis
      using assms(3) nl stopped
      by (auto simp: adsd3500_s_stream_def mutex_lock_def mutex_unlock_def call_def pm_runtime_put_def
          adsd3500_stop_streaming_def regmap_write_def)
  qed
qed

lemma pm_count_append: "pm_count (xs @ ys) = pm_count xs + pm_count ys"
  by (simp add: pm_count_def)

lemma pm_count_neutral: "list_all neutral cs \<Longrightarrow> pm_count cs = 0"
  by (simp add: pm_count_def sum_neutral)

lemma pm_count_Cons: "pm_count (c # cs) = pm_delta c + pm_count cs" "pm_count [] = 0"
  by (simp_all add: pm_count_def)

lemma s_stream_inv:
  assumes "pm_core_ok k" "e = 0 \<or> e = 1" "adsd3500_s_stream k e s = Some (r, t)" "stream_inv s"
  shows "stream_inv t"
  using assms(1-3)
proof (cases rule: s_stream_cases)
  case same
  then show ?thesis using assms(4) by simp
qed (use assms(4) in \<open>simp_all add: stream_inv_def pm_count_append pm_count_neutral pm_count_Cons
    last_stream_cmd_def filter_neutral\<close>)

lemma driver_op_inv:
  assumes "kernel_ok k" "stream_inv s" "boolean_enable x" "driver_op k x s = Some t"
  shows "stream_inv t"
proof -
  have c: "ctrl_core_ok k" "pm_core_ok k" using assms(1) by (simp_all add: kernel_ok_def)
  show ?thesis
  proof (cases "\<exists>e. x = S_Stream e")
    case True
    then show ?thesis using assms(2-4) c(2) by (auto simp: driver_op_def intro: s_stream_inv)
  next
    case False
    have "quiet s t"
      using False assms(4) c(1)
      by (cases x)
        (auto simp: driver_op_def adsd3500_entity_init_cfg_def Let_def adsd3500_s_frame_interval_def
          regmap_write_def regmap_read_def call_def adsd3500_g_frame_interval_def adsd3500_g_register_def
          debug_read_def debug_ioctl_def debug_release_def adsd3500_irq_handler_def neutral_def
          intro: set_format_quiet ctrl_quiet_snd quiet_same
          split: option.splits mem.splits prod.splits if_splits)
    then show ?thesis using assms(2) by (rule quiet_inv)
  qed
qed

text \<open>Every operation returns when formats, intervals and controls are as the framework passes
  them and the controls can be set, so the mutex is never left held.\<close>

definition ctrl_core_accepts :: "kernel \<Rightarrow> bool" where
  "ctrl_core_accepts k \<longleftrightarrow> (\<forall>cid\<in>{V4L2_CID_PIXEL_RATE, V4L2_CID_LINK_FREQ}. \<forall>v s.
     0 \<le> fst (v4l2_ctrl_s_ctrl k cid v s))"

fun well_formed :: "op \<Rightarrow> bool" where
  "well_formed (Set_Format f cfg) = (sf_pad f = 0 \<and> (sf_which f = 0 \<or> sf_which f = 1))"
| "well_formed (S_Frame_Interval fi) = (numerator fi \<noteq> 0)"
| "well_formed x = boolean_enable x"

interpretation adsd3500: stepped "driver_op k" boolean_enable "\<lambda>s. kernel_ok k \<and> stream_inv s"
  for k
  by unfold_locales (auto intro: driver_op_inv)



lemma locked_s_ctrl: "adsd3500_s_ctrl k ctrl s = (x, t) \<Longrightarrow> locked t = locked s"
  by (auto simp: adsd3500_s_ctrl_def adsd3500_bpp_config_def adsd3500_chip_config_def call_def Let_def
      split: if_splits)

lemma locked_ctrl:
  assumes "ctrl_core_ok k"
  shows "locked (snd (v4l2_ctrl_s_ctrl k cid v s)) = locked s"
proof -
  obtain r' t' where "v4l2_ctrl_s_ctrl k cid v s = (r', t')"
    and "t' = s \<or> (\<exists>w p c u. adsd3500_s_ctrl k \<lparr>ctrl_id = cid, ctrl_val = w, p_new = p\<rparr> s = ((r', c), u) \<and>
         t' = (if r' = 0 then u\<lparr>vals := (vals u)(cid := w)\<rparr> else u))"
    using assms unfolding ctrl_core_ok_def v4l2_ctrl_s_ctrl_def by meson
  then show ?thesis by (auto dest!: locked_s_ctrl split: if_splits)
qed

lemma set_format_well_formed:
  assumes "ctrl_core_ok k" "ctrl_core_accepts k" "\<not> locked s" "sf_pad f = 0" "sf_which f = 0 \<or> sf_which f = 1"
  shows "\<exists>cfg' f' t. adsd3500_set_format k cfg f s = Some (0, cfg', f', t) \<and> \<not> locked t"
proof (cases "sf_which f = 0")
  case True
  then show ?thesis using set_format_try [OF assms(3,4)] by (simp add: Let_def)
next
  case False
  then have w: "sf_which f = 1" using assms(5) by blast
  let ?m = "nearest_mode k f"
  let ?s = "s\<lparr>locked := True, crop := (crop s)\<lparr>r_width := width ?m, r_height := height ?m\<rparr>\<rparr>"
  have m: "adsd3500_mode_info_data ! find_nearest_size k adsd3500_mode_info_data
      (ff_width (sf_format f)) (ff_height (sf_format f)) = ?m"
    by (simp add: nearest_mode_def)
  obtain r g where "set_active_mode k ?m ?s = (r, ?s\<lparr>vals := g\<rparr>) \<and> r < 0 \<or>
      set_active_mode k ?m ?s = (0, ?s\<lparr>vals := g, current_mode := Some ?m\<rparr>)"
    using set_active_mode_frame [OF assms(1)] by blast
  moreover have "\<not> fst (set_active_mode k ?m ?s) < 0"
  proof -
    have a: "\<not> fst (v4l2_ctrl_s_ctrl k cid v u) < 0" if "cid \<in> {V4L2_CID_PIXEL_RATE, V4L2_CID_LINK_FREQ}" for cid v u
      using that assms(2) unfolding ctrl_core_accepts_def by (meson not_less)
    show ?thesis
      using a [of V4L2_CID_PIXEL_RATE] a [of V4L2_CID_LINK_FREQ]
      by (simp add: set_active_mode_def case_prod_beta)
  qed
  ultimately have "set_active_mode k ?m ?s = (0, ?s\<lparr>vals := g, current_mode := Some ?m\<rparr>)"
    by auto
  then show ?thesis
    using assms(3,4) w
    by (simp add: adsd3500_set_format_def mutex_lock_def adsd3500_get_pad_crop_def
        adsd3500_get_pad_format_def Let_def m mutex_unlock_def)
qed

lemma s_stream_returns:
  assumes "\<not> locked s"
  shows "\<exists>r t. adsd3500_s_stream k e s = Some (r, t) \<and> \<not> locked t"
  using assms by (auto simp: adsd3500_s_stream_def mutex_lock_def mutex_unlock_def split: prod.split)

definition lock_inv :: "kernel \<Rightarrow> adsd3500 \<Rightarrow> bool" where
  "lock_inv k s \<longleftrightarrow> ctrl_core_ok k \<and> ctrl_core_accepts k \<and> \<not> locked s"

lemma driver_op_returns:
  assumes "lock_inv k s" "well_formed x"
  shows "\<exists>t. driver_op k x s = Some t \<and> lock_inv k t"
proof -
  have k: "ctrl_core_ok k" "ctrl_core_accepts k" "\<not> locked s" using assms(1) by (simp_all add: lock_inv_def)
  show ?thesis
  proof (cases x)
    case (Set_Format f cfg)
    then obtain cfg' f' t where "adsd3500_set_format k cfg f s = Some (0, cfg', f', t)" "\<not> locked t"
      using set_format_well_formed [OF k, of f cfg] assms(2) by auto
    then show ?thesis using Set_Format k by (simp add: driver_op_def lock_inv_def)
  next
    case (Init_Cfg b cfg)
    define f where "f = \<lparr>sf_which = (if b then V4L2_SUBDEV_FORMAT_TRY else V4L2_SUBDEV_FORMAT_ACTIVE),
      sf_pad = 0, sf_format = zero_fmt\<lparr>ff_width := width (adsd3500_mode_info_data ! 0),
        ff_height := height (adsd3500_mode_info_data ! 0), ff_code := code (adsd3500_mode_info_data ! 0)\<rparr>\<rparr>"
    have fp: "sf_pad f = 0" "sf_which f = 0 \<or> sf_which f = 1" by (simp_all add: f_def)
    obtain cfg' f' t where "adsd3500_set_format k cfg f s = Some (0, cfg', f', t)" "\<not> locked t"
      using set_format_well_formed [OF k fp, of cfg] by blast
    then show ?thesis
      using Init_Cfg k by (simp add: driver_op_def lock_inv_def adsd3500_entity_init_cfg_def Let_def f_def)
  next
    case (S_Stream e)
    then show ?thesis using s_stream_returns [OF k(3), of k e] k by (auto simp: driver_op_def lock_inv_def)
  next
    case (S_Ctrl cid v)
    then show ?thesis using k by (simp add: driver_op_def lock_inv_def locked_ctrl)
  next
    case (S_Frame_Interval fi)
    then show ?thesis using k assms(2)
      by (simp add: driver_op_def lock_inv_def adsd3500_s_frame_interval_def DIV_ROUND_UP_def regmap_write_def call_def)
  qed (use k in \<open>auto simp: driver_op_def lock_inv_def adsd3500_g_frame_interval_def regmap_read_def call_def
      adsd3500_g_register_def debug_read_def debug_ioctl_def debug_release_def adsd3500_irq_handler_def Let_def
      split: option.split\<close>)
qed

interpretation adsd3500_live: live "driver_op k" well_formed "lock_inv k" for k
  by unfold_locales (use driver_op_returns in fastforce)+

lemma eager_accepts: "ctrl_core_accepts (eager_kernel e)"
  by (simp add: ctrl_core_accepts_def v4l2_ctrl_s_ctrl_def eager_kernel_def eager_ctrl_def adsd3500_s_ctrl_def)



text \<open>The interrupt signals exactly the task that last registered itself through the debugfs
  file and has not closed it since: a registration replaces the former one, a close by another
  task leaves it, and without a registered task no signal is sent.\<close>

theorem irq_signals_registered_task:
  fixes s :: adsd3500 and cur :: nat
  defines "reg \<equiv> snd (debug_ioctl USER_TASK cur s)"
  shows "calls (adsd3500_irq_handler k reg) = calls s @ [Send_Sig_Info SIGETX cur] \<and>
    task (snd (debug_release cur reg)) = None \<and>
    calls (adsd3500_irq_handler k (snd (debug_release cur reg))) = calls s \<and>
    (other = cur \<or> calls (adsd3500_irq_handler k (snd (debug_release other reg))) =
       calls s @ [Send_Sig_Info SIGETX cur]) \<and>
    (cmd = USER_TASK \<or> snd (debug_ioctl cmd other s) = s)"
  by (simp add: reg_def debug_ioctl_def debug_release_def adsd3500_irq_handler_def call_def)

end
