(* ===== verification/Adsd3500_Firmware.thy ===== *)
theory Adsd3500_Firmware
  imports Adsd3500_Driver
begin

text \<open>
  The firmware transfer of the ADSD3500 driver (\<^verbatim>\<open>adsd3500_read_ack\<close>,
  \<^verbatim>\<open>adsd3500_send_host_boot_data\<close>, \<^verbatim>\<open>adsd3500_parse_fw\<close>, \<^verbatim>\<open>adsd3500_load_firmware\<close>): an image is
  cut into segments of a 16-byte header and a payload, which are sent one after the other, each
  acknowledged by the chip. Writes past the local arrays, reads past the image and copies to a
  null or too small buffer are \<open>Fault\<close>.
\<close>

section \<open>The code\<close>

abbreviation HEADER_SIZE_IN_BYTES :: nat where "HEADER_SIZE_IN_BYTES \<equiv> 16"
abbreviation PAYLOAD_MAX_CHUNK_SIZE :: nat where "PAYLOAD_MAX_CHUNK_SIZE \<equiv> 2048"
abbreviation MAX_SEGMENTS :: nat where "MAX_SEGMENTS \<equiv> 100"

definition adsd3500_read_ack :: "kernel \<Rightarrow> adsd3500 \<Rightarrow> int \<times> adsd3500" where
  "adsd3500_read_ack k s =
     (case call k (I2c_Master_Recv 4) s of (r, s) \<Rightarrow>
        if rc r < 0 then (- EIO, s)
        else if rdata r ! 0 \<noteq> 0x0B then (- ENXIO, s)
        else (0, s))"

text \<open>
  The first loop: where each segment's header starts and how long its payload is, filled into
  arrays of 100 elements. It ends since every step advances by at least a header.
\<close>

function find_segments :: "u8 list \<Rightarrow> int \<Rightarrow> nat \<Rightarrow> nat \<Rightarrow> (nat \<times> nat) list mem" where
  "find_segments data sz prev_seg_end n_segments =
     (if n_segments \<ge> MAX_SEGMENTS \<or> prev_seg_end + 2 \<ge> length data then Fault
      else
        let segment_size = unat (data ! (prev_seg_end + 2)) * 256 + unat (data ! (prev_seg_end + 1));
            segment_end = prev_seg_end + HEADER_SIZE_IN_BYTES + segment_size
        in if int segment_end \<ge> sz then Ret [(prev_seg_end, segment_size)]
           else case find_segments data sz segment_end (n_segments + 1) of
               Fault \<Rightarrow> Fault
             | Ret segs \<Rightarrow> Ret ((prev_seg_end, segment_size) # segs))"
  by pat_completeness auto
termination
  by (relation "measure (\<lambda>(data, sz, prev, n). MAX_SEGMENTS - n)") auto

declare find_segments.simps [simp del]

text \<open>
  The second loop. \<open>Inl\<close> is an early return, \<open>Inr\<close> the end of the loop; \<open>packet\<close> says whether the
  payload buffer was allocated.
\<close>

fun send_segments ::
  "kernel \<Rightarrow> bool \<Rightarrow> u8 list \<Rightarrow> (nat \<times> nat) list \<Rightarrow> adsd3500 \<Rightarrow> ((int + unit) \<times> adsd3500) mem" where
  "send_segments k packet data [] s = Ret (Inr (), s)"
| "send_segments k packet data ((header_start, segment_size) # segs) s =
     (if header_start + HEADER_SIZE_IN_BYTES > length data then Fault
      else let header_packet = take HEADER_SIZE_IN_BYTES (drop header_start data) in
        case call k (I2c_Master_Send header_packet) s of (r, s) \<Rightarrow>
          if rc r < 0 then Ret (Inl (- EIO), s)
          else if header_packet ! 3 = 0x55 then Ret (Inr (), s)
          else case adsd3500_read_ack k s of (ret, s) \<Rightarrow>
            if ret < 0 then Ret (Inl (- ENXIO), s)
            else case call k (Msleep 5) s of (_, s) \<Rightarrow>
              if segment_size = 0
              then if \<not> packet then Fault
                else send_segments k packet data segs (snd (call k (Msleep 1) s))
              else if \<not> packet \<or> segment_size > PAYLOAD_MAX_CHUNK_SIZE \<or>
                  header_start + HEADER_SIZE_IN_BYTES + segment_size > length data then Fault
              else let data_packet = take segment_size (drop (header_start + HEADER_SIZE_IN_BYTES) data) in
                case call k (I2c_Master_Send data_packet) s of (r, s) \<Rightarrow>
                  if rc r < 0 then Ret (Inl (- EIO), s)
                  else case call k (Msleep 5) s of (_, s) \<Rightarrow>
                    case adsd3500_read_ack k s of (ret, s) \<Rightarrow>
                      if ret < 0 then Ret (Inl (- ENXIO), s)
                      else send_segments k packet data segs (snd (call k (Msleep 1) s)))"

definition adsd3500_send_host_boot_data ::
  "kernel \<Rightarrow> u8 list \<Rightarrow> int \<Rightarrow> adsd3500 \<Rightarrow> (int \<times> adsd3500) mem" where
  "adsd3500_send_host_boot_data k data sz s =
     (case call k (Kvzalloc PAYLOAD_MAX_CHUNK_SIZE) s of (a, s) \<Rightarrow>
        case find_segments data sz 0 0 of
          Fault \<Rightarrow> Fault
        | Ret segs \<Rightarrow>
            (case send_segments k (rc a \<ge> 0) data segs s of
               Fault \<Rightarrow> Fault
             | Ret (Inl e, s) \<Rightarrow> Ret (e, s)
             | Ret (Inr u, s) \<Rightarrow> Ret (0, snd (call k Kfree s))))"

text \<open>The image's size is converted to \<^verbatim>\<open>int\<close>.\<close>

definition adsd3500_parse_fw :: "kernel \<Rightarrow> adsd3500 \<Rightarrow> (int \<times> adsd3500) mem" where
  "adsd3500_parse_fw k s =
     (case main_fw s of
        None \<Rightarrow> Fault
      | Some fw \<Rightarrow>
          (case call k (Kvzalloc (length fw)) s of (a, s) \<Rightarrow>
             if rc a < 0 then Ret (- ENOMEM, s)
             else case adsd3500_send_host_boot_data k fw (sint (word_of_nat (length fw) :: u32)) s of
                 Fault \<Rightarrow> Fault
               | Ret (ret, s) \<Rightarrow>
                   if ret \<noteq> 0 then Ret (ret, snd (call k Kfree s))
                   else Ret (0, snd (call k Kfree s))))"

text \<open>\<open>fw_load\<close> is the module parameter. A request answers with the image's bytes.\<close>

definition adsd3500_load_firmware :: "kernel \<Rightarrow> bool \<Rightarrow> adsd3500 \<Rightarrow> (int \<times> adsd3500) mem" where
  "adsd3500_load_firmware k fw_load s =
     (if fw_load
      then case call k Request_Firmware s of (r, s) \<Rightarrow>
          if rc r < 0 then Ret (rc r, snd (call k Release_Firmware (s\<lparr>main_fw := None\<rparr>)))
          else case adsd3500_parse_fw k (s\<lparr>main_fw := Some (rdata r)\<rparr>) of
              Fault \<Rightarrow> Fault
            | Ret (ret, s) \<Rightarrow>
                if ret < 0 then Ret (ret, snd (call k Release_Firmware s))
                else Ret (0, snd (call k Release_Firmware s))
      else Ret (0, snd (call k Release_Firmware s)))"

section \<open>Images\<close>

text \<open>
  A segment is its header and its payload; the header holds the payload's length, low byte
  first, at offset 1. An image is its segments, one after the other.
\<close>

type_synonym segment = "u8 list \<times> u8 list"

definition wf_segment :: "segment \<Rightarrow> bool" where
  "wf_segment = (\<lambda>(h, p). length h = 16 \<and> length p \<le> 2048 \<and>
     unat (h ! 2) * 256 + unat (h ! 1) = length p)"

definition fw_image :: "segment list \<Rightarrow> u8 list" where
  "fw_image segs = concat (map (\<lambda>(h, p). h @ p) segs)"

text \<open>The calls that transfer an image to a chip that acknowledges everything.\<close>

fun transfer :: "segment list \<Rightarrow> call list" where
  "transfer [] = []"
| "transfer ((h, p) # segs) =
     (if h ! 3 = 0x55 then [I2c_Master_Send h]
      else [I2c_Master_Send h, I2c_Master_Recv 4, Msleep 5] @
        (if p = [] then [] else [I2c_Master_Send p, Msleep 5, I2c_Master_Recv 4]) @
        [Msleep 1] @ transfer segs)"

text \<open>A good answer: a transfer that succeeded, an acknowledgement that starts with 0x0B.\<close>

fun good_answer :: "call \<Rightarrow> resp \<Rightarrow> bool" where
  "good_answer (I2c_Master_Send d) r = (0 \<le> rc r)"
| "good_answer (I2c_Master_Recv n) r = (0 \<le> rc r \<and> rdata r ! 0 = 0x0B)"
| "good_answer c r = True"

text \<open>All answers along a list of calls, made after those in \<open>hist\<close>, are good.\<close>

fun all_good :: "kernel \<Rightarrow> call list \<Rightarrow> call list \<Rightarrow> bool" where
  "all_good k hist [] = True"
| "all_good k hist (c # cs) = (good_answer c (env k hist c) \<and> all_good k (hist @ [c]) cs)"

fun positions :: "nat \<Rightarrow> segment list \<Rightarrow> (nat \<times> nat) list" where
  "positions off [] = []"
| "positions off ((h, p) # segs) = (off, length p) # positions (off + 16 + length p) segs"

lemma fw_image_Cons: "fw_image ((h, p) # segs) = h @ p @ fw_image segs"
  by (simp add: fw_image_def)

lemma fw_image_Nil [simp]: "fw_image [] = []"
  by (simp add: fw_image_def)

lemma find_segments_image:
  assumes "list_all wf_segment segs" "segs \<noteq> []" "n + length segs \<le> MAX_SEGMENTS"
    and "sz = int (length pre + length (fw_image segs))"
  shows "find_segments (pre @ fw_image segs) sz (length pre) n = Ret (positions (length pre) segs)"
  using assms
proof (induction segs arbitrary: pre n)
  case Nil
  then show ?case by simp
next
  case (Cons seg segs)
  obtain h p where seg: "seg = (h, p)" by fastforce
  have w: "length h = 16" "unat (h ! 2) * 256 + unat (h ! 1) = length p"
    using Cons.prems(1) seg by (simp_all add: wf_segment_def)
  have nth: "(pre @ fw_image (seg # segs)) ! (length pre + i) = h ! i" if "i < 16" for i
    using that w(1) by (simp add: seg fw_image_Cons nth_append)
  have len: "length (pre @ fw_image (seg # segs)) = length pre + 16 + length p + length (fw_image segs)"
    using w(1) by (simp add: seg fw_image_Cons)
  show ?case
  proof (cases "segs = []")
    case True
    then show ?thesis
      using Cons.prems(3,4) w len nth [of 1] nth [of 2]
      by (subst find_segments.simps) (simp add: seg fw_image_Cons)
  next
    case False
    have "length (fw_image segs) > 0"
      using False Cons.prems(1) by (cases segs) (auto simp: fw_image_def wf_segment_def)
    moreover have "find_segments ((pre @ h @ p) @ fw_image segs) sz (length (pre @ h @ p)) (n + 1) =
        Ret (positions (length (pre @ h @ p)) segs)"
      by (rule Cons.IH) (use Cons.prems False seg w(1) in \<open>auto simp: fw_image_Cons\<close>)
    ultimately show ?thesis
      using Cons.prems(3,4) w len nth [of 1] nth [of 2]
      by (subst find_segments.simps) (simp add: seg fw_image_Cons add.assoc Let_def)
  qed
qed

section \<open>The transfer of an image\<close>

text \<open>
  The outcome of making a list of calls one after the other until a bad answer: an early return
  after the call with the bad answer, or the end of the loop after all of them.
\<close>

fun sent :: "kernel \<Rightarrow> call list \<Rightarrow> adsd3500 \<Rightarrow> ((int + unit) \<times> adsd3500) mem \<Rightarrow> bool" where
  "sent k [] s res = (res = Ret (Inr (), s))"
| "sent k (c # cs) s res =
     (if good_answer c (env k (calls s) c) then sent k cs (s\<lparr>calls := calls s @ [c]\<rparr>) res
      else \<exists>e. (e = - EIO \<or> e = - ENXIO) \<and> res = Ret (Inl e, s\<lparr>calls := calls s @ [c]\<rparr>))"

lemma sent_all_good:
  "sent k cs s res \<Longrightarrow> all_good k (calls s) cs \<Longrightarrow> res = Ret (Inr (), s\<lparr>calls := calls s @ cs\<rparr>)"
proof (induction cs arbitrary: s)
  case (Cons c cs)
  then show ?case using Cons.IH [of "s\<lparr>calls := calls s @ [c]\<rparr>"] by simp
qed simp

lemma sent_not_good:
  "sent k cs s res \<Longrightarrow> \<not> all_good k (calls s) cs \<Longrightarrow>
   \<exists>as c bs e. cs = as @ c # bs \<and> all_good k (calls s) as \<and>
     \<not> good_answer c (env k (calls s @ as) c) \<and> (e = - EIO \<or> e = - ENXIO) \<and>
     res = Ret (Inl e, s\<lparr>calls := calls s @ as @ [c]\<rparr>)"
proof (induction cs arbitrary: s)
  case (Cons c cs)
  show ?case
  proof (cases "good_answer c (env k (calls s) c)")
    case True
    then obtain as c' bs e where "cs = as @ c' # bs" "all_good k (calls s @ [c]) as"
      "\<not> good_answer c' (env k ((calls s @ [c]) @ as) c')" "e = - EIO \<or> e = - ENXIO"
      "res = Ret (Inl e, s\<lparr>calls := (calls s @ [c]) @ as @ [c']\<rparr>)"
      using Cons.IH [of "s\<lparr>calls := calls s @ [c]\<rparr>"] Cons.prems by auto
    then show ?thesis
      using True by (intro exI [of _ "c # as"] exI [of _ c'] exI [of _ bs] exI [of _ e]) simp
  next
    case False
    then show ?thesis using Cons.prems(1) by (intro exI [of _ "[]"] exI [of _ c] exI [of _ cs]) auto
  qed
qed simp

lemma send_segments_image:
  assumes "list_all wf_segment segs"
  shows "sent k (transfer segs) s
    (send_segments k True (pre @ fw_image segs) (positions (length pre) segs) s)"
  using assms
proof (induction segs arbitrary: pre s)
  case Nil
  then show ?case by simp
next
  case (Cons seg segs)
  obtain h p where seg: "seg = (h, p)" by fastforce
  have w: "length h = 16" "length p \<le> 2048"
    using Cons.prems seg by (simp_all add: wf_segment_def)
  let ?data = "pre @ fw_image (seg # segs)"
  have hdr: "take 16 (drop (length pre) ?data) = h" "length pre + 16 \<le> length ?data"
    and pld: "take (length p) (drop (length pre + 16) ?data) = p"
      "length pre + 16 + length p \<le> length ?data"
    using w(1) by (simp_all add: seg fw_image_Cons)
  have rest: "sent k (transfer segs) u
      (send_segments k True ?data (positions (length pre + 16 + length p) segs) u)" for u
    using Cons.IH [of u "pre @ h @ p"] Cons.prems w(1) by (simp add: seg fw_image_Cons add.assoc)
  define data where "data = ?data"
  show ?case
    using w hdr pld rest
    unfolding data_def [symmetric] seg positions.simps transfer.simps send_segments.simps
    by (cases "h ! 3 = 0x55"; cases "p = []")
      (auto simp: Let_def call_def adsd3500_read_ack_def not_le)
qed

lemma find_segments_overflow:
  assumes "list_all wf_segment segs" "MAX_SEGMENTS < n + length segs" "n \<le> MAX_SEGMENTS"
    and "sz = int (length pre + length (fw_image segs))"
  shows "find_segments (pre @ fw_image segs) sz (length pre) n = Fault"
  using assms
proof (induction segs arbitrary: pre n)
  case Nil
  then show ?case by simp
next
  case (Cons seg segs)
  obtain h p where seg: "seg = (h, p)" by fastforce
  have w: "length h = 16" "unat (h ! 2) * 256 + unat (h ! 1) = length p"
    using Cons.prems(1) seg by (simp_all add: wf_segment_def)
  have nth: "(pre @ fw_image (seg # segs)) ! (length pre + i) = h ! i" if "i < 16" for i
    using that w(1) by (simp add: seg fw_image_Cons nth_append)
  show ?case
  proof (cases "n = MAX_SEGMENTS")
    case True
    then show ?thesis by (subst find_segments.simps) simp
  next
    case False
    then have "segs \<noteq> []" using Cons.prems(2,3) by auto
    then have "length (fw_image segs) > 0"
      using Cons.prems(1) by (cases segs) (auto simp: fw_image_def wf_segment_def)
    moreover have "find_segments ((pre @ h @ p) @ fw_image segs) sz (length (pre @ h @ p)) (n + 1) = Fault"
      by (rule Cons.IH) (use Cons.prems False seg w(1) in \<open>auto simp: fw_image_Cons\<close>)
    ultimately show ?thesis
      using Cons.prems(3,4) w nth [of 1] nth [of 2]
      by (subst find_segments.simps) (simp add: seg fw_image_Cons add.assoc Let_def)
  qed
qed

definition boot_outcome :: "kernel \<Rightarrow> segment list \<Rightarrow> adsd3500 \<Rightarrow> int \<Rightarrow> adsd3500 \<Rightarrow> bool" where
  "boot_outcome k segs s r t \<longleftrightarrow>
     (if all_good k (calls s) (transfer segs)
      then r = 0 \<and> t = s\<lparr>calls := calls s @ transfer segs @ [Kfree]\<rparr>
      else (r = - EIO \<or> r = - ENXIO) \<and>
        (\<exists>as c bs. transfer segs = as @ c # bs \<and> all_good k (calls s) as \<and>
           \<not> good_answer c (env k (calls s @ as) c) \<and> t = s\<lparr>calls := calls s @ as @ [c]\<rparr>))"

lemma send_host_boot_data_value:
  assumes "list_all wf_segment segs" "segs \<noteq> []" "length segs \<le> MAX_SEGMENTS"
    and "0 \<le> rc (env k (calls s) (Kvzalloc 2048))"
  shows "\<exists>r t. adsd3500_send_host_boot_data k (fw_image segs) (int (length (fw_image segs))) s = Ret (r, t) \<and>
    boot_outcome k segs (s\<lparr>calls := calls s @ [Kvzalloc 2048]\<rparr>) r t"
proof -
  let ?s = "s\<lparr>calls := calls s @ [Kvzalloc 2048]\<rparr>"
  have f: "find_segments (fw_image segs) (int (length (fw_image segs))) 0 0 = Ret (positions 0 segs)"
    using find_segments_image [OF assms(1,2), of 0 _ "[]"] assms(3) by simp
  have r: "sent k (transfer segs) ?s (send_segments k True (fw_image segs) (positions 0 segs) ?s)"
    using send_segments_image [OF assms(1), of k ?s "[]"] by simp
  show ?thesis
  proof (cases "all_good k (calls ?s) (transfer segs)")
    case True
    then show ?thesis
      using sent_all_good [OF r] f assms(4)
      by (simp add: adsd3500_send_host_boot_data_def call_def boot_outcome_def)
  next
    case False
    obtain as c bs e where *: "transfer segs = as @ c # bs" "all_good k (calls ?s) as"
      "\<not> good_answer c (env k (calls ?s @ as) c)" "e = - EIO \<or> e = - ENXIO"
      "send_segments k True (fw_image segs) (positions 0 segs) ?s =
        Ret (Inl e, ?s\<lparr>calls := calls ?s @ as @ [c]\<rparr>)"
      using sent_not_good [OF r False] by blast
    have "adsd3500_send_host_boot_data k (fw_image segs) (int (length (fw_image segs))) s =
        Ret (e, ?s\<lparr>calls := calls ?s @ as @ [c]\<rparr>)"
      using *(5) f assms(4) by (simp add: adsd3500_send_host_boot_data_def call_def)
    then show ?thesis using False * unfolding boot_outcome_def by auto
  qed
qed

lemma length_fw_image:
  "list_all wf_segment segs \<Longrightarrow> length (fw_image segs) \<le> 2064 * length segs"
  by (induction segs) (auto simp: fw_image_def wf_segment_def)

lemma image_size_int:
  assumes "list_all wf_segment segs" "length segs \<le> MAX_SEGMENTS"
  shows "sint (word_of_nat (length (fw_image segs)) :: u32) = int (length (fw_image segs))"
proof -
  have "length (fw_image segs) < 2 ^ 31"
    using length_fw_image [OF assms(1)] assms(2) by simp
  then show ?thesis
    by (simp add: signed_of_nat signed_take_bit_int_eq_self)
qed

section \<open>Properties\<close>

text \<open>An image of two segments, and environments in which the chip accepts or rejects.\<close>

definition sample_header :: "u8 \<Rightarrow> u8 \<Rightarrow> u8 list" where
  "sample_header n cmd = [0xAD, n, 0, cmd] @ replicate 12 0"

definition sample_image :: "segment list" where
  "sample_image = [(sample_header 2 0x01, [7, 9]), (sample_header 0 0x55, [])]"

lemma sample_image_wf: "list_all wf_segment sample_image"
  by (simp add: sample_image_def sample_header_def wf_segment_def)

definition chip_env :: "u8 \<Rightarrow> (call, resp) env" where
  "chip_env ack h c = \<lparr>rc = 0, rval = 0, rdata = [ack, 0, 0, 0]\<rparr>"

definition chip_kernel :: "u8 \<Rightarrow> kernel" where
  "chip_kernel ack = \<lparr>env = chip_env ack, find_nearest_size = nearest_size,
     ctrl_core = (\<lambda>cb cid v s. (0, s)), pm_core = (\<lambda>cb s. cb s)\<rparr>"

lemma chip_simps [simp]:
  "rc (env (chip_kernel a) h c) = 0" "rdata (env (chip_kernel a) h c) = [a, 0, 0, 0]"
  by (simp_all add: chip_kernel_def chip_env_def)

definition boot_state :: adsd3500 where
  "boot_state = \<lparr>fmt = \<lparr>ff_width = 0, ff_height = 0, ff_code = 0, ff_field = 0, ff_colorspace = 0, ff_rest = []\<rparr>,
     crop = \<lparr>r_left = 0, r_top = 0, r_width = 0, r_height = 0\<rparr>, current_mode = None,
     current_config = \<lparr>nr_depth_bits = 0, nr_ab_bits = 0, nr_confidence_bits = 0, nr_mipi_lanes = 2, use_vc = False\<rparr>,
     vals = (\<lambda>c. 0), locked = False, streaming = False, main_fw = None, rst_gpio = Gpio, irq_gpio = Gpio, link_freq_flags = 4, irq = 7,
     debugfs = True, task = None, signalnum = 0, calls = []\<rparr>"

text \<open>C14: the transfer of a well-formed image (at most 100 segments, payloads of at most 2048
  bytes) never leaves a buffer and makes exactly the calls of its segments in order: a header,
  its acknowledgement, the payload if there is one, its acknowledgement, up to and including the
  first reset header, which is not acknowledged. When every answer is good it succeeds and frees
  the payload buffer. Otherwise it stops at the first bad answer with EIO or ENXIO, makes no
  further call, and so never frees the buffer.\<close>

theorem firmware_transfer:
  assumes "list_all wf_segment segs" "segs \<noteq> []" "length segs \<le> MAX_SEGMENTS"
    and "0 \<le> rc (env k (calls s) (Kvzalloc 2048))"
  defines "hist \<equiv> calls s @ [Kvzalloc 2048]"
  shows "\<exists>r t. adsd3500_send_host_boot_data k (fw_image segs) (int (length (fw_image segs))) s = Ret (r, t) \<and>
    (if all_good k hist (transfer segs)
     then r = 0 \<and> calls t = hist @ transfer segs @ [Kfree]
     else (r = - EIO \<or> r = - ENXIO) \<and>
       (\<exists>as c bs. transfer segs = as @ c # bs \<and> all_good k hist as \<and>
          \<not> good_answer c (env k (hist @ as) c) \<and> calls t = hist @ as @ [c] \<and> Kfree \<notin> set (as @ [c])))"
proof -
  have nf: "Kfree \<notin> set (transfer segs)" for segs
    by (induction segs rule: transfer.induct) auto
  obtain r t where r: "adsd3500_send_host_boot_data k (fw_image segs) (int (length (fw_image segs))) s = Ret (r, t)"
    "boot_outcome k segs (s\<lparr>calls := hist\<rparr>) r t"
    using send_host_boot_data_value [OF assms(1-4)] unfolding hist_def by blast
  show ?thesis
  proof (cases "all_good k hist (transfer segs)")
    case True
    then show ?thesis using r by (auto simp: boot_outcome_def)
  next
    case False
    then obtain as c bs where "transfer segs = as @ c # bs" "all_good k hist as"
      "\<not> good_answer c (env k (hist @ as) c)" "calls t = hist @ as @ [c]" "r = - EIO \<or> r = - ENXIO"
      using r(2) by (auto simp: boot_outcome_def)
    then show ?thesis using r(1) False nf [of segs] by auto
  qed
qed

theorem firmware_transfer_witness:
  "(\<exists>t. adsd3500_send_host_boot_data (chip_kernel 0x0B) (fw_image sample_image)
       (int (length (fw_image sample_image))) boot_state = Ret (0, t) \<and>
     calls t = [Kvzalloc 2048, I2c_Master_Send (sample_header 2 0x01), I2c_Master_Recv 4, Msleep 5,
       I2c_Master_Send [7, 9], Msleep 5, I2c_Master_Recv 4, Msleep 1,
       I2c_Master_Send (sample_header 0 0x55), Kfree]) \<and>
   (\<exists>r t. adsd3500_send_host_boot_data (chip_kernel 0) (fw_image sample_image)
       (int (length (fw_image sample_image))) boot_state = Ret (r, t) \<and> (r = - EIO \<or> r = - ENXIO))"
proof -
  have s: "calls boot_state = []" by (simp add: boot_state_def)
  have l: "sample_image \<noteq> []" "length sample_image \<le> MAX_SEGMENTS" by (simp_all add: sample_image_def)
  have a: "0 \<le> rc (env (chip_kernel 0x0B) (calls boot_state) (Kvzalloc 2048))"
    and b: "0 \<le> rc (env (chip_kernel 0) (calls boot_state) (Kvzalloc 2048))" by simp_all
  have t: "transfer sample_image = [I2c_Master_Send (sample_header 2 0x01), I2c_Master_Recv 4, Msleep 5,
       I2c_Master_Send [7, 9], Msleep 5, I2c_Master_Recv 4, Msleep 1, I2c_Master_Send (sample_header 0 0x55)]"
    by (simp add: sample_image_def sample_header_def)
  show ?thesis
    using firmware_transfer [OF sample_image_wf l a] firmware_transfer [OF sample_image_wf l b]
    by (auto simp: t s)
qed

text \<open>Nothing bounds the number of segments or the size of a payload. An image of more than
  100 well-formed segments writes past the local arrays before anything is sent; a segment whose
  payload exceeds 2048 bytes overruns the payload buffer once its header is acknowledged.\<close>

theorem firmware_overruns:
  assumes "list_all wf_segment segs" "MAX_SEGMENTS < length segs"
    and "length h = 16" "h ! 3 \<noteq> 0x55" "2048 < length p" "unat (h ! 2) * 256 + unat (h ! 1) = length p"
    and "\<And>hist c. good_answer c (env k hist c)"
  shows "adsd3500_send_host_boot_data k (fw_image segs) (int (length (fw_image segs))) s = Fault \<and>
    adsd3500_send_host_boot_data k (fw_image [(h, p)]) (int (length (fw_image [(h, p)]))) s = Fault"
proof
  show "adsd3500_send_host_boot_data k (fw_image segs) (int (length (fw_image segs))) s = Fault"
    using find_segments_overflow [OF assms(1), of 0 _ "[]"] assms(2)
    by (simp add: adsd3500_send_host_boot_data_def call_def)
  have "find_segments (h @ p) (int (length (h @ p))) 0 0 = Ret [(0, length p)]"
    using assms(3,6) by (subst find_segments.simps) (simp add: nth_append Let_def numeral_2_eq_2)
  moreover have "\<not> rc (env k hist (I2c_Master_Send d)) < 0" "\<not> rc (env k hist (I2c_Master_Recv n)) < 0"
    "rdata (env k hist (I2c_Master_Recv n)) ! 0 = 0x0B" for hist d n
    using assms(7) [of "I2c_Master_Send d" hist] assms(7) [of "I2c_Master_Recv n" hist] by simp_all
  ultimately show "adsd3500_send_host_boot_data k (fw_image [(h, p)]) (int (length (fw_image [(h, p)]))) s = Fault"
    using assms(3-5)
    by (auto simp: adsd3500_send_host_boot_data_def call_def fw_image_Cons adsd3500_read_ack_def Let_def)
qed

theorem firmware_overruns_witness:
  "adsd3500_send_host_boot_data (chip_kernel 0x0B) (fw_image (replicate 101 (sample_header 0 0x01, [])))
     (int (length (fw_image (replicate 101 (sample_header 0 0x01, []))))) boot_state = Fault"
proof -
  let ?h = "[0xAD, 1, 8, 0x01] @ replicate 12 (0 :: u8)" and ?p = "replicate 2049 (0 :: u8)"
  have "list_all wf_segment (replicate 101 (sample_header 0 0x01, []))"
    by (simp add: list_all_iff sample_header_def wf_segment_def)
  moreover have "good_answer c (env (chip_kernel 0x0B) hist c)" for hist c by (cases c) simp_all
  ultimately show ?thesis
    using firmware_overruns [of "replicate 101 (sample_header 0 0x01, [])" ?h ?p "chip_kernel 0x0B" boot_state]
    by simp
qed

end
