(* ===== verification/Adsd3500_Probe.thy ===== *)
theory Adsd3500_Probe
  imports Adsd3500_Facts Adsd3500_Firmware
begin

text \<open>
  Bringing the ADSD3500 driver up and down: \<^verbatim>\<open>adsd3500_init_ctrls\<close>, \<^verbatim>\<open>adsd3500_debugfs_init\<close>,
  \<^verbatim>\<open>adsd3500_parse_dt\<close>, \<^verbatim>\<open>adsd3500_probe\<close> and \<^verbatim>\<open>adsd3500_remove\<close>. A call that answers a pointer
  answers a negative code for null or an error pointer.
\<close>

section \<open>Controls, debugfs, device tree\<close>

abbreviation V4L2_CTRL_FLAG_READ_ONLY :: u32 where "V4L2_CTRL_FLAG_READ_ONLY \<equiv> 4"

text \<open>A new control starts with its default value.\<close>

definition v4l2_ctrl_new :: "kernel \<Rightarrow> u32 \<Rightarrow> int \<Rightarrow> adsd3500 \<Rightarrow> bool \<times> adsd3500" where
  "v4l2_ctrl_new k cid def s =
     (case call k (Ctrl_New cid) s of (r, s) \<Rightarrow>
        (rc r \<ge> 0, if rc r \<ge> 0 then s\<lparr>vals := (vals s)(cid := def)\<rparr> else s))"

definition v4l2_ctrl_new_custom :: "kernel \<Rightarrow> v4l2_ctrl_config \<Rightarrow> adsd3500 \<Rightarrow> adsd3500" where
  "v4l2_ctrl_new_custom k cfg s = snd (v4l2_ctrl_new k (cfg_id cfg) (cfg_def cfg) s)"

definition adsd3500_init_ctrls :: "kernel \<Rightarrow> adsd3500 \<Rightarrow> int \<times> adsd3500" where
  "adsd3500_init_ctrls k s =
     (let s = snd (call k (Ctrl_Handler_Init 3) s);
          s = snd (v4l2_ctrl_new k V4L2_CID_PIXEL_RATE 1 s);
          (link_freq, s) = v4l2_ctrl_new k V4L2_CID_LINK_FREQ 0 s;
          s = (if link_freq
               then s\<lparr>link_freq_flags := link_freq_flags s OR V4L2_CTRL_FLAG_READ_ONLY\<rparr> else s);
          s = v4l2_ctrl_new_custom k adsd3500_ctrl_operating_mode s;
          s = v4l2_ctrl_new_custom k adsd3500_ctrl_chip_config s;
          s = v4l2_ctrl_new_custom k adsd3500_ctrl_depth_bits s;
          s = v4l2_ctrl_new_custom k adsd3500_ab_depth_bits s;
          s = v4l2_ctrl_new_custom k adsd3500_confidence_bits s;
          s = v4l2_ctrl_new_custom k adsd3500_ab_avg s;
          s = v4l2_ctrl_new_custom k adsd3500_depth_en s;
          (error, s) = call k Ctrl_Handler_Error s
      in if rc error \<noteq> 0 then (rc error, s)
         else (0, snd (v4l2_ctrl_s_ctrl k V4L2_CID_ADSD3500_DEPTH_BITS 4 s)))"

definition adsd3500_debugfs_init :: "kernel \<Rightarrow> adsd3500 \<Rightarrow> int \<times> adsd3500" where
  "adsd3500_debugfs_init k s =
     (case call k Debugfs_Create_Dir s of (d, s) \<Rightarrow>
        let s = s\<lparr>debugfs := (rc d \<ge> 0)\<rparr> in
        if \<not> debugfs s then (- ENOMEM, s)
        else (0, snd (call k Debugfs_Create_File s)))"

text \<open>An optional gpio: a negative code is an error pointer, the value 0 a null pointer.\<close>

definition gpiod_get_optional :: "kernel \<Rightarrow> string \<Rightarrow> adsd3500 \<Rightarrow> gpio_ptr \<times> adsd3500" where
  "gpiod_get_optional k name s =
     (case call k (Gpiod_Get_Optional name) s of (r, s) \<Rightarrow>
        (if rc r < 0 then Err_Gpio (rc r) else if rval r = 0 then Null_Gpio else Gpio, s))"

definition adsd3500_parse_dt :: "kernel \<Rightarrow> adsd3500 \<Rightarrow> int \<times> adsd3500" where
  "adsd3500_parse_dt k s =
     (case call k Graph_Get_Next_Endpoint s of (endpoint, s) \<Rightarrow>
        if rc endpoint < 0 then (- EINVAL, s)
        else case call k Fwnode_Endpoint_Parse s of (bus_cfg, s) \<Rightarrow>
          let s = snd (call k Fwnode_Handle_Put s) in
          if rc bus_cfg < 0 then (rc bus_cfg, s)
          else let s = s\<lparr>current_config := (current_config s)\<lparr>nr_mipi_lanes := ucast (rval bus_cfg)\<rparr>\<rparr>;
                 (g, s) = gpiod_get_optional k ''reset'' s;
                 s = s\<lparr>rst_gpio := g\<rparr> in
            case g of Err_Gpio e \<Rightarrow> (e, s)
            | _ \<Rightarrow> let (g, s) = gpiod_get_optional k ''interrupt'' s;
                    s = s\<lparr>irq_gpio := g\<rparr> in
              (case g of Err_Gpio e \<Rightarrow> (e, s)
               | _ \<Rightarrow> let (i, s) = call k Gpiod_To_Irq s;
                       s = s\<lparr>irq := rc i\<rparr>;
                       (v, s) = call k (Of_Property_Read_Bool ''adi,use-vc'') s in
                 (0, s\<lparr>current_config := (current_config s)\<lparr>use_vc := rval v \<noteq> 0\<rparr>\<rparr>)))"

section \<open>Probe\<close>

text \<open>
  The labels at the end of \<^verbatim>\<open>adsd3500_probe\<close>, each falling into the next. The gpio pointers are
  handed to \<^verbatim>\<open>gpiod_put\<close> whatever they are.
\<close>

definition release_gpio :: "kernel \<Rightarrow> adsd3500 \<Rightarrow> adsd3500" where
  "release_gpio k s =
     (let s = snd (call k (Gpiod_Put ''reset'') s);
          s = snd (call k (Gpiod_Put ''interrupt'') s)
      in snd (call k Debugfs_Remove s))"

definition free_ctrl :: "kernel \<Rightarrow> adsd3500 \<Rightarrow> adsd3500" where
  "free_ctrl k s = release_gpio k (snd (call k Mutex_Destroy (snd (call k Ctrl_Handler_Free s))))"

definition free_entity :: "kernel \<Rightarrow> adsd3500 \<Rightarrow> adsd3500" where
  "free_entity k s = free_ctrl k (snd (call k Media_Entity_Cleanup s))"

text \<open>The allocated structure is zero.\<close>

definition kzalloc_adsd3500 :: "call list \<Rightarrow> adsd3500" where
  "kzalloc_adsd3500 cs =
     \<lparr>fmt = zero_fmt, crop = \<lparr>r_left = 0, r_top = 0, r_width = 0, r_height = 0\<rparr>, current_mode = None,
      current_config = \<lparr>nr_depth_bits = 0, nr_ab_bits = 0, nr_confidence_bits = 0,
                        nr_mipi_lanes = 0, use_vc = False\<rparr>,
      vals = (\<lambda>c. 0), locked = False, streaming = False, main_fw = None, rst_gpio = Null_Gpio,
      irq_gpio = Null_Gpio, link_freq_flags = 0, irq = 0, debugfs = False, task = None,
      signalnum = 0, calls = cs\<rparr>"

text \<open>From the device tree to the debugfs entry; none of the return codes is looked at.\<close>

definition probe_setup :: "kernel \<Rightarrow> adsd3500 \<Rightarrow> adsd3500" where
  "probe_setup k s =
     (let s = snd (call k Mutex_Init s);
          s = snd (adsd3500_parse_dt k s);
          s = (if rst_gpio s \<noteq> Null_Gpio then snd (call k (Gpiod_Set_Reset 1) s) else s);
          s = snd (call k (Devm_Request_Irq (irq s)) s)
      in snd (adsd3500_debugfs_init k s))"

text \<open>From the initial format on.\<close>

definition probe_register :: "kernel \<Rightarrow> adsd3500 \<Rightarrow> (int \<times> adsd3500) option" where
  "probe_register k s =
     (case adsd3500_entity_init_cfg k False no_cfg s of
        None \<Rightarrow> None
      | Some (ret, cfg, s) \<Rightarrow>
          if ret \<noteq> 0 then Some (ret, free_entity k s)
          else case call k Async_Register_Subdev s of (r, s) \<Rightarrow>
            if rc r < 0 then Some (rc r, free_entity k s)
            else let s = snd (call k Pm_Runtime_Set_Active s);
                     s = snd (call k Pm_Runtime_Enable s)
                 in Some (0, snd (call k Pm_Runtime_Idle s)))"

definition probe_body :: "kernel \<Rightarrow> bool \<Rightarrow> adsd3500 \<Rightarrow> (int \<times> adsd3500) option mem" where
  "probe_body k fw_load s =
     (case adsd3500_init_ctrls k (probe_setup k s) of (ret, s) \<Rightarrow>
        if ret < 0 then Ret (Some (ret, release_gpio k s))
        else case call k Media_Entity_Pads_Init (snd (call k I2c_Subdev_Init s)) of (r, s) \<Rightarrow>
          if rc r < 0 then Ret (Some (rc r, free_ctrl k s))
          else if fw_load
          then case adsd3500_load_firmware k fw_load s of
              Fault \<Rightarrow> Fault
            | Ret (ret, s) \<Rightarrow>
                if ret < 0 then Ret (Some (ret, release_gpio k s))
                else Ret (probe_register k s)
          else Ret (probe_register k s))"

text \<open>\<open>Ret None\<close> would be a probe that never returns.\<close>

definition adsd3500_probe :: "kernel \<Rightarrow> bool \<Rightarrow> (int \<times> adsd3500) option mem" where
  "adsd3500_probe k fw_load =
     (case call k Devm_Kzalloc (kzalloc_adsd3500 []) of (r, s) \<Rightarrow>
        if rc r < 0 then Ret (Some (- ENOMEM, s))
        else case call k Devm_Regmap_Init s of (r, s) \<Rightarrow>
          if rc r < 0 then Ret (Some (rc r, s))
          else probe_body k fw_load s)"

definition adsd3500_remove :: "kernel \<Rightarrow> adsd3500 \<Rightarrow> int \<times> adsd3500" where
  "adsd3500_remove k s =
     (let s = snd (call k Async_Unregister_Subdev s);
          s = snd (call k Media_Entity_Cleanup s);
          s = snd (call k (Gpiod_Put ''reset'') s);
          s = snd (call k (Gpiod_Put ''interrupt'') s);
          s = snd (call k Debugfs_Remove s);
          s = snd (call k Ctrl_Handler_Free s);
          s = snd (call k Mutex_Destroy s);
          s = snd (call k Pm_Runtime_Disable s);
          (suspended, s) = call k Pm_Runtime_Status_Suspended s;
          s = (if rval suspended = 0 then snd (adsd3500_power_off k s) else s)
      in (0, snd (call k Pm_Runtime_Set_Suspended s)))"

section \<open>What setting up leaves alone\<close>

definition setup_call :: "call \<Rightarrow> bool" where
  "setup_call c \<longleftrightarrow> neutral c \<and> c \<noteq> Ctrl_Handler_Free \<and> c \<noteq> Media_Entity_Cleanup \<and> c \<noteq> Mutex_Destroy"

definition grows :: "adsd3500 \<Rightarrow> adsd3500 \<Rightarrow> bool" where
  "grows s t \<longleftrightarrow> locked t = locked s \<and> streaming t = streaming s \<and>
     (\<exists>cs. calls t = calls s @ cs \<and> list_all setup_call cs)"

lemma grows_refl [simp, intro]: "grows s s"
  by (simp add: grows_def)

lemma grows_trans: "grows s t \<Longrightarrow> grows t u \<Longrightarrow> grows s u"
  by (auto simp: grows_def)

lemma grows_call [simp]: "grows s t \<Longrightarrow> setup_call c \<Longrightarrow> grows s (snd (call k c t))"
  by (auto simp: grows_def call_def)

lemma grows_eq: "call k c t = (r, u) \<Longrightarrow> setup_call c \<Longrightarrow> grows t u"
  by (auto simp: grows_def call_def)

lemma grows_fields [simp]:
  "grows s (t\<lparr>vals := a\<rparr>) = grows s t" "grows s (t\<lparr>link_freq_flags := b\<rparr>) = grows s t"
  "grows s (t\<lparr>debugfs := c\<rparr>) = grows s t" "grows s (t\<lparr>current_config := d\<rparr>) = grows s t"
  "grows s (t\<lparr>rst_gpio := e\<rparr>) = grows s t" "grows s (t\<lparr>irq_gpio := e\<rparr>) = grows s t"
  "grows s (t\<lparr>irq := f\<rparr>) = grows s t" "grows s (t\<lparr>main_fw := g\<rparr>) = grows s t"
  by (simp_all add: grows_def)

lemma setup_calls [simp]:
  "setup_call (Ctrl_Handler_Init n)" "setup_call (Ctrl_New cid)" "setup_call Ctrl_Handler_Error"
  "setup_call Debugfs_Create_Dir" "setup_call Debugfs_Create_File" "setup_call (Gpiod_Get_Optional nm)"
  "setup_call Graph_Get_Next_Endpoint" "setup_call Fwnode_Endpoint_Parse" "setup_call Fwnode_Handle_Put"
  "setup_call Gpiod_To_Irq" "setup_call (Of_Property_Read_Bool nm)" "setup_call Mutex_Init"
  "setup_call (Gpiod_Set_Reset i)" "setup_call (Devm_Request_Irq i)" "setup_call I2c_Subdev_Init"
  "setup_call Media_Entity_Pads_Init" "setup_call (I2c_Master_Send d)" "setup_call (I2c_Master_Recv n)"
  "setup_call (Msleep n)" "setup_call (Kvzalloc n)" "setup_call Kfree" "setup_call Request_Firmware"
  "setup_call Release_Firmware" "setup_call Devm_Kzalloc" "setup_call Devm_Regmap_Init"
  "setup_call Async_Register_Subdev" "setup_call Pm_Runtime_Set_Active" "setup_call Pm_Runtime_Enable"
  "setup_call Pm_Runtime_Idle" "setup_call (Gpiod_Put nm)" "setup_call Debugfs_Remove"
  by (simp_all add: setup_call_def neutral_def)

lemma grows_ctrl_new: "v4l2_ctrl_new k cid def t = (b, u) \<Longrightarrow> grows t u"
  by (auto simp: v4l2_ctrl_new_def split: prod.splits if_splits dest: grows_eq [OF _ setup_calls(2)])

lemma grows_ctrl_new_snd [simp]: "grows s t \<Longrightarrow> grows s (snd (v4l2_ctrl_new k cid def t))"
  by (metis grows_ctrl_new grows_trans prod.collapse)

lemma grows_ctrl_new_custom [simp]: "grows s t \<Longrightarrow> grows s (v4l2_ctrl_new_custom k cfg t)"
  by (simp add: v4l2_ctrl_new_custom_def)

lemma grows_depth_bits [simp]:
  assumes "ctrl_core_ok k" "grows s t"
  shows "grows s (snd (v4l2_ctrl_s_ctrl k V4L2_CID_ADSD3500_DEPTH_BITS v t))"
proof -
  obtain r' t' where "v4l2_ctrl_s_ctrl k V4L2_CID_ADSD3500_DEPTH_BITS v t = (r', t')"
    and "t' = t \<or> (\<exists>w p c u. adsd3500_s_ctrl k \<lparr>ctrl_id = V4L2_CID_ADSD3500_DEPTH_BITS, ctrl_val = w, p_new = p\<rparr> t =
           ((r', c), u) \<and> t' = (if r' = 0 then u\<lparr>vals := (vals u)(V4L2_CID_ADSD3500_DEPTH_BITS := w)\<rparr> else u))"
    using assms unfolding ctrl_core_ok_def v4l2_ctrl_s_ctrl_def by meson
  then show ?thesis
    using assms(2) by (auto simp: adsd3500_s_ctrl_def adsd3500_bpp_config_def)
qed

lemma grows_init_ctrls: "ctrl_core_ok k \<Longrightarrow> adsd3500_init_ctrls k s = (r, t) \<Longrightarrow> grows s t"
  unfolding adsd3500_init_ctrls_def Let_def split_def
  by (auto split: if_splits)

lemma grows_debugfs [simp]: "grows s t \<Longrightarrow> grows s (snd (adsd3500_debugfs_init k t))"
  by (simp add: adsd3500_debugfs_init_def Let_def split_def)

lemma grows_gpiod [simp]: "grows s t \<Longrightarrow> grows s (snd (gpiod_get_optional k nm t))"
  by (simp add: gpiod_get_optional_def split_def)

lemma grows_parse_dt [simp]: "grows s t \<Longrightarrow> grows s (snd (adsd3500_parse_dt k t))"
  by (simp add: adsd3500_parse_dt_def Let_def split_def split: gpio_ptr.split)

lemma grows_setup: "grows s (probe_setup k s)"
  by (simp add: probe_setup_def Let_def)

lemma grows_ack [simp]: "grows s t \<Longrightarrow> grows s (snd (adsd3500_read_ack k t))"
  by (simp add: adsd3500_read_ack_def split_def)

lemma grows_send_segments:
  "grows s t \<Longrightarrow> send_segments k b data segs t = Ret (r, u) \<Longrightarrow> grows s u"
proof (induction segs arbitrary: t)
  case (Cons seg segs)
  then show ?case
    by (cases seg)
      (auto simp: Let_def split_def intro: Cons.IH [rotated] split: if_splits)
qed auto

lemma grows_boot:
  "grows s t \<Longrightarrow> adsd3500_send_host_boot_data k data n t = Ret (r, u) \<Longrightarrow> grows s u"
  by (auto simp: adsd3500_send_host_boot_data_def split_def split: mem.splits sum.splits
      dest!: grows_send_segments [where s = s, rotated])

lemma grows_parse_fw: "grows s t \<Longrightarrow> adsd3500_parse_fw k t = Ret (r, u) \<Longrightarrow> grows s u"
  by (auto simp: adsd3500_parse_fw_def split_def split: option.splits mem.splits if_splits
      dest!: grows_boot [where s = s, rotated])

lemma grows_load_firmware: "adsd3500_load_firmware k b s = Ret (r, t) \<Longrightarrow> grows s t"
  by (auto simp: adsd3500_load_firmware_def split_def split: mem.splits if_splits
      dest!: grows_parse_fw [where s = s, rotated])

section \<open>How probing ends\<close>

text \<open>The calls of a failed probe: only what each label undoes follows the setup.\<close>

definition cleanups :: "call list \<Rightarrow> call set" where
  "cleanups cs = set cs \<inter> {Ctrl_Handler_Free, Media_Entity_Cleanup, Mutex_Destroy}"

lemma grows_cleanups: "grows s t \<Longrightarrow> cleanups (calls t) = cleanups (calls s)"
proof -
  assume "grows s t"
  then obtain cs where cs: "calls t = calls s @ cs" "list_all setup_call cs" by (auto simp: grows_def)
  then have "set cs \<inter> {Ctrl_Handler_Free, Media_Entity_Cleanup, Mutex_Destroy} = {}"
    by (auto simp: list_all_iff setup_call_def)
  then show ?thesis using cs(1) by (simp add: cleanups_def Int_Un_distrib2)
qed

lemma cleanups_release_gpio [simp]: "cleanups (calls (release_gpio k s)) = cleanups (calls s)"
  by (auto simp: release_gpio_def cleanups_def call_def Let_def)

lemma cleanups_free_ctrl [simp]:
  "cleanups (calls (free_ctrl k s)) = cleanups (calls s) \<union> {Ctrl_Handler_Free, Mutex_Destroy}"
  by (simp add: free_ctrl_def) (auto simp: cleanups_def call_def)

lemma cleanups_free_entity [simp]:
  "cleanups (calls (free_entity k s)) =
    cleanups (calls s) \<union> {Media_Entity_Cleanup, Ctrl_Handler_Free, Mutex_Destroy}"
  by (simp add: free_entity_def) (auto simp: cleanups_def call_def)

definition initial_format :: v4l2_subdev_format where
  "initial_format = \<lparr>sf_which = V4L2_SUBDEV_FORMAT_ACTIVE, sf_pad = 0,
     sf_format = zero_fmt\<lparr>ff_width := 512, ff_height := 512, ff_code := MEDIA_BUS_FMT_SBGGR8_1X8\<rparr>\<rparr>"

lemma first_mode:
  "adsd3500_mode_info_data ! 0 = \<lparr>width = 512, height = 512, pixel_rate = 488000000,
     code = MEDIA_BUS_FMT_SBGGR8_1X8, link_freq_idx = 0\<rparr>"
  by (simp add: mode_table)

lemma first_mode_in: "adsd3500_mode_info_data ! 0 \<in> set adsd3500_mode_info_data"
  by (rule nth_mem) simp

lemma init_cfg_active:
  "adsd3500_entity_init_cfg k False cfg s =
     map_option (\<lambda>(r, c, f, t). (r, c, t)) (adsd3500_set_format k cfg initial_format s)"
  by (auto simp: adsd3500_entity_init_cfg_def Let_def first_mode initial_format_def split: option.split)

lemma nearest_initial:
  assumes "kernel_ok k"
  shows "width (nearest_mode k initial_format) = 512 \<and> height (nearest_mode k initial_format) = 512"
  using finds_nearest_exact [of "find_nearest_size k" "adsd3500_mode_info_data ! 0"] assms first_mode_in
  by (simp add: kernel_ok_def nearest_mode_def initial_format_def first_mode)

text \<open>A device as probing leaves it: mutex free, not streaming, no PM reference held, and the
  first mode's format in force.\<close>

definition ready :: "adsd3500 \<Rightarrow> bool" where
  "ready s \<longleftrightarrow> \<not> locked s \<and> \<not> streaming s \<and> pm_count (calls s) = 0 \<and>
     ff_width (fmt s) = 512 \<and> ff_height (fmt s) = 512 \<and> ff_code (fmt s) = MEDIA_BUS_FMT_SBGGR8_1X8 \<and>
     (\<exists>m. current_mode s = Some m \<and> width m = 512 \<and> height m = 512)"

lemma grows_pm_count: "grows s t \<Longrightarrow> pm_count (calls t) = pm_count (calls s)"
  by (auto simp: grows_def pm_count_append setup_call_def list_all_iff intro!: pm_count_neutral)

lemma probe_register_cases:
  assumes "kernel_ok k" "\<not> locked s" "\<not> streaming s" "pm_count (calls s) = 0"
  shows "\<exists>r t. probe_register k s = Some (r, t) \<and>
    (r = 0 \<and> ready t \<and> cleanups (calls t) = cleanups (calls s) \<or>
     r < 0 \<and> cleanups (calls t) = {Media_Entity_Cleanup, Ctrl_Handler_Free, Mutex_Destroy})"
proof -
  have c: "ctrl_core_ok k" using assms(1) by (simp add: kernel_ok_def)
  obtain r0 g where sf: "adsd3500_set_format k no_cfg initial_format s =
      (let m = nearest_mode k initial_format; F = sized k initial_format (fmt s);
         t = s\<lparr>crop := (crop s)\<lparr>r_width := width m, r_height := height m\<rparr>, vals := g\<rparr> in
       if r0 < 0 then Some (r0, no_cfg, initial_format, t\<lparr>locked := True\<rparr>)
       else Some (0, no_cfg, initial_format\<lparr>sf_format := F\<rparr>,
                  t\<lparr>fmt := F, current_mode := Some m, locked := False\<rparr>))"
    using set_format_active [OF c assms(2), of initial_format no_cfg]
    by (auto simp: initial_format_def Let_def)
  have sz: "ff_code (sf_format initial_format) = MEDIA_BUS_FMT_SBGGR8_1X8" by (simp add: initial_format_def)
  have all: "cleanups X \<union> {Media_Entity_Cleanup, Ctrl_Handler_Free, Mutex_Destroy} =
      {Media_Entity_Cleanup, Ctrl_Handler_Free, Mutex_Destroy}" for X
    by (auto simp: cleanups_def)
  show ?thesis
  proof (cases "r0 < 0")
    case True
    then show ?thesis using sf all by (simp add: probe_register_def init_cfg_active Let_def)
  next
    case False
    let ?t = "s\<lparr>crop := (crop s)\<lparr>r_width := width (nearest_mode k initial_format),
        r_height := height (nearest_mode k initial_format)\<rparr>, vals := g,
        fmt := sized k initial_format (fmt s), current_mode := Some (nearest_mode k initial_format),
        locked := False\<rparr>"
    have i: "adsd3500_entity_init_cfg k False no_cfg s = Some (0, no_cfg, ?t)"
      using False sf by (simp add: init_cfg_active Let_def)
    have neu: "pm_count (calls s @ [Async_Register_Subdev, Pm_Runtime_Set_Active, Pm_Runtime_Enable, Pm_Runtime_Idle]) = 0"
      using assms(4) by (simp add: pm_count_append pm_count_Cons)
    show ?thesis
    proof (cases "rc (env k (calls s) Async_Register_Subdev) < 0")
      case True
      then show ?thesis using i all by (simp add: probe_register_def call_def)
    next
      case False
      then show ?thesis
        using i neu nearest_initial [OF assms(1)] assms(3)
        by (simp add: probe_register_def call_def Let_def ready_def sized_def sz cleanups_def)
    qed
  qed
qed

lemma probe_body_outcome:
  assumes "kernel_ok k" "\<not> locked s" "\<not> streaming s" "pm_count (calls s) = 0" "cleanups (calls s) = {}"
    and "probe_body k fw s = Ret res"
  shows "\<exists>r t. res = Some (r, t) \<and> (r = 0 \<and> ready t \<and> cleanups (calls t) = {} \<or> r < 0)"
proof -
  have c: "ctrl_core_ok k" using assms(1) by (simp add: kernel_ok_def)
  obtain r1 s1 where 1: "adsd3500_init_ctrls k (probe_setup k s) = (r1, s1)" by fastforce
  have g1: "grows s s1" using grows_trans [OF grows_setup grows_init_ctrls [OF c 1]] .
  obtain p s2 where 2: "call k Media_Entity_Pads_Init (snd (call k I2c_Subdev_Init s1)) = (p, s2)" by fastforce
  have g2: "grows s s2" using g1 2 by (metis grows_call setup_calls(15) setup_calls(16) snd_conv)
  have reg: "\<exists>r t. probe_register k u = Some (r, t) \<and> (r = 0 \<and> ready t \<and> cleanups (calls t) = {} \<or> r < 0)"
    if "grows s u" for u
  proof -
    have "\<not> locked u" "\<not> streaming u" "pm_count (calls u) = 0" "cleanups (calls u) = {}"
      using that assms(2-5) grows_pm_count [OF that] grows_cleanups [OF that] by (auto simp: grows_def)
    then show ?thesis using probe_register_cases [OF assms(1), of u] by auto
  qed
  show ?thesis
  proof (cases "r1 < 0 \<or> rc p < 0")
    case True
    then show ?thesis using assms(6) 1 2 by (auto simp: probe_body_def split: if_splits)
  next
    case False
    show ?thesis
    proof (cases fw)
      case fwt: True
      then obtain r3 s3 where 3: "adsd3500_load_firmware k True s2 = Ret (r3, s3)"
        using assms(6) 1 2 False by (auto simp: probe_body_def split: mem.splits)
      have "grows s s3" using g2 grows_load_firmware [OF 3] by (rule grows_trans)
      then obtain r t where *: "probe_register k s3 = Some (r, t)"
          "r = 0 \<and> ready t \<and> cleanups (calls t) = {} \<or> r < 0" using reg by blast
      have "res = Some (r3, release_gpio k s3) \<and> r3 < 0 \<or> res = Some (r, t)"
        using assms(6) 1 2 3 False fwt *(1) by (auto simp: probe_body_def split: if_splits)
      then show ?thesis using *(2) by blast
    next
      case fwf: False
      then have "res = probe_register k s2" using assms(6) 1 2 False by (simp add: probe_body_def)
      then show ?thesis using reg [OF g2] by simp
    qed
  qed
qed

lemma probe_outcome:
  assumes "kernel_ok k" "adsd3500_probe k fw = Ret res"
  shows "\<exists>r t. res = Some (r, t) \<and> (r = 0 \<and> ready t \<and> cleanups (calls t) = {} \<or> r < 0)"
proof -
  let ?s = "kzalloc_adsd3500 [Devm_Kzalloc, Devm_Regmap_Init]"
  have i: "\<not> locked ?s" "\<not> streaming ?s" "pm_count (calls ?s) = 0" "cleanups (calls ?s) = {}"
    by (simp_all add: kzalloc_adsd3500_def pm_count_Cons cleanups_def)
  have "(\<exists>r t. res = Some (r, t) \<and> r < 0) \<or> probe_body k fw ?s = Ret res"
    using assms(2) by (auto simp: adsd3500_probe_def call_def kzalloc_adsd3500_def split: if_splits)
  then show ?thesis using probe_body_outcome [OF assms(1) i] by auto
qed

text \<open>C29: a probe that returns 0 leaves a device with a free mutex, not streaming, without a
  runtime PM reference, with the first mode (512 by 512) as its format; it has torn nothing
  down. Otherwise it returns a negative code. It never waits for its own mutex.\<close>

theorem probe_gives_ready_device:
  assumes "kernel_ok k" "adsd3500_probe k fw_load = Ret res"
  shows "\<exists>r t. res = Some (r, t) \<and> (r = 0 \<and> ready t \<and> cleanups (calls t) = {} \<or> r < 0)"
  by (rule probe_outcome [OF assms])

theorem probe_gives_ready_device_witness:
  "\<exists>t. adsd3500_probe (eager_kernel quiet_env) False = Ret (Some (0, t)) \<and> ready t"
proof -
  let ?k = "eager_kernel quiet_env"
  obtain s1 where 1: "adsd3500_init_ctrls ?k (probe_setup ?k (kzalloc_adsd3500 [Devm_Kzalloc, Devm_Regmap_Init])) = (0, s1)"
    by (simp add: adsd3500_init_ctrls_def Let_def split_def quiet_env_def call_def)
  have g: "grows (kzalloc_adsd3500 [Devm_Kzalloc, Devm_Regmap_Init]) s1"
    using grows_trans [OF grows_setup grows_init_ctrls [OF eager_ctrl_core_ok 1]] .
  let ?s2 = "s1\<lparr>calls := calls s1 @ [I2c_Subdev_Init, Media_Entity_Pads_Init]\<rparr>"
  have nl: "\<not> locked ?s2" using g by (simp add: grows_def kzalloc_adsd3500_def)
  have ip: "sf_pad initial_format = 0" "sf_which initial_format = 0 \<or> sf_which initial_format = 1"
    by (simp_all add: initial_format_def)
  obtain cfg f' u where sf: "adsd3500_set_format ?k no_cfg initial_format ?s2 = Some (0, cfg, f', u)"
    using set_format_well_formed [where f = initial_format and cfg = no_cfg, OF eager_ctrl_core_ok eager_accepts nl ip]
    by blast
  have "\<exists>t. adsd3500_probe ?k False = Ret (Some (0, t))"
    using 1 sf by (simp add: adsd3500_probe_def probe_body_def probe_register_def call_def quiet_env_def
        init_cfg_active kzalloc_adsd3500_def Let_def)
  then show ?thesis using probe_gives_ready_device [OF eager_kernel_ok] by fastforce
qed

text \<open>When loading the firmware fails, probing fails with that code but jumps past the labels
  that undo its work: the media pads and the control handler it had set up are neither cleaned
  up nor freed, nor is the mutex destroyed.\<close>

theorem firmware_failure_leaks:
  assumes "kernel_ok k" "cleanups (calls s) = {}"
    and "adsd3500_init_ctrls k (probe_setup k s) = (0, s1)"
    and "call k Media_Entity_Pads_Init (snd (call k I2c_Subdev_Init s1)) = (p, s2)" "0 \<le> rc p"
    and "adsd3500_load_firmware k True s2 = Ret (r, s3)" "r < 0"
  shows "\<exists>t. probe_body k True s = Ret (Some (r, t)) \<and> Media_Entity_Pads_Init \<in> set (calls t) \<and>
    Ctrl_Handler_Free \<notin> set (calls t) \<and> Media_Entity_Cleanup \<notin> set (calls t) \<and> Mutex_Destroy \<notin> set (calls t)"
proof -
  have c: "ctrl_core_ok k" using assms(1) by (simp add: kernel_ok_def)
  have "grows s s1" using grows_trans [OF grows_setup grows_init_ctrls [OF c assms(3)]] .
  then have "grows s s2" using assms(4) by (metis grows_call setup_calls(15) setup_calls(16) snd_conv)
  then have g: "grows s s3" using grows_load_firmware [OF assms(6)] by (rule grows_trans)
  have "cleanups (calls (release_gpio k s3)) = {}" using grows_cleanups [OF g] assms(2) by simp
  moreover have "Media_Entity_Pads_Init \<in> set (calls s3)"
    using assms(4) grows_load_firmware [OF assms(6)] by (auto simp: call_def grows_def)
  moreover have "set (calls s3) \<subseteq> set (calls (release_gpio k s3))"
    by (auto simp: release_gpio_def call_def Let_def)
  moreover have "probe_body k True s = Ret (Some (r, release_gpio k s3))"
    using assms(3-7) by (simp add: probe_body_def)
  ultimately show ?thesis by (auto simp: cleanups_def)
qed

text \<open>An environment without the firmware file.\<close>

definition no_file_env :: "(call, resp) env" where
  "no_file_env h c = (if c = Request_Firmware then \<lparr>rc = - ENOENT, rval = 0, rdata = []\<rparr> else quiet_env h c)"

theorem firmware_failure_leaks_witness:
  "\<exists>t. probe_body (eager_kernel no_file_env) True (kzalloc_adsd3500 []) = Ret (Some (- ENOENT, t)) \<and>
     Ctrl_Handler_Free \<notin> set (calls t)"
proof -
  let ?k = "eager_kernel no_file_env"
  obtain s1 where 1: "adsd3500_init_ctrls ?k (probe_setup ?k (kzalloc_adsd3500 [])) = (0, s1)"
    by (simp add: adsd3500_init_ctrls_def Let_def split_def no_file_env_def quiet_env_def call_def)
  let ?s2 = "s1\<lparr>calls := calls s1 @ [I2c_Subdev_Init, Media_Entity_Pads_Init]\<rparr>"
  let ?p = "\<lparr>rc = 0, rval = 0x5931, rdata = [0x0B, 0, 0, 0]\<rparr> :: resp"
  have 2: "call ?k Media_Entity_Pads_Init (snd (call ?k I2c_Subdev_Init s1)) = (?p, ?s2)"
    by (simp add: call_def no_file_env_def quiet_env_def)
  have "\<exists>s3. adsd3500_load_firmware ?k True ?s2 = Ret (- ENOENT, s3)"
    by (simp add: adsd3500_load_firmware_def call_def no_file_env_def)
  then obtain s3 where 3: "adsd3500_load_firmware ?k True ?s2 = Ret (- ENOENT, s3)" by blast
  have e: "cleanups (calls (kzalloc_adsd3500 [])) = {}" by (simp add: cleanups_def kzalloc_adsd3500_def)
  show ?thesis
    using firmware_failure_leaks [OF eager_kernel_ok e 1 2 _ 3] by auto
qed

text \<open>Removal undoes everything exactly once: the subdevice, the entity, both gpios, the
  debugfs entry, the control handler, the mutex and runtime PM; it returns 0.\<close>

theorem remove_undoes_probe:
  "\<exists>t. adsd3500_remove k s = (0, t) \<and> calls t = calls s @
     [Async_Unregister_Subdev, Media_Entity_Cleanup, Gpiod_Put ''reset'', Gpiod_Put ''interrupt'',
      Debugfs_Remove, Ctrl_Handler_Free, Mutex_Destroy, Pm_Runtime_Disable,
      Pm_Runtime_Status_Suspended, Pm_Runtime_Set_Suspended]"
  by (simp add: adsd3500_remove_def call_def Let_def adsd3500_power_off_def)

end
