(* ===== verification/Adsd3500_Spi.thy ===== *)
theory Adsd3500_Spi
  imports Adsd3500_Probe Bytes
begin

text \<open>
  The SPI variant of the sensor driver, \<^verbatim>\<open>drivers/adsd3500/nxp/src/spi/adsd3500-spi.c\<close>: what differs from the
  I2C variant of \<open>Adsd3500_Driver\<close>, on the same state. Registers are no longer reached through the register
  map but by writing frames of five bytes, and everything that is read comes as an answer to a frame.
  The names get the prefix \<open>spi_\<close>; functions whose text is the same in both files are not repeated.

  Memory from the allocator holds what the answer to the allocation says, and a received answer is
  written over it.
\<close>

section \<open>Words\<close>

definition REVERSE_SHORT :: "u32 \<Rightarrow> u32" where
  "REVERSE_SHORT x = (0xFF00 AND push_bit 8 x) OR (0xFF AND drop_bit 8 x)"

definition REVERSE_LONG :: "u32 \<Rightarrow> u32" where
  "REVERSE_LONG x =
     drop_bit 24 (x AND 0xff000000) OR drop_bit 16 (push_bit 8 (x AND 0x00ff0000)) OR
     push_bit 16 (drop_bit 8 (x AND 0x0000ff00)) OR push_bit 24 (x AND 0x000000ff)"

text \<open>
  The same macro on a constant of type \<^verbatim>\<open>int\<close>: the shift to the right of its second part keeps the sign.
  The shift to the left before it may reach the sign bit; the kernel is compiled so that it wraps.
\<close>

definition REVERSE_LONG_int :: "u32 \<Rightarrow> u32" where
  "REVERSE_LONG_int x =
     drop_bit 24 (x AND 0xff000000) OR signed_drop_bit 16 (push_bit 8 (x AND 0x00ff0000)) OR
     push_bit 16 (drop_bit 8 (x AND 0x0000ff00)) OR push_bit 24 (x AND 0x000000ff)"

abbreviation SPI_GET_CHIP_ID_CMD :: u32 where "SPI_GET_CHIP_ID_CMD \<equiv> 0x01120000"
abbreviation SPI_STREAM_ON_CMD :: u32 where "SPI_STREAM_ON_CMD \<equiv> 0x00AD00C5"
abbreviation SPI_STREAM_OFF_CMD :: u32 where "SPI_STREAM_OFF_CMD \<equiv> 0x000C0002"
abbreviation SPI_GET_IMAGER_STATUS_CMD :: u32 where "SPI_GET_IMAGER_STATUS_CMD \<equiv> 0x00200000"
abbreviation SPI_GET_FRAMERATE_CMD :: u32 where "SPI_GET_FRAMERATE_CMD \<equiv> 0x00230000"
abbreviation ADSD3500_SPI_WRITE_CMD :: u8 where "ADSD3500_SPI_WRITE_CMD \<equiv> 0x40"
abbreviation ADSD3500_SPI_READ_CMD :: u8 where "ADSD3500_SPI_READ_CMD \<equiv> 0x80"
abbreviation SPI_PAYLOAD_MAX_CHUNK_SIZE :: nat where "SPI_PAYLOAD_MAX_CHUNK_SIZE \<equiv> 2049"

section \<open>The bus\<close>

definition spi_write :: "kernel \<Rightarrow> u8 list \<Rightarrow> adsd3500 \<Rightarrow> int \<times> adsd3500" where
  "spi_write k bytes s = (case call k (Spi_Write bytes) s of (r, s) \<Rightarrow> (rc r, s))"

text \<open>The command to read, and as many bytes as are asked for.\<close>

definition spi_read_response :: "kernel \<Rightarrow> nat \<Rightarrow> adsd3500 \<Rightarrow> resp \<times> adsd3500" where
  "spi_read_response k n = call k (Spi_Sync [[ADSD3500_SPI_READ_CMD]] n)"

text \<open>What lies in fresh memory of \<open>n\<close> bytes, and what does after bytes were received into it.\<close>

definition fresh_memory :: "nat \<Rightarrow> resp \<Rightarrow> u8 list" where
  "fresh_memory n r = take n (rdata r @ replicate n 0)"

definition receive_into :: "u8 list \<Rightarrow> resp \<Rightarrow> u8 list" where
  "receive_into m r = take (length m) (rdata r) @ drop (length (rdata r)) m"

text \<open>The callers in the driver and the register map hand over four bytes.\<close>

definition spi_regmap_write :: "kernel \<Rightarrow> u32 \<Rightarrow> adsd3500 \<Rightarrow> int \<times> adsd3500" where
  "spi_regmap_write k data = spi_write k (ADSD3500_SPI_WRITE_CMD # le32 data)"

text \<open>
  Neither the status of the frame nor that of the answer is looked at. The value is not written when
  there is no memory.
\<close>

definition spi_regmap_read :: "kernel \<Rightarrow> u32 \<Rightarrow> adsd3500 \<Rightarrow> (int \<times> u32 option) \<times> adsd3500" where
  "spi_regmap_read k reg s =
     (case spi_write k (ADSD3500_SPI_WRITE_CMD # le32 reg) s of (_, s) \<Rightarrow>
      case call k (Kmalloc 4) s of (m, s) \<Rightarrow>
        if rc m < 0 then ((- ENOMEM, None), s)
        else case spi_read_response k 4 s of (r, s) \<Rightarrow>
          let rx_buf = receive_into (fresh_memory 4 m) r;
              s = snd (call k Kfree s)
          in ((0, Some (get32 rx_buf 0)), s))"

section \<open>Power, controls, streaming\<close>

definition spi_power_on :: "kernel \<Rightarrow> adsd3500 \<Rightarrow> int \<times> adsd3500" where
  "spi_power_on k s =
     (case spi_regmap_read k (REVERSE_LONG_int SPI_GET_CHIP_ID_CMD) s of (_, s) \<Rightarrow>
      let write_cmd = push_bit 16 (imager_mode_cmd s) OR imager_mode_val s in
      case spi_regmap_write k (REVERSE_LONG write_cmd) s of (ret, s) \<Rightarrow>
        if ret \<noteq> 0 then (ret, s) else (0, s))"

definition spi_pm_runtime_get_sync :: "kernel \<Rightarrow> adsd3500 \<Rightarrow> int \<times> adsd3500" where
  "spi_pm_runtime_get_sync k s =
     (let (r, s) = call k Pm_Runtime_Get_Sync s in pm_core k (spi_power_on k) s)"

text \<open>A payload of two bytes is sent with two zeros behind it, which are written into the control first.\<close>

definition spi_chip_config :: "kernel \<Rightarrow> v4l2_ctrl \<Rightarrow> adsd3500 \<Rightarrow> (int \<times> v4l2_ctrl) \<times> adsd3500" where
  "spi_chip_config k ctrl s =
     (let r_w = p_new ctrl ! 0;
          pld_size = unat (pld_size_of (p_new ctrl))
      in if pld_size > 4096 \<or> pld_size < 2 then ((- EINVAL, ctrl), s)
         else if r_w > 1 then ((- EINVAL, ctrl), s)
         else if r_w \<noteq> 0
         then (let ctrl = (if pld_size = 2 then ctrl\<lparr>p_new := (p_new ctrl)[5 := 0, 6 := 0]\<rparr> else ctrl);
                   pld_size = (if pld_size = 2 then 4 else pld_size) in
               case call k (Spi_Sync [[ADSD3500_SPI_WRITE_CMD], take pld_size (drop 3 (p_new ctrl))] 0) s of (r, s) \<Rightarrow>
                 if rc r < 0 then ((- EIO, ctrl), s)
                 else ((0, ctrl\<lparr>p_new := (p_new ctrl)[0 := 0xFF]\<rparr>), s))
         else (let pld_size = (if pld_size = 2 then 4 else pld_size) in
               case call k (Kmalloc pld_size) s of (m, s) \<Rightarrow>
                 if rc m < 0 then ((- ENOMEM, ctrl), s)
                 else case spi_read_response k pld_size s of (r, s) \<Rightarrow>
                   let s = snd (call k Kfree s) in
                   if rc r < 0 then ((- EIO, ctrl), s)
                   else ((0, ctrl\<lparr>p_new := (take 3 (p_new ctrl) @ receive_into (fresh_memory pld_size m) r @
                     drop (3 + pld_size) (p_new ctrl))[0 := 0xFF]\<rparr>), s)))"

definition spi_s_ctrl :: "kernel \<Rightarrow> v4l2_ctrl \<Rightarrow> adsd3500 \<Rightarrow> (int \<times> v4l2_ctrl) \<times> adsd3500" where
  "spi_s_ctrl k ctrl s =
     (if ctrl_id ctrl \<in> {V4L2_CID_ADSD3500_OPERATING_MODE, V4L2_CID_ADSD3500_AB_AVG,
           V4L2_CID_ADSD3500_DEPTH_EN, V4L2_CID_PIXEL_RATE, V4L2_CID_LINK_FREQ}
      then ((0, ctrl), s)
      else if ctrl_id ctrl = V4L2_CID_ADSD3500_CHIP_CONFIG then spi_chip_config k ctrl s
      else if ctrl_id ctrl \<in> {V4L2_CID_ADSD3500_DEPTH_BITS, V4L2_CID_ADSD3500_AB_BITS,
           V4L2_CID_ADSD3500_CONFIDENCE_BITS}
      then (case adsd3500_bpp_config ctrl s of (r, s) \<Rightarrow> ((r, ctrl), s))
      else ((- EINVAL, ctrl), s))"

definition spi_start_streaming :: "kernel \<Rightarrow> adsd3500 \<Rightarrow> int \<times> adsd3500" where
  "spi_start_streaming k s = spi_regmap_write k (REVERSE_LONG_int SPI_STREAM_ON_CMD) s"

definition spi_stop_streaming :: "kernel \<Rightarrow> adsd3500 \<Rightarrow> int \<times> adsd3500" where
  "spi_stop_streaming k s = spi_regmap_write k (REVERSE_LONG_int SPI_STREAM_OFF_CMD) s"

definition spi_s_stream :: "kernel \<Rightarrow> int \<Rightarrow> adsd3500 \<Rightarrow> (int \<times> adsd3500) option" where
  "spi_s_stream k enable s =
     (case mutex_lock s of
        None \<Rightarrow> None
      | Some s \<Rightarrow>
        if (if streaming s then 1 else 0) = enable then Some (0, mutex_unlock s)
        else if enable \<noteq> 0
        then (case spi_pm_runtime_get_sync k s of (ret, s) \<Rightarrow>
            if ret < 0 then Some (ret, mutex_unlock (pm_runtime_put_noidle k s))
            else (case spi_start_streaming k s of (ret, s) \<Rightarrow>
              if ret \<noteq> 0 then Some (ret, mutex_unlock (pm_runtime_put k s))
              else Some (ret, mutex_unlock (s\<lparr>streaming := True\<rparr>))))
        else (case spi_stop_streaming k s of (_, s) \<Rightarrow>
            Some (0, mutex_unlock ((pm_runtime_put k s)\<lparr>streaming := False\<rparr>))))"

definition spi_g_frame_interval :: "kernel \<Rightarrow> adsd3500 \<Rightarrow> (int \<times> v4l2_fract) \<times> adsd3500" where
  "spi_g_frame_interval k s =
     (let fi = \<lparr>numerator = 1, denominator = 10\<rparr> in
      case spi_regmap_read k (REVERSE_LONG_int SPI_GET_FRAMERATE_CMD) s of ((ret, v), s) \<Rightarrow>
        if ret < 0 then ((ret, fi), s)
        else ((ret, fi\<lparr>denominator := REVERSE_SHORT (case v of None \<Rightarrow> 0 | Some v \<Rightarrow> v)\<rparr>), s))"

text \<open>The value is not cut to the 16 bits of a register before it is put beside the command.\<close>

definition spi_s_frame_interval :: "kernel \<Rightarrow> v4l2_fract \<Rightarrow> adsd3500 \<Rightarrow> (int \<times> adsd3500) mem" where
  "spi_s_frame_interval k fi s =
     (case DIV_ROUND_UP (denominator fi) (numerator fi) of
        Fault \<Rightarrow> Fault
      | Ret write_val \<Rightarrow>
          Ret (spi_regmap_write k (REVERSE_LONG (push_bit 16 SET_FRAMERATE_CMD OR write_val)) s))"

text \<open>The text of the debugfs file; the value is there whenever the return code is not negative.\<close>

definition spi_status_text :: "int \<times> u32 option \<Rightarrow> string" where
  "spi_status_text r =
     (case r of
        (ret, Some v) \<Rightarrow>
          if ret < 0 then ''Read failed'' @ [CHR 0x0A]
          else ''0x'' @ hex_digits 4 (unat (REVERSE_SHORT v)) @ [CHR 0x0A]
      | (ret, None) \<Rightarrow> ''Read failed'' @ [CHR 0x0A])"

definition spi_debug_read ::
  "kernel \<Rightarrow> (nat \<Rightarrow> int \<Rightarrow> string \<Rightarrow> 'r) \<Rightarrow> nat \<Rightarrow> int \<Rightarrow> adsd3500 \<Rightarrow> 'r \<times> adsd3500" where
  "spi_debug_read k copy_out count offset s =
     (case spi_regmap_read k (REVERSE_LONG_int SPI_GET_IMAGER_STATUS_CMD) s of (r, s) \<Rightarrow>
        (copy_out count offset (spi_status_text r), s))"

section \<open>Firmware\<close>

definition spi_read_ack :: "kernel \<Rightarrow> adsd3500 \<Rightarrow> int \<times> adsd3500" where
  "spi_read_ack k s =
     (case spi_read_response k 4 s of (r, s) \<Rightarrow>
        if rc r < 0 then (- EIO, s)
        else if rdata r ! 0 \<noteq> 0x0B then (- ENXIO, s)
        else (0, s))"

fun spi_send_segments ::
  "kernel \<Rightarrow> bool \<Rightarrow> u8 list \<Rightarrow> (nat \<times> nat) list \<Rightarrow> adsd3500 \<Rightarrow> ((int + unit) \<times> adsd3500) mem" where
  "spi_send_segments k packet data [] s = Ret (Inr (), s)"
| "spi_send_segments k packet data ((header_start, segment_size) # segs) s =
     (if header_start + HEADER_SIZE_IN_BYTES > length data then Fault
      else let header_packet = ADSD3500_SPI_WRITE_CMD # take HEADER_SIZE_IN_BYTES (drop header_start data) in
        case spi_write k header_packet s of (ret, s) \<Rightarrow>
          if ret < 0 then Ret (Inl (- EIO), s)
          else if header_packet ! 4 = 0x55 then Ret (Inr (), s)
          else case spi_read_ack k s of (ret, s) \<Rightarrow>
            if ret < 0 then Ret (Inl (- ENXIO), s)
            else case call k (Msleep 5) s of (_, s) \<Rightarrow>
              if segment_size = 0
              then if \<not> packet then Fault
                else spi_send_segments k packet data segs (snd (call k (Msleep 1) s))
              else if \<not> packet \<or> segment_size + 1 > SPI_PAYLOAD_MAX_CHUNK_SIZE \<or>
                  header_start + HEADER_SIZE_IN_BYTES + segment_size > length data then Fault
              else let data_packet = ADSD3500_SPI_WRITE_CMD #
                    take segment_size (drop (header_start + HEADER_SIZE_IN_BYTES) data) in
                case spi_write k data_packet s of (ret, s) \<Rightarrow>
                  if ret < 0 then Ret (Inl (- EIO), s)
                  else case call k (Msleep 5) s of (_, s) \<Rightarrow>
                    case spi_read_ack k s of (ret, s) \<Rightarrow>
                      if ret < 0 then Ret (Inl (- ENXIO), s)
                      else spi_send_segments k packet data segs (snd (call k (Msleep 1) s)))"

definition spi_send_host_boot_data :: "kernel \<Rightarrow> u8 list \<Rightarrow> int \<Rightarrow> adsd3500 \<Rightarrow> (int \<times> adsd3500) mem" where
  "spi_send_host_boot_data k data sz s =
     (case call k (Kvzalloc SPI_PAYLOAD_MAX_CHUNK_SIZE) s of (a, s) \<Rightarrow>
        case find_segments data sz 0 0 of
          Fault \<Rightarrow> Fault
        | Ret segs \<Rightarrow>
            (case spi_send_segments k (rc a \<ge> 0) data segs s of
               Fault \<Rightarrow> Fault
             | Ret (Inl e, s) \<Rightarrow> Ret (e, s)
             | Ret (Inr u, s) \<Rightarrow> Ret (0, snd (call k Kfree s))))"

definition spi_parse_fw :: "kernel \<Rightarrow> adsd3500 \<Rightarrow> (int \<times> adsd3500) mem" where
  "spi_parse_fw k s =
     (case main_fw s of
        None \<Rightarrow> Fault
      | Some fw \<Rightarrow>
          (case call k (Kvzalloc (length fw)) s of (a, s) \<Rightarrow>
             if rc a < 0 then Ret (- ENOMEM, s)
             else case spi_send_host_boot_data k fw (sint (word_of_nat (length fw) :: u32)) s of
                 Fault \<Rightarrow> Fault
               | Ret (ret, s) \<Rightarrow>
                   if ret \<noteq> 0 then Ret (ret, snd (call k Kfree s))
                   else Ret (0, snd (call k Kfree s))))"

definition spi_load_firmware :: "kernel \<Rightarrow> bool \<Rightarrow> adsd3500 \<Rightarrow> (int \<times> adsd3500) mem" where
  "spi_load_firmware k fw_load s =
     (if fw_load
      then case call k Request_Firmware s of (r, s) \<Rightarrow>
          if rc r < 0 then Ret (rc r, snd (call k Release_Firmware (s\<lparr>main_fw := None\<rparr>)))
          else case spi_parse_fw k (s\<lparr>main_fw := Some (rdata r)\<rparr>) of
              Fault \<Rightarrow> Fault
            | Ret (ret, s) \<Rightarrow>
                if ret < 0 then Ret (ret, snd (call k Release_Firmware s))
                else Ret (0, snd (call k Release_Firmware s))
      else Ret (0, snd (call k Release_Firmware s)))"


section \<open>Formats\<close>

text \<open>The control framework is given the callbacks of this variant.\<close>

definition spi_v4l2_ctrl_s_ctrl :: "kernel \<Rightarrow> u32 \<Rightarrow> int \<Rightarrow> adsd3500 \<Rightarrow> int \<times> adsd3500" where
  "spi_v4l2_ctrl_s_ctrl k cid v s = ctrl_core k (spi_s_ctrl k) cid v s"

definition spi_set_active_mode :: "kernel \<Rightarrow> adsd3500_mode_info \<Rightarrow> adsd3500 \<Rightarrow> int \<times> adsd3500" where
  "spi_set_active_mode k new_mode s =
     (case spi_v4l2_ctrl_s_ctrl k V4L2_CID_PIXEL_RATE (uint (pixel_rate new_mode)) s of (ret, s) \<Rightarrow>
        if ret < 0 then (ret, s)
        else case spi_v4l2_ctrl_s_ctrl k V4L2_CID_LINK_FREQ (sint (link_freq_idx new_mode)) s of (ret, s) \<Rightarrow>
          if ret < 0 then (ret, s)
          else (0, s\<lparr>current_mode := Some new_mode\<rparr>))"

definition spi_set_format ::
  "kernel \<Rightarrow> pad_config \<Rightarrow> v4l2_subdev_format \<Rightarrow> adsd3500 \<Rightarrow>
   (int \<times> pad_config \<times> v4l2_subdev_format \<times> adsd3500) option" where
  "spi_set_format k cfg format s =
     (case mutex_lock s of
        None \<Rightarrow> None
      | Some s \<Rightarrow>
        if sf_pad format \<noteq> 0 then Some (- EINVAL, cfg, format, s)
        else case adsd3500_get_pad_crop (sf_pad format) (sf_which format) of
          Inl e \<Rightarrow> Some (e, cfg, format, s)
        | Inr cp \<Rightarrow>
          (let new_mode = adsd3500_mode_info_data !
                 find_nearest_size k adsd3500_mode_info_data
                   (ff_width (sf_format format)) (ff_height (sf_format format));
               (cfg, s) = write_crop cp
                 ((read_crop cp cfg s)\<lparr>r_width := width new_mode, r_height := height new_mode\<rparr>) cfg s;
               (ret, s) = (if sf_which format = V4L2_SUBDEV_FORMAT_ACTIVE
                           then spi_set_active_mode k new_mode s else (0, s))
           in if ret < 0 then Some (ret, cfg, format, s)
              else case adsd3500_get_pad_format (sf_pad format) (sf_which format) of
                Inl e \<Rightarrow> Some (e, cfg, format, s)
              | Inr fp \<Rightarrow>
                (let framefmt = (read_fmt fp cfg s)
                       \<lparr>ff_width := r_width (read_crop cp cfg s),
                        ff_height := r_height (read_crop cp cfg s),
                        ff_code := ff_code (sf_format format),
                        ff_field := V4L2_FIELD_NONE, ff_colorspace := V4L2_COLORSPACE_RAW\<rparr>;
                     (cfg, s) = write_fmt fp framefmt cfg s
                 in Some (0, cfg, format\<lparr>sf_format := framefmt\<rparr>,
                          mutex_unlock (s\<lparr>fmt := framefmt\<rparr>)))))"

definition spi_entity_init_cfg ::
  "kernel \<Rightarrow> bool \<Rightarrow> pad_config \<Rightarrow> adsd3500 \<Rightarrow> (int \<times> pad_config \<times> adsd3500) option" where
  "spi_entity_init_cfg k have_cfg cfg s =
     (let m = adsd3500_mode_info_data ! 0;
          f = \<lparr>sf_which = (if have_cfg then V4L2_SUBDEV_FORMAT_TRY else V4L2_SUBDEV_FORMAT_ACTIVE),
                 sf_pad = 0,
                 sf_format = zero_fmt\<lparr>ff_width := width m, ff_height := height m, ff_code := code m\<rparr>\<rparr>
      in case spi_set_format k cfg f s of
           None \<Rightarrow> None
         | Some (ret, cfg, f, s) \<Rightarrow> Some (ret, cfg, s))"

section \<open>Probe and remove\<close>

definition spi_init_ctrls :: "kernel \<Rightarrow> adsd3500 \<Rightarrow> int \<times> adsd3500" where
  "spi_init_ctrls k s =
     (let s = snd (call k (Ctrl_Handler_Init 3) s);
          s = snd (v4l2_ctrl_new k V4L2_CID_PIXEL_RATE 1 s);
          (link_freq, s) = v4l2_ctrl_new k V4L2_CID_LINK_FREQ 0 s;
          s = (if link_freq
               then s\<lparr>link_freq_flags := link_freq_flags s OR V4L2_CTRL_FLAG_READ_ONLY\<rparr> else s);
          s = v4l2_ctrl_new_custom k adsd3500_ctrl_operating_mode s;
          s = v4l2_ctrl_new_custom k adsd3500_ctrl_chip_config s;
          s = v4l2_ctrl_new_custom k adsd3500_ctrl_depth_bits s;
          s = v4l2_ctrl_new_custom k adsd3500_ab_depth_bits s;
          s = v4l2_ctrl_new_custom k adsd3500_confidence_bits s;
          s = v4l2_ctrl_new_custom k adsd3500_ab_avg s;
          s = v4l2_ctrl_new_custom k adsd3500_depth_en s;
          (error, s) = call k Ctrl_Handler_Error s
      in if rc error \<noteq> 0 then (rc error, s)
         else (0, snd (spi_v4l2_ctrl_s_ctrl k V4L2_CID_ADSD3500_DEPTH_BITS 4 s)))"

definition spi_bus_init :: "kernel \<Rightarrow> adsd3500 \<Rightarrow> int \<times> adsd3500" where
  "spi_bus_init k s =
     (case call k (Pinctrl_Select ''gpio'') s of (r, s) \<Rightarrow>
        if rc r < 0 then (rc r, s)
        else case call k (Pinctrl_Select ''spi'') s of (r, s) \<Rightarrow>
          if rc r < 0 then (rc r, s) else (0, s))"

text \<open>From the interrupt on; the pins are only used here.\<close>

definition spi_parse_pins :: "kernel \<Rightarrow> adsd3500 \<Rightarrow> int \<times> adsd3500" where
  "spi_parse_pins k s =
     (case call k Gpiod_To_Irq s of (i, s) \<Rightarrow>
      let s = s\<lparr>irq := rc i\<rparr> in
      if rc i < 0
      then (- ENODEV, snd (call k (Gpiod_Put ''interrupt'') (snd (call k (Gpiod_Put ''reset'') s))))
      else case call k Devm_Pinctrl_Get s of (p, s) \<Rightarrow>
        if rc p < 0 then (rc p, s)
        else case call k (Pinctrl_Lookup ''spi'') s of (p, s) \<Rightarrow>
        if rc p < 0 then (rc p, s)
        else case call k (Pinctrl_Lookup ''gpio'') s of (p, s) \<Rightarrow>
        if rc p < 0 then (rc p, s)
        else case spi_bus_init k s of (ret, s) \<Rightarrow>
        if ret \<noteq> 0 then (ret, s)
        else case call k (Of_Property_Read_Bool ''adi,use-vc'') s of (v, s) \<Rightarrow>
          (0, s\<lparr>current_config := (current_config s)\<lparr>use_vc := rval v \<noteq> 0\<rparr>\<rparr>))"

definition spi_parse_dt :: "kernel \<Rightarrow> adsd3500 \<Rightarrow> int \<times> adsd3500" where
  "spi_parse_dt k s =
     (case call k Graph_Get_Next_Endpoint s of (endpoint, s) \<Rightarrow>
        if rc endpoint < 0 then (- EINVAL, s)
        else case call k Fwnode_Endpoint_Parse s of (bus_cfg, s) \<Rightarrow>
          let s = snd (call k Fwnode_Handle_Put s) in
          if rc bus_cfg < 0 then (rc bus_cfg, s)
          else let s = s\<lparr>current_config := (current_config s)\<lparr>nr_mipi_lanes := ucast (rval bus_cfg)\<rparr>\<rparr>;
                 (g, s) = gpiod_get_optional k ''reset'' s;
                 s = s\<lparr>rst_gpio := g\<rparr> in
            case g of Err_Gpio e \<Rightarrow> (e, s)
            | _ \<Rightarrow> let (g, s) = gpiod_get_optional k ''interrupt'' s;
                    s = s\<lparr>irq_gpio := g\<rparr> in
              (case g of Err_Gpio e \<Rightarrow> (e, s) | _ \<Rightarrow> spi_parse_pins k s))"

text \<open>From the initial format on.\<close>

definition spi_probe_register :: "kernel \<Rightarrow> adsd3500 \<Rightarrow> (int \<times> adsd3500) option" where
  "spi_probe_register k s =
     (case spi_entity_init_cfg k False no_cfg s of
        None \<Rightarrow> None
      | Some (ret, cfg, s) \<Rightarrow>
          if ret \<noteq> 0 then Some (ret, free_entity k s)
          else case call k Async_Register_Subdev s of (r, s) \<Rightarrow>
            if rc r < 0 then Some (rc r, free_entity k s)
            else let s = snd (call k Pm_Runtime_Set_Active s);
                     s = snd (call k Pm_Runtime_Enable s)
                 in Some (0, snd (call k Pm_Runtime_Idle s)))"

text \<open>From the reset on.\<close>

definition spi_probe_body :: "kernel \<Rightarrow> bool \<Rightarrow> adsd3500 \<Rightarrow> (int \<times> adsd3500) option mem" where
  "spi_probe_body k fw_load s =
     (let s = (if rst_gpio s \<noteq> Null_Gpio then snd (call k (Gpiod_Set_Reset 1) s) else s);
          s = snd (call k (Devm_Request_Irq (irq s)) s);
          s = snd (adsd3500_debugfs_init k s) in
      case spi_init_ctrls k s of (ret, s) \<Rightarrow>
        if ret < 0 then Ret (Some (ret, release_gpio k s))
        else case call k Media_Entity_Pads_Init (snd (call k I2c_Subdev_Init s)) of (r, s) \<Rightarrow>
          if rc r < 0 then Ret (Some (rc r, free_ctrl k s))
          else if fw_load
          then case spi_load_firmware k fw_load s of
              Fault \<Rightarrow> Fault
            | Ret (ret, s) \<Rightarrow>
                if ret < 0 then Ret (Some (ret, release_gpio k s))
                else Ret (spi_probe_register k s)
          else Ret (spi_probe_register k s))"

definition spi_probe :: "kernel \<Rightarrow> bool \<Rightarrow> (int \<times> adsd3500) option mem" where
  "spi_probe k fw_load =
     (case call k Devm_Kzalloc (kzalloc_adsd3500 []) of (r, s) \<Rightarrow>
        if rc r < 0 then Ret (Some (- ENOMEM, s))
        else case call k Devm_Regmap_Init s of (r, s) \<Rightarrow>
          if rc r < 0 then Ret (Some (rc r, s))
          else case spi_parse_dt k (snd (call k Mutex_Init s)) of (ret, s) \<Rightarrow>
            if ret < 0 then Ret (Some (ret, snd (call k Kfree (snd (call k Mutex_Destroy s)))))
            else spi_probe_body k fw_load s)"

definition spi_remove :: "kernel \<Rightarrow> adsd3500 \<Rightarrow> int \<times> adsd3500" where
  "spi_remove k s =
     (let s = snd (call k Async_Unregister_Subdev s);
          s = snd (call k Media_Entity_Cleanup s);
          s = snd (call k (Devm_Free_Irq (irq s)) s);
          s = snd (call k (Gpiod_Put ''reset'') s);
          s = snd (call k (Gpiod_Put ''interrupt'') s);
          s = snd (call k Debugfs_Remove s);
          s = snd (call k Ctrl_Handler_Free s);
          s = snd (call k Mutex_Destroy s);
          s = snd (call k Pm_Runtime_Disable s);
          (suspended, s) = call k Pm_Runtime_Status_Suspended s;
          s = (if rval suspended = 0 then snd (adsd3500_power_off k s) else s)
      in (0, snd (call k Pm_Runtime_Set_Suspended s)))"

section \<open>Frames\<close>

text \<open>A frame: the command to write, and register and value with their higher bytes first.\<close>

definition frame :: "u32 \<Rightarrow> u32 \<Rightarrow> u8 list" where
  "frame reg v = [ADSD3500_SPI_WRITE_CMD, ucast (drop_bit 8 reg), ucast reg, ucast (drop_bit 8 v), ucast v]"

lemma byte_masks:
  "(0xff000000 :: u32) = push_bit 24 (mask 8)" "(0x00ff0000 :: u32) = push_bit 16 (mask 8)"
  "(0x0000ff00 :: u32) = push_bit 8 (mask 8)" "(0x000000ff :: u32) = mask 8"
  by (simp_all add: mask_eq_exp_minus_1)

lemma reversed_bytes:
  "le32 (REVERSE_LONG x) = [ucast (drop_bit 24 x), ucast (drop_bit 16 x), ucast (drop_bit 8 x), ucast x]"
  unfolding le32_def REVERSE_LONG_def byte_masks
  by (auto intro!: bit_word_eqI simp: bit_simps not_le dest: bit_imp_le_length)

lemma reversed_short: "REVERSE_SHORT (get32 [a, b, c, d] 0) = ucast b OR push_bit 8 (ucast a)"
proof -
  have m: "(0xFF00 :: u32) = push_bit 8 (mask 8)" "(0xFF :: u32) = mask 8" by (simp_all add: mask_eq_exp_minus_1)
  have g: "get32 [a, b, c, d] 0 = ucast a OR push_bit 8 (ucast b) OR push_bit 16 (ucast c) OR push_bit 24 (ucast d)"
    by (simp add: get32_def)
  show ?thesis
    unfolding REVERSE_SHORT_def m g
  proof (rule bit_word_eqI)
    fix n assume "n < LENGTH(32)"
    then consider "n < 8" | "8 \<le> n" "n < 16" | "16 \<le> n" "n < 32" by fastforce
    then show "bit (push_bit 8 (mask 8) AND push_bit 8 (ucast a OR push_bit 8 (ucast b) OR push_bit 16 (ucast c) OR push_bit 24 (ucast d)) OR
        mask 8 AND drop_bit 8 (ucast a OR push_bit 8 (ucast b) OR push_bit 16 (ucast c) OR push_bit 24 (ucast d)) :: u32) n =
      bit (ucast b OR push_bit 8 (ucast a) :: u32) n"
      by cases (auto simp: bit_simps dest: bit_imp_le_length)
  qed
qed

lemma reversed_frame:
  "ADSD3500_SPI_WRITE_CMD # le32 (REVERSE_LONG (push_bit 16 reg OR v)) = frame (reg OR drop_bit 16 v) v"
  unfolding reversed_bytes frame_def by (auto intro!: bit_word_eqI simp: bit_simps)

lemma stream_frames:
  "ADSD3500_SPI_WRITE_CMD # le32 (REVERSE_LONG_int SPI_STREAM_ON_CMD) = frame STREAM_ON_CMD 0xFFFF"
  "ADSD3500_SPI_WRITE_CMD # le32 (REVERSE_LONG_int SPI_STREAM_OFF_CMD) = frame STREAM_OFF_CMD STREAM_OFF_VAL"
  by (simp_all add: REVERSE_LONG_int_def le32_def frame_def)


lemma imager_mode_frame: "frame (imager_mode_cmd s OR drop_bit 16 (imager_mode_val s)) (imager_mode_val s) =
  frame (imager_mode_cmd s) (imager_mode_val s)"
proof -
  have z: "drop_bit 14 (imager_mode_val s) AND mask 18 = 0" using imager_mode_val_fields(9) [of s] by simp
  have "drop_bit 16 (imager_mode_val s) = 0"
  proof (rule bit_word_eqI)
    fix n assume n: "n < LENGTH(32)"
    have "bit (drop_bit 14 (imager_mode_val s) AND mask 18) (n + 2) = bit (0 :: u32) (n + 2)" using z by simp
    then show "bit (drop_bit 16 (imager_mode_val s)) n = bit (0 :: u32) n"
      by (cases "n < 16") (auto simp: bit_simps add.commute dest: bit_imp_le_length)
  qed
  then show ?thesis by simp
qed

lemma drop_small: "v < 65536 \<Longrightarrow> drop_bit 16 v = (0 :: u32)"
  by (simp add: drop_bit_eq_div word_less_nat_alt unat_div word_arith_nat_div)

section \<open>The same firmware transfer\<close>

text \<open>What a call is on the other bus. The payload buffer has one more byte, for the command.\<close>

fun i2c_of :: "call \<Rightarrow> call" where
  "i2c_of (Spi_Write d) = I2c_Master_Send (tl d)"
| "i2c_of (Spi_Sync tx n) = I2c_Master_Recv n"
| "i2c_of (Kvzalloc n) = Kvzalloc (if n = SPI_PAYLOAD_MAX_CHUNK_SIZE then PAYLOAD_MAX_CHUNK_SIZE else n)"
| "i2c_of c = c"

text \<open>The chip answers on one bus as it does on the other.\<close>

definition same_answers :: "kernel \<Rightarrow> kernel \<Rightarrow> bool" where
  "same_answers ks ki \<longleftrightarrow> (\<forall>h c. env ks h c = env ki (map i2c_of h) (i2c_of c))"

text \<open>Every frame that is sent begins with the command to write, and every answer is asked for.\<close>

fun framed :: "call \<Rightarrow> bool" where
  "framed (Spi_Write d) \<longleftrightarrow> d \<noteq> [] \<and> hd d = ADSD3500_SPI_WRITE_CMD"
| "framed (Spi_Sync tx n) \<longleftrightarrow> tx = [[ADSD3500_SPI_READ_CMD]]"
| "framed c \<longleftrightarrow> True"

definition over :: "adsd3500 \<Rightarrow> adsd3500 \<Rightarrow> bool" where
  "over s t \<longleftrightarrow> map i2c_of (calls s) = calls t"

definition frames_from :: "adsd3500 \<Rightarrow> adsd3500 \<Rightarrow> bool" where
  "frames_from s t \<longleftrightarrow> (\<exists>cs. calls t = calls s @ cs \<and> list_all framed cs)"

lemma frames_from_refl [simp]: "frames_from s s"
  by (simp add: frames_from_def)

lemma frames_from_trans: "frames_from s t \<Longrightarrow> frames_from t u \<Longrightarrow> frames_from s u"
  by (auto simp: frames_from_def)

text \<open>The outcomes of the two are the same.\<close>

fun same_outcome :: "adsd3500 \<Rightarrow> ('r \<times> adsd3500) mem \<Rightarrow> ('r \<times> adsd3500) mem \<Rightarrow> bool" where
  "same_outcome s Fault Fault \<longleftrightarrow> True"
| "same_outcome s (Ret (r, t)) (Ret (r', t')) \<longleftrightarrow> r = r' \<and> over t t' \<and> frames_from s t"
| "same_outcome s x y \<longleftrightarrow> False"

lemma same_call:
  assumes "same_answers ks ki" "over s t" "framed c"
  shows "fst (call ks c s) = fst (call ki (i2c_of c) t)" "over (snd (call ks c s)) (snd (call ki (i2c_of c) t))"
    "frames_from s (snd (call ks c s))"
  using assms by (simp_all add: call_def same_answers_def over_def frames_from_def)

lemma same_ack:
  assumes "same_answers ks ki" "over s t"
  shows "fst (spi_read_ack ks s) = fst (adsd3500_read_ack ki t)" "over (snd (spi_read_ack ks s)) (snd (adsd3500_read_ack ki t))"
    "frames_from s (snd (spi_read_ack ks s))"
  using same_call [OF assms, of "Spi_Sync [[ADSD3500_SPI_READ_CMD]] 4"]
  by (auto simp: spi_read_ack_def spi_read_response_def adsd3500_read_ack_def case_prod_unfold)


lemma same_outcome_from: "same_outcome t x y \<Longrightarrow> frames_from s t \<Longrightarrow> same_outcome s x y"
  by (cases x; cases y) (auto intro: frames_from_trans)

lemma same_send_segments:
  "same_answers ks ki \<Longrightarrow> over s t \<Longrightarrow>
    same_outcome s (spi_send_segments ks packet data segs s) (send_segments ki packet data segs t)"
proof (induction segs arbitrary: s t)
  case (Cons seg segs)
  note same = Cons.prems(1)
  obtain h n where seg: "seg = (h, n)" by fastforce
  let ?hd = "take 16 (drop h data)" and ?pl = "take n (drop (h + 16) data)"
  obtain r1 s1 where s1: "call ks (Spi_Write (0x40 # ?hd)) s = (r1, s1)" by fastforce
  obtain t1 where t1: "call ki (I2c_Master_Send ?hd) t = (r1, t1)" and o1: "over s1 t1" and f1: "frames_from s s1"
    using same_call [OF same Cons.prems(2), of "Spi_Write (0x40 # ?hd)"] s1 by (cases "call ki (I2c_Master_Send ?hd) t") simp
  obtain r2 s2 where s2: "spi_read_ack ks s1 = (r2, s2)" by fastforce
  obtain t2 where t2: "adsd3500_read_ack ki t1 = (r2, t2)" and o2: "over s2 t2" and f2: "frames_from s1 s2"
    using same_ack [OF same o1] s2 by (cases "adsd3500_read_ack ki t1") simp
  obtain a3 s3 where s3: "call ks (Msleep 5) s2 = (a3, s3)" by fastforce
  obtain b3 t3 where t3: "call ki (Msleep 5) t2 = (b3, t3)" and o3: "over s3 t3" and f3: "frames_from s2 s3"
    using same_call [OF same o2, of "Msleep 5"] s3 by (cases "call ki (Msleep 5) t2") simp
  obtain r4 s4 where s4: "call ks (Spi_Write (0x40 # ?pl)) s3 = (r4, s4)" by fastforce
  obtain t4 where t4: "call ki (I2c_Master_Send ?pl) t3 = (r4, t4)" and o4: "over s4 t4" and f4: "frames_from s3 s4"
    using same_call [OF same o3, of "Spi_Write (0x40 # ?pl)"] s4 by (cases "call ki (I2c_Master_Send ?pl) t3") simp
  obtain a5 s5 where s5: "call ks (Msleep 5) s4 = (a5, s5)" by fastforce
  obtain b5 t5 where t5: "call ki (Msleep 5) t4 = (b5, t5)" and o5: "over s5 t5" and f5: "frames_from s4 s5"
    using same_call [OF same o4, of "Msleep 5"] s5 by (cases "call ki (Msleep 5) t4") simp
  obtain r6 s6 where s6: "spi_read_ack ks s5 = (r6, s6)" by fastforce
  obtain t6 where t6: "adsd3500_read_ack ki t5 = (r6, t6)" and o6: "over s6 t6" and f6: "frames_from s5 s6"
    using same_ack [OF same o5] s6 by (cases "adsd3500_read_ack ki t5") simp
  have rest: "same_outcome s (spi_send_segments ks packet data segs (snd (call ks (Msleep 1) u)))
      (send_segments ki packet data segs (snd (call ki (Msleep 1) v)))" if "over u v" "frames_from s u" for u v
  proof -
    note c = same_call [OF same that(1), of "Msleep 1", simplified]
    show ?thesis
      using same_outcome_from [OF Cons.IH [OF same c(2)] frames_from_trans [OF that(2) c(3)]] by simp
  qed
  have f: "frames_from s s2" "frames_from s s3" "frames_from s s4" "frames_from s s5" "frames_from s s6"
    using f1 f2 f3 f4 f5 f6 by (blast intro: frames_from_trans)+
  note steps = s1 s2 s3 s4 s5 s6 t1 t2 t3 t4 t5 t6 o1 o2 o3 o4 o5 o6 f1 f
  show ?case
    using rest [OF o3 f(2)] rest [OF o6 f(5)]
    unfolding seg by (cases packet) (simp_all add: spi_write_def Let_def steps)
qed simp

lemma same_boot:
  assumes "same_answers ks ki" "over s t"
  shows "same_outcome s (spi_send_host_boot_data ks data sz s) (adsd3500_send_host_boot_data ki data sz t)"
proof -
  obtain r s1 where s1: "call ks (Kvzalloc 2049) s = (r, s1)" by fastforce
  obtain t1 where t1: "call ki (Kvzalloc 2048) t = (r, t1)" and o: "over s1 t1" and f: "frames_from s s1"
    using same_call [OF assms, of "Kvzalloc 2049"] s1 by (cases "call ki (Kvzalloc 2048) t") simp
  show ?thesis
  proof (cases "find_segments data sz 0 0")
    case Fault
    then show ?thesis by (simp add: spi_send_host_boot_data_def adsd3500_send_host_boot_data_def s1 t1)
  next
    case (Ret segs)
    note x = same_send_segments [OF assms(1) o, of "0 \<le> rc r" data segs]
    show ?thesis
    proof (cases "spi_send_segments ks (0 \<le> rc r) data segs s1")
      case Fault
      then show ?thesis
        using x Ret by (cases "send_segments ki (0 \<le> rc r) data segs t1")
          (simp_all add: spi_send_host_boot_data_def adsd3500_send_host_boot_data_def s1 t1)
    next
      case r: (Ret y)
      then obtain e u v where y: "y = (e, u)" "send_segments ki (0 \<le> rc r) data segs t1 = Ret (e, v)" "over u v" "frames_from s1 u"
        using x by (cases y; cases "send_segments ki (0 \<le> rc r) data segs t1") auto
      have g: "frames_from s u" by (rule frames_from_trans [OF f y(4)])
      note c = same_call [OF assms(1) y(3), of Kfree, simplified]
      show ?thesis
        using Ret r y g c frames_from_trans [OF g c(3)]
        by (cases e) (simp_all add: spi_send_host_boot_data_def adsd3500_send_host_boot_data_def s1 t1)
    qed
  qed
qed


section \<open>Properties\<close>

text \<open>The frame that stands for an access to a register of 16 bits; reading begins with a frame of its own.\<close>

fun as_frame :: "call \<Rightarrow> call" where
  "as_frame (Regmap_Write reg v) = Spi_Write (frame reg v)"
| "as_frame (Regmap_Read reg) = Spi_Write (frame reg 0)"
| "as_frame c = c"

lemma read_frames:
  "ADSD3500_SPI_WRITE_CMD # le32 (REVERSE_LONG_int SPI_GET_CHIP_ID_CMD) = frame GET_CHIP_ID_CMD 0"
  "ADSD3500_SPI_WRITE_CMD # le32 (REVERSE_LONG_int SPI_GET_FRAMERATE_CMD) = frame GET_FRAMERATE_CMD 0"
  "ADSD3500_SPI_WRITE_CMD # le32 (REVERSE_LONG_int SPI_GET_IMAGER_STATUS_CMD) = frame GET_IMAGER_STATUS_CMD 0"
  by (simp_all add: REVERSE_LONG_int_def le32_def frame_def)

lemma regmap_read_calls:
  "ADSD3500_SPI_WRITE_CMD # le32 reg = f \<Longrightarrow>
    \<exists>cs. snd (spi_regmap_read k reg s) = s\<lparr>calls := calls s @ Spi_Write f # cs\<rparr>"
  by (cases "rc (env k (calls s @ [Spi_Write f]) (Kmalloc 4)) < 0")
    (auto simp: spi_regmap_read_def spi_write_def spi_read_response_def call_def Let_def)

lemma power_on_frames:
  "\<exists>cs. snd (spi_power_on k s) = s\<lparr>calls := calls s @ Spi_Write (frame GET_CHIP_ID_CMD 0) # cs @
      [Spi_Write (frame (imager_mode_cmd s) (imager_mode_val s))]\<rparr>"
proof -
  obtain cs where cs: "snd (spi_regmap_read k (REVERSE_LONG_int SPI_GET_CHIP_ID_CMD) s) =
      s\<lparr>calls := calls s @ Spi_Write (frame GET_CHIP_ID_CMD 0) # cs\<rparr>"
    using regmap_read_calls [OF read_frames(1)] by blast
  have "imager_mode_cmd (s\<lparr>calls := c\<rparr>) = imager_mode_cmd s" "imager_mode_val (s\<lparr>calls := c\<rparr>) = imager_mode_val s" for c
    by (simp_all add: imager_mode_cmd_def imager_mode_val_def Let_def)
  note m = this
  obtain r u where u: "spi_regmap_read k (REVERSE_LONG_int SPI_GET_CHIP_ID_CMD) s = (r, u)" by fastforce
  then have v: "u = s\<lparr>calls := calls s @ Spi_Write (frame GET_CHIP_ID_CMD 0) # cs\<rparr>" using cs by simp
  have f: "ADSD3500_SPI_WRITE_CMD # le32 (REVERSE_LONG (push_bit 16 (imager_mode_cmd s) OR imager_mode_val s)) =
      frame (imager_mode_cmd s) (imager_mode_val s)"
    by (simp only: reversed_frame imager_mode_frame)
  show ?thesis
    by (rule exI [of _ cs]) (simp add: spi_power_on_def u v m f Let_def spi_regmap_write_def spi_write_def call_def)
qed

text \<open>C31: Over SPI the driver sends what it sends over I2C, as frames: reading the chip id, the mode of the imager, the end
  of a stream, and frame rates of at most 16 bits. A higher rate spills into the register that is
  written; and the start of a stream has lost its value, since the sign of the constant is shifted over it.\<close>

theorem spi_commands_as_i2c:
  assumes "numerator fi \<noteq> 0"
  defines "v \<equiv> (denominator fi + numerator fi - 1) div numerator fi"
  shows "last (calls (snd (spi_power_on k s))) = as_frame (last (calls (snd (adsd3500_power_on k s)))) \<and>
    calls (snd (spi_stop_streaming k s)) = calls s @ [as_frame (Regmap_Write STREAM_OFF_CMD STREAM_OFF_VAL)] \<and>
    (\<exists>r t. spi_s_frame_interval k fi s = Ret (r, t) \<and>
      calls t = calls s @ [Spi_Write (frame (SET_FRAMERATE_CMD OR drop_bit 16 v) v)] \<and>
      (v < 65536 \<longrightarrow> calls t = calls s @ [as_frame (Regmap_Write SET_FRAMERATE_CMD v)])) \<and>
    calls (snd (spi_start_streaming k s)) = calls s @ [Spi_Write (frame STREAM_ON_CMD 0xFFFF)] \<and>
    Spi_Write (frame STREAM_ON_CMD 0xFFFF) \<noteq> as_frame (Regmap_Write STREAM_ON_CMD STREAM_ON_VAL)"
proof (intro conjI)
  obtain cs where "snd (spi_power_on k s) = s\<lparr>calls := calls s @ Spi_Write (frame GET_CHIP_ID_CMD 0) # cs @
      [Spi_Write (frame (imager_mode_cmd s) (imager_mode_val s))]\<rparr>"
    using power_on_frames by blast
  moreover have "last (calls (snd (adsd3500_power_on k s))) = Regmap_Write (imager_mode_cmd s) (imager_mode_val s)"
    using power_on_value [of k s] by auto
  ultimately show "last (calls (snd (spi_power_on k s))) = as_frame (last (calls (snd (adsd3500_power_on k s))))" by simp
  show "calls (snd (spi_stop_streaming k s)) = calls s @ [as_frame (Regmap_Write STREAM_OFF_CMD STREAM_OFF_VAL)]"
    "calls (snd (spi_start_streaming k s)) = calls s @ [Spi_Write (frame STREAM_ON_CMD 0xFFFF)]"
    by (simp_all add: spi_stop_streaming_def spi_start_streaming_def spi_regmap_write_def stream_frames spi_write_def call_def)
  have d: "DIV_ROUND_UP (denominator fi) (numerator fi) = Ret v" using assms(1) by (simp add: DIV_ROUND_UP_def v_def)
  have "spi_s_frame_interval k fi s = Ret (rc (env k (calls s) (Spi_Write (frame (SET_FRAMERATE_CMD OR drop_bit 16 v) v))),
      s\<lparr>calls := calls s @ [Spi_Write (frame (SET_FRAMERATE_CMD OR drop_bit 16 v) v)]\<rparr>)"
    unfolding spi_s_frame_interval_def d spi_regmap_write_def reversed_frame by (simp add: spi_write_def call_def)
  moreover have "SET_FRAMERATE_CMD OR drop_bit 16 v = SET_FRAMERATE_CMD" if "v < 65536"
    using drop_small [OF that] by simp
  ultimately show "\<exists>r t. spi_s_frame_interval k fi s = Ret (r, t) \<and>
      calls t = calls s @ [Spi_Write (frame (SET_FRAMERATE_CMD OR drop_bit 16 v) v)] \<and>
      (v < 65536 \<longrightarrow> calls t = calls s @ [as_frame (Regmap_Write SET_FRAMERATE_CMD v)])" by simp
  show "Spi_Write (frame STREAM_ON_CMD 0xFFFF) \<noteq> as_frame (Regmap_Write STREAM_ON_CMD STREAM_ON_VAL)"
    by (simp add: frame_def)
qed

theorem spi_commands_as_i2c_witness:
  "\<exists>r t. spi_s_frame_interval (chip_kernel 0) \<lparr>numerator = 1, denominator = 30\<rparr> boot_state = Ret (r, t) \<and>
     calls t = [Spi_Write [0x40, 0, 0x22, 0, 30]]"
proof -
  have n: "numerator \<lparr>numerator = 1, denominator = 30\<rparr> \<noteq> 0" "(30 + 1 - 1) div (1 :: u32) = 30" "(30 :: u32) < 65536"
    "calls boot_state = []" by (simp_all add: boot_state_def)
  have "frame SET_FRAMERATE_CMD 30 = [0x40, 0, 0x22, 0, 30]" by (simp add: frame_def)
  then show ?thesis
    using spi_commands_as_i2c [OF n(1), where k = "chip_kernel 0" and s = boot_state, unfolded v4l2_fract.simps n(2), THEN conjunct2, THEN conjunct2, THEN conjunct1] n(3,4)
    by auto
qed

text \<open>C25: The transfer of the firmware is the same on both buses, for every image, also one that is not well-formed: when
  the chip answers alike, the two variants return the same, fault together, and have sent the same; over SPI
  each transfer begins with its command.\<close>

theorem spi_boot_as_i2c:
  assumes "same_answers ks ki" "map i2c_of (calls s) = calls t"
  shows "same_outcome s (spi_send_host_boot_data ks data sz s) (adsd3500_send_host_boot_data ki data sz t)"
  by (rule same_boot [OF assms(1)]) (use assms(2) in \<open>simp add: over_def\<close>)

definition spi_kernel :: "kernel \<Rightarrow> kernel" where
  "spi_kernel ki = eager_kernel (\<lambda>h c. env ki (map i2c_of h) (i2c_of c))"

theorem spi_boot_as_i2c_witness:
  "\<exists>t u. spi_send_host_boot_data (spi_kernel (chip_kernel 0x0B)) (fw_image sample_image)
       (int (length (fw_image sample_image))) boot_state = Ret (0, t) \<and>
     adsd3500_send_host_boot_data (chip_kernel 0x0B) (fw_image sample_image)
       (int (length (fw_image sample_image))) boot_state = Ret (0, u) \<and> map i2c_of (calls t) = calls u"
proof -
  let ?i = "fw_image sample_image" and ?n = "int (length (fw_image sample_image))"
  have same: "same_answers (spi_kernel (chip_kernel 0x0B)) (chip_kernel 0x0B)" by (simp add: same_answers_def spi_kernel_def)
  have e: "map i2c_of (calls boot_state) = calls boot_state" by (simp add: boot_state_def)
  have l: "sample_image \<noteq> []" "length sample_image \<le> MAX_SEGMENTS" by (simp_all add: sample_image_def)
  have a: "0 \<le> rc (env (chip_kernel 0x0B) (calls boot_state) (Kvzalloc 2048))" by simp
  obtain r u where u: "adsd3500_send_host_boot_data (chip_kernel 0x0B) ?i ?n boot_state = Ret (r, u)"
    "boot_outcome (chip_kernel 0x0B) sample_image (boot_state\<lparr>calls := calls boot_state @ [Kvzalloc 2048]\<rparr>) r u"
    using send_host_boot_data_value [OF sample_image_wf l a] by blast
  have "all_good (chip_kernel 0x0B) h (transfer sample_image)" for h
    by (simp add: sample_image_def sample_header_def)
  then have r: "r = 0" using u(2) by (simp add: boot_outcome_def)
  show ?thesis
    using spi_boot_as_i2c [OF same e, of ?i ?n] u(1) unfolding r
    by (cases "spi_send_host_boot_data (spi_kernel (chip_kernel 0x0B)) ?i ?n boot_state") (auto simp: over_def)
qed

text \<open>The control framework calls back with the control that is set.\<close>

definition calls_own_control :: "kernel \<Rightarrow> bool" where
  "calls_own_control k \<longleftrightarrow> (\<forall>cb cb' cid. (\<forall>ctrl s. ctrl_id ctrl = cid \<longrightarrow> cb ctrl s = cb' ctrl s) \<longrightarrow>
     ctrl_core k cb cid = ctrl_core k cb' cid)"

lemma spi_ctrl_s_ctrl_same:
  assumes "calls_own_control k" "cid \<noteq> V4L2_CID_ADSD3500_CHIP_CONFIG"
  shows "spi_v4l2_ctrl_s_ctrl k cid = v4l2_ctrl_s_ctrl k cid"
proof -
  have "\<forall>ctrl s. ctrl_id ctrl = cid \<longrightarrow> spi_s_ctrl k ctrl s = adsd3500_s_ctrl k ctrl s"
    using assms(2) by (simp add: spi_s_ctrl_def adsd3500_s_ctrl_def)
  then have "ctrl_core k (spi_s_ctrl k) cid = ctrl_core k (adsd3500_s_ctrl k) cid"
    using assms(1) unfolding calls_own_control_def by blast
  then show ?thesis by (simp add: spi_v4l2_ctrl_s_ctrl_def [abs_def] v4l2_ctrl_s_ctrl_def [abs_def])
qed

text \<open>Setting formats and creating controls is the same in both variants, since the control in which they differ is not
  set there.\<close>

theorem spi_formats_as_i2c:
  assumes "calls_own_control k"
  shows "spi_set_format k cfg format s = adsd3500_set_format k cfg format s \<and>
    spi_entity_init_cfg k have cfg s = adsd3500_entity_init_cfg k have cfg s \<and>
    spi_init_ctrls k s = adsd3500_init_ctrls k s"
proof -
  note same = spi_ctrl_s_ctrl_same [OF assms]
  have m: "spi_set_active_mode k = set_active_mode k"
    by (rule ext)+ (simp add: spi_set_active_mode_def set_active_mode_def same case_prod_unfold Let_def)
  have f: "spi_set_format k = adsd3500_set_format k"
    unfolding spi_set_format_def [abs_def] adsd3500_set_format_def [abs_def] m ..
  have d: "spi_v4l2_ctrl_s_ctrl k V4L2_CID_ADSD3500_DEPTH_BITS = v4l2_ctrl_s_ctrl k V4L2_CID_ADSD3500_DEPTH_BITS"
    by (rule same) simp
  have "spi_init_ctrls k s = adsd3500_init_ctrls k s"
    unfolding spi_init_ctrls_def adsd3500_init_ctrls_def d ..
  then show ?thesis by (simp add: f spi_entity_init_cfg_def adsd3500_entity_init_cfg_def)
qed

theorem spi_formats_as_i2c_witness:
  "spi_init_ctrls (eager_kernel (chip_env 0)) boot_state = adsd3500_init_ctrls (eager_kernel (chip_env 0)) boot_state"
proof -
  have "calls_own_control (eager_kernel (chip_env 0))"
    unfolding calls_own_control_def
  proof (intro allI impI)
    fix cb cb' :: "v4l2_ctrl \<Rightarrow> adsd3500 \<Rightarrow> (int \<times> v4l2_ctrl) \<times> adsd3500" and cid
    assume "\<forall>ctrl s. ctrl_id ctrl = cid \<longrightarrow> cb ctrl s = cb' ctrl s"
    then have "eager_ctrl cb cid v s = eager_ctrl cb' cid v s" for v s by (simp add: eager_ctrl_def)
    then show "ctrl_core (eager_kernel (chip_env 0)) cb cid = ctrl_core (eager_kernel (chip_env 0)) cb' cid"
      by (simp add: eager_kernel_def fun_eq_iff)
  qed
  from spi_formats_as_i2c [OF this] show ?thesis by blast
qed

text \<open>The chip configuration over SPI: what is refused, what one message sends, and where an answer goes. Payloads of
  two bytes are four bytes on the bus, also when they are received, over the two bytes behind them.\<close>

theorem spi_chip_config_transfers:
  fixes ctrl :: v4l2_ctrl and s :: adsd3500
  assumes "length (p_new ctrl) = 4099"
  defines "n \<equiv> unat (pld_size_of (p_new ctrl))"
  defines "m \<equiv> if n = 2 then 4 else n"
  defines "hist \<equiv> calls s @ [Kmalloc m]"
  shows "if n < 2 \<or> 4096 < n \<or> 1 < p_new ctrl ! 0 then spi_chip_config k ctrl s = ((- EINVAL, ctrl), s)
    else if p_new ctrl ! 0 \<noteq> 0
    then calls (snd (spi_chip_config k ctrl s)) =
      calls s @ [Spi_Sync [[0x40], take n (drop 3 (p_new ctrl)) @ (if n = 2 then [0, 0] else [])] 0]
    else 0 \<le> rc (env k (calls s) (Kmalloc m)) \<longrightarrow> 0 \<le> rc (env k hist (Spi_Sync [[0x80]] m)) \<longrightarrow>
      length (rdata (env k hist (Spi_Sync [[0x80]] m))) = m \<longrightarrow>
      (\<exists>p t. spi_chip_config k ctrl s = ((0, ctrl\<lparr>p_new := p\<rparr>), t) \<and> calls t = hist @ [Spi_Sync [[0x80]] m, Kfree] \<and>
        length p = 4099 \<and> take m (drop 3 p) = rdata (env k hist (Spi_Sync [[0x80]] m)) \<and> drop (3 + m) p = drop (3 + m) (p_new ctrl))"
proof -
  let ?p = "p_new ctrl"
  have two: "take 4 (drop 3 (?p[5 := 0, 6 := 0])) = take 2 (drop 3 ?p) @ [0, 0]"
  proof (rule nth_equalityI)
    show l: "length (take 4 (drop 3 (?p[5 := 0, 6 := 0]))) = length (take 2 (drop 3 ?p) @ [0, 0])" using assms(1) by simp
    fix i assume "i < length (take 4 (drop 3 (?p[5 := 0, 6 := 0])))"
    then have "i < 4" by simp
    then consider "i = 0" | "i = 1" | "i = 2" | "i = 3" by linarith
    then show "take 4 (drop 3 (?p[5 := 0, 6 := 0])) ! i = (take 2 (drop 3 ?p) @ [0, 0]) ! i"
      using assms(1) by cases (simp_all add: nth_append)
  qed
  consider (bad) "n < 2 \<or> 4096 < n \<or> 1 < ?p ! 0" | (send) "\<not> (n < 2 \<or> 4096 < n \<or> 1 < ?p ! 0)" "?p ! 0 \<noteq> 0"
    | (receive) "\<not> (n < 2 \<or> 4096 < n \<or> 1 < ?p ! 0)" "?p ! 0 = 0" by blast
  then show ?thesis
  proof cases
    case bad
    then show ?thesis by (auto simp: spi_chip_config_def Let_def n_def)
  next
    case send
    have "calls (snd (spi_chip_config k ctrl s)) = calls s @
        [Spi_Sync [[0x40], take m (drop 3 (if n = 2 then ?p[5 := 0, 6 := 0] else ?p))] 0]"
      using send by (simp add: spi_chip_config_def Let_def n_def [symmetric] m_def call_def)
    then show ?thesis using send two by (simp add: m_def)
  next
    case receive
    let ?r = "env k hist (Spi_Sync [[0x80]] m)"
    have m: "2 \<le> m" "m \<le> 4096" using receive(1) by (auto simp: m_def)
    have nn: "\<not> ?p ! 0 \<noteq> 0" using receive(2) by simp
    show ?thesis
    proof (unfold if_not_P [OF receive(1)] if_not_P [OF nn], intro impI)
      assume ok: "0 \<le> rc (env k (calls s) (Kmalloc m))" "0 \<le> rc ?r" "length (rdata ?r) = m"
      have f: "length (fresh_memory m a) = m" for a by (simp add: fresh_memory_def)
      have ri: "receive_into (fresh_memory m a) ?r = rdata ?r" for a using ok(3) f [of a] by (simp add: receive_into_def)
      let ?q = "(take 3 ?p @ rdata ?r @ drop (3 + m) ?p)[0 := 0xFF]"
      have "spi_chip_config k ctrl s = ((0, ctrl\<lparr>p_new := ?q\<rparr>), s\<lparr>calls := hist @ [Spi_Sync [[0x80]] m, Kfree]\<rparr>)"
        using receive ok ri
        by (simp add: spi_chip_config_def Let_def n_def [symmetric] m_def [symmetric] call_def spi_read_response_def hist_def)
      moreover have "length ?q = 4099" "take m (drop 3 ?q) = rdata ?r" "drop (3 + m) ?q = drop (3 + m) ?p"
        using assms(1) m ok(3) by (simp_all add: list_update_append1)
      ultimately show "\<exists>p t. spi_chip_config k ctrl s = ((0, ctrl\<lparr>p_new := p\<rparr>), t) \<and> calls t = hist @ [Spi_Sync [[0x80]] m, Kfree] \<and>
          length p = 4099 \<and> take m (drop 3 p) = rdata ?r \<and> drop (3 + m) p = drop (3 + m) ?p" by auto
    qed
  qed
qed

text \<open>A read answers 0 whatever the bus did; when nothing was received, the value is what the memory held.\<close>

theorem spi_reads_hide_failures:
  assumes "0 \<le> rc (env k (calls s @ [Spi_Write (frame GET_FRAMERATE_CMD 0)]) (Kmalloc 4))"
    and "rdata (env k (calls s @ [Spi_Write (frame GET_FRAMERATE_CMD 0)]) (Kmalloc 4)) = [a, b, c, d]"
    and "rc (env k (calls s @ [Spi_Write (frame GET_FRAMERATE_CMD 0), Kmalloc 4]) (Spi_Sync [[0x80]] 4)) < 0"
    and "rdata (env k (calls s @ [Spi_Write (frame GET_FRAMERATE_CMD 0), Kmalloc 4]) (Spi_Sync [[0x80]] 4)) = []"
  shows "fst (spi_g_frame_interval k s) = (0, \<lparr>numerator = 1, denominator = ucast b OR push_bit 8 (ucast a)\<rparr>)"
proof -
  have "receive_into (fresh_memory 4 (env k (calls s @ [Spi_Write (frame GET_FRAMERATE_CMD 0)]) (Kmalloc 4)))
      (env k (calls s @ [Spi_Write (frame GET_FRAMERATE_CMD 0), Kmalloc 4]) (Spi_Sync [[0x80]] 4)) = [a, b, c, d]"
    using assms(2,4) by (simp add: receive_into_def fresh_memory_def)
  then show ?thesis
    using assms(1) unfolding spi_g_frame_interval_def spi_regmap_read_def read_frames
    by (simp add: spi_write_def spi_read_response_def call_def Let_def reversed_short)
qed

section \<open>A probe without its device tree\<close>

definition gpio_put :: "call \<Rightarrow> bool" where
  "gpio_put c \<longleftrightarrow> c \<in> {Gpiod_Put ''reset'', Gpiod_Put ''interrupt''}"

lemma gpio_put_simps [simp]:
  "\<not> gpio_put Graph_Get_Next_Endpoint" "\<not> gpio_put Fwnode_Endpoint_Parse" "\<not> gpio_put Fwnode_Handle_Put"
  "\<not> gpio_put (Gpiod_Get_Optional nm)" "\<not> gpio_put Gpiod_To_Irq" "\<not> gpio_put Devm_Pinctrl_Get" "\<not> gpio_put (Pinctrl_Lookup nm)"
  "\<not> gpio_put (Pinctrl_Select nm)" "\<not> gpio_put (Of_Property_Read_Bool nm)" "\<not> gpio_put Devm_Kzalloc" "\<not> gpio_put Devm_Regmap_Init"
  "\<not> gpio_put Mutex_Init" "\<not> gpio_put Mutex_Destroy" "\<not> gpio_put Kfree" "gpio_put (Gpiod_Put ''reset'')" "gpio_put (Gpiod_Put ''interrupt'')"
  by (simp_all add: gpio_put_def)

definition gpios_put :: "adsd3500 \<Rightarrow> call list" where
  "gpios_put s = filter gpio_put (calls s)"

lemma gpios_put_call: "gpios_put (snd (call k c s)) = gpios_put s @ (if gpio_put c then [c] else [])"
  by (simp add: gpios_put_def call_def)

lemma irq_call: "irq (snd (call k c s)) = irq s"
  by (simp add: call_def)

lemma gpios_put_get: "gpios_put (snd (gpiod_get_optional k nm s)) = gpios_put s" "irq (snd (gpiod_get_optional k nm s)) = irq s"
  by (simp_all add: gpiod_get_optional_def case_prod_unfold gpios_put_call irq_call)

lemma gpios_put_fields [simp]:
  "gpios_put (s\<lparr>irq := i\<rparr>) = gpios_put s" "gpios_put (s\<lparr>rst_gpio := g\<rparr>) = gpios_put s" "gpios_put (s\<lparr>irq_gpio := g\<rparr>) = gpios_put s"
  "gpios_put (s\<lparr>current_config := c\<rparr>) = gpios_put s"
  by (simp_all add: gpios_put_def)

lemma parse_pins_puts:
  "gpios_put (snd (spi_parse_pins k s)) = gpios_put s @
    (if irq (snd (spi_parse_pins k s)) < 0 then [Gpiod_Put ''reset'', Gpiod_Put ''interrupt''] else [])"
  by (simp add: spi_parse_pins_def spi_bus_init_def case_prod_unfold Let_def gpios_put_call irq_call)

lemma parse_dt_puts:
  assumes "0 \<le> irq s"
  shows "gpios_put (snd (spi_parse_dt k s)) = gpios_put s @
    (if irq (snd (spi_parse_dt k s)) < 0 then [Gpiod_Put ''reset'', Gpiod_Put ''interrupt''] else [])"
  using assms
  by (simp add: spi_parse_dt_def case_prod_unfold Let_def gpios_put_call gpios_put_get irq_call parse_pins_puts split: gpio_ptr.split)

text \<open>When the device tree cannot be read, probing fails with that error, destroys the mutex and frees by hand the structure
  that the device manages, which is then freed twice. The gpios that it got are put exactly when it was the
  interrupt that failed; in the other cases they stay taken.\<close>

theorem spi_probe_dt_failure:
  assumes "0 \<le> rc (env k [] Devm_Kzalloc)" "0 \<le> rc (env k [Devm_Kzalloc] Devm_Regmap_Init)"
    and "spi_parse_dt k (kzalloc_adsd3500 [Devm_Kzalloc, Devm_Regmap_Init, Mutex_Init]) = (ret, u)" "ret < 0"
  shows "\<exists>v. spi_probe k fw_load = Ret (Some (ret, v)) \<and> calls v = calls u @ [Mutex_Destroy, Kfree] \<and>
    filter gpio_put (calls v) = (if irq v < 0 then [Gpiod_Put ''reset'', Gpiod_Put ''interrupt''] else [])"
proof -
  let ?s = "kzalloc_adsd3500 [Devm_Kzalloc, Devm_Regmap_Init, Mutex_Init]"
  let ?v = "snd (call k Kfree (snd (call k Mutex_Destroy u)))"
  have s: "0 \<le> irq ?s" "gpios_put ?s = []" by (simp_all add: kzalloc_adsd3500_def gpios_put_def)
  have z: "kzalloc_adsd3500 cs\<lparr>calls := ds\<rparr> = kzalloc_adsd3500 ds" "calls (kzalloc_adsd3500 cs) = cs" for cs ds
    by (simp_all add: kzalloc_adsd3500_def)
  have "spi_probe k fw_load = Ret (Some (ret, ?v))"
    using assms by (simp add: spi_probe_def call_def z)
  moreover have "calls ?v = calls u @ [Mutex_Destroy, Kfree]" "irq ?v = irq u" by (simp_all add: call_def)
  moreover have "gpios_put u = (if irq u < 0 then [Gpiod_Put ''reset'', Gpiod_Put ''interrupt''] else [])"
    using parse_dt_puts [OF s(1), of k] unfolding assms(3) s(2) by simp
  ultimately show ?thesis by (intro exI [of _ ?v]) (simp add: gpios_put_def)
qed

definition no_pins_env :: "(call, resp) env" where
  "no_pins_env h c = \<lparr>rc = (if c = Devm_Pinctrl_Get then -19 else 7), rval = 1, rdata = []\<rparr>"

theorem spi_probe_dt_failure_witness:
  "\<exists>v. spi_probe (eager_kernel no_pins_env) False = Ret (Some (-19, v)) \<and> filter gpio_put (calls v) = []"
proof -
  let ?k = "eager_kernel no_pins_env" and ?s = "kzalloc_adsd3500 [Devm_Kzalloc, Devm_Regmap_Init, Mutex_Init]"
  have p: "fst (spi_parse_dt ?k ?s) = -19" "irq (snd (spi_parse_dt ?k ?s)) = 7"
    by (simp_all add: spi_parse_dt_def spi_parse_pins_def gpiod_get_optional_def call_def no_pins_env_def)
  have e: "0 \<le> rc (env ?k [] Devm_Kzalloc)" "0 \<le> rc (env ?k [Devm_Kzalloc] Devm_Regmap_Init)" by (simp_all add: no_pins_env_def)
  obtain u where u: "spi_parse_dt ?k ?s = (-19, u)" "irq u = 7" using p by (cases "spi_parse_dt ?k ?s") simp
  obtain v where v: "spi_probe ?k False = Ret (Some (-19, v))" "calls v = calls u @ [Mutex_Destroy, Kfree]"
    "filter gpio_put (calls v) = (if irq v < 0 then [Gpiod_Put ''reset'', Gpiod_Put ''interrupt''] else [])"
    using spi_probe_dt_failure [OF e u(1), of False] by auto
  have "spi_probe ?k False = Ret (Some (-19, snd (call ?k Kfree (snd (call ?k Mutex_Destroy u)))))"
    using u(1) by (simp add: spi_probe_def call_def no_pins_env_def kzalloc_adsd3500_def)
  then have "irq v = 7" using v(1) u(2) by (simp add: irq_call)
  then show ?thesis using v by simp
qed

end
