(* ===== verification/Adsd3100_Driver.thy ===== *)
theory Adsd3100_Driver
  imports Adsd3500_Facts Bytes
begin

text \<open>
  The driver of the ADSD3100, an imager that is attached to an SPI bus without a processor of its own,
  \<^verbatim>\<open>drivers/adsd3100/nxp/src/adsd3100.c\<close>: its registers, power, controls, formats, streaming, firmware,
  probe and remove.

  The types of V4L2 and the calls that both drivers make are those of \<open>Adsd3500_Driver\<close>. The frame sync is a
  PWM signal. The mutex is as there, with \<open>None\<close> for waiting forever; \<open>Fault\<close> is an access outside of memory
  or a division by zero.
\<close>

section \<open>Tables\<close>

record adsd3100_mode_info =
  im_width :: u32
  im_height :: u32
  im_pixel_rate :: u32
  im_link_freq_idx :: u32

definition adsd3100_mode_info_data :: "adsd3100_mode_info list" where
  "adsd3100_mode_info_data =
    [\<lparr>im_width = 3840, im_height = 216, im_pixel_rate = 488000000, im_link_freq_idx = 0\<rparr>,
     \<lparr>im_width = 4096, im_height = 64, im_pixel_rate = 488000000, im_link_freq_idx = 1\<rparr>,
     \<lparr>im_width = 4096, im_height = 256, im_pixel_rate = 488000000, im_link_freq_idx = 2\<rparr>,
     \<lparr>im_width = 4096, im_height = 640, im_pixel_rate = 488000000, im_link_freq_idx = 3\<rparr>,
     \<lparr>im_width = 4096, im_height = 2304, im_pixel_rate = 488000000, im_link_freq_idx = 4\<rparr>,
     \<lparr>im_width = 4096, im_height = 2560, im_pixel_rate = 488000000, im_link_freq_idx = 5\<rparr>]"

definition adsd3100_link_freq_tbl :: "int list" where
  "adsd3100_link_freq_tbl = [732000000, 732000000, 732000000, 732000000, 732000000, 732000000]"

text \<open>Pairs of a register and a value.\<close>

definition adsd3100_powerup_setting :: "(u32 \<times> u32) list" where
  "adsd3100_powerup_setting =
    [(0x0000, 0x1d29), (0x0002, 0x43d1), (0x0000, 0x1d25), (0x0002, 0x0000), (0x0000, 0x1c99), (0x0002, 0x0069),
     (0x0002, 0x0060), (0x0002, 0x0061), (0x0002, 0x0307), (0x0002, 0x0069), (0x0002, 0x0105), (0x0002, 0x0000),
     (0x0002, 0x0069), (0x0002, 0x0060), (0x0002, 0x0061), (0x0002, 0x0307), (0x0002, 0x0000), (0x0002, 0x0000),
     (0x0002, 0x0000), (0x0002, 0x0303), (0x0002, 0x0069), (0x0002, 0x0060), (0x0002, 0x0061), (0x0002, 0x0307),
     (0x0002, 0x0060), (0x0002, 0x0059), (0x0002, 0x0059), (0x0002, 0x0301), (0x0002, 0x0000), (0x0002, 0x006f),
     (0x0002, 0x0105), (0x0002, 0x006e), (0x0002, 0x0067), (0x0002, 0x0063), (0x0002, 0x0301), (0x0002, 0x0068),
     (0x0002, 0x006e), (0x0002, 0x0205), (0x0002, 0x646b), (0x0002, 0x0021), (0x0172, 0x0a0a), (0x0132, 0x0047),
     (0x0126, 0x0020), (0x0132, 0x0088), (0x0126, 0x0001), (0x0132, 0x001d), (0x0126, 0x0008), (0x0132, 0x008b),
     (0x0126, 0x0010), (0x0132, 0x0075), (0x0126, 0x0040), (0x0246, 0xc1fa), (0x0102, 0x019e), (0x0104, 0x009a),
     (0x012e, 0x060a), (0x0130, 0x1f10), (0x0520, 0x1a00), (0x0522, 0x1627), (0x0524, 0x1321), (0x0526, 0x0a8a)]"

section \<open>State\<close>

text \<open>A call of the kernel that the other driver makes too, or one of this driver alone.\<close>

datatype imager_call =
    Kernel call
  | Spi_Write_Then_Read "u8 list" nat
  | Msleep_Interruptible nat
  | Bulk_Write u32 "u16 list"
  | Bulk_Read u32 nat
  | Multi_Reg_Write "(u32 \<times> u32) list"
  | Pwm_Enable
  | Pwm_Disable
  | Pwm_Init_State
  | Pwm_Set_Relative_Duty_Cycle nat nat
  | Pwm_Apply_State int
  | Pwm_Get_Period
  | Devm_Pwm_Get
  | Gpiod_Get string
  | Ctrl_Modify_Range u32 int
  | Devm_Kcalloc nat
  | Spi_Subdev_Init

text \<open>A bulk read answers words. \<open>Pwm_Init_State\<close> and \<open>Pwm_Get_Period\<close> answer the period, in nanoseconds.\<close>

record imager_resp = resp +
  rwords :: "u16 list"

record v4l2_ctrl16 =
  c16_id :: u32
  c16_val :: int
  c16_new :: "u16 list"

record adsd3100 =
  im_fmt :: v4l2_mbus_framefmt
  im_crop :: v4l2_rect
  im_current_mode :: "adsd3100_mode_info option"
  im_vals :: "u32 \<Rightarrow> int"
  im_locked :: bool
  im_streaming :: bool
  fw_regs_count :: nat
  fw_regs :: "(u32 \<times> u32) list"
  curr_operating_mode :: u8
  im_fw :: "u8 list option"
  im_calls :: "imager_call list"

text \<open>
  What is outside of the driver, as \<open>kernel\<close> is for the other one; \<open>im_stack\<close> is what a variable on the
  stack holds before it is written, after a history of calls.
\<close>

record imager_kernel =
  im_env :: "(imager_call, imager_resp) env"
  im_stack :: "imager_call list \<Rightarrow> u32"
  im_find_nearest :: "adsd3100_mode_info list \<Rightarrow> u32 \<Rightarrow> u32 \<Rightarrow> nat"
  im_ctrl_core :: "(v4l2_ctrl16 \<Rightarrow> adsd3100 \<Rightarrow> ((int \<times> v4l2_ctrl16) \<times> adsd3100) mem) \<Rightarrow> u32 \<Rightarrow> int \<Rightarrow>
                   adsd3100 \<Rightarrow> (int \<times> adsd3100) mem"
  im_pm_core :: "(adsd3100 \<Rightarrow> int \<times> adsd3100) \<Rightarrow> adsd3100 \<Rightarrow> int \<times> adsd3100"

definition icall :: "imager_kernel \<Rightarrow> imager_call \<Rightarrow> adsd3100 \<Rightarrow> imager_resp \<times> adsd3100" where
  "icall k c s = (im_env k (im_calls s) c, s\<lparr>im_calls := im_calls s @ [c]\<rparr>)"

abbreviation made :: "imager_kernel \<Rightarrow> imager_call \<Rightarrow> adsd3100 \<Rightarrow> adsd3100" where
  "made k c s \<equiv> snd (icall k c s)"

section \<open>Registers\<close>

text \<open>The callbacks of the register map, which are handed bytes in the order of the bus.\<close>

definition adsd3100_regmap_write :: "imager_kernel \<Rightarrow> u8 list \<Rightarrow> adsd3100 \<Rightarrow> int \<times> adsd3100" where
  "adsd3100_regmap_write k data s = (case icall k (Kernel (Spi_Write data)) s of (r, s) \<Rightarrow> (rc r, s))"

text \<open>The first word of the answer is dropped. Its status is not looked at: the buffer, whose content is
  what the allocation answers, is written over with what was received.\<close>

definition adsd3100_regmap_read ::
  "imager_kernel \<Rightarrow> u8 list \<Rightarrow> nat \<Rightarrow> u8 list \<Rightarrow> adsd3100 \<Rightarrow> int \<times> u8 list \<times> adsd3100" where
  "adsd3100_regmap_read k reg val_size val s =
     (case icall k (Kernel (Kmalloc (val_size + 2))) s of (m, s) \<Rightarrow>
        if rc m < 0 then (- ENOMEM, val, s)
        else case icall k (Spi_Write_Then_Read reg (val_size + 2)) s of (r, s) \<Rightarrow>
          let rx_buf = take (val_size + 2) (rdata r) @ drop (length (take (val_size + 2) (rdata r))) (rdata m);
              val = take val_size (drop 2 rx_buf) @ drop val_size val
          in (0, val, made k (Kernel Kfree) s))"

definition adsd3100_regmap_accessible_reg :: "u32 \<Rightarrow> bool" where
  "adsd3100_regmap_accessible_reg reg \<longleftrightarrow>
     (if reg mod 2 \<noteq> 0 then False
      else if reg \<ge> 0x000 \<and> reg \<le> 0x294 then True
      else if reg \<ge> 0x300 \<and> reg \<le> 0x83e then True
      else reg \<ge> 0x900 \<and> reg \<le> 0xefe)"

text \<open>A read that fails leaves the variable as it was.\<close>

definition read_reg :: "imager_kernel \<Rightarrow> u32 \<Rightarrow> u32 \<Rightarrow> adsd3100 \<Rightarrow> int \<times> u32 \<times> adsd3100" where
  "read_reg k reg old s =
     (case icall k (Kernel (Regmap_Read reg)) s of (r, s) \<Rightarrow> (rc r, if rc r = 0 then rval r else old, s))"

definition write_reg :: "imager_kernel \<Rightarrow> u32 \<Rightarrow> u32 \<Rightarrow> adsd3100 \<Rightarrow> int \<times> adsd3100" where
  "write_reg k reg v s = (case icall k (Kernel (Regmap_Write reg v)) s of (r, s) \<Rightarrow> (rc r, s))"

section \<open>Power\<close>

text \<open>The register is read until it has the value, at most so many times.\<close>

fun await_reg :: "imager_kernel \<Rightarrow> nat \<Rightarrow> nat \<Rightarrow> u32 \<Rightarrow> u32 \<Rightarrow> u32 \<Rightarrow> adsd3100 \<Rightarrow> bool \<times> u32 \<times> adsd3100" where
  "await_reg k 0 ms reg want v s = (False, v, s)"
| "await_reg k (Suc n) ms reg want v s =
     (case read_reg k reg v (made k (Msleep_Interruptible ms) s) of (_, v, s) \<Rightarrow>
        if v = want then (True, v, s) else await_reg k n ms reg want v s)"

definition adsd3100_power_on :: "imager_kernel \<Rightarrow> adsd3100 \<Rightarrow> int \<times> adsd3100" where
  "adsd3100_power_on k s =
     (let v = im_stack k (im_calls s); (ret, s) = write_reg k 0xC 0xC5 s in
      case await_reg k 10 15 0x256 0x2 v s of (up, v, s) \<Rightarrow>
        if up then (0, s)
        else (case read_reg k 0x32 v s of (_, v, s) \<Rightarrow> (- ETIME, s)))"

definition adsd3100_power_off :: "imager_kernel \<Rightarrow> adsd3100 \<Rightarrow> int \<times> adsd3100" where
  "adsd3100_power_off k s =
     (if \<not> im_streaming s then (0, s)
      else let v = im_stack k (im_calls s); (ret, s) = write_reg k 0xC 0x2 s in
        case await_reg k 5 100 0xC 0x0 v s of (down, v, s) \<Rightarrow>
          if down then (0, s)
          else (case read_reg k 0x32 v (made k Pwm_Disable s) of (_, v, s) \<Rightarrow> (- ETIME, s)))"

definition imager_get_sync :: "imager_kernel \<Rightarrow> adsd3100 \<Rightarrow> int \<times> adsd3100" where
  "imager_get_sync k s = im_pm_core k (adsd3100_power_on k) (made k (Kernel Pm_Runtime_Get_Sync) s)"

section \<open>Registers for debugging\<close>

definition adsd3100_g_register ::
  "imager_kernel \<Rightarrow> v4l2_dbg_register \<Rightarrow> adsd3100 \<Rightarrow> int \<times> v4l2_dbg_register \<times> adsd3100" where
  "adsd3100_g_register k reg s =
     (case read_reg k (ucast (dbg_reg reg)) (im_stack k (im_calls s)) s of (r, v, s) \<Rightarrow>
        (r, reg\<lparr>dbg_size := 2, dbg_val := ucast v\<rparr>, s))"

definition adsd3100_s_register :: "imager_kernel \<Rightarrow> v4l2_dbg_register \<Rightarrow> adsd3100 \<Rightarrow> int \<times> adsd3100" where
  "adsd3100_s_register k reg s = write_reg k (ucast (dbg_reg reg)) (ucast (dbg_val reg)) s"

definition adsd3100_s_power :: "int \<Rightarrow> adsd3100 \<Rightarrow> int \<times> adsd3100" where
  "adsd3100_s_power on s = (0, s)"

section \<open>Controls\<close>

abbreviation V4L2_CID_ADSD3100_OPERATING_MODE :: u32 where "V4L2_CID_ADSD3100_OPERATING_MODE \<equiv> 0x9819f0"
abbreviation V4L2_CID_ADSD3100_CHIP_CONFIG :: u32 where "V4L2_CID_ADSD3100_CHIP_CONFIG \<equiv> 0x9819f1"

text \<open>
  The payload of the chip configuration is a flag for a burst, the number of values, the values, and the
  registers: the first of a burst, or one for every value. The registers are found where the number says.
\<close>

definition put_words :: "nat \<Rightarrow> u16 list \<Rightarrow> u16 list \<Rightarrow> u16 list" where
  "put_words i ws p = take i p @ ws @ drop (i + length ws) p"

fun bulk_each :: "imager_kernel \<Rightarrow> bool \<Rightarrow> nat \<Rightarrow> nat list \<Rightarrow> u16 list \<Rightarrow> adsd3100 \<Rightarrow> (u16 list \<times> adsd3100) mem" where
  "bulk_each k wr val_nr [] p s = Ret (p, s)"
| "bulk_each k wr val_nr (i # is) p s =
     (if length p \<le> 2 + val_nr + i then Fault
      else let reg = ucast (p ! (2 + val_nr + i)) in
        if wr then bulk_each k wr val_nr is p (made k (Bulk_Write reg [p ! (2 + i)]) s)
        else (case icall k (Bulk_Read reg 1) s of (r, s) \<Rightarrow>
          bulk_each k wr val_nr is (put_words (2 + i) (take 1 (rwords r)) p) s))"

definition adsd3100_chip_config ::
  "imager_kernel \<Rightarrow> v4l2_ctrl16 \<Rightarrow> adsd3100 \<Rightarrow> ((int \<times> v4l2_ctrl16) \<times> adsd3100) mem" where
  "adsd3100_chip_config k ctrl s =
     (let p = c16_new ctrl; burst = (p ! 0 \<noteq> 0); val_nr = unat (p ! 1) in
      if length p \<le> 2 + val_nr then Fault
      else let reg = p ! (2 + val_nr); wr = (reg AND 0x8000 \<noteq> 0) in
        if \<not> burst
        then (case bulk_each k wr val_nr [0..<val_nr] p s of
            Fault \<Rightarrow> Fault
          | Ret (p, s) \<Rightarrow> Ret ((0, ctrl\<lparr>c16_new := p\<rparr>), s))
        else if wr then Ret ((0, ctrl), made k (Bulk_Write (ucast reg) (take val_nr (drop 2 p))) s)
        else (case icall k (Bulk_Read (ucast reg) val_nr) s of (r, s) \<Rightarrow>
          Ret ((0, ctrl\<lparr>c16_new := put_words 2 (take val_nr (rwords r)) p\<rparr>), s)))"

definition adsd3100_s_ctrl ::
  "imager_kernel \<Rightarrow> v4l2_ctrl16 \<Rightarrow> adsd3100 \<Rightarrow> ((int \<times> v4l2_ctrl16) \<times> adsd3100) mem" where
  "adsd3100_s_ctrl k ctrl s =
     (if c16_id ctrl = V4L2_CID_ADSD3100_OPERATING_MODE
      then Ret ((0, ctrl), s\<lparr>curr_operating_mode := word_of_int (c16_val ctrl)\<rparr>)
      else if c16_id ctrl = V4L2_CID_ADSD3100_CHIP_CONFIG then adsd3100_chip_config k ctrl s
      else if c16_id ctrl \<in> {V4L2_CID_PIXEL_RATE, V4L2_CID_LINK_FREQ} then Ret ((0, ctrl), s)
      else Ret ((- EINVAL, ctrl), s))"

definition imager_set_ctrl :: "imager_kernel \<Rightarrow> u32 \<Rightarrow> int \<Rightarrow> adsd3100 \<Rightarrow> (int \<times> adsd3100) mem" where
  "imager_set_ctrl k cid v s = im_ctrl_core k (adsd3100_s_ctrl k) cid v s"

section \<open>Formats\<close>

definition adsd3100_enum_mbus_code ::
  "v4l2_subdev_mbus_code_enum \<Rightarrow> int + v4l2_subdev_mbus_code_enum" where
  "adsd3100_enum_mbus_code c =
     (if ce_index c > 0 then Inl (- EINVAL) else Inr (c\<lparr>ce_code := MEDIA_BUS_FMT_SBGGR12_1X12\<rparr>))"

definition adsd3100_enum_frame_size ::
  "v4l2_subdev_frame_size_enum \<Rightarrow> int + v4l2_subdev_frame_size_enum" where
  "adsd3100_enum_frame_size fse =
     (if fse_code fse \<noteq> MEDIA_BUS_FMT_SBGGR12_1X12 then Inl (- EINVAL)
      else if unat (fse_index fse) \<ge> length adsd3100_mode_info_data then Inl (- EINVAL)
      else let m = adsd3100_mode_info_data ! unat (fse_index fse) in
        Inr (fse\<lparr>min_width := im_width m, max_width := im_width m,
                 min_height := im_height m, max_height := im_height m\<rparr>))"

definition adsd3100_get_pad_format :: "u32 \<Rightarrow> u32 \<Rightarrow> int + pad_ptr" where
  "adsd3100_get_pad_format pad which =
     (if which = V4L2_SUBDEV_FORMAT_TRY then Inr (TRY_PAD pad)
      else if which = V4L2_SUBDEV_FORMAT_ACTIVE then Inr ACTIVE_PAD
      else Inl (- EINVAL))"

definition adsd3100_get_pad_crop :: "u32 \<Rightarrow> u32 \<Rightarrow> int + pad_ptr" where
  "adsd3100_get_pad_crop pad which =
     (if which = V4L2_SUBDEV_FORMAT_TRY then Inr (TRY_PAD pad)
      else if which = V4L2_SUBDEV_FORMAT_ACTIVE then Inr ACTIVE_PAD
      else Inl (- EINVAL))"

fun im_read_fmt :: "pad_ptr \<Rightarrow> pad_config \<Rightarrow> adsd3100 \<Rightarrow> v4l2_mbus_framefmt" where
  "im_read_fmt (TRY_PAD p) cfg s = try_fmt (cfg p)"
| "im_read_fmt ACTIVE_PAD cfg s = im_fmt s"

fun im_write_fmt :: "pad_ptr \<Rightarrow> v4l2_mbus_framefmt \<Rightarrow> pad_config \<Rightarrow> adsd3100 \<Rightarrow> pad_config \<times> adsd3100" where
  "im_write_fmt (TRY_PAD p) f cfg s = (cfg(p := (cfg p)\<lparr>try_fmt := f\<rparr>), s)"
| "im_write_fmt ACTIVE_PAD f cfg s = (cfg, s\<lparr>im_fmt := f\<rparr>)"

fun im_read_crop :: "pad_ptr \<Rightarrow> pad_config \<Rightarrow> adsd3100 \<Rightarrow> v4l2_rect" where
  "im_read_crop (TRY_PAD p) cfg s = try_crop (cfg p)"
| "im_read_crop ACTIVE_PAD cfg s = im_crop s"

fun im_write_crop :: "pad_ptr \<Rightarrow> v4l2_rect \<Rightarrow> pad_config \<Rightarrow> adsd3100 \<Rightarrow> pad_config \<times> adsd3100" where
  "im_write_crop (TRY_PAD p) r cfg s = (cfg(p := (cfg p)\<lparr>try_crop := r\<rparr>), s)"
| "im_write_crop ACTIVE_PAD r cfg s = (cfg, s\<lparr>im_crop := r\<rparr>)"

definition adsd3100_get_format ::
  "pad_config \<Rightarrow> v4l2_subdev_format \<Rightarrow> adsd3100 \<Rightarrow> int \<times> v4l2_subdev_format" where
  "adsd3100_get_format cfg format s =
     (case adsd3100_get_pad_format (sf_pad format) (sf_which format) of
        Inl e \<Rightarrow> (e, format)
      | Inr pad_format \<Rightarrow> (0, format\<lparr>sf_format := im_read_fmt pad_format cfg s\<rparr>))"

definition imager_lock :: "adsd3100 \<Rightarrow> adsd3100 option" where
  "imager_lock s = (if im_locked s then None else Some (s\<lparr>im_locked := True\<rparr>))"

definition imager_unlock :: "adsd3100 \<Rightarrow> adsd3100" where
  "imager_unlock s = s\<lparr>im_locked := False\<rparr>"

text \<open>The part of \<^verbatim>\<open>adsd3100_set_format\<close> for an active format.\<close>

definition imager_active_mode :: "imager_kernel \<Rightarrow> adsd3100_mode_info \<Rightarrow> adsd3100 \<Rightarrow> (int \<times> adsd3100) mem" where
  "imager_active_mode k new_mode s =
     (case imager_set_ctrl k V4L2_CID_PIXEL_RATE (uint (im_pixel_rate new_mode)) s of
        Fault \<Rightarrow> Fault
      | Ret (ret, s) \<Rightarrow>
        if ret < 0 then Ret (ret, s)
        else (case imager_set_ctrl k V4L2_CID_LINK_FREQ (sint (im_link_freq_idx new_mode)) s of
            Fault \<Rightarrow> Fault
          | Ret (ret, s) \<Rightarrow>
            if ret < 0 then Ret (ret, s) else Ret (0, s\<lparr>im_current_mode := Some new_mode\<rparr>)))"

definition adsd3100_set_format ::
  "imager_kernel \<Rightarrow> pad_config \<Rightarrow> v4l2_subdev_format \<Rightarrow> adsd3100 \<Rightarrow>
   (int \<times> pad_config \<times> v4l2_subdev_format \<times> adsd3100) mem option" where
  "adsd3100_set_format k cfg format s =
     (case imager_lock s of
        None \<Rightarrow> None
      | Some s \<Rightarrow>
        case adsd3100_get_pad_crop (sf_pad format) (sf_which format) of
          Inl e \<Rightarrow> Some (Ret (e, cfg, format, s))
        | Inr cp \<Rightarrow>
          (let new_mode = adsd3100_mode_info_data !
                 im_find_nearest k adsd3100_mode_info_data
                   (ff_width (sf_format format)) (ff_height (sf_format format));
               (cfg, s) = im_write_crop cp
                 ((im_read_crop cp cfg s)\<lparr>r_width := im_width new_mode, r_height := im_height new_mode\<rparr>) cfg s
           in case (if sf_which format = V4L2_SUBDEV_FORMAT_ACTIVE
                    then imager_active_mode k new_mode s else Ret (0, s)) of
                Fault \<Rightarrow> Some Fault
              | Ret (ret, s) \<Rightarrow>
                if ret < 0 then Some (Ret (ret, cfg, format, s))
                else case adsd3100_get_pad_format (sf_pad format) (sf_which format) of
                  Inl e \<Rightarrow> Some (Ret (e, cfg, format, s))
                | Inr fp \<Rightarrow>
                  (let framefmt = (im_read_fmt fp cfg s)
                         \<lparr>ff_width := r_width (im_read_crop cp cfg s),
                          ff_height := r_height (im_read_crop cp cfg s),
                          ff_code := MEDIA_BUS_FMT_SBGGR12_1X12,
                          ff_field := V4L2_FIELD_NONE, ff_colorspace := V4L2_COLORSPACE_RAW\<rparr>;
                       (cfg, s) = im_write_fmt fp framefmt cfg s
                   in Some (Ret (0, cfg, format\<lparr>sf_format := framefmt\<rparr>, imager_unlock s)))))"

text \<open>What setting the format answers is not looked at.\<close>

definition adsd3100_entity_init_cfg ::
  "imager_kernel \<Rightarrow> bool \<Rightarrow> pad_config \<Rightarrow> adsd3100 \<Rightarrow> (int \<times> pad_config \<times> adsd3100) mem option" where
  "adsd3100_entity_init_cfg k have_cfg cfg s =
     (let m = adsd3100_mode_info_data ! 0;
          f = \<lparr>sf_which = (if have_cfg then V4L2_SUBDEV_FORMAT_TRY else V4L2_SUBDEV_FORMAT_ACTIVE),
                 sf_pad = 0,
                 sf_format = zero_fmt\<lparr>ff_width := im_width m, ff_height := im_height m\<rparr>\<rparr>
      in case adsd3100_set_format k cfg f s of
           None \<Rightarrow> None
         | Some Fault \<Rightarrow> Some Fault
         | Some (Ret (ret, cfg, f, s)) \<Rightarrow> Some (Ret (0, cfg, s)))"

definition adsd3100_get_selection ::
  "pad_config \<Rightarrow> v4l2_subdev_selection \<Rightarrow> adsd3100 \<Rightarrow> int \<times> v4l2_subdev_selection" where
  "adsd3100_get_selection cfg sel s =
     (if sel_target sel \<noteq> V4L2_SEL_TGT_CROP then (- EINVAL, sel)
      else case adsd3100_get_pad_crop (sel_pad sel) (sel_which sel) of
          Inl e \<Rightarrow> (e, sel)
        | Inr cp \<Rightarrow> (0, sel\<lparr>sel_r := im_read_crop cp cfg s\<rparr>))"

section \<open>Streaming\<close>

definition adsd3100_start_streaming :: "imager_kernel \<Rightarrow> adsd3100 \<Rightarrow> int \<times> adsd3100" where
  "adsd3100_start_streaming k s =
     (case read_reg k 0x210 (im_stack k (im_calls s)) s of (_, v, s) \<Rightarrow>
        let s = (if v \<noteq> ucast (curr_operating_mode s)
                 then let (ret, s) = write_reg k 0x200 (ucast (curr_operating_mode s)) s
                      in snd (write_reg k 0x27e (if curr_operating_mode s = 1 then 0x8006 else 0x0) s)
                 else s)
        in case icall k Pwm_Enable s of (r, s) \<Rightarrow> (rc r, s\<lparr>im_streaming := True\<rparr>))"

definition adsd3100_stop_streaming :: "imager_kernel \<Rightarrow> adsd3100 \<Rightarrow> int \<times> adsd3100" where
  "adsd3100_stop_streaming k s = (0, (made k Pwm_Disable s)\<lparr>im_streaming := False\<rparr>)"

definition adsd3100_s_stream :: "imager_kernel \<Rightarrow> int \<Rightarrow> adsd3100 \<Rightarrow> (int \<times> adsd3100) option" where
  "adsd3100_s_stream k enable s =
     (case imager_lock s of
        None \<Rightarrow> None
      | Some s \<Rightarrow>
        if (if im_streaming s then 1 else 0) = enable then Some (0, imager_unlock s)
        else if enable \<noteq> 0
        then (case imager_get_sync k s of (ret, s) \<Rightarrow>
            if ret < 0 then Some (ret, imager_unlock (made k (Kernel Pm_Runtime_Put_Noidle) s))
            else (case adsd3100_start_streaming k s of (ret, s) \<Rightarrow>
              if ret \<noteq> 0 then Some (ret, imager_unlock (made k (Kernel Pm_Runtime_Put) s))
              else Some (ret, imager_unlock s)))
        else (case adsd3100_stop_streaming k s of (_, s) \<Rightarrow>
            Some (0, imager_unlock (made k (Kernel Pm_Runtime_Put) s))))"

section \<open>Frame interval\<close>

abbreviation NSEC_PER_SEC :: int where "NSEC_PER_SEC \<equiv> 1000000000"

definition adsd3100_g_frame_interval :: "imager_kernel \<Rightarrow> adsd3100 \<Rightarrow> (int \<times> v4l2_fract \<times> adsd3100) mem" where
  "adsd3100_g_frame_interval k s =
     (case icall k Pwm_Get_Period (made k Pwm_Init_State s) of (period, s) \<Rightarrow>
        if rc period = 0 then Fault
        else Ret (0, \<lparr>numerator = 1, denominator = word_of_int (NSEC_PER_SEC div rc period)\<rparr>, s))"

text \<open>The product is taken in 64 bits, which hold it.\<close>

definition adsd3100_s_frame_interval ::
  "imager_kernel \<Rightarrow> v4l2_fract \<Rightarrow> adsd3100 \<Rightarrow> (int \<times> adsd3100) mem option" where
  "adsd3100_s_frame_interval k fi s =
     (case imager_lock s of
        None \<Rightarrow> None
      | Some s \<Rightarrow>
        let s = made k Pwm_Init_State s; n = uint (numerator fi) * NSEC_PER_SEC; d = uint (denominator fi) in
        if d = 0 then Some Fault
        else case icall k (Pwm_Apply_State ((n + d - 1) div d)) (made k (Pwm_Set_Relative_Duty_Cycle 50 100) s) of
          (r, s) \<Rightarrow> Some (Ret (rc r, imager_unlock s)))"

definition adsd3100_link_setup :: "u32 \<Rightarrow> adsd3100 \<Rightarrow> int \<times> adsd3100" where
  "adsd3100_link_setup flags s = (0, s)"

section \<open>Firmware\<close>

definition ADI_MAGIC :: "u8 list" where
  "ADI_MAGIC = [0x41, 0x44, 0x44, 0x49, 0x43, 0x4D, 0x4F, 0x53]"

text \<open>Pairs of 16-bit words, read one after the other.\<close>

fun read_regs :: "u8 list \<Rightarrow> nat \<Rightarrow> nat \<Rightarrow> (u32 \<times> u32) list mem" where
  "read_regs data i 0 = Ret []"
| "read_regs data i (Suc n) =
     (if length data < i + 4 then Fault
      else case read_regs data (i + 4) n of
          Fault \<Rightarrow> Fault
        | Ret rs \<Rightarrow> Ret ((ucast (get16 data i), ucast (get16 data (i + 2))) # rs))"

text \<open>The minimum of the operating mode is 0, as it was created with.\<close>

definition adsd3100_g_sensor_firmware :: "imager_kernel \<Rightarrow> adsd3100 \<Rightarrow> (int \<times> adsd3100) mem" where
  "adsd3100_g_sensor_firmware k s =
     (case im_fw s of
        None \<Rightarrow> Fault
      | Some data \<Rightarrow>
        if length data < 16 \<or> length data \<ge> 0x4000000 then Ret (- EINVAL, s)
        else if take 8 data \<noteq> ADI_MAGIC then Ret (- EINVAL, s)
        else let modes_nr = get32 data 8 in
          if modes_nr = 0 then Ret (- EINVAL, s)
          else let s = made k (Ctrl_Modify_Range V4L2_CID_ADSD3100_OPERATING_MODE (uint (modes_nr - 1))) s;
                   reg_nr = unat (get32 data 12) div 2 div 2;
                   (m, s) = icall k (Devm_Kcalloc reg_nr) (s\<lparr>fw_regs_count := reg_nr\<rparr>) in
            if rc m < 0 then Ret (- ENOMEM, s)
            else case read_regs data 16 reg_nr of
                Fault \<Rightarrow> Fault
              | Ret rs \<Rightarrow> Ret (0, s\<lparr>fw_regs := rs\<rparr>))"

text \<open>The two flags are parameters of the module. The firmware is released on every path, also where
  none was requested.\<close>

definition load_calibration :: "imager_kernel \<Rightarrow> bool \<Rightarrow> adsd3100 \<Rightarrow> adsd3100" where
  "load_calibration k calib_load s =
     (if calib_load then made k (Multi_Reg_Write adsd3100_powerup_setting) s else s)"

definition adsd3100_firmware_load :: "imager_kernel \<Rightarrow> bool \<Rightarrow> bool \<Rightarrow> adsd3100 \<Rightarrow> (int \<times> adsd3100) mem" where
  "adsd3100_firmware_load k fw_load calib_load s =
     (if fw_load
      then (case icall k (Kernel Request_Firmware) s of (r, s) \<Rightarrow>
        if rc r < 0 then Ret (rc r, made k (Kernel Release_Firmware) s)
        else case adsd3100_g_sensor_firmware k (s\<lparr>im_fw := Some (rdata r)\<rparr>) of
            Fault \<Rightarrow> Fault
          | Ret (ret, s) \<Rightarrow>
            if ret < 0 then Ret (ret, made k (Kernel Release_Firmware) s)
            else Ret (ret, made k (Kernel Release_Firmware)
              (load_calibration k calib_load (made k (Multi_Reg_Write (fw_regs s)) s))))
      else Ret (0, made k (Kernel Release_Firmware) (load_calibration k calib_load s)))"

section \<open>Probe\<close>

definition adsd3100_spi_bus_init :: "imager_kernel \<Rightarrow> adsd3100 \<Rightarrow> int \<times> adsd3100" where
  "adsd3100_spi_bus_init k s =
     (let v = im_stack k (im_calls s); (r, s) = icall k (Kernel (Pinctrl_Select ''gpio'')) s in
      if rc r < 0 then (rc r, s)
      else let s = made k (Kernel (Gpiod_Set_Reset 1)) s;
               s = made k (Kernel (Msleep 500)) s;
               s = made k (Kernel (Gpiod_Set_Reset 0)) s;
               (r, s) = icall k (Kernel (Pinctrl_Select ''spi'')) s in
        if rc r < 0 then (rc r, s)
        else case read_reg k 0x112 v s of (ret, v, s) \<Rightarrow>
          if ret < 0 then (ret, s) else if v \<noteq> 0x5931 then (- ENXIO, s) else (0, s))"

text \<open>The labels at the end of the probe, each falling into the next.\<close>

definition im_release_gpio :: "imager_kernel \<Rightarrow> adsd3100 \<Rightarrow> adsd3100" where
  "im_release_gpio k s = made k (Kernel (Gpiod_Put ''reset'')) s"

definition im_free_ctrl :: "imager_kernel \<Rightarrow> adsd3100 \<Rightarrow> adsd3100" where
  "im_free_ctrl k s = im_release_gpio k (made k (Kernel Mutex_Destroy) (made k (Kernel Ctrl_Handler_Free) s))"

definition im_free_entity :: "imager_kernel \<Rightarrow> adsd3100 \<Rightarrow> adsd3100" where
  "im_free_entity k s = im_free_ctrl k (made k (Kernel Media_Entity_Cleanup) s)"

definition kzalloc_adsd3100 :: adsd3100 where
  "kzalloc_adsd3100 =
     \<lparr>im_fmt = zero_fmt, im_crop = \<lparr>r_left = 0, r_top = 0, r_width = 0, r_height = 0\<rparr>, im_current_mode = None,
      im_vals = (\<lambda>c. 0), im_locked = False, im_streaming = False, fw_regs_count = 0, fw_regs = [],
      curr_operating_mode = 0, im_fw = None, im_calls = []\<rparr>"

text \<open>Calls of which the first that answers a negative code ends the sequence with it.\<close>

fun im_steps :: "imager_kernel \<Rightarrow> imager_call list \<Rightarrow> adsd3100 \<Rightarrow> int \<times> adsd3100" where
  "im_steps k [] s = (0, s)"
| "im_steps k (c # cs) s = (case icall k c s of (r, s) \<Rightarrow> if rc r < 0 then (rc r, s) else im_steps k cs s)"

text \<open>From the structure to the pins; nothing is undone on these paths.\<close>

definition im_probe_pins :: "imager_kernel \<Rightarrow> adsd3100 \<Rightarrow> int \<times> adsd3100" where
  "im_probe_pins k s =
     (case icall k (Kernel Devm_Kzalloc) s of (r, s) \<Rightarrow>
        if rc r < 0 then (- ENOMEM, s)
        else case icall k (Kernel Devm_Regmap_Init) s of (r, s) \<Rightarrow>
          if rc r < 0 then (rc r, s)
          else case icall k (Kernel Graph_Get_Next_Endpoint) (made k (Kernel Mutex_Init) s) of (r, s) \<Rightarrow>
            if rc r < 0 then (- EINVAL, s)
            else case icall k (Kernel Fwnode_Endpoint_Parse) s of (r, s) \<Rightarrow>
              let s = made k (Kernel Fwnode_Handle_Put) s in
              if rc r < 0 then (rc r, s)
              else im_steps k [Gpiod_Get ''reset'', Kernel Devm_Pinctrl_Get, Kernel (Pinctrl_Lookup ''spi''),
                     Kernel (Pinctrl_Lookup ''gpio'')] s)"

text \<open>The controls start with their default values.\<close>

definition im_new_ctrl :: "imager_kernel \<Rightarrow> u32 \<Rightarrow> int \<Rightarrow> adsd3100 \<Rightarrow> adsd3100" where
  "im_new_ctrl k cid def s =
     (case icall k (Kernel (Ctrl_New cid)) s of (r, s) \<Rightarrow>
        if rc r < 0 then s else s\<lparr>im_vals := (im_vals s)(cid := def)\<rparr>)"

definition im_init_ctrls :: "imager_kernel \<Rightarrow> adsd3100 \<Rightarrow> int \<times> adsd3100" where
  "im_init_ctrls k s =
     (let s = made k (Kernel (Ctrl_Handler_Init 3)) s;
          s = im_new_ctrl k V4L2_CID_PIXEL_RATE 1 s;
          s = im_new_ctrl k V4L2_CID_LINK_FREQ 0 s;
          s = im_new_ctrl k V4L2_CID_ADSD3100_OPERATING_MODE 0 s;
          s = im_new_ctrl k V4L2_CID_ADSD3100_CHIP_CONFIG 0xFF s;
          (error, s) = icall k (Kernel Ctrl_Handler_Error) s
      in (rc error, s))"

text \<open>From the firmware on.\<close>

definition im_probe_register :: "imager_kernel \<Rightarrow> bool \<Rightarrow> bool \<Rightarrow> adsd3100 \<Rightarrow> (int \<times> adsd3100) mem option" where
  "im_probe_register k fw_load calib_load s =
     (case adsd3100_firmware_load k fw_load calib_load s of
        Fault \<Rightarrow> Some Fault
      | Ret (ret, s) \<Rightarrow>
        if ret < 0 then Some (Ret (ret, s))
        else case adsd3100_entity_init_cfg k False no_cfg s of
            None \<Rightarrow> None
          | Some Fault \<Rightarrow> Some Fault
          | Some (Ret (ret, cfg, s)) \<Rightarrow>
            (case icall k (Kernel Async_Register_Subdev) s of (r, s) \<Rightarrow>
              if rc r < 0 then Some (Ret (rc r, im_free_entity k s))
              else let s = made k (Kernel Pm_Runtime_Set_Active) s;
                       s = made k (Kernel Pm_Runtime_Enable) s
                   in Some (Ret (0, made k (Kernel Pm_Runtime_Idle) s))))"

definition adsd3100_probe :: "imager_kernel \<Rightarrow> bool \<Rightarrow> bool \<Rightarrow> (int \<times> adsd3100) mem option" where
  "adsd3100_probe k fw_load calib_load =
     (case im_probe_pins k kzalloc_adsd3100 of (ret, s) \<Rightarrow>
        if ret < 0 then Some (Ret (ret, s))
        else case adsd3100_spi_bus_init k s of (ret, s) \<Rightarrow>
          if ret \<noteq> 0 then Some (Ret (ret, im_release_gpio k s))
          else case icall k Devm_Pwm_Get s of (pwm, s) \<Rightarrow>
            if rc pwm < 0 then Some (Ret (rc pwm, s))
            else case icall k Pwm_Init_State s of (period, s) \<Rightarrow>
              case icall k (Pwm_Apply_State (rc period)) (made k (Pwm_Set_Relative_Duty_Cycle 50 100) s) of (r, s) \<Rightarrow>
                if rc r \<noteq> 0 then Some (Ret (rc r, im_release_gpio k s))
                else case im_init_ctrls k s of (ret, s) \<Rightarrow>
                  if ret \<noteq> 0 then Some (Ret (ret, im_free_ctrl k s))
                  else case icall k (Kernel Media_Entity_Pads_Init) (made k Spi_Subdev_Init s) of (r, s) \<Rightarrow>
                    if rc r < 0 then Some (Ret (rc r, im_free_ctrl k s))
                    else im_probe_register k fw_load calib_load s)"

definition adsd3100_remove :: "imager_kernel \<Rightarrow> adsd3100 \<Rightarrow> int \<times> adsd3100" where
  "adsd3100_remove k s =
     (let s = made k (Kernel Async_Unregister_Subdev) s;
          s = made k (Kernel Media_Entity_Cleanup) s;
          s = made k (Kernel (Gpiod_Put ''reset'')) s;
          s = made k (Kernel Ctrl_Handler_Free) s;
          s = made k (Kernel Mutex_Destroy) s;
          s = made k (Kernel Pm_Runtime_Disable) s;
          (suspended, s) = icall k (Kernel Pm_Runtime_Status_Suspended) s;
          s = (if rval suspended = 0 then snd (adsd3100_power_off k s) else s)
      in (0, made k (Kernel Pm_Runtime_Set_Suspended) s))"

end
