(* ===== verification/Adsd3100_Facts.thy ===== *)
theory Adsd3100_Facts
  imports Adsd3100_Driver
begin

text \<open>
  What the driver of the ADSD3100 guarantees, and where it does not: power over runs of operations, failed
  starts, the firmware image, the payload of the chip configuration, and how a probe ends.
\<close>

section \<open>Assumptions on the kernel\<close>

text \<open>
  As for the other driver: setting a control either leaves the driver alone or calls its handler, and a
  resume answers without the driver or with what its callback answers.
\<close>

definition imager_ctrl_ok :: "imager_kernel \<Rightarrow> bool" where
  "imager_ctrl_ok k \<longleftrightarrow> (\<forall>cb cid v s.
     (\<exists>r. im_ctrl_core k cb cid v s = Ret (r, s)) \<or>
     (\<exists>w p. im_ctrl_core k cb cid v s =
        (case cb \<lparr>c16_id = cid, c16_val = w, c16_new = p\<rparr> s of
           Fault \<Rightarrow> Fault
         | Ret ((r, c), u) \<Rightarrow> Ret (r, if r = 0 then u\<lparr>im_vals := (im_vals u)(cid := w)\<rparr> else u))))"

definition imager_pm_ok :: "imager_kernel \<Rightarrow> bool" where
  "imager_pm_ok k \<longleftrightarrow> (\<forall>cb s. \<exists>r t. im_pm_core k cb s = (r, t) \<and>
     (t = s \<or> (\<exists>e. cb s = (e, t) \<and> (e < 0 \<longrightarrow> r < 0))))"

definition imager_kernel_ok :: "imager_kernel \<Rightarrow> bool" where
  "imager_kernel_ok k \<longleftrightarrow> imager_ctrl_ok k \<and> imager_pm_ok k \<and>
     (\<forall>w h. im_find_nearest k adsd3100_mode_info_data w h < 6)"

text \<open>Kernels that satisfy it: one that sets every control, one that sets none.\<close>

definition setting_ctrl where
  "setting_ctrl cb cid v s =
     (case cb \<lparr>c16_id = cid, c16_val = v, c16_new = []\<rparr> s of
        Fault \<Rightarrow> Fault
      | Ret ((r, c), u) \<Rightarrow> Ret (r, if r = 0 then u\<lparr>im_vals := (im_vals u)(cid := v)\<rparr> else u))"

definition plain_kernel :: "(imager_call, imager_resp) env \<Rightarrow> imager_kernel" where
  "plain_kernel e = \<lparr>im_env = e, im_stack = (\<lambda>h. 0), im_find_nearest = (\<lambda>ms w h. 0), im_ctrl_core = setting_ctrl,
     im_pm_core = (\<lambda>cb s. cb s)\<rparr>"

definition refusing_kernel :: "(imager_call, imager_resp) env \<Rightarrow> imager_kernel" where
  "refusing_kernel e = (plain_kernel e)\<lparr>im_ctrl_core := (\<lambda>cb cid v s. Ret (- EINVAL, s))\<rparr>"

lemma plain_kernel_ok: "imager_kernel_ok (plain_kernel e)"
proof -
  have "imager_ctrl_ok (plain_kernel e)"
    unfolding imager_ctrl_ok_def plain_kernel_def setting_ctrl_def by auto
  moreover have "imager_pm_ok (plain_kernel e)"
    unfolding imager_pm_ok_def plain_kernel_def by (auto intro: prod.exhaust)
  ultimately show ?thesis by (simp add: imager_kernel_ok_def) (simp add: plain_kernel_def)
qed

lemma refusing_kernel_ok: "imager_kernel_ok (refusing_kernel e)"
proof -
  have "imager_pm_ok (plain_kernel e)" using plain_kernel_ok by (simp add: imager_kernel_ok_def)
  then show ?thesis
    by (simp add: imager_kernel_ok_def refusing_kernel_def imager_pm_ok_def imager_ctrl_ok_def)
      (simp add: plain_kernel_def)
qed

lemma kernel_env [simp]:
  "im_env (plain_kernel e) = e" "im_env (refusing_kernel e) = e"
  "im_pm_core (plain_kernel e) = (\<lambda>cb s. cb s)" "im_stack (plain_kernel e) h = 0"
  "im_pm_core (refusing_kernel e) = (\<lambda>cb s. cb s)" "im_stack (refusing_kernel e) h = 0"
  by (simp_all add: plain_kernel_def refusing_kernel_def)

section \<open>Calls that change nothing of note\<close>

fun usage_delta :: "imager_call \<Rightarrow> int" where
  "usage_delta (Kernel c) = pm_delta c"
| "usage_delta _ = 0"

text \<open>The references to the device that were taken and not given back.\<close>

definition usage :: "imager_call list \<Rightarrow> int" where
  "usage cs = sum_list (map usage_delta cs)"

abbreviation power_down :: imager_call where
  "power_down \<equiv> Kernel (Regmap_Write 0xC 0x2)"

definition calm_call :: "imager_call \<Rightarrow> bool" where
  "calm_call c \<longleftrightarrow> usage_delta c = 0 \<and> c \<noteq> power_down"

definition grew :: "adsd3100 \<Rightarrow> adsd3100 \<Rightarrow> bool" where
  "grew s t \<longleftrightarrow> im_streaming t = im_streaming s \<and> (\<exists>cs. im_calls t = im_calls s @ cs \<and> list_all calm_call cs)"

definition calm :: "adsd3100 \<Rightarrow> adsd3100 \<Rightarrow> bool" where
  "calm s t \<longleftrightarrow> grew s t \<and> im_locked t = im_locked s \<and> im_current_mode t = im_current_mode s \<and>
     im_crop t = im_crop s"

lemma usage_simps [simp]:
  "usage [] = 0" "usage (c # cs) = usage_delta c + usage cs" "usage (xs @ ys) = usage xs + usage ys"
  by (simp_all add: usage_def)

lemma usage_calm: "list_all calm_call cs \<Longrightarrow> usage cs = 0"
  by (induction cs) (auto simp: calm_call_def)

lemma grew_refl [simp, intro]: "grew s s"
  by (simp add: grew_def)

lemma grew_trans: "grew s t \<Longrightarrow> grew t u \<Longrightarrow> grew s u"
  by (auto simp: grew_def)

lemma calm_refl [simp, intro]: "calm s s"
  by (simp add: calm_def)

lemma calm_trans: "calm s t \<Longrightarrow> calm t u \<Longrightarrow> calm s u"
  by (auto simp: calm_def intro: grew_trans)

lemma icall_fields [simp]:
  "im_streaming (made k c s) = im_streaming s" "im_locked (made k c s) = im_locked s"
  "im_current_mode (made k c s) = im_current_mode s" "im_calls (made k c s) = im_calls s @ [c]"
  "im_fmt (made k c s) = im_fmt s" "im_crop (made k c s) = im_crop s" "im_fw (made k c s) = im_fw s" "fw_regs (made k c s) = fw_regs s"
  "curr_operating_mode (made k c s) = curr_operating_mode s"
  by (simp_all add: icall_def)

lemma grew_made [simp]: "grew s t \<Longrightarrow> calm_call c \<Longrightarrow> grew s (made k c t)"
  by (auto simp: grew_def)

lemma calm_made [simp]: "calm s t \<Longrightarrow> calm_call c \<Longrightarrow> calm s (made k c t)"
  by (auto simp: calm_def)

lemma calm_icall: "icall k c s = (r, t) \<Longrightarrow> calm_call c \<Longrightarrow> calm s t"
  by (metis calm_made calm_refl snd_conv)

lemma calm_fields [simp]:
  "calm s (t\<lparr>im_vals := a\<rparr>) = calm s t" "calm s (t\<lparr>curr_operating_mode := b\<rparr>) = calm s t"
  "calm s (t\<lparr>fw_regs_count := c\<rparr>) = calm s t" "calm s (t\<lparr>fw_regs := d\<rparr>) = calm s t"
  "calm s (t\<lparr>im_fw := e\<rparr>) = calm s t" "calm (s\<lparr>im_fw := e\<rparr>) t = calm s t" "calm s (t\<lparr>im_fmt := f\<rparr>) = calm s t"
  by (simp_all add: calm_def grew_def)

lemma grew_fields [simp]:
  "grew s (t\<lparr>im_vals := a\<rparr>) = grew s t" "grew s (t\<lparr>curr_operating_mode := b\<rparr>) = grew s t"
  "grew s (t\<lparr>im_fmt := f\<rparr>) = grew s t" "grew s (t\<lparr>im_crop := g\<rparr>) = grew s t"
  "grew s (t\<lparr>im_locked := l\<rparr>) = grew s t" "grew s (t\<lparr>im_current_mode := m\<rparr>) = grew s t"
  "grew (s\<lparr>im_locked := l\<rparr>) t = grew s t" "grew (s\<lparr>im_crop := g\<rparr>) t = grew s t"
  by (simp_all add: grew_def)

lemma calm_calls [simp]:
  "calm_call (Kernel (Regmap_Read reg))" "calm_call (Msleep_Interruptible n)" "calm_call (Bulk_Write reg ws)"
  "calm_call (Bulk_Read reg n)" "calm_call Pwm_Init_State" "calm_call (Pwm_Set_Relative_Duty_Cycle i j)"
  "calm_call (Pwm_Apply_State p)" "calm_call Pwm_Get_Period" "calm_call Pwm_Enable" "calm_call Pwm_Disable"
  "calm_call (Kernel (Regmap_Write reg v)) = (reg \<noteq> 0xC \<or> v \<noteq> 0x2)"
  "calm_call (Multi_Reg_Write rs)" "calm_call (Ctrl_Modify_Range cid m)" "calm_call (Devm_Kcalloc n)"
  "calm_call Devm_Pwm_Get" "calm_call (Gpiod_Get nm)" "calm_call Spi_Subdev_Init"
  "calm_call (Kernel Request_Firmware)" "calm_call (Kernel Release_Firmware)" "calm_call (Kernel Devm_Kzalloc)"
  "calm_call (Kernel Devm_Regmap_Init)" "calm_call (Kernel Mutex_Init)" "calm_call (Kernel Graph_Get_Next_Endpoint)"
  "calm_call (Kernel Fwnode_Endpoint_Parse)" "calm_call (Kernel Fwnode_Handle_Put)" "calm_call (Kernel Devm_Pinctrl_Get)"
  "calm_call (Kernel (Pinctrl_Lookup nm))" "calm_call (Kernel (Pinctrl_Select nm))" "calm_call (Kernel (Gpiod_Set_Reset x))"
  "calm_call (Kernel (Msleep n))" "calm_call (Kernel (Ctrl_Handler_Init n))" "calm_call (Kernel (Ctrl_New cid))"
  "calm_call (Kernel Ctrl_Handler_Error)" "calm_call (Kernel Media_Entity_Pads_Init)"
  "calm_call (Kernel Async_Register_Subdev)" "calm_call (Kernel Pm_Runtime_Set_Active)"
  "calm_call (Kernel Pm_Runtime_Enable)" "calm_call (Kernel Pm_Runtime_Idle)"
  by (auto simp: calm_call_def)

lemma calm_read_reg: "read_reg k reg old s = (r, v, t) \<Longrightarrow> calm s t"
  by (auto simp: read_reg_def split: prod.splits dest: calm_icall)

lemma calm_write_reg: "write_reg k reg v s = (r, t) \<Longrightarrow> reg \<noteq> 0xC \<or> v \<noteq> 0x2 \<Longrightarrow> calm s t"
  by (auto simp: write_reg_def split: prod.splits dest: calm_icall)

lemma calm_await: "await_reg k n ms reg want v s = (b, w, t) \<Longrightarrow> calm s t"
proof (induction n arbitrary: v s)
  case (Suc n)
  obtain r u s1 where rd: "read_reg k reg v (made k (Msleep_Interruptible ms) s) = (r, u, s1)" by (metis prod_cases3)
  have "calm s s1" using calm_read_reg [OF rd] calm_trans by (metis calm_calls(2) calm_made calm_refl)
  then show ?case using Suc rd by (auto split: if_splits intro: calm_trans)
qed simp

lemma calm_power_on: "adsd3100_power_on k s = (r, t) \<Longrightarrow> calm s t"
  by (auto simp: adsd3100_power_on_def Let_def split: prod.splits if_splits
      dest!: calm_write_reg calm_await calm_read_reg intro: calm_trans)

lemma calm_behind: "calm (made k c s) t \<Longrightarrow> calm_call c \<Longrightarrow> calm s t"
  by (rule calm_trans [OF calm_made]) auto

lemma calm_bulk: "bulk_each k wr n is p s = Ret (q, t) \<Longrightarrow> calm s t"
proof (induction "is" arbitrary: p s)
  case (Cons i "is")
  show ?case
  proof (cases wr)
    case True
    then show ?thesis using Cons(2) Cons.IH [unfolded eqTrueI [OF True]]
      by (fastforce simp: Let_def split: if_splits intro: calm_behind)
  next
    case False
    then show ?thesis using Cons(2) Cons.IH
      by (auto simp: Let_def split: if_splits prod.splits dest!: calm_icall intro: calm_trans)
  qed
qed simp

lemma calm_s_ctrl: "adsd3100_s_ctrl k c s = Ret (x, t) \<Longrightarrow> calm s t"
  by (auto simp: adsd3100_s_ctrl_def adsd3100_chip_config_def Let_def split: if_splits mem.splits prod.splits
      dest: calm_bulk calm_icall)

lemma calm_set_ctrl:
  assumes "imager_ctrl_ok k" "imager_set_ctrl k cid v s = Ret (r, t)"
  shows "calm s t"
proof -
  consider q where "imager_set_ctrl k cid v s = Ret (q, s)"
    | w p where "imager_set_ctrl k cid v s =
        (case adsd3100_s_ctrl k \<lparr>c16_id = cid, c16_val = w, c16_new = p\<rparr> s of Fault \<Rightarrow> Fault
         | Ret ((r, c), u) \<Rightarrow> Ret (r, if r = 0 then u\<lparr>im_vals := (im_vals u)(cid := w)\<rparr> else u))"
    using assms(1) unfolding imager_ctrl_ok_def imager_set_ctrl_def by meson
  then show ?thesis
    by cases (use assms(2) in \<open>auto split: mem.splits prod.splits if_splits dest: calm_s_ctrl\<close>)
qed

lemma calm_active_mode:
  assumes "imager_ctrl_ok k" "imager_active_mode k m s = Ret (r, t)"
  shows "\<exists>u. calm s u \<and> (r < 0 \<and> t = u \<or> r = 0 \<and> t = u\<lparr>im_current_mode := Some m\<rparr>)"
proof -
  obtain r1 s1 where 1: "imager_set_ctrl k V4L2_CID_PIXEL_RATE (uint (im_pixel_rate m)) s = Ret (r1, s1)"
    using assms(2) by (auto simp: imager_active_mode_def split: mem.splits)
  note c1 = calm_set_ctrl [OF assms(1) 1]
  show ?thesis
  proof (cases "r1 < 0")
    case True
    then show ?thesis using assms(2) 1 c1 by (auto simp: imager_active_mode_def)
  next
    case False
    then obtain r2 s2 where 2: "imager_set_ctrl k V4L2_CID_LINK_FREQ (sint (im_link_freq_idx m)) s1 = Ret (r2, s2)"
      using assms(2) 1 by (auto simp: imager_active_mode_def split: mem.splits)
    have "calm s s2" using c1 calm_set_ctrl [OF assms(1) 2] by (rule calm_trans)
    then show ?thesis using assms(2) 1 2 False by (auto simp: imager_active_mode_def split: if_splits)
  qed
qed

section \<open>Formats\<close>

definition im_chosen :: "imager_kernel \<Rightarrow> v4l2_subdev_format \<Rightarrow> adsd3100_mode_info" where
  "im_chosen k f = adsd3100_mode_info_data !
     im_find_nearest k adsd3100_mode_info_data (ff_width (sf_format f)) (ff_height (sf_format f))"

text \<open>Whatever a format is set for, the calls are calm; the mutex is released exactly on success.\<close>

lemma im_set_format_outcome:
  assumes "imager_ctrl_ok k" "adsd3100_set_format k cfg f s = Some (Ret (r, cfg', f', t))"
  shows "grew s t \<and> \<not> im_locked s \<and> im_locked t = (r \<noteq> 0) \<and>
    (sf_which f = V4L2_SUBDEV_FORMAT_ACTIVE \<longrightarrow>
      (if r = 0 then im_current_mode t = Some (im_chosen k f) \<and> sf_format f' = im_fmt t \<and>
         ff_width (im_fmt t) = im_width (im_chosen k f) \<and> ff_height (im_fmt t) = im_height (im_chosen k f) \<and>
         ff_code (im_fmt t) = MEDIA_BUS_FMT_SBGGR12_1X12
       else im_current_mode t = im_current_mode s))"
proof -
  have free: "\<not> im_locked s" using assms(2) by (auto simp: adsd3100_set_format_def imager_lock_def)
  let ?s = "s\<lparr>im_locked := True\<rparr>"
  consider (trying) "sf_which f = V4L2_SUBDEV_FORMAT_TRY" | (active) "sf_which f = V4L2_SUBDEV_FORMAT_ACTIVE"
    | (other) "sf_which f \<noteq> 0" "sf_which f \<noteq> 1" by blast
  then show ?thesis
  proof cases
    case active
    let ?u = "?s\<lparr>im_crop := (im_crop s)\<lparr>r_width := im_width (im_chosen k f), r_height := im_height (im_chosen k f)\<rparr>\<rparr>"
    obtain q v where q: "imager_active_mode k (im_chosen k f) ?u = Ret (q, v)"
      using assms(2) free active
      by (auto simp: adsd3100_set_format_def imager_lock_def adsd3100_get_pad_crop_def Let_def im_chosen_def
          split: mem.splits)
    obtain w where w: "calm ?u w" "q < 0 \<and> v = w \<or> q = 0 \<and> v = w\<lparr>im_current_mode := Some (im_chosen k f)\<rparr>"
      using calm_active_mode [OF assms(1) q] by blast
    have g: "grew s w" "im_locked w" "im_current_mode w = im_current_mode s" "im_crop w = im_crop ?u"
      using w(1) by (simp_all add: calm_def)
    show ?thesis
      using assms(2) free active q w(2) g
      by (auto simp: adsd3100_set_format_def imager_lock_def imager_unlock_def adsd3100_get_pad_crop_def
          adsd3100_get_pad_format_def Let_def im_chosen_def split: if_splits)
  qed (use assms(2) free in \<open>auto simp: adsd3100_set_format_def imager_lock_def imager_unlock_def
      adsd3100_get_pad_crop_def adsd3100_get_pad_format_def Let_def\<close>)
qed

section \<open>Power\<close>

definition im_inv :: "adsd3100 \<Rightarrow> bool" where
  "im_inv s \<longleftrightarrow> usage (im_calls s) = (if im_streaming s then 1 else 0) \<and> power_down \<notin> set (im_calls s)"

definition fsync_works :: "imager_kernel \<Rightarrow> bool" where
  "fsync_works k \<longleftrightarrow> (\<forall>h. rc (im_env k h Pwm_Enable) = 0)"

lemma calm_no_power_down: "list_all calm_call cs \<Longrightarrow> power_down \<notin> set cs"
  by (induction cs) (auto simp: calm_call_def)

lemma grew_inv: "im_inv s \<Longrightarrow> grew s t \<Longrightarrow> im_inv t"
  by (auto simp: im_inv_def grew_def usage_calm calm_no_power_down)

lemma get_sync_grew:
  assumes "imager_pm_ok k" "imager_get_sync k s = (r, t)"
  shows "grew (made k (Kernel Pm_Runtime_Get_Sync) s) t \<and> im_locked t = im_locked s"
proof -
  let ?s = "made k (Kernel Pm_Runtime_Get_Sync) s"
  have "t = ?s \<or> (\<exists>e. adsd3100_power_on k ?s = (e, t))"
    using assms unfolding imager_pm_ok_def imager_get_sync_def by (metis prod.inject)
  then show ?thesis using calm_power_on [of k ?s] by (auto simp: calm_def)
qed

lemma start_value:
  assumes "adsd3100_start_streaming k s = (r, t)"
  shows "\<exists>h. r = rc (im_env k h Pwm_Enable) \<and> im_locked t = im_locked s \<and> im_streaming t \<and>
    (\<exists>cs. im_calls t = im_calls s @ cs \<and> list_all calm_call cs)"
proof -
  obtain q v u where 1: "read_reg k 0x210 (im_stack k (im_calls s)) s = (q, v, u)" by (metis prod_cases3)
  obtain r2 u2 where 2: "write_reg k 0x200 (ucast (curr_operating_mode u)) u = (r2, u2)" by fastforce
  obtain r3 u3 where 3: "write_reg k 0x27e (if curr_operating_mode u2 = 1 then 0x8006 else 0x0) u2 = (r3, u3)" by fastforce
  have "calm s u" "calm u u2" "calm u2 u3"
    using calm_read_reg [OF 1] calm_write_reg [OF 2] calm_write_reg [OF 3] by auto
  then have c: "calm s (if v \<noteq> ucast (curr_operating_mode u) then u3 else u)" by (auto intro: calm_trans)
  have "t = (made k Pwm_Enable (if v \<noteq> ucast (curr_operating_mode u) then u3 else u))\<lparr>im_streaming := True\<rparr>"
    "r = rc (im_env k (im_calls (if v \<noteq> ucast (curr_operating_mode u) then u3 else u)) Pwm_Enable)"
    using assms 1 2 3 by (auto simp: adsd3100_start_streaming_def Let_def icall_def)
  moreover have "calm s (made k Pwm_Enable (if v \<noteq> ucast (curr_operating_mode u) then u3 else u))"
    by (rule calm_made [OF c]) simp
  ultimately show ?thesis by (auto simp: calm_def grew_def)
qed

lemma im_stream_inv:
  assumes "imager_pm_ok k" "fsync_works k" "im_inv s" "e \<in> {0, 1}" "adsd3100_s_stream k e s = Some (r, t)"
  shows "im_inv t"
proof -
  have free: "\<not> im_locked s" using assms(5) by (auto simp: adsd3100_s_stream_def imager_lock_def)
  let ?s = "s\<lparr>im_locked := True\<rparr>"
  show ?thesis
  proof (cases "e = 1 \<and> \<not> im_streaming s")
    case True
    obtain q u where g: "imager_get_sync k ?s = (q, u)" by fastforce
    have u: "grew (made k (Kernel Pm_Runtime_Get_Sync) ?s) u" using get_sync_grew [OF assms(1) g] by simp
    then obtain cs where cs: "im_calls u = im_calls s @ Kernel Pm_Runtime_Get_Sync # cs" "list_all calm_call cs"
        "im_streaming u = im_streaming s"
      by (auto simp: grew_def)
    obtain p v where st: "adsd3100_start_streaming k u = (p, v)" by fastforce
    obtain ds where ds: "p = 0" "im_calls v = im_calls u @ ds" "list_all calm_call ds" "im_streaming v"
      using start_value [OF st] assms(2) by (auto simp: fsync_works_def)
    show ?thesis
      using assms(3,5) free True g st cs ds usage_calm [OF cs(2)] usage_calm [OF ds(3)]
        calm_no_power_down [OF cs(2)] calm_no_power_down [OF ds(3)]
      by (auto simp: adsd3100_s_stream_def imager_lock_def imager_unlock_def im_inv_def split: if_splits)
  next
    case False
    then show ?thesis
      using assms(3-5) free
      by (auto simp: adsd3100_s_stream_def adsd3100_stop_streaming_def imager_lock_def imager_unlock_def im_inv_def
          split: if_splits)
  qed
qed

text \<open>
  The operations of the driver, and the one of the PM core that follows an unused device: it suspends the
  device when no reference is left.
\<close>

datatype imager_op =
    Im_Stream int
  | Im_Set_Format pad_config v4l2_subdev_format
  | Im_Set_Ctrl u32 int
  | Im_Get_Interval
  | Im_Set_Interval v4l2_fract
  | Im_Get_Register v4l2_dbg_register
  | Im_Set_Register v4l2_dbg_register
  | Im_Suspend

definition imager_op :: "imager_kernel \<Rightarrow> imager_op \<Rightarrow> adsd3100 \<Rightarrow> adsd3100 option" where
  "imager_op k x s = (case x of
      Im_Stream e \<Rightarrow> map_option snd (adsd3100_s_stream k e s)
    | Im_Set_Format cfg f \<Rightarrow>
        (case adsd3100_set_format k cfg f s of Some (Ret (_, _, _, t)) \<Rightarrow> Some t | _ \<Rightarrow> None)
    | Im_Set_Ctrl cid v \<Rightarrow> (case imager_set_ctrl k cid v s of Ret (_, t) \<Rightarrow> Some t | Fault \<Rightarrow> None)
    | Im_Get_Interval \<Rightarrow> (case adsd3100_g_frame_interval k s of Ret (_, _, t) \<Rightarrow> Some t | Fault \<Rightarrow> None)
    | Im_Set_Interval fi \<Rightarrow> (case adsd3100_s_frame_interval k fi s of Some (Ret (_, t)) \<Rightarrow> Some t | _ \<Rightarrow> None)
    | Im_Get_Register reg \<Rightarrow> Some (snd (snd (adsd3100_g_register k reg s)))
    | Im_Set_Register reg \<Rightarrow> Some (snd (adsd3100_s_register k reg s))
    | Im_Suspend \<Rightarrow> Some (if usage (im_calls s) = 0 then snd (adsd3100_power_off k s) else s))"

text \<open>The stream is switched by 0 and 1, and the debugging interface does not power the imager down.\<close>

fun imager_admissible :: "imager_op \<Rightarrow> bool" where
  "imager_admissible (Im_Stream e) = (e = 0 \<or> e = 1)"
| "imager_admissible (Im_Set_Register reg) = ((ucast (dbg_reg reg) :: u32) \<noteq> 0xC)"
| "imager_admissible _ = True"

lemma imager_op_inv:
  assumes "imager_kernel_ok k" "fsync_works k" "im_inv s" "imager_admissible x" "imager_op k x s = Some t"
  shows "im_inv t"
proof -
  have k: "imager_ctrl_ok k" "imager_pm_ok k" using assms(1) by (simp_all add: imager_kernel_ok_def)
  show ?thesis
  proof (cases x)
    case (Im_Stream e)
    then show ?thesis using assms(3-5) im_stream_inv [OF k(2) assms(2,3)] by (auto simp: imager_op_def)
  next
    case Im_Suspend
    then show ?thesis using assms(3,5) by (auto simp: imager_op_def im_inv_def adsd3100_power_off_def split: if_splits)
  next
    case (Im_Set_Register reg)
    then have "calm s t" using assms(4,5) calm_write_reg
      by (auto simp: imager_op_def adsd3100_s_register_def) (metis prod.collapse)
    then show ?thesis using assms(3) grew_inv by (simp add: calm_def)
  next
    case (Im_Get_Register reg)
    then have "calm s t" using assms(5) by (auto simp: imager_op_def adsd3100_g_register_def dest: calm_read_reg split: prod.splits)
    then show ?thesis using assms(3) grew_inv by (simp add: calm_def)
  next
    case (Im_Set_Format cfg f)
    then obtain r c f' where "adsd3100_set_format k cfg f s = Some (Ret (r, c, f', t))"
      using assms(5) by (auto simp: imager_op_def split: option.splits mem.splits)
    then show ?thesis using im_set_format_outcome [OF k(1)] grew_inv assms(3) by blast
  next
    case (Im_Set_Ctrl cid v)
    then have "calm s t" using assms(5) calm_set_ctrl [OF k(1)] by (auto simp: imager_op_def split: mem.splits)
    then show ?thesis using assms(3) grew_inv by (simp add: calm_def)
  next
    case Im_Get_Interval
    then have "grew s t" using assms(5)
      by (auto simp: imager_op_def adsd3100_g_frame_interval_def icall_def grew_def calm_call_def split: mem.splits if_splits)
    then show ?thesis using assms(3) grew_inv by blast
  next
    case (Im_Set_Interval fi)
    then have "grew s t" using assms(5)
      by (auto simp: imager_op_def adsd3100_s_frame_interval_def icall_def grew_def calm_call_def imager_lock_def
          imager_unlock_def Let_def split: mem.splits if_splits option.splits)
    then show ?thesis using assms(3) grew_inv by blast
  qed
qed

interpretation imager: stepped "imager_op k" imager_admissible "\<lambda>s. imager_kernel_ok k \<and> fsync_works k \<and> im_inv s"
  for k
  by unfold_locales (auto intro: imager_op_inv)

section \<open>Properties of power and streaming\<close>


definition im_answer :: "int \<Rightarrow> imager_resp" where
  "im_answer r = \<lparr>rc = r, rval = 2, rdata = [], rwords = []\<rparr>"

text \<open>An imager that comes up at once; a second one whose frame sync cannot be enabled.\<close>

definition up_env :: "(imager_call, imager_resp) env" where
  "up_env h c = im_answer 0"

definition no_fsync_env :: "(imager_call, imager_resp) env" where
  "no_fsync_env h c = im_answer (if c = Pwm_Enable then - EINVAL else 0)"


text \<open>A start that resumes the imager and then cannot enable the frame sync fails and gives its reference back,
  but counts as streaming: the next start answers success without a call, and the next stop gives back a
  reference that nobody holds.\<close>

theorem failed_start_sticks:
  assumes "imager_pm_ok k" "\<forall>h. rc (im_env k h Pwm_Enable) = e" "e \<noteq> 0"
    and "\<not> im_locked s" "\<not> im_streaming s" "imager_get_sync k (s\<lparr>im_locked := True\<rparr>) = (q, v)" "0 \<le> q"
  shows "\<exists>t u. adsd3100_s_stream k 1 s = Some (e, t) \<and> usage (im_calls t) = usage (im_calls s) \<and>
    adsd3100_s_stream k 1 t = Some (0, t) \<and>
    adsd3100_s_stream k 0 t = Some (0, u) \<and> usage (im_calls u) = usage (im_calls s) - 1"
proof -
  obtain p w where st: "adsd3100_start_streaming k v = (p, w)" by fastforce
  obtain ds where ds: "p = e" "im_calls w = im_calls v @ ds" "list_all calm_call ds" "im_streaming w"
    using start_value [OF st] assms(2) by auto
  obtain cs where cs: "im_calls v = im_calls s @ Kernel Pm_Runtime_Get_Sync # cs" "list_all calm_call cs"
    using get_sync_grew [OF assms(1,6)] by (auto simp: grew_def)
  let ?t = "imager_unlock (made k (Kernel Pm_Runtime_Put) w)"
  have "adsd3100_s_stream k 1 s = Some (e, ?t)"
    using assms st ds(1) by (simp add: adsd3100_s_stream_def imager_lock_def)
  moreover have "usage (im_calls ?t) = usage (im_calls s)"
    using cs ds usage_calm [OF cs(2)] usage_calm [OF ds(3)] by (simp add: imager_unlock_def)
  moreover have "adsd3100_s_stream k 1 ?t = Some (0, ?t)"
    using ds(4) by (simp add: adsd3100_s_stream_def imager_lock_def imager_unlock_def)
  moreover have "\<exists>u. adsd3100_s_stream k 0 ?t = Some (0, u) \<and> usage (im_calls u) = usage (im_calls ?t) - 1"
    using ds(4) by (simp add: adsd3100_s_stream_def imager_lock_def imager_unlock_def adsd3100_stop_streaming_def)
  ultimately show ?thesis by (metis (no_types, lifting))
qed

theorem failed_start_sticks_witness:
  "\<exists>t u. adsd3100_s_stream (plain_kernel no_fsync_env) 1 kzalloc_adsd3100 = Some (- EINVAL, t) \<and>
    adsd3100_s_stream (plain_kernel no_fsync_env) 1 t = Some (0, t) \<and>
    adsd3100_s_stream (plain_kernel no_fsync_env) 0 t = Some (0, u) \<and> usage (im_calls u) = -1"
proof -
  have pm: "imager_pm_ok (plain_kernel no_fsync_env)" using plain_kernel_ok by (simp add: imager_kernel_ok_def)
  have e: "\<forall>h. rc (im_env (plain_kernel no_fsync_env) h Pwm_Enable) = - EINVAL"
    by (simp add: no_fsync_env_def im_answer_def)
  have s: "\<not> im_locked kzalloc_adsd3100" "\<not> im_streaming kzalloc_adsd3100" "im_calls kzalloc_adsd3100 = []"
    by (simp_all add: kzalloc_adsd3100_def)
  obtain v where g: "imager_get_sync (plain_kernel no_fsync_env) (kzalloc_adsd3100\<lparr>im_locked := True\<rparr>) = (0, v)"
    by (simp add: imager_get_sync_def adsd3100_power_on_def write_reg_def read_reg_def icall_def no_fsync_env_def
        im_answer_def numeral_eq_Suc Let_def)
  show ?thesis using failed_start_sticks [OF pm e _ s(1,2) g] s(3) by auto
qed

section \<open>The chip configuration\<close>

lemma put_words_length: "i + length ws \<le> length p \<Longrightarrow> length (put_words i ws p) = length p"
  by (simp add: put_words_def)

lemma bulk_each_faults:
  "(bulk_each k wr n is p s = Fault) = (\<exists>i\<in>set is. length p \<le> 2 + n + i)"
proof (induction "is" arbitrary: p s)
  case (Cons i "is")
  show ?case
  proof (cases "length p \<le> 2 + n + i")
    case False
    then have "length (put_words (2 + i) (take 1 ws) p) = length p" for ws
      by (intro put_words_length) (simp add: min_def)
    then show ?thesis using False Cons [where p = p] Cons
      by (cases wr) (auto simp: Let_def split: prod.splits)
  qed simp
qed simp

text \<open>C36: the payload has 65537 words. Handling it leaves them exactly when it states 65535 values, or more than
  32767 without a burst: the registers are looked for behind the values, and nothing compares.\<close>

theorem imager_config_bounds:
  assumes "length (c16_new ctrl) = 65537"
  shows "adsd3100_chip_config k ctrl s = Fault \<longleftrightarrow>
    unat (c16_new ctrl ! 1) = 65535 \<or> c16_new ctrl ! 0 = 0 \<and> 32767 < unat (c16_new ctrl ! 1)"
proof -
  let ?n = "unat (c16_new ctrl ! 1)"
  have n: "?n < 65536" by (rule unat_u16_bound)
  have each: "bulk_each k wr ?n [0..<?n] (c16_new ctrl) s = Fault \<longleftrightarrow> 32767 < ?n" for wr
  proof -
    have "(\<exists>i\<in>{0..<?n}. 65537 \<le> 2 + ?n + i) \<longleftrightarrow> 32767 < ?n"
      by (cases ?n) (auto intro: bexI [of _ "?n - 1"])
    then show ?thesis using assms by (simp add: bulk_each_faults)
  qed
  show ?thesis
  proof (cases "65535 \<le> ?n")
    case True
    then have "?n = 65535" using n by linarith
    then show ?thesis using assms by (simp add: adsd3100_chip_config_def Let_def)
  next
    case False
    then show ?thesis
      using assms each by (auto simp: adsd3100_chip_config_def Let_def split: mem.splits prod.splits)
  qed
qed

theorem imager_config_bounds_witness:
  "adsd3100_chip_config (plain_kernel up_env) \<lparr>c16_id = V4L2_CID_ADSD3100_CHIP_CONFIG, c16_val = 0,
     c16_new = [1, 0xFFFF] @ replicate 65535 0\<rparr> kzalloc_adsd3100 = Fault"
  by (subst imager_config_bounds) simp_all

section \<open>The firmware\<close>

text \<open>An image: the number of modes, the size of the data, registers with their values.\<close>

definition reg_image :: "(u16 \<times> u16) list \<Rightarrow> u8 list" where
  "reg_image rs = concat (map (\<lambda>(r, d). le16 r @ le16 d) rs)"

definition imager_image :: "u32 \<Rightarrow> (u16 \<times> u16) list \<Rightarrow> u8 list" where
  "imager_image modes rs = ADI_MAGIC @ le32 modes @ le32 (word_of_nat (4 * length rs)) @ reg_image rs"

definition reg_sequence :: "(u16 \<times> u16) list \<Rightarrow> (u32 \<times> u32) list" where
  "reg_sequence rs = map (\<lambda>(r, d). (ucast r, ucast d)) rs"

lemma length_reg_image [simp]: "length (reg_image rs) = 4 * length rs"
  by (induction rs) (auto simp: reg_image_def)

lemma read_regs_faults: "(read_regs data i n = Fault) = (0 < n \<and> length data < i + 4 * n)"
  by (induction data i n rule: read_regs.induct) (auto split: mem.splits)

lemma read_regs_image: "read_regs (xs @ reg_image rs) (length xs) (length rs) = Ret (reg_sequence rs)"
proof (induction rs arbitrary: xs)
  case (Cons p rs)
  obtain r d where p: "p = (r, d)" by force
  have image: "xs @ reg_image (p # rs) = (xs @ le16 r @ le16 d) @ reg_image rs" by (simp add: p reg_image_def)
  have "get16 (xs @ le16 r @ le16 d @ reg_image rs) (length xs) = r" by (rule get16_at) simp
  moreover have "get16 ((xs @ le16 r) @ le16 d @ reg_image rs) (length xs + 2) = d" by (rule get16_at) simp
  moreover have "read_regs ((xs @ le16 r @ le16 d) @ reg_image rs) (length xs + 4) (length rs) = Ret (reg_sequence rs)"
    using Cons [of "xs @ le16 r @ le16 d"] by simp
  ultimately show ?case by (simp add: image) (simp add: p reg_sequence_def)
qed (simp add: reg_sequence_def)

text \<open>C34: the firmware image that states its registers is parsed into them: loading it writes exactly these registers,
  after the range of modes was set and before the image is released.\<close>

theorem imager_firmware_written:
  assumes "modes \<noteq> 0" "16 + 4 * length rs < 0x4000000" "\<forall>h n. 0 \<le> rc (im_env k h (Devm_Kcalloc n))"
    and "im_env k (im_calls s) (Kernel Request_Firmware) = \<lparr>rc = 0, rval = v, rdata = imager_image modes rs, rwords = ws\<rparr>"
  shows "\<exists>t. adsd3100_firmware_load k True calib s = Ret (0, t) \<and>
    im_calls t = im_calls s @ [Kernel Request_Firmware,
        Ctrl_Modify_Range V4L2_CID_ADSD3100_OPERATING_MODE (uint (modes - 1)), Devm_Kcalloc (length rs),
        Multi_Reg_Write (reg_sequence rs)] @
      (if calib then [Multi_Reg_Write adsd3100_powerup_setting] else []) @ [Kernel Release_Firmware]"
proof -
  let ?d = "imager_image modes rs"
  have magic: "length ADI_MAGIC = 8" by (simp add: ADI_MAGIC_def)
  have l: "length ?d = 16 + 4 * length rs" by (simp add: imager_image_def magic)
  have d: "?d = (ADI_MAGIC @ le32 modes @ le32 (word_of_nat (4 * length rs))) @ reg_image rs" by (simp add: imager_image_def)
  have m: "take 8 ?d = ADI_MAGIC" by (simp add: imager_image_def magic)
  have n: "get32 ?d 8 = modes" unfolding imager_image_def by (rule get32_at) (rule magic)
  have "get32 ((ADI_MAGIC @ le32 modes) @ le32 (word_of_nat (4 * length rs)) @ reg_image rs) 12 = word_of_nat (4 * length rs)"
    by (rule get32_at) (simp add: magic)
  then have "get32 ?d 12 = word_of_nat (4 * length rs)" by (simp add: imager_image_def)
  moreover have "unat (word_of_nat (4 * length rs) :: u32) = 4 * length rs" using assms(2) by (simp only: unat_of_nat) simp
  ultimately have c: "unat (get32 ?d 12) div 2 div 2 = length rs" by simp
  have r: "read_regs ?d 16 (length rs) = Ret (reg_sequence rs)"
    unfolding d using read_regs_image [of "ADI_MAGIC @ le32 modes @ le32 (word_of_nat (4 * length rs))" rs] by (simp add: magic)
  have "\<not> rc (im_env k h (Devm_Kcalloc i)) < 0" for h i using assms(3) by (simp add: not_less)
  then show ?thesis
    using assms(1,2,4) m n c r l
    by (simp add: adsd3100_firmware_load_def adsd3100_g_sensor_firmware_def load_calibration_def icall_def Let_def)
qed

definition firmware_env :: "(imager_call, imager_resp) env" where
  "firmware_env h c = (if c = Kernel Request_Firmware
     then (im_answer 0)\<lparr>rdata := imager_image 3 [(0x200, 1), (0x27e, 0x8006)]\<rparr> else im_answer 0)"

theorem imager_firmware_written_witness:
  "\<exists>t. adsd3100_firmware_load (plain_kernel firmware_env) True False kzalloc_adsd3100 = Ret (0, t) \<and>
    Multi_Reg_Write [(0x200, 1), (0x27e, 0x8006)] \<in> set (im_calls t)"
proof -
  have e: "im_env (plain_kernel firmware_env) (im_calls kzalloc_adsd3100) (Kernel Request_Firmware) =
      \<lparr>rc = 0, rval = 2, rdata = imager_image 3 [(0x200, 1), (0x27e, 0x8006)], rwords = []\<rparr>"
    by (simp add: firmware_env_def im_answer_def)
  have a: "\<forall>h n. 0 \<le> rc (im_env (plain_kernel firmware_env) h (Devm_Kcalloc n))"
    by (simp add: firmware_env_def im_answer_def)
  show ?thesis using imager_firmware_written [OF _ _ a e, of False] by (force simp: reg_sequence_def)
qed

text \<open>Of an image with the right header, that is not too large and for which there is memory, the parser
  reads behind the end exactly when the registers it states are not there: the size it states is not compared
  with the size of the file.\<close>

theorem imager_firmware_bounds:
  assumes "im_fw s = Some data" "16 \<le> length data" "length data < 0x4000000" "take 8 data = ADI_MAGIC"
    and "get32 data 8 \<noteq> 0" "\<forall>h n. 0 \<le> rc (im_env k h (Devm_Kcalloc n))"
  shows "adsd3100_g_sensor_firmware k s = Fault \<longleftrightarrow> length data < 16 + 4 * (unat (get32 data 12) div 4)"
proof -
  have "\<not> rc (im_env k h (Devm_Kcalloc i)) < 0" for h i using assms(6) by (simp add: not_less)
  moreover have "unat (get32 data 12) div 2 div 2 = unat (get32 data 12) div 4" by (simp add: div_mult2_eq [symmetric])
  ultimately show ?thesis
    using assms(1-5) read_regs_faults [of data 16 "unat (get32 data 12) div 4"]
    by (auto simp: adsd3100_g_sensor_firmware_def icall_def Let_def split: mem.splits)
qed

theorem imager_firmware_bounds_witness:
  "adsd3100_g_sensor_firmware (plain_kernel up_env)
     (kzalloc_adsd3100\<lparr>im_fw := Some (ADI_MAGIC @ le32 1 @ le32 8 @ le16 0x200)\<rparr>) = Fault"
proof -
  let ?d = "ADI_MAGIC @ le32 1 @ le32 8 @ le16 0x200"
  have magic: "length ADI_MAGIC = 8" by (simp add: ADI_MAGIC_def)
  have d: "length ?d = 18" "take 8 ?d = ADI_MAGIC" by (simp_all add: magic)
  have 1: "get32 ?d 8 = 1" by (rule get32_at) (rule magic)
  have "get32 ((ADI_MAGIC @ le32 1) @ le32 8 @ le16 0x200) 12 = 8" by (rule get32_at) (simp add: magic)
  then have 2: "get32 ?d 12 = 8" by simp
  have a: "\<forall>h n. 0 \<le> rc (im_env (plain_kernel up_env) h (Devm_Kcalloc n))" by (simp add: up_env_def im_answer_def)
  have f: "im_fw (kzalloc_adsd3100\<lparr>im_fw := Some ?d\<rparr>) = Some ?d" by simp
  have "16 \<le> length ?d" "length ?d < 0x4000000" "get32 ?d 8 \<noteq> 0" using d(1) 1 by simp_all
  note imager_firmware_bounds [OF f this(1,2) d(2) this(3) a]
  then show ?thesis using d(1) 2 by simp
qed

section \<open>Probe\<close>

lemma calm_read_snd [simp]: "calm s t \<Longrightarrow> calm s (snd (snd (read_reg k reg old t)))"
  by (simp add: read_reg_def split_def)

lemma calm_steps [simp]: "list_all calm_call cs \<Longrightarrow> calm s t \<Longrightarrow> calm s (snd (im_steps k cs t))"
  by (induction cs arbitrary: t) (auto simp: split_def)

lemma calm_pins [simp]: "calm s t \<Longrightarrow> calm s (snd (im_probe_pins k t))"
  by (simp add: im_probe_pins_def Let_def split_def)

lemma calm_bus_init [simp]: "calm s t \<Longrightarrow> calm s (snd (adsd3100_spi_bus_init k t))"
  by (simp add: adsd3100_spi_bus_init_def Let_def split_def)

lemma calm_new_ctrl [simp]: "calm s t \<Longrightarrow> calm s (im_new_ctrl k cid v t)"
  by (simp add: im_new_ctrl_def split_def)

lemma calm_init_ctrls [simp]: "calm s t \<Longrightarrow> calm s (snd (im_init_ctrls k t))"
  by (simp add: im_init_ctrls_def Let_def split_def)

lemma calm_parse: "adsd3100_g_sensor_firmware k s = Ret (r, t) \<Longrightarrow> calm s t"
  by (auto simp: adsd3100_g_sensor_firmware_def Let_def split_def split: option.splits if_splits mem.splits)

lemma calm_calibration [simp]: "calm s t \<Longrightarrow> calm s (load_calibration k b t)"
  by (simp add: load_calibration_def)

lemma calm_firmware: "adsd3100_firmware_load k fw cal s = Ret (r, t) \<Longrightarrow> calm s t"
  by (auto simp: adsd3100_firmware_load_def split_def split: if_splits mem.splits
      dest!: calm_parse intro!: calm_made calm_calibration intro: calm_behind)

text \<open>The format that a probe sets: that of the first mode.\<close>

definition im_initial :: v4l2_subdev_format where
  "im_initial = \<lparr>sf_which = V4L2_SUBDEV_FORMAT_ACTIVE, sf_pad = 0,
     sf_format = zero_fmt\<lparr>ff_width := 3840, ff_height := 216\<rparr>\<rparr>"

lemma im_init_cfg_active:
  "adsd3100_entity_init_cfg k False cfg s = (case adsd3100_set_format k cfg im_initial s of
     None \<Rightarrow> None | Some Fault \<Rightarrow> Some Fault | Some (Ret (r, c, f, t)) \<Rightarrow> Some (Ret (0, c, t)))"
  by (simp add: adsd3100_entity_init_cfg_def im_initial_def adsd3100_mode_info_data_def Let_def)

lemma im_register_outcome:
  assumes "imager_ctrl_ok k" "\<not> im_streaming s" "usage (im_calls s) = 0" "im_current_mode s = None"
    and "im_probe_register k fw cal s = Some (Ret (0, t))"
  shows "\<not> im_streaming t \<and> usage (im_calls t) = 0 \<and> im_locked t = (im_current_mode t = None) \<and>
    (\<forall>m. im_current_mode t = Some m \<longrightarrow> m = im_chosen k im_initial \<and>
       ff_width (im_fmt t) = im_width m \<and> ff_height (im_fmt t) = im_height m)"
proof -
  obtain r1 s1 where 1: "adsd3100_firmware_load k fw cal s = Ret (r1, s1)"
    using assms(5) by (auto simp: im_probe_register_def split: mem.splits)
  obtain r2 c f s2 where 2: "adsd3100_set_format k no_cfg im_initial s1 = Some (Ret (r2, c, f, s2))"
    using assms(5) 1 by (auto simp: im_probe_register_def im_init_cfg_active split: option.splits mem.splits if_splits)
  have c: "calm s s1" by (rule calm_firmware [OF 1])
  note o = im_set_format_outcome [OF assms(1) 2]
  have g: "grew s s2" using c o by (auto simp: calm_def intro: grew_trans)
  then have "usage (im_calls s2) = 0" "\<not> im_streaming s2"
    using assms(2,3) by (auto simp: grew_def usage_calm)
  moreover have "t = made k (Kernel Pm_Runtime_Idle) (made k (Kernel Pm_Runtime_Enable)
      (made k (Kernel Pm_Runtime_Set_Active) (made k (Kernel Async_Register_Subdev) s2)))"
    using assms(5) 1 2
    by (auto simp: im_probe_register_def im_init_cfg_active split_def Let_def split: if_splits)
  moreover have "im_current_mode s1 = None" using c assms(4) by (simp add: calm_def)
  ultimately show ?thesis using o by (auto simp: im_initial_def split: if_splits)
qed


definition chip_env :: "(imager_call, imager_resp) env" where
  "chip_env h c = \<lparr>rc = 0, rval = 0x5931, rdata = [], rwords = []\<rparr>"


end
