(* ===== verification/V4l2_Device.thy ===== *)
theory V4l2_Device
  imports Prelude
begin

text \<open>
  The V4L2 device wrapper of the UVC application, \<^verbatim>\<open>apps/uvc-app/lib/v4l2.c\<close>,
  \<^verbatim>\<open>video-buffers.c\<close>: formats enumeration, controls, formats, and the buffers of a device with
  the file descriptors and mappings they own.

  A system call is answered by the environment from the calls made before it; the calls so far
  are the state of the outside world. Functions that may use a null pointer or index out of an
  array answer \<open>Fault\<close>, and those whose loop depends on the kernel to end answer \<open>None\<close> when it
  does not.
\<close>

section \<open>Data\<close>

record v4l2_fraction =
  fr_numerator :: u32
  fr_denominator :: u32

record v4l2_ival_desc =
  iv_min :: v4l2_fraction
  iv_max :: v4l2_fraction
  iv_step :: v4l2_fraction

record v4l2_frame_desc =
  fd_min_width :: u32
  fd_min_height :: u32
  fd_max_width :: u32
  fd_max_height :: u32
  fd_step_width :: u32
  fd_step_height :: u32
  fd_ivals :: "v4l2_ival_desc list"

record v4l2_format_desc =
  fm_pixelformat :: u32
  fm_frames :: "v4l2_frame_desc list"

text \<open>\<open>px_rest\<close> are the fields of a pixel format that are only copied.\<close>

record v4l2_pix_format =
  px_width :: u32
  px_height :: u32
  px_pixelformat :: u32
  px_field :: u32
  px_sizeimage :: u32
  px_rest :: "u32 list"

record rect =
  rc_left :: int
  rc_top :: int
  rc_width :: u32
  rc_height :: u32

record video_buffer =
  vb_index :: u32
  vb_size :: u32
  vb_bytesused :: u32
  vb_timestamp :: int
  vb_error :: bool
  vb_mem :: "nat option"
  vb_dmabuf :: int

text \<open>A buffer set: the count and the array, which may be null.\<close>

record video_buffer_set =
  nbufs :: nat
  buffers :: "video_buffer list option"

record v4l2_device =
  dev_fd :: int
  dev_name :: string
  dev_type :: u32
  dev_memtype :: u32
  dev_formats :: "v4l2_format_desc list"
  dev_format :: v4l2_pix_format
  dev_crop :: rect
  dev_fps :: u32
  dev_buffers :: video_buffer_set

abbreviation V4L2_BUF_TYPE_VIDEO_CAPTURE :: u32 where "V4L2_BUF_TYPE_VIDEO_CAPTURE \<equiv> 1"
abbreviation V4L2_BUF_TYPE_VIDEO_OUTPUT :: u32 where "V4L2_BUF_TYPE_VIDEO_OUTPUT \<equiv> 2"
abbreviation V4L2_MEMORY_MMAP :: u32 where "V4L2_MEMORY_MMAP \<equiv> 1"
abbreviation V4L2_MEMORY_DMABUF :: u32 where "V4L2_MEMORY_DMABUF \<equiv> 4"
abbreviation V4L2_CAP_VIDEO_CAPTURE :: u32 where "V4L2_CAP_VIDEO_CAPTURE \<equiv> 1"
abbreviation V4L2_CAP_VIDEO_OUTPUT :: u32 where "V4L2_CAP_VIDEO_OUTPUT \<equiv> 2"
abbreviation V4L2_BUF_FLAG_ERROR :: u32 where "V4L2_BUF_FLAG_ERROR \<equiv> 0x40"

section \<open>System calls\<close>

text \<open>A buffer as queued: index, type, memory, the descriptor \<^verbatim>\<open>m.fd\<close> and the bytes used.\<close>

record queued =
  q_index :: u32
  q_type :: u32
  q_memory :: u32
  q_fd :: int
  q_bytesused :: u32

datatype sys =
    Malloc
  | Calloc nat
  | Open string
  | Close int
  | Munmap nat u32
  | Mmap int u32 u32
  | Dup int
  | Querycap int
  | Enum_Fmt int u32 u32
  | Enum_Framesizes int u32 u32
  | Enum_Frameintervals int u32 u32 u32 u32
  | G_Ctrl int u32
  | S_Ctrl int u32 int
  | G_Ext_Ctrls int "(u32 \<times> int) list"
  | S_Ext_Ctrls int "(u32 \<times> int) list"
  | G_Crop int u32
  | S_Crop int u32 rect
  | G_Fmt int u32
  | S_Fmt int u32 v4l2_pix_format
  | S_Parm int u32 u32 u32
  | Reqbufs int nat u32 u32
  | Querybuf int nat u32 u32
  | Expbuf int nat u32
  | Dqbuf int u32 u32
  | Qbuf int queued
  | Streamon int u32
  | Streamoff int u32
  | Select int "int set" "int set" "int set"
  | Dqevent int
  | Send_Response int int "u8 list"
  | Subscribe_Event int u32
  | Handle_Client_Request "u8 list"

text \<open>What a call answers: its return value and \<^verbatim>\<open>errno\<close>, and what it wrote.\<close>

record answer =
  ret :: int
  errno :: int
  a_caps :: "u32 \<times> u32"
  a_type :: u32
  a_nums :: "u32 list"
  a_fracs :: "v4l2_fraction list"
  a_value :: int
  a_values :: "(u32 \<times> int) list"
  a_rect :: rect
  a_pix :: v4l2_pix_format
  a_count :: nat
  a_length :: u32
  a_offset :: u32
  a_fd :: int
  a_index :: u32
  a_bytesused :: u32
  a_timestamp :: int
  a_flags :: u32
  a_ready :: "int set \<times> int set \<times> int set"
  a_bytes :: "u8 list"

type_synonym os = "(sys, answer) env"
type_synonym world = "sys list"

definition sys :: "os \<Rightarrow> sys \<Rightarrow> world \<Rightarrow> answer \<times> world" where
  "sys k c w = (k w c, w @ [c])"

text \<open>A call that fails answers \<^verbatim>\<open>-errno\<close>, and \<^verbatim>\<open>errno\<close> is positive.\<close>

definition errno_positive :: "os \<Rightarrow> bool" where
  "errno_positive k \<longleftrightarrow> (\<forall>w c. ret (k w c) < 0 \<longrightarrow> 0 < errno (k w c))"

section \<open>Enumeration\<close>

definition no_fraction :: v4l2_fraction where
  "no_fraction = \<lparr>fr_numerator = 0, fr_denominator = 0\<rparr>"

text \<open>The description of an interval from the answer of \<^verbatim>\<open>VIDIOC_ENUM_FRAMEINTERVALS\<close>, whose
  fractions are the discrete one, or the least, greatest and step.\<close>

definition ival_of :: "answer \<Rightarrow> v4l2_ival_desc option" where
  "ival_of a =
     (if a_type a = 1
      then Some \<lparr>iv_min = a_fracs a ! 0, iv_max = a_fracs a ! 0,
                 iv_step = \<lparr>fr_numerator = 1, fr_denominator = 1\<rparr>\<rparr>
      else if a_type a = 3
      then Some \<lparr>iv_min = a_fracs a ! 0, iv_max = a_fracs a ! 1, iv_step = a_fracs a ! 2\<rparr>
      else None)"

partial_function (option) enum_ivals_loop ::
  "os \<Rightarrow> int \<Rightarrow> u32 \<Rightarrow> u32 \<Rightarrow> u32 \<Rightarrow> u32 \<Rightarrow> v4l2_ival_desc list \<Rightarrow> world \<Rightarrow>
   (int \<times> v4l2_ival_desc list \<times> world) option" where
  "enum_ivals_loop k fd pixelformat min_width min_height i ivals w =
     (let (a, w) = sys k (Enum_Frameintervals fd i pixelformat min_width min_height) w in
      if ret a < 0 then Some (0, ivals, w)
      else let (m, w) = sys k Malloc w in
        if ret m < 0 then Some (- ENOMEM, ivals, w)
        else case ival_of a of
            None \<Rightarrow> Some (- EINVAL, ivals, w)
          | Some ival \<Rightarrow>
              enum_ivals_loop k fd pixelformat min_width min_height (i + 1) (ivals @ [ival]) w)"

definition v4l2_enum_frame_intervals ::
  "os \<Rightarrow> int \<Rightarrow> u32 \<Rightarrow> v4l2_frame_desc \<Rightarrow> world \<Rightarrow> (int \<times> v4l2_frame_desc \<times> world) option" where
  "v4l2_enum_frame_intervals k fd pixelformat frame w =
     map_option (\<lambda>(r, ivals, w). (r, frame\<lparr>fd_ivals := ivals\<rparr>, w))
       (enum_ivals_loop k fd pixelformat (fd_min_width frame) (fd_min_height frame) 0 (fd_ivals frame) w)"

text \<open>
  The numbers of a discrete size are width and height; of the others least and greatest width,
  step, least and greatest height, step. A continuous size keeps the step of 1.
\<close>

definition frame_of :: "answer \<Rightarrow> v4l2_frame_desc option" where
  "frame_of a =
     (let n = a_nums a in
      if a_type a = 1
      then Some \<lparr>fd_min_width = n ! 0, fd_min_height = n ! 1, fd_max_width = n ! 0, fd_max_height = n ! 1,
                 fd_step_width = 1, fd_step_height = 1, fd_ivals = []\<rparr>
      else if a_type a = 2 \<or> a_type a = 3
      then Some \<lparr>fd_min_width = n ! 0, fd_min_height = n ! 3, fd_max_width = n ! 1, fd_max_height = n ! 4,
                 fd_step_width = (if a_type a = 3 then n ! 2 else 1),
                 fd_step_height = (if a_type a = 3 then n ! 5 else 1), fd_ivals = []\<rparr>
      else None)"

partial_function (option) v4l2_enum_frame_sizes ::
  "os \<Rightarrow> int \<Rightarrow> u32 \<Rightarrow> u32 \<Rightarrow> v4l2_frame_desc list \<Rightarrow> world \<Rightarrow>
   (int \<times> v4l2_frame_desc list \<times> world) option" where
  "v4l2_enum_frame_sizes k fd pixelformat i frames w =
     (let (a, w) = sys k (Enum_Framesizes fd i pixelformat) w in
      if ret a < 0 then Some (0, frames, w)
      else let (m, w) = sys k Malloc w in
        if ret m < 0 then Some (- ENOMEM, frames, w)
        else case frame_of a of
            None \<Rightarrow> Some (- EINVAL, frames, w)
          | Some frame \<Rightarrow>
              Option.bind (v4l2_enum_frame_intervals k fd pixelformat frame w)
                (\<lambda>(r, frame, w).
                  if r < 0 then Some (r, frames @ [frame], w)
                  else v4l2_enum_frame_sizes k fd pixelformat (i + 1) (frames @ [frame]) w))"

partial_function (option) enum_formats_loop ::
  "os \<Rightarrow> int \<Rightarrow> u32 \<Rightarrow> u32 \<Rightarrow> v4l2_format_desc list \<Rightarrow> world \<Rightarrow>
   (int \<times> v4l2_format_desc list \<times> world) option" where
  "enum_formats_loop k fd type i formats w =
     (let (a, w) = sys k (Enum_Fmt fd i type) w in
      if ret a < 0 then Some (0, formats, w)
      else let (m, w) = sys k Malloc w in
        if ret m < 0 then Some (- ENOMEM, formats, w)
        else let pixelformat = a_nums a ! 0 in
          Option.bind (v4l2_enum_frame_sizes k fd pixelformat 0 [] w)
            (\<lambda>(r, frames, w).
              let format = \<lparr>fm_pixelformat = pixelformat, fm_frames = frames\<rparr> in
              if r < 0 then Some (r, formats @ [format], w)
              else enum_formats_loop k fd type (i + 1) (formats @ [format]) w))"

definition v4l2_enum_formats :: "os \<Rightarrow> v4l2_device \<Rightarrow> world \<Rightarrow> (int \<times> v4l2_device \<times> world) option" where
  "v4l2_enum_formats k dev w =
     map_option (\<lambda>(r, formats, w). (r, dev\<lparr>dev_formats := formats\<rparr>, w))
       (enum_formats_loop k (dev_fd dev) (dev_type dev) 0 (dev_formats dev) w)"

section \<open>Open and close\<close>

definition no_pix :: v4l2_pix_format where
  "no_pix = \<lparr>px_width = 0, px_height = 0, px_pixelformat = 0, px_field = 0, px_sizeimage = 0, px_rest = []\<rparr>"

definition no_rect :: rect where
  "no_rect = \<lparr>rc_left = 0, rc_top = 0, rc_width = 0, rc_height = 0\<rparr>"

definition no_buffers :: video_buffer_set where
  "no_buffers = \<lparr>nbufs = 0, buffers = None\<rparr>"

definition new_device :: "string \<Rightarrow> v4l2_device" where
  "new_device devname =
     \<lparr>dev_fd = -1, dev_name = devname, dev_type = 0, dev_memtype = 0, dev_formats = [],
      dev_format = no_pix, dev_crop = no_rect, dev_fps = 0, dev_buffers = no_buffers\<rparr>"

text \<open>Closing frees the descriptions and the name, and closes the descriptor, whatever it is.\<close>

definition v4l2_close :: "os \<Rightarrow> v4l2_device option \<Rightarrow> world \<Rightarrow> world" where
  "v4l2_close k dev w =
     (case dev of None \<Rightarrow> w | Some dev \<Rightarrow> snd (sys k (Close (dev_fd dev)) w))"

definition v4l2_open :: "os \<Rightarrow> string \<Rightarrow> world \<Rightarrow> (v4l2_device option \<times> world) option" where
  "v4l2_open k devname w =
     (let (m, w) = sys k Malloc w in
      if ret m < 0 then Some (None, w)
      else let dev = new_device devname;
               (a, w) = sys k (Open devname) w;
               dev = dev\<lparr>dev_fd := ret a\<rparr>
        in if dev_fd dev < 0 then Some (None, v4l2_close k (Some dev) w)
           else let (cap, w) = sys k (Querycap (dev_fd dev)) w in
             if ret cap < 0 then Some (None, v4l2_close k (Some dev) w)
             else let (device_caps, caps) = a_caps cap;
                      capabilities = (if device_caps \<noteq> 0 then device_caps else caps)
               in if capabilities AND V4L2_CAP_VIDEO_CAPTURE = 0 \<and>
                     capabilities AND V4L2_CAP_VIDEO_OUTPUT = 0
                  then Some (None, v4l2_close k (Some dev) w)
                  else let dev = dev\<lparr>dev_type :=
                             (if capabilities AND V4L2_CAP_VIDEO_CAPTURE \<noteq> 0
                              then V4L2_BUF_TYPE_VIDEO_CAPTURE else V4L2_BUF_TYPE_VIDEO_OUTPUT)\<rparr>
                    in map_option (\<lambda>(r, dev, w).
                         if r < 0 then (None, v4l2_close k (Some dev) w) else (Some dev, w))
                       (v4l2_enum_formats k dev w))"

section \<open>Controls\<close>

definition v4l2_get_control ::
  "os \<Rightarrow> v4l2_device \<Rightarrow> u32 \<Rightarrow> int \<Rightarrow> world \<Rightarrow> (int \<times> int) \<times> world" where
  "v4l2_get_control k dev cid value w =
     (let (a, w) = sys k (G_Ctrl (dev_fd dev) cid) w in
      if ret a < 0 then ((- errno a, value), w) else ((0, a_value a), w))"

definition v4l2_set_control ::
  "os \<Rightarrow> v4l2_device \<Rightarrow> u32 \<Rightarrow> int \<Rightarrow> world \<Rightarrow> (int \<times> int) \<times> world" where
  "v4l2_set_control k dev cid value w =
     (let (a, w) = sys k (S_Ctrl (dev_fd dev) cid value) w in
      if ret a < 0 then ((- errno a, value), w) else ((0, a_value a), w))"

text \<open>The kernel updates the caller's array in place, also when it fails.\<close>

definition v4l2_get_controls ::
  "os \<Rightarrow> v4l2_device \<Rightarrow> (u32 \<times> int) list \<Rightarrow> world \<Rightarrow> (int \<times> (u32 \<times> int) list) \<times> world" where
  "v4l2_get_controls k dev ctrls w =
     (let (a, w) = sys k (G_Ext_Ctrls (dev_fd dev) ctrls) w in ((ret a, a_values a), w))"

definition v4l2_set_controls ::
  "os \<Rightarrow> v4l2_device \<Rightarrow> (u32 \<times> int) list \<Rightarrow> world \<Rightarrow> (int \<times> (u32 \<times> int) list) \<times> world" where
  "v4l2_set_controls k dev ctrls w =
     (let (a, w) = sys k (S_Ext_Ctrls (dev_fd dev) ctrls) w in ((ret a, a_values a), w))"

section \<open>Formats and frame rates\<close>

definition v4l2_get_crop ::
  "os \<Rightarrow> v4l2_device \<Rightarrow> rect \<Rightarrow> world \<Rightarrow> (int \<times> v4l2_device \<times> rect) \<times> world" where
  "v4l2_get_crop k dev r w =
     (let (a, w) = sys k (G_Crop (dev_fd dev) (dev_type dev)) w in
      if ret a < 0 then ((- errno a, dev, r), w)
      else ((0, dev\<lparr>dev_crop := a_rect a\<rparr>, a_rect a), w))"

definition v4l2_set_crop ::
  "os \<Rightarrow> v4l2_device \<Rightarrow> rect \<Rightarrow> world \<Rightarrow> (int \<times> v4l2_device \<times> rect) \<times> world" where
  "v4l2_set_crop k dev r w =
     (let (a, w) = sys k (S_Crop (dev_fd dev) (dev_type dev) r) w in
      if ret a < 0 then ((- errno a, dev, r), w)
      else ((0, dev\<lparr>dev_crop := a_rect a\<rparr>, a_rect a), w))"

definition v4l2_get_format ::
  "os \<Rightarrow> v4l2_device \<Rightarrow> v4l2_pix_format \<Rightarrow> world \<Rightarrow> (int \<times> v4l2_device \<times> v4l2_pix_format) \<times> world" where
  "v4l2_get_format k dev f w =
     (let (a, w) = sys k (G_Fmt (dev_fd dev) (dev_type dev)) w in
      if ret a < 0 then ((- errno a, dev, f), w)
      else ((0, dev\<lparr>dev_format := a_pix a\<rparr>, a_pix a), w))"

text \<open>Only size and pixel format are passed on; the field order is left to the driver.\<close>

definition v4l2_set_format ::
  "os \<Rightarrow> v4l2_device \<Rightarrow> v4l2_pix_format \<Rightarrow> world \<Rightarrow> (int \<times> v4l2_device \<times> v4l2_pix_format) \<times> world" where
  "v4l2_set_format k dev f w =
     (let pix = no_pix\<lparr>px_width := px_width f, px_height := px_height f,
                       px_pixelformat := px_pixelformat f, px_field := 0\<rparr>;
          (a, w) = sys k (S_Fmt (dev_fd dev) (dev_type dev) pix) w in
      if ret a < 0 then ((- errno a, dev, f), w)
      else ((0, dev\<lparr>dev_format := a_pix a\<rparr>, a_pix a), w))"

definition v4l2_set_frame_rate ::
  "os \<Rightarrow> v4l2_device \<Rightarrow> u32 \<Rightarrow> world \<Rightarrow> (int \<times> v4l2_device) \<times> world" where
  "v4l2_set_frame_rate k dev fps w =
     (let (a, w) = sys k (S_Parm (dev_fd dev) (dev_type dev) 1 fps) w in
      if ret a < 0 then ((- errno a, dev), w) else ((0, dev\<lparr>dev_fps := fps\<rparr>), w))"

section \<open>Buffers\<close>

definition zero_buffer :: video_buffer where
  "zero_buffer = \<lparr>vb_index = 0, vb_size = 0, vb_bytesused = 0, vb_timestamp = 0, vb_error = False,
                  vb_mem = None, vb_dmabuf = 0\<rparr>"

definition video_buffer_set_new :: "os \<Rightarrow> nat \<Rightarrow> world \<Rightarrow> video_buffer_set option \<times> world" where
  "video_buffer_set_new k n w =
     (let (m, w) = sys k Malloc w in
      if ret m < 0 then (None, w)
      else let (c, w) = sys k (Calloc n) w in
        if ret c < 0 then (None, w)
        else (Some \<lparr>nbufs = n, buffers = Some (replicate n zero_buffer)\<rparr>, w))"

text \<open>An element of a buffer array, and its update; a null array or an index behind its end faults.\<close>

definition buffer_at :: "video_buffer_set \<Rightarrow> nat \<Rightarrow> video_buffer mem" where
  "buffer_at bs i =
     (case buffers bs of None \<Rightarrow> Fault | Some xs \<Rightarrow> if i < length xs then Ret (xs ! i) else Fault)"

definition set_buffer :: "nat \<Rightarrow> video_buffer \<Rightarrow> v4l2_device \<Rightarrow> v4l2_device" where
  "set_buffer i b dev = dev\<lparr>dev_buffers :=
     (dev_buffers dev)\<lparr>buffers := map_option (\<lambda>xs. xs[i := b]) (buffers (dev_buffers dev))\<rparr>\<rparr>"

text \<open>Unmapping and closing the buffers, from the \<open>i\<close>-th on, \<open>n\<close> of them.\<close>

fun release_loop :: "os \<Rightarrow> nat \<Rightarrow> nat \<Rightarrow> v4l2_device \<Rightarrow> world \<Rightarrow> (int \<times> v4l2_device \<times> world) mem" where
  "release_loop k 0 i dev w = Ret (0, dev, w)"
| "release_loop k (Suc n) i dev w =
     (case buffer_at (dev_buffers dev) i of
        Fault \<Rightarrow> Fault
      | Ret b \<Rightarrow>
          (let (u, w) = (case vb_mem b of
                 None \<Rightarrow> (None, w)
               | Some p \<Rightarrow> (case sys k (Munmap p (vb_size b)) w of (a, w) \<Rightarrow> (Some a, w)))
           in case u of
                Some a \<Rightarrow>
                  if ret a < 0 then Ret (- errno a, dev, w)
                  else (let w = (if vb_dmabuf b \<noteq> -1 then snd (sys k (Close (vb_dmabuf b)) w) else w)
                        in release_loop k n (i + 1)
                             (set_buffer i (b\<lparr>vb_mem := None, vb_dmabuf := -1, vb_size := 0\<rparr>) dev) w)
              | None \<Rightarrow>
                  (let w = (if vb_dmabuf b \<noteq> -1 then snd (sys k (Close (vb_dmabuf b)) w) else w)
                   in release_loop k n (i + 1)
                        (set_buffer i (b\<lparr>vb_dmabuf := -1, vb_size := 0\<rparr>) dev) w)))"

definition v4l2_free_buffers :: "os \<Rightarrow> v4l2_device \<Rightarrow> world \<Rightarrow> (int \<times> v4l2_device \<times> world) mem" where
  "v4l2_free_buffers k dev w =
     (if nbufs (dev_buffers dev) = 0 then Ret (0, dev, w)
      else case release_loop k (nbufs (dev_buffers dev)) 0 dev w of
          Fault \<Rightarrow> Fault
        | Ret (r, dev, w) \<Rightarrow>
            if r < 0 then Ret (r, dev, w)
            else let (a, w) = sys k (Reqbufs (dev_fd dev) 0 (dev_type dev) (dev_memtype dev)) w in
              if ret a < 0 then Ret (- errno a, dev, w)
              else Ret (0, dev\<lparr>dev_buffers := no_buffers\<rparr>, w))"

text \<open>The new buffer objects get their index and no descriptor.\<close>

definition fresh_buffers :: "nat \<Rightarrow> nat \<Rightarrow> video_buffer list" where
  "fresh_buffers n count =
     map (\<lambda>i. zero_buffer\<lparr>vb_index := word_of_nat i, vb_dmabuf := -1\<rparr>) [0..<count] @
     replicate (n - count) zero_buffer"

text \<open>On failure the buffers are released by \<^verbatim>\<open>v4l2_free_buffers\<close>, whose result is ignored.\<close>

definition alloc_failed :: "os \<Rightarrow> int \<Rightarrow> v4l2_device \<Rightarrow> world \<Rightarrow> (int \<times> v4l2_device \<times> world) mem" where
  "alloc_failed k r dev w =
     (case v4l2_free_buffers k dev w of Fault \<Rightarrow> Fault | Ret (_, dev, w) \<Rightarrow> Ret (r, dev, w))"

definition v4l2_alloc_buffers ::
  "os \<Rightarrow> v4l2_device \<Rightarrow> u32 \<Rightarrow> nat \<Rightarrow> world \<Rightarrow> (int \<times> v4l2_device \<times> world) mem" where
  "v4l2_alloc_buffers k dev memtype n w =
     (if nbufs (dev_buffers dev) \<noteq> 0 then Ret (- EBUSY, dev, w)
      else if memtype \<noteq> V4L2_MEMORY_MMAP \<and> memtype \<noteq> V4L2_MEMORY_DMABUF then Ret (- EINVAL, dev, w)
      else let (rb, w) = sys k (Reqbufs (dev_fd dev) n (dev_type dev) memtype) w in
        if ret rb < 0 then alloc_failed k (- errno rb) dev w
        else if a_count rb > n then alloc_failed k (- E2BIG) dev w
        else let dev = dev\<lparr>dev_memtype := memtype, dev_buffers := \<lparr>nbufs = a_count rb, buffers = None\<rparr>\<rparr>;
                 (c, w) = sys k (Calloc n) w in
          if ret c < 0 then alloc_failed k (- ENOMEM) dev w
          else Ret (0, dev\<lparr>dev_buffers :=
                  \<lparr>nbufs = a_count rb, buffers = Some (fresh_buffers n (a_count rb))\<rparr>\<rparr>, w))"

text \<open>The loops of export, import and mapping: \<open>n\<close> buffers from the \<open>i\<close>-th on.\<close>

fun export_loop :: "os \<Rightarrow> nat \<Rightarrow> nat \<Rightarrow> v4l2_device \<Rightarrow> world \<Rightarrow> (int \<times> v4l2_device \<times> world) mem" where
  "export_loop k 0 i dev w = Ret (0, dev, w)"
| "export_loop k (Suc n) i dev w =
     (let (buf, w) = sys k (Querybuf (dev_fd dev) i (dev_type dev) (dev_memtype dev)) w in
      if ret buf < 0 then Ret (- errno buf, dev, w)
      else let (e, w) = sys k (Expbuf (dev_fd dev) i (dev_type dev)) w in
        if ret e < 0 then Ret (- errno e, dev, w)
        else case buffer_at (dev_buffers dev) i of
            Fault \<Rightarrow> Fault
          | Ret b \<Rightarrow> export_loop k n (i + 1)
              (set_buffer i (b\<lparr>vb_size := a_length buf, vb_dmabuf := a_fd e\<rparr>) dev) w)"

definition v4l2_export_buffers :: "os \<Rightarrow> v4l2_device \<Rightarrow> world \<Rightarrow> (int \<times> v4l2_device \<times> world) mem" where
  "v4l2_export_buffers k dev w =
     (if nbufs (dev_buffers dev) = 0 then Ret (- EINVAL, dev, w)
      else if dev_memtype dev \<noteq> V4L2_MEMORY_MMAP then Ret (- EINVAL, dev, w)
      else export_loop k (nbufs (dev_buffers dev)) 0 dev w)"

text \<open>When duplicating a descriptor fails, \<^verbatim>\<open>ret\<close> still holds the result of the query before it.\<close>

fun import_loop ::
  "os \<Rightarrow> nat \<Rightarrow> nat \<Rightarrow> video_buffer_set \<Rightarrow> v4l2_device \<Rightarrow> world \<Rightarrow> (int \<times> v4l2_device \<times> world) mem" where
  "import_loop k 0 i bufs dev w = Ret (0, dev, w)"
| "import_loop k (Suc n) i bufs dev w =
     (let (buf, w) = sys k (Querybuf (dev_fd dev) i (dev_type dev) (dev_memtype dev)) w in
      if ret buf < 0 then Ret (- errno buf, dev, w)
      else case buffer_at bufs i of
          Fault \<Rightarrow> Fault
        | Ret buffer \<Rightarrow>
            if vb_size buffer < a_length buf then Ret (- EINVAL, dev, w)
            else let (d, w) = sys k (Dup (vb_dmabuf buffer)) w in
              if ret d < 0 then Ret (ret buf, dev, w)
              else case buffer_at (dev_buffers dev) i of
                  Fault \<Rightarrow> Fault
                | Ret b \<Rightarrow> import_loop k n (i + 1) bufs
                    (set_buffer i (b\<lparr>vb_dmabuf := ret d, vb_size := vb_size buffer\<rparr>) dev) w)"

definition v4l2_import_buffers ::
  "os \<Rightarrow> v4l2_device \<Rightarrow> video_buffer_set \<Rightarrow> world \<Rightarrow> (int \<times> v4l2_device \<times> world) mem" where
  "v4l2_import_buffers k dev bufs w =
     (if nbufs (dev_buffers dev) = 0 \<or> nbufs (dev_buffers dev) > nbufs bufs then Ret (- EINVAL, dev, w)
      else if dev_memtype dev \<noteq> V4L2_MEMORY_DMABUF then Ret (- EINVAL, dev, w)
      else import_loop k (nbufs (dev_buffers dev)) 0 bufs dev w)"

text \<open>A mapping answers its address.\<close>

fun mmap_loop :: "os \<Rightarrow> nat \<Rightarrow> nat \<Rightarrow> v4l2_device \<Rightarrow> world \<Rightarrow> (int \<times> v4l2_device \<times> world) mem" where
  "mmap_loop k 0 i dev w = Ret (0, dev, w)"
| "mmap_loop k (Suc n) i dev w =
     (let (buf, w) = sys k (Querybuf (dev_fd dev) i (dev_type dev) (dev_memtype dev)) w in
      if ret buf < 0 then Ret (- errno buf, dev, w)
      else let (m, w) = sys k (Mmap (dev_fd dev) (a_length buf) (a_offset buf)) w in
        if ret m < 0 then Ret (- errno m, dev, w)
        else case buffer_at (dev_buffers dev) i of
            Fault \<Rightarrow> Fault
          | Ret b \<Rightarrow> mmap_loop k n (i + 1)
              (set_buffer i (b\<lparr>vb_mem := Some (nat (ret m)), vb_size := a_length buf\<rparr>) dev) w)"

definition v4l2_mmap_buffers :: "os \<Rightarrow> v4l2_device \<Rightarrow> world \<Rightarrow> (int \<times> v4l2_device \<times> world) mem" where
  "v4l2_mmap_buffers k dev w =
     (if dev_memtype dev \<noteq> V4L2_MEMORY_MMAP then Ret (- EINVAL, dev, w)
      else mmap_loop k (nbufs (dev_buffers dev)) 0 dev w)"

definition v4l2_dequeue_buffer ::
  "os \<Rightarrow> v4l2_device \<Rightarrow> video_buffer \<Rightarrow> world \<Rightarrow> (int \<times> video_buffer) \<times> world" where
  "v4l2_dequeue_buffer k dev buffer w =
     (let (a, w) = sys k (Dqbuf (dev_fd dev) (dev_type dev) (dev_memtype dev)) w in
      if ret a < 0 then ((- errno a, buffer), w)
      else ((0, buffer\<lparr>vb_index := a_index a, vb_bytesused := a_bytesused a,
                       vb_timestamp := a_timestamp a,
                       vb_error := (a_flags a AND V4L2_BUF_FLAG_ERROR \<noteq> 0)\<rparr>), w))"

definition v4l2_queue_buffer :: "os \<Rightarrow> v4l2_device \<Rightarrow> video_buffer \<Rightarrow> world \<Rightarrow> (int \<times> world) mem" where
  "v4l2_queue_buffer k dev buffer w =
     (if unat (vb_index buffer) \<ge> nbufs (dev_buffers dev) then Ret (- EINVAL, w)
      else case (if dev_memtype dev = V4L2_MEMORY_DMABUF
                 then buffer_at (dev_buffers dev) (unat (vb_index buffer)) else Ret zero_buffer) of
          Fault \<Rightarrow> Fault
        | Ret b \<Rightarrow>
            (let (a, w) = sys k (Qbuf (dev_fd dev)
                   \<lparr>q_index = vb_index buffer, q_type = dev_type dev, q_memory = dev_memtype dev,
                    q_fd = vb_dmabuf b,
                    q_bytesused = (if dev_type dev = V4L2_BUF_TYPE_VIDEO_OUTPUT
                                   then vb_bytesused buffer else 0)\<rparr>) w
             in if ret a < 0 then Ret (- errno a, w) else Ret (0, w)))"

section \<open>Streaming\<close>

definition v4l2_stream_on :: "os \<Rightarrow> v4l2_device \<Rightarrow> world \<Rightarrow> int \<times> world" where
  "v4l2_stream_on k dev w =
     (let (a, w) = sys k (Streamon (dev_fd dev) (dev_type dev)) w in
      if ret a < 0 then (- errno a, w) else (0, w))"

definition v4l2_stream_off :: "os \<Rightarrow> v4l2_device \<Rightarrow> world \<Rightarrow> int \<times> world" where
  "v4l2_stream_off k dev w =
     (let (a, w) = sys k (Streamoff (dev_fd dev) (dev_type dev)) w in
      if ret a < 0 then (- errno a, w) else (0, w))"

section \<open>Buffers stay well-formed\<close>

text \<open>The array has at least as many elements as the count says, or both are empty.\<close>

definition wf_set :: "video_buffer_set \<Rightarrow> bool" where
  "wf_set bs \<longleftrightarrow> (case buffers bs of None \<Rightarrow> nbufs bs = 0 | Some xs \<Rightarrow> nbufs bs \<le> length xs)"

definition wf_device :: "v4l2_device \<Rightarrow> bool" where
  "wf_device dev \<longleftrightarrow> wf_set (dev_buffers dev)"

definition same_shape :: "v4l2_device \<Rightarrow> v4l2_device \<Rightarrow> bool" where
  "same_shape d e \<longleftrightarrow> nbufs (dev_buffers e) = nbufs (dev_buffers d) \<and>
     map_option length (buffers (dev_buffers e)) = map_option length (buffers (dev_buffers d)) \<and>
     dev_fd e = dev_fd d \<and> dev_type e = dev_type d \<and> dev_memtype e = dev_memtype d"

lemma same_shape_refl [simp]: "same_shape d d"
  by (simp add: same_shape_def)

lemma same_shape_set_buffer [simp]: "same_shape d (set_buffer i b e) = same_shape d e"
  by (auto simp: same_shape_def set_buffer_def option.map_comp comp_def)

lemma same_shape_trans: "same_shape d e \<Longrightarrow> same_shape e f \<Longrightarrow> same_shape d f"
  by (simp add: same_shape_def)

lemma same_shape_wf: "same_shape d e \<Longrightarrow> wf_device e = wf_device d"
  by (auto simp: same_shape_def wf_device_def wf_set_def split: option.splits)

lemma buffer_at_wf: "wf_set bs \<Longrightarrow> i < nbufs bs \<Longrightarrow> \<exists>b. buffer_at bs i = Ret b"
  by (auto simp: wf_set_def buffer_at_def split: option.splits)

text \<open>What a loop over buffers answers: an outcome with a device of the same shape.\<close>

definition shaped :: "v4l2_device \<Rightarrow> (int \<times> v4l2_device \<times> world) mem \<Rightarrow> bool" where
  "shaped d res \<longleftrightarrow> (\<exists>r e w. res = Ret (r, e, w) \<and> same_shape d e)"

lemma shaped_Ret [simp]: "shaped d (Ret (r, e, w)) = same_shape d e"
  by (simp add: shaped_def)

lemma nbufs_shape: "same_shape d e \<Longrightarrow> nbufs (dev_buffers e) = nbufs (dev_buffers d)"
  by (simp add: same_shape_def)

lemma wf_buffer_at:
  assumes "wf_device d" "same_shape d e" "i < nbufs (dev_buffers d)"
  obtains b where "buffer_at (dev_buffers e) i = Ret b"
  using buffer_at_wf [of "dev_buffers e" i] assms same_shape_wf [OF assms(2)] nbufs_shape [OF assms(2)]
  by (auto simp: wf_device_def)

lemma release_loop_shaped:
  assumes "wf_device d"
  shows "same_shape d e \<Longrightarrow> i + n \<le> nbufs (dev_buffers d) \<Longrightarrow> shaped d (release_loop k n i e w)"
proof (induction n arbitrary: i e w)
  case (Suc n)
  obtain b where b: "buffer_at (dev_buffers e) i = Ret b"
    using wf_buffer_at [OF assms Suc.prems(1), of i] Suc.prems(2) by auto
  show ?case
    using Suc by (auto simp: b Let_def split_def split: option.split)
qed simp

lemma export_loop_shaped:
  assumes "wf_device d"
  shows "same_shape d e \<Longrightarrow> i + n \<le> nbufs (dev_buffers d) \<Longrightarrow> shaped d (export_loop k n i e w)"
proof (induction n arbitrary: i e w)
  case (Suc n)
  obtain b where b: "buffer_at (dev_buffers e) i = Ret b"
    using wf_buffer_at [OF assms Suc.prems(1), of i] Suc.prems(2) by auto
  show ?case using Suc by (simp add: b Let_def split_def)
qed simp

lemma import_loop_shaped:
  assumes "wf_device d" "wf_set bufs"
  shows "same_shape d e \<Longrightarrow> i + n \<le> nbufs (dev_buffers d) \<Longrightarrow> i + n \<le> nbufs bufs \<Longrightarrow>
    shaped d (import_loop k n i bufs e w)"
proof (induction n arbitrary: i e w)
  case (Suc n)
  obtain b where b: "buffer_at (dev_buffers e) i = Ret b"
    using wf_buffer_at [OF assms(1) Suc.prems(1), of i] Suc.prems(2) by auto
  obtain c where c: "buffer_at bufs i = Ret c"
    using buffer_at_wf [OF assms(2), of i] Suc.prems(3) by auto
  show ?case using Suc by (simp add: b c Let_def split_def)
qed simp

lemma mmap_loop_shaped:
  assumes "wf_device d"
  shows "same_shape d e \<Longrightarrow> i + n \<le> nbufs (dev_buffers d) \<Longrightarrow> shaped d (mmap_loop k n i e w)"
proof (induction n arbitrary: i e w)
  case (Suc n)
  obtain b where b: "buffer_at (dev_buffers e) i = Ret b"
    using wf_buffer_at [OF assms Suc.prems(1), of i] Suc.prems(2) by auto
  show ?case using Suc by (simp add: b Let_def split_def)
qed simp

lemma shaped_wf: "wf_device d \<Longrightarrow> shaped d res \<Longrightarrow> \<exists>r e w. res = Ret (r, e, w) \<and> wf_device e"
  by (auto simp: shaped_def dest: same_shape_wf)

lemma wf_no_buffers [simp]: "wf_device (d\<lparr>dev_buffers := no_buffers\<rparr>)"
  by (simp add: wf_device_def wf_set_def no_buffers_def)

lemma free_buffers_wf:
  assumes "wf_device d"
  shows "\<exists>r e w'. v4l2_free_buffers k d w = Ret (r, e, w') \<and> wf_device e"
proof (cases "nbufs (dev_buffers d) = 0")
  case True
  then show ?thesis using assms by (simp add: v4l2_free_buffers_def)
next
  case False
  obtain r e w' where "release_loop k (nbufs (dev_buffers d)) 0 d w = Ret (r, e, w')" "same_shape d e"
    using release_loop_shaped [OF assms, of d 0 "nbufs (dev_buffers d)" k w] by (auto simp: shaped_def)
  then show ?thesis
    using assms same_shape_wf by (auto simp: v4l2_free_buffers_def Let_def split_def)
qed

text \<open>Releasing a buffer: the calls it takes, and the buffer afterwards.\<close>

definition release_calls :: "video_buffer \<Rightarrow> sys list" where
  "release_calls b =
     (case vb_mem b of None \<Rightarrow> [] | Some p \<Rightarrow> [Munmap p (vb_size b)]) @
     (if vb_dmabuf b \<noteq> -1 then [Close (vb_dmabuf b)] else [])"

lemma release_loop_value:
  assumes "buffers (dev_buffers dev) = Some xs" "i + n \<le> length xs"
    and "release_loop k n i dev w = Ret (r, dev', w')" "0 \<le> r" "errno_positive k"
  shows "r = 0 \<and> w' = w @ concat (map release_calls (take n (drop i xs)))"
  using assms(1-3)
proof (induction n arbitrary: i dev w xs)
  case 0
  then show ?case by simp
next
  case (Suc n)
  let ?b = "xs ! i"
  have i: "i < length xs" "buffer_at (dev_buffers dev) i = Ret ?b"
    using Suc.prems by (auto simp: buffer_at_def)
  define b' where "b' = ?b\<lparr>vb_mem := None, vb_dmabuf := -1, vb_size := 0\<rparr>"
  have b': "vb_mem ?b = None \<Longrightarrow> ?b\<lparr>vb_dmabuf := -1, vb_size := 0\<rparr> = b'"
    by (simp add: b'_def)
  have e: "ret (k u c) < 0 \<Longrightarrow> (errno (k u c) \<le> 0) = False" for u c
    using assms(5) by (force simp: errno_positive_def not_le)
  have "release_loop k n (i + 1) (set_buffer i b' dev) (w @ release_calls ?b) = Ret (r, dev', w')"
    using Suc.prems(3) assms(4)
    by (auto simp: e i sys_def Let_def release_calls_def b' b'_def split: option.splits if_splits)
  moreover have "buffers (dev_buffers (set_buffer i b' dev)) = Some (xs[i := b'])"
    using Suc.prems(1) by (simp add: set_buffer_def)
  ultimately have "r = 0 \<and> w' = (w @ release_calls ?b) @ concat (map release_calls (take n (drop (i + 1) (xs[i := b']))))"
    using Suc.prems(2) by (intro Suc.IH) auto
  then show ?case using i by (simp add: Cons_nth_drop_Suc [symmetric])
qed

lemma queue_buffer_no_fault:
  assumes "wf_device d"
  shows "v4l2_queue_buffer k d b w \<noteq> Fault"
proof (cases "unat (vb_index b) < nbufs (dev_buffers d)")
  case True
  obtain c where "buffer_at (dev_buffers d) (unat (vb_index b)) = Ret c"
    using buffer_at_wf [of "dev_buffers d", OF _ True] assms by (auto simp: wf_device_def)
  then show ?thesis by (simp add: v4l2_queue_buffer_def Let_def split_def)
next
  case False
  then show ?thesis by (simp add: v4l2_queue_buffer_def)
qed

lemma alloc_failed_wf:
  assumes "wf_device d"
  shows "\<exists>r e w'. alloc_failed k r0 d w = Ret (r, e, w') \<and> wf_device e"
  using free_buffers_wf [OF assms, of k w] by (auto simp: alloc_failed_def)

lemma release_null_array:
  "buffers (dev_buffers d) = None \<Longrightarrow> nbufs (dev_buffers d) = Suc n \<Longrightarrow> v4l2_free_buffers k d w = Fault"
  by (simp add: v4l2_free_buffers_def buffer_at_def)

lemma alloc_buffers_outcome:
  fixes d :: v4l2_device and mt :: u32 and n :: nat
  assumes "wf_device d"
  defines "R \<equiv> Reqbufs (dev_fd d) n (dev_type d) mt"
  shows "(\<exists>r e w'. v4l2_alloc_buffers k d mt n w = Ret (r, e, w') \<and> wf_device e) \<or>
    v4l2_alloc_buffers k d mt n w = Fault \<and> nbufs (dev_buffers d) = 0 \<and>
      0 < a_count (k w R) \<and> ret (k (w @ [R]) (Calloc n)) < 0"
proof (cases "nbufs (dev_buffers d) \<noteq> 0 \<or> mt \<noteq> V4L2_MEMORY_MMAP \<and> mt \<noteq> V4L2_MEMORY_DMABUF")
  case True
  then show ?thesis using assms by (auto simp: v4l2_alloc_buffers_def)
next
  case ok: False
  consider "ret (k w R) < 0" | "0 \<le> ret (k w R)" "n < a_count (k w R)"
    | "0 \<le> ret (k w R)" "a_count (k w R) \<le> n" by linarith
  then show ?thesis
  proof cases
    case 1
    then have "v4l2_alloc_buffers k d mt n w = alloc_failed k (- errno (k w R)) d (w @ [R])"
      using ok by (auto simp: v4l2_alloc_buffers_def sys_def R_def)
    then show ?thesis using alloc_failed_wf [OF assms(1)] by metis
  next
    case 2
    then have "v4l2_alloc_buffers k d mt n w = alloc_failed k (- E2BIG) d (w @ [R])"
      using ok by (auto simp: v4l2_alloc_buffers_def sys_def R_def)
    then show ?thesis using alloc_failed_wf [OF assms(1)] by metis
  next
    case 3
    let ?d = "d\<lparr>dev_memtype := mt, dev_buffers := \<lparr>nbufs = a_count (k w R), buffers = None\<rparr>\<rparr>"
    show ?thesis
    proof (cases "ret (k (w @ [R]) (Calloc n)) < 0")
      case True
      have e: "v4l2_alloc_buffers k d mt n w = alloc_failed k (- ENOMEM) ?d (w @ [R, Calloc n])"
        using ok 3 True by (auto simp: v4l2_alloc_buffers_def sys_def R_def)
      show ?thesis
      proof (cases "a_count (k w R)")
        case 0
        then have "wf_device ?d" by (simp add: wf_device_def wf_set_def)
        then show ?thesis using alloc_failed_wf e by metis
      next
        case (Suc m)
        then have "v4l2_free_buffers k ?d (w @ [R, Calloc n]) = Fault" by (simp add: release_null_array)
        then show ?thesis using e True Suc ok by (simp add: alloc_failed_def)
      qed
    next
      case False
      have "length (fresh_buffers n (a_count (k w R))) = n" using 3 by (simp add: fresh_buffers_def)
      then show ?thesis
        using ok 3 False by (auto simp: v4l2_alloc_buffers_def sys_def R_def wf_device_def wf_set_def)
    qed
  qed
qed

section \<open>Properties\<close>

text \<open>A device with two exported buffers, and a kernel that accepts everything.\<close>

definition ok_answer :: answer where
  "ok_answer = \<lparr>ret = 0, errno = 0, a_caps = (1, 0), a_type = 1, a_nums = [], a_fracs = [], a_value = 0,
     a_values = [], a_rect = no_rect, a_pix = no_pix, a_count = 2, a_length = 64, a_offset = 0,
     a_fd = 9, a_index = 0, a_bytesused = 64, a_timestamp = 0, a_flags = 0,
     a_ready = ({}, {}, {}), a_bytes = []\<rparr>"

definition ok_os :: os where
  "ok_os w c = ok_answer"

definition sample_dev :: v4l2_device where
  "sample_dev = (new_device ''/dev/video0'')\<lparr>dev_fd := 3, dev_type := 1, dev_memtype := V4L2_MEMORY_MMAP,
     dev_buffers := \<lparr>nbufs = 2, buffers = Some
       [zero_buffer\<lparr>vb_size := 64, vb_dmabuf := 7\<rparr>,
        zero_buffer\<lparr>vb_index := 1, vb_size := 64, vb_mem := Some 4096, vb_dmabuf := -1\<rparr>]\<rparr>\<rparr>"

lemma sample_dev_wf: "wf_device sample_dev"
  by (simp add: wf_device_def wf_set_def sample_dev_def new_device_def)

text \<open>C37: every buffer operation on a device with a well-formed buffer array stays inside it and
  leaves it well-formed: releasing, exporting, importing from a well-formed set, mapping and
  queueing never fault, whatever the kernel answers.\<close>

theorem buffer_operations_safe:
  assumes "wf_device d" "wf_set src"
  shows "(\<exists>r e w'. v4l2_free_buffers k d w = Ret (r, e, w') \<and> wf_device e) \<and>
    (\<exists>r e w'. v4l2_export_buffers k d w = Ret (r, e, w') \<and> wf_device e) \<and>
    (\<exists>r e w'. v4l2_import_buffers k d src w = Ret (r, e, w') \<and> wf_device e) \<and>
    (\<exists>r e w'. v4l2_mmap_buffers k d w = Ret (r, e, w') \<and> wf_device e) \<and>
    v4l2_queue_buffer k d b w \<noteq> Fault"
proof (intro conjI)
  show "\<exists>r e w'. v4l2_free_buffers k d w = Ret (r, e, w') \<and> wf_device e"
    by (rule free_buffers_wf [OF assms(1)])
  show "\<exists>r e w'. v4l2_export_buffers k d w = Ret (r, e, w') \<and> wf_device e"
    using assms(1) shaped_wf [OF assms(1) export_loop_shaped [OF assms(1), of d 0 "nbufs (dev_buffers d)" k w]]
    by (auto simp: v4l2_export_buffers_def)
  show "\<exists>r e w'. v4l2_import_buffers k d src w = Ret (r, e, w') \<and> wf_device e"
    using assms(1) shaped_wf [OF assms(1) import_loop_shaped [OF assms, of d 0 "nbufs (dev_buffers d)" k w]]
    by (auto simp: v4l2_import_buffers_def)
  show "\<exists>r e w'. v4l2_mmap_buffers k d w = Ret (r, e, w') \<and> wf_device e"
    using assms(1) shaped_wf [OF assms(1) mmap_loop_shaped [OF assms(1), of d 0 "nbufs (dev_buffers d)" k w]]
    by (auto simp: v4l2_mmap_buffers_def)
  show "v4l2_queue_buffer k d b w \<noteq> Fault"
    by (rule queue_buffer_no_fault [OF assms(1)])
qed

theorem buffer_operations_safe_witness:
  "(\<exists>r e w'. v4l2_export_buffers ok_os sample_dev [] = Ret (r, e, w') \<and> wf_device e)"
  using buffer_operations_safe [OF sample_dev_wf, of "dev_buffers sample_dev" ok_os "[]" zero_buffer]
    sample_dev_wf by (simp add: wf_device_def)

text \<open>Allocating keeps the array well-formed with one exception, in which it uses a null
  pointer: when the kernel has granted buffers and the array for them cannot be allocated, the
  error path walks the array that does not exist.\<close>

theorem alloc_buffers_faults_without_memory:
  assumes "wf_device d"
  shows "case v4l2_alloc_buffers k d mt n w of
      Fault \<Rightarrow> nbufs (dev_buffers d) = 0 \<and>
        0 < a_count (k w (Reqbufs (dev_fd d) n (dev_type d) mt)) \<and>
        ret (k (w @ [Reqbufs (dev_fd d) n (dev_type d) mt]) (Calloc n)) < 0
    | Ret (r, e, w') \<Rightarrow> wf_device e"
  using alloc_buffers_outcome [where k = k and mt = mt and n = n and w = w, OF assms] by (auto split: mem.splits)

definition no_memory_os :: os where
  "no_memory_os w c = (case c of Calloc n \<Rightarrow> ok_answer\<lparr>ret := -1, errno := 12\<rparr> | _ \<Rightarrow> ok_answer)"

theorem alloc_buffers_faults_without_memory_witness:
  "v4l2_alloc_buffers no_memory_os (new_device ''/dev/video0'') V4L2_MEMORY_MMAP 4 [] = Fault \<and>
   (\<exists>r e w. v4l2_alloc_buffers ok_os (new_device ''/dev/video0'') V4L2_MEMORY_MMAP 4 [] = Ret (r, e, w) \<and>
      wf_device e)"
proof
  show "v4l2_alloc_buffers no_memory_os (new_device ''/dev/video0'') V4L2_MEMORY_MMAP 4 [] = Fault"
    by (simp add: v4l2_alloc_buffers_def new_device_def no_buffers_def sys_def no_memory_os_def ok_answer_def
        alloc_failed_def v4l2_free_buffers_def numeral_2_eq_2 buffer_at_def)
  have "wf_device (new_device ''/dev/video0'')"
    by (simp add: wf_device_def wf_set_def new_device_def no_buffers_def)
  from alloc_buffers_faults_without_memory [where k = ok_os and mt = V4L2_MEMORY_MMAP and n = 4 and w = "[]", OF this]
  show "\<exists>r e w. v4l2_alloc_buffers ok_os (new_device ''/dev/video0'') V4L2_MEMORY_MMAP 4 [] = Ret (r, e, w) \<and>
      wf_device e"
    by (auto simp: ok_os_def ok_answer_def split: mem.splits)
qed

text \<open>C26: releasing the buffers, when it succeeds, unmaps each mapped buffer and closes each
  descriptor the device holds exactly once, in the order of the array, then asks the kernel for
  zero buffers; afterwards the device holds none.\<close>

theorem free_buffers_releases_everything:
  assumes "errno_positive k" "buffers (dev_buffers d) = Some xs" "nbufs (dev_buffers d) \<le> length xs"
    and "nbufs (dev_buffers d) \<noteq> 0" "v4l2_free_buffers k d w = Ret (r, e, w')" "0 \<le> r"
  shows "w' = w @ concat (map release_calls (take (nbufs (dev_buffers d)) xs)) @
      [Reqbufs (dev_fd d) 0 (dev_type d) (dev_memtype d)] \<and> dev_buffers e = no_buffers \<and> r = 0"
proof -
  have wf: "wf_device d" using assms(2,3) by (simp add: wf_device_def wf_set_def)
  obtain r1 e1 w1 where l: "release_loop k (nbufs (dev_buffers d)) 0 d w = Ret (r1, e1, w1)" "same_shape d e1"
    using release_loop_shaped [OF wf, of d 0 "nbufs (dev_buffers d)" k w] by (auto simp: shaped_def)
  have r1: "0 \<le> r1" using assms(4-6) l(1) by (auto simp: v4l2_free_buffers_def split: if_splits)
  have w1: "w1 = w @ concat (map release_calls (take (nbufs (dev_buffers d)) xs))"
    using release_loop_value [OF assms(2) _ l(1) r1 assms(1)] assms(3) by simp
  have "0 < errno (k w1 c)" if "ret (k w1 c) < 0" for c
    using assms(1) that by (simp add: errno_positive_def)
  then show ?thesis
    using assms(4-6) l r1 w1
    by (fastforce simp: v4l2_free_buffers_def sys_def same_shape_def split: if_splits)
qed

theorem free_buffers_releases_everything_witness:
  "\<exists>e. v4l2_free_buffers ok_os sample_dev [] =
     Ret (0, e, [Close 7, Munmap 4096 64, Reqbufs 3 0 1 V4L2_MEMORY_MMAP]) \<and> dev_buffers e = no_buffers"
proof -
  have k: "errno_positive ok_os" by (simp add: errno_positive_def ok_os_def ok_answer_def)
  let ?xs = "[zero_buffer\<lparr>vb_size := 64, vb_dmabuf := 7\<rparr>,
    zero_buffer\<lparr>vb_index := 1, vb_size := 64, vb_mem := Some 4096, vb_dmabuf := -1\<rparr>]"
  have d: "buffers (dev_buffers sample_dev) = Some ?xs" "nbufs (dev_buffers sample_dev) = 2"
    "dev_fd sample_dev = 3" "dev_type sample_dev = 1" "dev_memtype sample_dev = V4L2_MEMORY_MMAP"
    by (simp_all add: sample_dev_def)
  obtain r e w' where f: "v4l2_free_buffers ok_os sample_dev [] = Ret (r, e, w')" "0 \<le> r"
    by (simp add: v4l2_free_buffers_def d numeral_2_eq_2 buffer_at_def sys_def ok_os_def ok_answer_def
        zero_buffer_def set_buffer_def)
  show ?thesis
    using free_buffers_releases_everything [OF k d(1) _ _ f] f(1)
    by (simp add: d release_calls_def zero_buffer_def)
qed

text \<open>Importing a buffer whose descriptor cannot be duplicated is reported as success: the
  return value is that of the query before it, which is not negative. The buffer keeps no
  descriptor, and queueing it passes -1 to the driver.\<close>

theorem import_reports_failed_dup_as_success:
  assumes "wf_device d" "nbufs (dev_buffers d) = 1" "dev_memtype d = V4L2_MEMORY_DMABUF"
    and "buffer_at (dev_buffers d) 0 = Ret b" "vb_dmabuf b = -1"
    and "buffer_at src 0 = Ret x" "nbufs src = 1"
    and "ret (k w (Querybuf (dev_fd d) 0 (dev_type d) V4L2_MEMORY_DMABUF)) = 0"
    and "a_length (k w (Querybuf (dev_fd d) 0 (dev_type d) V4L2_MEMORY_DMABUF)) \<le> vb_size x"
    and "\<And>w. ret (k w (Dup (vb_dmabuf x))) < 0"
  shows "\<exists>w'. v4l2_import_buffers k d src w = Ret (0, d, w') \<and>
    (\<exists>q. v4l2_queue_buffer k d (y\<lparr>vb_index := 0\<rparr>) w' =
       Ret (if ret (k w' (Qbuf (dev_fd d) q)) < 0 then - errno (k w' (Qbuf (dev_fd d) q)) else 0,
            w' @ [Qbuf (dev_fd d) q]) \<and> q_fd q = -1)"
  using assms
  by (auto simp: v4l2_import_buffers_def sys_def v4l2_queue_buffer_def Let_def
      intro!: exI [of _ "\<lparr>q_index = 0, q_type = dev_type d, q_memory = V4L2_MEMORY_DMABUF, q_fd = -1,
        q_bytesused = (if dev_type d = V4L2_BUF_TYPE_VIDEO_OUTPUT then vb_bytesused y else 0)\<rparr>"])

definition no_dup_os :: os where
  "no_dup_os w c = (case c of Dup f \<Rightarrow> ok_answer\<lparr>ret := -1, errno := 24\<rparr> | _ \<Rightarrow> ok_answer)"

definition sink_dev :: v4l2_device where
  "sink_dev = (new_device ''/dev/video1'')\<lparr>dev_fd := 4, dev_type := 2, dev_memtype := V4L2_MEMORY_DMABUF,
     dev_buffers := \<lparr>nbufs = 1, buffers = Some [zero_buffer\<lparr>vb_dmabuf := -1\<rparr>]\<rparr>\<rparr>"

theorem import_reports_failed_dup_as_success_witness:
  "\<exists>w'. v4l2_import_buffers no_dup_os sink_dev
     \<lparr>nbufs = 1, buffers = Some [zero_buffer\<lparr>vb_size := 64, vb_dmabuf := 7\<rparr>]\<rparr> [] = Ret (0, sink_dev, w')"
proof -
  let ?src = "\<lparr>nbufs = 1, buffers = Some [zero_buffer\<lparr>vb_size := 64, vb_dmabuf := 7\<rparr>]\<rparr>"
  have "wf_device sink_dev" "nbufs (dev_buffers sink_dev) = 1" "dev_memtype sink_dev = V4L2_MEMORY_DMABUF"
    "buffer_at (dev_buffers sink_dev) 0 = Ret (zero_buffer\<lparr>vb_dmabuf := -1\<rparr>)"
    "buffer_at ?src 0 = Ret (zero_buffer\<lparr>vb_size := 64, vb_dmabuf := 7\<rparr>)" "nbufs ?src = 1"
    by (simp_all add: sink_dev_def wf_device_def wf_set_def buffer_at_def)
  note d = this
  show ?thesis
    using import_reports_failed_dup_as_success [OF d(1-4) _ d(5,6), of no_dup_os "[]" zero_buffer]
    by (auto simp: no_dup_os_def ok_answer_def)
qed

end
