(* ===== verification/Uvc_Events.thy ===== *)
theory Uvc_Events
  imports V4l2_Device
begin

text \<open>
  The event loop of the UVC application, \<^verbatim>\<open>apps/uvc-app/lib/events.c\<close>: descriptors are watched for
  reading, writing or exceptions, and a loop over \<^verbatim>\<open>select\<close> calls back those that are ready.

  A watched event is a list element with an address, so that a callback that frees the element
  the dispatcher is about to visit is a \<open>Fault\<close>. A callback and its private pointer are one
  value of type \<open>'c\<close>; what it does is an argument of the dispatcher. Descriptors are taken to be
  in the range \<^verbatim>\<open>fd_set\<close> supports.
\<close>

section \<open>Data\<close>

datatype event_type = EVENT_READ | EVENT_WRITE | EVENT_EXCEPTION

record 'c event_fd =
  ev_addr :: nat
  ev_fd :: int
  ev_type :: event_type
  ev_callback :: 'c

record 'c events =
  ev_list :: "'c event_fd list"
  ev_done :: bool
  maxfd :: int
  rfds :: "int set"
  wfds :: "int set"
  efds :: "int set"
  next_addr :: nat

text \<open>
  The application's state as far as the loop is concerned: the events, the calls made so far,
  and the globals \<^verbatim>\<open>modeChanged\<close> of \<^verbatim>\<open>reset.h\<close> and \<^verbatim>\<open>stop_app\<close> of \<^verbatim>\<open>uvc-app.cpp\<close>. The application
  extends it.
\<close>

record 'c app =
  app_events :: "'c events"
  app_world :: world
  mode_changed :: bool
  stop_app :: bool

section \<open>Watching\<close>

definition add_fd :: "event_type \<Rightarrow> int \<Rightarrow> 'c events \<Rightarrow> 'c events" where
  "add_fd t fd e =
     (case t of
        EVENT_READ \<Rightarrow> e\<lparr>rfds := insert fd (rfds e)\<rparr>
      | EVENT_WRITE \<Rightarrow> e\<lparr>wfds := insert fd (wfds e)\<rparr>
      | EVENT_EXCEPTION \<Rightarrow> e\<lparr>efds := insert fd (efds e)\<rparr>)"

definition clear_fd :: "event_type \<Rightarrow> int \<Rightarrow> 'c events \<Rightarrow> 'c events" where
  "clear_fd t fd e =
     (case t of
        EVENT_READ \<Rightarrow> e\<lparr>rfds := rfds e - {fd}\<rparr>
      | EVENT_WRITE \<Rightarrow> e\<lparr>wfds := wfds e - {fd}\<rparr>
      | EVENT_EXCEPTION \<Rightarrow> e\<lparr>efds := efds e - {fd}\<rparr>)"

text \<open>Without memory for the element nothing is watched, and nothing reported.\<close>

definition events_watch_fd ::
  "os \<Rightarrow> int \<Rightarrow> event_type \<Rightarrow> 'c \<Rightarrow> 'c events \<Rightarrow> world \<Rightarrow> 'c events \<times> world" where
  "events_watch_fd k fd t cb e w =
     (let (m, w) = sys k Malloc w in
      if ret m < 0 then (e, w)
      else let event = \<lparr>ev_addr = next_addr e, ev_fd = fd, ev_type = t, ev_callback = cb\<rparr>;
               e = add_fd t fd e
           in (e\<lparr>maxfd := max (maxfd e) fd, ev_list := ev_list e @ [event],
                 next_addr := next_addr e + 1\<rparr>, w))"

definition matches :: "int \<Rightarrow> event_type \<Rightarrow> 'c event_fd \<Rightarrow> bool" where
  "matches fd t ev \<longleftrightarrow> ev_fd ev = fd \<and> ev_type ev = t"

text \<open>The scan of \<^verbatim>\<open>events_unwatch_fd\<close>: the last match, and the greatest other descriptor.\<close>

fun unwatch_scan :: "int \<Rightarrow> event_type \<Rightarrow> 'c event_fd list \<Rightarrow> 'c event_fd option \<Rightarrow> int \<Rightarrow> 'c event_fd option \<times> int" where
  "unwatch_scan fd t [] found m = (found, m)"
| "unwatch_scan fd t (ev # evs) found m =
     (if matches fd t ev then unwatch_scan fd t evs (Some ev) m
      else unwatch_scan fd t evs found (max m (ev_fd ev)))"

definition events_unwatch_fd :: "int \<Rightarrow> event_type \<Rightarrow> 'c events \<Rightarrow> 'c events" where
  "events_unwatch_fd fd t e =
     (case unwatch_scan fd t (ev_list e) None 0 of
        (None, m) \<Rightarrow> e
      | (Some ev, m) \<Rightarrow>
          (clear_fd (ev_type ev) fd e)\<lparr>maxfd := m,
             ev_list := filter (\<lambda>x. ev_addr x \<noteq> ev_addr ev) (ev_list e)\<rparr>)"

section \<open>Dispatching\<close>

definition event_ready :: "int set \<times> int set \<times> int set \<Rightarrow> 'c event_fd \<Rightarrow> bool" where
  "event_ready = (\<lambda>(r, w, x) ev.
     case ev_type ev of EVENT_READ \<Rightarrow> ev_fd ev \<in> r | EVENT_WRITE \<Rightarrow> ev_fd ev \<in> w | EVENT_EXCEPTION \<Rightarrow> ev_fd ev \<in> x)"

fun lookup_addr :: "nat \<Rightarrow> 'c event_fd list \<Rightarrow> 'c event_fd option" where
  "lookup_addr a [] = None"
| "lookup_addr a (ev # evs) = (if ev_addr ev = a then Some ev else lookup_addr a evs)"

text \<open>The element after the one at an address; \<open>None\<close> is the head of the list.\<close>

fun next_of :: "nat \<Rightarrow> 'c event_fd list \<Rightarrow> nat option" where
  "next_of a [] = None"
| "next_of a (ev # evs) =
     (if ev_addr ev = a then (case evs of [] \<Rightarrow> None | x # _ \<Rightarrow> Some (ev_addr x)) else next_of a evs)"

text \<open>
  The element at \<open>cur\<close> is visited, its successor having been read before the callback. An
  address that is no longer in the list is freed memory.
\<close>

partial_function (option) dispatch_from ::
  "('c \<Rightarrow> ('c, 'm) app_scheme \<Rightarrow> ('c, 'm) app_scheme mem) \<Rightarrow> int set \<times> int set \<times> int set \<Rightarrow>
   nat option \<Rightarrow> ('c, 'm) app_scheme \<Rightarrow> ('c, 'm) app_scheme mem option" where
  "dispatch_from cb sets cur s =
     (case cur of
        None \<Rightarrow> Some (Ret s)
      | Some a \<Rightarrow>
          (case lookup_addr a (ev_list (app_events s)) of
             None \<Rightarrow> Some Fault
           | Some ev \<Rightarrow>
               (case (if event_ready sets ev then cb (ev_callback ev) s else Ret s) of
                  Fault \<Rightarrow> Some Fault
                | Ret t \<Rightarrow>
                    if ev_done (app_events t) then Some (Ret t)
                    else dispatch_from cb sets (next_of a (ev_list (app_events s))) t)))"

definition events_dispatch ::
  "('c \<Rightarrow> ('c, 'm) app_scheme \<Rightarrow> ('c, 'm) app_scheme mem) \<Rightarrow> int set \<times> int set \<times> int set \<Rightarrow>
   ('c, 'm) app_scheme \<Rightarrow> ('c, 'm) app_scheme mem option" where
  "events_dispatch cb sets s =
     (case ev_list (app_events s) of
        [] \<Rightarrow> Some (Ret s)
      | ev # evs \<Rightarrow> dispatch_from cb sets (Some (ev_addr ev)) s)"

section \<open>The loop\<close>

abbreviation EINTR :: int where "EINTR \<equiv> 4"

text \<open>
  A signal is taken while the application waits in \<^verbatim>\<open>select\<close>, which it interrupts; the value
  answered says whether it was \<^verbatim>\<open>SIGINT\<close>, whose handler stops the loop and the application.
\<close>

definition sigint_handler :: "('c, 'm) app_scheme \<Rightarrow> ('c, 'm) app_scheme" where
  "sigint_handler s = s\<lparr>app_events := (app_events s)\<lparr>ev_done := True\<rparr>, stop_app := True\<rparr>"

partial_function (option) events_iterate ::
  "os \<Rightarrow> ('c \<Rightarrow> ('c, 'm) app_scheme \<Rightarrow> ('c, 'm) app_scheme mem) \<Rightarrow> ('c, 'm) app_scheme \<Rightarrow>
   (bool \<times> ('c, 'm) app_scheme) mem option" where
  "events_iterate k cb s =
     (if ev_done (app_events s) then Some (Ret (False, s))
      else let e = app_events s;
               (a, w) = sys k (Select (maxfd e + 1) (rfds e) (wfds e) (efds e)) (app_world s);
               s = s\<lparr>app_world := w\<rparr>
           in if ret a < 0
              then if errno a = EINTR then events_iterate k cb (if a_value a \<noteq> 0 then sigint_handler s else s)
                   else Some (Ret (True, s))
              else Option.bind (events_dispatch cb (a_ready a) s) (\<lambda>r.
                case r of
                  Fault \<Rightarrow> Some Fault
                | Ret s \<Rightarrow> if mode_changed s then Some (Ret (False, s)) else events_iterate k cb s))"

definition events_loop ::
  "os \<Rightarrow> ('c \<Rightarrow> ('c, 'm) app_scheme \<Rightarrow> ('c, 'm) app_scheme mem) \<Rightarrow> ('c, 'm) app_scheme \<Rightarrow>
   (bool \<times> ('c, 'm) app_scheme) mem option" where
  "events_loop k cb s = events_iterate k cb (s\<lparr>app_events := (app_events s)\<lparr>ev_done := False\<rparr>\<rparr>)"

definition events_stop :: "'c events \<Rightarrow> 'c events" where
  "events_stop e = e\<lparr>ev_done := True\<rparr>"

definition events_init :: "'c events" where
  "events_init = \<lparr>ev_list = [], ev_done = False, maxfd = 0, rfds = {}, wfds = {}, efds = {}, next_addr = 0\<rparr>"

definition events_cleanup :: "'c events \<Rightarrow> 'c events" where
  "events_cleanup e = e\<lparr>ev_list := []\<rparr>"

section \<open>The sets given to select\<close>

definition watched :: "event_type \<Rightarrow> 'c events \<Rightarrow> int set" where
  "watched t e = ev_fd ` set (filter (\<lambda>ev. ev_type ev = t) (ev_list e))"

fun top_fd :: "'c event_fd list \<Rightarrow> int" where
  "top_fd [] = 0"
| "top_fd (ev # evs) = max (ev_fd ev) (top_fd evs)"

text \<open>
  Each descriptor set holds exactly the descriptors watched for it, the greatest descriptor is
  recorded, no descriptor is watched twice for the same event, and addresses are distinct.
\<close>

definition events_wf :: "'c events \<Rightarrow> bool" where
  "events_wf e \<longleftrightarrow>
     rfds e = watched EVENT_READ e \<and> wfds e = watched EVENT_WRITE e \<and> efds e = watched EVENT_EXCEPTION e \<and>
     maxfd e = top_fd (ev_list e) \<and>
     distinct (map (\<lambda>ev. (ev_fd ev, ev_type ev)) (ev_list e)) \<and>
     distinct (map ev_addr (ev_list e)) \<and> (\<forall>ev\<in>set (ev_list e). ev_addr ev < next_addr e)"

lemma top_fd_nonneg: "0 \<le> top_fd xs"
  by (induction xs) auto

lemma top_fd_append: "top_fd (xs @ ys) = max (top_fd xs) (top_fd ys)"
  by (induction xs) (simp_all add: max.assoc top_fd_nonneg max_absorb2)

lemma watch_wf:
  assumes "events_wf e" "0 \<le> fd" "(fd, t) \<notin> set (map (\<lambda>ev. (ev_fd ev, ev_type ev)) (ev_list e))"
  shows "events_wf (fst (events_watch_fd k fd t cb e w))"
proof (cases "ret (k w Malloc) < 0")
  case True
  then show ?thesis using assms(1) by (simp add: events_watch_fd_def sys_def)
next
  case False
  have m: "max (top_fd (ev_list e)) fd = top_fd (ev_list e @ [\<lparr>ev_addr = next_addr e, ev_fd = fd, ev_type = t, ev_callback = cb\<rparr>])"
    using assms(2) top_fd_nonneg [of "ev_list e"] by (simp add: top_fd_append)
  show ?thesis
    using assms(1,3) False m
    by (cases t) (auto simp: events_watch_fd_def sys_def Let_def add_fd_def events_wf_def watched_def less_Suc_eq)
qed

text \<open>With distinct pairs, the scan finds the one match; what it removes is that element.\<close>

lemma unwatch_scan_value:
  "unwatch_scan fd t evs found m =
    (case filter (matches fd t) evs of [] \<Rightarrow> found | xs \<Rightarrow> Some (last xs),
     max m (top_fd (filter (\<lambda>ev. \<not> matches fd t ev) evs)))"
  if "0 \<le> m"
  using that
proof (induction evs arbitrary: found m)
  case (Cons ev evs)
  then show ?case
    by (auto simp: max.assoc split: list.splits)
qed simp

lemma matches_pair: "matches fd t ev \<longleftrightarrow> (ev_fd ev, ev_type ev) = (fd, t)"
  by (simp add: matches_def)

lemma single_match:
  assumes "distinct (map (\<lambda>ev. (ev_fd ev, ev_type ev)) evs)" "ev \<in> set evs" "matches fd t ev"
  shows "filter (matches fd t) evs = [ev]"
  using assms
proof (induction evs)
  case (Cons x xs)
  have p: "(ev_fd ev, ev_type ev) = (fd, t)" using Cons.prems(3) by (simp add: matches_pair)
  show ?case
  proof (cases "x = ev")
    case True
    then have "(fd, t) \<notin> (\<lambda>ev. (ev_fd ev, ev_type ev)) ` set xs" using Cons.prems(1) p by simp
    then have "filter (matches fd t) xs = []"
      unfolding filter_empty_conv matches_pair by (metis (no_types, lifting) rev_image_eqI)
    then show ?thesis using True Cons.prems(3) by simp
  next
    case False
    then have i: "ev \<in> set xs" using Cons.prems(2) by simp
    then have "(fd, t) \<in> (\<lambda>ev. (ev_fd ev, ev_type ev)) ` set xs" using p by (metis (no_types, lifting) rev_image_eqI)
    then have "\<not> matches fd t x" using Cons.prems(1) by (auto simp: matches_pair)
    then show ?thesis using Cons i by simp
  qed
qed simp

lemma remove_by_addr:
  assumes "distinct (map ev_addr evs)" "distinct (map (\<lambda>ev. (ev_fd ev, ev_type ev)) evs)"
    and "ev \<in> set evs" "matches fd t ev"
  shows "filter (\<lambda>x. ev_addr x \<noteq> ev_addr ev) evs = filter (\<lambda>x. \<not> matches fd t x) evs"
proof (rule filter_cong [OF refl])
  fix x assume x: "x \<in> set evs"
  have "x \<in> set (filter (matches fd t) evs) \<longleftrightarrow> x = ev"
    using single_match [OF assms(2-4)] by simp
  then have "matches fd t x \<longleftrightarrow> x = ev" using x by simp
  moreover have "ev_addr x = ev_addr ev \<longleftrightarrow> x = ev"
    using assms(1,3) x by (auto simp: distinct_map inj_on_def)
  ultimately show "(ev_addr x \<noteq> ev_addr ev) = (\<not> matches fd t x)" by simp
qed

lemma watched_rest:
  "ev_fd ` {x \<in> set xs. \<not> matches fd t x \<and> ev_type x = t'} =
   ev_fd ` {x \<in> set xs. ev_type x = t'} - (if t' = t then {fd} else {})"
  by (auto simp: matches_def)

lemma unwatch_value:
  assumes "events_wf e"
  shows "ev_list (events_unwatch_fd fd t e) = filter (\<lambda>ev. \<not> matches fd t ev) (ev_list e) \<and>
    events_wf (events_unwatch_fd fd t e) \<and> ev_done (events_unwatch_fd fd t e) = ev_done e"
proof (cases "\<exists>ev\<in>set (ev_list e). matches fd t ev")
  case False
  then have "filter (matches fd t) (ev_list e) = []" "filter (\<lambda>ev. \<not> matches fd t ev) (ev_list e) = ev_list e"
    by (simp_all add: filter_empty_conv filter_id_conv)
  then show ?thesis using assms by (simp add: events_unwatch_fd_def unwatch_scan_value)
next
  case True
  then obtain ev where ev: "ev \<in> set (ev_list e)" "matches fd t ev" by blast
  have d: "distinct (map (\<lambda>ev. (ev_fd ev, ev_type ev)) (ev_list e))" "distinct (map ev_addr (ev_list e))"
    using assms by (simp_all add: events_wf_def)
  have f: "filter (matches fd t) (ev_list e) = [ev]" by (rule single_match [OF d(1) ev])
  let ?rest = "filter (\<lambda>x. \<not> matches fd t x) (ev_list e)"
  have u: "events_unwatch_fd fd t e = (clear_fd t fd e)\<lparr>maxfd := top_fd ?rest, ev_list := ?rest\<rparr>"
    using ev(2) remove_by_addr [OF d(2,1) ev] top_fd_nonneg [of ?rest]
    by (simp add: events_unwatch_fd_def unwatch_scan_value f matches_def max_absorb2)
  have a: "\<forall>ev\<in>set ?rest. ev_addr ev < next_addr e" using assms by (simp add: events_wf_def)
  show ?thesis
    unfolding u using assms d a
    by (cases t) (simp_all add: clear_fd_def events_wf_def watched_def distinct_map_filter watched_rest)
qed

section \<open>What the loop relies on\<close>

text \<open>
  The contract of callbacks: under an invariant that the loop's own changes keep, a callback
  that returns keeps the invariant, and either stops the processing of events or only appends to
  the list of events. Then the dispatcher never visits a freed element: the only faults are those
  of a callback itself.
\<close>

definition appends_events :: "'c events \<Rightarrow> 'c events \<Rightarrow> bool" where
  "appends_events e f \<longleftrightarrow> (\<exists>ys. ev_list f = ev_list e @ ys)"

locale event_callbacks =
  fixes cb :: "'c \<Rightarrow> ('c, 'm) app_scheme \<Rightarrow> ('c, 'm) app_scheme mem"
    and inv :: "('c, 'm) app_scheme \<Rightarrow> bool"
  assumes callback: "inv s \<Longrightarrow> cb c s = Ret t \<Longrightarrow> inv t \<and>
      (ev_done (app_events t) \<or> appends_events (app_events s) (app_events t))"
    and inv_start: "inv s \<Longrightarrow> inv (s\<lparr>app_events := (app_events s)\<lparr>ev_done := False\<rparr>\<rparr>)"
    and inv_signal: "inv s \<Longrightarrow> inv (sigint_handler s)"
    and inv_world: "inv s \<Longrightarrow> inv (s\<lparr>app_world := w\<rparr>)"
begin

lemma lookup_append: "lookup_addr a xs = Some ev \<Longrightarrow> \<exists>ev. lookup_addr a (xs @ ys) = Some ev"
  by (induction xs) auto

lemma lookup_next: "next_of a xs = Some b \<Longrightarrow> \<exists>ev. lookup_addr b xs = Some ev"
  by (induction xs) (auto split: if_splits list.splits)

definition alive :: "nat option \<Rightarrow> ('c, 'm) app_scheme \<Rightarrow> bool" where
  "alive cur s = (case cur of None \<Rightarrow> True | Some a \<Rightarrow> lookup_addr a (ev_list (app_events s)) \<noteq> None)"

text \<open>The callback of a watched event faults in a state that satisfies the invariant.\<close>

definition callback_faults :: bool where
  "callback_faults \<longleftrightarrow> (\<exists>s. \<exists>ev\<in>set (ev_list (app_events s)). inv s \<and> cb (ev_callback ev) s = Fault)"

lemma lookup_in: "lookup_addr a xs = Some ev \<Longrightarrow> ev \<in> set xs"
  by (induction xs) (auto split: if_splits)

definition fine :: "('c, 'm) app_scheme mem \<Rightarrow> bool" where
  "fine r \<longleftrightarrow> (case r of Fault \<Rightarrow> callback_faults | Ret t \<Rightarrow> inv t)"

lemma dispatch_from_safe:
  assumes "dispatch_from cb sets cur s = Some r"
  shows "inv s \<Longrightarrow> alive cur s \<Longrightarrow> fine r"
proof -
  define P where "P = (\<lambda>cb' (sets :: int set \<times> int set \<times> int set) cur s r.
    cb' = cb \<longrightarrow> inv s \<longrightarrow> alive cur s \<longrightarrow> fine r)"
  have "P cb sets cur s r"
  proof (rule dispatch_from.raw_induct [OF _ assms])
    fix rec cb' sets cur s r
    assume IH: "\<And>cb' sets cur s r. rec cb' sets cur s = Some r \<Longrightarrow> P cb' sets cur s r"
      and step: "(case cur of None \<Rightarrow> Some (Ret s)
        | Some a \<Rightarrow> (case lookup_addr a (ev_list (app_events s)) of None \<Rightarrow> Some Fault
           | Some ev \<Rightarrow> (case (if event_ready sets ev then cb' (ev_callback ev) s else Ret s) of
                Fault \<Rightarrow> Some Fault
              | Ret t \<Rightarrow> if ev_done (app_events t) then Some (Ret t)
                  else rec cb' sets (next_of a (ev_list (app_events s))) t))) = Some r"
    show "P cb' sets cur s r"
      unfolding P_def
    proof (intro impI)
      assume h: "cb' = cb" "inv s" "alive cur s"
      show "fine r"
      proof (cases cur)
        case None
        then show ?thesis using step h by (auto simp: fine_def)
      next
        case (Some a)
        then obtain ev where ev: "lookup_addr a (ev_list (app_events s)) = Some ev"
          using h by (auto simp: alive_def)
        show ?thesis
        proof (cases "if event_ready sets ev then cb (ev_callback ev) s else Ret s")
          case Fault
          then have "callback_faults" using h lookup_in [OF ev] by (auto simp: callback_faults_def split: if_splits)
          then show ?thesis
            using step unfolding h(1) Some option.case ev Fault mem.case by (auto simp: fine_def)
        next
          case t: (Ret t)
          have i: "inv t" "ev_done (app_events t) \<or> appends_events (app_events s) (app_events t)"
            using callback [OF h(2), of "ev_callback ev" t] t h by (auto simp: appends_events_def split: if_splits)
          show ?thesis
          proof (cases "ev_done (app_events t)")
            case True
            then show ?thesis
              using step i unfolding h(1) Some option.case ev t mem.case by (auto simp: fine_def)
          next
            case False
            then obtain ys where ys: "ev_list (app_events t) = ev_list (app_events s) @ ys"
              using i(2) by (auto simp: appends_events_def)
            have al: "alive (next_of a (ev_list (app_events s))) t"
              using lookup_next lookup_append by (fastforce simp: alive_def ys split: option.split)
            have "rec cb sets (next_of a (ev_list (app_events s))) t = Some r"
              using step False unfolding h(1) Some option.case ev t mem.case by simp
            from IH [OF this] al i(1) show ?thesis by (simp add: P_def)
          qed
        qed
      qed
    qed
  qed
  then show "inv s \<Longrightarrow> alive cur s \<Longrightarrow> fine r" by (simp add: P_def)
qed

lemma dispatch_safe:
  assumes "events_dispatch cb sets s = Some r" "inv s"
  shows "fine r"
proof (cases "ev_list (app_events s)")
  case Nil
  then show ?thesis using assms by (auto simp: events_dispatch_def fine_def)
next
  case (Cons ev evs)
  then show ?thesis
    using assms dispatch_from_safe [of sets "Some (ev_addr ev)" s r] by (simp add: events_dispatch_def alive_def)
qed

text \<open>
  How the loop ends: by a fault of a callback, or with an answer that is true only when it was
  not told to stop, and false when it was or when the mode has changed.
\<close>

definition loop_fine :: "(bool \<times> ('c, 'm) app_scheme) mem \<Rightarrow> bool" where
  "loop_fine r \<longleftrightarrow> (case r of Fault \<Rightarrow> callback_faults
     | Ret (b, t) \<Rightarrow> inv t \<and> (if b then \<not> ev_done (app_events t) else ev_done (app_events t) \<or> mode_changed t))"

lemma iterate_safe:
  assumes "events_iterate k cb s = Some r"
  shows "inv s \<Longrightarrow> loop_fine r"
proof -
  define P where "P = (\<lambda>(k' :: os) cb' s r. cb' = cb \<longrightarrow> inv s \<longrightarrow> loop_fine r)"
  have "P k cb s r"
  proof (rule events_iterate.raw_induct [OF _ assms])
    fix rec k' cb' s r
    assume IH: "\<And>k' cb' s r. rec k' cb' s = Some r \<Longrightarrow> P k' cb' s r"
      and step: "(if ev_done (app_events s) then Some (Ret (False, s))
      else let e = app_events s;
               (a, w) = sys k' (Select (maxfd e + 1) (rfds e) (wfds e) (efds e)) (app_world s);
               s = s\<lparr>app_world := w\<rparr>
           in if ret a < 0
              then if errno a = EINTR then rec k' cb' (if a_value a \<noteq> 0 then sigint_handler s else s)
                   else Some (Ret (True, s))
              else Option.bind (events_dispatch cb' (a_ready a) s) (\<lambda>r.
                case r of
                  Fault \<Rightarrow> Some Fault
                | Ret s \<Rightarrow> if mode_changed s then Some (Ret (False, s)) else rec k' cb' s)) = Some r"
    show "P k' cb' s r"
      unfolding P_def
    proof (intro impI)
      assume h: "cb' = cb" "inv s"
      let ?c = "Select (maxfd (app_events s) + 1) (rfds (app_events s)) (wfds (app_events s)) (efds (app_events s))"
      let ?a = "k' (app_world s) ?c" and ?s = "s\<lparr>app_world := app_world s @ [?c]\<rparr>"
      have i: "inv ?s" using h by (simp add: inv_world)
      consider "ev_done (app_events s)" | "\<not> ev_done (app_events s)" "ret ?a < 0" "errno ?a = EINTR"
        | "\<not> ev_done (app_events s)" "ret ?a < 0" "errno ?a \<noteq> EINTR"
        | "\<not> ev_done (app_events s)" "\<not> ret ?a < 0" by blast
      then show "loop_fine r"
      proof cases
        case 1
        then show ?thesis using step h by (auto simp: loop_fine_def)
      next
        case 2
        then have "rec k' cb' (if a_value ?a \<noteq> 0 then sigint_handler ?s else ?s) = Some r"
          using step by (simp add: sys_def Let_def)
        from IH [OF this] i inv_signal [OF i] h(1) show ?thesis by (simp add: P_def split: if_splits)
      next
        case 3
        then have "r = Ret (True, ?s)" using step by (simp add: sys_def Let_def)
        then show ?thesis using i 3(1) by (auto simp: loop_fine_def)
      next
        case 4
        then obtain d where d: "events_dispatch cb (a_ready ?a) ?s = Some d"
          and s': "(case d of Fault \<Rightarrow> Some Fault
            | Ret s \<Rightarrow> if mode_changed s then Some (Ret (False, s)) else rec k' cb s) = Some r"
          using step h(1) by (auto simp: sys_def Let_def bind_eq_Some_conv)
        have f: "fine d" by (rule dispatch_safe [OF d i])
        show ?thesis
        proof (cases d)
          case Fault
          then show ?thesis using f s' by (auto simp: fine_def loop_fine_def)
        next
          case (Ret t)
          then have t: "inv t" using f by (simp add: fine_def)
          show ?thesis
          proof (cases "mode_changed t")
            case True
            then show ?thesis using s' Ret t by (auto simp: loop_fine_def)
          next
            case False
            then have "rec k' cb t = Some r" using s' Ret by simp
            from IH [OF this] t show ?thesis by (simp add: P_def)
          qed
        qed
      qed
    qed
  qed
  then show "inv s \<Longrightarrow> loop_fine r" by (simp add: P_def)
qed

lemma loop_safe: "events_loop k cb s = Some r \<Longrightarrow> inv s \<Longrightarrow> loop_fine r"
  using iterate_safe [of k _ r] inv_start by (auto simp: events_loop_def)

end

section \<open>Properties\<close>

text \<open>Watching a descriptor for an event it is not watched for yet, and unwatching one, keep
  the sets that are given to \<^verbatim>\<open>select\<close> equal to what is watched and the recorded maximum equal to
  the greatest watched descriptor; unwatching removes exactly the elements for that descriptor
  and event.\<close>

theorem watching_keeps_sets:
  assumes "events_wf e" "0 \<le> fd"
  shows "((fd, t) \<in> (\<lambda>ev. (ev_fd ev, ev_type ev)) ` set (ev_list e) \<or>
      events_wf (fst (events_watch_fd k fd t cb e w))) \<and>
    events_wf (events_unwatch_fd fd t e) \<and>
    ev_list (events_unwatch_fd fd t e) = filter (\<lambda>ev. \<not> matches fd t ev) (ev_list e) \<and>
    (\<forall>t'. watched t' (events_unwatch_fd fd t e) = watched t' e - (if t' = t then {fd} else {}))"
proof -
  have w: "watched t' (events_unwatch_fd fd t e) = watched t' e - (if t' = t then {fd} else {})" for t'
    using unwatch_value [OF assms(1), of fd t] by (auto simp: watched_def matches_def)
  show ?thesis
    using watch_wf [OF assms, of t k cb w] unwatch_value [OF assms(1), of fd t] w by auto
qed

theorem watching_keeps_sets_witness:
  "events_wf (fst (events_watch_fd ok_os 5 EVENT_READ () events_init [])) \<and>
   events_wf (events_unwatch_fd 5 EVENT_READ (events_init :: unit events))"
proof -
  have "events_wf (events_init :: unit events)"
    by (simp add: events_wf_def events_init_def watched_def)
  from watching_keeps_sets [OF this, of 5 EVENT_READ ok_os "()" "[]"] show ?thesis
    by (simp add: events_init_def)
qed

end
