(* ===== verification/Video_Source.thy ===== *)
theory Video_Source
  imports Uvc_Events
begin

text \<open>
  Video sources of the UVC application: the virtual function table of
  \<^verbatim>\<open>include/uvcgadget/video-source.h\<close> with the calls through it (\<^verbatim>\<open>lib/video-source.c\<close>), and the
  source that is a V4L2 capture device (\<^verbatim>\<open>lib/v4l2-source.c\<close>).
\<close>

section \<open>State\<close>

text \<open>
  A callback with its argument. There is one stream and one UVC device as long as the application
  runs, but the source may be replaced by another: a source has a number.
\<close>

datatype callback = UVC_STREAM_UVC_PROCESS | V4L2_SOURCE_VIDEO_PROCESS nat | UVC_EVENTS_PROCESS

text \<open>
  The devices a stream connects: the capture device of the source, with the number of the source,
  and the UVC output device.
\<close>

record stream_app = "callback app" +
  source :: v4l2_device
  source_id :: nat
  sink :: v4l2_device

section \<open>The table of operations\<close>

record 's video_source_ops =
  op_destroy :: "'s \<Rightarrow> 's"
  op_set_format :: "v4l2_pix_format \<Rightarrow> 's \<Rightarrow> (int \<times> v4l2_pix_format) \<times> 's"
  op_set_frame_rate :: "u32 \<Rightarrow> 's \<Rightarrow> int \<times> 's"
  op_alloc_buffers :: "nat \<Rightarrow> 's \<Rightarrow> (int \<times> 's) mem"
  op_export_buffers :: "'s \<Rightarrow> ((int \<times> video_buffer_set option) \<times> 's) mem"
  op_free_buffers :: "'s \<Rightarrow> (int \<times> 's) mem"
  op_stream_on :: "'s \<Rightarrow> (int \<times> 's) mem"
  op_stream_off :: "'s \<Rightarrow> int \<times> 's"
  op_queue_buffer :: "video_buffer \<Rightarrow> 's \<Rightarrow> (int \<times> 's) mem"

text \<open>A source that may be a null pointer is only checked when it is destroyed.\<close>

definition video_source_destroy :: "'s video_source_ops option \<Rightarrow> 's \<Rightarrow> 's" where
  "video_source_destroy src s = (case src of None \<Rightarrow> s | Some ops \<Rightarrow> op_destroy ops s)"

definition video_source_set_format ::
  "'s video_source_ops \<Rightarrow> v4l2_pix_format \<Rightarrow> 's \<Rightarrow> (int \<times> v4l2_pix_format) \<times> 's" where
  "video_source_set_format src f s = op_set_format src f s"

definition video_source_set_frame_rate :: "'s video_source_ops \<Rightarrow> u32 \<Rightarrow> 's \<Rightarrow> int \<times> 's" where
  "video_source_set_frame_rate src fps s = op_set_frame_rate src fps s"

definition video_source_alloc_buffers :: "'s video_source_ops \<Rightarrow> nat \<Rightarrow> 's \<Rightarrow> (int \<times> 's) mem" where
  "video_source_alloc_buffers src n s = op_alloc_buffers src n s"

definition video_source_export_buffers ::
  "'s video_source_ops \<Rightarrow> 's \<Rightarrow> ((int \<times> video_buffer_set option) \<times> 's) mem" where
  "video_source_export_buffers src s = op_export_buffers src s"

definition video_source_free_buffers :: "'s video_source_ops \<Rightarrow> 's \<Rightarrow> (int \<times> 's) mem" where
  "video_source_free_buffers src s = op_free_buffers src s"

definition video_source_stream_on :: "'s video_source_ops \<Rightarrow> 's \<Rightarrow> (int \<times> 's) mem" where
  "video_source_stream_on src s = op_stream_on src s"

definition video_source_stream_off :: "'s video_source_ops \<Rightarrow> 's \<Rightarrow> int \<times> 's" where
  "video_source_stream_off src s = op_stream_off src s"

definition video_source_queue_buffer :: "'s video_source_ops \<Rightarrow> video_buffer \<Rightarrow> 's \<Rightarrow> (int \<times> 's) mem" where
  "video_source_queue_buffer src b s = op_queue_buffer src b s"

section \<open>The V4L2 source\<close>

definition v4l2_source_video_process ::
  "os \<Rightarrow> (video_buffer \<Rightarrow> 'm stream_app_scheme \<Rightarrow> 'm stream_app_scheme mem) \<Rightarrow>
   'm stream_app_scheme \<Rightarrow> 'm stream_app_scheme mem" where
  "v4l2_source_video_process k handler s =
     (case v4l2_dequeue_buffer k (source s) zero_buffer (app_world s) of
        ((r, buf), w) \<Rightarrow>
          if r < 0 then Ret (s\<lparr>app_world := w\<rparr>) else handler buf (s\<lparr>app_world := w\<rparr>))"

definition v4l2_source_destroy :: "os \<Rightarrow> 'm stream_app_scheme \<Rightarrow> 'm stream_app_scheme" where
  "v4l2_source_destroy k s = s\<lparr>app_world := v4l2_close k (Some (source s)) (app_world s)\<rparr>"

definition v4l2_source_set_format ::
  "os \<Rightarrow> v4l2_pix_format \<Rightarrow> 'm stream_app_scheme \<Rightarrow> (int \<times> v4l2_pix_format) \<times> 'm stream_app_scheme" where
  "v4l2_source_set_format k f s =
     (case v4l2_set_format k (source s) f (app_world s) of
        ((r, d, f), w) \<Rightarrow> ((r, f), s\<lparr>source := d, app_world := w\<rparr>))"

definition v4l2_source_set_frame_rate ::
  "os \<Rightarrow> u32 \<Rightarrow> 'm stream_app_scheme \<Rightarrow> int \<times> 'm stream_app_scheme" where
  "v4l2_source_set_frame_rate k fps s =
     (case v4l2_set_frame_rate k (source s) fps (app_world s) of
        ((r, d), w) \<Rightarrow> (r, s\<lparr>source := d, app_world := w\<rparr>))"

definition v4l2_source_alloc_buffers ::
  "os \<Rightarrow> nat \<Rightarrow> 'm stream_app_scheme \<Rightarrow> (int \<times> 'm stream_app_scheme) mem" where
  "v4l2_source_alloc_buffers k n s =
     (case v4l2_alloc_buffers k (source s) V4L2_MEMORY_MMAP n (app_world s) of
        Fault \<Rightarrow> Fault
      | Ret (r, d, w) \<Rightarrow> Ret (r, s\<lparr>source := d, app_world := w\<rparr>))"

text \<open>The exported set is a copy of size and descriptor of each buffer.\<close>

definition copy_buffers :: "video_buffer list \<Rightarrow> nat \<Rightarrow> video_buffer_set" where
  "copy_buffers xs n = \<lparr>nbufs = n, buffers = Some
     (map (\<lambda>b. zero_buffer\<lparr>vb_size := vb_size b, vb_dmabuf := vb_dmabuf b\<rparr>) (take n xs))\<rparr>"

definition v4l2_source_export_buffers ::
  "os \<Rightarrow> 'm stream_app_scheme \<Rightarrow> ((int \<times> video_buffer_set option) \<times> 'm stream_app_scheme) mem" where
  "v4l2_source_export_buffers k s =
     (case v4l2_export_buffers k (source s) (app_world s) of
        Fault \<Rightarrow> Fault
      | Ret (r, d, w) \<Rightarrow>
          (let s = s\<lparr>source := d, app_world := w\<rparr>; n = nbufs (dev_buffers d) in
           if r < 0 then Ret ((r, None), s)
           else case video_buffer_set_new k n w of
               (None, w) \<Rightarrow> Ret ((- ENOMEM, None), s\<lparr>app_world := w\<rparr>)
             | (Some bs, w) \<Rightarrow>
                 (case buffers (dev_buffers d) of
                    None \<Rightarrow> if n = 0 then Ret ((0, Some bs), s\<lparr>app_world := w\<rparr>) else Fault
                  | Some xs \<Rightarrow>
                      if n \<le> length xs
                      then Ret ((0, Some (copy_buffers xs n)), s\<lparr>app_world := w\<rparr>) else Fault)))"

definition v4l2_source_free_buffers ::
  "os \<Rightarrow> 'm stream_app_scheme \<Rightarrow> (int \<times> 'm stream_app_scheme) mem" where
  "v4l2_source_free_buffers k s =
     (case v4l2_free_buffers k (source s) (app_world s) of
        Fault \<Rightarrow> Fault
      | Ret (r, d, w) \<Rightarrow> Ret (r, s\<lparr>source := d, app_world := w\<rparr>))"

text \<open>Queueing \<open>n\<close> buffers from the \<open>i\<close>-th on.\<close>

fun queue_all :: "os \<Rightarrow> nat \<Rightarrow> nat \<Rightarrow> v4l2_device \<Rightarrow> world \<Rightarrow> (int \<times> world) mem" where
  "queue_all k 0 i d w = Ret (0, w)"
| "queue_all k (Suc n) i d w =
     (case buffer_at (dev_buffers d) i of
        Fault \<Rightarrow> Fault
      | Ret b \<Rightarrow>
          (case v4l2_queue_buffer k d
                  (zero_buffer\<lparr>vb_index := word_of_nat i, vb_size := vb_size b, vb_dmabuf := vb_dmabuf b\<rparr>) w of
             Fault \<Rightarrow> Fault
           | Ret (r, w) \<Rightarrow> if r < 0 then Ret (r, w) else queue_all k n (i + 1) d w))"

definition v4l2_source_stream_on ::
  "os \<Rightarrow> 'm stream_app_scheme \<Rightarrow> (int \<times> 'm stream_app_scheme) mem" where
  "v4l2_source_stream_on k s =
     (case queue_all k (nbufs (dev_buffers (source s))) 0 (source s) (app_world s) of
        Fault \<Rightarrow> Fault
      | Ret (r, w) \<Rightarrow>
          if r < 0 then Ret (r, s\<lparr>app_world := w\<rparr>)
          else case v4l2_stream_on k (source s) w of (r, w) \<Rightarrow>
            if r < 0 then Ret (r, s\<lparr>app_world := w\<rparr>)
            else case events_watch_fd k (dev_fd (source s)) EVENT_READ (V4L2_SOURCE_VIDEO_PROCESS (source_id s))
                        (app_events s) w of (e, w) \<Rightarrow>
              Ret (0, s\<lparr>app_events := e, app_world := w\<rparr>))"

definition v4l2_source_stream_off :: "os \<Rightarrow> 'm stream_app_scheme \<Rightarrow> int \<times> 'm stream_app_scheme" where
  "v4l2_source_stream_off k s =
     (let s = s\<lparr>app_events := events_unwatch_fd (dev_fd (source s)) EVENT_READ (app_events s)\<rparr>
      in case v4l2_stream_off k (source s) (app_world s) of (r, w) \<Rightarrow> (r, s\<lparr>app_world := w\<rparr>))"

definition v4l2_source_queue_buffer ::
  "os \<Rightarrow> video_buffer \<Rightarrow> 'm stream_app_scheme \<Rightarrow> (int \<times> 'm stream_app_scheme) mem" where
  "v4l2_source_queue_buffer k b s =
     (case v4l2_queue_buffer k (source s) b (app_world s) of
        Fault \<Rightarrow> Fault
      | Ret (r, w) \<Rightarrow> Ret (r, s\<lparr>app_world := w\<rparr>))"

definition v4l2_source_ops :: "os \<Rightarrow> 'm stream_app_scheme video_source_ops" where
  "v4l2_source_ops k =
     \<lparr>op_destroy = v4l2_source_destroy k, op_set_format = v4l2_source_set_format k,
      op_set_frame_rate = v4l2_source_set_frame_rate k, op_alloc_buffers = v4l2_source_alloc_buffers k,
      op_export_buffers = v4l2_source_export_buffers k, op_free_buffers = v4l2_source_free_buffers k,
      op_stream_on = v4l2_source_stream_on k, op_stream_off = v4l2_source_stream_off k,
      op_queue_buffer = v4l2_source_queue_buffer k\<rparr>"

text \<open>The device of a new source, or none; and the source's events.\<close>

definition v4l2_video_source_create :: "os \<Rightarrow> string \<Rightarrow> world \<Rightarrow> (v4l2_device option \<times> world) option" where
  "v4l2_video_source_create k devname w =
     (let (m, w) = sys k Malloc w in if ret m < 0 then Some (None, w) else v4l2_open k devname w)"

section \<open>The contract of a video source\<close>

text \<open>
  Allocation never fails, and releasing buffers never fails. Neither is assumed in the model;
  the properties that need one say so.
\<close>

definition has_memory :: "os \<Rightarrow> bool" where
  "has_memory k \<longleftrightarrow> (\<forall>w n. 0 \<le> ret (k w Malloc) \<and> 0 \<le> ret (k w (Calloc n)))"

definition releases :: "os \<Rightarrow> bool" where
  "releases k \<longleftrightarrow> (\<forall>w p l fd t m. 0 \<le> ret (k w (Munmap p l)) \<and> 0 \<le> ret (k w (Reqbufs fd 0 t m)))"

text \<open>An operation of the source that leaves the sink, the events and what extends the state alone.\<close>

definition source_only :: "'m stream_app_scheme \<Rightarrow> 'm stream_app_scheme \<Rightarrow> bool" where
  "source_only s t \<longleftrightarrow> sink t = sink s \<and> source_id t = source_id s \<and> app_events t = app_events s \<and> stream_app.more t = stream_app.more s"

lemma source_only_refl [simp]: "source_only s s"
  by (simp add: source_only_def)

text \<open>No watched event calls back a source that has been replaced.\<close>

definition sources_live :: "'m stream_app_scheme \<Rightarrow> bool" where
  "sources_live s \<longleftrightarrow>
     (\<forall>ev\<in>set (ev_list (app_events s)). \<forall>i. ev_callback ev = V4L2_SOURCE_VIDEO_PROCESS i \<longrightarrow> i = source_id s)"

lemma sources_live_cong: "app_events t = app_events s \<Longrightarrow> source_id t = source_id s \<Longrightarrow> sources_live t = sources_live s"
  by (simp add: sources_live_def)

lemma sources_live_frame [simp]:
  "sources_live (s\<lparr>app_world := w\<rparr>) = sources_live s" "sources_live (s\<lparr>sink := d\<rparr>) = sources_live s"
  "sources_live (s\<lparr>source := d\<rparr>) = sources_live s" "sources_live (s\<lparr>mode_changed := b\<rparr>) = sources_live s"
  by (simp_all add: sources_live_def)

lemma source_only_live: "source_only s t \<Longrightarrow> sources_live t = sources_live s"
  by (simp add: sources_live_def source_only_def)

text \<open>
  \<open>holds s\<close> says that the source holds buffers, \<open>good s\<close> that its own state is well-formed.
\<close>

locale video_source =
  fixes k :: os
    and src :: "'m stream_app_scheme video_source_ops"
    and holds :: "'m stream_app_scheme \<Rightarrow> bool"
    and good :: "'m stream_app_scheme \<Rightarrow> bool"
  assumes alloc_busy: "holds s \<Longrightarrow> op_alloc_buffers src n s = Ret (- EBUSY, s)"
    and alloc_keeps: "good s \<Longrightarrow> op_alloc_buffers src n s = Ret (r, t) \<Longrightarrow>
      good t \<and> source_only s t \<and> (\<not> holds s \<longrightarrow> r < 0 \<longrightarrow> \<not> holds t)"
    and alloc_returns: "has_memory k \<Longrightarrow> good s \<Longrightarrow> op_alloc_buffers src n s \<noteq> Fault"
    and export_keeps: "good s \<Longrightarrow> op_export_buffers src s = Ret ((r, bufs), t) \<Longrightarrow>
      good t \<and> source_only s t \<and> (0 \<le> r \<longrightarrow> holds t \<and> (\<exists>b. bufs = Some b \<and> wf_set b))"
    and export_returns: "good s \<Longrightarrow> op_export_buffers src s \<noteq> Fault"
    and free_keeps: "good s \<Longrightarrow> op_free_buffers src s = Ret (r, t) \<Longrightarrow> good t \<and> source_only s t"
    and free_releases: "releases k \<Longrightarrow> good s \<Longrightarrow> op_free_buffers src s = Ret (r, t) \<Longrightarrow> \<not> holds t"
    and free_returns: "good s \<Longrightarrow> op_free_buffers src s \<noteq> Fault"
    and on_keeps: "good s \<Longrightarrow> op_stream_on src s = Ret (r, t) \<Longrightarrow>
      good t \<and> (holds s \<longrightarrow> holds t) \<and> sink t = sink s \<and> stream_app.more t = stream_app.more s \<and>
      appends_events (app_events s) (app_events t) \<and> (sources_live s \<longrightarrow> sources_live t)"
    and on_returns: "good s \<Longrightarrow> op_stream_on src s \<noteq> Fault"
    and off_keeps: "good s \<Longrightarrow> op_stream_off src s = (r, t) \<Longrightarrow>
      good t \<and> sink t = sink s \<and> stream_app.more t = stream_app.more s \<and>
      (ev_done (app_events s) \<longrightarrow> ev_done (app_events t)) \<and> (sources_live s \<longrightarrow> sources_live t)"
    and queue_keeps: "good s \<Longrightarrow> op_queue_buffer src b s = Ret (r, t) \<Longrightarrow> good t \<and> source_only s t"
    and queue_returns: "good s \<Longrightarrow> op_queue_buffer src b s \<noteq> Fault"
    and good_frame: "good (s\<lparr>sink := d\<rparr>) = good s" "good (s\<lparr>app_events := e\<rparr>) = good s"
      "good (s\<lparr>app_world := w\<rparr>) = good s"
    and holds_frame: "holds (s\<lparr>sink := d\<rparr>) = holds s" "holds (s\<lparr>app_events := e\<rparr>) = holds s"
      "holds (s\<lparr>app_world := w\<rparr>) = holds s"
begin

end

section \<open>The V4L2 source meets the contract\<close>

lemma release_loop_releases:
  "releases k \<Longrightarrow> release_loop k n i d w = Ret (r, e, w') \<Longrightarrow> r = 0"
proof (induction n arbitrary: i d w)
  case (Suc n)
  then show ?case
    by (auto simp: releases_def sys_def Let_def leD split: mem.splits option.splits if_splits)
qed simp

lemma free_empties:
  assumes "releases k" "v4l2_free_buffers k d w = Ret (r, e, w')"
  shows "r = 0 \<and> nbufs (dev_buffers e) = 0"
proof (cases "nbufs (dev_buffers d) = 0")
  case True
  then show ?thesis using assms by (simp add: v4l2_free_buffers_def)
next
  case False
  then obtain q f v where l: "release_loop k (nbufs (dev_buffers d)) 0 d w = Ret (q, f, v)"
    using assms(2) by (auto simp: v4l2_free_buffers_def split: mem.splits)
  moreover have "q = 0" by (rule release_loop_releases [OF assms(1) l])
  ultimately show ?thesis
    using assms False by (auto simp: v4l2_free_buffers_def sys_def releases_def leD no_buffers_def)
qed

lemma free_wf: "wf_device d \<Longrightarrow> v4l2_free_buffers k d w = Ret (r, e, w') \<Longrightarrow> wf_device e"
  using free_buffers_wf [of d k w] by auto

lemma alloc_wf: "wf_device d \<Longrightarrow> v4l2_alloc_buffers k d mt n w = Ret (r, e, w') \<Longrightarrow> wf_device e"
  using alloc_buffers_outcome [of d k mt n w] by auto

lemma alloc_returns_with_memory:
  "has_memory k \<Longrightarrow> wf_device d \<Longrightarrow> v4l2_alloc_buffers k d mt n w \<noteq> Fault"
  using alloc_buffers_outcome [of d k mt n w] by (auto simp: has_memory_def leD)

lemma alloc_failure_holds_nothing:
  assumes "nbufs (dev_buffers d) = 0" "v4l2_alloc_buffers k d mt n w = Ret (r, e, w')" "r < 0"
  shows "nbufs (dev_buffers e) = 0"
proof -
  have f: "v4l2_free_buffers k d v = Ret (0, d, v)" for v
    using assms(1) by (simp add: v4l2_free_buffers_def)
  have g: "nbufs (dev_buffers e') = 0"
    if "alloc_failed k r0 (d\<lparr>dev_memtype := mt, dev_buffers := \<lparr>nbufs = c, buffers = None\<rparr>\<rparr>) v = Ret (r, e', v')" for r0 c v e' v'
  proof (cases c)
    case 0
    then show ?thesis using that by (auto simp: alloc_failed_def v4l2_free_buffers_def)
  next
    case (Suc m)
    then have "v4l2_free_buffers k (d\<lparr>dev_memtype := mt, dev_buffers := \<lparr>nbufs = c, buffers = None\<rparr>\<rparr>) v = Fault"
      by (simp add: release_null_array)
    then show ?thesis using that by (simp add: alloc_failed_def)
  qed
  show ?thesis
    using assms g
    by (auto simp: v4l2_alloc_buffers_def sys_def Let_def alloc_failed_def f split: if_splits)
qed

lemma export_wf:
  assumes "wf_device d"
  shows "\<exists>r e w'. v4l2_export_buffers k d w = Ret (r, e, w') \<and> wf_device e \<and>
    (0 \<le> r \<longrightarrow> nbufs (dev_buffers e) \<noteq> 0)"
  using export_loop_shaped [OF assms, of d 0 "nbufs (dev_buffers d)" k w] assms
  by (auto simp: v4l2_export_buffers_def shaped_def same_shape_wf nbufs_shape)

lemma import_wf:
  "wf_device d \<Longrightarrow> wf_set bs \<Longrightarrow> \<exists>r e w'. v4l2_import_buffers k d bs w = Ret (r, e, w') \<and> wf_device e"
  using shaped_wf [OF _ import_loop_shaped [of d bs d 0 "nbufs (dev_buffers d)" k w]]
  by (auto simp: v4l2_import_buffers_def)

lemma source_export_value:
  assumes "wf_device (source s)"
  shows "\<exists>r bufs t. v4l2_source_export_buffers k s = Ret ((r, bufs), t) \<and> wf_device (source t) \<and>
    source_only s t \<and>
    (0 \<le> r \<longrightarrow> nbufs (dev_buffers (source t)) \<noteq> 0 \<and> (\<exists>b. bufs = Some b \<and> wf_set b))"
proof -
  obtain r d w where e: "v4l2_export_buffers k (source s) (app_world s) = Ret (r, d, w)" "wf_device d"
    "0 \<le> r \<longrightarrow> nbufs (dev_buffers d) \<noteq> 0"
    using export_wf [OF assms] by blast
  show ?thesis
    using e
    by (auto simp: v4l2_source_export_buffers_def wf_device_def wf_set_def source_only_def copy_buffers_def
        video_buffer_set_new_def Let_def split_def split: option.splits)
qed

lemma queue_all_returns:
  "wf_device d \<Longrightarrow> i + n \<le> nbufs (dev_buffers d) \<Longrightarrow> queue_all k n i d w \<noteq> Fault"
proof (induction n arbitrary: i w)
  case (Suc n)
  obtain b where b: "buffer_at (dev_buffers d) i = Ret b"
    using buffer_at_wf [of "dev_buffers d" i] Suc.prems by (auto simp: wf_device_def)
  show ?case
    using Suc queue_buffer_no_fault [OF Suc.prems(1)] by (auto simp: b split: mem.split)
qed simp

lemma watch_appends: "appends_events e (fst (events_watch_fd k fd t cb e w))"
  by (cases t) (simp_all add: events_watch_fd_def sys_def Let_def appends_events_def add_fd_def)

lemma unwatch_done [simp]: "ev_done (events_unwatch_fd fd t e) = ev_done e"
  by (cases t) (auto simp: events_unwatch_fd_def clear_fd_def split: option.split event_type.split prod.split)

lemma watch_live:
  "sources_live s \<Longrightarrow> (\<And>i. cb = V4L2_SOURCE_VIDEO_PROCESS i \<Longrightarrow> i = source_id s) \<Longrightarrow>
   sources_live (s\<lparr>app_events := fst (events_watch_fd k fd t cb (app_events s) w)\<rparr>)"
  by (cases t) (auto simp: events_watch_fd_def sys_def Let_def add_fd_def sources_live_def)

lemma unwatch_list: "set (ev_list (events_unwatch_fd fd t e)) \<subseteq> set (ev_list e)"
  by (auto simp: events_unwatch_fd_def clear_fd_def split: option.split event_type.split prod.split)

lemma unwatch_live: "sources_live s \<Longrightarrow> sources_live (s\<lparr>app_events := events_unwatch_fd fd t (app_events s)\<rparr>)"
  using unwatch_list [of fd t "app_events s"] by (auto simp: sources_live_def)

lemma source_alloc_keeps:
  assumes "wf_device (source s)" "v4l2_source_alloc_buffers k n s = Ret (r, t)"
  shows "wf_device (source t) \<and> source_only s t \<and>
    (nbufs (dev_buffers (source s)) = 0 \<longrightarrow> r < 0 \<longrightarrow> nbufs (dev_buffers (source t)) = 0)"
proof -
  obtain d w where a: "v4l2_alloc_buffers k (source s) V4L2_MEMORY_MMAP n (app_world s) = Ret (r, d, w)"
    and t: "t = s\<lparr>source := d, app_world := w\<rparr>"
    using assms(2) by (auto simp: v4l2_source_alloc_buffers_def split: mem.splits)
  show ?thesis
    using alloc_wf [OF assms(1) a] alloc_failure_holds_nothing [OF _ a] by (auto simp: t source_only_def)
qed

lemma source_free_value:
  assumes "wf_device (source s)"
  shows "\<exists>r t. v4l2_source_free_buffers k s = Ret (r, t) \<and> wf_device (source t) \<and> source_only s t \<and>
    (releases k \<longrightarrow> nbufs (dev_buffers (source t)) = 0)"
proof -
  obtain r d w where f: "v4l2_free_buffers k (source s) (app_world s) = Ret (r, d, w)" "wf_device d"
    using free_buffers_wf [OF assms] by blast
  show ?thesis
    using f free_empties [OF _ f(1)] by (auto simp: v4l2_source_free_buffers_def source_only_def)
qed

lemma source_on_value:
  assumes "wf_device (source s)"
  shows "\<exists>r t. v4l2_source_stream_on k s = Ret (r, t) \<and> source t = source s \<and> sink t = sink s \<and>
    stream_app.more t = stream_app.more s \<and> appends_events (app_events s) (app_events t) \<and>
    (sources_live s \<longrightarrow> sources_live t)"
proof -
  obtain r w where q: "queue_all k (nbufs (dev_buffers (source s))) 0 (source s) (app_world s) = Ret (r, w)"
    using queue_all_returns [OF assms, of 0 "nbufs (dev_buffers (source s))" k "app_world s"]
    by (cases "queue_all k (nbufs (dev_buffers (source s))) 0 (source s) (app_world s)") auto
  obtain r' w' where o: "v4l2_stream_on k (source s) w = (r', w')" by force
  obtain e w'' where e: "events_watch_fd k (dev_fd (source s)) EVENT_READ (V4L2_SOURCE_VIDEO_PROCESS (source_id s)) (app_events s) w' = (e, w'')"
    by force
  have "appends_events (app_events s) e" using watch_appends [of "app_events s"] e by (metis fst_conv)
  moreover have "sources_live (s\<lparr>app_events := e\<rparr>)" if "sources_live s"
    using watch_live [OF that, of "V4L2_SOURCE_VIDEO_PROCESS (source_id s)" k "dev_fd (source s)" EVENT_READ w'] e by simp
  ultimately show ?thesis
    by (auto simp: v4l2_source_stream_on_def q o e appends_events_def sources_live_def)
qed

lemma source_queue_value:
  assumes "wf_device (source s)"
  shows "\<exists>r t. v4l2_source_queue_buffer k b s = Ret (r, t) \<and> source t = source s \<and> source_only s t"
  using queue_buffer_no_fault [OF assms, of k b "app_world s"]
  by (auto simp: v4l2_source_queue_buffer_def source_only_def split: mem.split)

interpretation v4l2_source: video_source k "v4l2_source_ops k"
    "\<lambda>s. nbufs (dev_buffers (source s)) \<noteq> 0" "\<lambda>s. wf_device (source s)" for k
proof unfold_locales
  fix s :: "'m stream_app_scheme" and n
  show "nbufs (dev_buffers (source s)) \<noteq> 0 \<Longrightarrow> op_alloc_buffers (v4l2_source_ops k) n s = Ret (- EBUSY, s)"
    by (simp add: v4l2_source_ops_def v4l2_source_alloc_buffers_def v4l2_alloc_buffers_def)
  show "has_memory k \<Longrightarrow> wf_device (source s) \<Longrightarrow> op_alloc_buffers (v4l2_source_ops k) n s \<noteq> Fault"
    using alloc_returns_with_memory [of k "source s" V4L2_MEMORY_MMAP n "app_world s"]
    by (auto simp: v4l2_source_ops_def v4l2_source_alloc_buffers_def split: mem.split)
next
  fix s t :: "'m stream_app_scheme" and n r
  assume "wf_device (source s)" "op_alloc_buffers (v4l2_source_ops k) n s = Ret (r, t)"
  then show "wf_device (source t) \<and> source_only s t \<and>
      (\<not> nbufs (dev_buffers (source s)) \<noteq> 0 \<longrightarrow> r < 0 \<longrightarrow> \<not> nbufs (dev_buffers (source t)) \<noteq> 0)"
    using source_alloc_keeps [of s k n r t] by (simp add: v4l2_source_ops_def)
next
  fix s t :: "'m stream_app_scheme" and r bufs
  assume "wf_device (source s)"
  note e = source_export_value [OF this, of k]
  show "op_export_buffers (v4l2_source_ops k) s \<noteq> Fault"
    using e by (auto simp: v4l2_source_ops_def)
  assume "op_export_buffers (v4l2_source_ops k) s = Ret ((r, bufs), t)"
  then show "wf_device (source t) \<and> source_only s t \<and>
      (0 \<le> r \<longrightarrow> nbufs (dev_buffers (source t)) \<noteq> 0 \<and> (\<exists>b. bufs = Some b \<and> wf_set b))"
    using e by (auto simp: v4l2_source_ops_def)
next
  fix s t :: "'m stream_app_scheme" and r
  assume "wf_device (source s)"
  note f = source_free_value [OF this, of k]
  show "op_free_buffers (v4l2_source_ops k) s \<noteq> Fault"
    using f by (auto simp: v4l2_source_ops_def)
  assume "op_free_buffers (v4l2_source_ops k) s = Ret (r, t)"
  then show "wf_device (source t) \<and> source_only s t" "releases k \<Longrightarrow> \<not> nbufs (dev_buffers (source t)) \<noteq> 0"
    using f by (auto simp: v4l2_source_ops_def)
next
  fix s t :: "'m stream_app_scheme" and r
  assume g: "wf_device (source s)"
  note f = source_on_value [OF this, of k]
  show "op_stream_on (v4l2_source_ops k) s \<noteq> Fault"
    using f by (auto simp: v4l2_source_ops_def)
  show "wf_device (source t) \<and>
      (nbufs (dev_buffers (source s)) \<noteq> 0 \<longrightarrow> nbufs (dev_buffers (source t)) \<noteq> 0) \<and>
      sink t = sink s \<and> stream_app.more t = stream_app.more s \<and>
      appends_events (app_events s) (app_events t) \<and> (sources_live s \<longrightarrow> sources_live t)"
    if "op_stream_on (v4l2_source_ops k) s = Ret (r, t)"
    using f g that by (auto simp: v4l2_source_ops_def)
  show "wf_device (source t) \<and> sink t = sink s \<and> stream_app.more t = stream_app.more s \<and> (ev_done (app_events s) \<longrightarrow> ev_done (app_events t)) \<and>
      (sources_live s \<longrightarrow> sources_live t)"
    if "op_stream_off (v4l2_source_ops k) s = (r, t)"
    using g that unwatch_live [of s "dev_fd (source s)" EVENT_READ]
    by (auto simp: v4l2_source_ops_def v4l2_source_stream_off_def split: prod.splits)
next
  fix s t :: "'m stream_app_scheme" and r b
  assume g: "wf_device (source s)"
  note f = source_queue_value [OF this, of k b]
  show "op_queue_buffer (v4l2_source_ops k) b s \<noteq> Fault"
    using f by (auto simp: v4l2_source_ops_def)
  assume "op_queue_buffer (v4l2_source_ops k) b s = Ret (r, t)"
  then show "wf_device (source t) \<and> source_only s t"
    using f g by (auto simp: v4l2_source_ops_def)
qed simp_all

end
