(* ===== verification/Uvc_Stream.thy ===== *)
theory Uvc_Stream
  imports Video_Source
begin

text \<open>
  Streams of the UVC application, \<^verbatim>\<open>apps/uvc-app/lib/stream.c\<close>: a stream starts by allocating
  buffers on a video source, exporting them and importing them on the UVC output device, and
  stops by undoing that. The source is used through its table of operations only, so what a
  stream guarantees is proved from the contract of that table, the locale \<open>video_source\<close>, which
  the V4L2 source meets.
\<close>

section \<open>Streaming\<close>

definition uvc_stream_source_process ::
  "os \<Rightarrow> video_buffer \<Rightarrow> 'm stream_app_scheme \<Rightarrow> 'm stream_app_scheme mem" where
  "uvc_stream_source_process k buf s =
     (case v4l2_queue_buffer k (sink s) buf (app_world s) of
        Fault \<Rightarrow> Fault
      | Ret (r, w) \<Rightarrow> Ret (s\<lparr>app_world := w\<rparr>))"

definition uvc_stream_uvc_process ::
  "os \<Rightarrow> 'm stream_app_scheme video_source_ops \<Rightarrow> 'm stream_app_scheme \<Rightarrow> 'm stream_app_scheme mem" where
  "uvc_stream_uvc_process k src s =
     (case v4l2_dequeue_buffer k (sink s) zero_buffer (app_world s) of
        ((r, buf), w) \<Rightarrow>
          if r < 0 then Ret (s\<lparr>app_world := w\<rparr>)
          else case video_source_queue_buffer src buf (s\<lparr>app_world := w\<rparr>) of
              Fault \<Rightarrow> Fault
            | Ret (r, s) \<Rightarrow> Ret s)"

text \<open>The error labels of \<^verbatim>\<open>uvc_stream_start\<close>: the results of releasing are ignored.\<close>

definition error_free_source ::
  "'m stream_app_scheme video_source_ops \<Rightarrow> int \<Rightarrow> 'm stream_app_scheme \<Rightarrow> (int \<times> 'm stream_app_scheme) mem" where
  "error_free_source src r s =
     (case video_source_free_buffers src s of Fault \<Rightarrow> Fault | Ret (_, s) \<Rightarrow> Ret (r, s))"

definition error_free_sink ::
  "os \<Rightarrow> 'm stream_app_scheme video_source_ops \<Rightarrow> int \<Rightarrow> 'm stream_app_scheme \<Rightarrow>
   (int \<times> 'm stream_app_scheme) mem" where
  "error_free_sink k src r s =
     (case v4l2_free_buffers k (sink s) (app_world s) of
        Fault \<Rightarrow> Fault
      | Ret (_, d, w) \<Rightarrow> error_free_source src r (s\<lparr>sink := d, app_world := w\<rparr>))"

text \<open>The results of switching the source and the sink on are ignored.\<close>

definition start_devices ::
  "os \<Rightarrow> 'm stream_app_scheme video_source_ops \<Rightarrow> 'm stream_app_scheme \<Rightarrow> (int \<times> 'm stream_app_scheme) mem" where
  "start_devices k src s =
     (case video_source_stream_on src s of
        Fault \<Rightarrow> Fault
      | Ret (_, s) \<Rightarrow>
          (case v4l2_stream_on k (sink s) (app_world s) of (_, w) \<Rightarrow>
             case events_watch_fd k (dev_fd (sink s)) EVENT_WRITE UVC_STREAM_UVC_PROCESS (app_events s) w of
               (e, w) \<Rightarrow> Ret (0, s\<lparr>app_events := e, app_world := w\<rparr>)))"

definition uvc_stream_start ::
  "os \<Rightarrow> 'm stream_app_scheme video_source_ops \<Rightarrow> 'm stream_app_scheme \<Rightarrow> (int \<times> 'm stream_app_scheme) mem" where
  "uvc_stream_start k src s =
     (case video_source_alloc_buffers src 4 s of
        Fault \<Rightarrow> Fault
      | Ret (r, s) \<Rightarrow>
          if r < 0 then Ret (r, s)
          else case video_source_export_buffers src s of
              Fault \<Rightarrow> Fault
            | Ret ((r, bufs), s) \<Rightarrow>
                if r < 0 then error_free_source src r s
                else case bufs of
                    None \<Rightarrow> Fault
                  | Some bufs \<Rightarrow>
                      (case v4l2_alloc_buffers k (sink s) V4L2_MEMORY_DMABUF (nbufs bufs) (app_world s) of
                         Fault \<Rightarrow> Fault
                       | Ret (r, d, w) \<Rightarrow>
                           let s = s\<lparr>sink := d, app_world := w\<rparr> in
                           if r < 0 then error_free_source src r s
                           else case v4l2_import_buffers k (sink s) bufs (app_world s) of
                               Fault \<Rightarrow> Fault
                             | Ret (r, d, w) \<Rightarrow>
                                 let s = s\<lparr>sink := d, app_world := w\<rparr> in
                                 if r < 0 then error_free_sink k src r s
                                 else start_devices k src s))"

definition uvc_stream_stop ::
  "os \<Rightarrow> 'm stream_app_scheme video_source_ops \<Rightarrow> 'm stream_app_scheme \<Rightarrow> (int \<times> 'm stream_app_scheme) mem" where
  "uvc_stream_stop k src s =
     (let s = s\<lparr>app_events := events_stop (app_events s)\<rparr>;
          s = s\<lparr>app_events := events_unwatch_fd (dev_fd (sink s)) EVENT_WRITE (app_events s)\<rparr>;
          s = s\<lparr>app_world := snd (v4l2_stream_off k (sink s) (app_world s))\<rparr>;
          s = snd (video_source_stream_off src s)
      in case v4l2_free_buffers k (sink s) (app_world s) of
           Fault \<Rightarrow> Fault
         | Ret (_, d, w) \<Rightarrow>
             (case video_source_free_buffers src (s\<lparr>sink := d, app_world := w\<rparr>) of
                Fault \<Rightarrow> Fault
              | Ret (_, s) \<Rightarrow> Ret (0, s)))"

definition uvc_stream_enable ::
  "os \<Rightarrow> 'm stream_app_scheme video_source_ops \<Rightarrow> bool \<Rightarrow> 'm stream_app_scheme \<Rightarrow> 'm stream_app_scheme mem" where
  "uvc_stream_enable k src enable s =
     (case (if enable then uvc_stream_start k src s else uvc_stream_stop k src s) of
        Fault \<Rightarrow> Fault
      | Ret (_, s) \<Rightarrow> Ret s)"

text \<open>The format goes to the sink first; what the sink made of it goes to the source.\<close>

definition uvc_set_format ::
  "os \<Rightarrow> v4l2_pix_format \<Rightarrow> 'm stream_app_scheme \<Rightarrow> (int \<times> v4l2_pix_format) \<times> 'm stream_app_scheme" where
  "uvc_set_format k f s =
     (case v4l2_set_format k (sink s) f (app_world s) of
        ((r, d, f), w) \<Rightarrow> ((r, f), s\<lparr>sink := d, app_world := w\<rparr>))"

definition uvc_stream_set_format ::
  "os \<Rightarrow> 'm stream_app_scheme video_source_ops \<Rightarrow> v4l2_pix_format \<Rightarrow> 'm stream_app_scheme \<Rightarrow>
   int \<times> 'm stream_app_scheme" where
  "uvc_stream_set_format k src f s =
     (case uvc_set_format k f s of
        ((r, f), s) \<Rightarrow>
          if r < 0 then (r, s)
          else case video_source_set_format src f s of ((r, f), s) \<Rightarrow> (r, s))"

definition uvc_stream_set_frame_rate ::
  "'m stream_app_scheme video_source_ops \<Rightarrow> u32 \<Rightarrow> 'm stream_app_scheme \<Rightarrow> int \<times> 'm stream_app_scheme" where
  "uvc_stream_set_frame_rate src fps s = video_source_set_frame_rate src fps s"

section \<open>What a stream guarantees, whatever the source\<close>

text \<open>Both devices well-formed: the source by its own account, the sink by its buffer array.\<close>

context video_source
begin

lemma start_busy: "holds s \<Longrightarrow> uvc_stream_start k src s = Ret (- EBUSY, s)"
  by (simp add: uvc_stream_start_def video_source_alloc_buffers_def alloc_busy)

lemma error_source_value:
  assumes "good s"
  shows "\<exists>t. error_free_source src r s = Ret (r, t) \<and> good t \<and> source_only s t \<and> (releases k \<longrightarrow> \<not> holds t)"
proof -
  obtain q t where f: "op_free_buffers src s = Ret (q, t)"
    using free_returns [OF assms] by (cases "op_free_buffers src s") auto
  show ?thesis
    using free_keeps [OF assms f] free_releases [OF _ assms f]
    by (auto simp: error_free_source_def video_source_free_buffers_def f)
qed

lemma error_sink_value:
  assumes "good s" "wf_device (sink s)"
  shows "\<exists>t. error_free_sink k src r s = Ret (r, t) \<and> good t \<and> wf_device (sink t) \<and>
    app_events t = app_events s \<and> source_id t = source_id s \<and> stream_app.more t = stream_app.more s \<and>
    (releases k \<longrightarrow> \<not> holds t \<and> nbufs (dev_buffers (sink t)) = 0)"
proof -
  obtain q d w where f: "v4l2_free_buffers k (sink s) (app_world s) = Ret (q, d, w)" "wf_device d"
    using free_buffers_wf [OF assms(2)] by blast
  have g: "good (s\<lparr>sink := d, app_world := w\<rparr>)" using assms(1) by (simp add: good_frame)
  show ?thesis
    using error_source_value [OF g, of r] f(2) free_empties [OF _ f(1)]
    by (fastforce simp: error_free_sink_def f(1) source_only_def)
qed

lemma start_devices_value:
  assumes "good s" "wf_device (sink s)"
  shows "\<exists>t. start_devices k src s = Ret (0, t) \<and> good t \<and> wf_device (sink t) \<and> sink t = sink s \<and>
    (holds s \<longrightarrow> holds t) \<and> stream_app.more t = stream_app.more s \<and> appends_events (app_events s) (app_events t) \<and>
    (sources_live s \<longrightarrow> sources_live t)"
proof -
  obtain r t where o: "op_stream_on src s = Ret (r, t)"
    using on_returns [OF assms(1)] by (cases "op_stream_on src s") auto
  obtain q w where v: "v4l2_stream_on k (sink s) (app_world t) = (q, w)" by force
  obtain e w' where e: "events_watch_fd k (dev_fd (sink s)) EVENT_WRITE UVC_STREAM_UVC_PROCESS (app_events t) w = (e, w')"
    by force
  have "appends_events (app_events t) e" using watch_appends [of "app_events t"] e by (metis fst_conv)
  moreover have "good (t\<lparr>app_events := e, app_world := w'\<rparr>)"
    "holds s \<longrightarrow> holds (t\<lparr>app_events := e, app_world := w'\<rparr>)"
    using on_keeps [OF assms(1) o] by (simp_all add: good_frame holds_frame)
  moreover have "sources_live (t\<lparr>app_events := e\<rparr>)" if "sources_live s"
    using watch_live [of t UVC_STREAM_UVC_PROCESS k "dev_fd (sink s)" EVENT_WRITE w] on_keeps [OF assms(1) o] e that by simp
  then have "sources_live s \<longrightarrow> sources_live (t\<lparr>app_events := e, app_world := w'\<rparr>)" by simp
  ultimately show ?thesis
    using on_keeps [OF assms(1) o] assms(2)
    by (auto simp: start_devices_def video_source_stream_on_def o v e appends_events_def)
qed

text \<open>
  The outcomes of starting a stream: a fault only for want of memory, an error that leaves the
  events as they were and, when the kernel accepts it, releases the buffers of both devices, or
  success.
\<close>

definition start_fine :: "'m stream_app_scheme \<Rightarrow> (int \<times> 'm stream_app_scheme) mem \<Rightarrow> bool" where
  "start_fine s res \<longleftrightarrow>
     (case res of
        Fault \<Rightarrow> \<not> has_memory k
      | Ret (r, t) \<Rightarrow> good t \<and> wf_device (sink t) \<and> stream_app.more t = stream_app.more s \<and>
          appends_events (app_events s) (app_events t) \<and> (sources_live s \<longrightarrow> sources_live t) \<and>
          (0 \<le> r \<longrightarrow> r = 0 \<and> holds t) \<and>
          (r < 0 \<longrightarrow> app_events t = app_events s \<and>
             (releases k \<longrightarrow> nbufs (dev_buffers (sink s)) = 0 \<longrightarrow>
                \<not> holds t \<and> nbufs (dev_buffers (sink t)) = 0)))"

lemma appends_refl [simp]: "appends_events e e"
  by (simp add: appends_events_def)

lemma start_import_fine:
  assumes "good s" "wf_device (sink s)" "wf_set b" "app_events s = app_events s0" "holds s" "source_id s = source_id s0"
    and "stream_app.more s = stream_app.more s0"
  shows "start_fine s0 (case v4l2_import_buffers k (sink s) b (app_world s) of
      Fault \<Rightarrow> Fault
    | Ret (r, d, w) \<Rightarrow>
        let s = s\<lparr>sink := d, app_world := w\<rparr> in
        if r < 0 then error_free_sink k src r s else start_devices k src s)"
proof -
  obtain r d w where i: "v4l2_import_buffers k (sink s) b (app_world s) = Ret (r, d, w)" "wf_device d"
    using import_wf [OF assms(2,3)] by blast
  let ?s = "s\<lparr>sink := d, app_world := w\<rparr>"
  have g: "good ?s" "wf_device (sink ?s)" "holds ?s"
    using assms(1,5) i by (simp_all add: good_frame holds_frame)
  show ?thesis
    using error_sink_value [OF g(1,2), of r] start_devices_value [OF g(1,2)] assms(4,6,7) g
    by (auto simp: sources_live_def i start_fine_def Let_def)
qed

lemma start_sink_fine:
  assumes "good s" "wf_device (sink s)" "wf_set b" "app_events s = app_events s0" "sink s = sink s0" "holds s" "source_id s = source_id s0"
    and "stream_app.more s = stream_app.more s0"
  shows "start_fine s0 (case v4l2_alloc_buffers k (sink s) V4L2_MEMORY_DMABUF (nbufs b) (app_world s) of
      Fault \<Rightarrow> Fault
    | Ret (r, d, w) \<Rightarrow>
        let s = s\<lparr>sink := d, app_world := w\<rparr> in
        if r < 0 then error_free_source src r s
        else case v4l2_import_buffers k (sink s) b (app_world s) of
            Fault \<Rightarrow> Fault
          | Ret (r, d, w) \<Rightarrow>
              let s = s\<lparr>sink := d, app_world := w\<rparr> in
              if r < 0 then error_free_sink k src r s else start_devices k src s)"
proof (cases "v4l2_alloc_buffers k (sink s) V4L2_MEMORY_DMABUF (nbufs b) (app_world s)")
  case Fault
  then show ?thesis
    using alloc_returns_with_memory [OF _ assms(2), of k V4L2_MEMORY_DMABUF "nbufs b" "app_world s"]
    by (auto simp: start_fine_def)
next
  case (Ret x)
  then obtain r d w where a: "v4l2_alloc_buffers k (sink s) V4L2_MEMORY_DMABUF (nbufs b) (app_world s) = Ret (r, d, w)"
    by (cases x) auto
  let ?s = "s\<lparr>sink := d, app_world := w\<rparr>"
  have g: "good ?s" "wf_device (sink ?s)" "app_events ?s = app_events s0" "holds ?s" "source_id ?s = source_id s0"
    "stream_app.more ?s = stream_app.more s0"
    using assms alloc_wf [OF assms(2) a] by (simp_all add: good_frame holds_frame)
  have n: "nbufs (dev_buffers (sink s0)) = 0 \<Longrightarrow> r < 0 \<Longrightarrow> nbufs (dev_buffers d) = 0"
    using alloc_failure_holds_nothing [OF _ a] assms(5) by simp
  show ?thesis
  proof (cases "r < 0")
    case True
    then show ?thesis
      using error_source_value [OF g(1), of r] g n
      by (auto simp: sources_live_def a start_fine_def source_only_def Let_def)
  next
    case False
    show ?thesis
      using start_import_fine [OF g(1,2) assms(3) g(3-6)] False
      by (simp only: a mem.case prod.case Let_def if_False refl)
  qed
qed

lemma start_safe:
  assumes "good s" "wf_device (sink s)"
  shows "holds s \<or> start_fine s (uvc_stream_start k src s)"
proof (cases "holds s")
  case False
  show ?thesis
  proof (cases "op_alloc_buffers src 4 s")
    case Fault
    then show ?thesis
      using alloc_returns [OF _ assms(1), of 4]
      by (auto simp: start_fine_def uvc_stream_start_def video_source_alloc_buffers_def)
  next
    case (Ret x)
    then obtain r t where a: "op_alloc_buffers src 4 s = Ret (r, t)" by (cases x) auto
    note ka = alloc_keeps [OF assms(1) a]
    show ?thesis
    proof (cases "r < 0")
      case True
      then show ?thesis
        using ka False assms(2) source_only_live [of s t]
        by (auto simp: start_fine_def uvc_stream_start_def video_source_alloc_buffers_def a source_only_def)
    next
      case r: False
      have gt: "good t" using ka by simp
      obtain q bufs u where e: "op_export_buffers src t = Ret ((q, bufs), u)"
        using export_returns [OF gt] by (cases "op_export_buffers src t") auto
      note ke = export_keeps [OF gt e]
      have u: "good u" "app_events u = app_events s" "sink u = sink s" "source_id u = source_id s" "stream_app.more u = stream_app.more s"
        using ka ke by (simp_all add: source_only_def)
      show ?thesis
      proof (cases "q < 0")
        case True
        then show ?thesis
          using error_source_value [OF u(1), of q] u assms(2) r
          by (auto simp: sources_live_def start_fine_def uvc_stream_start_def video_source_alloc_buffers_def a
              video_source_export_buffers_def e source_only_def)
      next
        case q: False
        then obtain b where b: "bufs = Some b" "wf_set b" and h: "holds u" using ke by auto
        have "start_fine s (uvc_stream_start k src s)"
          using start_sink_fine [OF u(1) _ b(2) u(2,3) h u(4,5)] assms(2) r q
          by (simp only: u(3) uvc_stream_start_def video_source_alloc_buffers_def a
              video_source_export_buffers_def e b mem.case prod.case option.case if_False)
        then show ?thesis by simp
      qed
    qed
  qed
qed simp

lemma stop_value:
  assumes "good s" "wf_device (sink s)"
  shows "\<exists>t. uvc_stream_stop k src s = Ret (0, t) \<and> good t \<and> wf_device (sink t) \<and>
    stream_app.more t = stream_app.more s \<and> ev_done (app_events t) \<and> (sources_live s \<longrightarrow> sources_live t) \<and>
    (releases k \<longrightarrow> \<not> holds t \<and> nbufs (dev_buffers (sink t)) = 0)"
proof -
  let ?e = "events_unwatch_fd (dev_fd (sink s)) EVENT_WRITE (events_stop (app_events s))"
  let ?s = "s\<lparr>app_events := ?e, app_world := snd (v4l2_stream_off k (sink s) (app_world s))\<rparr>"
  obtain r u where o: "op_stream_off src ?s = (r, u)" by force
  have g: "good ?s" using assms(1) by (simp add: good_frame)
  have u: "good u" "sink u = sink s" "ev_done (app_events u)" "stream_app.more u = stream_app.more s"
    using off_keeps [OF g o] by (auto simp: events_stop_def)
  have "sources_live (s\<lparr>app_events := ?e\<rparr>)" if "sources_live s"
    using unwatch_live [of "s\<lparr>app_events := events_stop (app_events s)\<rparr>" "dev_fd (sink s)" EVENT_WRITE] that
    by (simp add: sources_live_def events_stop_def)
  then have live: "sources_live s \<longrightarrow> sources_live u" using off_keeps [OF g o] by auto
  obtain q d w where f: "v4l2_free_buffers k (sink u) (app_world u) = Ret (q, d, w)" "wf_device d"
    using free_buffers_wf [of "sink u"] assms(2) u(2) by metis
  have gu: "good (u\<lparr>sink := d, app_world := w\<rparr>)" using u(1) by (simp add: good_frame)
  obtain q' t where fs: "op_free_buffers src (u\<lparr>sink := d, app_world := w\<rparr>) = Ret (q', t)"
    using free_returns [OF gu] by (cases "op_free_buffers src (u\<lparr>sink := d, app_world := w\<rparr>)") auto
  have "uvc_stream_stop k src s = Ret (0, t)"
    by (simp add: uvc_stream_stop_def Let_def video_source_stream_off_def o f fs video_source_free_buffers_def)
  then show ?thesis
    using free_keeps [OF gu fs] free_releases [OF _ gu fs] free_empties [OF _ f(1)] f(2) u(3,4) live
      source_only_live [of "u\<lparr>sink := d, app_world := w\<rparr>" t] by (auto simp: source_only_def)
qed

lemma enable_keeps:
  assumes "good s" "wf_device (sink s)" "uvc_stream_enable k src b s = Ret t"
  shows "good t \<and> wf_device (sink t) \<and> stream_app.more t = stream_app.more s \<and>
    (ev_done (app_events t) \<or> appends_events (app_events s) (app_events t)) \<and> (sources_live s \<longrightarrow> sources_live t)"
proof (cases b)
  case True
  show ?thesis
  proof (cases "holds s")
    case h: True
    then show ?thesis using assms True by (simp add: uvc_stream_enable_def start_busy)
  next
    case False
    then have "start_fine s (uvc_stream_start k src s)" using start_safe [OF assms(1,2)] by simp
    then show ?thesis using assms(3) True by (auto simp: uvc_stream_enable_def start_fine_def split: mem.splits)
  qed
next
  case False
  then show ?thesis using stop_value [OF assms(1,2)] assms(3) by (auto simp: uvc_stream_enable_def)
qed

lemma enable_faults:
  assumes "good s" "wf_device (sink s)" "uvc_stream_enable k src b s = Fault"
  shows "\<not> has_memory k"
proof -
  have "b" using stop_value [OF assms(1,2)] assms(3) by (cases b) (auto simp: uvc_stream_enable_def)
  moreover have "\<not> holds s" using start_busy assms(3) \<open>b\<close> by (auto simp: uvc_stream_enable_def)
  ultimately show ?thesis
    using start_safe [OF assms(1,2)] assms(3)
    by (auto simp: uvc_stream_enable_def start_fine_def split: mem.splits)
qed

lemma uvc_process_keeps:
  assumes "good s"
  shows "\<exists>t. uvc_stream_uvc_process k src s = Ret t \<and> good t \<and> sink t = sink s \<and>
    app_events t = app_events s \<and> source_id t = source_id s \<and> stream_app.more t = stream_app.more s"
proof -
  obtain r buf w where d: "v4l2_dequeue_buffer k (sink s) zero_buffer (app_world s) = ((r, buf), w)"
    by (metis surj_pair)
  have g: "good (s\<lparr>app_world := w\<rparr>)" using assms by (simp add: good_frame)
  obtain q t where t: "op_queue_buffer src buf (s\<lparr>app_world := w\<rparr>) = Ret (q, t)"
    using queue_returns [OF g] by (cases "op_queue_buffer src buf (s\<lparr>app_world := w\<rparr>)") auto
  show ?thesis
    using queue_keeps [OF g t] g t
    by (auto simp: uvc_stream_uvc_process_def d video_source_queue_buffer_def source_only_def)
qed

end

section \<open>Streams on a V4L2 source\<close>

definition sample_app :: stream_app where
  "sample_app = \<lparr>app_events = events_init, app_world = [], mode_changed = False, stop_app = False,
     source = (new_device ''/dev/video0'')\<lparr>dev_fd := 3, dev_type := 1\<rparr>, source_id = 0,
     sink = (new_device ''/dev/video1'')\<lparr>dev_fd := 4, dev_type := 2\<rparr>\<rparr>"

definition busy_app :: stream_app where
  "busy_app = sample_app\<lparr>source := sample_dev, sink := sink_dev\<rparr>"

lemma sample_app_wf [simp]:
  "wf_device (source sample_app)" "wf_device (sink sample_app)" "events_wf (app_events sample_app)"
  "wf_device (source busy_app)" "wf_device (sink busy_app)" "app_events busy_app = events_init"
  "nbufs (dev_buffers (source sample_app)) = 0" "nbufs (dev_buffers (sink sample_app)) = 0"
  "nbufs (dev_buffers (source busy_app)) = 2"
  by (simp_all add: sample_app_def busy_app_def new_device_def no_buffers_def wf_device_def wf_set_def
      sample_dev_def sink_dev_def events_wf_def events_init_def watched_def)

lemma ok_os_contracts [simp]: "has_memory ok_os" "releases ok_os" "errno_positive ok_os"
  by (simp_all add: has_memory_def releases_def errno_positive_def ok_os_def ok_answer_def)

lemma unwatch_filter:
  "events_wf e \<Longrightarrow> ev_list (events_unwatch_fd fd t (events_stop e)) = filter (\<lambda>ev. \<not> matches fd t ev) (ev_list e) \<and>
    events_wf (events_unwatch_fd fd t (events_stop e))"
  using unwatch_value [of "events_stop e" fd t] by (auto simp: events_stop_def events_wf_def watched_def)

text \<open>C15: starting a stream between a V4L2 source and the UVC output that have well-formed buffer
  arrays: it uses a null pointer only if some allocation failed; whatever the kernel answers both
  arrays stay well-formed and watched events are only added. Success is exactly 0 and leaves the
  source with buffers; a failure leaves the events as they were and, when the kernel lets buffers
  go and neither device held any before, leaves both without buffers again.\<close>

theorem stream_start_outcomes:
  assumes "wf_device (source s)" "wf_device (sink s)" "nbufs (dev_buffers (source s)) = 0"
  shows "case uvc_stream_start k (v4l2_source_ops k) s of
      Fault \<Rightarrow> \<not> has_memory k
    | Ret (r, t) \<Rightarrow> wf_device (source t) \<and> wf_device (sink t) \<and>
        appends_events (app_events s) (app_events t) \<and>
        (if 0 \<le> r then r = 0 \<and> nbufs (dev_buffers (source t)) \<noteq> 0
         else app_events t = app_events s \<and>
           (releases k \<and> nbufs (dev_buffers (sink s)) = 0 \<longrightarrow>
              nbufs (dev_buffers (source t)) = 0 \<and> nbufs (dev_buffers (sink t)) = 0))"
  using v4l2_source.start_safe [OF assms(1,2), of k, unfolded v4l2_source.start_fine_def] assms(3)
  by (auto split: mem.splits)

theorem stream_start_outcomes_witness:
  "\<exists>r t. uvc_stream_start ok_os (v4l2_source_ops ok_os) sample_app = Ret (r, t) \<and>
     wf_device (source t) \<and> wf_device (sink t)"
  using stream_start_outcomes [of sample_app ok_os] by (auto split: mem.splits)

text \<open>Starting a stream that has been started is refused with \<^verbatim>\<open>-EBUSY\<close> and has no effect at
  all: no call is made and nothing changes, however often it is repeated.\<close>

theorem stream_start_twice_refused:
  assumes "wf_device (source s)" "wf_device (sink s)"
    and "uvc_stream_start k (v4l2_source_ops k) s = Ret (r, t)" "0 \<le> r"
  shows "uvc_stream_start k (v4l2_source_ops k) t = Ret (- EBUSY, t) \<and>
    uvc_stream_enable k (v4l2_source_ops k) True t = Ret t"
proof -
  have "nbufs (dev_buffers (source t)) \<noteq> 0"
    using v4l2_source.start_safe [OF assms(1,2), of k, unfolded v4l2_source.start_fine_def]
      v4l2_source.start_busy [of s k] assms(3,4)
    by auto
  then show ?thesis
    by (simp add: v4l2_source.start_busy uvc_stream_enable_def)
qed

lemma sample_start: "\<exists>t. uvc_stream_start ok_os (v4l2_source_ops ok_os) sample_app = Ret (0, t)"
  by (simp add: uvc_stream_start_def video_source_alloc_buffers_def v4l2_source_ops_def
      v4l2_source_alloc_buffers_def v4l2_alloc_buffers_def sys_def ok_os_def ok_answer_def sample_app_def
      new_device_def no_buffers_def video_source_export_buffers_def v4l2_source_export_buffers_def
      v4l2_export_buffers_def numeral_2_eq_2 fresh_buffers_def buffer_at_def set_buffer_def upt_rec
      video_buffer_set_new_def copy_buffers_def v4l2_import_buffers_def zero_buffer_def
      start_devices_def video_source_stream_on_def v4l2_source_stream_on_def v4l2_queue_buffer_def
      v4l2_stream_on_def events_watch_fd_def add_fd_def events_init_def Let_def)

theorem stream_start_twice_refused_witness:
  "\<exists>t. uvc_stream_start ok_os (v4l2_source_ops ok_os) sample_app = Ret (0, t) \<and>
     uvc_stream_start ok_os (v4l2_source_ops ok_os) t = Ret (- EBUSY, t)"
proof -
  obtain t where t: "uvc_stream_start ok_os (v4l2_source_ops ok_os) sample_app = Ret (0, t)"
    using sample_start by blast
  then show ?thesis using stream_start_twice_refused [OF _ _ t] by simp
qed

text \<open>Stopping a stream never faults and always reports success; it ends the event loop, stops
  watching the output for writing and the source for reading and nothing else, and, when the
  kernel lets buffers go, leaves both devices without buffers, so that the next start is not
  refused as busy.\<close>

theorem stream_stop_releases:
  assumes "wf_device (source s)" "wf_device (sink s)" "events_wf (app_events s)" "releases k"
  shows "\<exists>t. uvc_stream_stop k (v4l2_source_ops k) s = Ret (0, t) \<and>
    nbufs (dev_buffers (source t)) = 0 \<and> nbufs (dev_buffers (sink t)) = 0 \<and>
    events_wf (app_events t) \<and> ev_done (app_events t) \<and>
    ev_list (app_events t) = filter (\<lambda>ev. \<not> matches (dev_fd (sink s)) EVENT_WRITE ev \<and>
      \<not> matches (dev_fd (source s)) EVENT_READ ev) (ev_list (app_events s))"
proof -
  obtain t where t: "uvc_stream_stop k (v4l2_source_ops k) s = Ret (0, t)" "ev_done (app_events t)"
    "nbufs (dev_buffers (source t)) = 0" "nbufs (dev_buffers (sink t)) = 0"
    using v4l2_source.stop_value [OF assms(1,2), of k] assms(4) by auto
  let ?e = "events_unwatch_fd (dev_fd (sink s)) EVENT_WRITE (events_stop (app_events s))"
  have e: "app_events t = events_unwatch_fd (dev_fd (source s)) EVENT_READ ?e"
    using t(1)
    by (auto simp: uvc_stream_stop_def Let_def video_source_stream_off_def v4l2_source_ops_def
        v4l2_source_stream_off_def video_source_free_buffers_def v4l2_source_free_buffers_def split_def
        split: mem.splits)
  have w: "events_wf ?e" "ev_list ?e = filter (\<lambda>ev. \<not> matches (dev_fd (sink s)) EVENT_WRITE ev) (ev_list (app_events s))"
    using unwatch_filter [OF assms(3)] by auto
  show ?thesis
    using t unwatch_value [OF w(1), of "dev_fd (source s)" EVENT_READ] w(2)
    by (auto simp: e conj_commute)
qed

theorem stream_stop_releases_witness:
  "\<exists>t. uvc_stream_stop ok_os (v4l2_source_ops ok_os) busy_app = Ret (0, t) \<and>
     nbufs (dev_buffers (source t)) = 0 \<and> nbufs (dev_buffers (sink t)) = 0"
proof -
  have "events_wf (app_events busy_app)"
    by (simp add: events_wf_def events_init_def watched_def)
  then show ?thesis using stream_stop_releases [of busy_app ok_os] by auto
qed

end
