(* ===== verification/Configfs.thy ===== *)
theory Configfs
  imports V4l2_Device
begin

text \<open>
  The configuration of a UVC function, \<^verbatim>\<open>include/uvcgadget/configfs.h\<close>, and how the application
  reads it from ConfigFS, \<^verbatim>\<open>lib/configfs.c\<close>.
\<close>

section \<open>Data\<close>

text \<open>An array has a count of its own beside its elements, as in the code.\<close>

record function_config_frame =
  cf_index :: u32
  cf_width :: u32
  cf_height :: u32
  num_intervals :: nat
  intervals :: "u32 list"

record function_config_format =
  fo_index :: u32
  fo_guid :: "u8 list"
  fo_fcc :: u32
  num_frames :: nat
  frames :: "function_config_frame list"

record function_config_endpoint =
  bInterval :: u32
  bMaxBurst :: u32
  wMaxPacketSize :: u32

record function_config =
  fn_video :: "string option"
  fn_udc :: "string option"
  control_interface :: u32
  streaming_interface :: u32
  streaming_ep :: function_config_endpoint
  num_formats :: nat
  formats :: "function_config_format list"

definition V4L2_PIX_FMT_YUYV :: u32 where "V4L2_PIX_FMT_YUYV = 0x56595559"
definition V4L2_PIX_FMT_MJPEG :: u32 where "V4L2_PIX_FMT_MJPEG = 0x47504A4D"
definition V4L2_PIX_FMT_SBGGR8 :: u32 where "V4L2_PIX_FMT_SBGGR8 = 0x31384142"
definition V4L2_PIX_FMT_SBGGR16 :: u32 where "V4L2_PIX_FMT_SBGGR16 = 0x32525942"

text \<open>
  A configuration that can be negotiated: every array is as long as its count says and not
  empty, and there are at most 255 formats and frames, the most that fit in a byte.
\<close>

definition wf_frame :: "function_config_frame \<Rightarrow> bool" where
  "wf_frame f \<longleftrightarrow> 0 < num_intervals f \<and> length (intervals f) = num_intervals f"

definition wf_format :: "function_config_format \<Rightarrow> bool" where
  "wf_format f \<longleftrightarrow> 0 < num_frames f \<and> num_frames f < 256 \<and> length (frames f) = num_frames f \<and>
     list_all wf_frame (frames f)"

definition wf_config :: "function_config \<Rightarrow> bool" where
  "wf_config c \<longleftrightarrow> 0 < num_formats c \<and> num_formats c < 256 \<and> length (formats c) = num_formats c \<and>
     list_all wf_format (formats c)"

section \<open>Formats\<close>

definition UVC_GUID_FORMAT_MJPEG :: "u8 list" where
  "UVC_GUID_FORMAT_MJPEG = [0x4D, 0x4A, 0x50, 0x47, 0x00, 0x00, 0x10, 0x00, 0x80, 0x00, 0x00, 0xaa, 0x00, 0x38, 0x9b, 0x71]"

definition UVC_GUID_FORMAT_YUY2 :: "u8 list" where
  "UVC_GUID_FORMAT_YUY2 = [0x59, 0x55, 0x59, 0x32, 0x00, 0x00, 0x10, 0x00, 0x80, 0x00, 0x00, 0xaa, 0x00, 0x38, 0x9b, 0x71]"

definition UVC_GUID_FORMAT_BA81 :: "u8 list" where
  "UVC_GUID_FORMAT_BA81 = [0x42, 0x41, 0x38, 0x31, 0x00, 0x00, 0x10, 0x00, 0x80, 0x00, 0x00, 0xaa, 0x00, 0x38, 0x9b, 0x71]"

definition UVC_GUID_FORMAT_BG16 :: "u8 list" where
  "UVC_GUID_FORMAT_BG16 = [0x42, 0x47, 0x31, 0x36, 0x00, 0x00, 0x10, 0x00, 0x80, 0x00, 0x00, 0xaa, 0x00, 0x38, 0x9b, 0x71]"

text \<open>The GUIDs the application knows, with their pixel formats.\<close>

definition uvc_formats :: "(u8 list \<times> u32) list" where
  "uvc_formats =
     [(UVC_GUID_FORMAT_YUY2, V4L2_PIX_FMT_YUYV), (UVC_GUID_FORMAT_MJPEG, V4L2_PIX_FMT_MJPEG),
      (UVC_GUID_FORMAT_BA81, V4L2_PIX_FMT_SBGGR8), (UVC_GUID_FORMAT_BG16, V4L2_PIX_FMT_SBGGR16)]"

section \<open>The legacy configuration\<close>

definition g_webcam_frames :: "function_config_frame list" where
  "g_webcam_frames =
     [\<lparr>cf_index = 1, cf_width = 640, cf_height = 360, num_intervals = 3, intervals = [666666, 10000000, 50000000]\<rparr>,
      \<lparr>cf_index = 2, cf_width = 1280, cf_height = 720, num_intervals = 1, intervals = [50000000]\<rparr>]"

definition g_webcam_config :: function_config where
  "g_webcam_config =
     \<lparr>fn_video = None, fn_udc = None, control_interface = 0, streaming_interface = 1,
      streaming_ep = \<lparr>bInterval = 1, bMaxBurst = 0, wMaxPacketSize = 1024\<rparr>,
      num_formats = 2,
      formats =
        [\<lparr>fo_index = 1, fo_guid = UVC_GUID_FORMAT_YUY2, fo_fcc = V4L2_PIX_FMT_YUYV,
          num_frames = 2, frames = g_webcam_frames\<rparr>,
         \<lparr>fo_index = 2, fo_guid = UVC_GUID_FORMAT_MJPEG, fo_fcc = V4L2_PIX_FMT_MJPEG,
          num_frames = 2, frames = g_webcam_frames\<rparr>]\<rparr>"

lemma g_webcam_wf: "wf_config g_webcam_config"
  by (simp add: wf_config_def g_webcam_config_def wf_format_def g_webcam_frames_def wf_frame_def)

end
