(* ===== verification/Frame_Rate.thy ===== *)
theory Frame_Rate
  imports Prelude
begin

text \<open>
  The frame rate that \<^verbatim>\<open>uvc_events_process_data\<close> of \<^verbatim>\<open>apps/uvc-app/lib/uvc.c\<close> derives from a
  frame interval, in units of 100 ns, with the rounding of double precision written out.
\<close>

text \<open>
  The frame rate is computed in double precision: the interval over \<^verbatim>\<open>10000000.0\<close>, one over that,
  truncated. A value is \<open>m / 2 ^ e\<close> with a 53-bit \<open>m\<close>, the quotient rounded to nearest, ties to
  even. An interval of zero divides by zero, and the conversion of infinity is undefined.
\<close>

fun scale_of :: "nat \<Rightarrow> nat \<Rightarrow> nat \<Rightarrow> nat \<Rightarrow> nat" where
  "scale_of 0 p q e = e"
| "scale_of (Suc fuel) p q e = (if p * 2 ^ e < q * 2 ^ 52 then scale_of fuel p q (e + 1) else e)"

definition round_even :: "nat \<Rightarrow> nat \<Rightarrow> nat" where
  "round_even p q =
     (let d = p div q; r = p mod q in
      if 2 * r < q then d else if 2 * r > q then d + 1 else if even d then d else d + 1)"

definition double_div :: "nat \<Rightarrow> nat \<Rightarrow> nat \<times> nat" where
  "double_div p q = (let e = scale_of 80 p q 0 in (round_even (p * 2 ^ e) q, e))"

definition frame_rate :: "u32 \<Rightarrow> u32 mem" where
  "frame_rate ival =
     (if ival = 0 then Fault
      else case double_div (unat ival) 10000000 of (m, e) \<Rightarrow>
        case double_div (2 ^ e) m of (m, e) \<Rightarrow> Ret (word_of_nat (m div 2 ^ e)))"

section \<open>How far it is from the quotient\<close>

lemma scale_of_reaches: "q * 2 ^ 52 \<le> p * 2 ^ (e + fuel) \<Longrightarrow> q * 2 ^ 52 \<le> p * 2 ^ scale_of fuel p q e"
  by (induction fuel arbitrary: e) auto

lemma round_even_near:
  assumes "0 < q"
  shows "2 * (round_even p q * q) \<le> 2 * p + q" "2 * p \<le> 2 * (round_even p q * q) + q"
proof -
  define d r where "d = p div q" and "r = p mod q"
  have p: "p = d * q + r" "r < q" using assms by (simp_all add: d_def r_def)
  have "round_even p q = (if 2 * r < q then d else if 2 * r > q then d + 1 else if even d then d else d + 1)"
    by (simp only: round_even_def Let_def d_def r_def)
  then show "2 * (round_even p q * q) \<le> 2 * p + q" "2 * p \<le> 2 * (round_even p q * q) + q"
    using p(2) unfolding p(1) by (auto simp: algebra_simps)
qed

text \<open>The rounding errors are too small to carry a quotient across an integer it does not equal.\<close>

lemma no_crossing:
  fixes m N p E F :: nat
  assumes "m * 2 ^ 52 \<le> E * F" "2 * (p * E) \<le> 2 * (m * N) + N" "2 ^ 52 \<le> m" "N = 10000000"
  shows "\<not> 2 * (F * m) \<le> N * F + p * m"
proof
  assume a: "2 * (F * m) \<le> N * F + p * m"
  have "N * F \<le> m * F" using assms(3,4) by (intro mult_le_mono1) simp
  moreover have "m * F = F * m" by simp
  ultimately have "F * m \<le> p * m" using a by linarith
  then have "F \<le> p" using assms(3) by simp
  then have "E * F \<le> p * E" by (simp add: mult.commute)
  then have "m * 2 ^ 52 \<le> p * E" using assms(1) by linarith
  then show False using assms(2-4) by simp
qed

lemma crossing_up:
  fixes A B C D G H :: nat
  shows "B \<le> A \<Longrightarrow> (10000000 + 1) * C \<le> B \<Longrightarrow> 2 * A \<le> 2 * D + G \<Longrightarrow> 2 * D \<le> 2 * (10000000 * C) + H \<Longrightarrow>
    2 * C \<le> H + G"
  by simp

lemma crossing_down:
  fixes A B C D G H :: nat
  shows "A \<le> B \<Longrightarrow> B + C \<le> 10000000 * C \<Longrightarrow> 2 * D \<le> 2 * A + G \<Longrightarrow> 2 * (10000000 * C) \<le> 2 * D + H \<Longrightarrow>
    2 * C \<le> H + G"
  by simp

lemma frame_rate_value:
  assumes "ival \<noteq> 0"
  shows "\<exists>r. frame_rate ival = Ret (word_of_nat r) \<and> r \<le> 10000000 div unat ival \<and>
    (if unat ival dvd 10000000 then 10000000 div unat ival - 1 \<le> r else r = 10000000 div unat ival)"
proof -
  let ?p = "unat ival" and ?N = "10000000 :: nat"
  define e where "e = scale_of 80 ?p ?N 0"
  define m where "m = round_even (?p * 2 ^ e) ?N"
  define f where "f = scale_of 80 (2 ^ e) m 0"
  define m' where "m' = round_even (2 ^ e * 2 ^ f) m"
  have p: "0 < ?p" "?p < 4294967296" using assms by (simp_all add: unat_gt_0)
  have e: "?N * 2 ^ 52 \<le> ?p * 2 ^ e"
    unfolding e_def by (rule scale_of_reaches) (use p in simp)
  have m: "2 * (m * ?N) \<le> 2 * (?p * 2 ^ e) + ?N" "2 * (?p * 2 ^ e) \<le> 2 * (m * ?N) + ?N"
    unfolding m_def by (rule round_even_near; simp)+
  have m52: "2 ^ 52 \<le> m" using e m(2) by simp
  have "?p * 2 ^ e \<le> 4294967296 * 2 ^ e" using p by (intro mult_le_mono1) linarith
  moreover have "(1 :: nat) \<le> 2 ^ e" by simp
  ultimately have "m \<le> 268435456 * 2 ^ e" using m(1) by linarith
  then have "m * 2 ^ 52 \<le> 2 ^ e * 2 ^ 80" by simp
  then have f: "m * 2 ^ 52 \<le> 2 ^ e * 2 ^ f"
    unfolding f_def by (intro scale_of_reaches) simp
  have m': "2 * (m' * m) \<le> 2 * (2 ^ e * 2 ^ f) + m" "2 * (2 ^ e * 2 ^ f) \<le> 2 * (m' * m) + m"
    unfolding m'_def by (rule round_even_near; use m52 in simp)+
  let ?F = "2 ^ f :: nat"
  let ?A = "?p * (m' * m)" and ?C = "?F * m" and ?D = "?p * (2 ^ e * ?F)" and ?G = "?p * m"
  have no: "\<not> 2 * ?C \<le> ?N * ?F + ?G" by (rule no_crossing [OF f m(2) m52 refl])
  have A: "2 * ?A \<le> 2 * ?D + ?G" "2 * ?D \<le> 2 * ?A + ?G"
    using mult_le_mono2 [OF m'(1), of ?p] mult_le_mono2 [OF m'(2), of ?p] by (simp_all only: distrib_left mult.left_commute)
  have D: "2 * ?D \<le> 2 * (?N * ?C) + ?N * ?F" "2 * (?N * ?C) \<le> 2 * ?D + ?N * ?F"
    using mult_le_mono1 [OF m(2), of ?F] mult_le_mono1 [OF m(1), of ?F]
    by (simp_all only: distrib_right distrib_left mult.assoc mult.commute mult.left_commute)
  have up: "m' < j * ?F" if j: "?N < j * ?p" for j
  proof (rule ccontr)
    assume "\<not> m' < j * ?F"
    then have "j * ?F \<le> m'" by simp
    from mult_le_mono2 [OF this, of ?G] have "j * ?p * ?C \<le> ?A"
      by (simp only: mult.assoc mult.commute mult.left_commute)
    moreover have "(?N + 1) * ?C \<le> j * ?p * ?C" using j by (intro mult_le_mono1) linarith
    ultimately show False using crossing_up [OF _ _ A(1) D(1)] no by blast
  qed
  have lo: "j * ?F \<le> m'" if j: "j * ?p < ?N" for j
  proof (rule ccontr)
    assume "\<not> j * ?F \<le> m'"
    then have "m' \<le> j * ?F" by simp
    from mult_le_mono2 [OF this, of ?G] have "?A \<le> j * ?p * ?C"
      by (simp only: mult.assoc mult.commute mult.left_commute)
    moreover have "(j * ?p + 1) * ?C \<le> ?N * ?C" using j by (intro mult_le_mono1) linarith
    then have "j * ?p * ?C + ?C \<le> ?N * ?C" by (simp only: distrib_right mult_1)
    ultimately show False using crossing_down [OF _ _ A(2) D(2)] no by blast
  qed
  let ?r = "m' div 2 ^ f" and ?k = "?N div ?p"
  have k: "?k * ?p \<le> ?N" "?N < (?k + 1) * ?p"
    using p by (simp_all add: dividend_less_div_times)
  have "?r \<le> ?k" using less_mult_imp_div_less [OF up [OF k(2)]] by simp
  moreover have "?k - 1 \<le> ?r"
  proof (cases "?k = 0")
    case False
    have "(?k - 1) * ?p = ?k * ?p - ?p" by (simp add: diff_mult_distrib)
    also have "\<dots> < ?N" using k(1) p by linarith
    finally have "(?k - 1) * ?p < ?N" .
    from lo [OF this] show ?thesis by (simp add: less_eq_div_iff_mult_less_eq)
  qed simp
  moreover have "?k \<le> ?r" if "\<not> ?p dvd ?N"
  proof -
    have "?k * ?p \<noteq> ?N" using that by (metis dvd_triv_right)
    then have "?k * ?p < ?N" using k(1) le_neq_implies_less by blast
    from lo [OF this] show ?thesis by (simp add: less_eq_div_iff_mult_less_eq)
  qed
  moreover have "frame_rate ival = Ret (word_of_nat ?r)"
    using assms by (simp add: frame_rate_def double_div_def Let_def e_def m_def f_def m'_def)
  ultimately show ?thesis by (intro exI [of _ ?r]) auto
qed

text \<open>An evaluation needs only the scales, which a certificate replaces.\<close>

lemma scale_of_eq:
  "e0 \<le> e \<Longrightarrow> e \<le> e0 + fuel \<Longrightarrow> (e0 < e \<longrightarrow> p * 2 ^ (e - 1) < q * 2 ^ 52) \<Longrightarrow> q * 2 ^ 52 \<le> p * 2 ^ e \<Longrightarrow>
   scale_of fuel p q e0 = e"
proof (induction fuel arbitrary: e0)
  case (Suc fuel)
  show ?case
  proof (cases "e0 = e")
    case False
    then have "p * 2 ^ e0 \<le> p * 2 ^ (e - 1)" using Suc.prems(1) by (intro mult_le_mono2 power_increasing) auto
    moreover have "p * 2 ^ (e - 1) < q * 2 ^ 52" using Suc.prems(1,3) False by simp
    ultimately have "p * 2 ^ e0 < q * 2 ^ 52" by (rule le_less_trans)
    then show ?thesis using Suc False by simp
  qed (use Suc in simp)
qed simp

lemma double_div_eq:
  "e \<le> 80 \<Longrightarrow> 0 < e \<Longrightarrow> p * 2 ^ (e - 1) < q * 2 ^ 52 \<Longrightarrow> q * 2 ^ 52 \<le> p * 2 ^ e \<Longrightarrow>
   double_div p q = (round_even (p * 2 ^ e) q, e)"
  by (simp add: double_div_def scale_of_eq)

section \<open>Properties\<close>

text \<open>The frame rate derived from a nonzero interval, in spite of two roundings, is ten million
  over the interval rounded down, or one less where the interval divides ten million. It is
  therefore zero for every interval above one second, although the code takes it to be nonzero.
  An interval of zero has none: the division gives infinity, whose conversion is undefined.\<close>

theorem frame_rate_truncates:
  assumes "ival \<noteq> 0"
  shows "(\<exists>r. frame_rate ival = Ret (word_of_nat r) \<and> r \<le> 10000000 div unat ival \<and>
      10000000 div unat ival - (if unat ival dvd 10000000 then 1 else 0) \<le> r) \<and>
    (frame_rate ival = Ret 0 \<or> unat ival \<le> 10000000) \<and> frame_rate 0 = Fault"
proof -
  obtain r where r: "frame_rate ival = Ret (word_of_nat r)" "r \<le> 10000000 div unat ival"
    "if unat ival dvd 10000000 then 10000000 div unat ival - 1 \<le> r else r = 10000000 div unat ival"
    using frame_rate_value [OF assms] by blast
  have "r = 0" if "10000000 < unat ival" using r(2) that by simp
  then show ?thesis using r by (auto simp: frame_rate_def not_le split: if_splits)
qed

theorem frame_rate_truncates_witness:
  "frame_rate 50000000 = Ret 0 \<and> frame_rate 333333 = Ret 30 \<and> frame_rate 25 = Ret 399999"
proof -
  have "unat (50000000 :: u32) = 50000000" by simp
  then have "frame_rate 50000000 = Ret 0" using frame_rate_truncates [of 50000000] by simp
  moreover have "frame_rate 333333 = Ret 30"
    by (simp add: frame_rate_def double_div_eq [of 57] double_div_eq [of 48] round_even_def Let_def)
  moreover have "frame_rate 25 = Ret 399999"
    by (simp add: frame_rate_def double_div_eq [of 71] double_div_eq [of 34] round_even_def Let_def)
  ultimately show ?thesis by simp
qed

end
