(* ===== verification/Uvc_Device.thy ===== *)
theory Uvc_Device
  imports Uvc_Stream Configfs Frame_Rate Bytes
begin

text \<open>
  The UVC protocol, \<^verbatim>\<open>apps/uvc-app/lib/uvc.c\<close>: the negotiation of format, frame size and
  interval by the probe and commit controls, the extension unit that carries client requests and
  server responses in packets of 60 bytes, and the handler of the events of the UVC output
  device.

  Counters of bytes are \<open>nat\<close> where the code has \<^verbatim>\<open>size_t\<close>; a difference that wraps is written
  out. The machine is little-endian, so a struct laid over the request data is its bytes in
  that order.
\<close>

section \<open>Data\<close>

record streaming_control =
  bmHint :: u16
  bFormatIndex :: u8
  bFrameIndex :: u8
  dwFrameInterval :: u32
  wKeyFrameRate :: u16
  wPFrameRate :: u16
  wCompQuality :: u16
  wCompWindowSize :: u16
  wDelay :: u16
  dwMaxVideoFrameSize :: u32
  dwMaxPayloadTransferSize :: u32
  dwClockFrequency :: u32
  bmFramingInfo :: u8
  bPreferedVersion :: u8
  bMinVersion :: u8
  bMaxVersion :: u8

record uvc_request_data =
  rs_length :: int
  rs_data :: "u8 list"

record usb_ctrlrequest =
  bRequestType :: u8
  bRequest :: u8
  wValue :: u16
  wIndex :: u16
  wLength :: u16

text \<open>
  The UVC device beside its V4L2 device, which is the sink of the stream, and the static
  variables of the two functions that move packets. A buffer is the memory its pointer points
  to, if any, and its length. Without a configuration the pointer to it is null.
\<close>

record gadget = stream_app +
  fc :: "function_config option"
  ud_probe :: streaming_control
  ud_commit :: streaming_control
  in_data :: "u8 list option"
  in_len :: nat
  out_data :: "u8 list option"
  out_len :: nat
  ud_control :: nat
  ud_fcc :: u32
  ud_width :: u32
  ud_height :: u32
  ud_maxsize :: u32
  server_resp_bytes_sent :: nat
  resp_len_sent :: bool
  client_req_bytes_read :: nat
  blob_len_read :: bool

abbreviation UVC_SET_CUR :: u8 where "UVC_SET_CUR \<equiv> 0x01"
abbreviation UVC_GET_CUR :: u8 where "UVC_GET_CUR \<equiv> 0x81"
abbreviation UVC_GET_MIN :: u8 where "UVC_GET_MIN \<equiv> 0x82"
abbreviation UVC_GET_MAX :: u8 where "UVC_GET_MAX \<equiv> 0x83"
abbreviation UVC_GET_RES :: u8 where "UVC_GET_RES \<equiv> 0x84"
abbreviation UVC_GET_LEN :: u8 where "UVC_GET_LEN \<equiv> 0x85"
abbreviation UVC_GET_INFO :: u8 where "UVC_GET_INFO \<equiv> 0x86"
abbreviation UVC_GET_DEF :: u8 where "UVC_GET_DEF \<equiv> 0x87"
abbreviation UVC_VS_PROBE_CONTROL :: u8 where "UVC_VS_PROBE_CONTROL \<equiv> 1"
abbreviation UVC_VS_COMMIT_CONTROL :: u8 where "UVC_VS_COMMIT_CONTROL \<equiv> 2"

definition MAX_PACKET_SIZE :: nat where "MAX_PACKET_SIZE = 60"

section \<open>Structs as bytes\<close>

definition control_bytes :: "streaming_control \<Rightarrow> u8 list" where
  "control_bytes c =
     le16 (bmHint c) @ [bFormatIndex c, bFrameIndex c] @ le32 (dwFrameInterval c) @
     le16 (wKeyFrameRate c) @ le16 (wPFrameRate c) @ le16 (wCompQuality c) @
     le16 (wCompWindowSize c) @ le16 (wDelay c) @ le32 (dwMaxVideoFrameSize c) @
     le32 (dwMaxPayloadTransferSize c) @ le32 (dwClockFrequency c) @
     [bmFramingInfo c, bPreferedVersion c, bMinVersion c, bMaxVersion c]"

definition control_of :: "u8 list \<Rightarrow> streaming_control" where
  "control_of bs =
     \<lparr>bmHint = get16 bs 0, bFormatIndex = bs ! 2, bFrameIndex = bs ! 3, dwFrameInterval = get32 bs 4,
      wKeyFrameRate = get16 bs 8, wPFrameRate = get16 bs 10, wCompQuality = get16 bs 12,
      wCompWindowSize = get16 bs 14, wDelay = get16 bs 16, dwMaxVideoFrameSize = get32 bs 18,
      dwMaxPayloadTransferSize = get32 bs 22, dwClockFrequency = get32 bs 26,
      bmFramingInfo = bs ! 30, bPreferedVersion = bs ! 31, bMinVersion = bs ! 32, bMaxVersion = bs ! 33\<rparr>"

definition request_of :: "u8 list \<Rightarrow> usb_ctrlrequest" where
  "request_of bs = \<lparr>bRequestType = bs ! 0, bRequest = bs ! 1, wValue = get16 bs 2,
                    wIndex = get16 bs 4, wLength = get16 bs 6\<rparr>"

definition request_data_of :: "u8 list \<Rightarrow> uvc_request_data" where
  "request_data_of bs = \<lparr>rs_length = sint (get32 bs 0), rs_data = take 60 (drop 4 bs)\<rparr>"

text \<open>Copying bytes to the start of the response, which has room for 60.\<close>

definition put_data :: "u8 list \<Rightarrow> uvc_request_data \<Rightarrow> uvc_request_data" where
  "put_data bs resp = resp\<lparr>rs_data := bs @ drop (length bs) (rs_data resp)\<rparr>"

definition answer_byte :: "u8 \<Rightarrow> uvc_request_data \<Rightarrow> uvc_request_data" where
  "answer_byte b resp = (put_data [b] resp)\<lparr>rs_length := 1\<rparr>"

section \<open>Negotiation\<close>

definition no_control :: streaming_control where
  "no_control = \<lparr>bmHint = 0, bFormatIndex = 0, bFrameIndex = 0, dwFrameInterval = 0, wKeyFrameRate = 0,
     wPFrameRate = 0, wCompQuality = 0, wCompWindowSize = 0, wDelay = 0, dwMaxVideoFrameSize = 0,
     dwMaxPayloadTransferSize = 0, dwClockFrequency = 0, bmFramingInfo = 0, bPreferedVersion = 0,
     bMinVersion = 0, bMaxVersion = 0\<rparr>"

definition clamp :: "nat \<Rightarrow> nat \<Rightarrow> nat \<Rightarrow> nat" where
  "clamp v lo hi = (let v = (if v < lo then lo else v) in if v > hi then hi else v)"

text \<open>An element of an array, by an index that counts from one.\<close>

definition element :: "'a list \<Rightarrow> nat \<Rightarrow> 'a mem" where
  "element xs i = (if 0 < i \<and> i \<le> length xs then Ret (xs ! (i - 1)) else Fault)"

text \<open>The first of the \<open>n\<close> intervals from the \<open>i\<close>-th on that is not less than the one asked for.\<close>

fun find_interval :: "u32 \<Rightarrow> u32 list \<Rightarrow> nat \<Rightarrow> nat \<Rightarrow> u32 option mem" where
  "find_interval ival xs 0 i = Ret None"
| "find_interval ival xs (Suc n) i =
     (case element xs (i + 1) of
        Fault \<Rightarrow> Fault
      | Ret x \<Rightarrow> if ival \<le> x then Ret (Some x) else find_interval ival xs n (i + 1))"

definition choose_interval :: "function_config_frame \<Rightarrow> u32 \<Rightarrow> u32 mem" where
  "choose_interval frame ival =
     (case find_interval ival (intervals frame) (num_intervals frame) 0 of
        Fault \<Rightarrow> Fault
      | Ret (Some x) \<Rightarrow> Ret x
      | Ret None \<Rightarrow> element (intervals frame) (num_intervals frame))"

definition max_frame_size :: "u32 \<Rightarrow> function_config_frame \<Rightarrow> u32 \<Rightarrow> u32" where
  "max_frame_size fcc frame maxsize =
     (if fcc = V4L2_PIX_FMT_YUYV \<or> fcc = V4L2_PIX_FMT_SBGGR16 then cf_width frame * cf_height frame * 2
      else if fcc = V4L2_PIX_FMT_SBGGR8 then cf_width frame * cf_height frame
      else if fcc = V4L2_PIX_FMT_MJPEG then maxsize
      else 0)"

definition uvc_fill_streaming_control ::
  "function_config option \<Rightarrow> u32 \<Rightarrow> u32 \<Rightarrow> u32 \<Rightarrow> u32 \<Rightarrow> streaming_control mem" where
  "uvc_fill_streaming_control cfg maxsize iformat iframe ival =
     (case cfg of
        None \<Rightarrow> Fault
      | Some c \<Rightarrow>
          (let iformat = clamp (unat iformat) 1 (num_formats c) in
           case element (formats c) iformat of
             Fault \<Rightarrow> Fault
           | Ret format \<Rightarrow>
               (let iframe = clamp (unat iframe) 1 (num_frames format) in
                case element (frames format) iframe of
                  Fault \<Rightarrow> Fault
                | Ret frame \<Rightarrow>
                    (case choose_interval frame ival of
                       Fault \<Rightarrow> Fault
                     | Ret ival \<Rightarrow> Ret (no_control\<lparr>bmHint := 1,
                         bFormatIndex := word_of_nat iformat, bFrameIndex := word_of_nat iframe,
                         dwFrameInterval := ival,
                         dwMaxVideoFrameSize := max_frame_size (fo_fcc format) frame maxsize,
                         dwMaxPayloadTransferSize := wMaxPacketSize (streaming_ep c),
                         bmFramingInfo := 3, bPreferedVersion := 1, bMaxVersion := 1\<rparr>)))))"

section \<open>Requests\<close>

definition uvc_events_process_standard :: "uvc_request_data \<Rightarrow> uvc_request_data" where
  "uvc_events_process_standard resp = resp"

definition uvc_events_process_control :: "u8 \<Rightarrow> u8 \<Rightarrow> u16 \<Rightarrow> uvc_request_data \<Rightarrow> uvc_request_data" where
  "uvc_events_process_control req cs len resp = resp"

text \<open>A difference of two \<^verbatim>\<open>size_t\<close> values, and the size of the next packet.\<close>

definition minus_size :: "nat \<Rightarrow> nat \<Rightarrow> nat" where
  "minus_size a b = (if b \<le> a then a - b else a + 2 ^ 64 - b)"

definition packet_size :: "nat \<Rightarrow> nat" where
  "packet_size n = (if n > MAX_PACKET_SIZE then MAX_PACKET_SIZE else n)"

definition le64 :: "nat \<Rightarrow> u8 list" where
  "le64 n = map (\<lambda>i. word_of_nat (n div 256 ^ i)) [0..<8]"

text \<open>Conversion to the signed 32-bit length of a response.\<close>

definition to_s32 :: "nat \<Rightarrow> int" where
  "to_s32 n = sint (word_of_nat n :: u32)"

text \<open>
  The reply to \<^verbatim>\<open>GET_CUR\<close> of the server response: its length first, then its bytes packet by
  packet. The bytes copied are those after the ones sent; a copy beyond the memory of the
  response is a fault.
\<close>

definition next_packet :: "uvc_request_data \<Rightarrow> 'm gadget_scheme \<Rightarrow> (uvc_request_data \<times> 'm gadget_scheme) mem" where
  "next_packet resp s =
     (let n = packet_size (minus_size (out_len s) (server_resp_bytes_sent s)) in
      case out_data s of
        None \<Rightarrow> Fault
      | Some d \<Rightarrow>
          if server_resp_bytes_sent s + n \<le> length d
          then let resp = put_data (take n (drop (server_resp_bytes_sent s) d)) resp;
                   s = s\<lparr>server_resp_bytes_sent := server_resp_bytes_sent s + n\<rparr>;
                   s = (if server_resp_bytes_sent s = out_len s
                        then s\<lparr>out_data := None, out_len := 0, resp_len_sent := False\<rparr> else s)
               in Ret (resp\<lparr>rs_length := to_s32 n\<rparr>, s)
          else Fault)"

definition get_response :: "uvc_request_data \<Rightarrow> 'm gadget_scheme \<Rightarrow> (uvc_request_data \<times> 'm gadget_scheme) mem" where
  "get_response resp s =
     (if out_len s \<noteq> 0
      then if resp_len_sent s then next_packet resp s
           else Ret ((put_data (le64 (out_len s)) resp)\<lparr>rs_length := to_s32 (out_len s)\<rparr>,
                     s\<lparr>resp_len_sent := True, server_resp_bytes_sent := 0\<rparr>)
      else Ret (answer_byte 0 resp, s))"

definition answer_len :: "uvc_request_data \<Rightarrow> uvc_request_data" where
  "answer_len resp = (put_data [word_of_nat MAX_PACKET_SIZE, 0] resp)\<lparr>rs_length := 2\<rparr>"

definition stall :: "uvc_request_data \<Rightarrow> uvc_request_data" where
  "stall resp = resp\<lparr>rs_length := - EL2HLT\<rparr>"

definition uvc_events_process_extension_unit ::
  "u8 \<Rightarrow> u8 \<Rightarrow> u16 \<Rightarrow> uvc_request_data \<Rightarrow> 'm gadget_scheme \<Rightarrow> (uvc_request_data \<times> 'm gadget_scheme) mem" where
  "uvc_events_process_extension_unit req cs len resp s =
     (if cs = 1 then
        (if req = UVC_SET_CUR then Ret (resp\<lparr>rs_length := uint len\<rparr>, s\<lparr>ud_control := 0x0301\<rparr>)
         else if req = UVC_GET_INFO then Ret (answer_byte 2 resp, s)
         else if req = UVC_GET_LEN then Ret (answer_len resp, s)
         else if req = UVC_GET_MIN \<or> req = UVC_GET_MAX \<or> req = UVC_GET_DEF \<or> req = UVC_GET_RES
         then Ret (answer_byte 0xff resp, s)
         else Ret (stall resp, s))
      else if cs = 2 then
        (if req = UVC_GET_CUR then get_response resp s
         else if req = UVC_GET_INFO then Ret (answer_byte 1 resp, s)
         else if req = UVC_GET_LEN then Ret (answer_len resp, s)
         else if req = UVC_GET_MIN \<or> req = UVC_GET_MAX \<or> req = UVC_GET_DEF \<or> req = UVC_GET_RES
         then Ret (answer_byte 0xff resp, s)
         else Ret (stall resp, s))
      else Ret (stall resp, s))"

definition uvc_events_process_streaming ::
  "u8 \<Rightarrow> u8 \<Rightarrow> uvc_request_data \<Rightarrow> 'm gadget_scheme \<Rightarrow> (uvc_request_data \<times> 'm gadget_scheme) mem" where
  "uvc_events_process_streaming req cs resp s =
     (if cs \<noteq> UVC_VS_PROBE_CONTROL \<and> cs \<noteq> UVC_VS_COMMIT_CONTROL then Ret (resp, s)
      else let resp = resp\<lparr>rs_length := 34\<rparr> in
        if req = UVC_SET_CUR then Ret (resp, s\<lparr>ud_control := unat cs\<rparr>)
        else if req = UVC_GET_CUR
        then Ret (put_data (control_bytes (if cs = UVC_VS_PROBE_CONTROL then ud_probe s else ud_commit s)) resp, s)
        else if req = UVC_GET_MIN \<or> req = UVC_GET_MAX \<or> req = UVC_GET_DEF
        then (case (if req = UVC_GET_MAX
                    then uvc_fill_streaming_control (fc s) (ud_maxsize s) (-1) (-1) (-1)
                    else uvc_fill_streaming_control (fc s) (ud_maxsize s) 1 1 0) of
                Fault \<Rightarrow> Fault
              | Ret ctrl \<Rightarrow> Ret (put_data (control_bytes ctrl) resp, s))
        else if req = UVC_GET_RES then Ret (put_data (control_bytes no_control) resp, s)
        else if req = UVC_GET_LEN then Ret ((put_data [0, 0x22] resp)\<lparr>rs_length := 2\<rparr>, s)
        else if req = UVC_GET_INFO then Ret (answer_byte 3 resp, s)
        else Ret (resp, s))"

text \<open>The interface is the low and the entity the high byte of the index.\<close>

definition uvc_events_process_class ::
  "usb_ctrlrequest \<Rightarrow> uvc_request_data \<Rightarrow> 'm gadget_scheme \<Rightarrow> (uvc_request_data \<times> 'm gadget_scheme) mem" where
  "uvc_events_process_class ctrl resp s =
     (let interface = (ucast (wIndex ctrl) :: u32); cs = (ucast (drop_bit 8 (wValue ctrl)) :: u8) in
      if bRequestType ctrl AND 0x1f \<noteq> 1 then Ret (resp, s)
      else case fc s of
          None \<Rightarrow> Fault
        | Some c \<Rightarrow>
            if interface = control_interface c
            then Ret (uvc_events_process_control (bRequest ctrl) cs (wLength ctrl) resp, s)
            else if interface = streaming_interface c
            then uvc_events_process_streaming (bRequest ctrl) cs resp s
            else if wIndex ctrl AND 0x0300 \<noteq> 0
            then uvc_events_process_extension_unit (bRequest ctrl) cs (wLength ctrl) resp s
            else Ret (resp, s))"

definition uvc_events_process_setup ::
  "usb_ctrlrequest \<Rightarrow> uvc_request_data \<Rightarrow> 'm gadget_scheme \<Rightarrow> (uvc_request_data \<times> 'm gadget_scheme) mem" where
  "uvc_events_process_setup ctrl resp s =
     (let s = s\<lparr>ud_control := 0\<rparr> in
      if bRequestType ctrl AND 0x60 = 0 then Ret (uvc_events_process_standard resp, s)
      else if bRequestType ctrl AND 0x60 = 0x20 then uvc_events_process_class ctrl resp s
      else Ret (resp, s))"

section \<open>Data\<close>

text \<open>
  A packet of a client request. The first one says how many bytes the request has, in one byte;
  when the last has been copied the request is handled, by code whose effect is an answer of
  the environment: the response, and whether the mode was changed.
\<close>

definition client_packet :: "os \<Rightarrow> u8 list \<Rightarrow> 'm gadget_scheme \<Rightarrow> 'm gadget_scheme mem" where
  "client_packet k bs s =
     (let left = minus_size (in_len s) (client_req_bytes_read s); n = packet_size left;
          i = client_req_bytes_read s
      in case (if n = 0 then Ret (in_data s)
               else case in_data s of
                   None \<Rightarrow> Fault
                 | Some d \<Rightarrow> if i + n \<le> length d then Ret (Some (take i d @ take n bs @ drop (i + n) d)) else Fault) of
           Fault \<Rightarrow> Fault
         | Ret d \<Rightarrow>
             (let s = s\<lparr>in_data := d, client_req_bytes_read := i + n\<rparr> in
              if left - n = 0
              then case sys k (Handle_Client_Request (case d of None \<Rightarrow> [] | Some d \<Rightarrow> take (in_len s) d)) (app_world s) of
                  (a, w) \<Rightarrow> Ret (s\<lparr>app_world := w, out_data := Some (a_bytes a), out_len := length (a_bytes a),
                     mode_changed := (mode_changed s \<or> a_value a \<noteq> 0),
                     in_data := None, in_len := 0, client_req_bytes_read := 0, blob_len_read := False\<rparr>)
              else Ret s))"

definition client_length :: "os \<Rightarrow> u8 list \<Rightarrow> 'm gadget_scheme \<Rightarrow> 'm gadget_scheme" where
  "client_length k bs s =
     (let n = unat (bs ! 0); (m, w) = sys k Malloc (app_world s) in
      s\<lparr>app_world := w, in_len := n, in_data := (if ret m < 0 then None else Some (replicate n 0)),
        client_req_bytes_read := 0, blob_len_read := True\<rparr>)"

text \<open>The size of an image, one and a half times the maximum; beyond 32 bits it is undefined.\<close>

definition image_size :: "u32 \<Rightarrow> u32 \<Rightarrow> u32 mem" where
  "image_size fcc maxsize =
     (if fcc = V4L2_PIX_FMT_MJPEG
      then if unat maxsize * 3 div 2 < 2 ^ 32 then Ret (word_of_nat (unat maxsize * 3 div 2)) else Fault
      else Ret 0)"

definition commit_format ::
  "os \<Rightarrow> 'm gadget_scheme video_source_ops \<Rightarrow> streaming_control \<Rightarrow> 'm gadget_scheme \<Rightarrow> 'm gadget_scheme mem" where
  "commit_format k src target s =
     (case fc s of
        None \<Rightarrow> Fault
      | Some c \<Rightarrow>
          (case element (formats c) (unat (bFormatIndex target)) of
             Fault \<Rightarrow> Fault
           | Ret format \<Rightarrow>
               (case element (frames format) (unat (bFrameIndex target)) of
                  Fault \<Rightarrow> Fault
                | Ret frame \<Rightarrow>
                    (let s = s\<lparr>ud_fcc := fo_fcc format, ud_width := cf_width frame, ud_height := cf_height frame\<rparr> in
                     case image_size (fo_fcc format) (ud_maxsize s) of
                       Fault \<Rightarrow> Fault
                     | Ret sz \<Rightarrow>
                         (let pixfmt = no_pix\<lparr>px_width := cf_width frame, px_height := cf_height frame,
                                px_pixelformat := fo_fcc format, px_field := 1, px_sizeimage := sz\<rparr>;
                              s = snd (uvc_stream_set_format k src pixfmt s)
                          in case frame_rate (dwFrameInterval target) of
                               Fault \<Rightarrow> Fault
                             | Ret fps \<Rightarrow> Ret (snd (uvc_stream_set_frame_rate src fps s)))))))"

definition uvc_events_process_data ::
  "os \<Rightarrow> 'm gadget_scheme video_source_ops \<Rightarrow> uvc_request_data \<Rightarrow> 'm gadget_scheme \<Rightarrow> 'm gadget_scheme mem" where
  "uvc_events_process_data k src data s =
     (let ctrl = control_of (rs_data data) in
      if ud_control s = 0x0301
      then if blob_len_read s then client_packet k (rs_data data) s else Ret (client_length k (rs_data data) s)
      else if ud_control s = unat UVC_VS_PROBE_CONTROL \<or> ud_control s = unat UVC_VS_COMMIT_CONTROL
      then case uvc_fill_streaming_control (fc s) (ud_maxsize s) (ucast (bFormatIndex ctrl))
                  (ucast (bFrameIndex ctrl)) (dwFrameInterval ctrl) of
          Fault \<Rightarrow> Fault
        | Ret target \<Rightarrow>
            if ud_control s = unat UVC_VS_COMMIT_CONTROL
            then commit_format k src target (s\<lparr>ud_commit := target\<rparr>)
            else Ret (s\<lparr>ud_probe := target\<rparr>)
      else Ret s)"

section \<open>Events\<close>

abbreviation UVC_EVENT_CONNECT :: u32 where "UVC_EVENT_CONNECT \<equiv> 0x08000000"
abbreviation UVC_EVENT_DISCONNECT :: u32 where "UVC_EVENT_DISCONNECT \<equiv> 0x08000001"
abbreviation UVC_EVENT_STREAMON :: u32 where "UVC_EVENT_STREAMON \<equiv> 0x08000002"
abbreviation UVC_EVENT_STREAMOFF :: u32 where "UVC_EVENT_STREAMOFF \<equiv> 0x08000003"
abbreviation UVC_EVENT_SETUP :: u32 where "UVC_EVENT_SETUP \<equiv> 0x08000004"
abbreviation UVC_EVENT_DATA :: u32 where "UVC_EVENT_DATA \<equiv> 0x08000005"

text \<open>The 64 bytes of the payload of an event.\<close>

definition payload :: "answer \<Rightarrow> u8 list" where
  "payload a = take 64 (a_bytes a @ replicate 64 0)"

definition empty_response :: uvc_request_data where
  "empty_response = \<lparr>rs_length = - EL2HLT, rs_data = replicate 60 0\<rparr>"

definition send_reply :: "os \<Rightarrow> uvc_request_data \<Rightarrow> 'm gadget_scheme \<Rightarrow> 'm gadget_scheme" where
  "send_reply k resp s =
     s\<lparr>app_world := snd (sys k (Send_Response (dev_fd (sink s)) (rs_length resp) (rs_data resp)) (app_world s))\<rparr>"

definition uvc_events_process ::
  "os \<Rightarrow> 'm gadget_scheme video_source_ops \<Rightarrow> 'm gadget_scheme \<Rightarrow> 'm gadget_scheme mem" where
  "uvc_events_process k src s =
     (let (ev, w) = sys k (Dqevent (dev_fd (sink s))) (app_world s); s = s\<lparr>app_world := w\<rparr> in
      if ret ev < 0 then Ret s
      else if a_type ev = UVC_EVENT_CONNECT \<or> a_type ev = UVC_EVENT_DISCONNECT then Ret s
      else if a_type ev = UVC_EVENT_SETUP
      then case uvc_events_process_setup (request_of (payload ev)) empty_response s of
          Fault \<Rightarrow> Fault
        | Ret (resp, s) \<Rightarrow> Ret (send_reply k resp s)
      else if a_type ev = UVC_EVENT_DATA
      then uvc_events_process_data k src (request_data_of (payload ev)) s
      else if a_type ev = UVC_EVENT_STREAMON then uvc_stream_enable k src True s
      else if a_type ev = UVC_EVENT_STREAMOFF then uvc_stream_enable k src False s
      else Ret (send_reply k empty_response s))"

section \<open>Setup\<close>

definition uvc_set_config :: "function_config \<Rightarrow> 'm gadget_scheme \<Rightarrow> 'm gadget_scheme" where
  "uvc_set_config c s = s\<lparr>ud_maxsize := 0, fc := Some c\<rparr>"

definition uvc_events_init :: "os \<Rightarrow> 'm gadget_scheme \<Rightarrow> 'm gadget_scheme mem" where
  "uvc_events_init k s =
     (case uvc_fill_streaming_control (fc s) (ud_maxsize s) 1 1 0 of
        Fault \<Rightarrow> Fault
      | Ret probe \<Rightarrow>
          (case uvc_fill_streaming_control (fc s) (ud_maxsize s) 1 1 0 of
             Fault \<Rightarrow> Fault
           | Ret commit \<Rightarrow>
               (let fd = dev_fd (sink s);
                    w = app_world s @ map (Subscribe_Event fd)
                      [UVC_EVENT_SETUP, UVC_EVENT_DATA, UVC_EVENT_STREAMON, UVC_EVENT_STREAMOFF];
                    (e, w) = events_watch_fd k fd EVENT_EXCEPTION UVC_EVENTS_PROCESS (app_events s) w
                in Ret (s\<lparr>ud_probe := probe, ud_commit := commit, app_events := e, app_world := w\<rparr>))))"

text \<open>The UVC output device of a new stream, or none.\<close>

definition uvc_open :: "os \<Rightarrow> string \<Rightarrow> world \<Rightarrow> (v4l2_device option \<times> world) option" where
  "uvc_open k devname w =
     (let (m, w) = sys k Malloc w in if ret m < 0 then Some (None, w) else v4l2_open k devname w)"

definition uvc_close :: "os \<Rightarrow> v4l2_device \<Rightarrow> world \<Rightarrow> world" where
  "uvc_close k dev w = v4l2_close k (Some dev) w"

definition uvc_stream_new :: "os \<Rightarrow> string \<Rightarrow> world \<Rightarrow> (v4l2_device option \<times> world) option" where
  "uvc_stream_new k uvc_dev w =
     (let (m, w) = sys k Malloc w in if ret m < 0 then Some (None, w) else uvc_open k uvc_dev w)"

definition uvc_stream_delete :: "os \<Rightarrow> v4l2_device option \<Rightarrow> world \<Rightarrow> world" where
  "uvc_stream_delete k stream w = (case stream of None \<Rightarrow> w | Some dev \<Rightarrow> uvc_close k dev w)"

definition uvc_stream_init_uvc :: "os \<Rightarrow> function_config \<Rightarrow> 'm gadget_scheme \<Rightarrow> 'm gadget_scheme mem" where
  "uvc_stream_init_uvc k c s = uvc_events_init k (uvc_set_config c s)"

text \<open>The callbacks of the event loop. A source that has been replaced is freed memory.\<close>

definition gadget_callback ::
  "os \<Rightarrow> 'm gadget_scheme video_source_ops \<Rightarrow> callback \<Rightarrow> 'm gadget_scheme \<Rightarrow> 'm gadget_scheme mem" where
  "gadget_callback k src c s =
     (case c of
        UVC_STREAM_UVC_PROCESS \<Rightarrow> uvc_stream_uvc_process k src s
      | V4L2_SOURCE_VIDEO_PROCESS i \<Rightarrow>
          if i = source_id s then v4l2_source_video_process k (uvc_stream_source_process k) s else Fault
      | UVC_EVENTS_PROCESS \<Rightarrow> uvc_events_process k src s)"

end
