(* ===== verification/Uvc_Facts.thy ===== *)
theory Uvc_Facts
  imports Uvc_Device
begin

text \<open>
  What the UVC protocol handler guarantees: negotiation gives settings of the configuration and
  is stable, a commit applies them, and no callback of the event loop leaves the memory it owns
  but in one situation, which is stated.
\<close>

section \<open>Structs as bytes\<close>

lemma length_control_bytes [simp]: "length (control_bytes c) = 34"
  by (simp add: control_bytes_def)

lemma nth_at: "length xs = i \<Longrightarrow> (xs @ y # ys) ! i = y"
  by auto

lemma control_of_bytes: "control_of (control_bytes c @ zs) = c"
proof -
  define b where "b = control_bytes c @ zs"
  note ds = b_def control_bytes_def
  have "get16 b 0 = bmHint c"
    unfolding ds append_assoc using get16_at [of "[]"] by simp
  moreover have "b ! 2 = bFormatIndex c" "b ! 3 = bFrameIndex c"
    by (simp_all add: ds le16_def)
  moreover have "get32 b 4 = dwFrameInterval c"
    using get32_at [of "le16 (bmHint c) @ [bFormatIndex c, bFrameIndex c]" 4] by (simp add: ds)
  moreover define h where "h = le16 (bmHint c) @ [bFormatIndex c, bFrameIndex c] @ le32 (dwFrameInterval c)"
  have h: "length h = 8" by (simp add: h_def)
  moreover have "get16 b 8 = wKeyFrameRate c"
    using get16_at [OF h] by (simp add: ds h_def)
  moreover have "get16 b 10 = wPFrameRate c"
    using get16_at [of "h @ le16 (wKeyFrameRate c)" 10] h by (simp add: ds h_def)
  moreover have "get16 b 12 = wCompQuality c"
    using get16_at [of "h @ le16 (wKeyFrameRate c) @ le16 (wPFrameRate c)" 12] h by (simp add: ds h_def)
  moreover define g where "g = h @ le16 (wKeyFrameRate c) @ le16 (wPFrameRate c) @ le16 (wCompQuality c)"
  have g: "length g = 14" by (simp add: g_def h_def)
  moreover have "get16 b 14 = wCompWindowSize c"
    using get16_at [OF g] by (simp add: ds h_def g_def)
  moreover have "get16 b 16 = wDelay c"
    using get16_at [of "g @ le16 (wCompWindowSize c)" 16] g by (simp add: ds h_def g_def)
  moreover define f where "f = g @ le16 (wCompWindowSize c) @ le16 (wDelay c)"
  have f: "length f = 18" by (simp add: f_def g_def h_def)
  moreover have "get32 b 18 = dwMaxVideoFrameSize c"
    using get32_at [OF f] by (simp add: ds h_def g_def f_def)
  moreover have "get32 b 22 = dwMaxPayloadTransferSize c"
    using get32_at [of "f @ le32 (dwMaxVideoFrameSize c)" 22] f by (simp add: ds h_def g_def f_def)
  moreover define e where "e = f @ le32 (dwMaxVideoFrameSize c) @ le32 (dwMaxPayloadTransferSize c)"
  have e: "length e = 26" by (simp add: e_def f_def g_def h_def)
  moreover have "get32 b 26 = dwClockFrequency c"
    using get32_at [OF e] by (simp add: ds h_def g_def f_def e_def)
  moreover have "b ! 30 = bmFramingInfo c" "b ! 31 = bPreferedVersion c" "b ! 32 = bMinVersion c" "b ! 33 = bMaxVersion c"
    by (simp_all add: ds le16_def le32_def)
  ultimately have "control_of b = c" by (simp add: control_of_def)
  then show ?thesis by (simp add: b_def)
qed

section \<open>Negotiation\<close>

lemma element_Ret: "0 < i \<Longrightarrow> i \<le> length xs \<Longrightarrow> element xs i = Ret (xs ! (i - 1))"
  by (simp add: element_def)

lemma clamp_bounds: "lo \<le> hi \<Longrightarrow> lo \<le> clamp v lo hi \<and> clamp v lo hi \<le> hi"
  by (simp add: clamp_def)

lemma clamp_id: "lo \<le> v \<Longrightarrow> v \<le> hi \<Longrightarrow> clamp v lo hi = v"
  by (simp add: clamp_def)

text \<open>What the search for an interval finds: the first one not less, in the order of the array.\<close>

fun first_at_least :: "u32 \<Rightarrow> u32 list \<Rightarrow> u32 option" where
  "first_at_least v [] = None"
| "first_at_least v (x # xs) = (if v \<le> x then Some x else first_at_least v xs)"

lemma find_interval_value:
  "i + n \<le> length xs \<Longrightarrow> find_interval v xs n i = Ret (first_at_least v (take n (drop i xs)))"
proof (induction n arbitrary: i)
  case (Suc n)
  then have "drop i xs = xs ! i # drop (Suc i) xs" by (simp add: Cons_nth_drop_Suc)
  then show ?case using Suc by (simp add: element_def)
qed simp

definition chosen :: "u32 \<Rightarrow> u32 list \<Rightarrow> u32" where
  "chosen v xs = (case first_at_least v xs of None \<Rightarrow> last xs | Some x \<Rightarrow> x)"

lemma choose_interval_value:
  "wf_frame f \<Longrightarrow> choose_interval f v = Ret (chosen v (intervals f))"
proof -
  assume f: "wf_frame f"
  then have "intervals f \<noteq> []" by (auto simp: wf_frame_def)
  then show ?thesis
    using f last_conv_nth [of "intervals f"]
    by (auto simp: wf_frame_def choose_interval_def find_interval_value chosen_def element_def split: option.split)
qed

lemma first_at_least_member: "first_at_least v xs = Some x \<Longrightarrow> x \<in> set xs \<and> v \<le> x"
  by (induction xs) (auto split: if_splits)

lemma first_at_least_None: "first_at_least v xs = None \<longleftrightarrow> (\<forall>x\<in>set xs. x < v)"
  by (induction xs) (auto simp: not_le)

lemma chosen_split:
  "xs \<noteq> [] \<Longrightarrow> \<exists>ys zs. xs = ys @ chosen v xs # zs \<and> (\<forall>y\<in>set ys. y < v) \<and> (v \<le> chosen v xs \<or> zs = [])"
proof (induction xs)
  case (Cons x xs)
  show ?case
  proof (cases "v \<le> x")
    case True
    then show ?thesis by (intro exI [of _ "[]"] exI [of _ xs]) (simp add: chosen_def)
  next
    case x: False
    show ?thesis
    proof (cases "xs = []")
      case True
      then show ?thesis using x by (simp add: chosen_def)
    next
      case False
      then have e: "chosen v (x # xs) = chosen v xs" using x by (simp add: chosen_def split: option.split)
      obtain ys zs where s: "xs = ys @ chosen v xs # zs" "\<forall>y\<in>set ys. y < v" "v \<le> chosen v xs \<or> zs = []"
        using Cons.IH False by blast
      show ?thesis unfolding e
        by (intro exI [of _ "x # ys"] exI [of _ zs]) (use s x in \<open>auto simp: not_le\<close>)
    qed
  qed
qed simp

lemma chosen_member: "xs \<noteq> [] \<Longrightarrow> chosen v xs \<in> set xs"
  by (auto simp: chosen_def dest: first_at_least_member split: option.split)

lemma first_at_least_again: "first_at_least v xs = Some x \<Longrightarrow> first_at_least x xs = Some x"
proof (induction xs)
  case (Cons y ys)
  show ?case
  proof (cases "v \<le> y")
    case False
    then have "first_at_least v ys = Some x" using Cons.prems by simp
    moreover from this have "v \<le> x" using first_at_least_member by blast
    ultimately show ?thesis using Cons.IH False by (simp add: not_le) (metis le_less_trans less_le_not_le)
  qed (use Cons in simp)
qed simp

lemma sorted_le_last: "sorted xs \<Longrightarrow> x \<in> set xs \<Longrightarrow> x \<le> last xs"
  for x :: "'a::linorder"
  by (induction xs) auto

text \<open>In ascending order the last interval is the greatest, so the choice is stable.\<close>

lemma chosen_again:
  assumes "sorted xs" "xs \<noteq> []"
  shows "chosen (chosen v xs) xs = chosen v xs"
proof (cases "first_at_least v xs")
  case (Some x)
  then show ?thesis by (simp add: chosen_def first_at_least_again)
next
  case None
  have m: "x \<le> last xs" if "x \<in> set xs" for x
    using assms(1) that by (rule sorted_le_last)
  have "first_at_least (last xs) xs = Some y \<Longrightarrow> y = last xs" for y
    using first_at_least_member m by fastforce
  then show ?thesis by (auto simp: chosen_def None split: option.split)
qed

text \<open>The format, frame and interval that a request selects.\<close>

definition selected_format :: "function_config \<Rightarrow> u32 \<Rightarrow> nat" where
  "selected_format c a = clamp (unat a) 1 (num_formats c)"

definition selected_frame :: "function_config \<Rightarrow> u32 \<Rightarrow> u32 \<Rightarrow> nat" where
  "selected_frame c a b = clamp (unat b) 1 (num_frames (formats c ! (selected_format c a - 1)))"

lemma wf_format_at: "wf_config c \<Longrightarrow> 0 < i \<Longrightarrow> i \<le> num_formats c \<Longrightarrow> wf_format (formats c ! (i - 1))"
  by (auto simp: wf_config_def list_all_length)

lemma wf_frame_at: "wf_format f \<Longrightarrow> 0 < i \<Longrightarrow> i \<le> num_frames f \<Longrightarrow> wf_frame (frames f ! (i - 1))"
  by (auto simp: wf_format_def list_all_length)

lemma selected_format_bounds: "wf_config c \<Longrightarrow> 0 < selected_format c a \<and> selected_format c a \<le> num_formats c"
  using clamp_bounds [of 1 "num_formats c" "unat a"] by (auto simp: selected_format_def wf_config_def)

lemma selected_frame_bounds:
  assumes "wf_config c"
  shows "0 < selected_frame c a b \<and> selected_frame c a b \<le> num_frames (formats c ! (selected_format c a - 1))"
proof -
  have "wf_format (formats c ! (selected_format c a - 1))"
    using wf_format_at [OF assms] selected_format_bounds [OF assms] by simp
  then show ?thesis
    using clamp_bounds [of 1 "num_frames (formats c ! (selected_format c a - 1))" "unat b"]
    by (auto simp: selected_frame_def wf_format_def)
qed

lemma fill_value:
  fixes c :: function_config and a b :: u32
  assumes "wf_config c"
  defines "i \<equiv> selected_format c a" and "j \<equiv> selected_frame c a b"
  defines "format \<equiv> formats c ! (i - 1)"
  defines "frame \<equiv> frames format ! (j - 1)"
  shows "uvc_fill_streaming_control (Some c) mx a b v = Ret (no_control\<lparr>bmHint := 1,
      bFormatIndex := word_of_nat i, bFrameIndex := word_of_nat j,
      dwFrameInterval := chosen v (intervals frame),
      dwMaxVideoFrameSize := max_frame_size (fo_fcc format) frame mx,
      dwMaxPayloadTransferSize := wMaxPacketSize (streaming_ep c),
      bmFramingInfo := 3, bPreferedVersion := 1, bMaxVersion := 1\<rparr>)"
proof -
  have i: "0 < i" "i \<le> num_formats c" using selected_format_bounds [OF assms(1)] by (simp_all add: i_def)
  have j: "0 < j" "j \<le> num_frames format"
    using selected_frame_bounds [OF assms(1)] by (simp_all add: i_def j_def format_def)
  have ei: "element (formats c) i = Ret format"
    using i assms(1) by (simp add: element_Ret format_def wf_config_def)
  have wf: "wf_format format" using wf_format_at [OF assms(1) i] by (simp add: format_def)
  have ej: "element (frames format) j = Ret frame"
    using j wf by (simp add: element_Ret frame_def wf_format_def)
  have ci: "choose_interval frame v = Ret (chosen v (intervals frame))"
    using wf_frame_at [OF wf j] by (simp add: frame_def choose_interval_value)
  have "clamp (unat a) 1 (num_formats c) = i" "clamp (unat b) 1 (num_frames format) = j"
    by (simp_all add: i_def j_def selected_format_def selected_frame_def format_def)
  then show ?thesis
    by (simp add: uvc_fill_streaming_control_def Let_def ei ej ci)
qed

section \<open>The invariant of the application\<close>

text \<open>
  Both devices are well-formed; the configuration can be negotiated, and no interval in it is
  zero; a buffer is as long as its length says.
\<close>

definition nonzero_intervals :: "function_config \<Rightarrow> bool" where
  "nonzero_intervals c \<longleftrightarrow> list_all (\<lambda>f. list_all (\<lambda>fr. list_all (\<lambda>v. v \<noteq> 0) (intervals fr)) (frames f)) (formats c)"

definition buffers_fit :: "os \<Rightarrow> 'm gadget_scheme \<Rightarrow> bool" where
  "buffers_fit k s \<longleftrightarrow>
     (case out_data s of None \<Rightarrow> out_len s = 0 | Some d \<Rightarrow> length d = out_len s) \<and>
     (blob_len_read s \<longrightarrow> client_req_bytes_read s \<le> in_len s \<and>
        (case in_data s of None \<Rightarrow> \<not> has_memory k | Some d \<Rightarrow> length d = in_len s))"

definition configured :: "'m gadget_scheme \<Rightarrow> bool" where
  "configured s \<longleftrightarrow> ud_maxsize s = 0 \<and> (\<exists>c. fc s = Some c \<and> wf_config c \<and> nonzero_intervals c)"

definition devices_wf :: "'m stream_app_scheme \<Rightarrow> bool" where
  "devices_wf s \<longleftrightarrow> wf_device (source s) \<and> wf_device (sink s)"

definition good_gadget :: "os \<Rightarrow> 'm gadget_scheme \<Rightarrow> bool" where
  "good_gadget k s \<longleftrightarrow> devices_wf s \<and> configured s \<and> buffers_fit k s"

text \<open>More of a response has been sent than there is: a new one came before the old one was read.\<close>

definition stale :: "'m gadget_scheme \<Rightarrow> bool" where
  "stale s \<longleftrightarrow> resp_len_sent s \<and> out_len s \<noteq> 0 \<and> out_len s < server_resp_bytes_sent s"

lemma devices_frame [simp]:
  "devices_wf (s\<lparr>app_world := w\<rparr>) = devices_wf s" "devices_wf (s\<lparr>app_events := e\<rparr>) = devices_wf s"
  "devices_wf (s\<lparr>mode_changed := b\<rparr>) = devices_wf s" "devices_wf (s\<lparr>stop_app := b\<rparr>) = devices_wf s"
  "devices_wf (s\<lparr>source_id := i\<rparr>) = devices_wf s"
  by (simp_all add: devices_wf_def)

lemma configured_frame [simp]:
  "configured (s\<lparr>app_world := w\<rparr>) = configured s" "configured (s\<lparr>app_events := e\<rparr>) = configured s"
  "configured (s\<lparr>mode_changed := b\<rparr>) = configured s" "configured (s\<lparr>sink := d\<rparr>) = configured s"
  "configured (s\<lparr>source := d\<rparr>) = configured s" "configured (s\<lparr>stop_app := b\<rparr>) = configured s"
  "configured (s\<lparr>source_id := i\<rparr>) = configured s"
  by (simp_all add: configured_def)

lemma buffers_fit_frame [simp]:
  "buffers_fit k (s\<lparr>app_world := w\<rparr>) = buffers_fit k s" "buffers_fit k (s\<lparr>app_events := e\<rparr>) = buffers_fit k s"
  "buffers_fit k (s\<lparr>sink := d\<rparr>) = buffers_fit k s" "buffers_fit k (s\<lparr>source := d\<rparr>) = buffers_fit k s"
  "buffers_fit k (s\<lparr>mode_changed := b\<rparr>) = buffers_fit k s" "buffers_fit k (s\<lparr>stop_app := b\<rparr>) = buffers_fit k s"
  "buffers_fit k (s\<lparr>source_id := i\<rparr>) = buffers_fit k s"
  by (simp_all add: buffers_fit_def cong: option.case_cong)

text \<open>Everything the invariant says of the UVC device is in what extends the state of the stream.\<close>

lemma more_gadget:
  fixes s t :: "'m gadget_scheme"
  assumes "stream_app.more t = stream_app.more s"
  shows "configured t = configured s" "buffers_fit k t = buffers_fit k s" "fc t = fc s"
    "ud_commit t = ud_commit s"
proof -
  have "t = s\<lparr>app_events := app_events t, app_world := app_world t, mode_changed := mode_changed t,
      stop_app := stop_app t, source_id := source_id t, source := source t, sink := sink t\<rparr>"
    using assms by (intro stream_app.equality) simp_all
  then obtain e w m n i d d' where t: "t = s\<lparr>app_events := e, app_world := w, mode_changed := m, stop_app := n,
      source_id := i, source := d, sink := d'\<rparr>"
    by blast
  show "configured t = configured s" "buffers_fit k t = buffers_fit k s" "fc t = fc s" "ud_commit t = ud_commit s"
    unfolding t by (simp_all cong: option.case_cong)
qed

section \<open>No callback leaves its memory\<close>

lemma stale_fault:
  assumes "buffers_fit k s" "resp_len_sent s" "out_len s \<noteq> 0"
  shows "next_packet resp s = Fault \<longleftrightarrow> stale s"
  using assms
  by (auto simp: next_packet_def stale_def buffers_fit_def packet_size_def minus_size_def Let_def split: option.splits)

text \<open>What a request handler may change: neither the devices nor the configuration nor the events.\<close>

definition own_state :: "'m gadget_scheme \<Rightarrow> 'm gadget_scheme \<Rightarrow> bool" where
  "own_state s t \<longleftrightarrow> source t = source s \<and> sink t = sink s \<and> fc t = fc s \<and> ud_maxsize t = ud_maxsize s \<and>
     app_events t = app_events s \<and> source_id t = source_id s"

lemma own_state_refl [simp]: "own_state s s"
  by (simp add: own_state_def)

lemma own_state_good: "own_state s t \<Longrightarrow> devices_wf t = devices_wf s \<and> configured t = configured s"
  by (simp add: own_state_def devices_wf_def configured_def)

lemma own_state_updates [simp]:
  "own_state s (t\<lparr>app_world := w\<rparr>) = own_state s t" "own_state s (t\<lparr>mode_changed := b\<rparr>) = own_state s t"
  "own_state s (t\<lparr>out_data := od\<rparr>) = own_state s t" "own_state s (t\<lparr>out_len := n\<rparr>) = own_state s t"
  "own_state s (t\<lparr>resp_len_sent := b\<rparr>) = own_state s t" "own_state s (t\<lparr>server_resp_bytes_sent := n\<rparr>) = own_state s t"
  "own_state s (t\<lparr>in_data := od\<rparr>) = own_state s t" "own_state s (t\<lparr>in_len := n\<rparr>) = own_state s t"
  "own_state s (t\<lparr>client_req_bytes_read := n\<rparr>) = own_state s t" "own_state s (t\<lparr>blob_len_read := b\<rparr>) = own_state s t"
  "own_state s (t\<lparr>ud_control := n\<rparr>) = own_state s t" "own_state s (t\<lparr>ud_probe := c\<rparr>) = own_state s t"
  "own_state s (t\<lparr>ud_commit := c\<rparr>) = own_state s t" "own_state s (t\<lparr>ud_fcc := x\<rparr>) = own_state s t"
  "own_state s (t\<lparr>ud_width := x\<rparr>) = own_state s t" "own_state s (t\<lparr>ud_height := x\<rparr>) = own_state s t"
  by (simp_all add: own_state_def)

lemma fit_updates [simp]:
  "buffers_fit k (t\<lparr>resp_len_sent := b\<rparr>) = buffers_fit k t"
  "buffers_fit k (t\<lparr>server_resp_bytes_sent := n\<rparr>) = buffers_fit k t"
  "buffers_fit k (t\<lparr>ud_control := n\<rparr>) = buffers_fit k t" "buffers_fit k (t\<lparr>ud_probe := c\<rparr>) = buffers_fit k t"
  "buffers_fit k (t\<lparr>ud_commit := c\<rparr>) = buffers_fit k t" "buffers_fit k (t\<lparr>ud_fcc := x\<rparr>) = buffers_fit k t"
  "buffers_fit k (t\<lparr>ud_width := x\<rparr>) = buffers_fit k t" "buffers_fit k (t\<lparr>ud_height := x\<rparr>) = buffers_fit k t"
  by (simp_all add: buffers_fit_def cong: option.case_cong)

lemma fit_drop_response: "buffers_fit k s \<Longrightarrow> buffers_fit k (s\<lparr>out_data := None, out_len := 0\<rparr>)"
  by (simp add: buffers_fit_def cong: option.case_cong)

lemma next_packet_keeps:
  assumes "buffers_fit k s" "next_packet resp s = Ret (r, t)"
  shows "buffers_fit k t \<and> own_state s t"
proof -
  let ?n = "server_resp_bytes_sent s + packet_size (minus_size (out_len s) (server_resp_bytes_sent s))"
  have "t = (let u = s\<lparr>server_resp_bytes_sent := ?n\<rparr> in
      if ?n = out_len s then u\<lparr>out_data := None, out_len := 0, resp_len_sent := False\<rparr> else u)"
    using assms(2) by (auto simp: next_packet_def Let_def split: option.splits if_splits)
  then show ?thesis using assms(1) by (auto simp: Let_def fit_drop_response)
qed

lemma fill_returns: "configured s \<Longrightarrow> \<exists>ctl. uvc_fill_streaming_control (fc s) m a b v = Ret ctl"
  using fill_value by (fastforce simp: configured_def)

lemma get_response_outcome:
  assumes "buffers_fit k s"
  shows "case get_response resp s of Fault \<Rightarrow> stale s | Ret (r, t) \<Rightarrow> buffers_fit k t \<and> own_state s t"
  using stale_fault [OF assms, of resp] next_packet_keeps [OF assms, of resp] assms
  by (auto simp: get_response_def split: mem.split)

lemma extension_outcome:
  assumes "buffers_fit k s"
  shows "case uvc_events_process_extension_unit req cs len resp s of
      Fault \<Rightarrow> stale s | Ret (r, t) \<Rightarrow> buffers_fit k t \<and> own_state s t"
  using get_response_outcome [OF assms, of resp] assms by (simp add: uvc_events_process_extension_unit_def)

lemma streaming_outcome:
  assumes "configured s" "buffers_fit k s"
  shows "\<exists>r t. uvc_events_process_streaming req cs resp s = Ret (r, t) \<and> buffers_fit k t \<and> own_state s t"
proof -
  obtain c1 where "uvc_fill_streaming_control (fc s) (ud_maxsize s) (-1) (-1) (-1) = Ret c1"
    using fill_returns [OF assms(1)] by blast
  moreover obtain c2 where "uvc_fill_streaming_control (fc s) (ud_maxsize s) 1 1 0 = Ret c2"
    using fill_returns [OF assms(1)] by blast
  ultimately show ?thesis using assms(2) by (simp add: uvc_events_process_streaming_def Let_def)
qed

lemma class_outcome:
  assumes "configured s" "buffers_fit k s"
  shows "case uvc_events_process_class ctrl resp s of
      Fault \<Rightarrow> stale s | Ret (r, t) \<Rightarrow> buffers_fit k t \<and> own_state s t"
proof -
  obtain c where c: "fc s = Some c" using assms(1) by (auto simp: configured_def)
  let ?cs = "ucast (drop_bit 8 (wValue ctrl)) :: u8"
  obtain r t where "uvc_events_process_streaming (bRequest ctrl) ?cs resp s = Ret (r, t)" "buffers_fit k t" "own_state s t"
    using streaming_outcome [OF assms] by blast
  then show ?thesis
    using extension_outcome [OF assms(2), of "bRequest ctrl" ?cs "wLength ctrl" resp] assms(2)
    by (simp add: uvc_events_process_class_def c Let_def)
qed

lemma setup_outcome:
  assumes "configured s" "buffers_fit k s"
  shows "case uvc_events_process_setup ctrl resp s of
      Fault \<Rightarrow> stale s | Ret (r, t) \<Rightarrow> buffers_fit k t \<and> own_state s t"
proof -
  let ?s = "s\<lparr>ud_control := 0\<rparr>"
  have s: "configured ?s" "buffers_fit k ?s" "stale ?s = stale s"
    using assms by (simp_all add: configured_def stale_def)
  have o: "own_state ?s t = own_state s t" for t by (simp add: own_state_def)
  show ?thesis
    using class_outcome [OF s(1,2), of ctrl resp] assms(2)
    by (auto simp: uvc_events_process_setup_def Let_def o s(3) split: mem.splits)
qed

subsection \<open>Data\<close>

lemma no_memory: "ret (k w Malloc) < 0 \<Longrightarrow> \<not> has_memory k"
  unfolding has_memory_def by (metis not_le)

lemma client_length_keeps:
  assumes "buffers_fit k s"
  shows "buffers_fit k (client_length k bs s) \<and> own_state s (client_length k bs s)"
  using assms
  by (auto simp: client_length_def sys_def Let_def buffers_fit_def own_state_def dest: no_memory
      split: option.splits)

lemma client_packet_outcome:
  assumes "buffers_fit k s" "blob_len_read s" "length bs = 60"
  shows "case client_packet k bs s of Fault \<Rightarrow> \<not> has_memory k | Ret t \<Rightarrow> buffers_fit k t \<and> own_state s t"
proof -
  define i where "i = client_req_bytes_read s"
  define n where "n = packet_size (in_len s - i)"
  have f: "i \<le> in_len s" "case in_data s of None \<Rightarrow> \<not> has_memory k | Some d \<Rightarrow> length d = in_len s"
    "case out_data s of None \<Rightarrow> out_len s = 0 | Some d \<Rightarrow> length d = out_len s"
    using assms(1,2) by (auto simp: buffers_fit_def i_def)
  have n: "n \<le> in_len s - i" "n \<le> 60" by (simp_all add: n_def packet_size_def MAX_PACKET_SIZE_def)
  have m: "minus_size (in_len s) i = in_len s - i" using f(1) by (simp add: minus_size_def)
  define d where "d = (if n = 0 then Ret (in_data s)
    else case in_data s of None \<Rightarrow> Fault
      | Some d \<Rightarrow> if i + n \<le> length d then Ret (Some (take i d @ take n bs @ drop (i + n) d)) else Fault)"
  have v: "client_packet k bs s = (case d of Fault \<Rightarrow> Fault
    | Ret d \<Rightarrow> let u = s\<lparr>in_data := d, client_req_bytes_read := i + n\<rparr> in
        if in_len s - i - n = 0
        then case sys k (Handle_Client_Request (case d of None \<Rightarrow> [] | Some d \<Rightarrow> take (in_len s) d)) (app_world s) of
            (a, w) \<Rightarrow> Ret (u\<lparr>app_world := w, out_data := Some (a_bytes a), out_len := length (a_bytes a),
               mode_changed := (mode_changed s \<or> a_value a \<noteq> 0),
               in_data := None, in_len := 0, client_req_bytes_read := 0, blob_len_read := False\<rparr>)
        else Ret u)"
    unfolding client_packet_def Let_def i_def [symmetric] m n_def [symmetric] d_def [symmetric]
    by (simp cong: mem.case_cong if_cong option.case_cong)
  show ?thesis
  proof (cases d)
    case Fault
    then have "in_data s = None" using f n by (auto simp: d_def split: if_splits option.splits)
    then show ?thesis using f(2) by (simp add: v Fault)
  next
    case (Ret x)
    have x: "case x of None \<Rightarrow> \<not> has_memory k | Some d \<Rightarrow> length d = in_len s"
      using Ret f(2) n assms(3) f(1) by (auto simp: d_def split: if_splits option.splits)
    show ?thesis
    proof (cases "in_len s - i - n = 0")
      case True
      then show ?thesis
        by (simp add: v Ret sys_def Let_def own_state_def buffers_fit_def)
    next
      case False
      then have "buffers_fit k (s\<lparr>in_data := x, client_req_bytes_read := i + n\<rparr>)"
        using x f(3) n f(1) by (auto simp: buffers_fit_def split: option.splits)
      then show ?thesis using False by (simp add: v Ret Let_def own_state_def)
    qed
  qed
qed

text \<open>Setting a format or a frame rate touches only the devices' own records of them.\<close>

lemma wf_device_frame [simp]:
  "wf_device (d\<lparr>dev_format := f\<rparr>) = wf_device d" "wf_device (d\<lparr>dev_fps := n\<rparr>) = wf_device d"
  by (simp_all add: wf_device_def)

lemma v4l2_set_format_keeps:
  "fst (snd (fst (v4l2_set_format k d f w))) = d \<or> (\<exists>g. fst (snd (fst (v4l2_set_format k d f w))) = d\<lparr>dev_format := g\<rparr>)"
  by (auto simp: v4l2_set_format_def sys_def Let_def)

lemma set_format_keeps:
  fixes s :: "'m stream_app_scheme" and k :: os and f :: v4l2_pix_format
  defines "t \<equiv> snd (uvc_stream_set_format k (v4l2_source_ops k) f s)"
  shows "devices_wf t = devices_wf s \<and> stream_app.more t = stream_app.more s \<and>
    app_events t = app_events s \<and> source_id t = source_id s"
proof -
  obtain r d g w where a: "v4l2_set_format k (sink s) f (app_world s) = ((r, d, g), w)" by (metis surj_pair)
  have d: "wf_device d = wf_device (sink s)" using v4l2_set_format_keeps [of k "sink s" f "app_world s"] a by auto
  obtain r' d' g' w' where b: "v4l2_set_format k (source s) g w = ((r', d', g'), w')" by (metis surj_pair)
  have d': "wf_device d' = wf_device (source s)" using v4l2_set_format_keeps [of k "source s" g w] b by auto
  show ?thesis
    using d d'
    by (auto simp: t_def uvc_stream_set_format_def uvc_set_format_def a video_source_set_format_def
        v4l2_source_ops_def v4l2_source_set_format_def b devices_wf_def)
qed

lemma set_frame_rate_keeps:
  fixes s :: "'m stream_app_scheme" and k :: os and fps :: u32
  defines "t \<equiv> snd (uvc_stream_set_frame_rate (v4l2_source_ops k) fps s)"
  shows "devices_wf t = devices_wf s \<and> stream_app.more t = stream_app.more s \<and>
    app_events t = app_events s \<and> source_id t = source_id s"
  by (auto simp: t_def uvc_stream_set_frame_rate_def video_source_set_frame_rate_def v4l2_source_ops_def
      v4l2_source_set_frame_rate_def v4l2_set_frame_rate_def sys_def Let_def devices_wf_def)

text \<open>A commit does not change what was committed.\<close>

lemma commit_format_keeps:
  assumes "commit_format k (v4l2_source_ops k) target s = Ret z"
  shows "ud_commit z = ud_commit s"
proof -
  obtain a b d pix fps where
    z: "z = snd (uvc_stream_set_frame_rate (v4l2_source_ops k) fps (snd (uvc_stream_set_format k (v4l2_source_ops k) pix
          (s\<lparr>ud_fcc := a, ud_width := b, ud_height := d\<rparr>))))"
    using assms by (auto simp: commit_format_def Let_def split: option.splits mem.splits)
  let ?u = "s\<lparr>ud_fcc := a, ud_width := b, ud_height := d\<rparr>"
  have "stream_app.more z = stream_app.more ?u"
    using set_format_keeps [of k pix ?u]
      set_frame_rate_keeps [of k fps "snd (uvc_stream_set_format k (v4l2_source_ops k) pix ?u)"]
    by (simp add: z)
  from more_gadget(4) [OF this] show ?thesis by simp
qed

lemma chosen_nonzero:
  assumes "wf_config c" "nonzero_intervals c"
  shows "chosen v (intervals (frames (formats c ! (selected_format c a - 1)) ! (selected_frame c a b - 1))) \<noteq> 0"
proof -
  let ?i = "selected_format c a" and ?j = "selected_frame c a b"
  let ?f = "formats c ! (?i - 1)"
  let ?fr = "frames ?f ! (?j - 1)"
  have i: "0 < ?i" "?i \<le> num_formats c" using selected_format_bounds [OF assms(1)] by auto
  have f: "wf_format ?f" by (rule wf_format_at [OF assms(1) i])
  have j: "0 < ?j" "?j \<le> num_frames ?f" using selected_frame_bounds [OF assms(1)] by auto
  have fr: "wf_frame ?fr" by (rule wf_frame_at [OF f j])
  have "list_all (\<lambda>v. v \<noteq> 0) (intervals ?fr)"
    using assms i j f by (simp add: nonzero_intervals_def wf_config_def wf_format_def list_all_length)
  moreover have "intervals ?fr \<noteq> []" using fr by (auto simp: wf_frame_def)
  ultimately show ?thesis using chosen_member [of "intervals ?fr" v] by (auto simp: list_all_iff)
qed

lemma word_u8_of_nat: "n < 256 \<Longrightarrow> unat (word_of_nat n :: u8) = n"
  by (simp add: unat_of_nat)

text \<open>A commit of a control that negotiation gave, with the frame and format it names.\<close>

lemma commit_value:
  fixes s :: "'m gadget_scheme" and a b v :: u32 and c :: function_config
  assumes "fc s = Some c" "wf_config c" "nonzero_intervals c" "ud_maxsize s = 0"
    and "uvc_fill_streaming_control (Some c) 0 a b v = Ret target"
  defines "format \<equiv> formats c ! (selected_format c a - 1)"
  defines "frame \<equiv> frames format ! (selected_frame c a b - 1)"
  defines "u \<equiv> s\<lparr>ud_fcc := fo_fcc format, ud_width := cf_width frame, ud_height := cf_height frame\<rparr>"
  shows "\<exists>fps. frame_rate (dwFrameInterval target) = Ret fps \<and>
    commit_format k src target s = Ret (snd (uvc_stream_set_frame_rate src fps (snd (uvc_stream_set_format k src
      (no_pix\<lparr>px_width := cf_width frame, px_height := cf_height frame, px_pixelformat := fo_fcc format,
              px_field := 1, px_sizeimage := 0\<rparr>) u))))"
proof -
  have i: "0 < selected_format c a" "selected_format c a \<le> num_formats c"
    using selected_format_bounds [OF assms(2)] by auto
  have f: "wf_format format" unfolding format_def by (rule wf_format_at [OF assms(2) i])
  have j: "0 < selected_frame c a b" "selected_frame c a b \<le> num_frames format"
    using selected_frame_bounds [OF assms(2)] by (auto simp: format_def)
  have t: "unat (bFormatIndex target) = selected_format c a" "unat (bFrameIndex target) = selected_frame c a b"
    "dwFrameInterval target = chosen v (intervals frame)"
    using assms(5) i(2) j(2) f assms(2)
    by (auto simp: fill_value [OF assms(2)] frame_def format_def wf_config_def wf_format_def word_u8_of_nat)
  have "dwFrameInterval target \<noteq> 0"
    using chosen_nonzero [OF assms(2,3)] by (simp add: t frame_def format_def)
  then obtain fps where fps: "frame_rate (dwFrameInterval target) = Ret fps"
    using frame_rate_value by blast
  have e: "element (formats c) (selected_format c a) = Ret format"
    "element (frames format) (selected_frame c a b) = Ret frame"
    using i j f assms(2) by (simp_all add: element_def format_def frame_def wf_config_def wf_format_def)
  show ?thesis
    using assms(1,4) by (auto simp: commit_format_def t(1,2) e fps Let_def image_size_def u_def)
qed

lemma own_state_keeps:
  "devices_wf s \<Longrightarrow> configured s \<Longrightarrow> buffers_fit k t \<Longrightarrow> own_state s t \<Longrightarrow>
   good_gadget k t \<and> app_events t = app_events s \<and> source_id t = source_id s"
  using own_state_good [of s t] by (auto simp: good_gadget_def own_state_def)

lemma data_outcome:
  fixes s :: "'m gadget_scheme"
  assumes "good_gadget k s" "length (rs_data data) = 60"
  shows "case uvc_events_process_data k (v4l2_source_ops k) data s of
      Fault \<Rightarrow> \<not> has_memory k
    | Ret t \<Rightarrow> good_gadget k t \<and> app_events t = app_events s \<and> source_id t = source_id s"
proof -
  have g: "devices_wf s" "configured s" "buffers_fit k s" using assms(1) by (auto simp: good_gadget_def)
  obtain c where c: "fc s = Some c" "wf_config c" "nonzero_intervals c" "ud_maxsize s = 0"
    using g(2) by (auto simp: configured_def)
  let ?ctrl = "control_of (rs_data data)"
  let ?a = "ucast (bFormatIndex ?ctrl) :: u32" and ?b = "ucast (bFrameIndex ?ctrl) :: u32"
  obtain target where t: "uvc_fill_streaming_control (Some c) 0 ?a ?b (dwFrameInterval ?ctrl) = Ret target"
    using fill_value [OF c(2)] by blast
  consider "ud_control s = 0x0301" "blob_len_read s" | "ud_control s = 0x0301" "\<not> blob_len_read s"
    | "ud_control s = 1" | "ud_control s = 2" | "ud_control s \<notin> {0x0301, 1, 2}" by blast
  then show ?thesis
  proof cases
    case 1
    then have e: "uvc_events_process_data k (v4l2_source_ops k) data s = client_packet k (rs_data data) s"
      by (simp add: uvc_events_process_data_def)
    show ?thesis
      using client_packet_outcome [OF g(3) 1(2) assms(2)] own_state_keeps [OF g(1,2)]
      unfolding e by (auto split: mem.split)
  next
    case 2
    then have e: "uvc_events_process_data k (v4l2_source_ops k) data s = Ret (client_length k (rs_data data) s)"
      by (simp add: uvc_events_process_data_def)
    show ?thesis
      using client_length_keeps [OF g(3), of "rs_data data"] own_state_keeps [OF g(1,2)]
      unfolding e by auto
  next
    case 3
    then show ?thesis
      using own_state_keeps [OF g(1,2), of k "s\<lparr>ud_probe := target\<rparr>"] g(3)
      by (simp add: uvc_events_process_data_def Let_def c t)
  next
    case 4
    let ?s = "s\<lparr>ud_commit := target\<rparr>"
    have s: "fc ?s = Some c" "ud_maxsize ?s = 0" using c by simp_all
    let ?f = "formats c ! (selected_format c ?a - 1)"
    let ?fr = "frames ?f ! (selected_frame c ?a ?b - 1)"
    let ?u = "?s\<lparr>ud_fcc := fo_fcc ?f, ud_width := cf_width ?fr, ud_height := cf_height ?fr\<rparr>"
    obtain fps pix where v: "commit_format k (v4l2_source_ops k) target ?s =
        Ret (snd (uvc_stream_set_frame_rate (v4l2_source_ops k) fps (snd (uvc_stream_set_format k (v4l2_source_ops k) pix ?u))))"
      using commit_value [OF s(1) c(2,3) s(2) t] by blast
    have u: "own_state s ?u" "buffers_fit k ?u" using g(3) by simp_all
    have gu: "good_gadget k ?u" using g own_state_good [OF u(1)] u(2) by (simp add: good_gadget_def)
    define x where "x = snd (uvc_stream_set_format k (v4l2_source_ops k) pix ?u)"
    define y where "y = snd (uvc_stream_set_frame_rate (v4l2_source_ops k) fps x)"
    have x: "good_gadget k x" "app_events x = app_events ?u" "source_id x = source_id ?u"
      using set_format_keeps [of k pix ?u] gu more_gadget [of x ?u] by (auto simp: good_gadget_def x_def)
    have y: "good_gadget k y" "app_events y = app_events x" "source_id y = source_id x"
      using set_frame_rate_keeps [of k fps x] x(1) more_gadget [of y x] by (auto simp: good_gadget_def y_def)
    show ?thesis
      using v x y 4 by (simp add: uvc_events_process_data_def Let_def c t x_def y_def)
  next
    case 5
    then show ?thesis using assms(1) by (simp add: uvc_events_process_data_def Let_def)
  qed
qed

subsection \<open>Events\<close>

lemma good_gadget_frame [simp]:
  "good_gadget k (s\<lparr>app_world := w\<rparr>) = good_gadget k s" "good_gadget k (s\<lparr>app_events := e\<rparr>) = good_gadget k s"
  "good_gadget k (s\<lparr>stop_app := b\<rparr>) = good_gadget k s" "good_gadget k (s\<lparr>mode_changed := b\<rparr>) = good_gadget k s"
  "good_gadget k (s\<lparr>source_id := i\<rparr>) = good_gadget k s"
  by (simp_all add: good_gadget_def)

lemma good_sigint [simp]: "good_gadget k (sigint_handler s) = good_gadget k s"
  by (simp add: sigint_handler_def)

lemma live_sigint [simp]: "sources_live (sigint_handler s) = sources_live s"
  by (simp add: sigint_handler_def sources_live_def)

lemma stale_world [simp]: "stale (s\<lparr>app_world := w\<rparr>) = stale s"
  by (simp add: stale_def)

lemma length_payload: "length (payload a) = 64"
  by (simp add: payload_def)

lemma length_request_data: "length (rs_data (request_data_of (payload a))) = 60"
  by (simp add: request_data_of_def length_payload)

text \<open>What a callback may do: keep the invariant, and end the loop or only add events.\<close>

definition callback_fine :: "os \<Rightarrow> 'm gadget_scheme \<Rightarrow> 'm gadget_scheme mem \<Rightarrow> bool" where
  "callback_fine k s res \<longleftrightarrow>
     (case res of
        Fault \<Rightarrow> \<not> has_memory k \<or> stale s
      | Ret t \<Rightarrow> good_gadget k t \<and> (ev_done (app_events t) \<or> appends_events (app_events s) (app_events t)) \<and>
          (sources_live s \<longrightarrow> sources_live t))"

lemma appends_same: "app_events t = app_events s \<Longrightarrow> appends_events (app_events s) (app_events t)"
  by (simp add: appends_events_def)

lemma enable_fine:
  assumes "good_gadget k s"
  shows "callback_fine k s (uvc_stream_enable k (v4l2_source_ops k) b s)"
proof -
  have d: "wf_device (source s)" "wf_device (sink s)" using assms by (auto simp: good_gadget_def devices_wf_def)
  show ?thesis
  proof (cases "uvc_stream_enable k (v4l2_source_ops k) b s")
    case Fault
    then show ?thesis using v4l2_source.enable_faults [OF d] by (auto simp: callback_fine_def)
  next
    case (Ret t)
    note e = v4l2_source.enable_keeps [OF d Ret]
    have "good_gadget k t"
      using e more_gadget [of t s] assms by (auto simp: good_gadget_def devices_wf_def)
    then show ?thesis using e by (auto simp: callback_fine_def Ret)
  qed
qed

lemma setup_fine:
  assumes "good_gadget k s"
  shows "callback_fine k s (case uvc_events_process_setup ctrl resp s of
      Fault \<Rightarrow> Fault | Ret (resp, s) \<Rightarrow> Ret (send_reply k resp s))"
proof -
  have g: "devices_wf s" "configured s" "buffers_fit k s" using assms by (auto simp: good_gadget_def)
  show ?thesis
  proof (cases "uvc_events_process_setup ctrl resp s")
    case Fault
    then show ?thesis using setup_outcome [OF g(2,3), of ctrl resp] by (simp add: callback_fine_def)
  next
    case (Ret x)
    obtain r t where x: "x = (r, t)" by force
    have "good_gadget k t \<and> app_events t = app_events s \<and> source_id t = source_id s"
      using setup_outcome [OF g(2,3), of ctrl resp] own_state_keeps [OF g(1,2), of k t] by (simp add: Ret x)
    then show ?thesis by (simp add: callback_fine_def Ret x send_reply_def appends_events_def sources_live_def)
  qed
qed

lemma events_process_fine:
  assumes "good_gadget k s"
  shows "callback_fine k s (uvc_events_process k (v4l2_source_ops k) s)"
proof -
  let ?c = "Dqevent (dev_fd (sink s))"
  let ?ev = "k (app_world s) ?c" and ?s = "s\<lparr>app_world := app_world s @ [?c]\<rparr>"
  have g: "good_gadget k ?s" using assms by simp
  have same: "callback_fine k ?s r = callback_fine k s r" for r
    by (cases r) (simp_all add: callback_fine_def)
  have d: "callback_fine k s (uvc_events_process_data k (v4l2_source_ops k) (request_data_of (payload ?ev)) ?s)"
    using data_outcome [OF g length_request_data, of ?ev]
    by (auto simp: callback_fine_def appends_events_def sources_live_def split: mem.splits)
  have st: "callback_fine k s (Ret ?s)" "callback_fine k s (Ret (send_reply k r ?s))" for r
    using assms by (simp_all add: callback_fine_def appends_events_def send_reply_def)
  show ?thesis
    using enable_fine [OF g] setup_fine [OF g] d st
    unfolding same by (simp add: uvc_events_process_def sys_def Let_def)
qed

lemma video_process_fine:
  fixes s :: "'m gadget_scheme"
  assumes "good_gadget k s"
  shows "callback_fine k s (v4l2_source_video_process k (uvc_stream_source_process k) s)"
proof -
  obtain r buf w where d: "v4l2_dequeue_buffer k (source s) zero_buffer (app_world s) = ((r, buf), w)"
    by (metis surj_pair)
  have "wf_device (sink s)" using assms by (simp add: good_gadget_def devices_wf_def)
  then obtain x where "v4l2_queue_buffer k (sink s) buf w = Ret x"
    using queue_buffer_no_fault by (cases "v4l2_queue_buffer k (sink s) buf w") auto
  then show ?thesis
    using assms
    by (cases x) (simp add: v4l2_source_video_process_def d uvc_stream_source_process_def callback_fine_def
        appends_events_def)
qed

lemma gadget_callback_fine:
  assumes "good_gadget k s" "\<And>i. c = V4L2_SOURCE_VIDEO_PROCESS i \<Longrightarrow> i = source_id s"
  shows "callback_fine k s (gadget_callback k (v4l2_source_ops k) c s)"
proof (cases c)
  case UVC_STREAM_UVC_PROCESS
  have d: "wf_device (source s)" using assms by (simp add: good_gadget_def devices_wf_def)
  obtain t where t: "uvc_stream_uvc_process k (v4l2_source_ops k) s = Ret t" "wf_device (source t)"
    "sink t = sink s" "app_events t = app_events s" "source_id t = source_id s" "stream_app.more t = stream_app.more s"
    using v4l2_source.uvc_process_keeps [OF d] by blast
  have "good_gadget k t"
    using t more_gadget [of t s] assms by (auto simp: good_gadget_def devices_wf_def)
  then show ?thesis
    using t by (simp add: UVC_STREAM_UVC_PROCESS gadget_callback_def callback_fine_def appends_events_def sources_live_def)
qed (simp_all add: gadget_callback_def video_process_fine events_process_fine assms)

lemma callback_returned_fine:
  assumes "good_gadget k s" "gadget_callback k (v4l2_source_ops k) c s = Ret t"
  shows "good_gadget k t" "ev_done (app_events t) \<or> appends_events (app_events s) (app_events t)"
    "sources_live s \<longrightarrow> sources_live t"
proof -
  have "\<And>i. c = V4L2_SOURCE_VIDEO_PROCESS i \<Longrightarrow> i = source_id s"
    using assms(2) by (auto simp: gadget_callback_def split: if_splits)
  then have "callback_fine k s (Ret t)" using gadget_callback_fine [OF assms(1), of c] assms(2) by simp
  then show "good_gadget k t" "ev_done (app_events t) \<or> appends_events (app_events s) (app_events t)"
    "sources_live s \<longrightarrow> sources_live t" by (simp_all add: callback_fine_def)
qed

text \<open>
  The states the application can get into from a given one: by a callback, by calls to the
  system, and by the loop being entered again. The answers of the system are arbitrary.
\<close>

inductive app_reach :: "os \<Rightarrow> 'm gadget_scheme \<Rightarrow> 'm gadget_scheme \<Rightarrow> bool" for k s where
  reach_here: "app_reach k s s"
| reach_world: "app_reach k s t \<Longrightarrow> app_reach k s (t\<lparr>app_world := w\<rparr>)"
| reach_signal: "app_reach k s t \<Longrightarrow> app_reach k s (sigint_handler t)"
| reach_again: "app_reach k s t \<Longrightarrow> app_reach k s (t\<lparr>app_events := (app_events t)\<lparr>ev_done := False\<rparr>\<rparr>)"
| reach_callback: "app_reach k s t \<Longrightarrow> gadget_callback k (v4l2_source_ops k) c t = Ret u \<Longrightarrow> app_reach k s u"

lemma reach_good: "app_reach k s t \<Longrightarrow> good_gadget k s \<Longrightarrow> good_gadget k t"
proof (induction rule: app_reach.induct)
  case (reach_callback t c u)
  then show ?case using callback_returned_fine [of k t c u] by simp
qed simp_all

interpretation gadget: event_callbacks "gadget_callback k (v4l2_source_ops k)"
    "\<lambda>t. good_gadget k t \<and> (b \<longrightarrow> sources_live t) \<and> app_reach k s t" for k s b
proof unfold_locales
  fix t u c
  assume i: "good_gadget k t \<and> (b \<longrightarrow> sources_live t) \<and> app_reach k s t" and u: "gadget_callback k (v4l2_source_ops k) c t = Ret u"
  then show "(good_gadget k u \<and> (b \<longrightarrow> sources_live u) \<and> app_reach k s u) \<and>
      (ev_done (app_events u) \<or> appends_events (app_events t) (app_events u))"
    using callback_returned_fine [of k t c u] reach_callback [of k s t c u] by simp
next
  fix t assume "good_gadget k t \<and> (b \<longrightarrow> sources_live t) \<and> app_reach k s t"
  then show "good_gadget k (t\<lparr>app_events := (app_events t)\<lparr>ev_done := False\<rparr>\<rparr>) \<and>
      (b \<longrightarrow> sources_live (t\<lparr>app_events := (app_events t)\<lparr>ev_done := False\<rparr>\<rparr>)) \<and>
      app_reach k s (t\<lparr>app_events := (app_events t)\<lparr>ev_done := False\<rparr>\<rparr>)"
    by (auto simp: sources_live_def intro: app_reach.intros)
qed (auto intro: app_reach.intros)

text \<open>The outcome of the loop, whether or not the sources of the watched events are known to be live.\<close>

lemma loop_outcome:
  assumes "good_gadget k s" "b \<Longrightarrow> sources_live s" "events_loop k (gadget_callback k (v4l2_source_ops k)) s = Some r"
  shows "case r of
      Fault \<Rightarrow> b \<longrightarrow> \<not> has_memory k \<or> (\<exists>t. app_reach k s t \<and> good_gadget k t \<and> stale t)
    | Ret (failed, t) \<Rightarrow> good_gadget k t \<and> (b \<longrightarrow> sources_live t) \<and> app_reach k s t \<and>
        (if failed then \<not> ev_done (app_events t) else ev_done (app_events t) \<or> mode_changed t)"
proof -
  have fine: "event_callbacks.loop_fine (gadget_callback k (v4l2_source_ops k))
      (\<lambda>t. good_gadget k t \<and> (b \<longrightarrow> sources_live t) \<and> app_reach k s t) r"
    by (rule gadget.loop_safe [OF assms(3)]) (simp add: assms(1,2) reach_here)
  have "\<not> has_memory k \<or> (\<exists>t. app_reach k s t \<and> good_gadget k t \<and> stale t)"
    if bad: "event_callbacks.callback_faults (gadget_callback k (v4l2_source_ops k))
      (\<lambda>t. good_gadget k t \<and> (b \<longrightarrow> sources_live t) \<and> app_reach k s t)" and b: b
  proof -
    obtain ev t where t: "good_gadget k t" "app_reach k s t" "sources_live t" "ev \<in> set (ev_list (app_events t))"
        "gadget_callback k (v4l2_source_ops k) (ev_callback ev) t = Fault"
      using bad b unfolding gadget.callback_faults_def by blast
    then have "callback_fine k t Fault"
      using gadget_callback_fine [OF t(1), of "ev_callback ev"] by (auto simp: sources_live_def)
    then show ?thesis using t(1,2) by (auto simp: callback_fine_def)
  qed
  then show ?thesis using fine unfolding gadget.loop_fine_def by (auto split: mem.splits)
qed

section \<open>Properties\<close>

definition ascending :: "function_config \<Rightarrow> bool" where
  "ascending c \<longleftrightarrow> list_all (\<lambda>f. list_all (\<lambda>fr. sorted (intervals fr)) (frames f)) (formats c)"

lemma ascending_at:
  assumes "wf_config c" "ascending c"
  shows "sorted (intervals (frames (formats c ! (selected_format c a - 1)) ! (selected_frame c a b - 1)))"
  using assms selected_format_bounds [OF assms(1), of a] selected_frame_bounds [OF assms(1), of a b]
    wf_format_at [OF assms(1), of "selected_format c a"]
  by (auto simp: ascending_def list_all_length wf_config_def wf_format_def)

lemma webcam_facts: "nonzero_intervals g_webcam_config" "ascending g_webcam_config"
  by (simp_all add: nonzero_intervals_def ascending_def g_webcam_config_def g_webcam_frames_def)

lemma ucast_index: "n < 256 \<Longrightarrow> unat (ucast (word_of_nat n :: u8) :: u32) = n"
  by (simp add: unsigned_ucast_eq word_u8_of_nat take_bit_nat_eq_self)

text \<open>A control that negotiation gave selects the same settings when it is asked for again.\<close>

lemma fill_again:
  assumes "wf_config c" "ascending c" "uvc_fill_streaming_control (Some c) m a b v = Ret ctl"
  shows "uvc_fill_streaming_control (Some c) m (ucast (bFormatIndex ctl)) (ucast (bFrameIndex ctl))
    (dwFrameInterval ctl) = Ret ctl"
proof -
  let ?i = "selected_format c a" and ?j = "selected_frame c a b"
  let ?f = "formats c ! (?i - 1)"
  let ?fr = "frames ?f ! (?j - 1)"
  let ?a = "ucast (bFormatIndex ctl) :: u32" and ?b = "ucast (bFrameIndex ctl) :: u32"
  have i: "0 < ?i" "?i \<le> num_formats c" using selected_format_bounds [OF assms(1)] by auto
  have f: "wf_format ?f" by (rule wf_format_at [OF assms(1) i])
  have j: "0 < ?j" "?j \<le> num_frames ?f" using selected_frame_bounds [OF assms(1)] by auto
  have fr: "wf_frame ?fr" by (rule wf_frame_at [OF f j])
  have ctl: "bFormatIndex ctl = word_of_nat ?i" "bFrameIndex ctl = word_of_nat ?j"
    "dwFrameInterval ctl = chosen v (intervals ?fr)"
    using assms(3) by (auto simp: fill_value [OF assms(1)])
  have u: "unat ?a = ?i" "unat ?b = ?j"
    using i j f assms(1) ucast_index [of ?i] ucast_index [of ?j] by (auto simp: ctl wf_config_def wf_format_def)
  have si: "selected_format c ?a = ?i" using i by (simp add: selected_format_def u clamp_id del: One_nat_def)
  have sj: "selected_frame c ?a ?b = ?j"
    using j by (simp add: selected_frame_def si u clamp_id del: One_nat_def)
  have "intervals ?fr \<noteq> []" using fr by (auto simp: wf_frame_def)
  then have again: "chosen (dwFrameInterval ctl) (intervals ?fr) = dwFrameInterval ctl"
    using chosen_again ascending_at [OF assms(1,2)] by (simp add: ctl)
  show ?thesis
    unfolding fill_value [OF assms(1)] si sj again unfolding ctl(3)
    by (rule assms(3) [unfolded fill_value [OF assms(1)]])
qed

definition sample_gadget :: gadget where
  "sample_gadget = \<lparr>app_events = events_init, app_world = [], mode_changed = False, stop_app = False,
     source = source sample_app, source_id = 0, sink = sink sample_app, fc = Some g_webcam_config,
     ud_probe = no_control, ud_commit = no_control, in_data = None, in_len = 0, out_data = None, out_len = 0,
     ud_control = 1, ud_fcc = 0, ud_width = 0, ud_height = 0, ud_maxsize = 0, server_resp_bytes_sent = 0,
     resp_len_sent = False, client_req_bytes_read = 0, blob_len_read = False\<rparr>"

lemma sample_gadget_good: "good_gadget k sample_gadget"
  using sample_app_wf g_webcam_wf webcam_facts
  by (simp add: good_gadget_def devices_wf_def configured_def buffers_fit_def sample_gadget_def)



text \<open>With intervals in ascending order, a host that reads back the probe control and commits the
  bytes it read gets exactly what the probe offered.\<close>

theorem commit_gets_what_probe_offered:
  assumes "configured s" "fc s = Some c" "ascending c" "ud_control s = 1"
    and "uvc_events_process_data k src data s = Ret t"
    and "uvc_events_process_streaming UVC_GET_CUR UVC_VS_PROBE_CONTROL resp t = Ret (reply, u)"
    and "uvc_events_process_data k (v4l2_source_ops k) reply (u\<lparr>ud_control := 2\<rparr>) = Ret z"
  shows "ud_commit z = ud_probe t"
proof -
  have c: "wf_config c" "ud_maxsize s = 0" using assms(1,2) by (auto simp: configured_def)
  have t: "uvc_fill_streaming_control (Some c) 0 (ucast (bFormatIndex (control_of (rs_data data))))
      (ucast (bFrameIndex (control_of (rs_data data)))) (dwFrameInterval (control_of (rs_data data))) = Ret (ud_probe t)"
    "fc t = Some c" "ud_maxsize t = 0"
    using assms(2,4,5) c(2) by (auto simp: uvc_events_process_data_def Let_def split: mem.splits)
  have u: "u = t" "control_of (rs_data reply) = ud_probe t"
    using assms(6) by (auto simp: uvc_events_process_streaming_def Let_def put_data_def control_of_bytes)
  have "commit_format k (v4l2_source_ops k) (ud_probe t) (t\<lparr>ud_control := 2, ud_commit := ud_probe t\<rparr>) = Ret z"
    using assms(7) fill_again [OF c(1) assms(3) t(1)]
    by (simp add: uvc_events_process_data_def Let_def u t(2,3))
  then show ?thesis
    using commit_format_keeps by fastforce
qed

text \<open>The bytes of a probe request for the first format and frame, at 25 frames a second.\<close>

definition probe_data :: uvc_request_data where
  "probe_data = put_data (control_bytes (no_control\<lparr>bFormatIndex := 1, bFrameIndex := 1, dwFrameInterval := 400000\<rparr>))
     empty_response"

lemma sample_probe:
  "\<exists>p. uvc_events_process_data k src probe_data sample_gadget = Ret (sample_gadget\<lparr>ud_probe := p\<rparr>)"
proof -
  obtain p where "uvc_fill_streaming_control (Some g_webcam_config) 0
      (ucast (bFormatIndex (control_of (rs_data probe_data)))) (ucast (bFrameIndex (control_of (rs_data probe_data))))
      (dwFrameInterval (control_of (rs_data probe_data))) = Ret p"
    using fill_value [OF g_webcam_wf] by blast
  then show ?thesis
    by (simp add: uvc_events_process_data_def Let_def sample_gadget_def)
qed

theorem commit_gets_what_probe_offered_witness:
  "\<exists>t r z. uvc_events_process_data ok_os (v4l2_source_ops ok_os) probe_data sample_gadget = Ret t \<and>
     uvc_events_process_data ok_os (v4l2_source_ops ok_os) r (t\<lparr>ud_control := 2\<rparr>) = Ret z \<and> ud_commit z = ud_probe t"
proof -
  let ?src = "v4l2_source_ops ok_os :: gadget video_source_ops"
  obtain p where t: "uvc_events_process_data ok_os ?src probe_data sample_gadget = Ret (sample_gadget\<lparr>ud_probe := p\<rparr>)"
    using sample_probe by blast
  let ?t = "sample_gadget\<lparr>ud_probe := p\<rparr>"
  let ?r = "put_data (control_bytes p) (empty_response\<lparr>rs_length := 34\<rparr>)"
  have r: "uvc_events_process_streaming UVC_GET_CUR UVC_VS_PROBE_CONTROL empty_response ?t = Ret (?r, ?t)"
    by (simp add: uvc_events_process_streaming_def)
  have l: "length (rs_data ?r) = 60" by (simp add: put_data_def empty_response_def)
  have g: "good_gadget ok_os (?t\<lparr>ud_control := 2\<rparr>)"
    using sample_gadget_good [of ok_os]
    by (simp add: good_gadget_def devices_wf_def configured_def)
  obtain z where z: "uvc_events_process_data ok_os ?src ?r (?t\<lparr>ud_control := 2\<rparr>) = Ret z"
    using data_outcome [OF g l] by (auto split: mem.splits)
  have s: "configured sample_gadget" "fc sample_gadget = Some g_webcam_config" "ud_control sample_gadget = 1"
    using sample_gadget_good by (simp_all add: good_gadget_def sample_gadget_def)
  show ?thesis
    using commit_gets_what_probe_offered [OF s(1,2) webcam_facts(2) s(3) t r z] t z by blast
qed

text \<open>The calls that setting a format makes: the output first, then, if that went well, the source
  with what the output made of it.\<close>

definition format_request :: "v4l2_device \<Rightarrow> v4l2_pix_format \<Rightarrow> sys" where
  "format_request d f = S_Fmt (dev_fd d) (dev_type d)
     (no_pix\<lparr>px_width := px_width f, px_height := px_height f, px_pixelformat := px_pixelformat f\<rparr>)"

lemma set_format_calls:
  fixes s :: "'m stream_app_scheme" and f :: v4l2_pix_format
  assumes "errno_positive k"
  defines "a \<equiv> k (app_world s) (format_request (sink s) f)"
  shows "app_world (snd (uvc_stream_set_format k (v4l2_source_ops k) f s)) =
    app_world s @ format_request (sink s) f # (if ret a < 0 then [] else [format_request (source s) (a_pix a)])"
proof -
  have p: "no_pix\<lparr>px_field := 0\<rparr> = no_pix" by (simp add: no_pix_def)
  have e: "ret (k w c) < 0 \<Longrightarrow> 0 < errno (k w c)" for w c using assms(1) by (simp add: errno_positive_def)
  have q: "no_pix\<lparr>px_width := x, px_height := y, px_pixelformat := z, px_field := 0\<rparr> =
      no_pix\<lparr>px_width := x, px_height := y, px_pixelformat := z\<rparr>" for x y z
    by (simp add: no_pix_def)
  show ?thesis
    using e [of "app_world s" "format_request (sink s) f"]
    by (auto simp: uvc_stream_set_format_def uvc_set_format_def v4l2_set_format_def sys_def Let_def q a_def
        format_request_def video_source_set_format_def v4l2_source_ops_def v4l2_source_set_format_def)
qed

lemma set_frame_rate_calls:
  "app_world (snd (uvc_stream_set_frame_rate (v4l2_source_ops k) fps s)) =
   app_world s @ [S_Parm (dev_fd (source s)) (dev_type (source s)) 1 fps]"
  by (simp add: uvc_stream_set_frame_rate_def video_source_set_frame_rate_def v4l2_source_ops_def
      v4l2_source_set_frame_rate_def v4l2_set_frame_rate_def sys_def Let_def)

lemma set_format_same_source:
  fixes s :: "'m stream_app_scheme" and k :: os and f :: v4l2_pix_format
  defines "t \<equiv> snd (uvc_stream_set_format k (v4l2_source_ops k) f s)"
  shows "dev_fd (source t) = dev_fd (source s) \<and> dev_type (source t) = dev_type (source s)"
  by (auto simp: t_def uvc_stream_set_format_def uvc_set_format_def v4l2_set_format_def sys_def Let_def
      video_source_set_format_def v4l2_source_ops_def v4l2_source_set_format_def)



text \<open>C2: the event loop of the application, entered in a state where devices, configuration and
  buffers are well-formed and no watched event calls back a replaced source, keeps them so whatever the kernel answers, and returns only because an
  error other than an interruption was met, it was stopped, or the mode was changed. It uses
  memory it does not own only if an allocation failed, or in a state it can get into in which more
  bytes of a server response have been sent than the response has.\<close>

theorem gadget_loop_safe:
  assumes "good_gadget k s" "sources_live s" "events_loop k (gadget_callback k (v4l2_source_ops k)) s = Some r"
  shows "case r of
      Fault \<Rightarrow> \<not> has_memory k \<or> (\<exists>t. app_reach k s t \<and> good_gadget k t \<and> stale t)
    | Ret (failed, t) \<Rightarrow> good_gadget k t \<and> sources_live t \<and> app_reach k s t \<and>
        (if failed then \<not> ev_done (app_events t) else ev_done (app_events t) \<or> mode_changed t)"
  using loop_outcome [of k s True, OF assms(1,2,3)] by (simp only: simp_thms)

definition no_select_os :: os where
  "no_select_os w c = (case c of Select n r wr e \<Rightarrow> ok_answer\<lparr>ret := -1, errno := 9\<rparr> | _ \<Rightarrow> ok_answer)"

theorem gadget_loop_safe_witness:
  "\<exists>t. events_loop no_select_os (gadget_callback no_select_os (v4l2_source_ops no_select_os)) sample_gadget =
       Some (Ret (True, t)) \<and> good_gadget no_select_os t"
proof -
  let ?loop = "events_loop no_select_os (gadget_callback no_select_os (v4l2_source_ops no_select_os)) sample_gadget"
  have "\<exists>t. ?loop = Some (Ret (True, t))"
    unfolding events_loop_def
    by (subst events_iterate.simps) (simp add: sys_def Let_def no_select_os_def ok_answer_def)
  then obtain t where l: "?loop = Some (Ret (True, t))" by blast
  have "sources_live sample_gadget" by (simp add: sources_live_def sample_gadget_def events_init_def)
  from gadget_loop_safe [OF sample_gadget_good this l] show ?thesis using l by simp
qed

end
