(* ===== verification/C_String.thy ===== *)
theory C_String
  imports Prelude
begin

text \<open>
  The functions of the C library on character strings that the sources use. A string is the
  list of its characters without the terminating NUL; the rest of a string from a pointer into it
  on is a suffix.
\<close>

section \<open>Definitions\<close>

abbreviation NUL :: char where "NUL \<equiv> CHR 0x00"
abbreviation newline :: char where "newline \<equiv> CHR 0x0A"

text \<open>The string in a buffer: what comes before the first NUL.\<close>

definition c_string :: "string \<Rightarrow> string" where
  "c_string buf = takeWhile (\<lambda>c. c \<noteq> NUL) buf"

text \<open>\<open>strrchr\<close> answers the position of the last occurrence.\<close>

fun strrchr :: "char \<Rightarrow> string \<Rightarrow> nat option" where
  "strrchr c [] = None"
| "strrchr c (x # xs) =
     (case strrchr c xs of Some i \<Rightarrow> Some (Suc i) | None \<Rightarrow> if x = c then Some 0 else None)"

fun strstr :: "string \<Rightarrow> string \<Rightarrow> bool" where
  "strstr [] needle = (needle = [])"
| "strstr (x # xs) needle = (take (length needle) (x # xs) = needle \<or> strstr xs needle)"

text \<open>The \<^verbatim>\<open>basename\<close> of the GNU library: what follows the last slash.\<close>

definition basename :: "string \<Rightarrow> string" where
  "basename s = (case strrchr (CHR ''/'') s of None \<Rightarrow> s | Some i \<Rightarrow> drop (Suc i) s)"

text \<open>The second of the tokens between blanks.\<close>

definition second_token :: "string \<Rightarrow> string option" where
  "second_token s =
     (let blank = (\<lambda>c. c = CHR '' ''); other = (\<lambda>c. c \<noteq> CHR '' '');
          t = dropWhile blank (dropWhile other (dropWhile blank s))
      in if t = [] then None else Some (takeWhile other t))"

text \<open>
  \<open>strtoul\<close>, with a 64-bit \<^verbatim>\<open>unsigned long\<close>: white space, a sign, in base 0 a prefix, digits. It
  answers the value, the rest of the string, and whether the value was out of range. Without a
  digit the rest is the whole string. A prefix \<^verbatim>\<open>0x\<close> that no digit follows is the number 0.
\<close>

definition is_space :: "char \<Rightarrow> bool" where
  "is_space c \<longleftrightarrow> c = CHR '' '' \<or> (9 \<le> (of_char c :: nat) \<and> (of_char c :: nat) \<le> 13)"

definition digit :: "char \<Rightarrow> nat" where
  "digit c =
     (let n = of_char c :: nat in
      if 48 \<le> n \<and> n \<le> 57 then n - 48
      else if 65 \<le> n \<and> n \<le> 90 then n - 55
      else if 97 \<le> n \<and> n \<le> 122 then n - 87
      else 36)"

definition sign_of :: "string \<Rightarrow> bool \<times> string" where
  "sign_of s =
     (case s of [] \<Rightarrow> (False, [])
      | c # r \<Rightarrow> if c = CHR ''-'' then (True, r) else if c = CHR ''+'' then (False, r) else (False, s))"

definition base_of :: "nat \<Rightarrow> string \<Rightarrow> nat \<times> string" where
  "base_of base s =
     (if base \<noteq> 0 then (base, s)
      else case s of
          c # x # d # r \<Rightarrow>
            if c = CHR ''0''
            then if (x = CHR ''x'' \<or> x = CHR ''X'') \<and> digit d < 16 then (16, d # r) else (8, s)
            else (10, s)
        | c # r \<Rightarrow> (if c = CHR ''0'' then 8 else 10, s)
        | [] \<Rightarrow> (10, []))"

definition number :: "nat \<Rightarrow> string \<Rightarrow> nat" where
  "number base ds = foldl (\<lambda>n c. base * n + digit c) 0 ds"

definition strtoul :: "nat \<Rightarrow> string \<Rightarrow> nat \<times> string \<times> bool" where
  "strtoul base s =
     (let (neg, t) = sign_of (dropWhile is_space s);
          (b, t) = base_of base t;
          ds = takeWhile (\<lambda>c. digit c < b) t; rest = dropWhile (\<lambda>c. digit c < b) t;
          n = number b ds
      in if ds = [] then (0, s, False)
         else if 2 ^ 64 \<le> n then (2 ^ 64 - 1, rest, True)
         else ((if neg then (2 ^ 64 - n) mod 2 ^ 64 else n), rest, False))"

text \<open>What \<^verbatim>\<open>printf\<close> makes of a number with \<^verbatim>\<open>%u\<close>.\<close>

fun decimal :: "nat \<Rightarrow> string" where
  "decimal n = (if n < 10 then [char_of (48 + n)] else decimal (n div 10) @ [char_of (48 + n mod 10)])"

declare decimal.simps [simp del]

section \<open>Searching\<close>

lemma strrchr_None: "strrchr c s = None \<longleftrightarrow> c \<notin> set s"
  by (induction s) (auto split: option.splits)

lemma strrchr_append: "strrchr c (s @ t) = (case strrchr c t of Some i \<Rightarrow> Some (length s + i) | None \<Rightarrow> strrchr c s)"
  by (induction s) (auto split: option.splits)

lemma strrchr_last: "c \<notin> set t \<Longrightarrow> strrchr c (s @ c # t) = Some (length s)"
  by (simp add: strrchr_append strrchr_None [THEN iffD2])

lemma strrchr_SomeD:
  assumes "strrchr c s = Some i"
  shows "i < length s" "s ! i = c" "c \<notin> set (drop (Suc i) s)"
  using assms by (induction s arbitrary: i) (auto split: option.splits if_splits simp: strrchr_None)

lemma c_string_append: "NUL \<notin> set s \<Longrightarrow> c_string (s @ t) = s @ c_string t"
  by (induction s) (auto simp: c_string_def)

lemma c_string_end: "c_string (s @ [NUL]) = c_string s"
  by (induction s) (auto simp: c_string_def)

lemma c_string_id: "NUL \<notin> set s \<Longrightarrow> c_string s = s"
  by (induction s) (auto simp: c_string_def)

lemma NUL_notin_c_string: "NUL \<notin> set (c_string s)"
  by (auto simp: c_string_def dest: set_takeWhileD)

section \<open>Numbers\<close>

lemma dropWhile_shorter: "length (dropWhile P s) \<le> length s"
  by (rule length_dropWhile_le)

lemma sign_of_shorter: "length (snd (sign_of s)) \<le> length s"
  by (auto simp: sign_of_def split: list.splits)

lemma base_of_shorter: "length (snd (base_of b s)) \<le> length s"
  by (auto simp: base_of_def split: list.splits)

lemma strtoul_shorter: "strtoul b s = (v, rest, e) \<Longrightarrow> length rest \<le> length s"
proof -
  assume r: "strtoul b s = (v, rest, e)"
  obtain neg t where n: "sign_of (dropWhile is_space s) = (neg, t)" by fastforce
  obtain c u where c: "base_of b t = (c, u)" by fastforce
  have "length (dropWhile (\<lambda>x. digit x < c) u) \<le> length s"
    using dropWhile_shorter [of "\<lambda>x. digit x < c" u] base_of_shorter [of b t] c sign_of_shorter [of "dropWhile is_space s"]
      n dropWhile_shorter [of is_space s] by simp
  then show ?thesis using r by (auto simp: strtoul_def n c Let_def split: if_splits)
qed

lemma of_digit_char: "n < 10 \<Longrightarrow> of_char (char_of (48 + n) :: char) = (48 + n :: nat)"
  by (simp add: of_char_of)

lemma digit_char [simp]: "n < 10 \<Longrightarrow> digit (char_of (48 + n)) = n"
  by (simp add: digit_def of_digit_char Let_def)

lemma decimal_digits: "c \<in> set (decimal n) \<Longrightarrow> 48 \<le> (of_char c :: nat) \<and> (of_char c :: nat) \<le> 57"
proof (induction n rule: decimal.induct)
  case (1 n)
  show ?case
  proof (cases "n < 10")
    case True then show ?thesis using 1 by (simp add: decimal.simps [of n] of_digit_char)
  next
    case False
    then have "c \<in> set (decimal (n div 10)) \<or> c = char_of (48 + n mod 10)"
      using 1(2) by (subst (asm) decimal.simps [of n]) auto
    then show ?thesis using 1(1) [OF False] of_digit_char [of "n mod 10"] by auto
  qed
qed

lemma decimal_not_empty [simp]: "decimal n \<noteq> []"
  by (subst decimal.simps) simp

lemma number_snoc: "number b (ds @ [c]) = b * number b ds + digit c"
  by (simp add: number_def)

lemma number_decimal [simp]: "number 10 (decimal n) = n"
proof (induction n rule: decimal.induct)
  case (1 n)
  show ?case
  proof (cases "n < 10")
    case True then show ?thesis by (simp add: decimal.simps [of n] number_def)
  next
    case False
    then have "number 10 (decimal n) = 10 * number 10 (decimal (n div 10)) + digit (char_of (48 + n mod 10))"
      by (subst decimal.simps) (simp add: number_snoc)
    then show ?thesis using 1 [OF False] by simp
  qed
qed

lemma decimal_char:
  assumes "48 \<le> (of_char c :: nat)" "(of_char c :: nat) \<le> 57"
  shows "digit c < 10" "\<not> is_space c" "c \<noteq> CHR ''-''" "c \<noteq> CHR ''+''" "c \<noteq> NUL" "c \<noteq> newline"
  using assms by (auto simp: digit_def is_space_def)

lemma decimal_chars:
  assumes "c \<in> set (decimal n)"
  shows "digit c < 10" "\<not> is_space c" "c \<noteq> CHR ''-''" "c \<noteq> CHR ''+''" "c \<noteq> NUL" "c \<noteq> newline"
  using decimal_char [of c] decimal_digits [OF assms] by auto

lemma decimal_length: "n < 10 ^ Suc k \<Longrightarrow> length (decimal n) \<le> Suc k"
proof (induction k arbitrary: n)
  case 0 then show ?case by (simp add: decimal.simps)
next
  case (Suc k)
  show ?case
  proof (cases "n < 10")
    case False
    have "n div 10 < 10 ^ Suc k" using Suc.prems by (simp add: less_mult_imp_div_less)
    from Suc.IH [OF this] False show ?thesis by (subst decimal.simps) simp
  qed (simp add: decimal.simps)
qed

lemma decimal_head: "0 < n \<Longrightarrow> hd (decimal n) \<noteq> CHR ''0''"
proof (induction n rule: decimal.induct)
  case (1 n)
  show ?case
  proof (cases "n < 10")
    case True
    then have "(of_char (char_of (48 + n) :: char) :: nat) \<noteq> of_char (CHR ''0'')" using 1 by (simp add: of_digit_char)
    then show ?thesis using True by (metis decimal.simps list.sel(1))
  next
    case False then show ?thesis using 1 by (subst decimal.simps) simp
  qed
qed

text \<open>A printed number is read back, in base 10 and where the base is to be found out.\<close>

lemma decimal_0: "decimal 0 = ''0''"
proof -
  have "(char_of (48 :: nat) :: char) = CHR ''0''" by (simp add: char_of_def bit_iff_odd)
  then show ?thesis by (subst decimal.simps) simp
qed

lemma base_of_decimal:
  assumes "rest = [] \<or> hd rest = newline" "base = 10 \<or> base = 0"
  shows "\<exists>b. base_of base (decimal n @ rest) = (b, decimal n @ rest) \<and> (b = 10 \<or> n = 0 \<and> b = 8)"
proof (cases "n = 0")
  case True
  then show ?thesis using assms by (cases rest) (auto simp: base_of_def decimal_0 split: list.splits)
next
  case False
  obtain c r where d: "decimal n = c # r" by (cases "decimal n") auto
  have "c \<noteq> CHR ''0''" using decimal_head [of n] False d by simp
  then show ?thesis using assms(2) by (auto simp: base_of_def d split: list.splits)
qed

lemma strtoul_decimal:
  assumes "rest = [] \<or> hd rest = newline" "base = 10 \<or> base = 0" "n < 2 ^ 64"
  shows "strtoul base (decimal n @ rest) = (n, rest, False)"
proof -
  obtain c r where d: "decimal n = c # r" by (cases "decimal n") auto
  have c: "c \<in> set (decimal n)" by (simp add: d)
  have "dropWhile is_space (decimal n @ rest) = decimal n @ rest"
    using decimal_chars(2) [OF c] by (simp add: d)
  moreover have "sign_of (decimal n @ rest) = (False, decimal n @ rest)"
    using decimal_chars(3,4) [OF c] by (simp add: d sign_of_def)
  ultimately have s: "sign_of (dropWhile is_space (decimal n @ rest)) = (False, decimal n @ rest)" by simp
  obtain b where b: "base_of base (decimal n @ rest) = (b, decimal n @ rest)" "b = 10 \<or> n = 0 \<and> b = 8"
    using base_of_decimal [OF assms(1,2)] by blast
  have nl: "\<not> digit newline < b" using b(2) by (auto simp: digit_def)
  have small: "digit x < b" if "x \<in> set (decimal n)" for x
  proof (cases "b = 10")
    case True then show ?thesis using decimal_chars(1) [OF that] by simp
  next
    case False then show ?thesis using b(2) that by (auto simp: decimal_0 digit_def)
  qed
  have t: "takeWhile (\<lambda>x. digit x < b) (decimal n @ rest) = decimal n \<and> dropWhile (\<lambda>x. digit x < b) (decimal n @ rest) = rest"
    using small nl assms(1) by (cases rest) (auto simp: takeWhile_append2 dropWhile_append2)
  have "number b (decimal n) = n"
  proof (cases "b = 10")
    case False then show ?thesis using b(2) by (auto simp: decimal_0 number_def digit_def)
  qed simp
  then show ?thesis using t assms(3) by (simp add: strtoul_def s b(1) Let_def)
qed

end
