(* ===== verification/Configfs_Read.thy ===== *)
theory Configfs_Read
  imports Configfs C_String "HOL-Library.List_Lexorder"
begin

text \<open>
  How the UVC application reads the configuration of its function from ConfigFS,
  \<^verbatim>\<open>apps/uvc-app/lib/configfs.c\<close>: paths, attributes, the search for the function and its video
  device, the parser of the streaming interface, and the release of a configuration.

  Every call to the C library or the kernel that may fail or whose answer comes from outside is
  answered by the environment from the calls before it, an allocation included, and so are the
  bytes that a local buffer happens to hold. A null array is the empty list beside its count.
\<close>

section \<open>Calls\<close>

text \<open>The memory of a configuration, as it is freed.\<close>

datatype block = Udc | Video | Intervals nat nat | Frames nat | Formats | Config

datatype fs_call =
    Alloc
  | Open_File string
  | Read_File int nat
  | Close_File int
  | Local nat
  | Read_Link string nat
  | Scan_Dir string
  | Glob string
  | Access string
  | Read_Mounts
  | Free block

datatype d_type = DT_DIR | DT_LNK | DT_OTHER

type_synonym dirent = "string \<times> d_type"

record fs_answer =
  fa_ret :: int
  fa_errno :: int
  fa_text :: string
  fa_entries :: "dirent list"
  fa_paths :: "string list"

type_synonym fs = "(fs_call, fs_answer) env"
type_synonym calls = "fs_call list"

definition ask :: "fs \<Rightarrow> fs_call \<Rightarrow> calls \<Rightarrow> fs_answer \<times> calls" where
  "ask k c w = (k w c, w @ [c])"

text \<open>An allocation: whether there was memory.\<close>

definition alloc :: "fs \<Rightarrow> calls \<Rightarrow> bool \<times> calls" where
  "alloc k w = (let (a, w) = ask k Alloc w in (0 \<le> fa_ret a, w))"

definition strdup :: "fs \<Rightarrow> string \<Rightarrow> calls \<Rightarrow> string option \<times> calls" where
  "strdup k s w = (let (m, w) = alloc k w in (if m then Some s else None, w))"

section \<open>Paths\<close>

definition path_join :: "fs \<Rightarrow> string \<Rightarrow> string \<Rightarrow> calls \<Rightarrow> string option \<times> calls" where
  "path_join k dirname name w = strdup k (dirname @ ''/'' @ name) w"

definition path_glob_first_match :: "fs \<Rightarrow> string \<Rightarrow> calls \<Rightarrow> string option \<times> calls" where
  "path_glob_first_match k g w =
     (let (a, w) = ask k (Glob g) w in
      case fa_paths a of [] \<Rightarrow> (None, w) | p # _ \<Rightarrow> strdup k p w)"

text \<open>
  \<^verbatim>\<open>scandir\<close> with \<^verbatim>\<open>alphasort\<close>: the entries that the filter accepts, asked in the order of the
  directory, sorted by name; the application keeps the C locale, in which names are compared byte
  by byte.
\<close>

fun filter_entries :: "(dirent \<Rightarrow> calls \<Rightarrow> bool \<times> calls) \<Rightarrow> dirent list \<Rightarrow> calls \<Rightarrow> dirent list \<times> calls" where
  "filter_entries f [] w = ([], w)"
| "filter_entries f (e # es) w =
     (let (b, w) = f e w; (es, w) = filter_entries f es w in (if b then e # es else es, w))"

definition name_key :: "dirent \<Rightarrow> nat list" where
  "name_key e = map of_char (fst e)"

definition scandir :: "fs \<Rightarrow> string \<Rightarrow> (dirent \<Rightarrow> calls \<Rightarrow> bool \<times> calls) \<Rightarrow> calls \<Rightarrow> (int + dirent list) \<times> calls" where
  "scandir k dir f w =
     (let (a, w) = ask k (Scan_Dir dir) w in
      if fa_ret a < 0 then (Inl (fa_errno a), w)
      else let (es, w) = filter_entries f (fa_entries a) w in (Inr (sort_key name_key es), w))"

definition dir_first_match ::
  "fs \<Rightarrow> string \<Rightarrow> (dirent \<Rightarrow> calls \<Rightarrow> bool \<times> calls) \<Rightarrow> calls \<Rightarrow> string option \<times> calls" where
  "dir_first_match k dir f w =
     (case scandir k dir f w of
        (Inl e, w) \<Rightarrow> (None, w)
      | (Inr [], w) \<Rightarrow> (None, w)
      | (Inr (e # es), w) \<Rightarrow> path_join k dir (fst e) w)"

section \<open>Attributes\<close>

text \<open>
  Reading an attribute into a buffer answers the length asked for, however much was read; what
  was not written stays as it was.
\<close>

definition attribute_read :: "fs \<Rightarrow> string \<Rightarrow> string \<Rightarrow> string \<Rightarrow> nat \<Rightarrow> calls \<Rightarrow> (int \<times> string) \<times> calls" where
  "attribute_read k path attr buf len w =
     (case path_join k path attr w of
        (None, w) \<Rightarrow> ((- ENOMEM, buf), w)
      | (Some f, w) \<Rightarrow>
          (let (a, w) = ask k (Open_File f) w; fd = fa_ret a in
           if fd = -1 then ((- ENOENT, buf), w)
           else let (r, w) = ask k (Read_File fd len) w; (_, w) = ask k (Close_File fd) w in
             if fa_ret r < 0 then ((- ENODATA, buf), w)
             else let got = take len (fa_text r) in ((int len, got @ drop (length got) buf), w)))"

text \<open>A local buffer of a given size, with whatever it holds.\<close>

definition local_buffer :: "fs \<Rightarrow> nat \<Rightarrow> calls \<Rightarrow> string \<times> calls" where
  "local_buffer k n w = (let (a, w) = ask k (Local n) w in (take n (fa_text a @ replicate n NUL), w))"

definition attribute_read_uint :: "fs \<Rightarrow> string \<Rightarrow> string \<Rightarrow> u32 \<Rightarrow> calls \<Rightarrow> (int \<times> u32) \<times> calls" where
  "attribute_read_uint k path attr val w =
     (let (buf, w) = local_buffer k 11 w; ((r, buf), w) = attribute_read k path attr buf 10 w in
      if r < 0 then ((r, val), w)
      else let buf = c_string (buf[nat r := NUL]); (v, rest, range) = strtoul 0 buf in
        if range then ((- 34, word_of_nat v), w)
        else if rest = buf then ((- ENODATA, word_of_nat v), w)
        else ((0, word_of_nat v), w))"

text \<open>Without a newline in the buffer, the code writes through a null pointer.\<close>

definition attribute_read_str :: "fs \<Rightarrow> string \<Rightarrow> string \<Rightarrow> calls \<Rightarrow> (string option \<times> calls) mem" where
  "attribute_read_str k path attr w =
     (let (buf, w) = local_buffer k 1024 w; ((r, buf), w) = attribute_read k path attr buf 1023 w in
      if r < 0 then Ret (None, w)
      else let buf = c_string (buf[nat r := NUL]) in
        case strrchr newline buf of
          None \<Rightarrow> Fault
        | Some 0 \<Rightarrow> Ret (strdup k buf w)
        | Some p \<Rightarrow> Ret (strdup k (take p buf) w))"

section \<open>The video device\<close>

text \<open>The first of the paths whose function has the name; the first of all when there is no name.\<close>

fun match_function :: "fs \<Rightarrow> string option \<Rightarrow> string list \<Rightarrow> calls \<Rightarrow> (string option \<times> calls) mem" where
  "match_function k function [] w = Ret (None, w)"
| "match_function k function (p # ps) w =
     (case function of
        None \<Rightarrow> Ret (Some p, w)
      | Some name \<Rightarrow>
          (case attribute_read_str k p ''function_name'' w of
             Fault \<Rightarrow> Fault
           | Ret (None, w) \<Rightarrow> Fault
           | Ret (Some config, w) \<Rightarrow> if name = config then Ret (Some p, w) else match_function k function ps w))"

definition udc_find_video_device :: "fs \<Rightarrow> string option \<Rightarrow> string option \<Rightarrow> calls \<Rightarrow> (string option \<times> calls) mem" where
  "udc_find_video_device k udc function w =
     (let (m, w) = alloc k w in
      if \<not> m then Fault
      else let (a, w) = ask k (Glob (''/sys/class/udc/'' @ (case udc of None \<Rightarrow> ''*'' | Some u \<Rightarrow> u) @
             ''/device/gadget/video4linux/video*'')) w
        in case match_function k function (fa_paths a) w of
             Fault \<Rightarrow> Fault
           | Ret (None, w) \<Rightarrow> Ret (None, w)
           | Ret (Some p, w) \<Rightarrow> Ret (path_join k ''/dev'' (basename p) w))"

section \<open>Legacy configuration\<close>

text \<open>A duplicate of an array; the empty list when there was no memory.\<close>

definition memdup :: "fs \<Rightarrow> 'a list \<Rightarrow> calls \<Rightarrow> 'a list \<times> calls" where
  "memdup k xs w = (let (m, w) = alloc k w in (if m then xs else [], w))"

fun dup_intervals :: "fs \<Rightarrow> function_config_frame list \<Rightarrow> calls \<Rightarrow> function_config_frame list \<times> calls" where
  "dup_intervals k [] w = ([], w)"
| "dup_intervals k (f # fs) w =
     (let (v, w) = memdup k (intervals f) w; (fs, w) = dup_intervals k fs w in (f\<lparr>intervals := v\<rparr> # fs, w))"

fun dup_frames :: "fs \<Rightarrow> function_config_format list \<Rightarrow> calls \<Rightarrow> (function_config_format list \<times> calls) mem" where
  "dup_frames k [] w = Ret ([], w)"
| "dup_frames k (f # fs) w =
     (let (v, w) = memdup k (frames f) w in
      if length v < num_frames f then Fault
      else let (v, w) = dup_intervals k v w in
        case dup_frames k fs w of Fault \<Rightarrow> Fault | Ret (fs, w) \<Rightarrow> Ret (f\<lparr>frames := v\<rparr> # fs, w))"

definition parse_legacy_g_webcam :: "fs \<Rightarrow> string option \<Rightarrow> calls \<Rightarrow> (int \<times> function_config \<times> calls) mem" where
  "parse_legacy_g_webcam k udc w =
     (let c = g_webcam_config; (fos, w) = memdup k (formats c) w in
      if length fos < num_formats c then Fault
      else case dup_frames k fos w of
          Fault \<Rightarrow> Fault
        | Ret (fos, w) \<Rightarrow>
            (case udc_find_video_device k udc None w of
               Fault \<Rightarrow> Fault
             | Ret (v, w) \<Rightarrow>
                 Ret (if v = None then - ENODEV else 0, c\<lparr>formats := fos, fn_video := v\<rparr>, w)))"

section \<open>The function in ConfigFS\<close>

text \<open>\<^verbatim>\<open>/proc/mounts\<close> is answered line by line.\<close>

definition configfs_mount_point :: "fs \<Rightarrow> calls \<Rightarrow> string option \<times> calls" where
  "configfs_mount_point k w =
     (let (a, w) = ask k Read_Mounts w in
      if fa_ret a < 0 then (None, w)
      else case find (\<lambda>l. strstr l ''configfs'') (fa_paths a) of
          None \<Rightarrow> (None, w)
        | Some l \<Rightarrow> (case second_token l of None \<Rightarrow> (None, w) | Some t \<Rightarrow> strdup k t w))"

definition configfs_find_uvc_function :: "fs \<Rightarrow> string option \<Rightarrow> calls \<Rightarrow> (string option \<times> calls) mem" where
  "configfs_find_uvc_function k function w =
     (let target = (case function of None \<Rightarrow> ''*'' | Some f \<Rightarrow> f);
          (mount, w) = configfs_mount_point k w;
          root = (case mount of None \<Rightarrow> ''/sys/kernel/config'' | Some m \<Rightarrow> m);
          (m, w) = alloc k w
      in if \<not> m then Fault
         else Ret (path_glob_first_match k
           (if strrchr (CHR ''/'') target = None then root @ ''/usb_gadget/*/functions/'' @ target
            else root @ ''/usb_gadget/'' @ target) w))"

section \<open>Release\<close>

fun free_frames :: "fs \<Rightarrow> nat \<Rightarrow> nat \<Rightarrow> nat \<Rightarrow> function_config_frame list \<Rightarrow> calls \<Rightarrow> calls mem" where
  "free_frames k i j 0 fs w = Ret w"
| "free_frames k i j (Suc n) fs w =
     (if j < length fs then free_frames k i (Suc j) n fs (w @ [Free (Intervals i j)]) else Fault)"

fun free_formats :: "fs \<Rightarrow> nat \<Rightarrow> nat \<Rightarrow> function_config_format list \<Rightarrow> calls \<Rightarrow> calls mem" where
  "free_formats k i 0 fs w = Ret w"
| "free_formats k i (Suc n) fs w =
     (if i < length fs
      then case free_frames k i 0 (num_frames (fs ! i)) (frames (fs ! i)) w of
          Fault \<Rightarrow> Fault
        | Ret w \<Rightarrow> free_formats k (Suc i) n fs (w @ [Free (Frames i)])
      else Fault)"

definition configfs_free_uvc_function :: "fs \<Rightarrow> function_config \<Rightarrow> calls \<Rightarrow> calls mem" where
  "configfs_free_uvc_function k c w =
     (case free_formats k 0 (num_formats c) (formats c) (w @ [Free Udc, Free Video]) of
        Fault \<Rightarrow> Fault
      | Ret w \<Rightarrow> Ret (w @ [Free Formats, Free Config]))"

end
