(* ===== verification/Configfs_Parse.thy ===== *)
theory Configfs_Parse
  imports Configfs_Read
begin

text \<open>
  The parser of a UVC function in ConfigFS, the second half of \<^verbatim>\<open>apps/uvc-app/lib/configfs.c\<close>:
  intervals, frames, formats, the streaming interface and the function.
\<close>

section \<open>Intervals and frames\<close>

text \<open>One turn of the loop per number: the array grows by one, and reading goes on after the newline.\<close>

function parse_intervals ::
  "fs \<Rightarrow> string \<Rightarrow> function_config_frame \<Rightarrow> calls \<Rightarrow> (int \<times> function_config_frame) \<times> calls" where
  "parse_intervals k p frame w =
     (if p = [] then ((0, frame), w)
      else let (v, rest, range) = strtoul 10 p in
        if rest \<noteq> [] \<and> hd rest \<noteq> newline then ((- EINVAL, frame), w)
        else let (m, w) = alloc k w in
          if \<not> m then ((- ENOMEM, frame), w)
          else parse_intervals k (tl rest)
            (frame\<lparr>intervals := intervals frame @ [word_of_nat v], num_intervals := num_intervals frame + 1\<rparr>) w)"
  by pat_completeness auto

termination
proof (relation "measure (\<lambda>(k, p, frame, w). length p)", goal_cases)
  case (2 k p frame w x v y rest range x' m w')
  have "length rest \<le> length p" using 2 strtoul_shorter [of 10 p v rest range] by simp
  then show ?case using 2(1) by (cases rest) auto
qed simp

declare parse_intervals.simps [simp del]

text \<open>An attribute that is read only when nothing failed before.\<close>

definition read_unless :: "int \<Rightarrow> fs \<Rightarrow> string \<Rightarrow> string \<Rightarrow> u32 \<Rightarrow> calls \<Rightarrow> (int \<times> u32) \<times> calls" where
  "read_unless r k path attr val w = (if r \<noteq> 0 then ((r, val), w) else attribute_read_uint k path attr val w)"

definition configfs_parse_streaming_frame ::
  "fs \<Rightarrow> string \<Rightarrow> function_config_frame \<Rightarrow> calls \<Rightarrow> (int \<times> function_config_frame \<times> calls) mem" where
  "configfs_parse_streaming_frame k path frame w =
     (let ((r, v), w) = read_unless 0 k path ''bFrameIndex'' (cf_index frame) w; frame = frame\<lparr>cf_index := v\<rparr>;
          ((r, v), w) = read_unless r k path ''wWidth'' (cf_width frame) w; frame = frame\<lparr>cf_width := v\<rparr>;
          ((r, v), w) = read_unless r k path ''wHeight'' (cf_height frame) w; frame = frame\<lparr>cf_height := v\<rparr>
      in if r \<noteq> 0 then Ret (r, frame, w)
         else case attribute_read_str k path ''dwFrameInterval'' w of
             Fault \<Rightarrow> Fault
           | Ret (None, w) \<Rightarrow> Ret (- EINVAL, frame, w)
           | Ret (Some text, w) \<Rightarrow>
               (case parse_intervals k text frame w of ((r, frame), w) \<Rightarrow> Ret (r, frame, w)))"

definition frame_filter :: "dirent \<Rightarrow> calls \<Rightarrow> bool \<times> calls" where
  "frame_filter ent w =
     (if snd ent \<noteq> DT_DIR then (False, w)
      else if fst ent = ''.'' then (False, w)
      else if fst ent = ''..'' then (False, w)
      else (True, w))"

section \<open>Formats\<close>

text \<open>The frames of the entries from number \<open>i\<close> on; the first error ends the loop.\<close>

fun parse_frames ::
  "fs \<Rightarrow> string \<Rightarrow> dirent list \<Rightarrow> nat \<Rightarrow> int \<Rightarrow> function_config_format \<Rightarrow> calls \<Rightarrow>
   (int \<times> bool \<times> function_config_format \<times> calls) mem" where
  "parse_frames k path [] i r format w = Ret (r, True, format, w)"
| "parse_frames k path (e # es) i r format w =
     (case path_join k path (fst e) w of
        (None, w) \<Rightarrow> Ret (- ENOMEM, False, format, w)
      | (Some p, w) \<Rightarrow>
          if length (frames format) \<le> i then Fault
          else case configfs_parse_streaming_frame k p (frames format ! i) w of
              Fault \<Rightarrow> Fault
            | Ret (r, f, w) \<Rightarrow>
                (let format = format\<lparr>frames := (frames format)[i := f]\<rparr> in
                 if r < 0 then Ret (r, False, format, w) else parse_frames k path es (i + 1) r format w))"

definition zero_frame :: function_config_frame where
  "zero_frame = \<lparr>cf_index = 0, cf_width = 0, cf_height = 0, num_intervals = 0, intervals = []\<rparr>"

text \<open>The component before the last of a link target: the type of the format.\<close>

definition link_segment :: "string \<Rightarrow> string option" where
  "link_segment target =
     (case strrchr (CHR ''/'') target of
        None \<Rightarrow> None
      | Some i \<Rightarrow>
          (case strrchr (CHR ''/'') (take i target) of None \<Rightarrow> None | Some j \<Rightarrow> Some (drop (Suc j) (take i target))))"

text \<open>The type decides where the GUID comes from.\<close>

definition format_guid :: "fs \<Rightarrow> string \<Rightarrow> string option \<Rightarrow> function_config_format \<Rightarrow> calls \<Rightarrow> (int \<times> function_config_format) \<times> calls" where
  "format_guid k path segment format w =
     (case segment of
        None \<Rightarrow> ((- EINVAL, format), w)
      | Some seg \<Rightarrow>
          if seg = ''mjpeg'' then ((0, format\<lparr>fo_guid := UVC_GUID_FORMAT_MJPEG\<rparr>), w)
          else if seg = ''uncompressed''
          then (case attribute_read k path ''guidFormat'' (map (\<lambda>b. char_of (unat b)) (fo_guid format)) 16 w of
              ((r, g), w) \<Rightarrow> ((r, format\<lparr>fo_guid := map (\<lambda>c. word_of_nat (of_char c)) g\<rparr>), w))
          else ((- EINVAL, format), w))"

definition format_fcc :: "function_config_format \<Rightarrow> function_config_format" where
  "format_fcc format =
     (case find (\<lambda>(guid, fcc). guid = fo_guid format) uvc_formats of
        None \<Rightarrow> format | Some (guid, fcc) \<Rightarrow> format\<lparr>fo_fcc := fcc\<rparr>)"

text \<open>\<^verbatim>\<open>qsort\<close> leaves elements that compare equal in an order of its own; here they keep theirs.\<close>

definition format_frames :: "fs \<Rightarrow> string \<Rightarrow> function_config_format \<Rightarrow> calls \<Rightarrow> (int \<times> function_config_format \<times> calls) mem" where
  "format_frames k path format w =
     (case scandir k path frame_filter w of
        (Inl e, w) \<Rightarrow> Ret (- e, format, w)
      | (Inr entries, w) \<Rightarrow>
          if entries = [] then Ret (- EINVAL, format, w)
          else let (m, w) = alloc k w; format = format\<lparr>num_frames := length entries, frames := []\<rparr> in
            if \<not> m then Ret (- ENOMEM, format, w)
            else case parse_frames k path entries 0 0 (format\<lparr>frames := replicate (length entries) zero_frame\<rparr>) w of
                Fault \<Rightarrow> Fault
              | Ret (r, completed, format, w) \<Rightarrow>
                  Ret (r, if completed then format\<lparr>frames := sort_key cf_index (frames format)\<rparr> else format, w))"

definition configfs_parse_streaming_format ::
  "fs \<Rightarrow> string \<Rightarrow> function_config_format \<Rightarrow> calls \<Rightarrow> (int \<times> function_config_format \<times> calls) mem" where
  "configfs_parse_streaming_format k path format w =
     (let ((r, v), w) = attribute_read_uint k path ''bFormatIndex'' (fo_index format) w; format = format\<lparr>fo_index := v\<rparr> in
      if r < 0 then Ret (r, format, w)
      else let (a, w) = ask k (Read_Link path 1023) w in
        if fa_ret a < 0 then Ret (-1, format, w)
        else let ((r, format), w) = format_guid k path (link_segment (c_string (take 1023 (fa_text a)))) format w in
          if r < 0 then Ret (r, format, w) else format_frames k path (format_fcc format) w)"

text \<open>
  A link is accepted when \<^verbatim>\<open>access\<close> does not answer 0. The path it is given is relative to the
  directory the application runs in.
\<close>

definition format_filter :: "fs \<Rightarrow> dirent \<Rightarrow> calls \<Rightarrow> bool \<times> calls" where
  "format_filter k ent w =
     (if snd ent \<noteq> DT_LNK then (False, w)
      else case path_join k (fst ent) ''bFormatIndex'' w of
          (None, w) \<Rightarrow> (False, w)
        | (Some p, w) \<Rightarrow> (let (a, w) = ask k (Access p) w in (fa_ret a \<noteq> 0, w)))"

section \<open>The streaming interface\<close>

fun parse_formats ::
  "fs \<Rightarrow> string \<Rightarrow> dirent list \<Rightarrow> nat \<Rightarrow> int \<Rightarrow> function_config \<Rightarrow> calls \<Rightarrow> (int \<times> bool \<times> function_config \<times> calls) mem" where
  "parse_formats k path [] i r c w = Ret (r, True, c, w)"
| "parse_formats k path (e # es) i r c w =
     (case path_join k path (fst e) w of
        (None, w) \<Rightarrow> Ret (- ENOMEM, False, c, w)
      | (Some p, w) \<Rightarrow>
          if length (formats c) \<le> i then Fault
          else case configfs_parse_streaming_format k p (formats c ! i) w of
              Fault \<Rightarrow> Fault
            | Ret (r, f, w) \<Rightarrow>
                (let c = c\<lparr>formats := (formats c)[i := f]\<rparr> in
                 if r < 0 then Ret (r, False, c, w) else parse_formats k path es (i + 1) r c w))"

definition zero_format :: function_config_format where
  "zero_format = \<lparr>fo_index = 0, fo_guid = replicate 16 0, fo_fcc = 0, num_frames = 0, frames = []\<rparr>"

definition configfs_parse_streaming_header ::
  "fs \<Rightarrow> string \<Rightarrow> function_config \<Rightarrow> calls \<Rightarrow> (int \<times> function_config \<times> calls) mem" where
  "configfs_parse_streaming_header k path c w =
     (case scandir k path (format_filter k) w of
        (Inl e, w) \<Rightarrow> Ret (- e, c, w)
      | (Inr entries, w) \<Rightarrow>
          if entries = [] then Ret (- EINVAL, c, w)
          else let (m, w) = alloc k w; c = c\<lparr>num_formats := length entries, formats := []\<rparr> in
            if \<not> m then Ret (- ENOMEM, c, w)
            else case parse_formats k path entries 0 0 (c\<lparr>formats := replicate (length entries) zero_format\<rparr>) w of
                Fault \<Rightarrow> Fault
              | Ret (r, completed, c, w) \<Rightarrow>
                  Ret (r, if completed then c\<lparr>formats := sort_key fo_index (formats c)\<rparr> else c, w))"

definition link_filter :: "dirent \<Rightarrow> calls \<Rightarrow> bool \<times> calls" where
  "link_filter ent w = (snd ent = DT_LNK, w)"

definition configfs_parse_interface :: "fs \<Rightarrow> string \<Rightarrow> u32 \<Rightarrow> calls \<Rightarrow> (int \<times> u32) \<times> calls" where
  "configfs_parse_interface k path v w = attribute_read_uint k path ''bInterfaceNumber'' v w"

definition configfs_parse_control ::
  "fs \<Rightarrow> string \<Rightarrow> function_config \<Rightarrow> calls \<Rightarrow> (int \<times> function_config \<times> calls) mem" where
  "configfs_parse_control k path c w =
     (case configfs_parse_interface k path (control_interface c) w of
        ((r, v), w) \<Rightarrow> Ret (r, c\<lparr>control_interface := v\<rparr>, w))"

definition configfs_parse_streaming ::
  "fs \<Rightarrow> string \<Rightarrow> function_config \<Rightarrow> calls \<Rightarrow> (int \<times> function_config \<times> calls) mem" where
  "configfs_parse_streaming k path c w =
     (let ((r, v), w) = configfs_parse_interface k path (streaming_interface c) w; c = c\<lparr>streaming_interface := v\<rparr> in
      if r < 0 then Ret (r, c, w)
      else case path_join k path ''class/hs'' w of
          (None, w) \<Rightarrow> Ret (- ENOMEM, c, w)
        | (Some class_path, w) \<Rightarrow>
            (case dir_first_match k class_path link_filter w of
               (None, w) \<Rightarrow> Ret (- EINVAL, c, w)
             | (Some header, w) \<Rightarrow> configfs_parse_streaming_header k header c w))"

section \<open>The function\<close>

definition configfs_parse_child ::
  "fs \<Rightarrow> string \<Rightarrow> string \<Rightarrow> function_config \<Rightarrow>
   (string \<Rightarrow> function_config \<Rightarrow> calls \<Rightarrow> (int \<times> function_config \<times> calls) mem) \<Rightarrow> calls \<Rightarrow> (int \<times> function_config \<times> calls) mem" where
  "configfs_parse_child k parent child c parse w =
     (case path_join k parent child w of
        (None, w) \<Rightarrow> Ret (- ENOMEM, c, w)
      | (Some p, w) \<Rightarrow> parse p c w)"

text \<open>The parameters of the endpoint, one after the other until one fails.\<close>

definition parse_endpoint :: "fs \<Rightarrow> string \<Rightarrow> function_config_endpoint \<Rightarrow> calls \<Rightarrow> (int \<times> function_config_endpoint) \<times> calls" where
  "parse_endpoint k fpath ep w =
     (let ((r, v), w) = read_unless 0 k fpath ''streaming_interval'' (bInterval ep) w; ep = ep\<lparr>bInterval := v\<rparr>;
          ((r, v), w) = read_unless r k fpath ''streaming_maxburst'' (bMaxBurst ep) w; ep = ep\<lparr>bMaxBurst := v\<rparr>;
          ((r, v), w) = read_unless r k fpath ''streaming_maxpacket'' (wMaxPacketSize ep) w
      in ((r, ep\<lparr>wMaxPacketSize := v\<rparr>), w))"

definition configfs_parse_uvc :: "fs \<Rightarrow> string \<Rightarrow> function_config \<Rightarrow> calls \<Rightarrow> (int \<times> function_config \<times> calls) mem" where
  "configfs_parse_uvc k fpath c w =
     (case configfs_parse_child k fpath ''control'' c (configfs_parse_control k) w of
        Fault \<Rightarrow> Fault
      | Ret (r, c, w) \<Rightarrow>
          if r \<noteq> 0 then Ret (r, c, w)
          else case configfs_parse_child k fpath ''streaming'' c (configfs_parse_streaming k) w of
              Fault \<Rightarrow> Fault
            | Ret (r, c, w) \<Rightarrow>
                if r \<noteq> 0 then Ret (r, c, w)
                else (case parse_endpoint k fpath (streaming_ep c) w of ((r, ep), w) \<Rightarrow> Ret (r, c\<lparr>streaming_ep := ep\<rparr>, w)))"

definition zero_config :: function_config where
  "zero_config = \<lparr>fn_video = None, fn_udc = None, control_interface = 0, streaming_interface = 0,
     streaming_ep = \<lparr>bInterval = 0, bMaxBurst = 0, wMaxPacketSize = 0\<rparr>, num_formats = 0, formats = []\<rparr>"

text \<open>A configuration that was not completed is released.\<close>

definition completed_config :: "fs \<Rightarrow> int \<Rightarrow> function_config \<Rightarrow> calls \<Rightarrow> (function_config option \<times> calls) mem" where
  "completed_config k r c w =
     (if r = 0 then Ret (Some c, w)
      else case configfs_free_uvc_function k c w of Fault \<Rightarrow> Fault | Ret w \<Rightarrow> Ret (None, w))"

definition configfs_parse_uvc_function :: "fs \<Rightarrow> string option \<Rightarrow> calls \<Rightarrow> (function_config option \<times> calls) mem" where
  "configfs_parse_uvc_function k function w =
     (let (m, w) = alloc k w in
      if \<not> m then Ret (None, w)
      else case configfs_find_uvc_function k function w of
          Fault \<Rightarrow> Fault
        | Ret (None, w) \<Rightarrow>
            (case parse_legacy_g_webcam k function w of Fault \<Rightarrow> Fault | Ret (r, c, w) \<Rightarrow> completed_config k r c w)
        | Ret (Some fpath, w) \<Rightarrow>
            (case attribute_read_str k fpath ''../../UDC'' w of
               Fault \<Rightarrow> Fault
             | Ret (udc, w) \<Rightarrow>
                 (case udc_find_video_device k udc (map_option basename function) w of
                    Fault \<Rightarrow> Fault
                  | Ret (video, w) \<Rightarrow>
                      (let c = zero_config\<lparr>fn_udc := udc, fn_video := video\<rparr> in
                       if video = None then completed_config k (- ENODEV) c w
                       else case configfs_parse_uvc k fpath c w of
                           Fault \<Rightarrow> Fault
                         | Ret (r, c, w) \<Rightarrow> completed_config k r c w))))"

end
