(* ===== verification/Configfs_Facts.thy ===== *)
theory Configfs_Facts
  imports Configfs_Parse
begin

text \<open>
  What the reader of ConfigFS guarantees: attributes as the kernel prints them are read back, a
  configuration it answers is well-formed, and one it gives up is released.
\<close>

section \<open>Attributes\<close>

text \<open>There is memory for every allocation.\<close>

definition memory :: "fs \<Rightarrow> bool" where
  "memory k \<longleftrightarrow> (\<forall>w. 0 \<le> fa_ret (k w Alloc))"

lemma alloc_memory [simp]: "memory k \<Longrightarrow> alloc k w = (True, w @ [Alloc])"
  by (simp add: alloc_def ask_def memory_def)

lemma strdup_memory [simp]: "memory k \<Longrightarrow> strdup k s w = (Some s, w @ [Alloc])"
  by (simp add: strdup_def)

lemma path_join_memory [simp]: "memory k \<Longrightarrow> path_join k d n w = (Some (d @ ''/'' @ n), w @ [Alloc])"
  by (simp add: path_join_def)

lemma path_join_value: "path_join k d n w = (Some p, w') \<Longrightarrow> p = d @ ''/'' @ n"
  by (auto simp: path_join_def strdup_def split: if_splits prod.splits)

text \<open>The file of a path has a text: it opens, and reading it right after gives the text.\<close>

definition holds_text :: "fs \<Rightarrow> string \<Rightarrow> string \<Rightarrow> bool" where
  "holds_text k p t \<longleftrightarrow>
     (\<forall>w. fa_ret (k w (Open_File p)) \<noteq> -1) \<and>
     (\<forall>w fd n. 0 \<le> fa_ret (k (w @ [Open_File p]) (Read_File fd n)) \<and> fa_text (k (w @ [Open_File p]) (Read_File fd n)) = t)"

lemma attribute_read_value:
  assumes "memory k" "holds_text k (path @ ''/'' @ attr) t"
  shows "\<exists>w'. attribute_read k path attr buf len w = ((int len, take len t @ drop (length (take len t)) buf), w')"
proof -
  let ?p = "path @ ''/'' @ attr" let ?fd = "fa_ret (k (w @ [Alloc]) (Open_File ?p))"
  have o: "?fd \<noteq> -1" using assms(2) unfolding holds_text_def by blast
  have r: "0 \<le> fa_ret (k ((w @ [Alloc]) @ [Open_File ?p]) (Read_File ?fd len))"
      "fa_text (k ((w @ [Alloc]) @ [Open_File ?p]) (Read_File ?fd len)) = t"
    using assms(2) unfolding holds_text_def by blast+
  have "attribute_read k path attr buf len w =
      ((int len, take len t @ drop (length (take len t)) buf), w @ [Alloc, Open_File ?p, Read_File ?fd len, Close_File ?fd])"
    using o r by (simp add: attribute_read_def ask_def Let_def path_join_memory [OF assms(1)])
  then show ?thesis by blast
qed

lemma local_buffer_length: "local_buffer k n w = (buf, w') \<Longrightarrow> length buf = n"
  by (auto simp: local_buffer_def ask_def)

lemma take_one_more: "length xs = Suc n \<Longrightarrow> xs[n := y] = take n xs @ [y]"
  by (simp add: upd_conv_take_nth_drop)

text \<open>A number attribute is read back whatever the buffer held.\<close>

lemma read_uint_value:
  assumes "memory k" "holds_text k (path @ ''/'' @ attr) (decimal (unat (v :: u32)) @ [newline])"
  shows "\<exists>w'. attribute_read_uint k path attr x w = ((0, v), w')"
proof -
  let ?d = "decimal (unat v)" let ?t = "?d @ [newline]"
  obtain buf u where b: "local_buffer k 11 w = (buf, u)" by fastforce
  obtain w' where r: "attribute_read k path attr buf 10 u = ((10, take 10 ?t @ drop (length (take 10 ?t)) buf), w')"
    using attribute_read_value [OF assms, of buf 10 u] by auto
  have d: "length ?d \<le> 10" using decimal_length [of "unat v" 9] unat_u32_bound [of v] by simp
  have d_nul: "NUL \<notin> set ?d" using decimal_chars(5) by blast
  let ?buf = "(take 10 ?t @ drop (length (take 10 ?t)) buf)[10 := NUL]"
  have "\<exists>rest. c_string ?buf = ?d @ rest \<and> (rest = [] \<or> hd rest = newline)"
  proof (cases "length ?d = 10")
    case True
    then have "?buf = ?d @ [NUL]"
      using local_buffer_length [OF b] by (subst take_one_more) auto
    then have "c_string ?buf = ?d @ []"
      using d_nul by (simp add: c_string_end c_string_id)
    then show ?thesis by blast
  next
    case False
    then have "?buf = ?d @ newline # (drop (Suc (length ?d)) buf)[9 - length ?d := NUL]"
      using d by (cases "10 - length ?d") (auto simp: list_update_append intro: arg_cong)
    then have "c_string ?buf = ?d @ c_string (newline # (drop (Suc (length ?d)) buf)[9 - length ?d := NUL])"
      using d_nul by (simp add: c_string_append)
    then show ?thesis by (force simp: c_string_def)
  qed
  then obtain rest where c: "c_string ?buf = ?d @ rest" "rest = [] \<or> hd rest = newline" by blast
  have s: "strtoul 0 (?d @ rest) = (unat v, rest, False)"
    by (intro strtoul_decimal [OF c(2)]) (simp_all add: order_less_trans [OF unat_u32_bound])
  show ?thesis
    using c(1) s by (simp add: attribute_read_uint_def b r Let_def)
qed

text \<open>What the buffer of a string attribute held beyond the text of the file, up to the first NUL.\<close>

definition leftover :: "fs \<Rightarrow> nat \<Rightarrow> calls \<Rightarrow> string" where
  "leftover k n w = c_string (drop n (take 1023 (fst (local_buffer k 1024 w))))"

lemma read_str_value:
  assumes m: "memory k" and t: "holds_text k (path @ ''/'' @ attr) t"
    and n: "NUL \<notin> set t" "length t \<le> 1023"
  shows "\<exists>w'. attribute_read_str k path attr w =
    (let s = t @ leftover k (length t) w in
     case strrchr newline s of None \<Rightarrow> Fault | Some p \<Rightarrow> Ret (Some (if p = 0 then s else take p s), w'))"
proof -
  obtain buf u where b: "local_buffer k 1024 w = (buf, u)" by fastforce
  obtain w' where r: "attribute_read k path attr buf 1023 u = ((1023, t @ drop (length t) buf), w')"
    using attribute_read_value [OF m t, of buf 1023 u] n by auto
  have l: "length buf = 1024" by (rule local_buffer_length [OF b])
  have "(t @ drop (length t) buf)[1023 := NUL] = t @ drop (length t) (take 1023 buf) @ [NUL]"
    using l n(2) by (subst take_one_more) (auto simp: drop_take)
  then have "c_string ((t @ drop (length t) buf)[1023 := NUL]) = t @ leftover k (length t) w"
    using n(1) by (simp add: c_string_append leftover_def b c_string_end)
  then show ?thesis
    using m by (intro exI [of _ "w' @ [Alloc]"]) (simp add: attribute_read_str_def b r Let_def split: option.split nat.split)
qed

lemma read_str_line:
  assumes "memory k" "holds_text k (path @ ''/'' @ attr) (s @ [newline])"
    "NUL \<notin> set s" "length s < 1023" "s \<noteq> []" "newline \<notin> set (leftover k (Suc (length s)) w)"
  shows "\<exists>w'. attribute_read_str k path attr w = Ret (Some s, w')"
proof -
  have "strrchr newline (s @ newline # leftover k (Suc (length s)) w) = Some (length s)"
    by (rule strrchr_last [OF assms(6)])
  then show ?thesis
    using read_str_value [OF assms(1,2), of w] assms(3,4,5) by (auto simp: Let_def)
qed


section \<open>Intervals\<close>

definition lines_of_numbers :: "nat list \<Rightarrow> string" where
  "lines_of_numbers vs = concat (map (\<lambda>v. decimal v @ [newline]) vs)"

lemma lines_of_numbers_Cons: "lines_of_numbers (v # vs) = decimal v @ newline # lines_of_numbers vs"
  by (simp add: lines_of_numbers_def)

text \<open>The text of a list without its last newline.\<close>

lemma butlast_lines: "vs \<noteq> [] \<Longrightarrow> butlast (lines_of_numbers (v # vs)) = decimal v @ newline # butlast (lines_of_numbers vs)"
  by (cases vs) (simp_all add: lines_of_numbers_def butlast_append)

lemma parse_lines:
  fixes vs :: "u32 list"
  assumes "memory k" "vs \<noteq> []"
  shows "\<exists>w'. parse_intervals k (butlast (lines_of_numbers (map unat vs))) f w =
    ((0, f\<lparr>intervals := intervals f @ vs, num_intervals := num_intervals f + length vs\<rparr>), w')"
  using assms(2)
proof (induction vs arbitrary: f w)
  case (Cons v vs)
  have s: "strtoul 10 (decimal (unat v) @ r) = (unat v, r, False)" if "r = [] \<or> hd r = newline" for r
    by (intro strtoul_decimal [OF that]) (simp_all add: order_less_trans [OF unat_u32_bound])
  let ?g = "f\<lparr>intervals := intervals f @ [v], num_intervals := num_intervals f + 1\<rparr>"
  show ?case
  proof (cases "vs = []")
    case True
    then show ?thesis using s [of "[]"] assms(1)
      by (subst parse_intervals.simps) (simp add: lines_of_numbers_def parse_intervals.simps [of k "[]"] Let_def)
  next
    case False
    let ?r = "butlast (lines_of_numbers (map unat vs))"
    have "parse_intervals k (butlast (lines_of_numbers (map unat (v # vs)))) f w = parse_intervals k ?r ?g (w @ [Alloc])"
      using False s [of "newline # ?r"] assms(1)
      by (subst parse_intervals.simps) (simp add: butlast_lines Let_def)
    then show ?thesis using Cons.IH [OF False, of ?g "w @ [Alloc]"] by simp
  qed
qed simp

text \<open>Each turn of the loop takes at least one character, and allocates once.\<close>

definition intervals_grow :: "string \<Rightarrow> function_config_frame \<Rightarrow> calls \<Rightarrow> int \<Rightarrow> function_config_frame \<Rightarrow> calls \<Rightarrow> bool" where
  "intervals_grow p f w r g w' \<longleftrightarrow>
     length w' \<le> length w + length p \<and> r \<le> 0 \<and> cf_index g = cf_index f \<and>
     num_intervals f \<le> num_intervals g \<and> (r = 0 \<longrightarrow> p \<noteq> [] \<longrightarrow> num_intervals f < num_intervals g) \<and>
     length (intervals g) + num_intervals f = num_intervals g + length (intervals f)"

lemma parse_intervals_grow: "parse_intervals k p f w = ((r, g), w') \<Longrightarrow> intervals_grow p f w r g w'"
proof (induction k p f w arbitrary: r g w' rule: parse_intervals.induct)
  case (1 k p f w)
  obtain v rest e where s: "strtoul 10 p = (v, rest, e)" by (cases "strtoul 10 p") auto
  obtain m u where a: "alloc k w = (m, u)" by fastforce
  have u: "u = w @ [Alloc]" using a by (auto simp: alloc_def ask_def)
  let ?f = "f\<lparr>intervals := intervals f @ [word_of_nat v], num_intervals := num_intervals f + 1\<rparr>"
  consider "p = []" | "p \<noteq> []" "rest \<noteq> [] \<and> hd rest \<noteq> newline" | "p \<noteq> []" "\<not> (rest \<noteq> [] \<and> hd rest \<noteq> newline)" "\<not> m"
    | "p \<noteq> []" "\<not> (rest \<noteq> [] \<and> hd rest \<noteq> newline)" m by blast
  then show ?case
  proof cases
    case 4
    then have "parse_intervals k (tl rest) ?f u = ((r, g), w')"
      using 1(2) by (subst (asm) parse_intervals.simps) (auto simp: s a Let_def split: if_splits)
    then have "intervals_grow (tl rest) ?f u r g w'"
      using 1(1) [OF 4(1) s [symmetric] _ _ 4(2) a [symmetric] _ _ ] 4(3) by simp
    moreover have "Suc (length (tl rest)) \<le> length p"
      using strtoul_shorter [OF s] 4(1) by (cases rest) (auto simp: Suc_le_eq)
    ultimately show ?thesis by (auto simp: intervals_grow_def u)
  qed (use 1(2) in \<open>subst (asm) parse_intervals.simps; auto simp: s a u Let_def intervals_grow_def Suc_le_eq split: if_splits\<close>)+
qed

section \<open>What the parser builds\<close>

text \<open>
  The file system answers as it is documented: there is memory, a failed call sets \<^verbatim>\<open>errno\<close>,
  text attributes hold a newline, and the name of a function can be read.
\<close>

definition readable :: "fs \<Rightarrow> bool" where
  "readable k \<longleftrightarrow> memory k \<and> (\<forall>w c. fa_ret (k w c) < 0 \<longrightarrow> 0 < fa_errno (k w c)) \<and>
     (\<forall>path attr w. attribute_read_str k path attr w \<noteq> Fault) \<and>
     (\<forall>path w w'. attribute_read_str k path ''function_name'' w \<noteq> Ret (None, w'))"

lemma readable_memory [simp]: "readable k \<Longrightarrow> memory k"
  by (simp add: readable_def)

definition consistent_frame :: "function_config_frame \<Rightarrow> bool" where
  "consistent_frame f \<longleftrightarrow> length (intervals f) = num_intervals f"

definition consistent_format :: "function_config_format \<Rightarrow> bool" where
  "consistent_format f \<longleftrightarrow> length (frames f) = num_frames f \<and> list_all consistent_frame (frames f)"

definition consistent_config :: "function_config \<Rightarrow> bool" where
  "consistent_config c \<longleftrightarrow> length (formats c) = num_formats c \<and> list_all consistent_format (formats c)"

definition complete_format :: "function_config_format \<Rightarrow> bool" where
  "complete_format f \<longleftrightarrow> 0 < num_frames f \<and> length (frames f) = num_frames f \<and>
     list_all wf_frame (frames f) \<and> sorted (map cf_index (frames f))"

definition complete_config :: "function_config \<Rightarrow> bool" where
  "complete_config c \<longleftrightarrow> fn_video c \<noteq> None \<and> 0 < num_formats c \<and> length (formats c) = num_formats c \<and>
     list_all complete_format (formats c) \<and> sorted (map fo_index (formats c))"

lemma complete_consistent: "complete_format f \<Longrightarrow> consistent_format f"
  by (auto simp: complete_format_def consistent_format_def consistent_frame_def wf_frame_def list_all_iff)

lemma read_uint_result: "attribute_read_uint k path attr x w = ((r, v), w') \<Longrightarrow> r \<le> 0"
  by (auto simp: attribute_read_uint_def attribute_read_def ask_def Let_def split: prod.splits option.splits if_splits)

lemma read_unless_result: "read_unless e k path attr x w = ((r, v), w') \<Longrightarrow> e \<le> 0 \<Longrightarrow> r \<le> 0"
  by (auto simp: read_unless_def dest: read_uint_result split: if_splits)

lemma read_str_result:
  assumes "attribute_read_str k path attr w = Ret (Some s, w')"
  shows "s \<noteq> []"
proof -
  obtain t p where "strrchr newline t = Some p" "s = (case p of 0 \<Rightarrow> t | Suc q \<Rightarrow> take p t)"
    using assms by (auto simp: attribute_read_str_def strdup_def Let_def split: prod.splits option.splits if_splits nat.splits)
  then show ?thesis using strrchr_SomeD(1) [of newline t p] by (auto split: nat.splits)
qed

lemma frame_result:
  assumes "readable k" "consistent_frame f"
  shows "\<exists>r g w'. configfs_parse_streaming_frame k path f w = Ret (r, g, w') \<and> r \<le> 0 \<and> consistent_frame g \<and>
    (r = 0 \<longrightarrow> wf_frame g)"
proof -
  obtain r1 v1 w1 where 1: "read_unless 0 k path ''bFrameIndex'' (cf_index f) w = ((r1, v1), w1)"
    by (metis surj_pair)
  obtain r2 v2 w2 where 2: "read_unless r1 k path ''wWidth'' (cf_width f) w1 = ((r2, v2), w2)"
    by (metis surj_pair)
  obtain r3 v3 w3 where 3: "read_unless r2 k path ''wHeight'' (cf_height f) w2 = ((r3, v3), w3)"
    by (metis surj_pair)
  have r3: "r3 \<le> 0" using read_unless_result 1 2 3 by blast
  let ?f = "f\<lparr>cf_index := v1, cf_width := v2, cf_height := v3\<rparr>"
  have f: "configfs_parse_streaming_frame k path f w =
      (if r3 \<noteq> 0 then Ret (r3, ?f, w3)
       else case attribute_read_str k path ''dwFrameInterval'' w3 of
           Fault \<Rightarrow> Fault
         | Ret (None, w) \<Rightarrow> Ret (- EINVAL, ?f, w)
         | Ret (Some text, w) \<Rightarrow> (case parse_intervals k text ?f w of ((r, frame), w) \<Rightarrow> Ret (r, frame, w)))"
    using 1 2 3 by (simp add: configfs_parse_streaming_frame_def Let_def)
  show ?thesis
  proof (cases "r3 = 0")
    case False then show ?thesis using f r3 assms(2) by (simp add: consistent_frame_def)
  next
    case True
    obtain s u where s: "attribute_read_str k path ''dwFrameInterval'' w3 = Ret (s, u)"
      using assms(1) unfolding readable_def by (metis mem.exhaust surj_pair)
    show ?thesis
    proof (cases s)
      case None then show ?thesis using f s True assms(2) by (simp add: consistent_frame_def)
    next
      case (Some t)
      obtain r g w' where p: "parse_intervals k t ?f u = ((r, g), w')" by (metis surj_pair)
      have "intervals_grow t ?f u r g w'" by (rule parse_intervals_grow [OF p])
      then show ?thesis
        using f s True Some p assms(2) read_str_result [of k path _ w3 t u]
        by (auto simp: intervals_grow_def consistent_frame_def wf_frame_def)
    qed
  qed
qed

text \<open>The outcome of the loops over frames and formats: an error, or all elements parsed.\<close>

definition frames_outcome :: "function_config_format \<Rightarrow> (int \<times> bool \<times> function_config_format \<times> calls) mem \<Rightarrow> bool" where
  "frames_outcome fo x =
     (case x of
        Fault \<Rightarrow> False
      | Ret (r, ready, fo', w) \<Rightarrow> consistent_format fo' \<and> num_frames fo' = num_frames fo \<and> fo_index fo' = fo_index fo \<and>
          (if ready then r = 0 \<and> list_all wf_frame (frames fo') else r < 0))"

lemma frames_outcome_frames [simp]: "frames_outcome (fo\<lparr>frames := fs\<rparr>) = frames_outcome fo"
  by (simp add: fun_eq_iff frames_outcome_def split: mem.split)

lemma frames_result:
  assumes "readable k" "consistent_format fo" "length es + i = length (frames fo)"
    "\<forall>j<i. wf_frame (frames fo ! j)"
  shows "frames_outcome fo (parse_frames k path es i 0 fo w)"
  using assms(2-4)
proof (induction es arbitrary: i fo w)
  case Nil then show ?case by (simp add: frames_outcome_def list_all_length)
next
  case (Cons e es)
  let ?p = "path @ ''/'' @ fst e" and ?u = "w @ [Alloc]"
  have i: "i < length (frames fo)" "consistent_frame (frames fo ! i)"
    using Cons.prems(1,2) by (auto simp: consistent_format_def list_all_length)
  obtain r1 g w1 where g: "configfs_parse_streaming_frame k ?p (frames fo ! i) ?u = Ret (r1, g, w1)"
      "r1 \<le> 0" "consistent_frame g" "r1 = 0 \<Longrightarrow> wf_frame g"
    using frame_result [OF assms(1) i(2), of ?p ?u] by blast
  let ?fo = "fo\<lparr>frames := (frames fo)[i := g]\<rparr>"
  have fo: "consistent_format ?fo"
    using Cons.prems(1) g(3) i(1) by (auto simp: consistent_format_def list_all_length nth_list_update)
  have step: "parse_frames k path (e # es) i 0 fo w =
      (if r1 < 0 then Ret (r1, False, ?fo, w1) else parse_frames k path es (i + 1) r1 ?fo w1)"
    using i(1) g(1) assms(1) by simp
  show ?case
  proof (cases "r1 < 0")
    case True then show ?thesis using fo unfolding step by (simp add: frames_outcome_def)
  next
    case False
    then have r1: "r1 = 0" using g(2) by simp
    have "\<forall>j<i + 1. wf_frame (frames ?fo ! j)"
      using Cons.prems(3) g(4) [OF r1] i(1) by (auto simp: nth_list_update less_Suc_eq)
    moreover have "length es + (i + 1) = length (frames ?fo)" using Cons.prems(2) by simp
    ultimately have "frames_outcome ?fo (parse_frames k path es (i + 1) 0 ?fo w1)"
      by (rule Cons.IH [OF fo, rotated])
    then show ?thesis unfolding step using r1 by simp
  qed
qed

lemma frame_filter_calls: "filter_entries frame_filter es w = (filter (\<lambda>e. fst (frame_filter e [])) es, w)"
  by (induction es) (auto simp: frame_filter_def)

lemma wf_sorted_format:
  assumes "consistent_format fo" "list_all wf_frame (frames fo)" "frames fo \<noteq> []"
  shows "complete_format (fo\<lparr>frames := sort_key cf_index (frames fo)\<rparr>)"
  using assms by (cases "num_frames fo") (auto simp: complete_format_def consistent_format_def list_all_iff)

lemma format_frames_result:
  assumes "readable k" "consistent_format fo"
  shows "\<exists>r fo' w'. format_frames k path fo w = Ret (r, fo', w') \<and> r \<le> 0 \<and> consistent_format fo' \<and>
    fo_index fo' = fo_index fo \<and> (r = 0 \<longrightarrow> complete_format fo')"
proof -
  obtain es u where s: "scandir k path frame_filter w = (es, u)" by fastforce
  show ?thesis
  proof (cases es)
    case (Inl e)
    then have "0 < e" using s assms(1) by (auto simp: scandir_def ask_def readable_def Let_def split: if_splits prod.splits)
    then show ?thesis using s Inl assms(2) by (simp add: format_frames_def)
  next
    case (Inr es)
    show ?thesis
    proof (cases "es = []")
      case True then show ?thesis using s Inr assms(2) by (simp add: format_frames_def)
    next
      case False
      let ?fo = "fo\<lparr>num_frames := length es, frames := replicate (length es) zero_frame\<rparr>"
      have c: "consistent_format ?fo"
        by (simp add: consistent_format_def consistent_frame_def zero_frame_def list_all_iff)
      have "frames_outcome ?fo (parse_frames k path es 0 0 ?fo (u @ [Alloc]))"
        by (rule frames_result [OF assms(1) c]) simp_all
      then obtain r ready fo' w' where p: "parse_frames k path es 0 0 ?fo (u @ [Alloc]) = Ret (r, ready, fo', w')"
          "consistent_format fo'" "num_frames fo' = length es" "fo_index fo' = fo_index fo"
          "if ready then r = 0 \<and> list_all wf_frame (frames fo') else r < 0"
        by (auto simp: frames_outcome_def split: mem.splits)
      have "frames fo' \<noteq> []" using p(2,3) False by (auto simp: consistent_format_def)
      then have "ready \<Longrightarrow> complete_format (fo'\<lparr>frames := sort_key cf_index (frames fo')\<rparr>)"
        using p(2,5) by (intro wf_sorted_format) auto
      then show ?thesis
        using s Inr False p assms(1) complete_consistent by (auto simp: format_frames_def Let_def split: if_splits)
    qed
  qed
qed

lemma format_result:
  assumes "readable k" "consistent_format fo"
  shows "\<exists>r fo' w'. configfs_parse_streaming_format k path fo w = Ret (r, fo', w') \<and> r \<le> 0 \<and> consistent_format fo' \<and>
    (r = 0 \<longrightarrow> complete_format fo')"
proof -
  obtain r v u where 1: "attribute_read_uint k path ''bFormatIndex'' (fo_index fo) w = ((r, v), u)" by (metis surj_pair)
  have r: "r \<le> 0" by (rule read_uint_result [OF 1])
  let ?fo = "fo\<lparr>fo_index := v\<rparr>"
  obtain a x where a: "ask k (Read_Link path 1023) u = (a, x)" by fastforce
  obtain q g y where g: "format_guid k path (link_segment (c_string (take 1023 (fa_text a)))) ?fo x = ((q, g), y)"
    by (metis surj_pair)
  have f: "configfs_parse_streaming_format k path fo w =
      (if r < 0 then Ret (r, ?fo, u) else if fa_ret a < 0 then Ret (-1, ?fo, x)
       else if q < 0 then Ret (q, g, y) else format_frames k path (format_fcc g) y)"
    using 1 a g by (simp add: configfs_parse_streaming_format_def Let_def)
  have fr: "num_frames g = num_frames fo \<and> frames g = frames fo"
    using g by (auto simp: format_guid_def split: option.splits prod.splits if_splits)
  have fr': "num_frames (format_fcc g) = num_frames fo \<and> frames (format_fcc g) = frames fo"
    using fr by (simp add: format_fcc_def split: option.split)
  have c: "consistent_format ?fo" "consistent_format g" "consistent_format (format_fcc g)"
    using assms(2) fr fr' by (simp_all add: consistent_format_def)
  show ?thesis
    using f r c format_frames_result [OF assms(1) c(3), of path y] by (cases "r < 0"; cases "fa_ret a < 0"; cases "q < 0") auto
qed

section \<open>The configuration\<close>

definition formats_outcome :: "function_config \<Rightarrow> (int \<times> bool \<times> function_config \<times> calls) mem \<Rightarrow> bool" where
  "formats_outcome c x =
     (case x of
        Fault \<Rightarrow> False
      | Ret (r, ready, c', w) \<Rightarrow> consistent_config c' \<and> num_formats c' = num_formats c \<and> fn_video c' = fn_video c \<and>
          (if ready then r = 0 \<and> list_all complete_format (formats c') else r < 0))"

lemma formats_outcome_formats [simp]: "formats_outcome (c\<lparr>formats := fs\<rparr>) = formats_outcome c"
  by (simp add: fun_eq_iff formats_outcome_def split: mem.split)

lemma formats_result:
  assumes "readable k" "consistent_config c" "length es + i = length (formats c)"
    "\<forall>j<i. complete_format (formats c ! j)"
  shows "formats_outcome c (parse_formats k path es i 0 c w)"
  using assms(2-4)
proof (induction es arbitrary: i c w)
  case Nil then show ?case by (simp add: formats_outcome_def list_all_length)
next
  case (Cons e es)
  let ?p = "path @ ''/'' @ fst e" and ?u = "w @ [Alloc]"
  have i: "i < length (formats c)" "consistent_format (formats c ! i)"
    using Cons.prems(1,2) by (auto simp: consistent_config_def list_all_length)
  obtain r1 g w1 where g: "configfs_parse_streaming_format k ?p (formats c ! i) ?u = Ret (r1, g, w1)"
      "r1 \<le> 0" "consistent_format g" "r1 = 0 \<Longrightarrow> complete_format g"
    using format_result [OF assms(1) i(2), of ?p ?u] by blast
  let ?c = "c\<lparr>formats := (formats c)[i := g]\<rparr>"
  have c: "consistent_config ?c"
    using Cons.prems(1) g(3) i(1) by (auto simp: consistent_config_def list_all_length nth_list_update)
  have step: "parse_formats k path (e # es) i 0 c w =
      (if r1 < 0 then Ret (r1, False, ?c, w1) else parse_formats k path es (i + 1) r1 ?c w1)"
    using i(1) g(1) assms(1) by simp
  show ?case
  proof (cases "r1 < 0")
    case True then show ?thesis using c unfolding step by (simp add: formats_outcome_def)
  next
    case False
    then have r1: "r1 = 0" using g(2) by simp
    have "\<forall>j<i + 1. complete_format (formats ?c ! j)"
      using Cons.prems(3) g(4) [OF r1] i(1) by (auto simp: nth_list_update less_Suc_eq)
    moreover have "length es + (i + 1) = length (formats ?c)" using Cons.prems(2) by simp
    ultimately have "formats_outcome ?c (parse_formats k path es (i + 1) 0 ?c w1)"
      by (rule Cons.IH [OF c, rotated])
    then show ?thesis unfolding step using r1 by simp
  qed
qed

text \<open>The steps of the parser keep the configuration consistent, and end with 0 or an error.\<close>

definition config_outcome :: "function_config \<Rightarrow> bool \<Rightarrow> (int \<times> function_config \<times> calls) mem \<Rightarrow> bool" where
  "config_outcome c full x =
     (case x of
        Fault \<Rightarrow> False
      | Ret (r, c', w) \<Rightarrow> r \<le> 0 \<and> consistent_config c' \<and> fn_video c' = fn_video c \<and>
          (r = 0 \<longrightarrow> full \<longrightarrow> fn_video c \<noteq> None \<longrightarrow> complete_config c'))"

lemma config_outcome_interface [simp]: "config_outcome (c\<lparr>streaming_interface := v\<rparr>) = config_outcome c"
  by (simp add: fun_eq_iff config_outcome_def split: mem.split)

lemma scandir_error: "readable k \<Longrightarrow> scandir k dir f w = (Inl e, u) \<Longrightarrow> 0 < e"
  by (auto simp: scandir_def ask_def readable_def Let_def split: if_splits prod.splits)

lemma header_result:
  assumes "readable k" "consistent_config c"
  shows "config_outcome c True (configfs_parse_streaming_header k path c w)"
proof -
  obtain x u where s: "scandir k path (format_filter k) w = (x, u)" by fastforce
  show ?thesis
  proof (cases x)
    case (Inl e)
    then have "0 < e" using scandir_error [OF assms(1)] s by blast
    then show ?thesis
      using Inl s assms(2) by (simp add: configfs_parse_streaming_header_def config_outcome_def)
  next
    case (Inr es)
    show ?thesis
    proof (cases "es = []")
      case True then show ?thesis using s Inr assms(2) by (simp add: configfs_parse_streaming_header_def config_outcome_def)
    next
      case False
      let ?c = "c\<lparr>num_formats := length es, formats := replicate (length es) zero_format\<rparr>"
      have c: "consistent_config ?c"
        by (simp add: consistent_config_def consistent_format_def zero_format_def list_all_iff)
      have "formats_outcome ?c (parse_formats k path es 0 0 ?c (u @ [Alloc]))"
        by (rule formats_result [OF assms(1) c]) simp_all
      then obtain r ready c' w' where p: "parse_formats k path es 0 0 ?c (u @ [Alloc]) = Ret (r, ready, c', w')"
          "consistent_config c'" "num_formats c' = length es" "fn_video c' = fn_video c"
          "if ready then r = 0 \<and> list_all complete_format (formats c') else r < 0"
        by (auto simp: formats_outcome_def split: mem.splits)
      have "consistent_config (c'\<lparr>formats := sort_key fo_index (formats c')\<rparr>)"
        using p(2) by (auto simp: consistent_config_def list_all_iff)
      moreover have "complete_config (c'\<lparr>formats := sort_key fo_index (formats c')\<rparr>)" if ready "fn_video c \<noteq> None"
        using p(2-5) that False by (auto simp: complete_config_def consistent_config_def list_all_iff)
      ultimately show ?thesis
        using s Inr False p assms(1) by (auto simp: configfs_parse_streaming_header_def config_outcome_def Let_def split: if_splits)
    qed
  qed
qed

lemma control_result:
  assumes "consistent_config c"
  shows "config_outcome c False (configfs_parse_control k path c w)"
proof -
  obtain r v u where 1: "attribute_read_uint k path ''bInterfaceNumber'' (control_interface c) w = ((r, v), u)"
    by (metis surj_pair)
  then show ?thesis using assms read_uint_result [OF 1]
    by (simp add: configfs_parse_control_def configfs_parse_interface_def config_outcome_def consistent_config_def)
qed

lemma streaming_result:
  assumes "readable k" "consistent_config c"
  shows "config_outcome c True (configfs_parse_streaming k path c w)"
proof -
  obtain r v u where 1: "attribute_read_uint k path ''bInterfaceNumber'' (streaming_interface c) w = ((r, v), u)"
    by (metis surj_pair)
  let ?c = "c\<lparr>streaming_interface := v\<rparr>"
  have c: "consistent_config ?c" using assms(2) by (simp add: consistent_config_def)
  obtain h x where h: "dir_first_match k (path @ ''/class/hs'') link_filter (u @ [Alloc]) = (h, x)" by fastforce
  have f: "configfs_parse_streaming k path c w =
      (if r < 0 then Ret (r, ?c, u)
       else case h of None \<Rightarrow> Ret (- EINVAL, ?c, x) | Some header \<Rightarrow> configfs_parse_streaming_header k header ?c x)"
    using 1 h assms(1) by (simp add: configfs_parse_streaming_def configfs_parse_interface_def Let_def)
  show ?thesis
  proof (cases "r < 0 \<or> h = None")
    case True
    then show ?thesis using f c by (auto simp: config_outcome_def)
  next
    case False
    then obtain header where "h = Some header" "\<not> r < 0" by auto
    then show ?thesis using f header_result [OF assms(1) c, of header x] by simp
  qed
qed

lemma uvc_result:
  assumes "readable k" "consistent_config c"
  shows "config_outcome c True (configfs_parse_uvc k fpath c w)"
proof -
  have "config_outcome c False (configfs_parse_control k (fpath @ ''/control'') c (w @ [Alloc]))"
    by (rule control_result [OF assms(2)])
  then obtain r1 c1 w1 where 1: "configfs_parse_control k (fpath @ ''/control'') c (w @ [Alloc]) = Ret (r1, c1, w1)"
      "r1 \<le> 0" "consistent_config c1" "fn_video c1 = fn_video c"
    by (auto simp: config_outcome_def split: mem.splits)
  have "config_outcome c1 True (configfs_parse_streaming k (fpath @ ''/streaming'') c1 (w1 @ [Alloc]))"
    by (rule streaming_result [OF assms(1) 1(3)])
  then obtain r2 c2 w2 where 2: "configfs_parse_streaming k (fpath @ ''/streaming'') c1 (w1 @ [Alloc]) = Ret (r2, c2, w2)"
      "r2 \<le> 0" "consistent_config c2" "fn_video c2 = fn_video c1" "r2 = 0 \<Longrightarrow> fn_video c1 \<noteq> None \<Longrightarrow> complete_config c2"
    by (auto simp: config_outcome_def split: mem.splits)
  obtain r3 ep w3 where 3: "parse_endpoint k fpath (streaming_ep c2) w2 = ((r3, ep), w3)" by (metis surj_pair)
  have r3: "r3 \<le> 0" using 3 by (auto simp: parse_endpoint_def Let_def split: prod.splits dest!: read_unless_result)
  have "configfs_parse_uvc k fpath c w =
      (if r1 \<noteq> 0 then Ret (r1, c1, w1) else if r2 \<noteq> 0 then Ret (r2, c2, w2) else Ret (r3, c2\<lparr>streaming_ep := ep\<rparr>, w3))"
    using 1(1) 2(1) 3 assms(1) by (simp add: configfs_parse_uvc_def configfs_parse_child_def)
  then show ?thesis
    using 1 2 r3 by (auto simp: config_outcome_def consistent_config_def complete_config_def)
qed

section \<open>Release\<close>

text \<open>Everything a configuration holds, in the order it is freed.\<close>

definition format_blocks :: "function_config_format list \<Rightarrow> nat \<Rightarrow> block list" where
  "format_blocks fs i = map (Intervals i) [0..<num_frames (fs ! i)] @ [Frames i]"

definition blocks :: "function_config \<Rightarrow> block list" where
  "blocks c = [Udc, Video] @ concat (map (format_blocks (formats c)) [0..<num_formats c]) @ [Formats, Config]"

lemma free_frames_value:
  "free_frames k i j n fs w =
     (if n = 0 \<or> j + n \<le> length fs then Ret (w @ map Free (map (Intervals i) [j..<j + n])) else Fault)"
  by (induction n arbitrary: j w) (auto simp: upt_conv_Cons)

lemma free_formats_value:
  "free_formats k i n fs w =
     (if (n = 0 \<or> i + n \<le> length fs) \<and> (\<forall>j. i \<le> j \<longrightarrow> j < i + n \<longrightarrow> num_frames (fs ! j) \<le> length (frames (fs ! j)))
      then Ret (w @ map Free (concat (map (format_blocks fs) [i..<i + n]))) else Fault)"
proof (induction n arbitrary: i w)
  case (Suc n)
  have e: "(\<forall>j. i \<le> j \<longrightarrow> j < i + Suc n \<longrightarrow> P j) \<longleftrightarrow> P i \<and> (\<forall>j. Suc i \<le> j \<longrightarrow> j < Suc i + n \<longrightarrow> P j)" for P
    by (auto simp: Suc_le_eq) (metis le_eq_less_or_eq)
  have u: "[i..<i + Suc n] = i # [Suc i..<Suc i + n]" by (simp add: upt_conv_Cons)
  show ?case
    unfolding u by (subst e) (auto simp: Suc.IH free_frames_value format_blocks_def)
qed simp

definition releasable :: "function_config \<Rightarrow> bool" where
  "releasable c \<longleftrightarrow> (num_formats c = 0 \<or> num_formats c \<le> length (formats c)) \<and>
     (\<forall>i<num_formats c. num_frames (formats c ! i) \<le> length (frames (formats c ! i)))"

lemma free_value:
  "configfs_free_uvc_function k c w = (if releasable c then Ret (w @ map Free (blocks c)) else Fault)"
  by (auto simp: configfs_free_uvc_function_def free_formats_value releasable_def blocks_def)

lemma consistent_releasable: "consistent_config c \<Longrightarrow> releasable c"
  by (auto simp: consistent_config_def releasable_def consistent_format_def list_all_length)

lemma distinct_blocks: "distinct (blocks c)"
proof -
  have "distinct (concat (map (format_blocks fs) [0..<n]))" for fs n
    by (induction n) (auto simp: format_blocks_def distinct_map inj_on_def)
  then show ?thesis by (auto simp: blocks_def format_blocks_def)
qed

section \<open>The function\<close>

lemma match_result: "readable k \<Longrightarrow> \<exists>v w'. match_function k name ps w = Ret (v, w')"
proof (induction ps arbitrary: w)
  case (Cons p ps)
  show ?case
  proof (cases name)
    case (Some nm)
    obtain c u where c: "attribute_read_str k p ''function_name'' w = Ret (Some c, u)"
      using Cons.prems unfolding readable_def by (metis mem.exhaust option.exhaust surj_pair)
    then show ?thesis using Some Cons by simp
  qed simp
qed simp

lemma udc_result: "readable k \<Longrightarrow> \<exists>v w'. udc_find_video_device k udc function w = Ret (v, w')"
proof -
  assume r: "readable k"
  let ?g = "Glob (''/sys/class/udc/'' @ (case udc of None \<Rightarrow> ''*'' | Some u \<Rightarrow> u) @ ''/device/gadget/video4linux/video*'')"
  obtain v w' where "match_function k function (fa_paths (k (w @ [Alloc]) ?g)) ((w @ [Alloc]) @ [?g]) = Ret (v, w')"
    using match_result [OF r] by blast
  then show ?thesis
    using r by (cases v) (simp_all add: udc_find_video_device_def ask_def)
qed

lemma memdup_memory [simp]: "memory k \<Longrightarrow> memdup k xs w = (xs, w @ [Alloc])"
  by (simp add: memdup_def)

lemma dup_intervals_memory: "memory k \<Longrightarrow> fst (dup_intervals k fs w) = fs"
  by (induction fs arbitrary: w) (auto simp: case_prod_beta Let_def)

lemma dup_frames_memory:
  "memory k \<Longrightarrow> list_all consistent_format fs \<Longrightarrow> \<exists>w'. dup_frames k fs w = Ret (fs, w')"
proof (induction fs arbitrary: w)
  case (Cons f fs)
  obtain u where u: "dup_intervals k (frames f) (w @ [Alloc]) = (frames f, u)"
    using dup_intervals_memory [OF Cons.prems(1)] by (metis prod.collapse)
  obtain w' where "dup_frames k fs u = Ret (fs, w')" using Cons by fastforce
  then show ?case using Cons.prems u by (simp add: consistent_format_def)
qed simp

lemma g_webcam_consistent: "consistent_config g_webcam_config"
  by (simp add: g_webcam_config_def g_webcam_frames_def consistent_config_def consistent_format_def consistent_frame_def)

lemma g_webcam_complete: "complete_config (g_webcam_config\<lparr>fn_video := Some v\<rparr>)"
  by (simp add: g_webcam_config_def g_webcam_frames_def complete_config_def complete_format_def wf_frame_def)

lemma legacy_result:
  assumes "readable k"
  shows "\<exists>v w'. parse_legacy_g_webcam k udc w = Ret (if v = None then - ENODEV else 0, g_webcam_config\<lparr>fn_video := v\<rparr>, w')"
proof -
  have n: "length (formats g_webcam_config) = num_formats g_webcam_config"
      "list_all consistent_format (formats g_webcam_config)"
    using g_webcam_consistent by (simp_all add: consistent_config_def)
  obtain u where u: "dup_frames k (formats g_webcam_config) (w @ [Alloc]) = Ret (formats g_webcam_config, u)"
    using dup_frames_memory [OF readable_memory [OF assms] n(2)] by blast
  obtain v w' where "udc_find_video_device k udc None u = Ret (v, w')" using udc_result [OF assms] by blast
  then show ?thesis using u n(1) assms by (auto simp: parse_legacy_g_webcam_def)
qed

definition released :: "calls \<Rightarrow> bool" where
  "released w \<longleftrightarrow> (\<exists>c u. w = u @ map Free (blocks c) \<and> distinct (blocks c))"

definition function_outcome :: "(function_config option \<times> calls) mem \<Rightarrow> bool" where
  "function_outcome x =
     (case x of Fault \<Rightarrow> False | Ret (None, w) \<Rightarrow> released w | Ret (Some c, w) \<Rightarrow> complete_config c)"

lemma completed_outcome:
  assumes "consistent_config c" "r = 0 \<Longrightarrow> complete_config c"
  shows "function_outcome (completed_config k r c w)"
  using assms by (auto simp: completed_config_def function_outcome_def free_value consistent_releasable released_def distinct_blocks)

lemma find_function_result: "memory k \<Longrightarrow> \<exists>p w'. configfs_find_uvc_function k function w = Ret (p, w')"
  by (auto simp: configfs_find_uvc_function_def Let_def split: prod.split)

lemma function_result:
  assumes "readable k"
  shows "function_outcome (configfs_parse_uvc_function k function w)"
proof -
  have m: "memory k" using assms by simp
  obtain p u where p: "configfs_find_uvc_function k function (w @ [Alloc]) = Ret (p, u)"
    using find_function_result [OF m] by blast
  show ?thesis
  proof (cases p)
    case None
    obtain v w' where "parse_legacy_g_webcam k function u = Ret (if v = None then - ENODEV else 0, g_webcam_config\<lparr>fn_video := v\<rparr>, w')"
      using legacy_result [OF assms] by blast
    then have "configfs_parse_uvc_function k function w =
        completed_config k (if v = None then - ENODEV else 0) (g_webcam_config\<lparr>fn_video := v\<rparr>) w'"
      using p None m by (simp add: configfs_parse_uvc_function_def)
    moreover have "consistent_config (g_webcam_config\<lparr>fn_video := v\<rparr>)"
      using g_webcam_consistent by (simp add: consistent_config_def)
    ultimately show ?thesis using g_webcam_complete by (auto intro!: completed_outcome split: if_splits)
  next
    case (Some fpath)
    obtain udc x where udc: "attribute_read_str k fpath ''../../UDC'' u = Ret (udc, x)"
      using assms unfolding readable_def by (metis mem.exhaust surj_pair)
    obtain video y where video: "udc_find_video_device k udc (map_option basename function) x = Ret (video, y)"
      using udc_result [OF assms] by blast
    let ?c = "zero_config\<lparr>fn_udc := udc, fn_video := video\<rparr>"
    have c: "consistent_config ?c" by (simp add: consistent_config_def zero_config_def)
    have f: "configfs_parse_uvc_function k function w =
        (if video = None then completed_config k (- ENODEV) ?c y
         else case configfs_parse_uvc k fpath ?c y of Fault \<Rightarrow> Fault | Ret (r, c, w) \<Rightarrow> completed_config k r c w)"
      using p Some udc video m by (simp add: configfs_parse_uvc_function_def Let_def)
    show ?thesis
    proof (cases video)
      case None
      then show ?thesis unfolding f using c by (simp add: completed_outcome)
    next
      case (Some v)
      obtain r c' w' where r: "configfs_parse_uvc k fpath ?c y = Ret (r, c', w')" "consistent_config c'"
          "r = 0 \<Longrightarrow> complete_config c'"
        using uvc_result [OF assms c, of fpath y] Some by (auto simp: config_outcome_def zero_config_def split: mem.splits)
      then show ?thesis unfolding f using Some by (simp add: completed_outcome)
    qed
  qed
qed

lemma lines_of_numbers_end:
  assumes "vs \<noteq> []"
  shows "\<exists>s. lines_of_numbers vs = s @ [newline] \<and> s = butlast (lines_of_numbers vs) \<and> s \<noteq> [] \<and> NUL \<notin> set s"
proof -
  obtain us v where v: "vs = us @ [v]" using assms by (metis rev_exhaust)
  have n: "NUL \<notin> set (lines_of_numbers xs)" for xs
    using decimal_chars(5) by (auto simp: lines_of_numbers_def)
  have "lines_of_numbers vs = (lines_of_numbers us @ decimal v) @ [newline]" by (simp add: v lines_of_numbers_def)
  moreover have "NUL \<notin> set (lines_of_numbers us @ decimal v)" using n decimal_chars(5) by auto
  ultimately show ?thesis by (metis append_is_Nil_conv butlast_snoc decimal_not_empty)
qed

section \<open>A file system\<close>

text \<open>Every file holds the text 1, every directory a link and a directory.\<close>

definition sample_fs :: fs where
  "sample_fs w c =
     \<lparr>fa_ret = (case c of Access p \<Rightarrow> -1 | Read_Mounts \<Rightarrow> -1 | _ \<Rightarrow> 0), fa_errno = 2,
      fa_text = (case c of Read_File fd n \<Rightarrow> ''1'' @ [newline] | Read_Link p n \<Rightarrow> ''../../mjpeg/m'' | _ \<Rightarrow> []),
      fa_entries = [(''u'', DT_LNK), (''p'', DT_DIR)], fa_paths = [''/functions/1'']\<rparr>"

lemma sample_fs_memory: "memory sample_fs"
  by (simp add: memory_def sample_fs_def)

lemma decimal_1: "decimal 1 = ''1''"
proof -
  have "(char_of (49 :: nat) :: char) = CHR ''1''" by (simp add: char_of_def bit_iff_odd)
  then show ?thesis by (subst decimal.simps) simp
qed

lemma decimal_Suc_0: "decimal (Suc 0) = ''1''"
  using decimal_1 by simp

lemma sample_fs_text: "holds_text sample_fs p (''1'' @ [newline])"
  by (simp add: holds_text_def sample_fs_def)

lemma sample_fs_leftover: "leftover sample_fs n w = []"
proof -
  have "fst (local_buffer sample_fs 1024 w) = replicate 1024 NUL"
    by (simp add: local_buffer_def ask_def sample_fs_def)
  then show ?thesis by (simp add: leftover_def c_string_def drop_replicate take_replicate takeWhile_eq_Nil_iff)
qed

lemma sample_fs_str: "\<exists>w'. attribute_read_str sample_fs path nm w = Ret (Some ''1'', w')"
  using read_str_line [OF sample_fs_memory sample_fs_text, where path = path and attr = nm and w = w] by (simp add: sample_fs_leftover)

lemma sample_fs_readable: "readable sample_fs"
  unfolding readable_def
proof (intro conjI allI impI)
  fix path nm w w'
  show "attribute_read_str sample_fs path nm w \<noteq> Fault"
    using sample_fs_str [of path nm w] by auto
  show "attribute_read_str sample_fs path ''function_name'' w \<noteq> Ret (None, w')"
    using sample_fs_str [of path "''function_name''" w] by auto
qed (simp_all add: sample_fs_memory, simp add: sample_fs_def)

section \<open>Properties\<close>



text \<open>C30: the attributes of a frame, printed as the kernel prints them, are read back: the index and
  the size whatever the buffers held before, for every 32-bit value, and the list of intervals when
  what its buffer held beyond the text has no newline before the first NUL.\<close>

theorem frame_attributes_read_back:
  fixes i wd ht :: u32 and vs :: "u32 list"
  defines "text \<equiv> lines_of_numbers (map unat vs)"
  assumes "memory k" "vs \<noteq> []" "length text \<le> 1023"
    and "holds_text k (path @ ''/bFrameIndex'') (decimal (unat i) @ [newline])"
    and "holds_text k (path @ ''/wWidth'') (decimal (unat wd) @ [newline])"
    and "holds_text k (path @ ''/wHeight'') (decimal (unat ht) @ [newline])"
    and "holds_text k (path @ ''/dwFrameInterval'') text"
    and "\<And>w. newline \<notin> set (leftover k (length text) w)"
  shows "\<exists>w'. configfs_parse_streaming_frame k path zero_frame w =
    Ret (0, \<lparr>cf_index = i, cf_width = wd, cf_height = ht, num_intervals = length vs, intervals = vs\<rparr>, w')"
proof -
  obtain w1 where 1: "attribute_read_uint k path ''bFrameIndex'' 0 w = ((0, i), w1)"
    using read_uint_value [OF assms(2), of path "''bFrameIndex''" i] assms(5) by auto
  obtain w2 where 2: "attribute_read_uint k path ''wWidth'' 0 w1 = ((0, wd), w2)"
    using read_uint_value [OF assms(2), of path "''wWidth''" wd] assms(6) by auto
  obtain w3 where 3: "attribute_read_uint k path ''wHeight'' 0 w2 = ((0, ht), w3)"
    using read_uint_value [OF assms(2), of path "''wHeight''" ht] assms(7) by auto
  obtain s where s: "text = s @ [newline]" "s = butlast text" "s \<noteq> []" "NUL \<notin> set s"
    using lines_of_numbers_end [of "map unat vs"] assms(3) unfolding text_def by auto
  have "\<exists>w4. attribute_read_str k path ''dwFrameInterval'' w3 = Ret (Some s, w4)"
  proof -
    have "length text = Suc (length s)" using s(1) by simp
    then show ?thesis
      using assms(2,4,8) assms(9) [of w3] s(1,3,4) by (intro read_str_line) simp_all
  qed
  then obtain w4 where 4: "attribute_read_str k path ''dwFrameInterval'' w3 = Ret (Some s, w4)" by blast
  obtain w5 where "parse_intervals k s \<lparr>cf_index = i, cf_width = wd, cf_height = ht, num_intervals = 0, intervals = []\<rparr> w4 =
      ((0, \<lparr>cf_index = i, cf_width = wd, cf_height = ht, num_intervals = length vs, intervals = vs\<rparr>), w5)"
    using parse_lines [OF assms(2,3), of "\<lparr>cf_index = i, cf_width = wd, cf_height = ht, num_intervals = 0, intervals = []\<rparr>" w4]
      s(2) unfolding text_def by auto
  then show ?thesis
    using 1 2 3 4 by (simp add: configfs_parse_streaming_frame_def read_unless_def zero_frame_def Let_def)
qed

theorem frame_attributes_read_back_witness:
  "\<exists>w'. configfs_parse_streaming_frame sample_fs ''/f'' zero_frame [] =
    Ret (0, \<lparr>cf_index = 1, cf_width = 1, cf_height = 1, num_intervals = 1, intervals = [1]\<rparr>, w')"
  using frame_attributes_read_back [where k = sample_fs and path = "''/f''" and i = 1 and wd = 1 and ht = 1 and vs = "[1]" and w = "[]",
      OF sample_fs_memory] sample_fs_text
  by (simp add: lines_of_numbers_def decimal_1 decimal_Suc_0 sample_fs_leftover)

text \<open>A text attribute is answered up to the last newline in its buffer, of which only the
  beginning is the file: what the buffer held before, up to its first NUL, counts as text. When
  there is no newline in either the code writes through a null pointer.\<close>

theorem text_attribute_outcome:
  fixes w :: calls
  assumes "memory k" "holds_text k (path @ ''/'' @ attr) t" "NUL \<notin> set t" "length t \<le> 1023"
  defines "buf \<equiv> t @ leftover k (length t) w"
  shows "if newline \<in> set buf
    then \<exists>u v w'. buf = u @ newline # v \<and> newline \<notin> set v \<and>
      attribute_read_str k path attr w = Ret (Some (if u = [] then buf else u), w')
    else attribute_read_str k path attr w = Fault"
proof -
  obtain w' where v: "attribute_read_str k path attr w =
      (case strrchr newline buf of None \<Rightarrow> Fault | Some p \<Rightarrow> Ret (Some (if p = 0 then buf else take p buf), w'))"
    using read_str_value [OF assms(1-4), of w] unfolding Let_def buf_def by blast
  show ?thesis
  proof (cases "strrchr newline buf")
    case None
    then have "newline \<notin> set buf" by (simp only: strrchr_None simp_thms)
    then show ?thesis using v None by simp
  next
    case (Some p)
    have p: "p < length buf" "buf ! p = newline" "newline \<notin> set (drop (Suc p) buf)"
      by (rule strrchr_SomeD [OF Some])+
    have b: "buf = take p buf @ newline # drop (Suc p) buf" using id_take_nth_drop [OF p(1)] p(2) by simp
    have n: "newline \<in> set buf" using p(1,2) by (metis nth_mem)
    have "take p buf = [] \<longleftrightarrow> p = 0" using p(1) by auto
    then have "attribute_read_str k path attr w = Ret (Some (if take p buf = [] then buf else take p buf), w')"
      using v Some by simp
    then show ?thesis using n b p(3) by (simp only: if_True) blast
  qed
qed

theorem text_attribute_outcome_witness:
  "\<exists>w'. attribute_read_str sample_fs ''/g'' ''UDC'' [] = Ret (Some ''1'', w')"
  using text_attribute_outcome [OF sample_fs_memory sample_fs_text, where path = "''/g''" and attr = "''UDC''" and w = "[]"]
  by (auto simp: sample_fs_leftover Cons_eq_append_conv split: if_splits)

text \<open>The loop over the intervals takes at least one character of the text in each turn: it
  makes at most as many allocations as there are characters, and the array is as long as its count
  says throughout.\<close>

theorem interval_loop_ends:
  "case parse_intervals k p f w of
     ((r, g), w') \<Rightarrow> length w' \<le> length w + length p \<and> r \<le> 0 \<and>
       length (intervals g) + num_intervals f = num_intervals g + length (intervals f)"
proof -
  obtain r g w' where p: "parse_intervals k p f w = ((r, g), w')" by (metis surj_pair)
  show ?thesis using parse_intervals_grow [OF p] by (simp add: p intervals_grow_def)
qed

text \<open>Releasing a configuration frees what it holds, each block once and the arrays from the inside
  out; it uses a null pointer exactly when an array is shorter than its count, which is how the
  parser leaves a configuration whose formats or frames could not be allocated.\<close>

theorem release_frees_each_once:
  "configfs_free_uvc_function k c w =
     (if (num_formats c = 0 \<or> num_formats c \<le> length (formats c)) \<and>
         list_all (\<lambda>i. num_frames (formats c ! i) \<le> length (frames (formats c ! i))) [0..<num_formats c]
      then Ret (w @ map Free (blocks c)) else Fault) \<and> distinct (blocks c)"
  using free_value [of k c w] distinct_blocks [of c] by (simp add: releasable_def list_all_upt)

end
