(* ===== verification/Uvc_App.thy ===== *)
theory Uvc_App
  imports Uvc_Facts Configfs_Facts
begin

text \<open>
  The main program of the UVC application, \<^verbatim>\<open>apps/uvc-app/uvc-app.cpp\<close>: it reads the configuration,
  opens a source and the UVC device, and runs the event loop until it is interrupted; when a
  request changed the mode of the sensor it replaces the source by a new one.

  The configuration is read before the first device is opened, so that the file system and the
  devices are answered by two environments. What \<^verbatim>\<open>init_tof_sdk\<close> returns is an argument.
\<close>

section \<open>The program\<close>

definition cap_device :: string where "cap_device = ''/dev/video1''"

text \<open>The state before any device is open; the devices in it are not used.\<close>

definition app_start :: gadget where
  "app_start = \<lparr>app_events = events_init, app_world = [], mode_changed = False, stop_app = False,
     source = new_device [], source_id = 0, sink = new_device [], fc = None,
     ud_probe = no_control, ud_commit = no_control, in_data = None, in_len = 0, out_data = None, out_len = 0,
     ud_control = 0, ud_fcc = 0, ud_width = 0, ud_height = 0, ud_maxsize = 0, server_resp_bytes_sent = 0,
     resp_len_sent = False, client_req_bytes_read = 0, blob_len_read = False\<rparr>"

lemma app_start_world [simp]: "app_world app_start = []"
  by (simp add: app_start_def)

definition set_source :: "v4l2_device \<Rightarrow> world \<Rightarrow> gadget \<Rightarrow> gadget" where
  "set_source dev w s = s\<lparr>app_world := w, source := dev, source_id := source_id s + 1\<rparr>"

text \<open>What the label \<^verbatim>\<open>done\<close> does; a stream and a source may be missing.\<close>

definition cleanup ::
  "os \<Rightarrow> fs \<Rightarrow> function_config \<Rightarrow> calls \<Rightarrow> bool \<Rightarrow> bool \<Rightarrow> int \<Rightarrow> gadget \<Rightarrow> (int \<times> gadget \<times> calls) mem" where
  "cleanup k f c fw has_stream has_source r s =
     (let s = s\<lparr>app_world := uvc_stream_delete k (if has_stream then Some (sink s) else None) (app_world s)\<rparr>;
          s = video_source_destroy (if has_source then Some (v4l2_source_ops k) else None) s;
          s = s\<lparr>app_events := events_cleanup (app_events s)\<rparr>
      in case configfs_free_uvc_function f c fw of Fault \<Rightarrow> Fault | Ret fw \<Rightarrow> Ret (r, s, fw))"

text \<open>The loop, which answers whether there still is a source.\<close>

partial_function (option) main_loop :: "os \<Rightarrow> gadget \<Rightarrow> (int \<times> bool \<times> gadget) mem option" where
  "main_loop k s =
     (if stop_app s then Some (Ret (0, True, s))
      else Option.bind (events_loop k (gadget_callback k (v4l2_source_ops k)) s) (\<lambda>r.
        case r of
          Fault \<Rightarrow> Some Fault
        | Ret (b, s) \<Rightarrow>
            if mode_changed s
            then let s = video_source_destroy (Some (v4l2_source_ops k)) s in
              Option.bind (v4l2_video_source_create k cap_device (app_world s)) (\<lambda>(src, w).
                case src of
                  None \<Rightarrow> Some (Ret (1, False, s\<lparr>app_world := w\<rparr>))
                | Some dev \<Rightarrow> main_loop k ((set_source dev w s)\<lparr>mode_changed := False\<rparr>))
            else main_loop k s))"

definition uvc_main :: "os \<Rightarrow> fs \<Rightarrow> int \<Rightarrow> (int \<times> gadget \<times> calls) mem option" where
  "uvc_main k f sdk =
     (if sdk \<noteq> 0 then Some (Ret (sdk, app_start, []))
      else case configfs_parse_uvc_function f None [] of
          Fault \<Rightarrow> Some Fault
        | Ret (None, fw) \<Rightarrow> Some (Ret (1, app_start, fw))
        | Ret (Some c, fw) \<Rightarrow>
            Option.bind (v4l2_video_source_create k cap_device (app_world app_start)) (\<lambda>(src, w).
              case src of
                None \<Rightarrow> Some (cleanup k f c fw False False 1 (app_start\<lparr>app_world := w\<rparr>))
              | Some dev \<Rightarrow>
                  (let s = set_source dev w app_start in
                   case fn_video c of
                     None \<Rightarrow> Some Fault
                   | Some video \<Rightarrow>
                       Option.bind (uvc_stream_new k video (app_world s)) (\<lambda>(stream, w).
                         case stream of
                           None \<Rightarrow> Some (cleanup k f c fw False True 1 (s\<lparr>app_world := w\<rparr>))
                         | Some uvc \<Rightarrow>
                             (case uvc_stream_init_uvc k c (s\<lparr>sink := uvc, app_world := w\<rparr>) of
                                Fault \<Rightarrow> Some Fault
                              | Ret s \<Rightarrow>
                                  Option.bind (main_loop k s) (\<lambda>r.
                                    case r of
                                      Fault \<Rightarrow> Some Fault
                                    | Ret (r, has_source, s) \<Rightarrow> Some (cleanup k f c fw True has_source r s)))))))"

section \<open>Opening\<close>

lemma enum_formats_buffers: "v4l2_enum_formats k d w = Some (r, e, w') \<Longrightarrow> dev_buffers e = dev_buffers d"
  by (auto simp: v4l2_enum_formats_def)

lemma open_wf: "v4l2_open k n w = Some (Some d, w') \<Longrightarrow> wf_device d"
  by (auto simp: v4l2_open_def sys_def Let_def new_device_def wf_device_def no_buffers_def wf_set_def
      dest!: enum_formats_buffers split: if_splits prod.splits)

lemma create_wf: "v4l2_video_source_create k n w = Some (Some d, w') \<Longrightarrow> wf_device d"
  by (auto simp: v4l2_video_source_create_def sys_def dest: open_wf split: if_splits)

lemma stream_new_wf: "uvc_stream_new k n w = Some (Some d, w') \<Longrightarrow> wf_device d"
  by (auto simp: uvc_stream_new_def uvc_open_def sys_def dest: open_wf split: if_splits)

section \<open>The application as a whole\<close>

text \<open>The states that the loop of the main program gets into.\<close>

inductive main_reach :: "os \<Rightarrow> gadget \<Rightarrow> gadget \<Rightarrow> bool" for k s where
  main_here: "main_reach k s s"
| main_app: "main_reach k s t \<Longrightarrow> app_reach k t u \<Longrightarrow> main_reach k s u"
| main_replace: "main_reach k s t \<Longrightarrow> mode_changed t \<Longrightarrow> main_reach k s ((set_source d w t)\<lparr>mode_changed := False\<rparr>)"

text \<open>A mode change while frames of the source are awaited.\<close>

definition source_watched :: "'m stream_app_scheme \<Rightarrow> bool" where
  "source_watched s \<longleftrightarrow> (\<exists>ev\<in>set (ev_list (app_events s)). \<exists>i. ev_callback ev = V4L2_SOURCE_VIDEO_PROCESS i)"

definition bad_state :: "os \<Rightarrow> gadget \<Rightarrow> bool" where
  "bad_state k t \<longleftrightarrow> good_gadget k t \<and> (stale t \<or> (mode_changed t \<and> source_watched t))"

lemma destroy_frame: "video_source_destroy (Some (v4l2_source_ops k)) s =
    s\<lparr>app_world := app_world s @ [Close (dev_fd (source s))]\<rparr>"
  by (simp add: video_source_destroy_def v4l2_source_ops_def v4l2_source_destroy_def v4l2_close_def sys_def)

lemma set_source_good: "good_gadget k s \<Longrightarrow> wf_device d \<Longrightarrow> good_gadget k ((set_source d w s)\<lparr>mode_changed := b\<rparr>)"
  by (simp add: set_source_def good_gadget_def devices_wf_def)

lemma main_reach_trans: "main_reach k t u \<Longrightarrow> main_reach k s t \<Longrightarrow> main_reach k s u"
  by (induction rule: main_reach.induct) (auto intro: main_reach.intros)

definition loop_result :: "os \<Rightarrow> bool \<Rightarrow> gadget \<Rightarrow> (int \<times> bool \<times> gadget) mem \<Rightarrow> bool" where
  "loop_result k b s r \<longleftrightarrow>
     (case r of
        Fault \<Rightarrow> b \<longrightarrow> \<not> has_memory k \<or> (\<exists>t. main_reach k s t \<and> bad_state k t)
      | Ret (q, has, t) \<Rightarrow> good_gadget k t \<and> main_reach k s t \<and> (if has then q = 0 \<and> stop_app t else q = 1))"

lemma loop_result_trans: "main_reach k s t \<Longrightarrow> loop_result k b t r \<Longrightarrow> loop_result k b s r"
  unfolding loop_result_def by (cases r) (auto intro: main_reach_trans)

lemma loop_result_bad: "main_reach k s t \<Longrightarrow> bad_state k t \<Longrightarrow> loop_result k b' s r \<Longrightarrow> loop_result k b s r"
  unfolding loop_result_def by (auto split: mem.splits)

text \<open>The source is replaced: the watched events stay live when none of them is for a source.\<close>

lemma replace_live: "\<not> source_watched s \<Longrightarrow> sources_live ((set_source d w s)\<lparr>mode_changed := b\<rparr>)"
  by (auto simp: source_watched_def sources_live_def set_source_def)

lemma main_loop_outcome:
  assumes "main_loop k s = Some r"
  shows "good_gadget k s \<longrightarrow> (\<forall>b. (b \<longrightarrow> sources_live s) \<longrightarrow> loop_result k b s r)"
proof (rule main_loop.raw_induct [where P = "\<lambda>k s r. good_gadget k s \<longrightarrow> (\<forall>b. (b \<longrightarrow> sources_live s) \<longrightarrow> loop_result k b s r)",
      OF _ assms], goal_cases)
  case (1 loop k s r)
  show ?case
  proof (intro impI allI)
    fix b assume g: "good_gadget k s" and l: "b \<longrightarrow> sources_live s"
    show "loop_result k b s r"
    proof (cases "stop_app s")
      case True
      then have "r = Ret (0, True, s)" using 1(2) by simp
      then show ?thesis using True g main_here by (simp add: loop_result_def)
    next
      case False
      then obtain q where q: "events_loop k (gadget_callback k (v4l2_source_ops k)) s = Some q"
        using 1(2) by (auto simp: bind_eq_Some_conv)
      note out = loop_outcome [of k s b, OF g _ q]
      show ?thesis
      proof (cases q)
        case Fault
        then have "r = Fault" using 1(2) False q by simp
        then show ?thesis
          using out l main_app [OF main_here] unfolding loop_result_def Fault bad_state_def by auto
      next
        case (Ret x)
        obtain f t where x: "x = (f, t)" by force
        have t: "good_gadget k t" "b \<longrightarrow> sources_live t" "app_reach k s t" using out l by (simp_all add: Ret x)
        have reach: "main_reach k s t" by (rule main_app [OF main_here t(3)])
        show ?thesis
        proof (cases "mode_changed t")
          case same: False
          then have "loop k t = Some r" using 1(2) False q by (simp add: Ret x)
          from 1(1) [OF this] t(1,2) loop_result_trans [OF reach] show ?thesis by blast
        next
          case True
          let ?w = "app_world t @ [Close (dev_fd (source t))]"
          obtain src w where c: "v4l2_video_source_create k cap_device ?w = Some (src, w)"
              "(case src of None \<Rightarrow> Some (Ret (1, False, t\<lparr>app_world := ?w, app_world := w\<rparr>))
                | Some dev \<Rightarrow> loop k ((set_source dev w (t\<lparr>app_world := ?w\<rparr>))\<lparr>mode_changed := False\<rparr>)) = Some r"
            using 1(2) False q True by (auto simp: Ret x destroy_frame Let_def bind_eq_Some_conv)
          show ?thesis
          proof (cases src)
            case None
            then have "r = Ret (1, False, t\<lparr>app_world := w\<rparr>)" using c(2) by simp
            then show ?thesis
              using t(1) main_app [OF reach reach_world [OF reach_here]] by (simp add: loop_result_def)
          next
            case (Some dev)
            let ?u = "(set_source dev w t)\<lparr>mode_changed := False\<rparr>"
            have u: "loop k ?u = Some r" using c(2) Some by (simp add: set_source_def)
            have "wf_device dev" by (rule create_wf [OF c(1) [unfolded Some]])
            then have gu: "good_gadget k ?u" by (rule set_source_good [OF t(1)])
            have ru: "main_reach k s ?u" by (rule main_replace [OF reach True])
            note all = 1(1) [OF u, THEN mp, OF gu, THEN spec]
            show ?thesis
            proof (cases "source_watched t")
              case watched: True
              have "loop_result k False ?u r" by (rule all [THEN mp]) simp
              then show ?thesis
                using loop_result_bad [OF reach, of False r b] loop_result_trans [OF ru] t(1) True watched
                by (simp add: bad_state_def)
            next
              case unwatched: False
              have "loop_result k b ?u r" by (rule all [THEN mp]) (use replace_live [OF unwatched] in blast)
              then show ?thesis by (rule loop_result_trans [OF ru])
            qed
          qed
        qed
      qed
    qed
  qed
qed

text \<open>The configuration that was read can be negotiated: its indices fit a byte, and no interval is zero.\<close>

definition negotiable :: "function_config \<Rightarrow> bool" where
  "negotiable c \<longleftrightarrow> num_formats c < 256 \<and> list_all (\<lambda>f. num_frames f < 256) (formats c) \<and> nonzero_intervals c"

lemma complete_wf: "complete_config c \<Longrightarrow> negotiable c \<Longrightarrow> wf_config c"
  by (auto simp: complete_config_def negotiable_def wf_config_def wf_format_def complete_format_def list_all_iff)

lemma complete_free: "complete_config c \<Longrightarrow> configfs_free_uvc_function f c fw = Ret (fw @ map Free (blocks c))"
proof -
  assume "complete_config c"
  then have "consistent_config c"
    using complete_consistent by (auto simp: complete_config_def consistent_config_def list_all_iff)
  then show ?thesis by (simp add: free_value consistent_releasable)
qed

lemma cleanup_value:
  assumes "complete_config c"
  shows "\<exists>t. cleanup k f c fw a b r s = Ret (r, t, fw @ map Free (blocks c)) \<and>
    app_world t = app_world s @ (if a then [Close (dev_fd (sink s))] else []) @ (if b then [Close (dev_fd (source s))] else []) \<and>
    ev_list (app_events t) = [] \<and> stop_app t = stop_app s"
  by (simp add: cleanup_def Let_def complete_free [OF assms] uvc_stream_delete_def uvc_close_def v4l2_close_def sys_def
      video_source_destroy_def v4l2_source_ops_def v4l2_source_destroy_def events_cleanup_def)

text \<open>The state in which the loop is entered.\<close>

lemma init_uvc_value:
  assumes "wf_config c" "nonzero_intervals c" "wf_device src" "wf_device uvc" "s = set_source src w app_start"
  shows "\<exists>t. uvc_stream_init_uvc k c (s\<lparr>sink := uvc, app_world := w'\<rparr>) = Ret t \<and> good_gadget k t \<and> sources_live t"
proof -
  let ?s = "uvc_set_config c (s\<lparr>sink := uvc, app_world := w'\<rparr>)"
  obtain p where p: "uvc_fill_streaming_control (fc ?s) (ud_maxsize ?s) 1 1 0 = Ret p"
    using fill_value [OF assms(1), of 0 1 1 0] by (auto simp: uvc_set_config_def)
  obtain w2 where w2: "w2 = app_world ?s @ map (Subscribe_Event (dev_fd (sink ?s)))
      [UVC_EVENT_SETUP, UVC_EVENT_DATA, UVC_EVENT_STREAMON, UVC_EVENT_STREAMOFF]" by simp
  obtain e w3 where e: "events_watch_fd k (dev_fd (sink ?s)) EVENT_EXCEPTION UVC_EVENTS_PROCESS (app_events ?s) w2 = (e, w3)"
    by force
  let ?t = "?s\<lparr>ud_probe := p, ud_commit := p, app_events := e, app_world := w3\<rparr>"
  have "uvc_stream_init_uvc k c (s\<lparr>sink := uvc, app_world := w'\<rparr>) = Ret ?t"
    using p e by (simp add: uvc_stream_init_uvc_def uvc_events_init_def Let_def w2)
  moreover have "good_gadget k ?t"
    using assms by (simp add: good_gadget_def devices_wf_def configured_def buffers_fit_def uvc_set_config_def set_source_def app_start_def)
  moreover have "sources_live ?s"
    by (simp add: assms(5) uvc_set_config_def set_source_def app_start_def sources_live_def events_init_def)
  then have "sources_live (?s\<lparr>app_events := e\<rparr>)"
    using watch_live [of ?s UVC_EVENTS_PROCESS k "dev_fd (sink ?s)" EVENT_EXCEPTION w2] e by simp
  then have "sources_live ?t" by (simp add: sources_live_def)
  ultimately show ?thesis by blast
qed

section \<open>Properties\<close>

text \<open>How the loop of the main program returns, in whatever state it was entered.\<close>

definition loop_exit :: "(int \<times> bool \<times> gadget) mem \<Rightarrow> bool" where
  "loop_exit r \<longleftrightarrow> (case r of Fault \<Rightarrow> True | Ret (q, has, t) \<Rightarrow> if has then q = 0 \<and> stop_app t else q = 1)"

lemma main_loop_return:
  assumes "main_loop k s = Some r"
  shows "loop_exit r"
proof (rule main_loop.raw_induct [where P = "\<lambda>k s r. loop_exit r", OF _ assms], goal_cases)
  case (1 loop k s r)
  show ?case
  proof (cases "stop_app s")
    case True then show ?thesis using 1(2) by (auto simp: loop_exit_def)
  next
    case False
    then obtain q where q: "events_loop k (gadget_callback k (v4l2_source_ops k)) s = Some q"
      using 1(2) by (auto simp: bind_eq_Some_conv)
    show ?thesis
    proof (cases q)
      case Fault then show ?thesis using 1(2) False q by (auto simp: loop_exit_def)
    next
      case (Ret x)
      then show ?thesis
        using 1(2) False q 1(1)
        by (cases x) (auto simp: Let_def bind_eq_Some_conv loop_exit_def [of "Ret (1, False, _)"] split: if_splits option.splits)
    qed
  qed
qed

text \<open>How the main program ends when it has the configuration \<open>c\<close>, after the calls \<open>fw\<close> that read it.\<close>

definition main_result :: "os \<Rightarrow> function_config \<Rightarrow> calls \<Rightarrow> (int \<times> gadget \<times> calls) mem \<Rightarrow> bool" where
  "main_result k c fw r \<longleftrightarrow> (case r of
      Fault \<Rightarrow> \<not> has_memory k \<or> \<not> negotiable c \<or>
        (\<exists>s t. good_gadget k s \<and> sources_live s \<and> main_reach k s t \<and> bad_state k t)
    | Ret (q, t, fw') \<Rightarrow> ev_list (app_events t) = [] \<and> (q = 0 \<longrightarrow> stop_app t) \<and> (q = 0 \<or> q = 1) \<and>
        fw' = fw @ map Free (blocks c))"

lemma cleanup_result:
  assumes "complete_config c" "q = 0 \<longrightarrow> stop_app s" "q = 0 \<or> q = 1"
  shows "main_result k c fw (cleanup k f c fw a b q s)"
  using cleanup_value [OF assms(1), of k f fw a b q s] assms(2,3) by (auto simp: main_result_def)

lemma main_looped:
  assumes c: "complete_config c" and wf: "wf_device dev" "wf_device uvc" and m: "main_loop k t = Some q"
    and t: "uvc_stream_init_uvc k c (set_source dev w app_start\<lparr>sink := uvc, app_world := w'\<rparr>) = Ret t"
  shows "main_result k c fw (case q of Fault \<Rightarrow> Fault
    | Ret (r, has_source, s) \<Rightarrow> cleanup k f c fw True has_source r s)"
proof (cases q)
  case Fault
  show ?thesis
  proof (cases "negotiable c")
    case True
    then have g: "good_gadget k t" "sources_live t"
      using init_uvc_value [of c dev uvc _ w k w'] complete_wf [OF c] wf t by (auto simp: negotiable_def)
    then have "loop_result k True t q" using main_loop_outcome [OF m] by blast
    then show ?thesis using g by (auto simp: Fault loop_result_def main_result_def)
  qed (simp add: Fault main_result_def)
next
  case (Ret y)
  obtain p has s where y: "y = (p, has, s)" by (metis surj_pair)
  have p: "if has then p = 0 \<and> stop_app s else p = 1" using main_loop_return [OF m] by (simp add: Ret y loop_exit_def)
  show ?thesis using cleanup_result [OF c] p by (simp add: Ret y split: if_splits)
qed

lemma main_configured:
  assumes parsed: "configfs_parse_uvc_function f None [] = Ret (Some c, fw)" and c: "complete_config c"
    and r: "uvc_main k f 0 = Some r"
  shows "main_result k c fw r"
proof -
  obtain video where video: "fn_video c = Some video" using c by (auto simp: complete_config_def)
  obtain src w where src: "v4l2_video_source_create k cap_device [] = Some (src, w)"
    using r by (auto simp: uvc_main_def parsed bind_eq_Some_conv)
  show ?thesis
  proof (cases src)
    case None
    then show ?thesis using r src by (auto simp: uvc_main_def parsed intro!: cleanup_result [OF c])
  next
    case dev: (Some dev)
    let ?s = "set_source dev w app_start"
    have wf: "wf_device dev" by (rule create_wf [OF src [unfolded dev]])
    have main: "uvc_main k f 0 = Option.bind (uvc_stream_new k video (app_world ?s)) (\<lambda>(stream, w).
        case stream of None \<Rightarrow> Some (cleanup k f c fw False True 1 (?s\<lparr>app_world := w\<rparr>))
        | Some uvc \<Rightarrow> (case uvc_stream_init_uvc k c (?s\<lparr>sink := uvc, app_world := w\<rparr>) of
            Fault \<Rightarrow> Some Fault
          | Ret s \<Rightarrow> Option.bind (main_loop k s) (\<lambda>r. case r of
                Fault \<Rightarrow> Some Fault | Ret (r, has_source, s) \<Rightarrow> Some (cleanup k f c fw True has_source r s))))"
      using src dev by (simp add: uvc_main_def parsed video Let_def)
    obtain stream w2 where new: "uvc_stream_new k video (app_world ?s) = Some (stream, w2)"
      using r unfolding main by (auto simp: bind_eq_Some_conv)
    show ?thesis
    proof (cases stream)
      case None
      then show ?thesis using r new unfolding main by (auto intro!: cleanup_result [OF c])
    next
      case uvc: (Some uvc)
      have wu: "wf_device uvc" by (rule stream_new_wf [OF new [unfolded uvc]])
      show ?thesis
      proof (cases "uvc_stream_init_uvc k c (?s\<lparr>sink := uvc, app_world := w2\<rparr>)")
        case Fault
        then have "\<not> negotiable c"
          using init_uvc_value [of c dev uvc ?s w k w2] complete_wf [OF c] wf wu by (auto simp: negotiable_def)
        then show ?thesis using r new uvc Fault unfolding main by (auto simp: main_result_def)
      next
        case t: (Ret t)
        obtain q where m: "main_loop k t = Some q" using r new uvc t unfolding main by (cases "main_loop k t") auto
        have "r = (case q of Fault \<Rightarrow> Fault | Ret (r, has_source, s) \<Rightarrow> cleanup k f c fw True has_source r s)"
          using r new uvc t m unfolding main by (cases q) auto
        then show ?thesis using main_looped [OF c wf wu m t] by simp
      qed
    qed
  qed
qed


text \<open>An environment in which devices cannot be opened.\<close>

definition no_device_os :: os where
  "no_device_os w c = (case c of Open n \<Rightarrow> ok_answer\<lparr>ret := -1, errno := 2\<rparr> | _ \<Rightarrow> ok_answer)"


lemma lookup_at: "distinct (map ev_addr (zs @ x # ys)) \<Longrightarrow> lookup_addr (ev_addr x) (zs @ x # ys) = Some x"
  by (induction zs) auto

lemma next_at:
  "distinct (map ev_addr (zs @ x # y # ys)) \<Longrightarrow> next_of (ev_addr x) (zs @ x # y # ys) = Some (ev_addr y)"
  by (induction zs) auto

lemma dispatch_reaches:
  assumes "ev_list (app_events s) = zs @ xs @ ev # ys" "distinct (map ev_addr (ev_list (app_events s)))"
    "\<forall>x\<in>set xs. \<not> event_ready sets x" "event_ready sets ev" "cb (ev_callback ev) s = Fault" "\<not> ev_done (app_events s)"
  shows "dispatch_from cb sets (Some (ev_addr (hd (xs @ [ev])))) s = Some Fault"
  using assms(1,3)
proof (induction xs arbitrary: zs)
  case Nil
  then have "lookup_addr (ev_addr ev) (ev_list (app_events s)) = Some ev" using assms(2) lookup_at [of zs ev ys] by simp
  then show ?case using assms(4,5) by (subst dispatch_from.simps) simp
next
  case (Cons x xs)
  obtain y us where y: "xs @ ev # ys = y # us" "ev_addr y = ev_addr (hd (xs @ [ev]))" by (cases xs) auto
  have l: "lookup_addr (ev_addr x) (ev_list (app_events s)) = Some x"
    "next_of (ev_addr x) (ev_list (app_events s)) = Some (ev_addr (hd (xs @ [ev])))"
    using Cons.prems(1) assms(2) lookup_at [of zs x "xs @ ev # ys"] next_at [of zs x y us] y by simp_all
  have "dispatch_from cb sets (Some (ev_addr (hd (xs @ [ev])))) s = Some Fault"
    using Cons.IH [of "zs @ [x]"] Cons.prems by simp
  then show ?case using l Cons.prems(2) assms(6) by (subst dispatch_from.simps) simp
qed

text \<open>When the source is replaced while frames of it are awaited, the event is still watched, and
  its callback is given the old source: the first time its descriptor is ready, with no event before
  it, the loop calls back freed memory.\<close>

theorem replaced_source_called_back:
  fixes s :: gadget and dev :: v4l2_device and w :: world and k :: os
  assumes "ev_list (app_events s) = xs @ ev # ys" "distinct (map ev_addr (ev_list (app_events s)))"
    "ev_callback ev = V4L2_SOURCE_VIDEO_PROCESS (source_id s)"
  defines "t \<equiv> (set_source dev w s)\<lparr>mode_changed := False\<rparr>"
  defines "a \<equiv> k w (Select (maxfd (app_events s) + 1) (rfds (app_events s)) (wfds (app_events s)) (efds (app_events s)))"
  assumes "0 \<le> ret a" "event_ready (a_ready a) ev" "\<forall>x\<in>set xs. \<not> event_ready (a_ready a) x"
  shows "events_loop k (gadget_callback k (v4l2_source_ops k)) t = Some Fault"
proof -
  let ?cb = "gadget_callback k (v4l2_source_ops k)"
  let ?c = "Select (maxfd (app_events s) + 1) (rfds (app_events s)) (wfds (app_events s)) (efds (app_events s))"
  let ?t = "t\<lparr>app_events := (app_events t)\<lparr>ev_done := False\<rparr>, app_world := w @ [?c]\<rparr>"
  have l: "ev_list (app_events ?t) = [] @ xs @ ev # ys" "distinct (map ev_addr (ev_list (app_events ?t)))" "\<not> ev_done (app_events ?t)"
    using assms(1,2) by (simp_all add: t_def set_source_def)
  have f: "?cb (ev_callback ev) ?t = Fault"
    using assms(3) by (simp add: gadget_callback_def t_def set_source_def)
  have "dispatch_from ?cb (a_ready a) (Some (ev_addr (hd (xs @ [ev])))) ?t = Some Fault"
    by (rule dispatch_reaches [where cb = ?cb, OF l(1,2) assms(8,7) f l(3)])
  then have d: "events_dispatch ?cb (a_ready a) ?t = Some Fault"
    using l(1) by (cases xs) (simp_all add: events_dispatch_def)
  have "app_world t = w" "app_events t = app_events s" by (simp_all add: t_def set_source_def)
  then show ?thesis
    using d assms(6) unfolding events_loop_def by (subst events_iterate.simps) (simp add: sys_def Let_def a_def)
qed

text \<open>A source that is awaited alone, and a kernel that finds it ready.\<close>

definition watching :: gadget where
  "watching = sample_gadget\<lparr>app_events := fst (events_watch_fd ok_os 3 EVENT_READ (V4L2_SOURCE_VIDEO_PROCESS 0) events_init [])\<rparr>"

definition ready_os :: os where
  "ready_os w c = ok_answer\<lparr>a_ready := ({3}, {}, {})\<rparr>"

theorem replaced_source_called_back_witness:
  "events_loop ready_os (gadget_callback ready_os (v4l2_source_ops ready_os))
     ((set_source sample_dev [] watching)\<lparr>mode_changed := False\<rparr>) = Some Fault"
proof -
  let ?ev = "\<lparr>ev_addr = 0, ev_fd = 3, ev_type = EVENT_READ, ev_callback = V4L2_SOURCE_VIDEO_PROCESS 0\<rparr>"
  have e: "ev_list (app_events watching) = [] @ ?ev # []"
    by (simp add: watching_def events_watch_fd_def sys_def Let_def ok_os_def ok_answer_def add_fd_def events_init_def)
  have d: "distinct (map ev_addr (ev_list (app_events watching)))" by (simp add: e)
  have i: "ev_callback ?ev = V4L2_SOURCE_VIDEO_PROCESS (source_id watching)"
    by (simp add: watching_def sample_gadget_def)
  show ?thesis
    by (rule replaced_source_called_back [OF e d i]) (simp_all add: ready_os_def ok_answer_def event_ready_def)
qed

end
