(* ===== verification/Storage.thy ===== *)
theory Storage
  imports Prelude
begin

text \<open>
  The storage of a camera module: the interface \<^verbatim>\<open>sdk/include/aditof/storage_interface.h\<close>, the
  contract its clients rely on, and the EEPROM behind a device file,
  \<^verbatim>\<open>sdk/src/connections/target/eeprom.cpp\<close>, which keeps it.
\<close>

section \<open>The interface\<close>

datatype status = OK | BUSY | UNREACHABLE | INVALID_ARGUMENT | UNAVAILABLE | GENERIC_ERROR

text \<open>
  Reading is given whether there is a place to read to, and answers the bytes that arrive there;
  writing is given the bytes, \<open>None\<close> for a null pointer.
\<close>

record 'd storage_interface =
  st_read :: "nat \<Rightarrow> bool \<Rightarrow> nat \<Rightarrow> 'd \<Rightarrow> status \<times> u8 list"
  st_write :: "nat \<Rightarrow> u8 list option \<Rightarrow> 'd \<Rightarrow> status \<times> 'd"
  st_getCapacity :: "'d \<Rightarrow> status \<times> nat"

text \<open>
  What a client may rely on while the device is good: it has a capacity, a read within the
  capacity gives as many bytes as were asked for, and what is written within it is what is read
  there afterwards.
\<close>

locale storage =
  fixes ops :: "'d storage_interface"
    and good :: "'d \<Rightarrow> bool"
    and holds :: "'d \<Rightarrow> nat \<Rightarrow> u8 list \<Rightarrow> bool"
  assumes capacity_known: "good d \<Longrightarrow> fst (st_getCapacity ops d) = OK"
    and write_holds: "good d \<Longrightarrow> a + length bs \<le> snd (st_getCapacity ops d) \<Longrightarrow> st_write ops a (Some bs) d = (r, d') \<Longrightarrow>
      r = OK \<and> good d' \<and> st_getCapacity ops d' = st_getCapacity ops d \<and> holds d' a bs"
    and read_held: "good d \<Longrightarrow> holds d a (xs @ ys @ zs) \<Longrightarrow> st_read ops (a + length xs) True (length ys) d = (OK, ys)"
    and read_length: "good d \<Longrightarrow> st_read ops a True n d = (OK, bs) \<Longrightarrow> length bs = n"
begin

lemma write_read:
  assumes "good d" "a + length (xs @ ys @ zs) \<le> snd (st_getCapacity ops d)" "st_write ops a (Some (xs @ ys @ zs)) d = (r, d')"
  shows "st_read ops (a + length xs) True (length ys) d' = (OK, ys)"
  using write_holds [OF assms] read_held by blast

end

section \<open>The EEPROM\<close>

text \<open>
  The EEPROM is a file of fixed size: the bytes of the medium, whether the file is open, and the
  length found when it was opened.
\<close>

record eeprom =
  ee_fd :: bool
  ee_length :: nat
  ee_medium :: "u8 list"
  ee_name :: string

text \<open>What opening answers: whether the file opens, whether its end can be told, and whether the
  medium is emptied by the mode \<^verbatim>\<open>w+\<close>, as regular files are.\<close>

record file_answers =
  fo_opens :: bool
  fo_tells :: bool
  fo_truncates :: bool

definition Eeprom_open :: "file_answers \<Rightarrow> eeprom \<Rightarrow> status \<times> eeprom" where
  "Eeprom_open a e =
     (if \<not> fo_opens a then (GENERIC_ERROR, e\<lparr>ee_fd := False\<rparr>)
      else let e = e\<lparr>ee_fd := True, ee_medium := (if fo_truncates a then [] else ee_medium e)\<rparr> in
        if \<not> fo_tells a then (GENERIC_ERROR, e)
        else (OK, e\<lparr>ee_length := length (ee_medium e)\<rparr>))"

definition Eeprom_read :: "nat \<Rightarrow> bool \<Rightarrow> nat \<Rightarrow> eeprom \<Rightarrow> status \<times> u8 list" where
  "Eeprom_read address data bytesCount e =
     (if \<not> ee_fd e then (GENERIC_ERROR, [])
      else if \<not> data then (INVALID_ARGUMENT, [])
      else let got = take bytesCount (drop address (ee_medium e)) in
        if length got < bytesCount then (GENERIC_ERROR, got) else (OK, got))"

definition Eeprom_write :: "nat \<Rightarrow> u8 list option \<Rightarrow> eeprom \<Rightarrow> status \<times> eeprom" where
  "Eeprom_write address data e =
     (if \<not> ee_fd e then (GENERIC_ERROR, e)
      else case data of
          None \<Rightarrow> (INVALID_ARGUMENT, e)
        | Some bs \<Rightarrow>
            (let n = min (length bs) (length (ee_medium e) - address);
                 e' = e\<lparr>ee_medium := take address (ee_medium e) @ take n bs @ drop (address + n) (ee_medium e)\<rparr>
             in if n < length bs then (GENERIC_ERROR, e') else (OK, e')))"

definition Eeprom_getCapacity :: "eeprom \<Rightarrow> status \<times> nat" where
  "Eeprom_getCapacity e = (if ee_fd e then (OK, ee_length e) else (UNREACHABLE, 0))"

definition Eeprom_close :: "eeprom \<Rightarrow> status \<times> eeprom" where
  "Eeprom_close e = (OK, if ee_fd e then e\<lparr>ee_fd := False\<rparr> else e)"

definition Eeprom_getName :: "eeprom \<Rightarrow> status \<times> string" where
  "Eeprom_getName e = (OK, ee_name e)"

definition eeprom_ops :: "eeprom storage_interface" where
  "eeprom_ops = \<lparr>st_read = Eeprom_read, st_write = Eeprom_write, st_getCapacity = Eeprom_getCapacity\<rparr>"

text \<open>An open EEPROM whose length is that of its medium.\<close>

definition eeprom_ready :: "eeprom \<Rightarrow> bool" where
  "eeprom_ready e \<longleftrightarrow> ee_fd e \<and> ee_length e = length (ee_medium e)"

definition eeprom_holds :: "eeprom \<Rightarrow> nat \<Rightarrow> u8 list \<Rightarrow> bool" where
  "eeprom_holds e a bs \<longleftrightarrow> a + length bs \<le> length (ee_medium e) \<and> take (length bs) (drop a (ee_medium e)) = bs"

lemma open_ready: "Eeprom_open a e = (OK, e') \<Longrightarrow> eeprom_ready e'"
  by (auto simp: Eeprom_open_def eeprom_ready_def Let_def split: if_splits)

lemma eeprom_write_in_range:
  assumes "ee_fd e" "a + length bs \<le> length (ee_medium e)"
  shows "Eeprom_write a (Some bs) e = (OK, e\<lparr>ee_medium := take a (ee_medium e) @ bs @ drop (a + length bs) (ee_medium e)\<rparr>)"
  using assms by (simp add: Eeprom_write_def min_absorb1)

lemma holds_middle:
  assumes "eeprom_holds e a (xs @ ys @ zs)"
  shows "a + length xs + length ys \<le> length (ee_medium e)" "take (length ys) (drop (a + length xs) (ee_medium e)) = ys"
proof -
  let ?m = "take (length xs + (length ys + length zs)) (drop a (ee_medium e))"
  have m: "?m = xs @ ys @ zs" using assms by (simp add: eeprom_holds_def)
  have "take (length ys) (drop (length xs) ?m) = ys" by (subst m) simp
  then show "take (length ys) (drop (a + length xs) (ee_medium e)) = ys"
    by (simp add: drop_take take_take min_absorb1 add.commute)
  show "a + length xs + length ys \<le> length (ee_medium e)" using assms by (simp add: eeprom_holds_def)
qed

interpretation eeprom: storage eeprom_ops eeprom_ready eeprom_holds
proof unfold_locales
  fix d :: eeprom and a bs r d'
  assume g: "eeprom_ready d" and c: "a + length bs \<le> snd (st_getCapacity eeprom_ops d)"
    and w: "st_write eeprom_ops a (Some bs) d = (r, d')"
  have l: "ee_fd d" "a + length bs \<le> length (ee_medium d)"
    using g c by (simp_all add: eeprom_ready_def eeprom_ops_def Eeprom_getCapacity_def)
  show "r = OK \<and> eeprom_ready d' \<and> st_getCapacity eeprom_ops d' = st_getCapacity eeprom_ops d \<and> eeprom_holds d' a bs"
    using w g l eeprom_write_in_range [OF l]
    by (auto simp: eeprom_ops_def eeprom_ready_def Eeprom_getCapacity_def eeprom_holds_def)
next
  fix d :: eeprom and a xs ys zs
  assume "eeprom_ready d" "eeprom_holds d a (xs @ ys @ zs)"
  then show "st_read eeprom_ops (a + length xs) True (length ys) d = (OK, ys)"
    using holds_middle [of d a xs ys zs] by (auto simp: eeprom_ops_def eeprom_ready_def Eeprom_read_def Let_def min_def)
qed (auto simp: eeprom_ops_def Eeprom_getCapacity_def eeprom_ready_def Eeprom_read_def Let_def split: if_splits)

end
