(* ===== verification/Module_Memory.thy ===== *)
theory Module_Memory
  imports Storage Bytes Crc Ccb
begin

text \<open>
  The flash image of a camera module, \<^verbatim>\<open>sdk/src/cameras/itof-camera/module_memory.cpp\<close>: a chain of
  chunks with CRCs that holds the calibration (CCB) and the configuration (CFG) of the module.
  Writing builds the image from two files; reading follows the chain and leaves each part in a
  temporary file, with a JSON file that names them.

  The storage is an interface, its state a part of the state. The host's file system is the
  sequence of the files written and removed; whether a temporary file can be had, and memory, is
  answered by the environment from that sequence. Reading through a null pointer or outside of a
  buffer is \<open>Fault\<close>; following a chain that does not end is \<open>None\<close>.
\<close>

section \<open>Chunks\<close>

abbreviation CHUNK_ID_ANALOG_DEVICES :: u8 where "CHUNK_ID_ANALOG_DEVICES \<equiv> 0xAD"
abbreviation CHUNK_TYPE_CCB :: u8 where "CHUNK_TYPE_CCB \<equiv> 1"
abbreviation CHUNK_TYPE_CFG :: u8 where "CHUNK_TYPE_CFG \<equiv> 2"
abbreviation CHUNK_TYPE_CAP_STRUCTURE_HEADER :: u8 where "CHUNK_TYPE_CAP_STRUCTURE_HEADER \<equiv> 0x50"
abbreviation CHUNK_TYPE_DEBUG_INFO_HEADER :: u8 where "CHUNK_TYPE_DEBUG_INFO_HEADER \<equiv> 0x51"
abbreviation CHUNK_TYPE_INIT_FIRMWARE_HEADER :: u8 where "CHUNK_TYPE_INIT_FIRMWARE_HEADER \<equiv> 0x52"
abbreviation CHUNK_TYPE_ADSD3500_FIRMWARE_FACTORY_HEADER :: u8 where "CHUNK_TYPE_ADSD3500_FIRMWARE_FACTORY_HEADER \<equiv> 0x53"
abbreviation CHUNK_TYPE_ADSD3500_FIRMWARE_CURRENT_HEADER :: u8 where "CHUNK_TYPE_ADSD3500_FIRMWARE_CURRENT_HEADER \<equiv> 0x54"
abbreviation CHUNK_TYPE_ADSD3500_FIRMWARE_UPGRADE_HEADER :: u8 where "CHUNK_TYPE_ADSD3500_FIRMWARE_UPGRADE_HEADER \<equiv> 0x55"
abbreviation CHUNK_TYPE_IMAGER_FIRMWARE_FACTORY_HEADER :: u8 where "CHUNK_TYPE_IMAGER_FIRMWARE_FACTORY_HEADER \<equiv> 0x56"
abbreviation CHUNK_TYPE_IMAGER_FIRMWARE_CURRENT_HEADER :: u8 where "CHUNK_TYPE_IMAGER_FIRMWARE_CURRENT_HEADER \<equiv> 0x57"
abbreviation CHUNK_TYPE_IMAGER_FIRMWARE_UPGRADE_HEADER :: u8 where "CHUNK_TYPE_IMAGER_FIRMWARE_UPGRADE_HEADER \<equiv> 0x58"
abbreviation CHUNK_TYPE_FILE_HEADER :: u8 where "CHUNK_TYPE_FILE_HEADER \<equiv> 0x3D"

record TOF_ChunkHeader_t =
  chunkid :: u8
  chunktype :: u8
  major :: u8
  minor :: u8
  headerSizeBytes :: u32
  chunkSizeBytes :: u32
  nextChunkAddress :: u32
  chunkHeaderCRC :: u32

abbreviation sizeof_chunk_header :: nat where "sizeof_chunk_header \<equiv> 20"

definition header_bytes :: "TOF_ChunkHeader_t \<Rightarrow> u8 list" where
  "header_bytes h =
     [chunkid h, chunktype h, major h, minor h] @ le32 (headerSizeBytes h) @ le32 (chunkSizeBytes h) @
     le32 (nextChunkAddress h) @ le32 (chunkHeaderCRC h)"

definition header_of :: "u8 list \<Rightarrow> TOF_ChunkHeader_t" where
  "header_of bs = \<lparr>chunkid = bs ! 0, chunktype = bs ! 1, major = bs ! 2, minor = bs ! 3,
     headerSizeBytes = get32 bs 4, chunkSizeBytes = get32 bs 8, nextChunkAddress = get32 bs 12, chunkHeaderCRC = get32 bs 16\<rparr>"

section \<open>State\<close>

datatype file_op = Write_File string "u8 list" | Remove_File string

record host_env =
  temp_file :: "file_op list \<Rightarrow> string \<Rightarrow> string option"
  has_room :: "file_op list \<Rightarrow> nat \<Rightarrow> bool"
  file_data :: "string \<Rightarrow> u8 list option"

record 'd module_memory =
  ccbFilename :: string
  cfgFilename :: string
  jsonFilename :: string
  badCFG :: bool
  badCCB :: bool
  isBadChunk :: bool
  m_serialNumber :: string
  m_eeprom :: 'd
  host :: "file_op list"

record TOF_ModuleFiles_t =
  jsonFile :: string
  ccbFile :: string
  cfgFile :: string

definition ModuleMemory :: "'d \<Rightarrow> file_op list \<Rightarrow> 'd module_memory" where
  "ModuleMemory d h = \<lparr>ccbFilename = [], cfgFilename = [], jsonFilename = [], badCFG = False, badCCB = False,
     isBadChunk = False, m_serialNumber = [], m_eeprom = d, host = h\<rparr>"

section \<open>Temporary files\<close>

text \<open>
  Backslashes are doubled from left to right. After each the search goes on four characters
  further.
\<close>

fun find_backslash :: "string \<Rightarrow> nat option" where
  "find_backslash [] = None"
| "find_backslash (c # s) = (if c = CHR 0x5C then Some 0 else map_option Suc (find_backslash s))"

lemma find_backslash_less: "find_backslash s = Some j \<Longrightarrow> j < length s"
  by (induction s arbitrary: j) (auto split: if_splits)

function escape_from :: "string \<Rightarrow> string" where
  "escape_from s =
     (case find_backslash s of
        None \<Rightarrow> s
      | Some j \<Rightarrow>
          (let t = take j s @ CHR 0x5C # drop j s in
           if length t < j + 4 then t else take (j + 4) t @ escape_from (drop (j + 4) t)))"
  by pat_completeness auto

termination
  by (relation "measure length") (auto dest: find_backslash_less)

declare escape_from.simps [simp del]

definition escapePathBackslash :: "string \<Rightarrow> string" where
  "escapePathBackslash path = escape_from path"

definition bytes_of :: "string \<Rightarrow> u8 list" where
  "bytes_of s = map (\<lambda>c. word_of_nat (of_char c)) s"

definition string_of :: "u8 list \<Rightarrow> string" where
  "string_of bs = map (\<lambda>b. char_of (unat b)) bs"

definition json_entry :: "string \<Rightarrow> string \<Rightarrow> string" where
  "json_entry key name = [CHR 0x22] @ key @ [CHR 0x22] @ '': '' @ [CHR 0x22] @ escapePathBackslash name @ [CHR 0x22]"

definition json_text :: "string \<Rightarrow> string \<Rightarrow> string" where
  "json_text ccb cfg =
     ''{'' @ [CHR 0x0A] @
     (if ccb \<noteq> [] \<and> cfg \<noteq> []
      then json_entry ''sensorFirmware'' cfg @ '','' @ [CHR 0x0A] @ json_entry ''CCB_Calibration'' ccb @ [CHR 0x0A] @ ''}'' @ [CHR 0x0A]
      else if ccb \<noteq> [] \<and> cfg = [] then json_entry ''CCB_Calibration'' ccb @ [CHR 0x0A] @ ''}'' @ [CHR 0x0A]
      else if ccb = [] \<and> cfg \<noteq> [] then json_entry ''sensorFirmware'' cfg @ [CHR 0x0A] @ ''}'' @ [CHR 0x0A]
      else [])"

definition writeTempJSON :: "host_env \<Rightarrow> string \<Rightarrow> string \<Rightarrow> 'd module_memory \<Rightarrow> string \<times> 'd module_memory" where
  "writeTempJSON k ccb cfg s =
     (case temp_file k (host s) ''adi_tof_cfgjson'' of
        None \<Rightarrow> ([], s)
      | Some name \<Rightarrow> (name, s\<lparr>host := host s @ [Write_File name (bytes_of (json_text ccb cfg))]\<rparr>))"

definition writeToTempFile :: "host_env \<Rightarrow> u8 list \<Rightarrow> nat \<Rightarrow> string \<Rightarrow> 'd module_memory \<Rightarrow> string \<times> 'd module_memory" where
  "writeToTempFile k dataBuffer len fileTag s =
     (case temp_file k (host s) (''adi_tof_'' @ fileTag) of
        None \<Rightarrow> ([], s)
      | Some name \<Rightarrow> (name, s\<lparr>host := host s @ [Write_File name (take len dataBuffer)]\<rparr>))"

text \<open>A string in a buffer, which has to end in it.\<close>

definition text_at :: "u8 list \<Rightarrow> nat \<Rightarrow> string mem" where
  "text_at bs i = (if 0 \<in> set (drop i bs) then Ret (string_of (takeWhile (\<lambda>b. b \<noteq> 0) (drop i bs))) else Fault)"

text \<open>The serial number is 160 bytes into the header block, which follows the file header.\<close>

definition writeTempCCB :: "host_env \<Rightarrow> u8 list \<Rightarrow> nat \<Rightarrow> 'd module_memory \<Rightarrow> (string \<times> 'd module_memory) mem" where
  "writeTempCCB k ccbFileData len s =
     (if len = 0 then Ret ([], s)
      else let ccb_data = \<lparr>ccb_p = ccbFileData, ccb_size = len\<rparr> in
        if ccb_read_header ccb_data = None then Ret ([], s)
        else case ccb_read_header_block ccb_data of
            None \<Rightarrow> Ret ([], s)
          | Some b \<Rightarrow>
              (case text_at ccbFileData (b + 160) of
                 Fault \<Rightarrow> Fault
               | Ret serial \<Rightarrow> Ret (writeToTempFile k ccbFileData len ''ccb'' (s\<lparr>m_serialNumber := serial\<rparr>))))"

text \<open>
  The least size is that of \<^verbatim>\<open>ccb_data_t\<close>, 16 bytes, not that of the header that is read, 24 bytes.
\<close>

definition writeTempCFG :: "host_env \<Rightarrow> u8 list \<Rightarrow> nat \<Rightarrow> 'd module_memory \<Rightarrow> (string \<times> 'd module_memory) mem" where
  "writeTempCFG k cfgFileData len s =
     (if len < 16 then Ret ([], s)
      else case text_at cfgFileData 0 of
          Fault \<Rightarrow> Fault
        | Ret fileSignature \<Rightarrow>
            if fileSignature \<noteq> ''CFG'' then Ret ([], s)
            else if length cfgFileData < 24 then Fault
            else Ret (writeToTempFile k cfgFileData len ''cfg'' s))"

section \<open>Reading\<close>

text \<open>The CRC of a header is over all but its last four bytes, in either bit order.\<close>

definition verifyChunkHeader :: "u8 list \<Rightarrow> bool" where
  "verifyChunkHeader bs =
     (let h = header_of bs; n = uint (headerSizeBytes h) - 4 in
      major h = 1 \<and> minor h = 0 \<and> headerSizeBytes h = 20 \<and>
      (crcFast bs n True = Some (chunkHeaderCRC h) \<or> crcFast bs n False = Some (chunkHeaderCRC h)))"

definition readChunkHeader :: "'d storage_interface \<Rightarrow> u8 list \<Rightarrow> nat \<Rightarrow> 'd \<Rightarrow> status \<times> u8 list" where
  "readChunkHeader ops buffer chunkDataAddr d =
     (case st_read ops chunkDataAddr True sizeof_chunk_header d of
        (status, got) \<Rightarrow>
          (let buffer = got @ drop (length got) buffer in
           if status \<noteq> OK then (GENERIC_ERROR, buffer)
           else if \<not> verifyChunkHeader buffer then (GENERIC_ERROR, buffer)
           else (OK, buffer)))"

definition processNVMFirmware :: "host_env \<Rightarrow> u8 \<Rightarrow> u8 list \<Rightarrow> nat \<Rightarrow> 'd module_memory \<Rightarrow> (status \<times> 'd module_memory) mem" where
  "processNVMFirmware k type pChunkData payloadSize s =
     (if type = CHUNK_TYPE_CCB
      then case writeTempCCB k pChunkData payloadSize s of
          Fault \<Rightarrow> Fault
        | Ret (name, s) \<Rightarrow> Ret (OK, s\<lparr>ccbFilename := name, badCCB := (badCCB s \<or> name = [])\<rparr>)
      else if type = CHUNK_TYPE_CFG \<or> type = CHUNK_TYPE_IMAGER_FIRMWARE_FACTORY_HEADER
      then case writeTempCFG k pChunkData payloadSize s of
          Fault \<Rightarrow> Fault
        | Ret (name, s) \<Rightarrow> Ret (OK, s\<lparr>cfgFilename := name, badCFG := (badCFG s \<or> name = [])\<rparr>)
      else if type \<in> set [CHUNK_TYPE_CAP_STRUCTURE_HEADER, CHUNK_TYPE_DEBUG_INFO_HEADER, CHUNK_TYPE_INIT_FIRMWARE_HEADER,
          CHUNK_TYPE_ADSD3500_FIRMWARE_FACTORY_HEADER, CHUNK_TYPE_ADSD3500_FIRMWARE_CURRENT_HEADER,
          CHUNK_TYPE_ADSD3500_FIRMWARE_UPGRADE_HEADER, CHUNK_TYPE_IMAGER_FIRMWARE_CURRENT_HEADER,
          CHUNK_TYPE_IMAGER_FIRMWARE_UPGRADE_HEADER, CHUNK_TYPE_FILE_HEADER]
      then Ret (OK, s)
      else Ret (GENERIC_ERROR, s))"

text \<open>
  The data of a chunk ends in its CRC, whose place is computed as a signed number: a chunk of
  less than four bytes has it before the buffer.
\<close>

definition check_chunk :: "host_env \<Rightarrow> u8 \<Rightarrow> u32 \<Rightarrow> u8 list \<Rightarrow> 'd module_memory \<Rightarrow> 'd module_memory mem" where
  "check_chunk k type sz data s =
     (let payloadSize = sint (sz - 4) in
      if payloadSize < 0 \<or> length data < nat payloadSize + 4 then Fault
      else let blockCRC = get32 data (nat payloadSize) in
        if crcFast data payloadSize True = Some blockCRC \<or> crcFast data payloadSize False = Some blockCRC
        then case processNVMFirmware k type data (nat payloadSize) s of
            Fault \<Rightarrow> Fault
          | Ret (r, s) \<Rightarrow> Ret (if r \<noteq> OK then s\<lparr>isBadChunk := True\<rparr> else s)
        else Ret (s\<lparr>isBadChunk := True\<rparr>))"

definition process_chunk :: "host_env \<Rightarrow> 'd storage_interface \<Rightarrow> TOF_ChunkHeader_t \<Rightarrow> u32 \<Rightarrow> 'd module_memory \<Rightarrow> 'd module_memory mem" where
  "process_chunk k ops h address s =
     (case st_read ops (unat address) True (unat (chunkSizeBytes h)) (m_eeprom s) of
        (status, data) \<Rightarrow>
          if status = OK
          then case check_chunk k (chunktype h) (chunkSizeBytes h) data s of
              Fault \<Rightarrow> Fault
            | Ret s \<Rightarrow>
                Ret (if isBadChunk s \<and> (chunktype h = CHUNK_TYPE_ADSD3500_FIRMWARE_FACTORY_HEADER \<or>
                        chunktype h = CHUNK_TYPE_ADSD3500_FIRMWARE_UPGRADE_HEADER)
                     then s\<lparr>isBadChunk := False\<rparr> else s)
          else Ret (s\<lparr>isBadChunk := True\<rparr>))"

partial_function (option) chunk_loop ::
  "host_env \<Rightarrow> 'd storage_interface \<Rightarrow> u8 list \<Rightarrow> 'd module_memory \<Rightarrow> 'd module_memory mem option" where
  "chunk_loop k ops buffer s =
     (if isBadChunk s \<or> nextChunkAddress (header_of buffer) = 0 then Some (Ret s)
      else let chunkDataAddr = nextChunkAddress (header_of buffer) in
        case readChunkHeader ops buffer (unat chunkDataAddr) (m_eeprom s) of
          (status, buffer) \<Rightarrow>
            (let h = header_of buffer in
             if status \<noteq> OK then Some (Ret (s\<lparr>isBadChunk := True\<rparr>))
             else if headerSizeBytes h \<noteq> 20 \<or> chunkSizeBytes h = 0 then Some (Ret (s\<lparr>isBadChunk := True\<rparr>))
             else if \<not> has_room k (host s) (unat (chunkSizeBytes h)) then Some (Ret s)
             else if chunktype h = CHUNK_TYPE_ADSD3500_FIRMWARE_CURRENT_HEADER \<or> chunktype h = CHUNK_TYPE_INIT_FIRMWARE_HEADER
             then chunk_loop k ops buffer s
             else case process_chunk k ops h (chunkDataAddr + headerSizeBytes h) s of
                 Fault \<Rightarrow> Some Fault
               | Ret s \<Rightarrow> chunk_loop k ops buffer s))"

definition remove_file :: "string \<Rightarrow> 'd module_memory \<Rightarrow> 'd module_memory" where
  "remove_file name s = s\<lparr>host := host s @ [Remove_File name]\<rparr>"

text \<open>The end of reading: the JSON file, what is removed again, and what is answered.\<close>

definition finish_read :: "host_env \<Rightarrow> TOF_ModuleFiles_t \<Rightarrow> 'd module_memory \<Rightarrow> status \<times> TOF_ModuleFiles_t \<times> 'd module_memory" where
  "finish_read k tempFiles s =
     (let s = (if \<not> badCCB s \<or> \<not> badCFG s
               then case writeTempJSON k (ccbFilename s) (cfgFilename s) s of (name, s) \<Rightarrow> s\<lparr>jsonFilename := name\<rparr>
               else s);
          failed = (isBadChunk s \<or> jsonFilename s = []) in
      if failed \<and> badCCB s \<and> badCFG s then (GENERIC_ERROR, tempFiles, remove_file (cfgFilename s) (remove_file (ccbFilename s) s))
      else if failed \<and> \<not> badCFG s \<and> \<not> badCCB s
      then (GENERIC_ERROR, tempFiles, remove_file (cfgFilename s) (remove_file (ccbFilename s) s))
      else let s = (if \<not> failed then s else if badCFG s then remove_file (cfgFilename s) s else remove_file (ccbFilename s) s)
        in (OK, \<lparr>jsonFile = jsonFilename s, ccbFile = ccbFilename s, cfgFile = cfgFilename s\<rparr>, s))"

definition readModuleData ::
  "host_env \<Rightarrow> 'd storage_interface \<Rightarrow> TOF_ModuleFiles_t \<Rightarrow> 'd module_memory \<Rightarrow> (status \<times> TOF_ModuleFiles_t \<times> 'd module_memory) mem option" where
  "readModuleData k ops tempFiles s =
     (case readChunkHeader ops (replicate sizeof_chunk_header 0) 0 (m_eeprom s) of
        (status, buffer) \<Rightarrow>
          if status \<noteq> OK \<or> chunktype (header_of buffer) \<noteq> CHUNK_TYPE_FILE_HEADER \<or> nextChunkAddress (header_of buffer) = 0
          then Some (Ret (GENERIC_ERROR, tempFiles, s))
          else case chunk_loop k ops buffer s of
              None \<Rightarrow> None
            | Some Fault \<Rightarrow> Some Fault
            | Some (Ret s) \<Rightarrow> Some (Ret (finish_read k tempFiles s)))"

text \<open>Modules with nothing but the calibration, one sector in.\<close>

definition legacy_serial :: "u8 list \<Rightarrow> nat \<Rightarrow> string \<Rightarrow> string mem" where
  "legacy_serial data sz serial =
     (case ccb_read_header_block \<lparr>ccb_p = data, ccb_size = sz\<rparr> of
        None \<Rightarrow> Ret serial
      | Some b \<Rightarrow> text_at data (b + 160))"

definition readLegacyModuleCCB ::
  "host_env \<Rightarrow> 'd storage_interface \<Rightarrow> TOF_ModuleFiles_t \<Rightarrow> string \<Rightarrow> u8 list \<Rightarrow> 'd module_memory \<Rightarrow>
   (status \<times> TOF_ModuleFiles_t \<times> string \<times> 'd module_memory) mem" where
  "readLegacyModuleCCB k ops tempFiles ccbSerialNumber fresh s =
     (case st_read ops 4096 True sizeof_CAL_FILE_HEADER_V1 (m_eeprom s) of
        (status, got) \<Rightarrow>
          if status \<noteq> OK then Ret (GENERIC_ERROR, tempFiles, ccbSerialNumber, s)
          else if get16 got 0 \<noteq> 0x0303 \<or> get16 got 2 \<noteq> 0x0301 then Ret (GENERIC_ERROR, tempFiles, ccbSerialNumber, s)
          else let size = unat (get32 got 8) in
            if \<not> has_room k (host s) size then Ret (GENERIC_ERROR, tempFiles, ccbSerialNumber, s)
            else case st_read ops 4096 True size (m_eeprom s) of
                (status, got) \<Rightarrow>
                  (let data = got @ drop (length got) (take size (fresh @ replicate size 0)) in
                   case (if status = OK then writeTempCCB k data size s else Ret ([], s)) of
                     Fault \<Rightarrow> Fault
                   | Ret (name, s) \<Rightarrow>
                       (case (if name \<noteq> [] then (case writeTempJSON k name [] s of
                            (json, s) \<Rightarrow> (\<lparr>jsonFile = json, ccbFile = name, cfgFile = []\<rparr>, s)) else (tempFiles, s)) of
                          (tempFiles, s) \<Rightarrow>
                            (case legacy_serial data size ccbSerialNumber of
                               Fault \<Rightarrow> Fault
                             | Ret serial \<Rightarrow> Ret (status, tempFiles, serial, s)))))"

section \<open>Writing\<close>

definition header_crc :: "TOF_ChunkHeader_t \<Rightarrow> u32" where
  "header_crc h = (case crcFast (header_bytes h) 16 True of None \<Rightarrow> 0 | Some c \<Rightarrow> c)"

definition initChunckHeader :: "u8 \<Rightarrow> u32 \<Rightarrow> u32 \<Rightarrow> bool \<Rightarrow> TOF_ChunkHeader_t" where
  "initChunckHeader type address dataSize isLastChunk =
     (let size = (if dataSize = 0 then 0 else dataSize + 4);
          header = \<lparr>chunkid = CHUNK_ID_ANALOG_DEVICES, chunktype = type, major = 1, minor = 0,
            headerSizeBytes = 20, chunkSizeBytes = size,
            nextChunkAddress = (if isLastChunk then 0 else address + 20 + size), chunkHeaderCRC = 0\<rparr>
      in header\<lparr>chunkHeaderCRC := header_crc header\<rparr>)"

definition zero_header :: TOF_ChunkHeader_t where
  "zero_header = \<lparr>chunkid = 0, chunktype = 0, major = 0, minor = 0, headerSizeBytes = 0, chunkSizeBytes = 0,
     nextChunkAddress = 0, chunkHeaderCRC = 0\<rparr>"

text \<open>\<^verbatim>\<open>memcpy\<close> of the first bytes of an array to a place in another.\<close>

definition memcpy_at :: "u8 list \<Rightarrow> u32 \<Rightarrow> u8 list \<Rightarrow> u32 \<Rightarrow> u8 list mem" where
  "memcpy_at buf off src n =
     (if unat off + unat n \<le> length buf \<and> unat n \<le> length src
      then Ret (take (unat off) buf @ take (unat n) src @ drop (unat off + unat n) buf) else Fault)"

text \<open>A chunk: header, data and CRC, one after the other.\<close>

definition put_chunk :: "u8 list \<Rightarrow> u32 \<Rightarrow> TOF_ChunkHeader_t \<Rightarrow> u8 list \<Rightarrow> u32 \<Rightarrow> u32 \<Rightarrow> (u8 list \<times> u32) mem" where
  "put_chunk buf nextAddress header data sz crc =
     (case memcpy_at buf nextAddress (header_bytes header) (headerSizeBytes header) of
        Fault \<Rightarrow> Fault
      | Ret buf \<Rightarrow>
          (let nextAddress = nextAddress + headerSizeBytes header in
           case memcpy_at buf nextAddress data sz of
             Fault \<Rightarrow> Fault
           | Ret buf \<Rightarrow>
               (let nextAddress = nextAddress + sz in
                case memcpy_at buf nextAddress (le32 crc) 4 of Fault \<Rightarrow> Fault | Ret buf \<Rightarrow> Ret (buf, nextAddress + 4))))"

text \<open>The header and the CRC of a part; those of a missing one are zero.\<close>

definition part_header :: "u8 \<Rightarrow> u32 \<Rightarrow> u8 list option \<Rightarrow> u32 \<Rightarrow> bool \<Rightarrow> (TOF_ChunkHeader_t \<times> u32) mem" where
  "part_header type address data sz isLastChunk =
     (case data of
        None \<Rightarrow> Ret (zero_header, 0)
      | Some bs \<Rightarrow>
          if sz = 0 then Ret (zero_header, 0)
          else case crcFast bs (sint sz) True of
              None \<Rightarrow> Fault
            | Some c \<Rightarrow> Ret (initChunckHeader type address sz isLastChunk, c))"

definition put_part :: "u8 list \<Rightarrow> u32 \<Rightarrow> TOF_ChunkHeader_t \<Rightarrow> u8 list option \<Rightarrow> u32 \<Rightarrow> u32 \<Rightarrow> (u8 list \<times> u32) mem" where
  "put_part buf nextAddress header data sz crc =
     (case data of None \<Rightarrow> Ret (buf, nextAddress) | Some bs \<Rightarrow> put_chunk buf nextAddress header bs sz crc)"

text \<open>The image of the given size, from the headers and CRCs of the parts.\<close>

definition fill_image ::
  "u32 \<Rightarrow> TOF_ChunkHeader_t \<Rightarrow> TOF_ChunkHeader_t \<Rightarrow> u8 list option \<Rightarrow> u32 \<Rightarrow> u32 \<Rightarrow>
   TOF_ChunkHeader_t \<Rightarrow> u8 list option \<Rightarrow> u32 \<Rightarrow> u32 \<Rightarrow> u8 list mem" where
  "fill_image imageSize memoryHeader ccbHeader ccbData ccbSize ccbCRC cfgHeader cfgData cfgSize cfgCRC =
     (case memcpy_at (replicate (unat imageSize) 0) 0 (header_bytes memoryHeader) (headerSizeBytes memoryHeader) of
        Fault \<Rightarrow> Fault
      | Ret buf \<Rightarrow>
          (case put_part buf (nextChunkAddress memoryHeader) ccbHeader ccbData ccbSize ccbCRC of
             Fault \<Rightarrow> Fault
           | Ret (buf, nextAddress) \<Rightarrow>
               (case put_part buf nextAddress cfgHeader cfgData cfgSize cfgCRC of Fault \<Rightarrow> Fault | Ret (buf, _) \<Rightarrow> Ret buf)))"

text \<open>Whether the image arrived on the storage is not asked.\<close>

definition createModuleImage ::
  "host_env \<Rightarrow> 'd storage_interface \<Rightarrow> u8 list option \<Rightarrow> u32 \<Rightarrow> u8 list option \<Rightarrow> u32 \<Rightarrow> 'd module_memory \<Rightarrow>
   (status \<times> 'd module_memory) mem" where
  "createModuleImage k ops ccbData ccbSize cfgData cfgSize s =
     (if (ccbData = None \<and> cfgData = None) \<or> (ccbSize = 0 \<and> cfgSize = 0) then Ret (GENERIC_ERROR, s)
      else let memoryHeader = initChunckHeader CHUNK_TYPE_FILE_HEADER 0 0 False; nextAddress = nextChunkAddress memoryHeader in
        case part_header CHUNK_TYPE_CCB nextAddress ccbData ccbSize (cfgData = None) of
          Fault \<Rightarrow> Fault
        | Ret (ccbHeader, ccbCRC) \<Rightarrow>
            (let nextAddress = (if ccbData \<noteq> None \<and> ccbSize \<noteq> 0 then nextChunkAddress ccbHeader else nextAddress) in
             case part_header CHUNK_TYPE_CFG nextAddress cfgData cfgSize True of
               Fault \<Rightarrow> Fault
             | Ret (cfgHeader, cfgCRC) \<Rightarrow>
                 (let imageSize = headerSizeBytes memoryHeader + (headerSizeBytes ccbHeader + chunkSizeBytes ccbHeader) +
                        (headerSizeBytes cfgHeader + chunkSizeBytes cfgHeader);
                      (status, eepromCapacity) = st_getCapacity ops (m_eeprom s)
                  in if status \<noteq> OK then Ret (status, s)
                     else if unat imageSize > eepromCapacity then Ret (GENERIC_ERROR, s)
                     else if \<not> has_room k (host s) (unat imageSize) then Ret (GENERIC_ERROR, s)
                     else case fill_image imageSize memoryHeader ccbHeader ccbData ccbSize ccbCRC cfgHeader cfgData cfgSize cfgCRC of
                         Fault \<Rightarrow> Fault
                       | Ret buf \<Rightarrow> Ret (OK, s\<lparr>m_eeprom := snd (st_write ops 0 (Some buf) (m_eeprom s))\<rparr>))))"

text \<open>
  The contents of a file with its size. A file that cannot be read has no contents and size 0; when
  there is no memory for it the size stays.
\<close>

definition loadfileData :: "host_env \<Rightarrow> string \<Rightarrow> file_op list \<Rightarrow> u8 list option \<times> u32" where
  "loadfileData k filename h =
     (if filename = [] then (None, 0)
      else case file_data k filename of
          None \<Rightarrow> (None, 0)
        | Some bs \<Rightarrow>
            (let size = word_of_nat (length bs) :: u32 in
             if \<not> has_room k h (unat size) then (None, size)
             else if size = 0 then (None, 0)
             else (Some (take (unat size) bs), size)))"

definition writeModuleData ::
  "host_env \<Rightarrow> 'd storage_interface \<Rightarrow> string \<Rightarrow> string \<Rightarrow> 'd module_memory \<Rightarrow> (status \<times> 'd module_memory) mem" where
  "writeModuleData k ops ccbFileName cfgFileName s =
     (case loadfileData k ccbFileName (host s) of
        (ccbData, ccbSize) \<Rightarrow>
          (case loadfileData k cfgFileName (host s) of
             (cfgData, cfgSize) \<Rightarrow> createModuleImage k ops ccbData ccbSize cfgData cfgSize s))"

definition getSerialNumber :: "'d module_memory \<Rightarrow> status \<times> string" where
  "getSerialNumber s = (OK, m_serialNumber s)"

end
