(* ===== verification/Module_Facts.thy ===== *)
theory Module_Facts
  imports Module_Memory
begin

text \<open>
  What the flash image guarantees: what is written is what is read, over any storage that keeps
  its contract; when following the chain of chunks ends; and which chunks are read outside of
  their buffer.
\<close>

section \<open>Headers\<close>

lemma length_header_bytes [simp]: "length (header_bytes h) = 20"
  by (simp add: header_bytes_def)

lemma header_of_bytes: "header_of (header_bytes h @ zs) = h"
proof -
  define b where "b = header_bytes h @ zs"
  note ds = b_def header_bytes_def
  let ?r = "[chunkid h, chunktype h, major h, minor h]"
  have "b ! 0 = chunkid h" "b ! 1 = chunktype h" "b ! 2 = major h" "b ! 3 = minor h" by (simp_all add: ds)
  moreover have "get32 b 4 = headerSizeBytes h" using get32_at [of ?r 4] by (simp add: ds)
  moreover have "get32 b 8 = chunkSizeBytes h" using get32_at [of "?r @ le32 (headerSizeBytes h)" 8] by (simp add: ds)
  moreover have "get32 b 12 = nextChunkAddress h"
    using get32_at [of "?r @ le32 (headerSizeBytes h) @ le32 (chunkSizeBytes h)" 12] by (simp add: ds)
  moreover have "get32 b 16 = chunkHeaderCRC h"
    using get32_at [of "?r @ le32 (headerSizeBytes h) @ le32 (chunkSizeBytes h) @ le32 (nextChunkAddress h)" 16] by (simp add: ds)
  ultimately show ?thesis by (simp add: header_of_def b_def)
qed

lemma header_of_bytes_only [simp]: "header_of (header_bytes h) = h"
  using header_of_bytes [of h "[]"] by simp

text \<open>The CRC is over the first 16 bytes only.\<close>

lemma header_bytes_16: "take 16 (header_bytes (h\<lparr>chunkHeaderCRC := c\<rparr>)) = take 16 (header_bytes h)"
  by (simp add: header_bytes_def)

lemma crcFast_header: "crcFast (header_bytes h) 16 True = Some (header_crc h)"
  by (simp add: header_crc_def crcFast_value)

lemma header_crc_own: "header_crc (h\<lparr>chunkHeaderCRC := c\<rparr>) = header_crc h"
proof -
  have "crcFast (header_bytes (h\<lparr>chunkHeaderCRC := c\<rparr>)) 16 True = crcFast (header_bytes h) 16 True"
    by (simp add: crcFast_value header_bytes_16)
  then show ?thesis by (simp add: crcFast_header)
qed

text \<open>A header of the current version with its CRC is accepted.\<close>

lemma verify_sealed:
  assumes "major h = 1" "minor h = 0" "headerSizeBytes h = 20"
  shows "verifyChunkHeader (header_bytes (h\<lparr>chunkHeaderCRC := header_crc h\<rparr>))"
  using assms crcFast_header [of "h\<lparr>chunkHeaderCRC := header_crc h\<rparr>"] by (simp add: verifyChunkHeader_def Let_def header_crc_own)

lemma verify_init: "verifyChunkHeader (header_bytes (initChunckHeader type a n l))"
  unfolding initChunckHeader_def Let_def by (rule verify_sealed) simp_all

lemma init_fields [simp]:
  "chunktype (initChunckHeader type a n l) = type" "headerSizeBytes (initChunckHeader type a n l) = 20"
  "chunkSizeBytes (initChunckHeader type a n l) = (if n = 0 then 0 else n + 4)"
  "nextChunkAddress (initChunckHeader type a n l) = (if l then 0 else a + 20 + (if n = 0 then 0 else n + 4))"
  by (simp_all add: initChunckHeader_def Let_def)

section \<open>Images\<close>

definition data_crc :: "u8 list \<Rightarrow> u32" where
  "data_crc bs = (case crcFast bs (int (length bs)) True of None \<Rightarrow> 0 | Some c \<Rightarrow> c)"

lemma crcFast_data: "crcFast (bs @ zs) (int (length bs)) True = Some (data_crc bs)"
  by (simp add: data_crc_def crcFast_value)

definition part_init :: "nat \<Rightarrow> u8 \<Rightarrow> u8 list \<Rightarrow> bool \<Rightarrow> TOF_ChunkHeader_t" where
  "part_init a type bs l = initChunckHeader type (word_of_nat a) (word_of_nat (length bs)) l"

text \<open>The chain of the parts from an address on, and the whole image.\<close>

fun chain :: "nat \<Rightarrow> (u8 \<times> u8 list) list \<Rightarrow> u8 list" where
  "chain a [] = []"
| "chain a ((type, bs) # ps) =
     header_bytes (part_init a type bs (ps = [])) @ bs @ le32 (data_crc bs) @ chain (a + 24 + length bs) ps"

definition module_image :: "(u8 \<times> u8 list) list \<Rightarrow> u8 list" where
  "module_image ps = header_bytes (initChunckHeader CHUNK_TYPE_FILE_HEADER 0 0 False) @ chain 20 ps"

lemma length_chain: "length (chain a ps) = sum_list (map (\<lambda>(t, bs). 24 + length bs) ps)"
  by (induction ps arbitrary: a) auto

lemma unat_small: "n < 2 ^ 32 \<Longrightarrow> unat (word_of_nat n :: u32) = n"
  by (simp add: unsigned_of_nat take_bit_nat_eq_self)

lemma memcpy_next:
  assumes "length xs = unat off" "unat n \<le> length src" "unat n \<le> m"
  shows "memcpy_at (xs @ replicate m 0) off src n = Ret ((xs @ take (unat n) src) @ replicate (m - unat n) 0)"
  using assms by (simp add: memcpy_at_def)

text \<open>Putting a chunk extends what is already there.\<close>

lemma put_chunk_next:
  assumes "length xs = unat off" "headerSizeBytes h = 20" "unat n = length bs" "24 + length bs \<le> m"
    "length xs + m < 2 ^ 32"
  shows "put_chunk (xs @ replicate m 0) off h bs n c =
    Ret ((xs @ header_bytes h @ bs @ le32 c) @ replicate (m - (24 + length bs)) 0, off + 20 + n + 4)"
proof -
  have o1: "unat (off + 20) = length xs + 20"
    using assms by (simp add: unat_word_ariths)
  have o2: "unat (off + 20 + n) = length xs + 20 + length bs"
    using assms o1 by (simp add: unat_word_ariths)
  have 1: "memcpy_at (xs @ replicate m 0) off (header_bytes h) 20 = Ret ((xs @ header_bytes h) @ replicate (m - 20) 0)"
    using assms memcpy_next [of xs off 20 "header_bytes h" m] by simp
  have 2: "memcpy_at ((xs @ header_bytes h) @ replicate (m - 20) 0) (off + 20) bs n =
      Ret (((xs @ header_bytes h) @ bs) @ replicate (m - 20 - length bs) 0)"
    using assms o1 memcpy_next [of "xs @ header_bytes h" "off + 20" n bs "m - 20"] by simp
  have 3: "memcpy_at (((xs @ header_bytes h) @ bs) @ replicate (m - 20 - length bs) 0) (off + 20 + n) (le32 c) 4 =
      Ret ((((xs @ header_bytes h) @ bs) @ le32 c) @ replicate (m - 20 - length bs - 4) 0)"
    using assms o2 memcpy_next [of "(xs @ header_bytes h) @ bs" "off + 20 + n" 4 "le32 c" "m - 20 - length bs"] by simp
  have m: "m - 20 - length bs - 4 = m - (24 + length bs)" by simp
  show ?thesis
    using 1 2 3 assms(2) unfolding put_chunk_def Let_def by (simp add: m)
qed

section \<open>Writing\<close>

definition parts :: "u8 list option \<Rightarrow> u8 list option \<Rightarrow> (u8 \<times> u8 list) list" where
  "parts ccb cfg = (case ccb of None \<Rightarrow> [] | Some bs \<Rightarrow> [(CHUNK_TYPE_CCB, bs)]) @ (case cfg of None \<Rightarrow> [] | Some bs \<Rightarrow> [(CHUNK_TYPE_CFG, bs)])"

definition image_length :: "u8 list option \<Rightarrow> u8 list option \<Rightarrow> nat" where
  "image_length ccb cfg = 20 + (case ccb of None \<Rightarrow> 0 | Some bs \<Rightarrow> 24 + length bs) + (case cfg of None \<Rightarrow> 0 | Some bs \<Rightarrow> 24 + length bs)"

lemma length_module_image: "length (module_image (parts ccb cfg)) = image_length ccb cfg"
  by (simp add: module_image_def length_chain parts_def image_length_def split: option.split)

definition stated_size :: "u8 list option \<Rightarrow> u32" where
  "stated_size data = (case data of None \<Rightarrow> 0 | Some bs \<Rightarrow> word_of_nat (length bs))"

definition fits :: "nat \<Rightarrow> u8 list option \<Rightarrow> bool" where
  "fits a data \<longleftrightarrow> (case data of None \<Rightarrow> True | Some bs \<Rightarrow> bs \<noteq> [] \<and> a + 24 + length bs < 2 ^ 31)"

lemma sint_small:
  assumes "n < 2 ^ 31"
  shows "sint (word_of_nat n :: u32) = int n"
  using assms by (simp add: signed_of_nat signed_take_bit_int_eq_self)

lemma word_nonzero: "0 < n \<Longrightarrow> n < 2 ^ 32 \<Longrightarrow> (word_of_nat n :: u32) \<noteq> 0"
  by (simp add: word_of_nat_eq_0_iff nat_dvd_not_less)

lemma part_header_value:
  assumes "fits a (Some bs)"
  shows "part_header type (word_of_nat a) (Some bs) (stated_size (Some bs)) l = Ret (part_init a type bs l, data_crc bs)"
proof -
  have n: "0 < length bs" "length bs < 2 ^ 31" using assms by (auto simp: fits_def)
  have "crcFast bs (int (length bs)) True = Some (data_crc bs)" using crcFast_data [of bs "[]"] by simp
  then show ?thesis
    using n word_nonzero [of "length bs"] sint_small [OF n(2)] by (simp add: part_header_def stated_size_def part_init_def)
qed

lemma stated_zero: "fits a data \<Longrightarrow> stated_size data = 0 \<longleftrightarrow> data = None"
  using word_nonzero by (auto simp: stated_size_def fits_def split: option.splits)

text \<open>Putting a part that may be missing.\<close>

lemma put_part_value:
  assumes "length xs = a" "fits a data" "a + (case data of None \<Rightarrow> 0 | Some bs \<Rightarrow> 24 + length bs) + r < 2 ^ 31"
  shows "put_part (xs @ replicate ((case data of None \<Rightarrow> 0 | Some bs \<Rightarrow> 24 + length bs) + r) 0) (word_of_nat a)
      (case data of None \<Rightarrow> zero_header | Some bs \<Rightarrow> part_init a type bs l) data (stated_size data)
      (case data of None \<Rightarrow> 0 | Some bs \<Rightarrow> data_crc bs) =
    Ret ((xs @ (case data of None \<Rightarrow> [] | Some bs \<Rightarrow> header_bytes (part_init a type bs l) @ bs @ le32 (data_crc bs))) @ replicate r 0,
      word_of_nat (a + (case data of None \<Rightarrow> 0 | Some bs \<Rightarrow> 24 + length bs)))"
proof (cases data)
  case None then show ?thesis using assms(1) by (simp add: put_part_def)
next
  case (Some bs)
  have b: "a + 24 + length bs < 2 ^ 31" "a + 24 + length bs + r < 2 ^ 31" using assms(2,3) Some by (auto simp: fits_def)
  have u: "unat (word_of_nat a :: u32) = a" "unat (word_of_nat (length bs) :: u32) = length bs"
    using b(1) by (auto intro: unat_small)
  have w: "(word_of_nat a + 20 + word_of_nat (length bs) + 4 :: u32) = word_of_nat (a + (24 + length bs))"
    by simp
  show ?thesis
    using put_chunk_next [of xs "word_of_nat a" "part_init a type bs l" "word_of_nat (length bs)" bs "24 + length bs + r" "data_crc bs"]
      assms(1) u b w unfolding Some by (simp add: put_part_def stated_size_def part_init_def)
qed

lemma create_value:
  assumes "ccb \<noteq> None \<or> cfg \<noteq> None" "fits 20 ccb" "fits 0 cfg" "image_length ccb cfg < 2 ^ 31"
    and "st_getCapacity ops (m_eeprom s) = (OK, n)" "image_length ccb cfg \<le> n" "has_room k (host s) (image_length ccb cfg)"
  shows "createModuleImage k ops ccb (stated_size ccb) cfg (stated_size cfg) s =
    Ret (OK, s\<lparr>m_eeprom := snd (st_write ops 0 (Some (module_image (parts ccb cfg))) (m_eeprom s))\<rparr>)"
proof -
  let ?m = "initChunckHeader CHUNK_TYPE_FILE_HEADER 0 0 False"
  let ?la = "case ccb of None \<Rightarrow> 0 | Some bs \<Rightarrow> 24 + length bs" and ?lb = "case cfg of None \<Rightarrow> 0 | Some bs \<Rightarrow> 24 + length bs"
  let ?b = "20 + ?la"
  let ?ch = "case ccb of None \<Rightarrow> zero_header | Some bs \<Rightarrow> part_init 20 CHUNK_TYPE_CCB bs (cfg = None)"
  let ?fh = "case cfg of None \<Rightarrow> zero_header | Some bs \<Rightarrow> part_init ?b CHUNK_TYPE_CFG bs True"
  let ?cc = "case ccb of None \<Rightarrow> 0 | Some bs \<Rightarrow> data_crc bs" and ?fc = "case cfg of None \<Rightarrow> 0 | Some bs \<Rightarrow> data_crc bs"
  have len: "image_length ccb cfg = ?b + ?lb" by (simp add: image_length_def)
  have fit: "fits ?b cfg" using assms(3,4) unfolding len by (auto simp: fits_def split: option.splits)
  have 1: "part_header CHUNK_TYPE_CCB 20 ccb (stated_size ccb) (cfg = None) = Ret (?ch, ?cc)"
    using part_header_value [of 20 "the ccb" CHUNK_TYPE_CCB "cfg = None"] assms(2)
    by (cases ccb) (simp_all add: part_header_def)
  have a: "(if ccb \<noteq> None \<and> stated_size ccb \<noteq> 0 then nextChunkAddress ?ch else 20) = word_of_nat ?b" if "cfg \<noteq> None"
    using that assms(2) stated_zero [OF assms(2)] word_nonzero
    by (cases ccb) (auto simp: part_init_def fits_def stated_size_def)
  have 2: "part_header CHUNK_TYPE_CFG (if ccb \<noteq> None \<and> stated_size ccb \<noteq> 0 then nextChunkAddress ?ch else 20) cfg (stated_size cfg) True
      = Ret (?fh, ?fc)"
  proof (cases cfg)
    case None then show ?thesis by (simp add: part_header_def)
  next
    case (Some bs)
    then show ?thesis using a part_header_value [of ?b bs CHUNK_TYPE_CFG True] fit by simp
  qed
  have sz: "20 + (headerSizeBytes ?ch + chunkSizeBytes ?ch) + (headerSizeBytes ?fh + chunkSizeBytes ?fh) =
      (word_of_nat (image_length ccb cfg) :: u32)"
    using assms(2,3) word_nonzero
    by (auto simp: image_length_def zero_header_def part_init_def fits_def split: option.splits)
  have u: "unat (word_of_nat (image_length ccb cfg) :: u32) = image_length ccb cfg"
    using assms(4) by (intro unat_small) simp
  let ?x1 = "header_bytes ?m @ (case ccb of None \<Rightarrow> [] | Some bs \<Rightarrow> header_bytes (part_init 20 CHUNK_TYPE_CCB bs (cfg = None)) @ bs @ le32 (data_crc bs))"
  let ?x2 = "?x1 @ (case cfg of None \<Rightarrow> [] | Some bs \<Rightarrow> header_bytes (part_init ?b CHUNK_TYPE_CFG bs True) @ bs @ le32 (data_crc bs))"
  have f1: "memcpy_at (replicate (image_length ccb cfg) 0) 0 (header_bytes ?m) 20 = Ret (header_bytes ?m @ replicate (?la + ?lb) 0)"
    using memcpy_next [of "[]" 0 20 "header_bytes ?m" "image_length ccb cfg"] by (simp add: len)
  have f2: "put_part (header_bytes ?m @ replicate (?la + ?lb) 0) 20 ?ch ccb (stated_size ccb) ?cc = Ret (?x1 @ replicate ?lb 0, word_of_nat ?b)"
    using put_part_value [of "header_bytes ?m" 20 ccb ?lb CHUNK_TYPE_CCB "cfg = None"] assms(2,4) unfolding len by simp
  have f3: "put_part (?x1 @ replicate ?lb 0) (word_of_nat ?b) ?fh cfg (stated_size cfg) ?fc = Ret (?x2, word_of_nat (?b + ?lb))"
  proof -
    have "length ?x1 = ?b" by (simp split: option.split)
    then show ?thesis
      using put_part_value [of ?x1 ?b cfg 0 CHUNK_TYPE_CFG True] fit assms(4) unfolding len by simp
  qed
  have img: "?x2 = module_image (parts ccb cfg)"
    by (simp add: module_image_def parts_def split: option.split)
  have fill: "fill_image (word_of_nat (image_length ccb cfg)) ?m ?ch ccb (stated_size ccb) ?cc ?fh cfg (stated_size cfg) ?fc =
      Ret (module_image (parts ccb cfg))"
    unfolding fill_image_def u using f1 f2 f3 img by simp
  have nz: "\<not> (stated_size ccb = 0 \<and> stated_size cfg = 0)"
    using assms(1) stated_zero [OF assms(2)] stated_zero [OF assms(3)] by auto
  define ch fh cc fc where "ch = ?ch" and "fh = ?fh" and "cc = ?cc" and "fc = ?fc"
  note folds = ch_def [symmetric] fh_def [symmetric] cc_def [symmetric] fc_def [symmetric]
  have m: "nextChunkAddress ?m = 20" "headerSizeBytes ?m = 20" by simp_all
  show ?thesis
    using 1 2 sz u fill nz assms(1,5,6,7) unfolding folds createModuleImage_def Let_def m by simp
qed

section \<open>Reading\<close>

text \<open>The parts of an image processed one after the other.\<close>

fun process_all :: "host_env \<Rightarrow> (u8 \<times> u8 list) list \<Rightarrow> 'd module_memory \<Rightarrow> 'd module_memory mem" where
  "process_all k [] s = Ret s"
| "process_all k ((type, bs) # ps) s =
     (case processNVMFirmware k type (bs @ le32 (data_crc bs)) (length bs) s of
        Fault \<Rightarrow> Fault
      | Ret (r, s) \<Rightarrow> process_all k ps s)"

definition is_part :: "u8 \<times> u8 list \<Rightarrow> bool" where
  "is_part p \<longleftrightarrow> (fst p = CHUNK_TYPE_CCB \<or> fst p = CHUNK_TYPE_CFG) \<and> snd p \<noteq> []"

lemma temp_file_keeps:
  "writeToTempFile k bs n tag s = (name, t) \<Longrightarrow> m_eeprom t = m_eeprom s \<and> isBadChunk t = isBadChunk s"
  by (auto simp: writeToTempFile_def split: option.splits)

lemma part_processed:
  assumes "processNVMFirmware k t data n s = Ret (r, s')" "t = CHUNK_TYPE_CCB \<or> t = CHUNK_TYPE_CFG"
  shows "r = OK" "m_eeprom s' = m_eeprom s" "isBadChunk s' = isBadChunk s"
  using assms
  by (auto simp: processNVMFirmware_def writeTempCCB_def writeTempCFG_def Let_def dest!: temp_file_keeps
      split: mem.splits option.splits if_splits prod.splits)

lemma check_part:
  assumes "length bs < 2 ^ 31" "t = CHUNK_TYPE_CCB \<or> t = CHUNK_TYPE_CFG"
  shows "check_chunk k t (word_of_nat (length bs) + 4) (bs @ le32 (data_crc bs)) s =
    (case processNVMFirmware k t (bs @ le32 (data_crc bs)) (length bs) s of Fault \<Rightarrow> Fault | Ret (r, s) \<Rightarrow> Ret s)"
proof -
  have s: "sint (word_of_nat (length bs) + 4 - 4 :: u32) = int (length bs)" using sint_small [OF assms(1)] by simp
  have c: "get32 (bs @ le32 (data_crc bs)) (length bs) = data_crc bs" using get32_le32 [of bs _ "[]"] by simp
  show ?thesis
  proof (cases "processNVMFirmware k t (bs @ le32 (data_crc bs)) (length bs) s")
    case Fault
    then show ?thesis
      using crcFast_data [of bs "le32 (data_crc bs)"] unfolding check_chunk_def Let_def s by (simp add: c)
  next
    case (Ret x)
    then obtain s' where "processNVMFirmware k t (bs @ le32 (data_crc bs)) (length bs) s = Ret (OK, s')"
      using part_processed(1) [OF _ assms(2)] by (metis surj_pair)
    then show ?thesis
      using crcFast_data [of bs "le32 (data_crc bs)"] unfolding check_chunk_def Let_def s by (simp add: c)
  qed
qed

context storage
begin

lemma header_read:
  assumes "good d" "holds d 0 (xs @ header_bytes h @ zs)" "length buf = 20"
  shows "readChunkHeader ops buf (length xs) d = (if verifyChunkHeader (header_bytes h) then OK else GENERIC_ERROR, header_bytes h)"
  using read_held [OF assms(1), of 0 xs "header_bytes h" zs] assms(2,3) by (simp add: readChunkHeader_def Let_def)

lemma chunk_read:
  assumes "good d" "m_eeprom s = d" "holds d 0 (xs @ header_bytes h @ (bs @ le32 (data_crc bs)) @ zs)"
    "length xs + 24 + length bs < 2 ^ 31" "chunkSizeBytes h = word_of_nat (length bs) + 4"
    "chunktype h = CHUNK_TYPE_CCB \<or> chunktype h = CHUNK_TYPE_CFG" "\<not> isBadChunk s"
  shows "process_chunk k ops h (word_of_nat (length xs) + 20) s =
    (case processNVMFirmware k (chunktype h) (bs @ le32 (data_crc bs)) (length bs) s of Fault \<Rightarrow> Fault | Ret (r, s) \<Rightarrow> Ret s)"
proof -
  have a: "unat (word_of_nat (length xs) + 20 :: u32) = length xs + 20"
    using unat_small [of "length xs + 20"] assms(4) by (simp add: add.commute)
  have n: "unat (word_of_nat (length bs) + 4 :: u32) = length bs + 4"
    using unat_small [of "length bs + 4"] assms(4) by (simp add: add.commute)
  have r: "st_read ops (length xs + 20) True (length bs + 4) d = (OK, bs @ le32 (data_crc bs))"
    using read_held [OF assms(1), of 0 "xs @ header_bytes h" "bs @ le32 (data_crc bs)" zs] assms(3) by simp
  have l: "length bs < 2 ^ 31" using assms(4) by simp
  note check = check_part [OF l assms(6), of k s]
  show ?thesis
  proof (cases "processNVMFirmware k (chunktype h) (bs @ le32 (data_crc bs)) (length bs) s")
    case Fault then show ?thesis using check unfolding process_chunk_def assms(2,5) a n r by simp
  next
    case (Ret x)
    obtain q s' where x: "x = (q, s')" by fastforce
    have "isBadChunk s' = isBadChunk s" using part_processed(3) [OF _ assms(6)] Ret x by blast
    then show ?thesis using check Ret x assms(7) unfolding process_chunk_def assms(2,5) a n r by simp
  qed
qed

lemma chain_read:
  assumes "good d" "holds d 0 (xs @ chain (length xs) ps)" "length xs + length (chain (length xs) ps) < 2 ^ 31"
    "list_all is_part ps" "\<And>h n. has_room k h n" "m_eeprom s = d" "\<not> isBadChunk s" "length buf = 20" "0 < length xs"
    "nextChunkAddress (header_of buf) = (if ps = [] then 0 else word_of_nat (length xs))"
  shows "chunk_loop k ops buf s = Some (process_all k ps s)"
  using assms(2-4,6-10)
proof (induction ps arbitrary: xs buf s)
  case Nil then show ?case by (subst chunk_loop.simps) simp
next
  case (Cons p ps)
  obtain t bs where p: "p = (t, bs)" by fastforce
  have t: "t = CHUNK_TYPE_CCB \<or> t = CHUNK_TYPE_CFG" "bs \<noteq> []" using Cons.prems(3) by (simp_all add: p is_part_def)
  let ?h = "part_init (length xs) t bs (ps = [])" and ?c = "le32 (data_crc bs)"
  let ?ys = "xs @ header_bytes ?h @ bs @ ?c"
  have lb: "length xs + 24 + length bs < 2 ^ 31" using Cons.prems(2) by (simp add: p)
  have held: "holds d 0 (xs @ header_bytes ?h @ (bs @ ?c) @ chain (length ?ys) ps)"
    using Cons.prems(1) by (simp add: p algebra_simps)
  have nz: "(word_of_nat (length bs) :: u32) \<noteq> 0" "(word_of_nat (length xs) :: u32) \<noteq> 0"
    using word_nonzero [of "length bs"] word_nonzero [of "length xs"] t(2) lb Cons.prems(7) by auto
  have h: "chunktype ?h = t" "headerSizeBytes ?h = 20" "chunkSizeBytes ?h = word_of_nat (length bs) + 4"
    "nextChunkAddress ?h = (if ps = [] then 0 else word_of_nat (length ?ys))"
    using nz(1) by (simp_all add: part_init_def)
  have c0: "(word_of_nat (length bs) + 4 :: u32) \<noteq> 0"
    using word_nonzero [of "length bs + 4"] lb by (simp add: add.commute)
  have u: "unat (word_of_nat (length xs) :: u32) = length xs" using lb by (intro unat_small) simp
  have rd: "readChunkHeader ops buf (length xs) d = (OK, header_bytes ?h)"
    using header_read [OF assms(1) held Cons.prems(6)] verify_init by (simp add: part_init_def)
  let ?r = "processNVMFirmware k t (bs @ ?c) (length bs) s"
  have pc: "process_chunk k ops ?h (word_of_nat (length xs) + 20) s = (case ?r of Fault \<Rightarrow> Fault | Ret (r, s) \<Rightarrow> Ret s)"
    using chunk_read [OF assms(1) Cons.prems(4) held lb h(3)] t(1) Cons.prems(5) unfolding h(1) by blast
  have step: "chunk_loop k ops buf s = (case ?r of Fault \<Rightarrow> Some Fault | Ret (r, s) \<Rightarrow> chunk_loop k ops (header_bytes ?h) s)"
    using Cons.prems(4,5,8) rd pc t(1) c0 nz(2) h(1-3) u assms(5)
    by (subst chunk_loop.simps) (auto simp: Let_def split: mem.split)
  show ?case
  proof (cases ?r)
    case Fault then show ?thesis using step by (simp add: p)
  next
    case (Ret x)
    obtain r s' where x: "x = (r, s')" by fastforce
    note keeps = part_processed [OF Ret [unfolded x] t(1)]
    have "chunk_loop k ops (header_bytes ?h) s' = Some (process_all k ps s')"
    proof (rule Cons.IH [of ?ys])
      show "holds d 0 (?ys @ chain (length ?ys) ps)" using held by simp
      show "length ?ys + length (chain (length ?ys) ps) < 2 ^ 31" using Cons.prems(2) by (simp add: p length_chain)
    qed (use Cons.prems keeps h(4) in simp_all)
    then show ?thesis using step Ret x by (simp add: p)
  qed
qed

text \<open>Reading an image that the storage holds.\<close>

lemma image_read:
  assumes "good d" "holds d 0 (module_image ps)" "length (module_image ps) < 2 ^ 31" "ps \<noteq> []"
    "list_all is_part ps" "\<And>h n. has_room k h n" "m_eeprom s = d" "\<not> isBadChunk s"
  shows "readModuleData k ops fs s =
    (case process_all k ps s of Fault \<Rightarrow> Some Fault | Ret s \<Rightarrow> Some (Ret (finish_read k fs s)))"
proof -
  let ?h = "initChunckHeader CHUNK_TYPE_FILE_HEADER 0 0 False"
  have held: "holds d 0 ([] @ header_bytes ?h @ chain 20 ps)" using assms(2) by (simp add: module_image_def)
  have rd: "readChunkHeader ops (replicate 20 0) 0 d = (OK, header_bytes ?h)"
    using header_read [OF assms(1) held, of "replicate 20 0"] verify_init by simp
  have l: "chunk_loop k ops (header_bytes ?h) s = Some (process_all k ps s)"
    using chain_read [OF assms(1), of "header_bytes ?h" ps k s "header_bytes ?h"] assms held
    by (simp add: module_image_def)
  show ?thesis
    using rd l assms(7) by (simp add: readModuleData_def split: mem.split)
qed

end

section \<open>Contents\<close>

text \<open>A calibration with room for its headers and a serial number that ends, and a configuration
  with its signature.\<close>

definition valid_ccb :: "u8 list \<Rightarrow> bool" where
  "valid_ccb bs \<longleftrightarrow> 256 < length bs \<and> 0 \<in> set (drop 176 bs)"

definition valid_cfg :: "u8 list \<Rightarrow> bool" where
  "valid_cfg bs \<longleftrightarrow> 24 \<le> length bs \<and> take 4 bs = [0x43, 0x46, 0x47, 0]"

definition host_ready :: "host_env \<Rightarrow> bool" where
  "host_ready k \<longleftrightarrow> (\<forall>h tag. \<exists>name. temp_file k h tag = Some name \<and> name \<noteq> []) \<and> (\<forall>h n. has_room k h n)"

definition serial_of :: "u8 list \<Rightarrow> string" where
  "serial_of bs = string_of (takeWhile (\<lambda>b. b \<noteq> 0) (drop 176 bs))"

lemma process_ccb:
  assumes "valid_ccb bs" "temp_file k (host s) ''adi_tof_ccb'' = Some name" "name \<noteq> []"
  shows "processNVMFirmware k CHUNK_TYPE_CCB (bs @ zs) (length bs) s =
    Ret (OK, s\<lparr>m_serialNumber := serial_of bs, host := host s @ [Write_File name bs], ccbFilename := name\<rparr>)"
proof -
  have l: "256 < length bs" and z: "0 \<in> set (drop 176 bs)" using assms(1) by (simp_all add: valid_ccb_def)
  have t: "text_at (bs @ zs) 176 = Ret (serial_of bs)"
    using z l by (simp add: text_at_def serial_of_def takeWhile_append1)
  have "bs \<noteq> []" using l by auto
  then show ?thesis
    using l t assms(2,3)
    by (simp add: processNVMFirmware_def writeTempCCB_def ccb_read_header_def ccb_read_header_block_def writeToTempFile_def Let_def)
qed

lemma cfg_signature: "string_of [0x43, 0x46, 0x47] = ''CFG''"
proof -
  have "(char_of (67 :: nat) :: char) = CHR ''C''" "(char_of (70 :: nat) :: char) = CHR ''F''" "(char_of (71 :: nat) :: char) = CHR ''G''"
    by (simp_all add: char_of_def bit_iff_odd)
  then show ?thesis by (simp add: string_of_def)
qed

lemma process_cfg:
  assumes "valid_cfg bs" "temp_file k (host s) ''adi_tof_cfg'' = Some name" "name \<noteq> []"
  shows "processNVMFirmware k CHUNK_TYPE_CFG (bs @ zs) (length bs) s =
    Ret (OK, s\<lparr>host := host s @ [Write_File name bs], cfgFilename := name\<rparr>)"
proof -
  have l: "24 \<le> length bs" and c: "take 4 bs = [0x43, 0x46, 0x47, 0]" using assms(1) by (simp_all add: valid_cfg_def)
  obtain ys where bs: "bs = [0x43, 0x46, 0x47, 0] @ ys" using c by (metis append_take_drop_id)
  have t: "text_at (bs @ zs) 0 = Ret ''CFG''"
    unfolding bs by (simp add: text_at_def cfg_signature)
  show ?thesis
    using l t assms(2,3) by (simp add: processNVMFirmware_def writeTempCFG_def writeToTempFile_def)
qed

lemma finish_good:
  assumes "temp_file k (host s) ''adi_tof_cfgjson'' = Some name" "name \<noteq> []" "\<not> badCCB s" "\<not> badCFG s" "\<not> isBadChunk s"
  shows "finish_read k fs s =
    (OK, \<lparr>jsonFile = name, ccbFile = ccbFilename s, cfgFile = cfgFilename s\<rparr>,
     s\<lparr>host := host s @ [Write_File name (bytes_of (json_text (ccbFilename s) (cfgFilename s)))], jsonFilename := name\<rparr>)"
  using assms by (simp add: finish_read_def writeTempJSON_def Let_def)

lemma load_file:
  assumes "name \<noteq> []" "file_data k name = Some bs" "bs \<noteq> []" "length bs < 2 ^ 31" "\<And>h n. has_room k h n"
  shows "loadfileData k name h = (Some bs, stated_size (Some bs))"
  using assms word_nonzero [of "length bs"] unat_small [of "length bs"] by (simp add: loadfileData_def stated_size_def Let_def)

definition file_holds :: "host_env \<Rightarrow> string \<Rightarrow> u8 list option \<Rightarrow> bool" where
  "file_holds k name data \<longleftrightarrow> (case data of None \<Rightarrow> name = [] | Some bs \<Rightarrow> name \<noteq> [] \<and> file_data k name = Some bs)"

lemma load_optional:
  assumes "file_holds k name data" "fits a data" "host_ready k"
  shows "loadfileData k name h = (data, stated_size data)"
proof (cases data)
  case None then show ?thesis using assms(1) by (simp add: file_holds_def loadfileData_def stated_size_def)
next
  case (Some bs)
  then show ?thesis using load_file [of name k bs h] assms by (simp add: file_holds_def fits_def host_ready_def)
qed

text \<open>The host after an image was read: one file for each part, then the JSON file.\<close>

definition files_written :: "file_op list \<Rightarrow> TOF_ModuleFiles_t \<Rightarrow> u8 list \<Rightarrow> u8 list option \<Rightarrow> file_op list" where
  "files_written h files ccb cfg =
     h @ [Write_File (ccbFile files) ccb] @ (case cfg of None \<Rightarrow> [] | Some bs \<Rightarrow> [Write_File (cfgFile files) bs]) @
     [Write_File (jsonFile files) (bytes_of (json_text (ccbFile files) (cfgFile files)))]"

lemma process_parts:
  assumes "host_ready k" "valid_ccb ccb" "case cfg of None \<Rightarrow> True | Some bs \<Rightarrow> valid_cfg bs"
  shows "\<exists>s files. process_all k (parts (Some ccb) cfg) (ModuleMemory d h) = Ret s \<and>
    (\<exists>t. finish_read k fs s = (OK, files, t) \<and> host t = files_written h files ccb cfg \<and>
      ccbFile files \<noteq> [] \<and> (cfgFile files = []) = (cfg = None) \<and> m_serialNumber t = serial_of ccb)"
proof -
  have temp: "\<exists>name. temp_file k h tag = Some name \<and> name \<noteq> []" for h tag using assms(1) by (simp add: host_ready_def)
  let ?s0 = "ModuleMemory d h"
  obtain n1 where n1: "temp_file k h ''adi_tof_ccb'' = Some n1" "n1 \<noteq> []" using temp by blast
  let ?s1 = "?s0\<lparr>m_serialNumber := serial_of ccb, host := h @ [Write_File n1 ccb], ccbFilename := n1\<rparr>"
  have p1: "processNVMFirmware k CHUNK_TYPE_CCB (ccb @ le32 (data_crc ccb)) (length ccb) ?s0 = Ret (OK, ?s1)"
    using process_ccb [OF assms(2), of k ?s0 n1] n1 by (simp add: ModuleMemory_def)
  show ?thesis
  proof (cases cfg)
    case None
    obtain n3 where n3: "temp_file k (h @ [Write_File n1 ccb]) ''adi_tof_cfgjson'' = Some n3" "n3 \<noteq> []" using temp by blast
    have "process_all k (parts (Some ccb) cfg) ?s0 = Ret ?s1" using p1 None by (simp add: parts_def)
    moreover have "finish_read k fs ?s1 = (OK, \<lparr>jsonFile = n3, ccbFile = n1, cfgFile = []\<rparr>,
        ?s1\<lparr>host := (h @ [Write_File n1 ccb]) @ [Write_File n3 (bytes_of (json_text n1 []))], jsonFilename := n3\<rparr>)"
      using finish_good [of k ?s1 n3 fs] n3 by (simp add: ModuleMemory_def)
    ultimately show ?thesis using n1(2) None by (simp add: files_written_def)
  next
    case (Some bs)
    obtain n2 where n2: "temp_file k (h @ [Write_File n1 ccb]) ''adi_tof_cfg'' = Some n2" "n2 \<noteq> []" using temp by blast
    obtain n3 where n3: "temp_file k (h @ [Write_File n1 ccb, Write_File n2 bs]) ''adi_tof_cfgjson'' = Some n3" "n3 \<noteq> []"
      using temp by blast
    let ?s2 = "?s1\<lparr>host := (h @ [Write_File n1 ccb]) @ [Write_File n2 bs], cfgFilename := n2\<rparr>"
    have p2: "processNVMFirmware k CHUNK_TYPE_CFG (bs @ le32 (data_crc bs)) (length bs) ?s1 = Ret (OK, ?s2)"
      using process_cfg [of bs k ?s1 n2] n2 assms(3) Some by (simp add: ModuleMemory_def)
    have "process_all k (parts (Some ccb) cfg) ?s0 = Ret ?s2" using p1 p2 Some by (simp add: parts_def)
    moreover have "finish_read k fs ?s2 = (OK, \<lparr>jsonFile = n3, ccbFile = n1, cfgFile = n2\<rparr>,
        ?s2\<lparr>host := (h @ [Write_File n1 ccb, Write_File n2 bs]) @ [Write_File n3 (bytes_of (json_text n1 n2))], jsonFilename := n3\<rparr>)"
      using finish_good [of k ?s2 n3 fs] n3 by (simp add: ModuleMemory_def)
    ultimately show ?thesis using n1(2) n2(2) Some by (simp add: files_written_def)
  qed
qed

section \<open>Following the chain\<close>

text \<open>The headers that are found at the addresses of the chain.\<close>

inductive chunk_at :: "'d storage_interface \<Rightarrow> 'd \<Rightarrow> nat \<Rightarrow> TOF_ChunkHeader_t \<Rightarrow> bool" for ops d where
  first_chunk: "readChunkHeader ops (replicate 20 0) 0 d = (OK, b) \<Longrightarrow> chunk_at ops d 0 (header_of b)"
| next_chunk: "chunk_at ops d a h \<Longrightarrow> nextChunkAddress h \<noteq> 0 \<Longrightarrow>
    readChunkHeader ops buf (unat (nextChunkAddress h)) d = (OK, b) \<Longrightarrow> chunk_at ops d (unat (nextChunkAddress h)) (header_of b)"

lemma temp_ccb_keeps: "writeTempCCB k bs n s = Ret (name, t) \<Longrightarrow> m_eeprom t = m_eeprom s"
  by (auto simp: writeTempCCB_def Let_def dest!: temp_file_keeps split: mem.splits option.splits if_splits)

lemma temp_cfg_keeps: "writeTempCFG k bs n s = Ret (name, t) \<Longrightarrow> m_eeprom t = m_eeprom s"
  by (auto simp: writeTempCFG_def dest!: temp_file_keeps split: mem.splits if_splits)

lemma process_firmware_keeps: "processNVMFirmware k t data n s = Ret (r, s') \<Longrightarrow> m_eeprom s' = m_eeprom s"
  by (auto simp: processNVMFirmware_def simp del: set_simps dest!: temp_ccb_keeps temp_cfg_keeps
      split: mem.splits if_splits prod.splits)

lemma check_chunk_eeprom: "check_chunk k t sz data s = Ret s' \<Longrightarrow> m_eeprom s' = m_eeprom s"
  by (auto simp: check_chunk_def Let_def dest!: process_firmware_keeps split: mem.splits if_splits)

lemma process_chunk_eeprom: "process_chunk k ops h a s = Ret s' \<Longrightarrow> m_eeprom s' = m_eeprom s"
  by (auto simp: process_chunk_def dest!: check_chunk_eeprom split: mem.splits if_splits prod.splits)

lemma loop_ends:
  assumes up: "\<And>a h. chunk_at ops d a h \<Longrightarrow> nextChunkAddress h = 0 \<or> a < unat (nextChunkAddress h)"
  shows "chunk_at ops d a (header_of buf) \<Longrightarrow> m_eeprom s = d \<Longrightarrow> chunk_loop k ops buf s \<noteq> None"
proof (induction "2 ^ 32 - a" arbitrary: a buf s rule: less_induct)
  case less
  let ?n = "nextChunkAddress (header_of buf)"
  obtain st b where r: "readChunkHeader ops buf (unat ?n) d = (st, b)" by fastforce
  show ?case
  proof (cases "?n = 0 \<or> st \<noteq> OK")
    case True then show ?thesis using r less.prems(2) by (subst chunk_loop.simps) (auto simp: Let_def)
  next
    case False
    then have c: "chunk_at ops d (unat ?n) (header_of b)" using next_chunk [OF less.prems(1)] r by simp
    have n: "a < unat ?n" using up [OF less.prems(1)] False by simp
    then have m: "2 ^ 32 - unat ?n < 2 ^ 32 - a"
      using less_trans [OF n unat_lt_pow [of ?n]] by (intro diff_less_mono2) simp_all
    note again = less.hyps [OF m c]
    show ?thesis
      using r False less.prems(2) again process_chunk_eeprom [of k ops "header_of b"]
      by (subst chunk_loop.simps) (auto simp: Let_def split: mem.split)
  qed
qed

lemma read_ends:
  assumes "\<And>a h. chunk_at ops d a h \<Longrightarrow> nextChunkAddress h = 0 \<or> a < unat (nextChunkAddress h)" "m_eeprom s = d"
  shows "readModuleData k ops fs s \<noteq> None"
proof -
  obtain st b where r: "readChunkHeader ops (replicate 20 0) 0 d = (st, b)" by fastforce
  show ?thesis
  proof (cases "st = OK")
    case True
    then have "chunk_loop k ops b s \<noteq> None"
      using loop_ends [OF assms(1) first_chunk [where b = b]] r assms(2) by simp
    then show ?thesis using r assms(2) by (auto simp: readModuleData_def split: option.split mem.split)
  qed (use r assms(2) in \<open>simp add: readModuleData_def\<close>)
qed

text \<open>A chunk that is skipped and refers to itself.\<close>

definition self_chunk :: "'d storage_interface \<Rightarrow> 'd \<Rightarrow> u8 list \<Rightarrow> bool" where
  "self_chunk ops d b \<longleftrightarrow>
     nextChunkAddress (header_of b) \<noteq> 0 \<and> headerSizeBytes (header_of b) = 20 \<and> chunkSizeBytes (header_of b) \<noteq> 0 \<and>
     (chunktype (header_of b) = CHUNK_TYPE_ADSD3500_FIRMWARE_CURRENT_HEADER \<or> chunktype (header_of b) = CHUNK_TYPE_INIT_FIRMWARE_HEADER) \<and>
     (\<forall>buf. length buf = 20 \<longrightarrow> readChunkHeader ops buf (unat (nextChunkAddress (header_of b))) d = (OK, b))"

lemma self_chunk_loops:
  "chunk_loop k ops buf s = Some y \<Longrightarrow>
   \<not> (length b = 20 \<and> self_chunk ops (m_eeprom s) b \<and> \<not> isBadChunk s \<and> (\<forall>h n. has_room k h n) \<and> length buf = 20 \<and>
      nextChunkAddress (header_of buf) = nextChunkAddress (header_of b))"
proof (rule chunk_loop.raw_induct [where P = "\<lambda>k ops buf s y. \<not> (length b = 20 \<and> self_chunk ops (m_eeprom s) b \<and>
      \<not> isBadChunk s \<and> (\<forall>h n. has_room k h n) \<and> length buf = 20 \<and>
      nextChunkAddress (header_of buf) = nextChunkAddress (header_of b))"], goal_cases)
  case (1 loop k ops buf s y)
  show ?case
  proof
    assume c: "length b = 20 \<and> self_chunk ops (m_eeprom s) b \<and> \<not> isBadChunk s \<and> (\<forall>h n. has_room k h n) \<and> length buf = 20 \<and>
      nextChunkAddress (header_of buf) = nextChunkAddress (header_of b)"
    then have "readChunkHeader ops buf (unat (nextChunkAddress (header_of b))) (m_eeprom s) = (OK, b)"
      by (simp add: self_chunk_def)
    moreover have "chunktype (header_of b) = CHUNK_TYPE_ADSD3500_FIRMWARE_CURRENT_HEADER \<or>
        chunktype (header_of b) = CHUNK_TYPE_INIT_FIRMWARE_HEADER" "nextChunkAddress (header_of b) \<noteq> 0"
        "headerSizeBytes (header_of b) = 20" "chunkSizeBytes (header_of b) \<noteq> 0"
      using c by (simp_all add: self_chunk_def)
    ultimately have "loop k ops b s = Some y"
      using 1(3) c by (auto simp: Let_def)
    from 1(2) [OF this] c show False by blast
  qed
qed

section \<open>Properties of the flash image\<close>

lemma eeprom_held: "ee_medium e = xs @ zs \<Longrightarrow> eeprom_holds e 0 xs"
  by (simp add: eeprom_holds_def)

text \<open>C8: writing a calibration and, when there is one, a configuration to an EEPROM that has
  room for the image answers OK, and reading the module back answers OK with the same two files
  under temporary names, the JSON file that names them, and the serial number of the calibration.\<close>

theorem flash_round_trip:
  assumes "eeprom_ready (m_eeprom s)" "image_length (Some ccb) cfg \<le> length (ee_medium (m_eeprom s))"
    "image_length (Some ccb) cfg < 2 ^ 31" "host_ready k" "valid_ccb ccb" "case cfg of None \<Rightarrow> True | Some bs \<Rightarrow> valid_cfg bs"
    "file_holds k ccbFileName (Some ccb)" "file_holds k cfgFileName cfg"
  shows "\<exists>s' files t. writeModuleData k eeprom_ops ccbFileName cfgFileName s = Ret (OK, s') \<and>
    readModuleData k eeprom_ops fs (ModuleMemory (m_eeprom s') h) = Some (Ret (OK, files, t)) \<and>
    host t = files_written h files ccb cfg \<and> ccbFile files \<noteq> [] \<and> (cfgFile files = []) = (cfg = None) \<and>
    getSerialNumber t = (OK, serial_of ccb)"
proof -
  let ?ps = "parts (Some ccb) cfg"
  have nonempty: "ccb \<noteq> []" "\<And>bs. cfg = Some bs \<Longrightarrow> bs \<noteq> []" using assms(5,6) by (auto simp: valid_ccb_def valid_cfg_def)
  have fit: "fits 20 (Some ccb)" "fits 0 cfg"
    using nonempty assms(3) by (auto simp: fits_def image_length_def split: option.splits)
  have room: "has_room k g n" for g n using assms(4) by (simp add: host_ready_def)
  have cap: "st_getCapacity eeprom_ops (m_eeprom s) = (OK, length (ee_medium (m_eeprom s)))"
    using assms(1) by (simp add: eeprom_ops_def Eeprom_getCapacity_def eeprom_ready_def)
  obtain r d where w: "st_write eeprom_ops 0 (Some (module_image ?ps)) (m_eeprom s) = (r, d)" by fastforce
  have d: "eeprom_ready d" "eeprom_holds d 0 (module_image ?ps)"
    using eeprom.write_holds [OF assms(1) _ w] cap assms(2) by (simp_all add: length_module_image)
  have wrote: "writeModuleData k eeprom_ops ccbFileName cfgFileName s = Ret (OK, s\<lparr>m_eeprom := d\<rparr>)"
    using create_value [OF _ fit assms(3) cap assms(2) room] w load_optional [OF assms(7) fit(1) assms(4)]
      load_optional [OF assms(8) fit(2) assms(4)] by (simp add: writeModuleData_def)
  obtain u files t where u: "process_all k ?ps (ModuleMemory d h) = Ret u" "finish_read k fs u = (OK, files, t)"
      "host t = files_written h files ccb cfg" "ccbFile files \<noteq> []" "(cfgFile files = []) = (cfg = None)" "m_serialNumber t = serial_of ccb"
    using process_parts [OF assms(4-6), of d h fs] by blast
  have ps: "?ps \<noteq> []" "list_all is_part ?ps" using nonempty by (auto simp: parts_def is_part_def split: option.splits)
  have "readModuleData k eeprom_ops fs (ModuleMemory d h) = Some (Ret (OK, files, t))"
    using eeprom.image_read [OF d _ ps room, where s = "ModuleMemory d h" and fs = fs] u(1,2) assms(3)
    by (simp add: length_module_image ModuleMemory_def)
  then show ?thesis using wrote u(3-6) by (auto simp: getSerialNumber_def)
qed

definition sample_host :: host_env where
  "sample_host = \<lparr>temp_file = (\<lambda>_ tag. Some (''/tmp/'' @ tag)), has_room = (\<lambda>_ _. True),
     file_data = [''a.ccb'' \<mapsto> replicate 300 0, ''a.cfg'' \<mapsto> [0x43, 0x46, 0x47, 0] @ replicate 20 7]\<rparr>"

definition sample_eeprom :: eeprom where
  "sample_eeprom = \<lparr>ee_fd = True, ee_length = 512, ee_medium = replicate 512 0xFF, ee_name = ''eeprom''\<rparr>"

theorem flash_round_trip_witness:
  "\<exists>s' files t. writeModuleData sample_host eeprom_ops ''a.ccb'' ''a.cfg'' (ModuleMemory sample_eeprom []) = Ret (OK, s') \<and>
    readModuleData sample_host eeprom_ops \<lparr>jsonFile = [], ccbFile = [], cfgFile = []\<rparr> (ModuleMemory (m_eeprom s') []) = Some (Ret (OK, files, t)) \<and>
    host t = files_written [] files (replicate 300 0) (Some ([0x43, 0x46, 0x47, 0] @ replicate 20 7)) \<and> ccbFile files \<noteq> [] \<and>
    (cfgFile files = []) = (Some ([0x43, 0x46, 0x47, 0] @ replicate 20 (7 :: u8)) = None) \<and>
    getSerialNumber t = (OK, serial_of (replicate 300 0))"
  by (rule flash_round_trip)
    (simp_all add: sample_host_def sample_eeprom_def eeprom_ready_def ModuleMemory_def image_length_def host_ready_def
      valid_ccb_def valid_cfg_def file_holds_def)

text \<open>C32: when the address of every header that is found points forward, to a higher address, or
  is zero, reading the module returns, whatever the storage is.\<close>

theorem chain_reading_ends:
  assumes "\<And>a h. chunk_at ops (m_eeprom s) a h \<Longrightarrow> nextChunkAddress h = 0 \<or> a < unat (nextChunkAddress h)"
  shows "readModuleData k ops fs s \<noteq> None"
  by (rule read_ends [OF assms refl])

definition sample_chain :: eeprom where
  "sample_chain = sample_eeprom\<lparr>ee_length := 40, ee_medium := header_bytes (initChunckHeader CHUNK_TYPE_FILE_HEADER 0 0 False) @
     header_bytes (initChunckHeader CHUNK_TYPE_CFG 20 1 True)\<rparr>"

lemma sample_chain_header:
  "length buf = 20 \<Longrightarrow> a = 0 \<or> a = 20 \<Longrightarrow> readChunkHeader eeprom_ops buf a sample_chain =
    (OK, header_bytes (if a = 0 then initChunckHeader CHUNK_TYPE_FILE_HEADER 0 0 False else initChunckHeader CHUNK_TYPE_CFG 20 1 True))"
proof -
  let ?d = sample_chain and ?f = "header_bytes (initChunckHeader CHUNK_TYPE_FILE_HEADER 0 0 False)"
  let ?c = "header_bytes (initChunckHeader CHUNK_TYPE_CFG 20 1 True)"
  have g: "eeprom_ready ?d" and h: "eeprom_holds ?d 0 ([] @ ?f @ ?c)" "eeprom_holds ?d 0 (?f @ ?c @ [])"
    by (simp_all add: eeprom_ready_def eeprom_holds_def sample_chain_def sample_eeprom_def)
  show "length buf = 20 \<Longrightarrow> a = 0 \<or> a = 20 \<Longrightarrow> ?thesis"
    using eeprom.header_read [OF g h(1)] eeprom.header_read [OF g h(2)] verify_init by auto
qed

lemma sample_chain_at:
  "chunk_at eeprom_ops sample_chain a h \<Longrightarrow>
     (a = 0 \<and> h = initChunckHeader CHUNK_TYPE_FILE_HEADER 0 0 False) \<or> (a = 20 \<and> h = initChunckHeader CHUNK_TYPE_CFG 20 1 True)"
proof (induction rule: chunk_at.induct)
  case (first_chunk b) then show ?case using sample_chain_header [of "replicate 20 0" 0] by auto
next
  case (next_chunk a h buf b)
  have h: "nextChunkAddress h = 20" "a = 0" using next_chunk.IH next_chunk.hyps(2) by auto
  have "st_read eeprom_ops 20 True 20 sample_chain = (OK, header_bytes (initChunckHeader CHUNK_TYPE_CFG 20 1 True))"
    by (simp add: eeprom_ops_def Eeprom_read_def sample_chain_def sample_eeprom_def)
  then have "b = header_bytes (initChunckHeader CHUNK_TYPE_CFG 20 1 True) @ drop 20 buf"
    using next_chunk.hyps(3) h by (auto simp: readChunkHeader_def Let_def split: if_splits)
  then show ?case using h by (simp add: header_of_bytes)
qed

theorem chain_reading_ends_witness:
  "readModuleData sample_host eeprom_ops \<lparr>jsonFile = [], ccbFile = [], cfgFile = []\<rparr> (ModuleMemory sample_chain []) \<noteq> None"
proof (rule chain_reading_ends)
  fix a h assume "chunk_at eeprom_ops (m_eeprom (ModuleMemory sample_chain [])) a h"
  then show "nextChunkAddress h = 0 \<or> a < unat (nextChunkAddress h)"
    using sample_chain_at [of a h] by (auto simp: ModuleMemory_def)
qed

text \<open>An EEPROM with a valid header of a skipped type, the current firmware of the ADSD3500 or
  the initial firmware, that names its own address as the next is read forever: the reader asks
  for the header again and again and does not return.\<close>

theorem self_referring_chunk_never_ends:
  assumes "eeprom_ready d" "ee_medium d = header_bytes f @ header_bytes h @ zs"
    "verifyChunkHeader (header_bytes f)" "chunktype f = CHUNK_TYPE_FILE_HEADER" "nextChunkAddress f = 20"
    "verifyChunkHeader (header_bytes h)" "chunkSizeBytes h \<noteq> 0" "nextChunkAddress h = 20"
    "chunktype h \<in> {CHUNK_TYPE_ADSD3500_FIRMWARE_CURRENT_HEADER, CHUNK_TYPE_INIT_FIRMWARE_HEADER}" "\<And>g n. has_room k g n"
  shows "readModuleData k eeprom_ops fs (ModuleMemory d g) = None"
proof -
  have 0: "eeprom_holds d 0 ([] @ header_bytes f @ header_bytes h @ zs)" and 20: "eeprom_holds d 0 (header_bytes f @ header_bytes h @ zs)"
    using assms(2) by (simp_all add: eeprom_holds_def)
  have f: "readChunkHeader eeprom_ops (replicate 20 0) 0 d = (OK, header_bytes f)"
    using eeprom.header_read [OF assms(1) 0, of "replicate 20 0"] assms(3) by simp
  have h: "readChunkHeader eeprom_ops buf 20 d = (OK, header_bytes h)" if "length buf = 20" for buf
    using eeprom.header_read [OF assms(1) 20 that] assms(6) by simp
  have "self_chunk eeprom_ops d (header_bytes h)"
    using assms(6-9) h by (auto simp: self_chunk_def verifyChunkHeader_def Let_def)
  then have "chunk_loop k eeprom_ops (header_bytes f) (ModuleMemory d g) \<noteq> Some y" for y
    using self_chunk_loops [of k eeprom_ops "header_bytes f" "ModuleMemory d g" y "header_bytes h"] assms(5,8,10)
    by (auto simp: ModuleMemory_def)
  then have "chunk_loop k eeprom_ops (header_bytes f) (ModuleMemory d g) = None" by (cases rule: option.exhaust) auto
  then show ?thesis using f assms(4,5) by (simp add: readModuleData_def ModuleMemory_def)
qed

theorem self_referring_chunk_never_ends_witness:
  "readModuleData sample_host eeprom_ops \<lparr>jsonFile = [], ccbFile = [], cfgFile = []\<rparr>
     (ModuleMemory (sample_eeprom\<lparr>ee_length := 40, ee_medium := header_bytes (initChunckHeader CHUNK_TYPE_FILE_HEADER 0 0 False) @
       header_bytes (initChunckHeader CHUNK_TYPE_INIT_FIRMWARE_HEADER (- 5) 1 False) @ []\<rparr>) []) = None"
  by (rule self_referring_chunk_never_ends [where f = "initChunckHeader CHUNK_TYPE_FILE_HEADER 0 0 False"
        and h = "initChunckHeader CHUNK_TYPE_INIT_FIRMWARE_HEADER (- 5) 1 False" and zs = "[]"])
    (simp_all add: eeprom_ready_def sample_eeprom_def sample_host_def verify_init)

lemma sint_sign: "sint (x :: u32) < 0 \<longleftrightarrow> 2 ^ 31 \<le> unat x"
proof -
  have "sint x < 0 \<longleftrightarrow> bit x 31" by (simp add: sint_uint bit_uint_iff not_less [symmetric] flip: signed_take_bit_nonnegative_iff [of 31 "uint x"])
  moreover have "bit x 31 \<longleftrightarrow> odd (unat x div 2 ^ 31)" by (simp add: bit_unsigned_iff del: power_numeral flip: bit_iff_odd)
  moreover have "unat x div 2 ^ 31 = (if 2 ^ 31 \<le> unat x then 1 else 0)"
    using unat_lt_pow [of x] by (auto intro: div_nat_eqI)
  ultimately show ?thesis by simp
qed

lemma sint_unat: "\<not> sint (x :: u32) < 0 \<Longrightarrow> sint x = int (unat x)"
  using sint_sign [of x] sint_small [of "unat x"] by simp

lemma temp_ccb_fault: "writeTempCCB k data n s = Fault \<longleftrightarrow> 256 < n \<and> 0 \<notin> set (drop 176 data)"
  by (auto simp: writeTempCCB_def ccb_read_header_def ccb_read_header_block_def text_at_def Let_def split: if_splits)

lemma temp_cfg_fault:
  "writeTempCFG k data n s = Fault \<longleftrightarrow>
     16 \<le> n \<and> (0 \<notin> set data \<or> string_of (takeWhile (\<lambda>b. b \<noteq> 0) data) = ''CFG'' \<and> length data < 24)"
  by (auto simp: writeTempCFG_def text_at_def split: if_splits)

lemma firmware_fault:
  "processNVMFirmware k type data n s = Fault \<longleftrightarrow>
     (type = CHUNK_TYPE_CCB \<and> writeTempCCB k data n s = Fault \<or>
      (type = CHUNK_TYPE_CFG \<or> type = CHUNK_TYPE_IMAGER_FIRMWARE_FACTORY_HEADER) \<and> writeTempCFG k data n s = Fault)"
  by (auto simp: processNVMFirmware_def split: mem.splits)

lemma unat_less_4: "sz < 4 \<Longrightarrow> unat (sz - 4 :: u32) = unat sz + 2 ^ 32 - 4"
  by (simp add: unat_sub_if' word_less_nat_alt)

text \<open>Checking a chunk that was read in full reads outside of the buffer exactly when the chunk
  is too short for its CRC, or so long that its signed size is negative, or when its CRC is right and
  it is a calibration whose serial number has no end in the chunk, or a configuration whose signature
  has no end in it or is followed by less than a header.\<close>

theorem chunk_read_faults:
  assumes "length data = unat sz"
  shows "check_chunk k type sz data s = Fault \<longleftrightarrow>
    sz < 4 \<or> 2 ^ 31 + 4 \<le> unat sz \<or>
    ((crcFast data (int (unat sz - 4)) True = Some (get32 data (unat sz - 4)) \<or>
      crcFast data (int (unat sz - 4)) False = Some (get32 data (unat sz - 4))) \<and>
     (type = CHUNK_TYPE_CCB \<and> 260 < unat sz \<and> 0 \<notin> set (drop 176 data) \<or>
      (type = CHUNK_TYPE_CFG \<or> type = CHUNK_TYPE_IMAGER_FIRMWARE_FACTORY_HEADER) \<and> 20 \<le> unat sz \<and>
        (0 \<notin> set data \<or> string_of (takeWhile (\<lambda>b. b \<noteq> 0) data) = ''CFG'' \<and> unat sz < 24)))"
proof (cases "sz < 4 \<or> 2 ^ 31 + 4 \<le> unat sz")
  case True
  then have "2 ^ 31 \<le> unat (sz - 4)"
    using unat_less_4 [of sz] by (auto simp: unat_sub_if' word_less_nat_alt word_le_nat_alt)
  then have "check_chunk k type sz data s = Fault" using sint_sign [of "sz - 4"] by (simp add: check_chunk_def Let_def)
  then show ?thesis using True by blast
next
  case False
  then have u: "unat (sz - 4) = unat sz - 4" "4 \<le> unat sz"
    by (auto simp: unat_sub_if' word_less_nat_alt word_le_nat_alt)
  let ?n = "unat sz - 4"
  have "\<not> 2 ^ 31 \<le> unat (sz - 4)" using False unfolding u(1) le_diff_conv2 [OF u(2)] by blast
  then have s: "sint (sz - 4) = int ?n" using sint_unat [of "sz - 4"] unfolding sint_sign u(1) by blast
  have l: "\<not> (int ?n < 0 \<or> length data < nat (int ?n) + 4)" "nat (int ?n) = ?n"
    by (simp_all only: assms nat_int of_nat_less_0_iff le_add_diff_inverse2 [OF u(2)] less_irrefl simp_thms)
  have n: "256 < ?n \<longleftrightarrow> 260 < unat sz" "16 \<le> ?n \<longleftrightarrow> 20 \<le> unat sz" using u(2) by auto
  have "check_chunk k type sz data s = Fault \<longleftrightarrow>
      (crcFast data (int ?n) True = Some (get32 data ?n) \<or> crcFast data (int ?n) False = Some (get32 data ?n)) \<and>
      processNVMFirmware k type data ?n s = Fault"
    using l by (auto simp: check_chunk_def s Let_def split: mem.splits)
  then show ?thesis
    using False unfolding firmware_fault temp_ccb_fault temp_cfg_fault n assms by blast
qed

theorem chunk_read_faults_witness:
  "check_chunk sample_host CHUNK_TYPE_CCB 3 [1, 2, 3] (ModuleMemory sample_eeprom []) = Fault"
  using chunk_read_faults [of "[1, 2, 3]" 3 sample_host CHUNK_TYPE_CCB "ModuleMemory sample_eeprom []"] by simp

end
