(* ===== verification/Sensor_Interface.thy ===== *)
theory Sensor_Interface
  imports Storage
begin

text \<open>
  The interface of a depth sensor, \<^verbatim>\<open>sdk/include/aditof/depth_sensor_interface.h\<close>, with the frame types of
  \<^verbatim>\<open>sensor_definitions.h\<close>. Operations answer a status and the sensor afterwards; \<open>Fault\<close> stands for an
  access outside of the memory that was passed and for an exception that nobody catches.

  A pointer that is passed is the list of the bytes that may be accessed from it.
\<close>

record DepthSensorFrameContent =
  fc_type :: string
  fc_width :: u32
  fc_height :: u32

record DepthSensorFrameType =
  ft_type :: string
  ft_content :: "DepthSensorFrameContent list"
  ft_width :: u32
  ft_height :: u32

datatype ConnectionType = ON_TARGET | USB | NETWORK | OFFLINE

text \<open>
  Only the operations that a client of the application can ask for, and those that it uses itself
  when it starts. An output that need not be written is passed as it was before.
\<close>

record 'c depth_sensor_interface =
  ds_open :: "'c \<Rightarrow> (status \<times> 'c) mem"
  ds_setHostConnectionType :: "string \<Rightarrow> 'c \<Rightarrow> (status \<times> 'c) mem"
  ds_getName :: "'c \<Rightarrow> status \<times> string"
  ds_getAvailableFrameTypes :: "'c \<Rightarrow> (status \<times> DepthSensorFrameType list \<times> 'c) mem"
  ds_setFrameType :: "DepthSensorFrameType \<Rightarrow> 'c \<Rightarrow> (status \<times> 'c) mem"
  ds_readRegisters :: "u8 list \<Rightarrow> u8 list \<Rightarrow> nat \<Rightarrow> bool \<Rightarrow> 'c \<Rightarrow> (status \<times> u8 list \<times> 'c) mem"
  ds_writeRegisters :: "u8 list \<Rightarrow> u8 list \<Rightarrow> nat \<Rightarrow> bool \<Rightarrow> 'c \<Rightarrow> (status \<times> 'c) mem"
  ds_getAvailableControls :: "'c \<Rightarrow> (status \<times> string list \<times> 'c) mem"
  ds_setControl :: "string \<Rightarrow> string \<Rightarrow> 'c \<Rightarrow> (status \<times> 'c) mem"
  ds_getControl :: "string \<Rightarrow> string \<Rightarrow> 'c \<Rightarrow> (status \<times> string \<times> 'c) mem"
  ds_read_cmd :: "u16 \<Rightarrow> u16 \<Rightarrow> u32 \<Rightarrow> 'c \<Rightarrow> (status \<times> u16 \<times> 'c) mem"
  ds_write_cmd :: "u16 \<Rightarrow> u16 \<Rightarrow> 'c \<Rightarrow> (status \<times> 'c) mem"
  ds_read_payload_cmd :: "u32 \<Rightarrow> u8 list \<Rightarrow> u16 \<Rightarrow> 'c \<Rightarrow> (status \<times> u8 list \<times> 'c) mem"
  ds_read_payload :: "u8 list \<Rightarrow> u16 \<Rightarrow> 'c \<Rightarrow> (status \<times> u8 list \<times> 'c) mem"
  ds_write_payload_cmd :: "u32 \<Rightarrow> u8 list \<Rightarrow> u16 \<Rightarrow> 'c \<Rightarrow> (status \<times> 'c) mem"
  ds_write_payload :: "u8 list \<Rightarrow> u16 \<Rightarrow> 'c \<Rightarrow> (status \<times> 'c) mem"

section \<open>Memory\<close>

text \<open>Copying from and to what a pointer points to.\<close>

definition mem_read :: "nat \<Rightarrow> u8 list \<Rightarrow> u8 list mem" where
  "mem_read n m = (if n \<le> length m then Ret (take n m) else Fault)"

definition mem_write :: "nat \<Rightarrow> u8 list \<Rightarrow> u8 list \<Rightarrow> u8 list mem" where
  "mem_write i bs m = (if i + length bs \<le> length m then Ret (take i m @ bs @ drop (i + length bs) m) else Fault)"

lemma mem_write_length: "mem_write i bs m = Ret m' \<Longrightarrow> length m' = length m"
  by (auto simp: mem_write_def split: if_splits)

lemma mem_write_fits: "i + length bs \<le> length m \<Longrightarrow> mem_write i bs m = Ret (take i m @ bs @ drop (i + length bs) m)"
  by (simp add: mem_write_def)

lemma mem_read_fits: "n \<le> length m \<Longrightarrow> mem_read n m = Ret (take n m)"
  by (simp add: mem_read_def)

text \<open>
  The contract of the operations that are given memory: they fault at most when there is less of
  it than their arguments say, and what they write stays within it.
\<close>

locale memory_safe =
  fixes ops :: "'c depth_sensor_interface"
    and ready :: "'c \<Rightarrow> bool"
    and fits :: "u16 \<Rightarrow> bool"
  assumes read_payload_safe: "ready c \<Longrightarrow> fits n \<Longrightarrow> unat n \<le> length m \<Longrightarrow>
      \<exists>r m' c'. ds_read_payload ops m n c = Ret (r, m', c') \<and> length m' = length m \<and> ready c'"
    and read_payload_cmd_safe: "ready c \<Longrightarrow> fits n \<Longrightarrow> max 1 (unat n) \<le> length m \<Longrightarrow>
      \<exists>r m' c'. ds_read_payload_cmd ops x m n c = Ret (r, m', c') \<and> length m' = length m \<and> ready c'"
    and write_payload_safe: "ready c \<Longrightarrow> fits n \<Longrightarrow> unat n \<le> length m \<Longrightarrow>
      \<exists>r c'. ds_write_payload ops m n c = Ret (r, c') \<and> ready c'"
    and write_payload_cmd_safe: "ready c \<Longrightarrow> fits (n + 16) \<Longrightarrow> n \<le> n + 16 \<Longrightarrow> unat n \<le> length m \<Longrightarrow>
      \<exists>r c'. ds_write_payload_cmd ops x m n c = Ret (r, c') \<and> ready c'"
    and read_cmd_safe: "ready c \<Longrightarrow> \<exists>r d' c'. ds_read_cmd ops a d u c = Ret (r, d', c') \<and> ready c'"
    and write_cmd_safe: "ready c \<Longrightarrow> \<exists>r c'. ds_write_cmd ops a d c = Ret (r, c') \<and> ready c'"

end
