(* ===== verification/Sdk_Interface.thy ===== *)
theory Sdk_Interface
  imports Sensor_Interface Bytes
begin

text \<open>
  Requests of the host to the SDK on the target, \<^verbatim>\<open>apps/uvc-app/tof-sdk-interface.cpp\<close>: the
  messages of \<^verbatim>\<open>buffer.proto\<close>, the handler, and the start of the SDK.

  The code that protobuf generates is a parameter: \<open>parse\<close> gives the message that a string parses
  to, and whether it does, \<open>serialize\<close> the string of a message. Reading a repeated field behind its
  end is \<open>Fault\<close>, and so is an exception that nobody catches. A C++ string can be accessed up to
  the zero that follows its characters. Memory that is not initialised holds \<open>heap\<close>.
\<close>

section \<open>Messages\<close>

datatype FunctionName =
    SEARCH_SENSORS
  | GET_AVAILABLE_FRAME_TYPES
  | SET_FRAME_TYPE
  | READ_REGISTERS
  | WRITE_REGISTERS
  | GET_AVAILABLE_CONTROLS
  | SET_CONTROL
  | GET_CONTROL
  | ADSD3500_READ_CMD
  | ADSD3500_WRITE_CMD
  | ADSD3500_READ_PAYLOAD_CMD
  | ADSD3500_READ_PAYLOAD
  | ADSD3500_WRITE_PAYLOAD_CMD
  | ADSD3500_WRITE_PAYLOAD
  | ADSD3500_RESET
  | STORAGE_OPEN
  | STORAGE_READ
  | STORAGE_WRITE
  | STORAGE_CLOSE
  | STORAGE_READ_CAPACITY
  | Unknown_Function int

record CardImageVersion =
  kernelversion :: string
  sdversion :: string
  ubootversion :: string

text \<open>The lists of storages and of temperature sensors, and the depth sensor.\<close>

record SensorsInfo =
  info_storages :: "(string \<times> u32) list"
  temp_sensors :: "(string \<times> u32) list"
  image_sensors :: string

record FrameContentMsg =
  fcm_type :: string
  fcm_width :: u32
  fcm_height :: u32

record FrameTypeMsg =
  ftm_type :: string
  ftm_content :: "FrameContentMsg list"
  ftm_width :: u32
  ftm_height :: u32

text \<open>The lists of floats are never used; the signed numbers are 32-bit words.\<close>

record ClientRequest =
  func_name :: FunctionName
  func_int32_param :: "u32 list"
  func_bytes_param :: "u8 list list"
  func_strings_param :: "string list"
  frame_type :: FrameTypeMsg

record ServerResponse =
  rp_status :: status
  int32_payload :: "u32 list"
  bytes_payload :: "u8 list list"
  strings_payload :: "string list"
  available_frame_types :: "FrameTypeMsg list"
  sensors_info :: "SensorsInfo option"
  message :: string
  card_image_version :: "CardImageVersion option"

definition no_frame_type_msg :: FrameTypeMsg where
  "no_frame_type_msg = \<lparr>ftm_type = '''', ftm_content = [], ftm_width = 0, ftm_height = 0\<rparr>"

definition new_request :: ClientRequest where
  "new_request =
     \<lparr>func_name = SEARCH_SENSORS, func_int32_param = [], func_bytes_param = [], func_strings_param = [],
      frame_type = no_frame_type_msg\<rparr>"

definition new_response :: ServerResponse where
  "new_response =
     \<lparr>rp_status = OK, int32_payload = [], bytes_payload = [], strings_payload = [], available_frame_types = [],
      sensors_info = None, message = '''', card_image_version = None\<rparr>"

text \<open>Reading an element of a repeated field.\<close>

definition param :: "'a list \<Rightarrow> nat \<Rightarrow> 'a mem" where
  "param xs i = (if i < length xs then Ret (xs ! i) else Fault)"

section \<open>Frame types\<close>

definition convertDepthSensorFrameTypesToProtoMsg :: "DepthSensorFrameType list \<Rightarrow> FrameTypeMsg list" where
  "convertDepthSensorFrameTypesToProtoMsg ts =
     map (\<lambda>t. \<lparr>ftm_type = ft_type t,
               ftm_content = map (\<lambda>c. \<lparr>fcm_type = fc_type c, fcm_width = fc_width c, fcm_height = fc_height c\<rparr>) (ft_content t),
               ftm_width = ft_width t, ftm_height = ft_height t\<rparr>) ts"

definition convertProtoMsgToDepthSensorFrameType :: "FrameTypeMsg \<Rightarrow> DepthSensorFrameType \<Rightarrow> DepthSensorFrameType" where
  "convertProtoMsgToDepthSensorFrameType m t =
     \<lparr>ft_type = ftm_type m,
      ft_content = ft_content t @
        map (\<lambda>c. \<lparr>fc_type = fcm_type c, fc_width = fcm_width c, fc_height = fcm_height c\<rparr>) (ftm_content m),
      ft_width = ftm_width m, ft_height = ftm_height m\<rparr>"

definition empty_frame_type :: DepthSensorFrameType where
  "empty_frame_type = \<lparr>ft_type = '''', ft_content = [], ft_width = 0, ft_height = 0\<rparr>"

section \<open>The SDK\<close>

text \<open>
  What the application keeps of the SDK: how many depth sensors were found and the first of them,
  the storages and temperature sensors with the names that they answer, the versions, and whether
  a reset was asked for.
\<close>

record ('c, 'd) sdk =
  depthSensors :: nat
  camDepthSensor :: 'c
  storages :: "(string \<times> 'd) list"
  temperatureSensors :: "string list"
  versions :: CardImageVersion
  modeChanged :: bool

text \<open>
  The start: what the enumerator found is an argument. The sensor's answer to opening is not looked
  at. Without a sensor the pointer to it stays null, and the program ends.
\<close>

definition init_tof_sdk ::
  "'c depth_sensor_interface \<Rightarrow> 'c list \<Rightarrow> (string \<times> 'd) list \<Rightarrow> string list \<Rightarrow> CardImageVersion \<Rightarrow>
   (int \<times> ('c, 'd) sdk option) mem" where
  "init_tof_sdk ops sensors sts temps vs =
     (case sensors of
        [] \<Rightarrow> Ret (1, None)
      | c # _ \<Rightarrow>
          (case ds_setHostConnectionType ops ''USB'' c of Fault \<Rightarrow> Fault | Ret (r, c) \<Rightarrow>
           (case ds_open ops c of Fault \<Rightarrow> Fault | Ret (r, c) \<Rightarrow>
              Ret (0, Some \<lparr>depthSensors = length sensors, camDepthSensor = c, storages = sts,
                temperatureSensors = temps, versions = vs, modeChanged = False\<rparr>))))"

section \<open>The handler\<close>

text \<open>Memory from \<^verbatim>\<open>new\<close>: a negative length becomes a size that throws; smaller ones are there.\<close>

definition fresh_bytes :: "(nat \<Rightarrow> u8) \<Rightarrow> nat \<Rightarrow> u8 list" where
  "fresh_bytes heap n = map heap [0..<n]"

definition new_bytes :: "(nat \<Rightarrow> u8) \<Rightarrow> nat \<Rightarrow> u32 \<Rightarrow> u8 list mem" where
  "new_bytes heap width n = (if sint n < 0 then Fault else Ret (fresh_bytes heap (width * unat n)))"

text \<open>What the characters of a string can be accessed as.\<close>

definition c_str :: "u8 list \<Rightarrow> u8 list" where
  "c_str bs = bs @ [0]"

definition search_sensors :: "'c depth_sensor_interface \<Rightarrow> ('c, 'd) sdk \<Rightarrow> ServerResponse" where
  "search_sensors ops s =
     (if depthSensors s < 1
      then new_response\<lparr>message := ''No depth sensors are available'', rp_status := UNREACHABLE\<rparr>
      else new_response\<lparr>
        sensors_info := Some
          \<lparr>info_storages = zip (map fst (storages s)) (map word_of_nat [0..<length (storages s)]),
           temp_sensors = zip (temperatureSensors s) (map word_of_nat [0..<length (temperatureSensors s)]),
           image_sensors = snd (ds_getName ops (camDepthSensor s))\<rparr>,
        card_image_version := Some (versions s), rp_status := OK\<rparr>)"

definition read_registers_request ::
  "'c depth_sensor_interface \<Rightarrow> (nat \<Rightarrow> u8) \<Rightarrow> ClientRequest \<Rightarrow> ('c, 'd) sdk \<Rightarrow> (ServerResponse \<times> ('c, 'd) sdk) mem" where
  "read_registers_request ops heap request s =
     (case param (func_int32_param request) 0 of Fault \<Rightarrow> Fault | Ret n \<Rightarrow>
      (case param (func_bytes_param request) 0 of Fault \<Rightarrow> Fault | Ret address \<Rightarrow>
       (case new_bytes heap 2 n of Fault \<Rightarrow> Fault | Ret data \<Rightarrow>
        (case param (func_int32_param request) 1 of Fault \<Rightarrow> Fault | Ret burst \<Rightarrow>
         (case ds_readRegisters ops (c_str address) data (unat n) (burst \<noteq> 0) (camDepthSensor s) of
            Fault \<Rightarrow> Fault
          | Ret (r, data, c) \<Rightarrow>
              Ret (new_response\<lparr>bytes_payload := (if r = OK then [data] else []), rp_status := r\<rparr>,
                   s\<lparr>camDepthSensor := c\<rparr>))))))"

definition write_registers_request ::
  "'c depth_sensor_interface \<Rightarrow> ClientRequest \<Rightarrow> ('c, 'd) sdk \<Rightarrow> (ServerResponse \<times> ('c, 'd) sdk) mem" where
  "write_registers_request ops request s =
     (case param (func_int32_param request) 0 of Fault \<Rightarrow> Fault | Ret n \<Rightarrow>
      (case param (func_bytes_param request) 0 of Fault \<Rightarrow> Fault | Ret address \<Rightarrow>
       (case param (func_bytes_param request) 1 of Fault \<Rightarrow> Fault | Ret data \<Rightarrow>
        (case param (func_int32_param request) 1 of Fault \<Rightarrow> Fault | Ret burst \<Rightarrow>
         (case ds_writeRegisters ops (c_str address) (c_str data) (nat (sint n mod 2 ^ 64)) (burst \<noteq> 0) (camDepthSensor s) of
            Fault \<Rightarrow> Fault
          | Ret (r, c) \<Rightarrow> Ret (new_response\<lparr>rp_status := r\<rparr>, s\<lparr>camDepthSensor := c\<rparr>))))))"

definition read_cmd_request ::
  "'c depth_sensor_interface \<Rightarrow> (nat \<Rightarrow> u8) \<Rightarrow> ClientRequest \<Rightarrow> ('c, 'd) sdk \<Rightarrow> (ServerResponse \<times> ('c, 'd) sdk) mem" where
  "read_cmd_request ops heap request s =
     (case param (func_int32_param request) 0 of Fault \<Rightarrow> Fault | Ret cmd \<Rightarrow>
      (case param (func_int32_param request) 1 of Fault \<Rightarrow> Fault | Ret us \<Rightarrow>
       (case ds_read_cmd ops (ucast cmd) (get16 (fresh_bytes heap 2) 0) us (camDepthSensor s) of
          Fault \<Rightarrow> Fault
        | Ret (r, v, c) \<Rightarrow>
            Ret (new_response\<lparr>bytes_payload := (if r = OK then [le16 v] else []), rp_status := r\<rparr>,
                 s\<lparr>camDepthSensor := c\<rparr>))))"

definition write_cmd_request ::
  "'c depth_sensor_interface \<Rightarrow> ClientRequest \<Rightarrow> ('c, 'd) sdk \<Rightarrow> (ServerResponse \<times> ('c, 'd) sdk) mem" where
  "write_cmd_request ops request s =
     (case param (func_int32_param request) 0 of Fault \<Rightarrow> Fault | Ret cmd \<Rightarrow>
      (case param (func_bytes_param request) 0 of Fault \<Rightarrow> Fault | Ret bytes \<Rightarrow>
       (case mem_read 2 (c_str bytes) of Fault \<Rightarrow> Fault | Ret data \<Rightarrow>
        (case ds_write_cmd ops (ucast cmd) (get16 data 0) (camDepthSensor s) of
           Fault \<Rightarrow> Fault
         | Ret (r, c) \<Rightarrow> Ret (new_response\<lparr>rp_status := r\<rparr>, s\<lparr>camDepthSensor := c\<rparr>)))))"

definition read_payload_cmd_request ::
  "'c depth_sensor_interface \<Rightarrow> (nat \<Rightarrow> u8) \<Rightarrow> ClientRequest \<Rightarrow> ('c, 'd) sdk \<Rightarrow> (ServerResponse \<times> ('c, 'd) sdk) mem" where
  "read_payload_cmd_request ops heap request s =
     (case param (func_int32_param request) 0 of Fault \<Rightarrow> Fault | Ret cmd \<Rightarrow>
      (case param (func_int32_param request) 1 of Fault \<Rightarrow> Fault | Ret len \<Rightarrow>
       (case param (func_bytes_param request) 0 of Fault \<Rightarrow> Fault | Ret bytes \<Rightarrow>
        (case mem_read 4 (c_str bytes) of Fault \<Rightarrow> Fault | Ret first \<Rightarrow>
         (case mem_write 0 first (fresh_bytes heap (unat (ucast len :: u16))) of Fault \<Rightarrow> Fault | Ret data \<Rightarrow>
          (case ds_read_payload_cmd ops cmd data (ucast len) (camDepthSensor s) of
             Fault \<Rightarrow> Fault
           | Ret (r, data, c) \<Rightarrow>
               Ret (new_response\<lparr>bytes_payload := (if r = OK then [data] else []), rp_status := r\<rparr>,
                    s\<lparr>camDepthSensor := c\<rparr>)))))))"

definition read_payload_request ::
  "'c depth_sensor_interface \<Rightarrow> (nat \<Rightarrow> u8) \<Rightarrow> ClientRequest \<Rightarrow> ('c, 'd) sdk \<Rightarrow> (ServerResponse \<times> ('c, 'd) sdk) mem" where
  "read_payload_request ops heap request s =
     (case param (func_int32_param request) 0 of Fault \<Rightarrow> Fault | Ret len \<Rightarrow>
      (case ds_read_payload ops (fresh_bytes heap (unat (ucast len :: u16))) (ucast len) (camDepthSensor s) of
         Fault \<Rightarrow> Fault
       | Ret (r, data, c) \<Rightarrow>
           Ret (new_response\<lparr>bytes_payload := (if r = OK then [data] else []), rp_status := r\<rparr>,
                s\<lparr>camDepthSensor := c\<rparr>)))"

definition write_payload_cmd_request ::
  "'c depth_sensor_interface \<Rightarrow> ClientRequest \<Rightarrow> ('c, 'd) sdk \<Rightarrow> (ServerResponse \<times> ('c, 'd) sdk) mem" where
  "write_payload_cmd_request ops request s =
     (case param (func_int32_param request) 0 of Fault \<Rightarrow> Fault | Ret cmd \<Rightarrow>
      (case param (func_int32_param request) 1 of Fault \<Rightarrow> Fault | Ret len \<Rightarrow>
       (case param (func_bytes_param request) 0 of Fault \<Rightarrow> Fault | Ret bytes \<Rightarrow>
        (case ds_write_payload_cmd ops cmd (c_str bytes) (ucast len) (camDepthSensor s) of
           Fault \<Rightarrow> Fault
         | Ret (r, c) \<Rightarrow> Ret (new_response\<lparr>rp_status := r\<rparr>, s\<lparr>camDepthSensor := c\<rparr>)))))"

definition write_payload_request ::
  "'c depth_sensor_interface \<Rightarrow> ClientRequest \<Rightarrow> ('c, 'd) sdk \<Rightarrow> (ServerResponse \<times> ('c, 'd) sdk) mem" where
  "write_payload_request ops request s =
     (case param (func_int32_param request) 0 of Fault \<Rightarrow> Fault | Ret len \<Rightarrow>
      (case param (func_bytes_param request) 0 of Fault \<Rightarrow> Fault | Ret bytes \<Rightarrow>
       (case ds_write_payload ops (c_str bytes) (ucast len) (camDepthSensor s) of
          Fault \<Rightarrow> Fault
        | Ret (r, c) \<Rightarrow> Ret (new_response\<lparr>rp_status := r\<rparr>, s\<lparr>camDepthSensor := c\<rparr>))))"

text \<open>The requests to a storage go to the first one.\<close>

definition storage_read_request ::
  "'d storage_interface \<Rightarrow> (nat \<Rightarrow> u8) \<Rightarrow> ClientRequest \<Rightarrow> ('c, 'd) sdk \<Rightarrow> (ServerResponse \<times> ('c, 'd) sdk) mem" where
  "storage_read_request sops heap request s =
     (case param (func_int32_param request) 0 of Fault \<Rightarrow> Fault | Ret n \<Rightarrow>
      (case param (func_int32_param request) 1 of Fault \<Rightarrow> Fault | Ret address \<Rightarrow>
       (case new_bytes heap 1 n of Fault \<Rightarrow> Fault | Ret data \<Rightarrow>
        (case param (storages s) 0 of Fault \<Rightarrow> Fault | Ret (name, d) \<Rightarrow>
         (case st_read sops (unat address) True (unat n) d of (r, got) \<Rightarrow>
            Ret (new_response\<lparr>bytes_payload := (if r = OK then [take (unat n) (got @ drop (length got) data)] else []),
                   rp_status := r\<rparr>, s))))))"

definition storage_write_request ::
  "'d storage_interface \<Rightarrow> ClientRequest \<Rightarrow> ('c, 'd) sdk \<Rightarrow> (ServerResponse \<times> ('c, 'd) sdk) mem" where
  "storage_write_request sops request s =
     (case param (func_int32_param request) 0 of Fault \<Rightarrow> Fault | Ret n \<Rightarrow>
      (case param (func_int32_param request) 1 of Fault \<Rightarrow> Fault | Ret address \<Rightarrow>
       (case param (func_bytes_param request) 0 of Fault \<Rightarrow> Fault | Ret bytes \<Rightarrow>
        (case param (storages s) 0 of Fault \<Rightarrow> Fault | Ret (name, d) \<Rightarrow>
         (case mem_read (nat (sint n mod 2 ^ 64)) (c_str bytes) of Fault \<Rightarrow> Fault | Ret data \<Rightarrow>
          (case st_write sops (unat address) (Some data) d of (r, d) \<Rightarrow>
             Ret (new_response\<lparr>rp_status := r\<rparr>, s\<lparr>storages := (storages s)[0 := (name, d)]\<rparr>)))))))"

definition storage_capacity_request ::
  "'d storage_interface \<Rightarrow> ('c, 'd) sdk \<Rightarrow> (ServerResponse \<times> ('c, 'd) sdk) mem" where
  "storage_capacity_request sops s =
     (case param (storages s) 0 of Fault \<Rightarrow> Fault | Ret (name, d) \<Rightarrow>
      (case st_getCapacity sops d of (r, n) \<Rightarrow>
         Ret (new_response\<lparr>int32_payload := (if r = OK then [word_of_nat n] else []), rp_status := r\<rparr>, s)))"

definition serve_request ::
  "'c depth_sensor_interface \<Rightarrow> 'd storage_interface \<Rightarrow> (nat \<Rightarrow> u8) \<Rightarrow> ClientRequest \<Rightarrow> ('c, 'd) sdk \<Rightarrow>
   (ServerResponse \<times> ('c, 'd) sdk) mem" where
  "serve_request ops sops heap request s =
     (case func_name request of
        SEARCH_SENSORS \<Rightarrow> Ret (search_sensors ops s, s)
      | GET_AVAILABLE_FRAME_TYPES \<Rightarrow>
          (case ds_getAvailableFrameTypes ops (camDepthSensor s) of
             Fault \<Rightarrow> Fault
           | Ret (r, ts, c) \<Rightarrow>
               Ret (new_response\<lparr>available_frame_types := convertDepthSensorFrameTypesToProtoMsg ts, rp_status := OK\<rparr>,
                    s\<lparr>camDepthSensor := c\<rparr>))
      | SET_FRAME_TYPE \<Rightarrow>
          (case ds_setFrameType ops (convertProtoMsgToDepthSensorFrameType (frame_type request) empty_frame_type)
                  (camDepthSensor s) of
             Fault \<Rightarrow> Fault
           | Ret (r, c) \<Rightarrow> Ret (new_response\<lparr>rp_status := r\<rparr>, s\<lparr>camDepthSensor := c\<rparr>))
      | READ_REGISTERS \<Rightarrow> read_registers_request ops heap request s
      | WRITE_REGISTERS \<Rightarrow> write_registers_request ops request s
      | GET_AVAILABLE_CONTROLS \<Rightarrow>
          (case ds_getAvailableControls ops (camDepthSensor s) of
             Fault \<Rightarrow> Fault
           | Ret (r, cs, c) \<Rightarrow> Ret (new_response\<lparr>strings_payload := cs, rp_status := r\<rparr>, s\<lparr>camDepthSensor := c\<rparr>))
      | SET_CONTROL \<Rightarrow>
          (case param (func_strings_param request) 0 of Fault \<Rightarrow> Fault | Ret name \<Rightarrow>
           (case param (func_strings_param request) 1 of Fault \<Rightarrow> Fault | Ret val \<Rightarrow>
            (case ds_setControl ops name val (camDepthSensor s) of
               Fault \<Rightarrow> Fault
             | Ret (r, c) \<Rightarrow> Ret (new_response\<lparr>rp_status := r\<rparr>, s\<lparr>camDepthSensor := c\<rparr>))))
      | GET_CONTROL \<Rightarrow>
          (case param (func_strings_param request) 0 of Fault \<Rightarrow> Fault | Ret name \<Rightarrow>
           (case ds_getControl ops name [] (camDepthSensor s) of
              Fault \<Rightarrow> Fault
            | Ret (r, val, c) \<Rightarrow> Ret (new_response\<lparr>strings_payload := [val], rp_status := r\<rparr>, s\<lparr>camDepthSensor := c\<rparr>)))
      | ADSD3500_READ_CMD \<Rightarrow> read_cmd_request ops heap request s
      | ADSD3500_WRITE_CMD \<Rightarrow> write_cmd_request ops request s
      | ADSD3500_READ_PAYLOAD_CMD \<Rightarrow> read_payload_cmd_request ops heap request s
      | ADSD3500_READ_PAYLOAD \<Rightarrow> read_payload_request ops heap request s
      | ADSD3500_WRITE_PAYLOAD_CMD \<Rightarrow> write_payload_cmd_request ops request s
      | ADSD3500_WRITE_PAYLOAD \<Rightarrow> write_payload_request ops request s
      | ADSD3500_RESET \<Rightarrow> Ret (new_response\<lparr>rp_status := OK\<rparr>, s\<lparr>modeChanged := True\<rparr>)
      | STORAGE_OPEN \<Rightarrow> Ret (new_response\<lparr>rp_status := OK\<rparr>, s)
      | STORAGE_READ \<Rightarrow> storage_read_request sops heap request s
      | STORAGE_WRITE \<Rightarrow> storage_write_request sops request s
      | STORAGE_CLOSE \<Rightarrow> Ret (new_response\<lparr>rp_status := OK\<rparr>, s)
      | STORAGE_READ_CAPACITY \<Rightarrow> storage_capacity_request sops s
      | Unknown_Function n \<Rightarrow>
          Ret (new_response\<lparr>message := ''Unknown function name set in the client request'', rp_status := INVALID_ARGUMENT\<rparr>, s))"

text \<open>
  The bytes are copied and a zero is put behind them; as a string they end at the first zero.
  Whether they parse is not looked at.
\<close>

definition handleClientRequest ::
  "(u8 list \<Rightarrow> bool \<times> ClientRequest) \<Rightarrow> (ServerResponse \<Rightarrow> u8 list) \<Rightarrow> 'c depth_sensor_interface \<Rightarrow> 'd storage_interface \<Rightarrow>
   (nat \<Rightarrow> u8) \<Rightarrow> u8 list \<Rightarrow> ('c, 'd) sdk \<Rightarrow> (u8 list \<times> ('c, 'd) sdk) mem" where
  "handleClientRequest parse serialize ops sops heap in_buf s =
     (case parse (takeWhile (\<lambda>b. b \<noteq> 0) (in_buf @ [0])) of (parsed, request) \<Rightarrow>
      (case serve_request ops sops heap request s of
         Fault \<Rightarrow> Fault
       | Ret (response, s) \<Rightarrow> Ret (serialize response, s)))"

end
