(* ===== verification/Mode_Info.thy ===== *)
theory Mode_Info
  imports Storage
begin

text \<open>
  The modes of the imagers, \<^verbatim>\<open>sdk/src/cameras/itof-camera/mode_info.cpp\<close>: the tables, which of them
  is in use, and how the name of a mode becomes its number. The singleton is a record that its
  users hold.
\<close>

section \<open>The tables\<close>

record modeInfo =
  mode_nr :: u8
  mode_width :: u16
  mode_height :: u16
  subframes :: u8
  embed_width :: u16
  embed_height :: u16
  passive_ir :: u8
  mode_name :: string

definition mode_row :: "u8 \<Rightarrow> u16 \<Rightarrow> u16 \<Rightarrow> u8 \<Rightarrow> u16 \<Rightarrow> u16 \<Rightarrow> u8 \<Rightarrow> string \<Rightarrow> modeInfo" where
  "mode_row m w h n ew eh p name =
     \<lparr>mode_nr = m, mode_width = w, mode_height = h, subframes = n, embed_width = ew, embed_height = eh,
      passive_ir = p, mode_name = name\<rparr>"

definition g_oldModes :: "modeInfo list" where
  "g_oldModes =
     [mode_row 1 320 288 9 2162 288 0 ''lt_bin'',
      mode_row 3 1024 1024 1 12289 64 1 ''pcmmp'',
      mode_row 7 512 512 10 2195 896 1 ''qmp'',
      mode_row 10 1024 1024 9 12289 576 0 ''mp'']"

definition g_oldModesAdsd3030 :: "modeInfo list" where
  "g_oldModesAdsd3030 = [mode_row 5 512 640 1 1670 1472 1 ''vga'']"

definition g_newModesAdsd3100 :: "modeInfo list" where
  "g_newModesAdsd3100 =
     [mode_row 0 1024 1024 6 49156 96 0 ''sr-native'',
      mode_row 1 1024 1024 9 49156 144 0 ''lr-native'',
      mode_row 2 512 512 6 12292 96 0 ''sr-qnative'',
      mode_row 3 512 512 9 18438 96 0 ''lr-qnative'',
      mode_row 4 1024 1024 1 49156 16 1 ''pcmmp'']"

definition g_newModesAdsd3500 :: "modeInfo list" where
  "g_newModesAdsd3500 =
     [mode_row 0 1024 1024 2 49156 96 0 ''sr-native'',
      mode_row 1 1024 1024 3 49156 144 0 ''lr-native'',
      mode_row 2 512 512 1 12292 96 0 ''sr-qnative'',
      mode_row 3 512 512 1 18438 96 0 ''lr-qnative'',
      mode_row 4 1024 1024 1 18438 96 1 ''pcm-native'']"

definition g_newModesAdsd3030 :: "modeInfo list" where
  "g_newModesAdsd3030 =
     [mode_row 0 512 640 1 1670 1472 1 ''sr-native'',
      mode_row 1 512 640 1 1670 1472 1 ''lr-native'',
      mode_row 2 256 320 1 1670 1472 1 ''sr-qnative'',
      mode_row 3 256 320 1 1670 1472 1 ''lr-qnative'',
      mode_row 4 512 640 1 18438 96 1 ''pcm-native'']"

definition g_newMixedModesAdsd3500 :: "modeInfo list" where
  "g_newMixedModesAdsd3500 =
     [mode_row 0 1024 1024 2 49156 96 0 ''sr-native'',
      mode_row 1 1024 1024 3 49156 144 0 ''lr-native'',
      mode_row 2 512 512 1 12292 96 0 ''sr-qnative'',
      mode_row 3 512 512 1 18438 96 0 ''lr-qnative'',
      mode_row 4 1024 1024 1 18438 96 1 ''pcm-native'',
      mode_row 6 512 512 1 12292 96 0 ''sr-mixed'',
      mode_row 5 512 512 1 18438 96 0 ''lr-mixed'']"

definition g_newMixedModesAdsd3030 :: "modeInfo list" where
  "g_newMixedModesAdsd3030 =
     [mode_row 0 512 640 1 1670 1472 1 ''sr-native'',
      mode_row 1 512 640 1 1670 1472 1 ''lr-native'',
      mode_row 2 256 320 1 1670 1472 1 ''sr-qnative'',
      mode_row 3 256 320 1 1670 1472 1 ''lr-qnative'',
      mode_row 4 512 640 1 18438 96 1 ''pcm-native'',
      mode_row 6 256 320 1 1670 1472 0 ''sr-mixed'',
      mode_row 5 256 320 1 1670 1472 0 ''lr-mixed'']"

section \<open>The table in use\<close>

record mode_state =
  g_imagerType :: int
  g_modeVersion :: int
  g_modeInfoData :: "modeInfo list"

definition mode_start :: mode_state where
  "mode_start = \<lparr>g_imagerType = 1, g_modeVersion = 2, g_modeInfoData = g_newModesAdsd3500\<rparr>"

definition no_mode :: modeInfo where
  "no_mode = mode_row 0 0 0 0 0 0 0 ''''"

definition getModeInfo :: "u32 \<Rightarrow> mode_state \<Rightarrow> modeInfo" where
  "getModeInfo mode m =
     (case find (\<lambda>i. ucast (mode_nr i) = mode) (g_modeInfoData m) of Some i \<Rightarrow> i | None \<Rightarrow> no_mode)"

definition getModeInfo_name :: "string \<Rightarrow> mode_state \<Rightarrow> modeInfo" where
  "getModeInfo_name mode m =
     (case find (\<lambda>i. mode_name i = mode) (g_modeInfoData m) of Some i \<Rightarrow> i | None \<Rightarrow> no_mode)"

text \<open>The number is written only when there is a mode of that name.\<close>

definition convertCameraMode :: "string \<Rightarrow> mode_state \<Rightarrow> status \<times> u8 option" where
  "convertCameraMode mode m =
     (case find (\<lambda>i. mode = mode_name i) (g_modeInfoData m) of
        None \<Rightarrow> (INVALID_ARGUMENT, None)
      | Some i \<Rightarrow> (OK, Some (mode_nr i)))"

definition mode_table :: "int \<Rightarrow> int \<Rightarrow> modeInfo list" where
  "mode_table type version =
     (if type = 1
      then if version = 3 then g_newMixedModesAdsd3500
           else if version = 2 then g_newModesAdsd3500
           else if version = 1 then g_newModesAdsd3100
           else g_oldModes
      else if version = 3 then g_newMixedModesAdsd3030
           else if version = 2 then g_newModesAdsd3030
           else g_oldModesAdsd3030)"

definition setImagerTypeAndModeVersion :: "int \<Rightarrow> int \<Rightarrow> mode_state \<Rightarrow> status \<times> mode_state" where
  "setImagerTypeAndModeVersion type version m =
     (if type \<noteq> 1 \<and> type \<noteq> 2 then (INVALID_ARGUMENT, m)
      else let m = m\<lparr>g_imagerType := type\<rparr> in
        if version < 0 \<or> 3 < version then (INVALID_ARGUMENT, m)
        else (OK, m\<lparr>g_modeVersion := version, g_modeInfoData := mode_table type version\<rparr>))"

section \<open>What the tables give\<close>

text \<open>The table in use is that of the type and version; both are in range.\<close>

definition modes_ok :: "mode_state \<Rightarrow> bool" where
  "modes_ok m \<longleftrightarrow> (\<exists>t v. (t = 1 \<or> t = 2) \<and> 0 \<le> v \<and> v \<le> 3 \<and> g_modeInfoData m = mode_table t v)"

lemma modes_start: "modes_ok mode_start"
  unfolding modes_ok_def by (rule exI [of _ 1], rule exI [of _ 2]) (simp add: mode_start_def mode_table_def)

lemma set_modes_ok: "modes_ok m \<Longrightarrow> modes_ok (snd (setImagerTypeAndModeVersion t v m))"
proof -
  assume m: "modes_ok m"
  show ?thesis
  proof (cases "(t = 1 \<or> t = 2) \<and> 0 \<le> v \<and> v \<le> 3")
    case True
    then have "setImagerTypeAndModeVersion t v m = (OK, m\<lparr>g_imagerType := t, g_modeVersion := v, g_modeInfoData := mode_table t v\<rparr>)"
      by (auto simp: setImagerTypeAndModeVersion_def Let_def)
    then show ?thesis using True unfolding modes_ok_def by auto
  next
    case False
    then have "g_modeInfoData (snd (setImagerTypeAndModeVersion t v m)) = g_modeInfoData m"
      by (auto simp: setImagerTypeAndModeVersion_def Let_def)
    then show ?thesis using m by (simp add: modes_ok_def)
  qed
qed

lemma versions: "0 \<le> v \<Longrightarrow> v \<le> 3 \<Longrightarrow> v = 0 \<or> v = 1 \<or> v = 2 \<or> v = (3 :: int)"
  by presburger

text \<open>No name and no number occurs twice in a table.\<close>

definition unambiguous :: "modeInfo list \<Rightarrow> bool" where
  "unambiguous t \<longleftrightarrow> distinct (map mode_name t) \<and> distinct (map mode_nr t)"

lemma tables_unambiguous:
  "unambiguous g_oldModes" "unambiguous g_oldModesAdsd3030" "unambiguous g_newModesAdsd3100" "unambiguous g_newModesAdsd3500"
  "unambiguous g_newModesAdsd3030" "unambiguous g_newMixedModesAdsd3500" "unambiguous g_newMixedModesAdsd3030"
  by (simp_all add: unambiguous_def mode_row_def g_oldModes_def g_oldModesAdsd3030_def g_newModesAdsd3100_def g_newModesAdsd3500_def
      g_newModesAdsd3030_def g_newMixedModesAdsd3500_def g_newMixedModesAdsd3030_def)

lemma mode_table_distinct: "unambiguous (mode_table t v)"
  by (simp add: mode_table_def tables_unambiguous)

text \<open>Names and numbers of the modes in use determine each other.\<close>

lemma find_distinct: "distinct (map f xs) \<Longrightarrow> x \<in> set xs \<Longrightarrow> find (\<lambda>i. f i = f x) xs = Some x"
  by (induction xs) auto

lemma unat_ucast_u32: "unat (ucast (x :: u8) :: u32) = unat x"
  by (simp add: unsigned_ucast_eq take_bit_nat_eq_self_iff order_less_trans [OF unat_u8_bound])

lemma convert_get_mode:
  assumes "modes_ok m" "convertCameraMode name m = (OK, Some n)"
  shows "mode_name (getModeInfo (ucast n) m) = name" "getModeInfo_name name m = getModeInfo (ucast n) m"
proof -
  obtain t v where t: "t = 1 \<or> t = 2" "0 \<le> v" "v \<le> 3" "g_modeInfoData m = mode_table t v"
    using assms(1) by (auto simp: modes_ok_def)
  obtain i where "find (\<lambda>i. name = mode_name i) (g_modeInfoData m) = Some i" and n: "n = mode_nr i"
    using assms(2) by (auto simp: convertCameraMode_def split: option.splits)
  then have i: "i \<in> set (g_modeInfoData m)" "mode_name i = name" by (auto simp: find_Some_iff)
  have u: "(ucast (mode_nr j) = (ucast n :: u32)) = (mode_nr j = n)" for j :: modeInfo
    by (metis unat_ucast_u32 word_unat_eq_iff)
  have u: "(\<lambda>j :: modeInfo. ucast (mode_nr j) = (ucast n :: u32)) = (\<lambda>j. mode_nr j = mode_nr i)"
    unfolding n [symmetric] by (rule ext, rule u)
  have d: "distinct (map mode_name (g_modeInfoData m))" "distinct (map mode_nr (g_modeInfoData m))"
    using t(4) mode_table_distinct [of t v] by (simp_all add: unambiguous_def)
  have "getModeInfo (ucast n) m = i"
    using find_distinct [OF d(2) i(1)] unfolding getModeInfo_def u by simp
  moreover have "getModeInfo_name name m = i"
    using find_distinct [OF d(1) i(1)] by (simp add: getModeInfo_name_def i(2))
  ultimately show "mode_name (getModeInfo (ucast n) m) = name" "getModeInfo_name name m = getModeInfo (ucast n) m"
    using i(2) by simp_all
qed

end
