(* ===== verification/Adsd3500_Sensor.thy ===== *)
theory Adsd3500_Sensor
  imports Mode_Info Sensor_Interface C_String Bytes
begin

text \<open>
  The ADSD3500 as a depth sensor of the SDK on the target,
  \<^verbatim>\<open>sdk/src/connections/target/adsd3500_sensor.cpp\<close>, as it is built for NXP: the devices it opens, the
  mode and the buffers it sets up, frames, controls, and the commands of the processor, which go
  through one control of the driver.

  The static buffer of each command function is a field of the state, the device nodes are answered
  by an environment. Log messages are left out.
\<close>

section \<open>Calls\<close>

datatype srequest =
    QUERYCAP
  | S_CTRL u32 int
  | G_CTRL u32
  | S_EXT_CTRLS u32 "u8 list"
  | G_EXT_CTRLS u32 "u8 list"
  | S_PARM int
  | S_FMT u32 u32 u32 u32
  | REQBUFS u32 nat
  | QUERYBUF u32 nat
  | QBUF u32 nat
  | DQBUF u32
  | STREAMON u32
  | STREAMOFF u32

datatype scall =
    Stat string
  | Open_Node string
  | Close_Node int
  | Ioctl int srequest
  | Map_Buffer int nat nat
  | Unmap_Buffer nat nat
  | Calloc_Buffers nat
  | Free_Buffers
  | Wait_Readable int nat
  | Usleep nat
  | Shell string
  | Interrupts_Available
  | Subscribe_Sensor

text \<open>What a call answers: its result and \<^verbatim>\<open>errno\<close>, and what it wrote.\<close>

record sanswer =
  sa_ret :: int
  sa_errno :: int
  sa_chr :: bool
  sa_caps :: u32
  sa_card :: string
  sa_value :: int
  sa_bytes :: "u8 list"
  sa_count :: nat
  sa_length :: nat
  sa_offset :: nat
  sa_index :: nat
  sa_bytesused :: nat
  sa_addr :: nat
  sa_data :: "u8 list"

type_synonym senv = "scall list \<Rightarrow> scall \<Rightarrow> sanswer"

section \<open>The state\<close>

text \<open>A buffer is the address where it is mapped and its length.\<close>

abbreviation MAP_FAILED :: nat where "MAP_FAILED \<equiv> 2 ^ 64 - 1"

record VideoDev =
  vd_fd :: int
  vd_sfd :: int
  videoBuffers :: "(nat \<times> nat) list option"
  nVideoBuffers :: nat
  videoBuffersType :: u32
  vd_started :: bool

definition new_VideoDev :: VideoDev where
  "new_VideoDev = \<lparr>vd_fd = -1, vd_sfd = -1, videoBuffers = None, nVideoBuffers = 0, videoBuffersType = 0,
     vd_started = False\<rparr>"

datatype ImagerType = IMAGER_UNKNOWN | IMAGER_ADSD3100 | IMAGER_ADSD3030
datatype CCBVersion = CCB_UNKNOWN | CCB_VERSION0 | CCB_VERSION1

fun imager_int :: "ImagerType \<Rightarrow> int" where
  "imager_int IMAGER_UNKNOWN = 0" | "imager_int IMAGER_ADSD3100 = 1" | "imager_int IMAGER_ADSD3030 = 2"

fun ccb_int :: "CCBVersion \<Rightarrow> int" where
  "ccb_int CCB_UNKNOWN = 0" | "ccb_int CCB_VERSION0 = 1" | "ccb_int CCB_VERSION1 = 2"

record sensor =
  s_calls :: "scall list"
  driverPath :: string
  driverSubPath :: string
  captureDev :: string
  hostConnectionType :: ConnectionType
  firstRun :: bool
  adsd3500Queried :: bool
  controls :: "(string \<times> string) list"
  numVideoDevs :: nat
  videoDevs :: "VideoDev list option"
  frameType :: DepthSensorFrameType
  imagerType :: ImagerType
  ccbVersion :: CCBVersion
  s_fw_ver :: "u8 list"
  availableTypes :: "DepthSensorFrameType list"
  sensorFps :: int
  modes :: mode_state
  interruptCallback :: "nat option"
  read_cmd_buf :: "u8 list"
  write_cmd_buf :: "u8 list"
  read_payload_cmd_buf :: "u8 list"
  read_payload_buf :: "u8 list"
  write_payload_cmd_buf :: "u8 list"
  write_payload_buf :: "u8 list"

abbreviation V4L2_CID_AD_DEV_CHIP_CONFIG :: u32 where "V4L2_CID_AD_DEV_CHIP_CONFIG \<equiv> 0x9819e1"
abbreviation CTRL_SET_MODE :: u32 where "CTRL_SET_MODE \<equiv> 0x9819e0"
abbreviation BUF_TYPE_CAPTURE :: u32 where "BUF_TYPE_CAPTURE \<equiv> 1"
abbreviation BUF_TYPE_CAPTURE_MPLANE :: u32 where "BUF_TYPE_CAPTURE_MPLANE \<equiv> 9"
abbreviation CAP_VIDEO_CAPTURE :: u32 where "CAP_VIDEO_CAPTURE \<equiv> 0x1"
abbreviation CAP_VIDEO_CAPTURE_MPLANE :: u32 where "CAP_VIDEO_CAPTURE_MPLANE \<equiv> 0x1000"
abbreviation CAP_STREAMING :: u32 where "CAP_STREAMING \<equiv> 0x4000000"
abbreviation PIX_FMT_SBGGR8 :: u32 where "PIX_FMT_SBGGR8 \<equiv> 0x31384142"
abbreviation PIX_FMT_SBGGR12 :: u32 where "PIX_FMT_SBGGR12 \<equiv> 0x32314742"

definition EXTRA_BUFFERS_COUNT :: nat where "EXTRA_BUFFERS_COUNT = 3"

text \<open>The constructor; what the connection type is before it is set is an argument.\<close>

definition new_controls :: "(string \<times> string) list" where
  "new_controls =
     [(''abAveraging'', ''0''), (''depthEnable'', ''0''), (''phaseDepthBits'', ''0''), (''abBits'', ''0''),
      (''confidenceBits'', ''0''), (''modeInfoVersion'', ''0''), (''fps'', ''0''), (''imagerType'', '''')]"

definition controlsCommands :: "string \<Rightarrow> u32" where
  "controlsCommands c =
     (if c = ''abAveraging'' then 0x9819e5
      else if c = ''depthEnable'' then 0x9819e6
      else if c = ''phaseDepthBits'' then 0x9819e2
      else if c = ''abBits'' then 0x9819e3
      else if c = ''confidenceBits'' then 0x9819e4
      else 0)"

definition no_frame_type :: DepthSensorFrameType where
  "no_frame_type = \<lparr>ft_type = '''', ft_content = [], ft_width = 0, ft_height = 0\<rparr>"

definition Adsd3500Sensor :: "string \<Rightarrow> string \<Rightarrow> string \<Rightarrow> ConnectionType \<Rightarrow> mode_state \<Rightarrow> sensor" where
  "Adsd3500Sensor path sub cap con m =
     \<lparr>s_calls = [], driverPath = path, driverSubPath = sub, captureDev = cap, hostConnectionType = con,
      firstRun = True, adsd3500Queried = False, controls = new_controls, numVideoDevs = 1, videoDevs = None,
      frameType = no_frame_type, imagerType = IMAGER_UNKNOWN, ccbVersion = CCB_UNKNOWN, s_fw_ver = [],
      availableTypes = [], sensorFps = 0, modes = m, interruptCallback = None,
      read_cmd_buf = replicate 4099 0, write_cmd_buf = replicate 4099 0, read_payload_cmd_buf = replicate 4099 0,
      read_payload_buf = replicate 4099 0, write_payload_cmd_buf = replicate 4099 0,
      write_payload_buf = replicate 4099 0\<rparr>"

section \<open>System calls\<close>

definition node :: "senv \<Rightarrow> scall \<Rightarrow> sensor \<Rightarrow> sanswer \<times> sensor" where
  "node k c s = (k (s_calls s) c, s\<lparr>s_calls := s_calls s @ [c]\<rparr>)"

text \<open>A call that is interrupted is made again, three times at most.\<close>

fun xioctl_tries :: "nat \<Rightarrow> senv \<Rightarrow> int \<Rightarrow> srequest \<Rightarrow> sensor \<Rightarrow> sanswer \<times> sensor" where
  "xioctl_tries 0 k fd r s = node k (Ioctl fd r) s"
| "xioctl_tries (Suc n) k fd r s =
     (case node k (Ioctl fd r) s of (a, s) \<Rightarrow>
        if 0 < n \<and> sa_ret a = -1 \<and> sa_errno a = 4 then xioctl_tries n k fd r s else (a, s))"

definition xioctl :: "senv \<Rightarrow> int \<Rightarrow> srequest \<Rightarrow> sensor \<Rightarrow> sanswer \<times> sensor" where
  "xioctl k fd r s = xioctl_tries 3 k fd r s"

text \<open>A control with a buffer: what the driver hands back replaces the beginning of the buffer.\<close>

definition put_back :: "u8 list \<Rightarrow> u8 list \<Rightarrow> u8 list" where
  "put_back got buf = take (length buf) (got @ drop (length got) buf)"

definition set_chip :: "senv \<Rightarrow> int \<Rightarrow> u8 list \<Rightarrow> sensor \<Rightarrow> bool \<times> u8 list \<times> sensor" where
  "set_chip k fd buf s =
     (case xioctl k fd (S_EXT_CTRLS V4L2_CID_AD_DEV_CHIP_CONFIG buf) s of (a, s) \<Rightarrow>
        (sa_ret a \<noteq> -1, put_back (sa_bytes a) buf, s))"

definition get_chip :: "senv \<Rightarrow> int \<Rightarrow> u8 list \<Rightarrow> sensor \<Rightarrow> bool \<times> u8 list \<times> sensor" where
  "get_chip k fd buf s =
     (case xioctl k fd (G_EXT_CTRLS V4L2_CID_AD_DEV_CHIP_CONFIG buf) s of (a, s) \<Rightarrow>
        (sa_ret a \<noteq> -1, put_back (sa_bytes a) buf, s))"

section \<open>The devices\<close>

definition dev_at :: "nat \<Rightarrow> sensor \<Rightarrow> VideoDev mem" where
  "dev_at i s =
     (case videoDevs s of None \<Rightarrow> Fault | Some ds \<Rightarrow> if i < length ds then Ret (ds ! i) else Fault)"

definition set_dev :: "nat \<Rightarrow> VideoDev \<Rightarrow> sensor \<Rightarrow> sensor" where
  "set_dev i d s = s\<lparr>videoDevs := map_option (\<lambda>ds. ds[i := d]) (videoDevs s)\<rparr>"

section \<open>Commands\<close>

definition hi8 :: "u16 \<Rightarrow> u8" where "hi8 x = ucast (drop_bit 8 x)"
definition lo8 :: "u16 \<Rightarrow> u8" where "lo8 x = ucast x"

definition adsd3500_read_cmd :: "senv \<Rightarrow> u16 \<Rightarrow> u16 \<Rightarrow> u32 \<Rightarrow> sensor \<Rightarrow> (status \<times> u16 \<times> sensor) mem" where
  "adsd3500_read_cmd k cmd data usDelay s =
     (case dev_at 0 s of Fault \<Rightarrow> Fault | Ret dev \<Rightarrow>
      (case set_chip k (vd_sfd dev) ([1, 0, 2, hi8 cmd, lo8 cmd] @ drop 5 (read_cmd_buf s)) s of (ok, buf, s) \<Rightarrow>
       if \<not> ok then Ret (GENERIC_ERROR, data, s\<lparr>read_cmd_buf := buf\<rparr>)
       else case set_chip k (vd_sfd dev) ([0, 0, 2] @ drop 3 buf) (snd (node k (Usleep (unat usDelay)) s)) of (ok, buf, s) \<Rightarrow>
       if \<not> ok then Ret (GENERIC_ERROR, data, s\<lparr>read_cmd_buf := buf\<rparr>)
       else case get_chip k (vd_sfd dev) buf s of (ok, buf, s) \<Rightarrow>
       if \<not> ok then Ret (GENERIC_ERROR, data, s\<lparr>read_cmd_buf := buf\<rparr>)
       else Ret (OK, push_bit 8 (ucast (buf ! 3)) + ucast (buf ! 4), s\<lparr>read_cmd_buf := buf\<rparr>)))"

definition adsd3500_write_cmd :: "senv \<Rightarrow> u16 \<Rightarrow> u16 \<Rightarrow> sensor \<Rightarrow> (status \<times> sensor) mem" where
  "adsd3500_write_cmd k cmd data s =
     (case dev_at 0 s of Fault \<Rightarrow> Fault | Ret dev \<Rightarrow>
      (case set_chip k (vd_sfd dev)
              ([1, 0, 4, hi8 cmd, lo8 cmd, hi8 data, lo8 data] @ drop 7 (write_cmd_buf s)) s of (ok, buf, s) \<Rightarrow>
       Ret (if ok then OK else GENERIC_ERROR, s\<lparr>write_cmd_buf := buf\<rparr>)))"

text \<open>The packet that switches the processor back from burst mode, with the header of the control.\<close>

definition switchBuf :: "u8 list" where
  "switchBuf = [0x01, 0x00, 0x10, 0xAD, 0x00, 0x00, 0x10, 0x00, 0x00, 0x00, 0x00, 0x10, 0x00, 0x00,
                0x00, 0x00, 0x00, 0x00, 0x00]"

definition checksum :: "u8 list \<Rightarrow> u32" where
  "checksum buf = sum_list (map ucast (take 7 (drop 4 buf)))"

text \<open>The last step of the two commands that transfer in burst mode.\<close>

definition switch_back :: "senv \<Rightarrow> int \<Rightarrow> u8 list \<Rightarrow> sensor \<Rightarrow> bool \<times> u8 list \<times> sensor" where
  "switch_back k fd buf s = set_chip k fd (switchBuf @ drop 19 buf) s"

definition read_payload_header :: "u32 \<Rightarrow> u8 \<Rightarrow> u8 list" where
  "read_payload_header cmd first =
     (let buf = [0x01, 0x00, 0x10, 0xAD, 0, 0, ucast cmd, 0, 0, 0, 0] in
      buf @ le32 (checksum buf) @ [first] @ replicate 4083 0)"

text \<open>The second half, from the request of the payload on.\<close>

definition burst_receive ::
  "senv \<Rightarrow> int \<Rightarrow> u32 \<Rightarrow> u8 list \<Rightarrow> u16 \<Rightarrow> u8 list \<Rightarrow> sensor \<Rightarrow> (status \<times> u8 list \<times> sensor) mem" where
  "burst_receive k fd cmd readback n buf s =
     (case set_chip k fd ([0, hi8 n, lo8 n] @ drop 3 buf) s of (ok, buf, s) \<Rightarrow>
      if \<not> ok then Ret (GENERIC_ERROR, readback, s\<lparr>read_payload_cmd_buf := buf\<rparr>)
      else case get_chip k fd buf s of (ok, buf, s) \<Rightarrow>
      if \<not> ok then Ret (GENERIC_ERROR, readback, s\<lparr>read_payload_cmd_buf := buf\<rparr>)
      else case mem_read (unat n) (drop 3 buf) of Fault \<Rightarrow> Fault | Ret got \<Rightarrow>
      (case mem_write 0 got readback of Fault \<Rightarrow> Fault | Ret readback \<Rightarrow>
       if cmd = 0x13 then Ret (OK, readback, s\<lparr>read_payload_cmd_buf := buf\<rparr>)
       else case switch_back k fd buf s of (ok, buf, s) \<Rightarrow>
         Ret (if ok then OK else GENERIC_ERROR, readback, s\<lparr>read_payload_cmd_buf := buf\<rparr>)))"

definition adsd3500_read_payload_cmd ::
  "senv \<Rightarrow> u32 \<Rightarrow> u8 list \<Rightarrow> u16 \<Rightarrow> sensor \<Rightarrow> (status \<times> u8 list \<times> sensor) mem" where
  "adsd3500_read_payload_cmd k cmd readback n s =
     (case adsd3500_write_cmd k 0x19 0 s of Fault \<Rightarrow> Fault | Ret (status, s) \<Rightarrow>
      if status \<noteq> OK then Ret (status, readback, s)
      else case dev_at 0 s of Fault \<Rightarrow> Fault | Ret dev \<Rightarrow>
      if readback = [] then Fault
      else case set_chip k (vd_sfd dev) (read_payload_header cmd (hd readback)) s of (ok, buf, s) \<Rightarrow>
      if \<not> ok then Ret (GENERIC_ERROR, readback, s\<lparr>read_payload_cmd_buf := buf\<rparr>)
      else burst_receive k (vd_sfd dev) cmd readback n buf
             (if cmd = 0x13 then snd (node k (Usleep 1000) s) else s))"

definition adsd3500_read_payload ::
  "senv \<Rightarrow> u8 list \<Rightarrow> u16 \<Rightarrow> sensor \<Rightarrow> (status \<times> u8 list \<times> sensor) mem" where
  "adsd3500_read_payload k payload n s =
     (case dev_at 0 s of Fault \<Rightarrow> Fault | Ret dev \<Rightarrow>
      (case set_chip k (vd_sfd dev) ([0, hi8 n, lo8 n] @ replicate 4096 0) (snd (node k (Usleep 30000) s)) of (ok, buf, s) \<Rightarrow>
       if \<not> ok then Ret (GENERIC_ERROR, payload, s\<lparr>read_payload_buf := buf\<rparr>)
       else case get_chip k (vd_sfd dev) buf s of (ok, buf, s) \<Rightarrow>
       if \<not> ok then Ret (GENERIC_ERROR, payload, s\<lparr>read_payload_buf := buf\<rparr>)
       else case mem_read (unat n) (drop 3 buf) of Fault \<Rightarrow> Fault | Ret got \<Rightarrow>
       (case mem_write 0 got payload of Fault \<Rightarrow> Fault | Ret payload \<Rightarrow>
          Ret (OK, payload, s\<lparr>read_payload_buf := buf\<rparr>))))"

text \<open>The bytes 7 to 10 of the header are those of the last packet; the lengths wrap at 16 bits.\<close>

definition write_payload_header :: "u32 \<Rightarrow> u16 \<Rightarrow> u8 list \<Rightarrow> u8 list" where
  "write_payload_header cmd n buf =
     (let buf = [0x01, hi8 (n + 16), lo8 (n + 16), 0xAD, hi8 n, lo8 n, ucast cmd] @ drop 7 buf in
      take 11 buf @ le32 (checksum buf) @ drop 15 buf)"

definition burst_send :: "senv \<Rightarrow> int \<Rightarrow> status \<Rightarrow> u8 list \<Rightarrow> sensor \<Rightarrow> status \<times> sensor" where
  "burst_send k fd status buf s =
     (case set_chip k fd buf s of (ok, buf, s) \<Rightarrow>
      if \<not> ok then (GENERIC_ERROR, s\<lparr>write_payload_cmd_buf := buf\<rparr>)
      else case switch_back k fd buf s of (ok, buf, s) \<Rightarrow>
        (if ok then status else GENERIC_ERROR, s\<lparr>write_payload_cmd_buf := buf\<rparr>))"

definition adsd3500_write_payload_cmd ::
  "senv \<Rightarrow> u32 \<Rightarrow> u8 list \<Rightarrow> u16 \<Rightarrow> sensor \<Rightarrow> (status \<times> sensor) mem" where
  "adsd3500_write_payload_cmd k cmd payload n s =
     (case adsd3500_write_cmd k 0x19 0 s of Fault \<Rightarrow> Fault | Ret (status, s) \<Rightarrow>
      (case dev_at 0 s of Fault \<Rightarrow> Fault | Ret dev \<Rightarrow>
       (case mem_read (unat n) payload of Fault \<Rightarrow> Fault | Ret bytes \<Rightarrow>
        (case mem_write 15 bytes (write_payload_header cmd n (write_payload_cmd_buf s)) of Fault \<Rightarrow> Fault | Ret buf \<Rightarrow>
         Ret (burst_send k (vd_sfd dev) status buf s)))))"

definition adsd3500_write_payload :: "senv \<Rightarrow> u8 list \<Rightarrow> u16 \<Rightarrow> sensor \<Rightarrow> (status \<times> sensor) mem" where
  "adsd3500_write_payload k payload n s =
     (case dev_at 0 s of Fault \<Rightarrow> Fault | Ret dev \<Rightarrow>
      (case mem_read (unat n) payload of Fault \<Rightarrow> Fault | Ret bytes \<Rightarrow>
       (case mem_write 3 bytes ([1, hi8 n, lo8 n] @ drop 3 (write_payload_buf s)) of Fault \<Rightarrow> Fault | Ret buf \<Rightarrow>
        (case set_chip k (vd_sfd dev) buf s of (ok, buf, s) \<Rightarrow>
         if \<not> ok then Ret (GENERIC_ERROR, s\<lparr>write_payload_buf := buf\<rparr>)
         else Ret (OK, (snd (node k (Usleep 100000) s))\<lparr>write_payload_buf := buf\<rparr>)))))"

definition adsd3500_reset :: "senv \<Rightarrow> sensor \<Rightarrow> status \<times> sensor" where
  "adsd3500_reset k s =
     (let s = snd (node k (Shell ''echo 0 > /sys/class/gpio/gpio122/value'') s);
          s = snd (node k (Usleep 1000000) s);
          s = snd (node k (Shell ''echo 1 > /sys/class/gpio/gpio122/value'') s);
          s = snd (node k (Usleep 7000000) s)
      in (OK, s))"

section \<open>Frame types\<close>

definition content :: "string \<Rightarrow> u32 \<Rightarrow> u32 \<Rightarrow> DepthSensorFrameContent" where
  "content t w h = \<lparr>fc_type = t, fc_width = w, fc_height = h\<rparr>"

definition depth_type :: "string \<Rightarrow> u32 \<Rightarrow> u32 \<Rightarrow> u32 \<Rightarrow> u32 \<Rightarrow> DepthSensorFrameType" where
  "depth_type t rw rh w h =
     \<lparr>ft_type = t,
      ft_content = [content ''raw'' rw rh, content ''ir'' w h, content ''xyz'' w h, content ''depth'' w h,
        content ''conf'' w h, content ''embedded_header'' 1 128],
      ft_width = rw, ft_height = rh\<rparr>"

definition ir_type :: "string \<Rightarrow> u32 \<Rightarrow> u32 \<Rightarrow> DepthSensorFrameType" where
  "ir_type t w h = \<lparr>ft_type = t, ft_content = [content ''ir'' w h], ft_width = w, ft_height = h\<rparr>"

definition availableFrameTypesAdsd3030Old :: "DepthSensorFrameType list" where
  "availableFrameTypesAdsd3030Old = [depth_type ''vga'' 2560 640 512 640]"

definition availableFrameTypes :: "DepthSensorFrameType list" where
  "availableFrameTypes =
     [depth_type ''sr-native'' 1024 4096 1024 1024, depth_type ''lr-native'' 1024 4096 1024 1024,
      depth_type ''sr-qnative'' 2560 512 512 512, depth_type ''lr-qnative'' 2560 512 512 512,
      ir_type ''pcm-native'' 1024 1024,
      depth_type ''sr-mixed'' 2560 512 512 512, depth_type ''lr-mixed'' 2560 512 512 512]"

definition availableFrameTypesAdsd3030 :: "DepthSensorFrameType list" where
  "availableFrameTypesAdsd3030 =
     [depth_type ''sr-native'' 2560 640 512 640, depth_type ''lr-native'' 2560 640 512 640,
      depth_type ''sr-qnative'' 1280 320 256 320, depth_type ''lr-qnative'' 1280 320 256 320,
      ir_type ''pcm-native'' 512 640,
      depth_type ''sr-mixed'' 1280 320 256 320, depth_type ''lr-mixed'' 1280 320 256 320]"

definition availableFrameTypesOld :: "DepthSensorFrameType list" where
  "availableFrameTypesOld = [depth_type ''qmp'' 2560 512 512 512, depth_type ''mp'' 1024 4096 1024 1024]"

section \<open>Controls\<close>

definition stoi :: "string \<Rightarrow> int option" where
  "stoi s =
     (let (neg, t) = sign_of (dropWhile is_space s);
          ds = takeWhile (\<lambda>c. digit c < 10) t;
          n = int (number 10 ds);
          v = (if neg then - n else n)
      in if ds = [] \<or> v < - (2 ^ 31) \<or> 2 ^ 31 \<le> v then None else Some v)"

definition to_string :: "int \<Rightarrow> string" where
  "to_string n = (if n < 0 then CHR ''-'' # decimal (nat (- n)) else decimal (nat n))"

definition getAvailableControls :: "sensor \<Rightarrow> (status \<times> string list \<times> sensor) mem" where
  "getAvailableControls s = Ret (OK, map fst (controls s), s)"

text \<open>The frame types that come with a version of the modes; \<open>None\<close> when the imager is not known.\<close>

definition types_of :: "int \<Rightarrow> sensor \<Rightarrow> DepthSensorFrameType list option" where
  "types_of n s =
     (case imagerType s of
        IMAGER_ADSD3100 \<Rightarrow> Some (if n = 0 then availableFrameTypesOld else availableFrameTypes)
      | IMAGER_ADSD3030 \<Rightarrow> Some (if n = 0 then availableFrameTypesAdsd3030Old else availableFrameTypesAdsd3030)
      | IMAGER_UNKNOWN \<Rightarrow> None)"

definition set_mode_version :: "int \<Rightarrow> sensor \<Rightarrow> status \<times> sensor" where
  "set_mode_version n s =
     (let finish = (\<lambda>s. (OK, s\<lparr>modes := snd (setImagerTypeAndModeVersion (imager_int (imagerType s)) n (modes s))\<rparr>)) in
      if n = 0 \<or> n = 2
      then (let s = s\<lparr>ccbVersion := (if n = 0 then CCB_VERSION0 else CCB_VERSION1)\<rparr> in
            case types_of n s of
              None \<Rightarrow> (GENERIC_ERROR, s)
            | Some ts \<Rightarrow> finish (s\<lparr>availableTypes := ts\<rparr>))
      else finish s)"

definition setControl :: "senv \<Rightarrow> string \<Rightarrow> string \<Rightarrow> sensor \<Rightarrow> (status \<times> sensor) mem" where
  "setControl k control val s =
     (if control \<notin> fst ` set (controls s) then Ret (INVALID_ARGUMENT, s)
      else let s = s\<lparr>controls := map (\<lambda>(c, v). (c, if c = control then val else v)) (controls s)\<rparr> in
      if control = ''modeInfoVersion''
      then (case stoi val of None \<Rightarrow> Fault | Some n \<Rightarrow> Ret (set_mode_version n s))
      else if control = ''fps''
      then (case stoi val of None \<Rightarrow> Fault | Some fps \<Rightarrow>
            (case dev_at 0 s of Fault \<Rightarrow> Fault | Ret dev \<Rightarrow>
             let s = snd (xioctl k (vd_fd dev) (S_PARM fps) s) in
             (case adsd3500_write_cmd k 0x22 (word_of_int fps) (s\<lparr>sensorFps := fps\<rparr>) of
                Fault \<Rightarrow> Fault
              | Ret (status, s) \<Rightarrow> Ret (if status \<noteq> OK then GENERIC_ERROR else status, s))))
      else if control = ''imagerType'' then Ret (UNAVAILABLE, s)
      else case stoi val of None \<Rightarrow> Fault | Some v \<Rightarrow>
           (case dev_at 0 s of Fault \<Rightarrow> Fault | Ret dev \<Rightarrow>
            (case xioctl k (vd_sfd dev) (S_CTRL (controlsCommands control) v) s of (a, s) \<Rightarrow>
               Ret (if sa_ret a = -1 then GENERIC_ERROR else OK, s))))"

definition getControl :: "senv \<Rightarrow> string \<Rightarrow> string \<Rightarrow> sensor \<Rightarrow> (status \<times> string \<times> sensor) mem" where
  "getControl k control val s =
     (if control \<notin> fst ` set (controls s) then Ret (INVALID_ARGUMENT, val, s)
      else if control = ''imagerType'' then Ret (OK, to_string (imager_int (imagerType s)), s)
      else if control = ''modeInfoVersion'' then Ret (OK, to_string (ccb_int (ccbVersion s)), s)
      else case dev_at 0 s of Fault \<Rightarrow> Fault | Ret dev \<Rightarrow>
           (case xioctl k (vd_sfd dev) (G_CTRL (controlsCommands control)) s of (a, s) \<Rightarrow>
              if sa_ret a = -1 then Ret (GENERIC_ERROR, val, s) else Ret (OK, to_string (sa_value a), s)))"

section \<open>Opening\<close>

fun splitIntoTokens :: "char \<Rightarrow> string \<Rightarrow> string list" where
  "splitIntoTokens d [] = [[]]"
| "splitIntoTokens d (c # cs) =
     (if c = d then [] # splitIntoTokens d cs
      else case splitIntoTokens d cs of [] \<Rightarrow> [[c]] | t # ts \<Rightarrow> (c # t) # ts)"

definition at_throws :: "nat \<Rightarrow> 'a list \<Rightarrow> 'a mem" where
  "at_throws i xs = (if i < length xs then Ret (xs ! i) else Fault)"

text \<open>The video node, which is left to the UVC application when the host is connected by USB.\<close>

definition open_video :: "senv \<Rightarrow> string \<Rightarrow> string \<Rightarrow> VideoDev \<Rightarrow> sensor \<Rightarrow> bool \<times> VideoDev \<times> sensor" where
  "open_video k name cname dev s =
     (case node k (Stat name) s of (a, s) \<Rightarrow>
      if sa_ret a = -1 \<or> \<not> sa_chr a then (False, dev, s)
      else case node k (Open_Node name) s of (a, s) \<Rightarrow>
      let dev = dev\<lparr>vd_fd := sa_ret a\<rparr> in
      if sa_ret a = -1 then (False, dev, s)
      else case xioctl k (vd_fd dev) QUERYCAP s of (a, s) \<Rightarrow>
      if sa_ret a = -1 \<or> take (length cname) (sa_card a) \<noteq> cname then (False, dev, s)
      else if sa_caps a AND (CAP_VIDEO_CAPTURE OR CAP_VIDEO_CAPTURE_MPLANE) = 0 then (False, dev, s)
      else let dev = dev\<lparr>videoBuffersType := (if sa_caps a AND CAP_VIDEO_CAPTURE_MPLANE \<noteq> 0
                            then BUF_TYPE_CAPTURE_MPLANE else BUF_TYPE_CAPTURE)\<rparr> in
      (sa_caps a AND CAP_STREAMING \<noteq> 0, dev, s))"

definition open_subdev :: "senv \<Rightarrow> string \<Rightarrow> VideoDev \<Rightarrow> sensor \<Rightarrow> bool \<times> VideoDev \<times> sensor" where
  "open_subdev k name dev s =
     (case node k (Stat name) s of (a, s) \<Rightarrow>
      if sa_ret a = -1 \<or> \<not> sa_chr a then (False, dev, s)
      else case node k (Open_Node name) s of (a, s) \<Rightarrow> (sa_ret a \<noteq> -1, dev\<lparr>vd_sfd := sa_ret a\<rparr>, s))"

text \<open>
  The processor is asked for its chip number and its dealias parameters, ten times at most, with a
  reset after each failure. The last status of each is kept.
\<close>

fun check_chip ::
  "senv \<Rightarrow> nat \<Rightarrow> status \<times> status \<Rightarrow> u16 \<Rightarrow> u8 list \<Rightarrow> sensor \<Rightarrow> ((status \<times> status) \<times> sensor) mem" where
  "check_chip k 0 st chip buf s = Ret (st, s)"
| "check_chip k (Suc n) st chip buf s =
     (case adsd3500_read_cmd k 0x0112 chip 0 s of Fault \<Rightarrow> Fault | Ret (c, chip, s) \<Rightarrow>
      if c \<noteq> OK then check_chip k n (c, snd st) chip buf (snd (adsd3500_reset k s))
      else case adsd3500_read_payload_cmd k 0x02 buf 32 s of Fault \<Rightarrow> Fault | Ret (d, buf, s) \<Rightarrow>
      if d \<noteq> OK then check_chip k n (c, d) chip buf (snd (adsd3500_reset k s))
      else Ret ((c, d), s))"

definition first_run :: "senv \<Rightarrow> sensor \<Rightarrow> (status \<times> sensor) mem" where
  "first_run k s =
     (if \<not> firstRun s then Ret (OK, s)
      else case check_chip k 10 (GENERIC_ERROR, GENERIC_ERROR) 0 (1 # replicate 31 0) s of
          Fault \<Rightarrow> Fault
        | Ret ((c, d), s) \<Rightarrow>
            Ret (if c \<noteq> OK then (c, s) else if d \<noteq> OK then (d, s) else (OK, s\<lparr>firstRun := False\<rparr>)))"

fun open_devices ::
  "senv \<Rightarrow> string list \<times> string list \<times> string list \<Rightarrow> nat list \<Rightarrow> sensor \<Rightarrow> (status \<times> sensor) mem" where
  "open_devices k names [] s = Ret (OK, s)"
| "open_devices k names (i # is) s =
     (case names of (paths, subs, cards) \<Rightarrow>
      (case at_throws i paths of Fault \<Rightarrow> Fault | Ret path \<Rightarrow>
       (case at_throws i subs of Fault \<Rightarrow> Fault | Ret sub \<Rightarrow>
        (case at_throws i cards of Fault \<Rightarrow> Fault | Ret cname \<Rightarrow>
         (case dev_at i s of Fault \<Rightarrow> Fault | Ret dev \<Rightarrow>
          (case (if hostConnectionType s \<noteq> USB then open_video k path cname dev s else (True, dev, s)) of (ok, dev, s) \<Rightarrow>
           if \<not> ok then Ret (GENERIC_ERROR, set_dev i dev s)
           else case open_subdev k sub dev s of (ok, dev, s) \<Rightarrow>
           if \<not> ok then Ret (GENERIC_ERROR, set_dev i dev s)
           else case first_run k (set_dev i dev s) of Fault \<Rightarrow> Fault | Ret (status, s) \<Rightarrow>
           if status \<noteq> OK then Ret (status, s) else open_devices k names is s))))))"

text \<open>What the firmware says of the imager and of the version of its calibration block.\<close>

definition version_read :: "u16 \<Rightarrow> sensor \<Rightarrow> sensor" where
  "version_read v s =
     (let s = (if lo8 v = 1 then s\<lparr>ccbVersion := CCB_VERSION0\<rparr>
               else if lo8 v = 2 then s\<lparr>ccbVersion := CCB_VERSION1\<rparr> else s)
      in if hi8 v = 1 then s\<lparr>imagerType := IMAGER_ADSD3100\<rparr>
         else if hi8 v = 2 then s\<lparr>imagerType := IMAGER_ADSD3030\<rparr> else s)"

text \<open>The fallback for the imager is a flag of the build.\<close>

definition query_finish :: "senv \<Rightarrow> bool \<Rightarrow> sensor \<Rightarrow> (status \<times> sensor) mem" where
  "query_finish k adsd3030 s =
     (let s = (if imagerType s = IMAGER_UNKNOWN
               then s\<lparr>imagerType := (if adsd3030 then IMAGER_ADSD3030 else IMAGER_ADSD3100)\<rparr> else s) in
      case (case ccbVersion s of
              CCB_UNKNOWN \<Rightarrow> Ret (OK, s)
            | CCB_VERSION0 \<Rightarrow> setControl k ''modeInfoVersion'' ''0'' s
            | CCB_VERSION1 \<Rightarrow> setControl k ''modeInfoVersion'' ''2'' s) of
        Fault \<Rightarrow> Fault
      | Ret (r, s) \<Rightarrow> Ret (OK, s))"

definition queryAdsd3500 :: "senv \<Rightarrow> bool \<Rightarrow> sensor \<Rightarrow> (status \<times> sensor) mem" where
  "queryAdsd3500 k adsd3030 s =
     (if imagerType s \<noteq> IMAGER_UNKNOWN \<and> ccbVersion s \<noteq> CCB_UNKNOWN then query_finish k adsd3030 s
      else case adsd3500_read_payload_cmd k 0x05 (1 # replicate 43 0) 44 s of
        Fault \<Rightarrow> Fault
      | Ret (ignored, fwData, s) \<Rightarrow>
          (let s = s\<lparr>s_fw_ver := take 4 fwData\<rparr>;
               major = (if fwData ! 0 = 0 then fwData ! 1 else fwData ! 0)
           in if 3 < major
              then (case adsd3500_read_cmd k 0x0032 0 0 s of
                      Fault \<Rightarrow> Fault
                    | Ret (status, v, s) \<Rightarrow>
                        query_finish k adsd3030 (if status = OK then version_read v s else s))
              else query_finish k adsd3030 s))"

definition sensor_open :: "senv \<Rightarrow> bool \<Rightarrow> sensor \<Rightarrow> (status \<times> sensor) mem" where
  "sensor_open k adsd3030 s =
     (case node k Interrupts_Available s of (a, s) \<Rightarrow>
      let s = (if sa_ret a \<noteq> 0 then snd (node k Subscribe_Sensor s) else s);
          subs = splitIntoTokens CHR ''|'' (driverSubPath s);
          n = length subs mod 256;
          s = s\<lparr>numVideoDevs := n, videoDevs := Some (replicate n new_VideoDev)\<rparr>
      in case open_devices k (splitIntoTokens CHR ''|'' (driverPath s), subs, splitIntoTokens CHR ''|'' (captureDev s))
                [0..<n] s of
           Fault \<Rightarrow> Fault
         | Ret (status, s) \<Rightarrow>
             if status \<noteq> OK then Ret (status, s)
             else if adsd3500Queried s then Ret (OK, s)
             else (case queryAdsd3500 k adsd3030 s of
                     Fault \<Rightarrow> Fault
                   | Ret (status, s) \<Rightarrow> Ret (status, s\<lparr>adsd3500Queried := True\<rparr>)))"

section \<open>Streaming\<close>

fun queue_from :: "senv \<Rightarrow> int \<Rightarrow> u32 \<Rightarrow> nat list \<Rightarrow> sensor \<Rightarrow> bool \<times> sensor" where
  "queue_from k fd t [] s = (True, s)"
| "queue_from k fd t (i # is) s =
     (case xioctl k fd (QBUF t i) s of (a, s) \<Rightarrow> if sa_ret a = -1 then (False, s) else queue_from k fd t is s)"

fun start_from :: "senv \<Rightarrow> nat list \<Rightarrow> sensor \<Rightarrow> (status \<times> sensor) mem" where
  "start_from k [] s = Ret (OK, s)"
| "start_from k (i # is) s =
     (case dev_at i s of Fault \<Rightarrow> Fault | Ret dev \<Rightarrow>
      if vd_started dev then Ret (BUSY, s)
      else case queue_from k (vd_fd dev) (videoBuffersType dev) [0..<nVideoBuffers dev] s of (ok, s) \<Rightarrow>
      if \<not> ok then Ret (GENERIC_ERROR, s)
      else case xioctl k (vd_fd dev) (STREAMON (videoBuffersType dev)) s of (a, s) \<Rightarrow>
      if sa_ret a \<noteq> 0 then Ret (GENERIC_ERROR, s)
      else start_from k is (set_dev i (dev\<lparr>vd_started := True\<rparr>) s))"

definition sensor_start :: "senv \<Rightarrow> sensor \<Rightarrow> (status \<times> sensor) mem" where
  "sensor_start k s = start_from k [0..<numVideoDevs s] s"

fun stop_from :: "senv \<Rightarrow> nat list \<Rightarrow> sensor \<Rightarrow> (status \<times> sensor) mem" where
  "stop_from k [] s = Ret (OK, s)"
| "stop_from k (i # is) s =
     (case dev_at i s of Fault \<Rightarrow> Fault | Ret dev \<Rightarrow>
      if \<not> vd_started dev then Ret (BUSY, s)
      else case xioctl k (vd_fd dev) (STREAMOFF (videoBuffersType dev)) s of (a, s) \<Rightarrow>
      if sa_ret a \<noteq> 0 then Ret (GENERIC_ERROR, s)
      else stop_from k is (set_dev i (dev\<lparr>vd_started := False\<rparr>) s))"

definition sensor_stop :: "senv \<Rightarrow> sensor \<Rightarrow> (status \<times> sensor) mem" where
  "sensor_stop k s = stop_from k [0..<numVideoDevs s] s"

definition getAvailableFrameTypes :: "sensor \<Rightarrow> (status \<times> DepthSensorFrameType list \<times> sensor) mem" where
  "getAvailableFrameTypes s = Ret (OK, availableTypes s, s)"

definition setModeByIndex :: "senv \<Rightarrow> u8 \<Rightarrow> sensor \<Rightarrow> (status \<times> sensor) mem" where
  "setModeByIndex k modeIndex s =
     (case dev_at 0 s of Fault \<Rightarrow> Fault | Ret dev \<Rightarrow>
      (case xioctl k (vd_sfd dev) (S_CTRL CTRL_SET_MODE (uint modeIndex)) s of (a, s) \<Rightarrow>
         Ret (if sa_ret a = -1 then GENERIC_ERROR else OK, s)))"

definition setMode :: "senv \<Rightarrow> string \<Rightarrow> sensor \<Rightarrow> (status \<times> sensor) mem" where
  "setMode k mode s =
     (case convertCameraMode mode (modes s) of
        (status, None) \<Rightarrow> Ret (status, s)
      | (status, Some i) \<Rightarrow> setModeByIndex k i s)"

text \<open>The devices that are running are stopped, whatever that answers.\<close>

fun stop_running :: "senv \<Rightarrow> nat list \<Rightarrow> sensor \<Rightarrow> sensor mem" where
  "stop_running k [] s = Ret s"
| "stop_running k (i # is) s =
     (case dev_at i s of Fault \<Rightarrow> Fault | Ret dev \<Rightarrow>
      if vd_started dev
      then (case sensor_stop k s of Fault \<Rightarrow> Fault | Ret (r, s) \<Rightarrow> stop_running k is s)
      else stop_running k is s)"

text \<open>Unmapping the first buffers of an array, which faults behind its end.\<close>

fun unmap_buffers :: "senv \<Rightarrow> nat \<Rightarrow> (nat \<times> nat) list \<Rightarrow> sensor \<Rightarrow> sensor mem" where
  "unmap_buffers k 0 bs s = Ret s"
| "unmap_buffers k (Suc n) [] s = Fault"
| "unmap_buffers k (Suc n) ((a, l) # bs) s = unmap_buffers k n bs (snd (node k (Unmap_Buffer a l) s))"

definition close_node :: "senv \<Rightarrow> int \<Rightarrow> sensor \<Rightarrow> sensor" where
  "close_node k fd s = (if fd \<noteq> -1 then snd (node k (Close_Node fd) s) else s)"

fun close_devices :: "senv \<Rightarrow> nat list \<Rightarrow> sensor \<Rightarrow> sensor mem" where
  "close_devices k [] s = Ret s"
| "close_devices k (i # is) s =
     (case dev_at i s of Fault \<Rightarrow> Fault | Ret dev \<Rightarrow>
      (case unmap_buffers k (nVideoBuffers dev) (case videoBuffers dev of None \<Rightarrow> [] | Some bs \<Rightarrow> bs) s of
         Fault \<Rightarrow> Fault
       | Ret s \<Rightarrow> close_devices k is (close_node k (vd_sfd dev) (close_node k (vd_fd dev) (snd (node k Free_Buffers s))))))"

definition sensor_delete :: "senv \<Rightarrow> sensor \<Rightarrow> sensor mem" where
  "sensor_delete k s =
     (case stop_running k [0..<numVideoDevs s] s of Fault \<Rightarrow> Fault | Ret s \<Rightarrow> close_devices k [0..<numVideoDevs s] s)"

section \<open>Setting the frame type\<close>

fun unmap_checked :: "senv \<Rightarrow> nat \<Rightarrow> (nat \<times> nat) list \<Rightarrow> sensor \<Rightarrow> (bool \<times> sensor) mem" where
  "unmap_checked k 0 bs s = Ret (True, s)"
| "unmap_checked k (Suc n) [] s = Fault"
| "unmap_checked k (Suc n) ((a, l) # bs) s =
     (case node k (Unmap_Buffer a l) s of (r, s) \<Rightarrow>
        if sa_ret r = -1 then Ret (False, s) else unmap_checked k n bs s)"

text \<open>
  The pixel format of a frame type: \<open>None\<close> when the type is not handled, 0 when the imager is unknown.
\<close>

definition pixel_format :: "ImagerType \<Rightarrow> string \<Rightarrow> string \<Rightarrow> u32 option" where
  "pixel_format imager t bits =
     (case imager of
        IMAGER_ADSD3100 \<Rightarrow>
          (if t \<in> {''lr-qnative'', ''sr-qnative'', ''lr-mixed'', ''sr-mixed'', ''qmp''} then Some PIX_FMT_SBGGR8
           else if t \<in> {''lr-native'', ''sr-native'', ''mp''}
           then Some (if bits = ''6'' then PIX_FMT_SBGGR8 else PIX_FMT_SBGGR12)
           else if t = ''pcm-native'' then Some PIX_FMT_SBGGR12 else None)
      | IMAGER_ADSD3030 \<Rightarrow>
          (if t \<in> {''sr-native'', ''lr-native'', ''sr-qnative'', ''lr-qnative'', ''vga'', ''sr-mixed'', ''lr-mixed''}
           then Some PIX_FMT_SBGGR8
           else if t = ''pcm-native'' then Some PIX_FMT_SBGGR12 else None)
      | IMAGER_UNKNOWN \<Rightarrow> Some 0)"

definition frame_dims :: "ImagerType \<Rightarrow> string \<Rightarrow> DepthSensorFrameType \<Rightarrow> u32 \<times> u32" where
  "frame_dims imager bits t =
     (if imager = IMAGER_ADSD3100 \<and> bits = ''6''
      then if ft_type t \<in> {''lr-native'', ''mp''} then (2048, 3328)
           else if ft_type t = ''sr-native'' then (2048, 2560) else (ft_width t, ft_height t)
      else (ft_width t, ft_height t))"

text \<open>The mapping of the buffers that are missing.\<close>

fun map_from :: "senv \<Rightarrow> nat \<Rightarrow> VideoDev \<Rightarrow> sensor \<Rightarrow> (bool \<times> VideoDev \<times> sensor) mem" where
  "map_from k 0 dev s = Ret (True, dev, s)"
| "map_from k (Suc left) dev s =
     (case xioctl k (vd_fd dev) (QUERYBUF (videoBuffersType dev) (nVideoBuffers dev)) s of (a, s) \<Rightarrow>
      if sa_ret a = -1 then Ret (False, dev, s)
      else case node k (Map_Buffer (vd_fd dev) (sa_length a) (sa_offset a)) s of (m, s) \<Rightarrow>
      (case videoBuffers dev of
         None \<Rightarrow> Fault
       | Some bs \<Rightarrow>
           if length bs \<le> nVideoBuffers dev then Fault
           else if sa_addr m = MAP_FAILED
           then Ret (False, dev\<lparr>videoBuffers := Some (bs[nVideoBuffers dev := (MAP_FAILED, snd (bs ! nVideoBuffers dev))])\<rparr>, s)
           else map_from k left
                  (dev\<lparr>videoBuffers := Some (bs[nVideoBuffers dev := (sa_addr m, sa_length a)]),
                       nVideoBuffers := nVideoBuffers dev + 1\<rparr>) s))"

text \<open>The part for one device from the format on; \<open>Some\<close> status leaves the function.\<close>

definition abBits :: "sensor \<Rightarrow> string" where
  "abBits s = (case map_of (controls s) ''abBits'' of None \<Rightarrow> [] | Some v \<Rightarrow> v)"

definition set_up_buffers ::
  "senv \<Rightarrow> DepthSensorFrameType \<Rightarrow> nat \<Rightarrow> VideoDev \<Rightarrow> sensor \<Rightarrow> (status option \<times> sensor) mem" where
  "set_up_buffers k t i dev s =
     (case pixel_format (imagerType s) (ft_type t) (abBits s) of
        None \<Rightarrow> Ret (Some GENERIC_ERROR, set_dev i dev s)
      | Some fmt \<Rightarrow>
          (case frame_dims (imagerType s) (abBits s) t of (w, h) \<Rightarrow>
           case xioctl k (vd_fd dev) (S_FMT (videoBuffersType dev) fmt w h) s of (a, s) \<Rightarrow>
           if sa_ret a = -1 then Ret (Some GENERIC_ERROR, set_dev i dev s)
           else case xioctl k (vd_fd dev) (REQBUFS (videoBuffersType dev) (1 + EXTRA_BUFFERS_COUNT)) s of (a, s) \<Rightarrow>
           if sa_ret a = -1 then Ret (Some GENERIC_ERROR, set_dev i dev s)
           else case node k (Calloc_Buffers (sa_count a)) s of (m, s) \<Rightarrow>
           if sa_ret m < 0 then Ret (Some GENERIC_ERROR, set_dev i (dev\<lparr>videoBuffers := None\<rparr>) s)
           else case map_from k (sa_count a)
                       (dev\<lparr>videoBuffers := Some (replicate (sa_count a) (0, 0)), nVideoBuffers := 0\<rparr>) s of
               Fault \<Rightarrow> Fault
             | Ret (ok, dev, s) \<Rightarrow> Ret (if ok then None else Some GENERIC_ERROR, set_dev i dev s)))"

definition set_up_device ::
  "senv \<Rightarrow> DepthSensorFrameType \<Rightarrow> nat \<Rightarrow> sensor \<Rightarrow> (status option \<times> sensor) mem" where
  "set_up_device k t i s =
     (case dev_at i s of Fault \<Rightarrow> Fault | Ret dev \<Rightarrow>
      if ft_type t \<noteq> ft_type (frameType s)
      then (case unmap_checked k (nVideoBuffers dev) (case videoBuffers dev of None \<Rightarrow> [] | Some bs \<Rightarrow> bs) s of
              Fault \<Rightarrow> Fault
            | Ret (False, s) \<Rightarrow> Ret (Some GENERIC_ERROR, s)
            | Ret (True, s) \<Rightarrow>
                (let s = snd (node k Free_Buffers s); dev = dev\<lparr>videoBuffers := None, nVideoBuffers := 0\<rparr> in
                 case xioctl k (vd_fd dev) (REQBUFS (videoBuffersType dev) 0) s of (a, s) \<Rightarrow>
                 if sa_ret a = -1 then Ret (Some GENERIC_ERROR, set_dev i dev s)
                 else set_up_buffers k t i dev s))
      else if nVideoBuffers dev \<noteq> 0 then Ret (Some OK, s)
      else set_up_buffers k t i dev s)"

fun set_up_devices ::
  "senv \<Rightarrow> DepthSensorFrameType \<Rightarrow> nat list \<Rightarrow> sensor \<Rightarrow> (status \<times> sensor) mem" where
  "set_up_devices k t [] s = Ret (OK, s\<lparr>frameType := t\<rparr>)"
| "set_up_devices k t (i # is) s =
     (case set_up_device k t i s of
        Fault \<Rightarrow> Fault
      | Ret (Some r, s) \<Rightarrow> Ret (r, s)
      | Ret (None, s) \<Rightarrow> set_up_devices k t is s)"

definition setFrameType ::
  "senv \<Rightarrow> bool \<Rightarrow> DepthSensorFrameType \<Rightarrow> sensor \<Rightarrow> (status \<times> sensor) mem" where
  "setFrameType k adsd3030 t s =
     (case sensor_delete k s of Fault \<Rightarrow> Fault | Ret s \<Rightarrow>
      (case sensor_open k adsd3030 s of Fault \<Rightarrow> Fault | Ret (status, s) \<Rightarrow>
       if status \<noteq> OK then Ret (status, s)
       else case setMode k (ft_type t) s of Fault \<Rightarrow> Fault | Ret (status, s) \<Rightarrow>
       if status \<noteq> OK then Ret (status, s)
       else if hostConnectionType s = USB then Ret (OK, s\<lparr>frameType := t\<rparr>)
       else set_up_devices k t [0..<numVideoDevs s] s))"

section \<open>Frames\<close>

definition waitForBuffer :: "senv \<Rightarrow> VideoDev \<Rightarrow> sensor \<Rightarrow> status \<times> sensor" where
  "waitForBuffer k dev s =
     (case node k (Wait_Readable (vd_fd dev) 3) s of (a, s) \<Rightarrow>
        (if sa_ret a = -1 \<or> sa_ret a = 0 then GENERIC_ERROR else OK, s))"

definition dequeueInternalBuffer :: "senv \<Rightarrow> VideoDev \<Rightarrow> sensor \<Rightarrow> status \<times> sanswer \<times> sensor" where
  "dequeueInternalBuffer k dev s =
     (case xioctl k (vd_fd dev) (DQBUF (videoBuffersType dev)) s of (a, s) \<Rightarrow>
        (if sa_ret a = -1 \<or> nVideoBuffers dev \<le> sa_index a then GENERIC_ERROR else OK, a, s))"

text \<open>The part of a mapped buffer that holds a frame; what it holds came with the buffer.\<close>

definition getInternalBuffer :: "sanswer \<Rightarrow> VideoDev \<Rightarrow> (status \<times> u8 list) mem" where
  "getInternalBuffer buf dev =
     (case videoBuffers dev of
        None \<Rightarrow> Ret (GENERIC_ERROR, [])
      | Some bs \<Rightarrow>
          if nVideoBuffers dev \<le> sa_index buf then Ret (GENERIC_ERROR, [])
          else if length bs \<le> sa_index buf then Fault
          else if fst (bs ! sa_index buf) = 0 \<or> snd (bs ! sa_index buf) < sa_bytesused buf then Ret (GENERIC_ERROR, [])
          else Ret (OK, take (sa_bytesused buf) (sa_data buf)))"

definition enqueueInternalBuffer :: "senv \<Rightarrow> sanswer \<Rightarrow> VideoDev \<Rightarrow> sensor \<Rightarrow> status \<times> sensor" where
  "enqueueInternalBuffer k buf dev s =
     (case xioctl k (vd_fd dev) (QBUF (videoBuffersType dev) (sa_index buf)) s of (a, s) \<Rightarrow>
        (if sa_ret a = -1 then GENERIC_ERROR else OK, s))"

definition getFrame :: "senv \<Rightarrow> u8 list \<Rightarrow> sensor \<Rightarrow> (status \<times> u8 list \<times> sensor) mem" where
  "getFrame k buffer s =
     (case dev_at 0 s of Fault \<Rightarrow> Fault | Ret dev \<Rightarrow>
      (case waitForBuffer k dev s of (r, s) \<Rightarrow>
       if r \<noteq> OK then Ret (r, buffer, s)
       else case dequeueInternalBuffer k dev s of (r, buf, s) \<Rightarrow>
       if r \<noteq> OK then Ret (r, buffer, s)
       else case getInternalBuffer buf dev of Fault \<Rightarrow> Fault | Ret (r, bytes) \<Rightarrow>
       if r \<noteq> OK then Ret (r, buffer, s)
       else case mem_write 0 bytes buffer of Fault \<Rightarrow> Fault | Ret buffer \<Rightarrow>
       (case enqueueInternalBuffer k buf dev s of (r, s) \<Rightarrow> Ret (r, buffer, s))))"

definition getDeviceFileDescriptor :: "int \<Rightarrow> sensor \<Rightarrow> (status \<times> int) mem" where
  "getDeviceFileDescriptor fd s =
     (case dev_at 0 s of
        Fault \<Rightarrow> Fault
      | Ret dev \<Rightarrow> Ret (if vd_fd dev \<noteq> -1 then (OK, vd_fd dev) else (INVALID_ARGUMENT, fd)))"

section \<open>Interrupts\<close>

datatype Adsd3500Status =
    ADSD3500_OK | INVALID_MODE | INVALID_JBLF_FILTER_SIZE | UNSUPPORTED_COMMAND | INVALID_MEMORY_REGION
  | INVALID_FIRMWARE_CRC | INVALID_IMAGER | INVALID_CCB | FLASH_HEADER_PARSE_ERROR | FLASH_FILE_PARSE_ERROR
  | SPIM_ERROR | INVALID_CHIPID | IMAGER_COMMUNICATION_ERROR | IMAGER_BOOT_FAILURE | FIRMWARE_UPDATE_COMPLETE
  | NVM_WRITE_COMPLETE | IMAGER_ERROR | UNKNOWN_ERROR_ID

definition adsd3500_statuses :: "Adsd3500Status list" where
  "adsd3500_statuses =
     [ADSD3500_OK, INVALID_MODE, INVALID_JBLF_FILTER_SIZE, UNSUPPORTED_COMMAND, INVALID_MEMORY_REGION,
      INVALID_FIRMWARE_CRC, INVALID_IMAGER, INVALID_CCB, FLASH_HEADER_PARSE_ERROR, FLASH_FILE_PARSE_ERROR,
      SPIM_ERROR, INVALID_CHIPID, IMAGER_COMMUNICATION_ERROR, IMAGER_BOOT_FAILURE, FIRMWARE_UPDATE_COMPLETE,
      NVM_WRITE_COMPLETE, IMAGER_ERROR]"

definition convertIdToAdsd3500Status :: "nat \<Rightarrow> Adsd3500Status" where
  "convertIdToAdsd3500Status n = (if n < length adsd3500_statuses then adsd3500_statuses ! n else UNKNOWN_ERROR_ID)"

text \<open>
  A callback is a number that stands for it. The handler of an interrupt gives the callback that it
  calls and what it tells it; \<open>junk\<close> is what the variable for the register holds when it cannot be
  read.
\<close>

definition adsd3500_register_interrupt_callback :: "senv \<Rightarrow> nat \<Rightarrow> sensor \<Rightarrow> status \<times> sensor" where
  "adsd3500_register_interrupt_callback k cb s =
     (case node k Interrupts_Available s of (a, s) \<Rightarrow>
        if sa_ret a \<noteq> 0 then (OK, s\<lparr>interruptCallback := Some cb\<rparr>) else (UNAVAILABLE, s))"

definition adsd3500InterruptHandler ::
  "senv \<Rightarrow> u16 \<Rightarrow> sensor \<Rightarrow> (status \<times> (nat \<times> Adsd3500Status) option \<times> sensor) mem" where
  "adsd3500InterruptHandler k junk s =
     (case adsd3500_read_cmd k 0x0020 junk 0 s of
        Fault \<Rightarrow> Fault
      | Ret (r, v, s) \<Rightarrow>
          Ret (r, map_option (\<lambda>cb. (cb, convertIdToAdsd3500Status (unat v))) (interruptCallback s), s))"

section \<open>The interface\<close>

text \<open>Registers are not accessed by this sensor: the operations succeed and do nothing.\<close>

definition readRegisters :: "u8 list \<Rightarrow> u8 list \<Rightarrow> nat \<Rightarrow> bool \<Rightarrow> sensor \<Rightarrow> (status \<times> u8 list \<times> sensor) mem" where
  "readRegisters address data n burst s = Ret (OK, data, s)"

definition writeRegisters :: "u8 list \<Rightarrow> u8 list \<Rightarrow> nat \<Rightarrow> bool \<Rightarrow> sensor \<Rightarrow> (status \<times> sensor) mem" where
  "writeRegisters address data n burst s = Ret (OK, s)"

definition sensor_getName :: "sensor \<Rightarrow> status \<times> string" where
  "sensor_getName s = (OK, ''adsd3500'')"

definition setHostConnectionType :: "string \<Rightarrow> sensor \<Rightarrow> (status \<times> sensor) mem" where
  "setHostConnectionType t s =
     Ret (OK, if t = ''USB'' then s\<lparr>hostConnectionType := USB\<rparr>
              else if t = ''NETWORK'' then s\<lparr>hostConnectionType := NETWORK\<rparr> else s)"

definition adsd3500_ops :: "senv \<Rightarrow> bool \<Rightarrow> sensor depth_sensor_interface" where
  "adsd3500_ops k adsd3030 =
     \<lparr>ds_open = sensor_open k adsd3030, ds_setHostConnectionType = setHostConnectionType,
      ds_getName = sensor_getName, ds_getAvailableFrameTypes = getAvailableFrameTypes,
      ds_setFrameType = setFrameType k adsd3030, ds_readRegisters = readRegisters,
      ds_writeRegisters = writeRegisters, ds_getAvailableControls = getAvailableControls,
      ds_setControl = setControl k, ds_getControl = getControl k, ds_read_cmd = adsd3500_read_cmd k,
      ds_write_cmd = adsd3500_write_cmd k, ds_read_payload_cmd = adsd3500_read_payload_cmd k,
      ds_read_payload = adsd3500_read_payload k, ds_write_payload_cmd = adsd3500_write_payload_cmd k,
      ds_write_payload = adsd3500_write_payload k\<rparr>"

end
