(* ===== verification/Usb_Requests.thy ===== *)
theory Usb_Requests
  imports Sdk_Interface Adsd3500_Sensor
begin

text \<open>
  The depth sensor and the storage as the host sees them over USB: each operation is a request to
  the target and its response, \<^verbatim>\<open>sdk/src/connections/usb/linux/usb_depth_sensor_linux.cpp\<close> and
  \<^verbatim>\<open>usb_storage_linux.cpp\<close>, with \<^verbatim>\<open>usb_utils.cpp\<close>.

  \<open>enc\<close> and \<open>dec\<close> are the protobuf functions for a request and a response; the extension unit is a
  \<open>transport\<close>, with a state of its own. \<open>Fault\<close> is as in \<open>Sdk_Interface\<close>.
\<close>

section \<open>Exchanges\<close>

record 't transport =
  tr_send :: "u8 list \<Rightarrow> 't \<Rightarrow> (status \<times> 't) mem"
  tr_receive :: "'t \<Rightarrow> (status \<times> u8 list \<times> 't) mem"

type_synonym encoder = "ClientRequest \<Rightarrow> u8 list"
type_synonym decoder = "u8 list \<Rightarrow> bool \<times> ServerResponse"

text \<open>
  The part that all operations share: the request is sent and the response read; a failure of
  either, a response that does not parse and a failure on the target are the status.
\<close>

definition exchange ::
  "encoder \<Rightarrow> decoder \<Rightarrow> 't transport \<Rightarrow> ClientRequest \<Rightarrow> 't \<Rightarrow> (status \<times> ServerResponse \<times> 't) mem" where
  "exchange enc dec tr request t =
     (case tr_send tr (enc request) t of Fault \<Rightarrow> Fault | Ret (r, t) \<Rightarrow>
      if r \<noteq> OK then Ret (r, new_response, t)
      else case tr_receive tr t of Fault \<Rightarrow> Fault | Ret (r, str, t) \<Rightarrow>
      if r \<noteq> OK then Ret (r, new_response, t)
      else case dec str of (parsed, response) \<Rightarrow>
      Ret (if parsed then rp_status response else INVALID_ARGUMENT, response, t))"

definition only_status :: "(status \<times> ServerResponse \<times> 't) mem \<Rightarrow> (status \<times> 't) mem" where
  "only_status r = (case r of Fault \<Rightarrow> Fault | Ret (r, response, t) \<Rightarrow> Ret (r, t))"

section \<open>Frame types\<close>

definition protoMsgToDepthSensorFrameTypes :: "FrameTypeMsg list \<Rightarrow> DepthSensorFrameType list" where
  "protoMsgToDepthSensorFrameTypes ms =
     map (\<lambda>m. \<lparr>ft_type = ftm_type m,
               ft_content = map (\<lambda>c. \<lparr>fc_type = fcm_type c, fc_width = fcm_width c, fc_height = fcm_height c\<rparr>) (ftm_content m),
               ft_width = ftm_width m, ft_height = ftm_height m\<rparr>) ms"

definition depthSensorFrameTypeToProtoMsg :: "DepthSensorFrameType \<Rightarrow> FrameTypeMsg \<Rightarrow> FrameTypeMsg" where
  "depthSensorFrameTypeToProtoMsg t m =
     \<lparr>ftm_type = ft_type t,
      ftm_content = ftm_content m @
        map (\<lambda>c. \<lparr>fcm_type = fc_type c, fcm_width = fc_width c, fcm_height = fc_height c\<rparr>) (ft_content t),
      ftm_width = ft_width t, ftm_height = ft_height t\<rparr>"

section \<open>Requests of the sensor\<close>

definition available_types_request :: ClientRequest where
  "available_types_request = new_request\<lparr>func_name := GET_AVAILABLE_FRAME_TYPES\<rparr>"

definition usb_available_types ::
  "encoder \<Rightarrow> decoder \<Rightarrow> 't transport \<Rightarrow> DepthSensorFrameType list \<Rightarrow> 't \<Rightarrow> (status \<times> DepthSensorFrameType list \<times> 't) mem" where
  "usb_available_types enc dec tr types t =
     (case exchange enc dec tr available_types_request t of
        Fault \<Rightarrow> Fault
      | Ret (r, response, t) \<Rightarrow>
          Ret (r, if r = OK then protoMsgToDepthSensorFrameTypes (available_frame_types response) else types, t))"

definition frame_type_request :: "DepthSensorFrameType \<Rightarrow> ClientRequest" where
  "frame_type_request ty =
     new_request\<lparr>frame_type := depthSensorFrameTypeToProtoMsg ty no_frame_type_msg, func_name := SET_FRAME_TYPE\<rparr>"

text \<open>Of this request the response is never read.\<close>

definition usb_send_frame_type :: "encoder \<Rightarrow> 't transport \<Rightarrow> DepthSensorFrameType \<Rightarrow> 't \<Rightarrow> (status \<times> 't) mem" where
  "usb_send_frame_type enc tr ty t = tr_send tr (enc (frame_type_request ty)) t"

definition usb_readRegisters ::
  "encoder \<Rightarrow> decoder \<Rightarrow> 't transport \<Rightarrow> u8 list \<Rightarrow> u8 list \<Rightarrow> nat \<Rightarrow> bool \<Rightarrow> 't \<Rightarrow> (status \<times> u8 list \<times> 't) mem" where
  "usb_readRegisters enc dec tr address data n burst t =
     (case mem_read (if burst then 2 else 2 * n) address of Fault \<Rightarrow> Fault | Ret ad \<Rightarrow>
      (case exchange enc dec tr (new_request\<lparr>func_name := READ_REGISTERS,
               func_int32_param := [word_of_nat n, of_bool burst], func_bytes_param := [ad]\<rparr>) t of
         Fault \<Rightarrow> Fault
       | Ret (r, response, t) \<Rightarrow>
           if r \<noteq> OK then Ret (r, data, t)
           else case param (bytes_payload response) 0 of Fault \<Rightarrow> Fault | Ret bytes \<Rightarrow>
           (case mem_write 0 bytes data of Fault \<Rightarrow> Fault | Ret data \<Rightarrow> Ret (OK, data, t))))"

definition usb_writeRegisters ::
  "encoder \<Rightarrow> decoder \<Rightarrow> 't transport \<Rightarrow> u8 list \<Rightarrow> u8 list \<Rightarrow> nat \<Rightarrow> bool \<Rightarrow> 't \<Rightarrow> (status \<times> 't) mem" where
  "usb_writeRegisters enc dec tr address data n burst t =
     (case mem_read (if burst then 2 else 2 * n) address of Fault \<Rightarrow> Fault | Ret ad \<Rightarrow>
      (case mem_read (2 * n) data of Fault \<Rightarrow> Fault | Ret bytes \<Rightarrow>
       only_status (exchange enc dec tr (new_request\<lparr>func_name := WRITE_REGISTERS,
         func_int32_param := [word_of_nat n, of_bool burst], func_bytes_param := [ad, bytes]\<rparr>) t)))"

definition usb_getAvailableControls ::
  "encoder \<Rightarrow> decoder \<Rightarrow> 't transport \<Rightarrow> string list \<Rightarrow> 't \<Rightarrow> (status \<times> string list \<times> 't) mem" where
  "usb_getAvailableControls enc dec tr cs t =
     (case exchange enc dec tr (new_request\<lparr>func_name := GET_AVAILABLE_CONTROLS\<rparr>) t of
        Fault \<Rightarrow> Fault
      | Ret (r, response, t) \<Rightarrow> Ret (r, if r = OK then strings_payload response else cs, t))"

text \<open>The frame rate stays on the host.\<close>

definition usb_setControl ::
  "encoder \<Rightarrow> decoder \<Rightarrow> 't transport \<Rightarrow> string \<Rightarrow> string \<Rightarrow> int \<times> 't \<Rightarrow> (status \<times> int \<times> 't) mem" where
  "usb_setControl enc dec tr control val s =
     (case s of (fps, t) \<Rightarrow>
      if control = ''fps''
      then (case stoi val of None \<Rightarrow> Fault | Some n \<Rightarrow> Ret (OK, n, t))
      else case only_status (exchange enc dec tr
               (new_request\<lparr>func_name := SET_CONTROL, func_strings_param := [control, val]\<rparr>) t) of
             Fault \<Rightarrow> Fault
           | Ret (r, t) \<Rightarrow> Ret (r, fps, t))"

definition usb_getControl ::
  "encoder \<Rightarrow> decoder \<Rightarrow> 't transport \<Rightarrow> string \<Rightarrow> string \<Rightarrow> 't \<Rightarrow> (status \<times> string \<times> 't) mem" where
  "usb_getControl enc dec tr control val t =
     (case exchange enc dec tr (new_request\<lparr>func_name := GET_CONTROL, func_strings_param := [control]\<rparr>) t of
        Fault \<Rightarrow> Fault
      | Ret (r, response, t) \<Rightarrow>
          if r \<noteq> OK then Ret (r, val, t)
          else case param (strings_payload response) 0 of Fault \<Rightarrow> Fault | Ret val \<Rightarrow> Ret (OK, val, t))"

definition read_cmd_msg :: "u16 \<Rightarrow> u32 \<Rightarrow> ClientRequest" where
  "read_cmd_msg cmd us = new_request\<lparr>func_name := ADSD3500_READ_CMD, func_int32_param := [ucast cmd, us]\<rparr>"

definition usb_read_cmd ::
  "encoder \<Rightarrow> decoder \<Rightarrow> 't transport \<Rightarrow> u16 \<Rightarrow> u16 \<Rightarrow> u32 \<Rightarrow> 't \<Rightarrow> (status \<times> u16 \<times> 't) mem" where
  "usb_read_cmd enc dec tr cmd data us t =
     (case exchange enc dec tr (read_cmd_msg cmd us) t of
        Fault \<Rightarrow> Fault
      | Ret (r, response, t) \<Rightarrow>
          if r \<noteq> OK then Ret (r, data, t)
          else case param (bytes_payload response) 0 of Fault \<Rightarrow> Fault | Ret bytes \<Rightarrow>
          (case mem_read 2 (c_str bytes) of Fault \<Rightarrow> Fault | Ret got \<Rightarrow> Ret (OK, get16 got 0, t)))"

definition write_cmd_msg :: "u16 \<Rightarrow> u16 \<Rightarrow> ClientRequest" where
  "write_cmd_msg cmd data =
     new_request\<lparr>func_name := ADSD3500_WRITE_CMD, func_int32_param := [ucast cmd], func_bytes_param := [le16 data]\<rparr>"

definition usb_write_cmd :: "encoder \<Rightarrow> decoder \<Rightarrow> 't transport \<Rightarrow> u16 \<Rightarrow> u16 \<Rightarrow> 't \<Rightarrow> (status \<times> 't) mem" where
  "usb_write_cmd enc dec tr cmd data t = only_status (exchange enc dec tr (write_cmd_msg cmd data) t)"

definition read_payload_cmd_msg :: "u32 \<Rightarrow> u8 list \<Rightarrow> u16 \<Rightarrow> ClientRequest" where
  "read_payload_cmd_msg cmd first n =
     new_request\<lparr>func_name := ADSD3500_READ_PAYLOAD_CMD, func_int32_param := [cmd, ucast n], func_bytes_param := [first]\<rparr>"

definition usb_read_payload_cmd ::
  "encoder \<Rightarrow> decoder \<Rightarrow> 't transport \<Rightarrow> u32 \<Rightarrow> u8 list \<Rightarrow> u16 \<Rightarrow> 't \<Rightarrow> (status \<times> u8 list \<times> 't) mem" where
  "usb_read_payload_cmd enc dec tr cmd readback n t =
     (case mem_read 4 readback of Fault \<Rightarrow> Fault | Ret first \<Rightarrow>
      (case exchange enc dec tr (read_payload_cmd_msg cmd first n) t of
         Fault \<Rightarrow> Fault
       | Ret (r, response, t) \<Rightarrow>
           if r \<noteq> OK then Ret (r, readback, t)
           else case param (bytes_payload response) 0 of Fault \<Rightarrow> Fault | Ret bytes \<Rightarrow>
           (case mem_read (unat n) (c_str bytes) of Fault \<Rightarrow> Fault | Ret got \<Rightarrow>
            (case mem_write 0 got readback of Fault \<Rightarrow> Fault | Ret readback \<Rightarrow> Ret (OK, readback, t)))))"

text \<open>The request for a payload has the name of the one that writes.\<close>

definition read_payload_msg :: "u16 \<Rightarrow> ClientRequest" where
  "read_payload_msg n = new_request\<lparr>func_name := ADSD3500_WRITE_PAYLOAD, func_int32_param := [ucast n]\<rparr>"

definition usb_read_payload ::
  "encoder \<Rightarrow> decoder \<Rightarrow> 't transport \<Rightarrow> u8 list \<Rightarrow> u16 \<Rightarrow> 't \<Rightarrow> (status \<times> u8 list \<times> 't) mem" where
  "usb_read_payload enc dec tr payload n t =
     (case exchange enc dec tr (read_payload_msg n) t of
        Fault \<Rightarrow> Fault
      | Ret (r, response, t) \<Rightarrow>
          if r \<noteq> OK then Ret (r, payload, t)
          else case param (bytes_payload response) 0 of Fault \<Rightarrow> Fault | Ret bytes \<Rightarrow>
          (case mem_read (unat n) (c_str bytes) of Fault \<Rightarrow> Fault | Ret got \<Rightarrow>
           (case mem_write 0 got payload of Fault \<Rightarrow> Fault | Ret payload \<Rightarrow> Ret (OK, payload, t))))"

definition write_payload_cmd_msg :: "u32 \<Rightarrow> u8 list \<Rightarrow> u16 \<Rightarrow> ClientRequest" where
  "write_payload_cmd_msg cmd bytes n =
     new_request\<lparr>func_name := ADSD3500_WRITE_PAYLOAD_CMD, func_int32_param := [cmd, ucast n], func_bytes_param := [bytes]\<rparr>"

definition usb_write_payload_cmd ::
  "encoder \<Rightarrow> decoder \<Rightarrow> 't transport \<Rightarrow> u32 \<Rightarrow> u8 list \<Rightarrow> u16 \<Rightarrow> 't \<Rightarrow> (status \<times> 't) mem" where
  "usb_write_payload_cmd enc dec tr cmd payload n t =
     (case mem_read (unat n) payload of Fault \<Rightarrow> Fault | Ret bytes \<Rightarrow>
        only_status (exchange enc dec tr (write_payload_cmd_msg cmd bytes n) t))"

definition write_payload_msg :: "u8 list \<Rightarrow> u16 \<Rightarrow> ClientRequest" where
  "write_payload_msg bytes n =
     new_request\<lparr>func_name := ADSD3500_WRITE_PAYLOAD, func_int32_param := [ucast n], func_bytes_param := [bytes]\<rparr>"

definition usb_write_payload ::
  "encoder \<Rightarrow> decoder \<Rightarrow> 't transport \<Rightarrow> u8 list \<Rightarrow> u16 \<Rightarrow> 't \<Rightarrow> (status \<times> 't) mem" where
  "usb_write_payload enc dec tr payload n t =
     (case mem_read (unat n) payload of Fault \<Rightarrow> Fault | Ret bytes \<Rightarrow>
        only_status (exchange enc dec tr (write_payload_msg bytes n) t))"

definition usb_reset :: "encoder \<Rightarrow> decoder \<Rightarrow> 't transport \<Rightarrow> 't \<Rightarrow> (status \<times> 't) mem" where
  "usb_reset enc dec tr t = only_status (exchange enc dec tr (new_request\<lparr>func_name := ADSD3500_RESET\<rparr>) t)"

section \<open>Requests of the storage\<close>

text \<open>The storage of the host: the descriptor it was given, which -1 does not count as missing.\<close>

record usb_storage =
  uss_fd :: int
  uss_name :: string
  uss_id :: u8

definition UsbStorage :: "string \<Rightarrow> u8 \<Rightarrow> usb_storage" where
  "UsbStorage name i = \<lparr>uss_fd = -1, uss_name = name, uss_id = i\<rparr>"

definition usb_storage_open ::
  "encoder \<Rightarrow> decoder \<Rightarrow> 't transport \<Rightarrow> int option \<Rightarrow> usb_storage \<times> 't \<Rightarrow> (status \<times> usb_storage \<times> 't) mem" where
  "usb_storage_open enc dec tr handle s =
     (case s of (st, t) \<Rightarrow>
      (case handle of
         None \<Rightarrow> Ret (INVALID_ARGUMENT, st, t)
       | Some fd \<Rightarrow>
           (case exchange enc dec tr (new_request\<lparr>func_name := STORAGE_OPEN\<rparr>) t of
              Fault \<Rightarrow> Fault
            | Ret (r, response, t) \<Rightarrow> Ret (r, st\<lparr>uss_fd := fd\<rparr>, t))))"

definition storage_read_msg :: "u32 \<Rightarrow> u8 list \<Rightarrow> nat \<Rightarrow> ClientRequest" where
  "storage_read_msg address bytes n =
     new_request\<lparr>func_name := STORAGE_READ, func_int32_param := [word_of_nat n, address], func_bytes_param := [bytes]\<rparr>"

text \<open>What the destination holds is sent along. What comes back is copied with its own length.\<close>

definition usb_storage_read ::
  "encoder \<Rightarrow> decoder \<Rightarrow> 't transport \<Rightarrow> u32 \<Rightarrow> u8 list option \<Rightarrow> nat \<Rightarrow> usb_storage \<times> 't \<Rightarrow> (status \<times> u8 list option \<times> 't) mem" where
  "usb_storage_read enc dec tr address data n s =
     (case s of (st, t) \<Rightarrow>
      if uss_fd st = 0 then Ret (GENERIC_ERROR, data, t)
      else case data of None \<Rightarrow> Ret (INVALID_ARGUMENT, data, t) | Some m \<Rightarrow>
      (case mem_read n m of Fault \<Rightarrow> Fault | Ret bytes \<Rightarrow>
       (case exchange enc dec tr (storage_read_msg address bytes n) t of
          Fault \<Rightarrow> Fault
        | Ret (r, response, t) \<Rightarrow>
            if r \<noteq> OK then Ret (r, data, t)
            else case param (bytes_payload response) 0 of Fault \<Rightarrow> Fault | Ret got \<Rightarrow>
            (case mem_write 0 got m of Fault \<Rightarrow> Fault | Ret m \<Rightarrow> Ret (OK, Some m, t)))))"

definition storage_write_msg :: "u32 \<Rightarrow> u8 list \<Rightarrow> nat \<Rightarrow> ClientRequest" where
  "storage_write_msg address bytes n =
     new_request\<lparr>func_name := STORAGE_WRITE, func_int32_param := [word_of_nat n, address], func_bytes_param := [bytes]\<rparr>"

definition usb_storage_write ::
  "encoder \<Rightarrow> decoder \<Rightarrow> 't transport \<Rightarrow> u32 \<Rightarrow> u8 list option \<Rightarrow> nat \<Rightarrow> usb_storage \<times> 't \<Rightarrow> (status \<times> 't) mem" where
  "usb_storage_write enc dec tr address data n s =
     (case s of (st, t) \<Rightarrow>
      if uss_fd st = 0 then Ret (GENERIC_ERROR, t)
      else case data of None \<Rightarrow> Ret (INVALID_ARGUMENT, t) | Some m \<Rightarrow>
      (case mem_read n m of Fault \<Rightarrow> Fault | Ret bytes \<Rightarrow>
         only_status (exchange enc dec tr (storage_write_msg address bytes n) t)))"

text \<open>The capacity comes back as a signed number of 32 bits, widened to a size.\<close>

definition usb_storage_getCapacity ::
  "encoder \<Rightarrow> decoder \<Rightarrow> 't transport \<Rightarrow> nat \<Rightarrow> usb_storage \<times> 't \<Rightarrow> (status \<times> nat \<times> 't) mem" where
  "usb_storage_getCapacity enc dec tr n s =
     (case s of (st, t) \<Rightarrow>
      if uss_fd st = 0 then Ret (GENERIC_ERROR, n, t)
      else case exchange enc dec tr
             (new_request\<lparr>func_name := STORAGE_READ_CAPACITY, func_int32_param := [word_of_nat n]\<rparr>) t of
          Fault \<Rightarrow> Fault
        | Ret (r, response, t) \<Rightarrow>
            if r \<noteq> OK then Ret (r, n, t)
            else case param (int32_payload response) 0 of Fault \<Rightarrow> Fault | Ret c \<Rightarrow> Ret (OK, nat (sint c mod 2 ^ 64), t))"

definition usb_storage_close ::
  "encoder \<Rightarrow> decoder \<Rightarrow> 't transport \<Rightarrow> usb_storage \<times> 't \<Rightarrow> (status \<times> usb_storage \<times> 't) mem" where
  "usb_storage_close enc dec tr s =
     (case s of (st, t) \<Rightarrow>
      (case exchange enc dec tr (new_request\<lparr>func_name := STORAGE_CLOSE\<rparr>) t of
         Fault \<Rightarrow> Fault
       | Ret (r, response, t) \<Rightarrow> Ret (r, if r = OK then st\<lparr>uss_fd := -1\<rparr> else st, t)))"

definition usb_storage_getName :: "usb_storage \<Rightarrow> status \<times> string" where
  "usb_storage_getName st = (OK, uss_name st)"

end
