(* ===== verification/Usb_Packets.thy ===== *)
theory Usb_Packets
  imports Usb_Requests
begin

text \<open>
  The calls of the host to its operating system, and the transfers of buffers in single packets,
  \<^verbatim>\<open>sdk/src/connections/usb/linux/usb_linux_utils.cpp\<close> and \<^verbatim>\<open>usb_temperature_sensor_linux.cpp\<close>. The
  environment answers a call from the calls before it. A call that is interrupted, or fails with an
  input or output error, is made again until it does not, so that the answer \<open>None\<close> is a call that
  never returns. \<open>junk\<close> is what the stack held where a packet is put.
\<close>

section \<open>Calls\<close>

text \<open>\<open>h_rest\<close> are the fields of a format that are only copied.\<close>

record host_format =
  h_width :: u32
  h_height :: u32
  h_pixelformat :: u32
  h_field :: u32
  h_rest :: "u32 list"

datatype hrequest =
    H_Query u8 u8 "u8 list"
  | H_Querycap
  | H_G_Fmt
  | H_S_Fmt host_format
  | H_S_Parm u32 u32
  | H_Reqbufs nat
  | H_Enum_Fmt u32
  | H_Enum_Framesizes u32 u32
  | H_Querybuf nat
  | H_Qbuf nat
  | H_Dqbuf
  | H_Streamon
  | H_Streamoff

datatype hcall =
    H_Open string
  | H_Close int
  | H_Ioctl int hrequest
  | H_Mmap int nat nat
  | H_Munmap nat nat
  | H_Calloc nat
  | H_Free
  | H_Select int
  | H_Usleep nat
  | H_Opendir string
  | H_Readdir
  | H_Closedir
  | H_Stat string

text \<open>What a call answers: its result and \<^verbatim>\<open>errno\<close>, and what it wrote.\<close>

record hanswer =
  ha_ret :: int
  ha_errno :: int
  ha_bytes :: "u8 list"
  ha_format :: host_format
  ha_count :: nat
  ha_index :: nat
  ha_length :: nat
  ha_offset :: nat
  ha_addr :: nat
  ha_data :: "u8 list"
  ha_caps :: u32
  ha_card :: string
  ha_name :: "string option"
  ha_chr :: bool

type_synonym henv = "hcall list \<Rightarrow> hcall \<Rightarrow> hanswer"

abbreviation EINTR :: int where "EINTR \<equiv> 4"
abbreviation UVC_QUERY_SET_CUR :: u8 where "UVC_QUERY_SET_CUR \<equiv> 0x01"
abbreviation UVC_QUERY_GET_CUR :: u8 where "UVC_QUERY_GET_CUR \<equiv> 0x81"

definition retried :: "hanswer \<Rightarrow> bool" where
  "retried a \<longleftrightarrow> ha_ret a = -1 \<and> (ha_errno a = EINTR \<or> ha_errno a = EIO) \<and> ha_errno a \<noteq> 0"

partial_function (option) usb_xioctl :: "henv \<Rightarrow> int \<Rightarrow> hrequest \<Rightarrow> hcall list \<Rightarrow> (hanswer \<times> hcall list) option" where
  "usb_xioctl k fd r w =
     (let a = k w (H_Ioctl fd r); w = w @ [H_Ioctl fd r] in
      if retried a then usb_xioctl k fd r w else Some (a, w))"

section \<open>Packets\<close>

text \<open>The second half of a packet's transfer: it is asked for, and as much of it as is wanted copied.\<close>

definition packet_answer ::
  "henv \<Rightarrow> int \<Rightarrow> u8 \<Rightarrow> u8 list \<Rightarrow> nat \<Rightarrow> hcall list \<Rightarrow> ((int \<times> u8 list) \<times> hcall list) mem option" where
  "packet_answer k fd selector packet n w =
     (case usb_xioctl k fd (H_Query selector UVC_QUERY_GET_CUR packet) w of
        None \<Rightarrow> None
      | Some (a, w) \<Rightarrow>
          if ha_ret a = -1 then Some (Ret ((-1, []), w))
          else (case mem_read n (put_back (ha_bytes a) packet) of
                  Fault \<Rightarrow> Some Fault
                | Ret got \<Rightarrow> Some (Ret ((ha_ret a, got), w))))"

definition uvcExUnitReadOnePacket ::
  "henv \<Rightarrow> int \<Rightarrow> u8 \<Rightarrow> u8 list \<Rightarrow> nat \<Rightarrow> nat \<Rightarrow> u8 list \<Rightarrow> hcall list \<Rightarrow> ((int \<times> u8 list) \<times> hcall list) mem option" where
  "uvcExUnitReadOnePacket k fd selector bytes nbPacketBytes n junk w =
     (if nbPacketBytes > 60 then Some (Ret ((- EINVAL, []), w))
      else if length bytes > 60 then Some (Ret ((- EINVAL, []), w))
      else let packet = put_back junk (replicate nbPacketBytes 0) in
        if bytes \<noteq> []
        then (case mem_write 0 (bytes @ [word_of_nat nbPacketBytes]) packet of
                Fault \<Rightarrow> Some Fault
              | Ret packet \<Rightarrow>
                  (case usb_xioctl k fd (H_Query selector UVC_QUERY_SET_CUR packet) w of
                     None \<Rightarrow> None
                   | Some (a, w) \<Rightarrow>
                       if ha_ret a = -1 then Some (Ret ((-1, []), w))
                       else packet_answer k fd selector packet n w))
        else packet_answer k fd selector packet n w)"

text \<open>Received bytes are appended to those before them, in the memory of the caller.\<close>

function read_buffer_loop ::
  "henv \<Rightarrow> int \<Rightarrow> u8 \<Rightarrow> u8 list \<Rightarrow> u8 list \<Rightarrow> u32 \<Rightarrow> int \<Rightarrow> u8 list \<Rightarrow> nat \<Rightarrow> hcall list \<Rightarrow>
   ((int \<times> u8 list) \<times> hcall list) mem option" where
  "read_buffer_loop k fd selector lead junk address r got n w =
     (if n = 0 then Some (Ret ((r, got), w))
      else let len = (if n < 60 then n else 60) in
        case uvcExUnitReadOnePacket k fd selector (lead @ le32 address) 60 len junk w of
          None \<Rightarrow> None
        | Some Fault \<Rightarrow> Some Fault
        | Some (Ret ((r, bytes), w)) \<Rightarrow>
            if r < 0 then Some (Ret ((r, got), w))
            else read_buffer_loop k fd selector lead junk (address + word_of_nat len) r (got @ bytes) (n - len) w)"
  by pat_completeness auto
termination by (relation "measure (\<lambda>(k, fd, selector, lead, junk, address, r, got, n, w). n)") auto

declare read_buffer_loop.simps [simp del]

definition leading :: "int \<Rightarrow> u8 list" where
  "leading i = (if i > -1 then [word_of_int i] else [])"

definition uvcExUnitReadBuffer ::
  "henv \<Rightarrow> int \<Rightarrow> u8 \<Rightarrow> int \<Rightarrow> u32 \<Rightarrow> nat \<Rightarrow> u8 list \<Rightarrow> hcall list \<Rightarrow> ((int \<times> u8 list) \<times> hcall list) mem option" where
  "uvcExUnitReadBuffer k fd selector i address bufferLength junk w =
     (if i < -1 \<or> i > 255 then Some (Ret ((- EINVAL, []), w))
      else read_buffer_loop k fd selector (leading i) junk address 0 [] bufferLength w)"

text \<open>The packet is kept from one transfer to the next, with what the longer ones left behind.\<close>

function write_buffer_loop ::
  "henv \<Rightarrow> int \<Rightarrow> u8 \<Rightarrow> int \<Rightarrow> u8 list \<Rightarrow> u32 \<Rightarrow> int \<Rightarrow> u8 list \<Rightarrow> hcall list \<Rightarrow> (int \<times> hcall list) option" where
  "write_buffer_loop k fd selector i packet address r data w =
     (if data = [] then Some (r, w)
      else let lead = leading i @ le32 address;
               len = (if length data > 60 - (length lead + 1) then 60 - (length lead + 1) else length data);
               packet = lead @ [word_of_nat len] @ take len data @ drop (length lead + 1 + len) packet in
        case usb_xioctl k fd (H_Query selector UVC_QUERY_SET_CUR packet) w of
          None \<Rightarrow> None
        | Some (a, w) \<Rightarrow>
            if ha_ret a = -1 then Some (-1, w)
            else write_buffer_loop k fd selector i packet (address + word_of_nat len) (ha_ret a) (drop len data) w)"
  by pat_completeness auto
termination by (relation "measure (\<lambda>(k, fd, selector, i, packet, address, r, data, w). length data)")
  (auto simp: leading_def split: if_splits)

declare write_buffer_loop.simps [simp del]

definition uvcExUnitWriteBuffer ::
  "henv \<Rightarrow> int \<Rightarrow> u8 \<Rightarrow> int \<Rightarrow> u32 \<Rightarrow> u8 list \<Rightarrow> u8 list \<Rightarrow> hcall list \<Rightarrow> (int \<times> hcall list) option" where
  "uvcExUnitWriteBuffer k fd selector i address data junk w =
     (if i < -1 \<or> i > 255 then Some (- EINVAL, w)
      else write_buffer_loop k fd selector i (put_back junk (replicate 60 0)) address 0 data w)"

text \<open>A string: its length is read, then its bytes, of which those before the first zero are taken.\<close>

definition uvcExUnitGetString ::
  "henv \<Rightarrow> int \<Rightarrow> u8 \<Rightarrow> u8 list \<Rightarrow> u8 list \<Rightarrow> hcall list \<Rightarrow> ((status \<times> u8 list) \<times> hcall list) mem option" where
  "uvcExUnitGetString k fd control outStr junk w =
     (case uvcExUnitReadBuffer k fd control (-1) 0 2 junk w of
        None \<Rightarrow> None
      | Some Fault \<Rightarrow> Some Fault
      | Some (Ret ((r, len), w)) \<Rightarrow>
          if r < 0 then Some (Ret ((GENERIC_ERROR, outStr), w))
          else case uvcExUnitReadBuffer k fd control (-1) 2 (unat (get16 len 0)) junk w of
            None \<Rightarrow> None
          | Some Fault \<Rightarrow> Some Fault
          | Some (Ret ((r, bytes), w)) \<Rightarrow>
              if r < 0 then Some (Ret ((GENERIC_ERROR, outStr), w))
              else Some (Ret ((OK, takeWhile (\<lambda>b. b \<noteq> 0) bytes), w)))"

section \<open>Temperature\<close>

record usb_temperature =
  ut_fd :: int
  ut_name :: string
  ut_id :: u8

definition UsbTemperatureSensor :: "string \<Rightarrow> u8 \<Rightarrow> usb_temperature" where
  "UsbTemperatureSensor name i = \<lparr>ut_fd = -1, ut_name = name, ut_id = i\<rparr>"

definition usb_temperature_open :: "int option \<Rightarrow> usb_temperature \<Rightarrow> status \<times> usb_temperature" where
  "usb_temperature_open handle t =
     (case handle of None \<Rightarrow> (INVALID_ARGUMENT, t) | Some fd \<Rightarrow> (OK, t\<lparr>ut_fd := fd\<rparr>))"

text \<open>The temperature is the four bytes of a float.\<close>

definition usb_temperature_read ::
  "henv \<Rightarrow> u8 list \<Rightarrow> u8 list \<Rightarrow> usb_temperature \<Rightarrow> hcall list \<Rightarrow> ((status \<times> u8 list) \<times> hcall list) mem option" where
  "usb_temperature_read k temperature junk t w =
     (if ut_fd t = 0 then Some (Ret ((GENERIC_ERROR, temperature), w))
      else case uvcExUnitReadOnePacket k (ut_fd t) 3 [ut_id t] 4 4 junk w of
        None \<Rightarrow> None
      | Some Fault \<Rightarrow> Some Fault
      | Some (Ret ((r, got), w)) \<Rightarrow>
          if r < 0 then Some (Ret ((GENERIC_ERROR, temperature), w)) else Some (Ret ((OK, got), w)))"

definition usb_temperature_close :: "usb_temperature \<Rightarrow> status \<times> usb_temperature" where
  "usb_temperature_close t = (OK, t\<lparr>ut_fd := -1\<rparr>)"

definition usb_temperature_getName :: "usb_temperature \<Rightarrow> status \<times> string" where
  "usb_temperature_getName t = (OK, ut_name t)"

section \<open>Calls that return\<close>

text \<open>A call returns exactly when some repetition of it is not to be made again, with its answer.\<close>

lemma xioctl_now: "\<not> retried (k w (H_Ioctl fd r)) \<Longrightarrow> usb_xioctl k fd r w = Some (k w (H_Ioctl fd r), w @ [H_Ioctl fd r])"
  by (subst usb_xioctl.simps) simp

lemma xioctl_again: "retried (k w (H_Ioctl fd r)) \<Longrightarrow> usb_xioctl k fd r w = usb_xioctl k fd r (w @ [H_Ioctl fd r])"
  by (subst usb_xioctl.simps) simp

lemma replicate_snoc: "w @ replicate (Suc n) c = (w @ [c]) @ replicate n c"
  by simp

lemma xioctl_after:
  "\<forall>i<n. retried (k (w @ replicate i (H_Ioctl fd r)) (H_Ioctl fd r)) \<Longrightarrow>
    \<not> retried (k (w @ replicate n (H_Ioctl fd r)) (H_Ioctl fd r)) \<Longrightarrow>
    usb_xioctl k fd r w = Some (k (w @ replicate n (H_Ioctl fd r)) (H_Ioctl fd r), w @ replicate (Suc n) (H_Ioctl fd r))"
proof (induction n arbitrary: w)
  case 0
  then show ?case by (simp add: xioctl_now)
next
  case (Suc n)
  let ?c = "H_Ioctl fd r"
  have "retried (k w ?c)" using Suc.prems(1) by (metis append_Nil2 replicate_0 zero_less_Suc)
  moreover have "\<forall>i<n. retried (k ((w @ [?c]) @ replicate i ?c) ?c)"
    using Suc.prems(1) by (metis Suc_less_eq replicate_snoc)
  moreover have "\<not> retried (k ((w @ [?c]) @ replicate n ?c) ?c)"
    using Suc.prems(2) by (simp only: replicate_snoc not_False_eq_True)
  ultimately show ?case using Suc.IH [of "w @ [?c]"] by (simp add: xioctl_again)
qed

lemma xioctl_tried:
  "usb_xioctl k fd r w = Some x \<Longrightarrow> \<exists>n. \<not> retried (k (w @ replicate n (H_Ioctl fd r)) (H_Ioctl fd r))"
proof (induction rule: usb_xioctl.raw_induct [rotated 1, consumes 1])
  case (1 loop k fd r w x)
  show ?case
  proof (cases "retried (k w (H_Ioctl fd r))")
    case True
    then have "loop k fd r (w @ [H_Ioctl fd r]) = Some x" using 1(2) by simp
    then obtain n where "\<not> retried (k ((w @ [H_Ioctl fd r]) @ replicate n (H_Ioctl fd r)) (H_Ioctl fd r))"
      using 1(1) by blast
    then show ?thesis by (metis replicate_snoc)
  next
    case False
    then show ?thesis by (intro exI [of _ 0]) simp
  qed
qed

text \<open>A call to the device returns exactly when some repetition of it is neither interrupted nor failing with an input or
  output error; it is then made until the first such repetition, and answers what that one does. A
  device that fails with input or output errors for good keeps the caller in the loop.\<close>

theorem xioctl_returns:
  "if \<exists>n. \<not> retried (k (w @ replicate n (H_Ioctl fd r)) (H_Ioctl fd r))
   then let n = LEAST n. \<not> retried (k (w @ replicate n (H_Ioctl fd r)) (H_Ioctl fd r)) in
     usb_xioctl k fd r w =
       Some (k (w @ replicate n (H_Ioctl fd r)) (H_Ioctl fd r), w @ replicate (Suc n) (H_Ioctl fd r))
   else usb_xioctl k fd r w = None"
proof (cases "\<exists>n. \<not> retried (k (w @ replicate n (H_Ioctl fd r)) (H_Ioctl fd r))")
  case True
  let ?n = "LEAST n. \<not> retried (k (w @ replicate n (H_Ioctl fd r)) (H_Ioctl fd r))"
  have "\<not> retried (k (w @ replicate ?n (H_Ioctl fd r)) (H_Ioctl fd r))" using True by (rule LeastI_ex)
  moreover have "\<forall>i<?n. retried (k (w @ replicate i (H_Ioctl fd r)) (H_Ioctl fd r))" using not_less_Least by blast
  ultimately show ?thesis using True xioctl_after [of ?n k w fd r] by (simp add: Let_def)
next
  case False
  then have "usb_xioctl k fd r w = None" using xioctl_tried by (metis option.exhaust surj_pair)
  then show ?thesis using False by simp
qed

section \<open>A memory behind the packets\<close>

text \<open>
  What the protocol says of a device with a memory: a packet to the control \<open>ws\<close> states an address, a
  number of bytes and the bytes, which are stored there; a packet to the control \<open>rs\<close> states an address,
  and what is asked for next from it are 60 bytes of the memory from there on.
\<close>

definition store_packet :: "nat \<Rightarrow> u8 list \<Rightarrow> u8 list \<Rightarrow> u8 list" where
  "store_packet l p m =
     (let a = unat (get32 p l); n = unat (p ! (l + 4)) in take a m @ take n (drop (l + 5) p) @ drop (a + n) m)"

definition store_call :: "int \<Rightarrow> u8 \<Rightarrow> nat \<Rightarrow> hcall \<Rightarrow> u8 list \<Rightarrow> u8 list" where
  "store_call fd ws l c m =
     (case c of
        H_Ioctl fd' (H_Query sel q p) \<Rightarrow> if fd' = fd \<and> sel = ws \<and> q = UVC_QUERY_SET_CUR then store_packet l p m else m
      | _ \<Rightarrow> m)"

definition stored :: "int \<Rightarrow> u8 \<Rightarrow> nat \<Rightarrow> u8 list \<Rightarrow> hcall list \<Rightarrow> u8 list" where
  "stored fd ws l m w = foldl (\<lambda>m c. store_call fd ws l c m) m w"

definition memory_device :: "henv \<Rightarrow> int \<Rightarrow> u8 \<Rightarrow> u8 \<Rightarrow> nat \<Rightarrow> u8 list \<Rightarrow> bool" where
  "memory_device k fd rs ws l m \<longleftrightarrow> rs \<noteq> ws \<and>
     (\<forall>w p. ha_ret (k w (H_Ioctl fd (H_Query rs UVC_QUERY_SET_CUR p))) = 0) \<and>
     (\<forall>w p. ha_ret (k w (H_Ioctl fd (H_Query ws UVC_QUERY_SET_CUR p))) = 0) \<and>
     (\<forall>w p q. let w = w @ [H_Ioctl fd (H_Query rs UVC_QUERY_SET_CUR p)]; a = k w (H_Ioctl fd (H_Query rs UVC_QUERY_GET_CUR q)) in
        ha_ret a = 0 \<and> ha_bytes a = take 60 (drop (unat (get32 p l)) (stored fd ws l m w) @ replicate 60 0))"

lemma stored_snoc: "stored fd ws l m (w @ [c]) = store_call fd ws l c (stored fd ws l m w)"
  by (simp add: stored_def)

lemma xioctl_zero: "ha_ret (k w (H_Ioctl fd r)) = 0 \<Longrightarrow> usb_xioctl k fd r w = Some (k w (H_Ioctl fd r), w @ [H_Ioctl fd r])"
  by (rule xioctl_now) (simp add: retried_def)

lemma get32_behind: "get32 (xs @ le32 a @ ys) (length xs) = a"
  by (rule get32_at) simp

text \<open>What one packet writes, and what one reads.\<close>

lemma store_written:
  assumes "a + length chunk \<le> length m" "length chunk < 256" "a < 2 ^ 32" "length lead = l"
  shows "store_packet l (lead @ le32 (word_of_nat a) @ [word_of_nat (length chunk)] @ chunk @ rest) m =
    take a m @ chunk @ drop (a + length chunk) m"
proof -
  have "unat (word_of_nat a :: u32) = a" "unat (word_of_nat (length chunk) :: u8) = length chunk"
    using assms(2,3) by (simp_all add: unat_of_nat)
  moreover have "get32 (lead @ le32 (word_of_nat a) @ [word_of_nat (length chunk)] @ chunk @ rest) l = word_of_nat a"
    using get32_behind [of lead] assms(4) by blast
  moreover have "(lead @ le32 (word_of_nat a) @ [word_of_nat (length chunk)] @ chunk @ rest) ! (l + 4) = word_of_nat (length chunk)"
    "drop (l + 5) (lead @ le32 (word_of_nat a) @ [word_of_nat (length chunk)] @ chunk @ rest) = chunk @ rest"
    using assms(4) by (simp_all add: nth_append drop_append)
  ultimately show ?thesis by (simp add: store_packet_def)
qed

lemma answer_read:
  assumes "length p = 60" "n \<le> 60" "a + n \<le> length x"
  shows "mem_read n (put_back (take 60 (drop a x @ replicate 60 0)) p) = Ret (take n (drop a x))"
proof -
  have "put_back (take 60 (drop a x @ replicate 60 0)) p = take 60 (drop a x @ replicate 60 0)"
    unfolding put_back_def using assms(1) by (simp only: length_take length_append length_replicate) (simp add: min_def)
  moreover have "take n (take 60 (drop a x @ replicate 60 0)) = take n (drop a x)"
    using assms(2,3) by (auto simp: min_def)
  ultimately show ?thesis using assms(2) by (simp add: mem_read_def)
qed

lemma read_packet_value:
  assumes "memory_device k fd rs ws l m" "length lead = l" "l \<le> 1" "n \<le> 60" "a < 2 ^ 32"
    and "a + n \<le> length (stored fd ws l m w)"
  shows "\<exists>v. uvcExUnitReadOnePacket k fd rs (lead @ le32 (word_of_nat a)) 60 n junk w =
      Some (Ret ((0, take n (drop a (stored fd ws l m w))), v)) \<and>
    stored fd ws l m v = stored fd ws l m w"
proof -
  note dev = assms(1) [unfolded memory_device_def]
  let ?b = "lead @ le32 (word_of_nat a)" and ?z = "put_back junk (replicate 60 0) :: u8 list"
  define p where "p = (?b @ [word_of_nat 60]) @ drop (length ?b + 1) ?z"
  let ?set = "H_Ioctl fd (H_Query rs UVC_QUERY_SET_CUR p)" and ?get = "H_Ioctl fd (H_Query rs UVC_QUERY_GET_CUR p)"
  have z: "length ?z = 60" by (simp add: put_back_def)
  have b: "length ?b = l + 4" "?b \<noteq> []" using assms(2) by (simp_all add: le32_def)
  have p: "mem_write 0 (?b @ [word_of_nat 60]) ?z = Ret p" "length p = 60"
    using z b assms(3) by (simp_all add: mem_write_def add.commute p_def)
  have g: "get32 p l = word_of_nat a" using get32_behind [of lead] assms(2) by (simp add: p_def)
  have s1: "usb_xioctl k fd (H_Query rs UVC_QUERY_SET_CUR p) w = Some (k w ?set, w @ [?set])" "ha_ret (k w ?set) = 0"
    using dev by (auto intro: xioctl_zero)
  have st: "stored fd ws l m (w @ [?set]) = stored fd ws l m w"
    "stored fd ws l m ((w @ [?set]) @ [?get]) = stored fd ws l m w"
    using dev by (simp_all only: stored_snoc) (simp_all add: store_call_def)
  have s2: "ha_ret (k (w @ [?set]) ?get) = 0"
    "ha_bytes (k (w @ [?set]) ?get) = take 60 (drop a (stored fd ws l m w) @ replicate 60 0)"
    using dev g st(1) assms(5) by (auto simp: Let_def unat_of_nat)
  have s3: "usb_xioctl k fd (H_Query rs UVC_QUERY_GET_CUR p) (w @ [?set]) = Some (k (w @ [?set]) ?get, (w @ [?set]) @ [?get])"
    by (rule xioctl_zero [where k = k and fd = fd and r = "H_Query rs UVC_QUERY_GET_CUR p", OF s2(1)])
  have "mem_read n (put_back (ha_bytes (k (w @ [?set]) ?get)) p) = Ret (take n (drop a (stored fd ws l m w)))"
    unfolding s2(2) by (rule answer_read [OF p(2) assms(4,6)])
  then have "uvcExUnitReadOnePacket k fd rs ?b 60 n junk w =
      Some (Ret ((0, take n (drop a (stored fd ws l m w))), (w @ [?set]) @ [?get]))"
    using b p s1 s2(1) s3 assms(3) unfolding uvcExUnitReadOnePacket_def packet_answer_def Let_def by simp
  then show ?thesis using st(2) by blast
qed

lemma leading_length: "length (leading i) \<le> 1"
  by (simp add: leading_def)

text \<open>The loops over such a device.\<close>

lemma read_loop_value:
  assumes "memory_device k fd rs ws (length (leading i)) m"
  shows "a + n \<le> length (stored fd ws (length (leading i)) m w) \<Longrightarrow> a + n \<le> 2 ^ 32 \<Longrightarrow>
    \<exists>v. read_buffer_loop k fd rs (leading i) junk (word_of_nat a) 0 got n w =
        Some (Ret ((0, got @ take n (drop a (stored fd ws (length (leading i)) m w))), v)) \<and>
      stored fd ws (length (leading i)) m v = stored fd ws (length (leading i)) m w"
proof (induction n arbitrary: a got w rule: less_induct)
  case (less n)
  let ?l = "length (leading i)"
  show ?case
  proof (cases "n = 0")
    case True
    then show ?thesis by (simp add: read_buffer_loop.simps)
  next
    case False
    define len where "len = (if n < 60 then n else 60)"
    have len: "0 < len" "len \<le> n" "len \<le> 60" using False by (auto simp: len_def)
    have a: "a < 2 ^ 32" "a + len \<le> length (stored fd ws ?l m w)" using less.prems False len by auto
    obtain u where u: "uvcExUnitReadOnePacket k fd rs (leading i @ le32 (word_of_nat a)) 60 len junk w =
        Some (Ret ((0, take len (drop a (stored fd ws ?l m w))), u))" "stored fd ws ?l m u = stored fd ws ?l m w"
      using read_packet_value [OF assms refl leading_length len(3) a] by blast
    obtain v where v: "read_buffer_loop k fd rs (leading i) junk (word_of_nat (a + len)) 0
          (got @ take len (drop a (stored fd ws ?l m w))) (n - len) u =
        Some (Ret ((0, (got @ take len (drop a (stored fd ws ?l m w))) @
          take (n - len) (drop (a + len) (stored fd ws ?l m u))), v))"
        "stored fd ws ?l m v = stored fd ws ?l m u"
      using less.IH [of "n - len" "a + len" u "got @ take len (drop a (stored fd ws ?l m w))"] less.prems len u(2) by auto
    have t: "take len (drop a x) @ take (n - len) (drop (a + len) x) = take n (drop a x)" for x :: "u8 list"
      using len(2) take_add [of len "n - len" "drop a x"] by (simp add: add.commute)
    show ?thesis
      using False u v t by (subst read_buffer_loop.simps) (simp add: Let_def len_def [symmetric])
  qed
qed

lemma write_loop_value:
  assumes "memory_device k fd rs ws (length (leading i)) m"
  shows "a + length data \<le> length (stored fd ws (length (leading i)) m w) \<Longrightarrow> a + length data \<le> 2 ^ 32 \<Longrightarrow>
    \<exists>v. write_buffer_loop k fd ws i packet (word_of_nat a) 0 data w = Some (0, v) \<and>
      stored fd ws (length (leading i)) m v =
        take a (stored fd ws (length (leading i)) m w) @ data @ drop (a + length data) (stored fd ws (length (leading i)) m w)"
proof (induction data arbitrary: a packet w rule: length_induct)
  case (1 data)
  let ?l = "length (leading i)"
  show ?case
  proof (cases "data = []")
    case True
    then show ?thesis by (simp add: write_buffer_loop.simps)
  next
    case False
    define lead where "lead = leading i @ le32 (word_of_nat a)"
    define len where "len = (if length data > 60 - (length lead + 1) then 60 - (length lead + 1) else length data)"
    have len: "0 < len" "len \<le> length data" "len < 60"
      using False leading_length [of i] by (auto simp: len_def lead_def)
    define p where "p = lead @ [word_of_nat len] @ take len data @ drop (length lead + 1 + len) packet"
    let ?c = "H_Ioctl fd (H_Query ws UVC_QUERY_SET_CUR p)" and ?m = "stored fd ws ?l m w"
    have c: "ha_ret (k w ?c) = 0" using assms by (simp add: memory_device_def)
    have ll: "length (take len data) = len" using len by simp
    have m1: "stored fd ws ?l m (w @ [?c]) = take a ?m @ take len data @ drop (a + len) ?m"
      using store_written [of a "take len data" ?m "leading i" ?l "drop (length lead + 1 + len) packet"] 1(2,3) False len ll
      by (simp add: stored_snoc store_call_def p_def lead_def)
    have lm: "length (stored fd ws ?l m (w @ [?c])) = length ?m" using 1(2) len by (simp add: m1)
    obtain v where v: "write_buffer_loop k fd ws i p (word_of_nat (a + len)) 0 (drop len data) (w @ [?c]) = Some (0, v)"
      "stored fd ws ?l m v = take (a + len) (stored fd ws ?l m (w @ [?c])) @ drop len data @
         drop (a + len + length (drop len data)) (stored fd ws ?l m (w @ [?c]))"
      using 1(1) [rule_format, of "drop len data" "a + len" "w @ [?c]" p] 1(2,3) len lm by fastforce
    have t: "take (a + len) (stored fd ws ?l m (w @ [?c])) = take a ?m @ take len data"
      "drop (a + length data) (stored fd ws ?l m (w @ [?c])) = drop (a + length data) ?m"
      using 1(2) len by (simp_all add: m1 add.commute)
    have "stored fd ws ?l m v = take a ?m @ data @ drop (a + length data) ?m"
      using v(2) t len(2) by simp
    moreover have "write_buffer_loop k fd ws i packet (word_of_nat a) 0 data w =
        (case usb_xioctl k fd (H_Query ws UVC_QUERY_SET_CUR p) w of
           None \<Rightarrow> None
         | Some (a', w) \<Rightarrow>
             if ha_ret a' = -1 then Some (-1, w)
             else write_buffer_loop k fd ws i p (word_of_nat a + word_of_nat len) (ha_ret a') (drop len data) w)"
      by (subst write_buffer_loop.simps)
        (simp only: Let_def lead_def [symmetric] len_def [symmetric] p_def [symmetric] False if_False)
    then have "write_buffer_loop k fd ws i packet (word_of_nat a) 0 data w = Some (0, v)"
      using v(1) c xioctl_zero [where k = k and w = w and fd = fd and r = "H_Query ws UVC_QUERY_SET_CUR p", OF c] by simp
    ultimately show ?thesis by blast
  qed
qed

text \<open>C17: A buffer that is written to a device with a memory, in packets, is in the memory at its address and nothing
  else changes; reading as many bytes from there gives the buffer back.\<close>

theorem buffer_round_trip:
  assumes "memory_device k fd rs ws (length (leading i)) m" "-1 \<le> i" "i \<le> 255"
    and "unat address + length data \<le> length (stored fd ws (length (leading i)) m w)" "unat address + length data \<le> 2 ^ 32"
  shows "\<exists>u v. uvcExUnitWriteBuffer k fd ws i address data junk w = Some (0, u) \<and>
    stored fd ws (length (leading i)) m u = take (unat address) (stored fd ws (length (leading i)) m w) @ data @
      drop (unat address + length data) (stored fd ws (length (leading i)) m w) \<and>
    uvcExUnitReadBuffer k fd rs i address (length data) junk u = Some (Ret ((0, data), v))"
proof -
  let ?l = "length (leading i)" and ?a = "unat address"
  have a: "word_of_nat ?a = address" by simp
  obtain u where u: "uvcExUnitWriteBuffer k fd ws i address data junk w = Some (0, u)"
    "stored fd ws ?l m u = take ?a (stored fd ws ?l m w) @ data @ drop (?a + length data) (stored fd ws ?l m w)"
    using write_loop_value [OF assms(1,4,5), where packet = "put_back junk (replicate 60 0)"] assms(2,3)
    by (auto simp: uvcExUnitWriteBuffer_def a)
  have l: "?a + length data \<le> length (stored fd ws ?l m u)" using assms(4) by (simp add: u(2))
  have r: "take (length data) (drop ?a (stored fd ws ?l m u)) = data" using assms(4) by (simp add: u(2))
  obtain v where "uvcExUnitReadBuffer k fd rs i address (length data) junk u = Some (Ret ((0, data), v))"
    using read_loop_value [OF assms(1) l assms(5), of junk "[]"] assms(2,3) r by (auto simp: uvcExUnitReadBuffer_def a)
  then show ?thesis using u by blast
qed

definition no_answer :: hanswer where
  "no_answer = \<lparr>ha_ret = 0, ha_errno = 0, ha_bytes = [],
     ha_format = \<lparr>h_width = 0, h_height = 0, h_pixelformat = 0, h_field = 0, h_rest = []\<rparr>, ha_count = 0,
     ha_index = 0, ha_length = 0, ha_offset = 0, ha_addr = 0, ha_data = [], ha_caps = 0, ha_card = '''',
     ha_name = None, ha_chr = False\<rparr>"

definition memory_env :: "u8 list \<Rightarrow> henv" where
  "memory_env m w c = no_answer\<lparr>ha_bytes :=
     (if w = [] then []
      else (case last w of
            H_Ioctl fd (H_Query sel q p) \<Rightarrow> take 60 (drop (unat (get32 p 0)) (stored fd 2 0 m w) @ replicate 60 0)
          | _ \<Rightarrow> []))\<rparr>"

theorem buffer_round_trip_witness:
  "\<exists>u v. uvcExUnitWriteBuffer (memory_env (replicate 200 0)) 3 2 (-1) 50 (replicate 100 7) [] [] = Some (0, u) \<and>
    uvcExUnitReadBuffer (memory_env (replicate 200 0)) 3 1 (-1) 50 100 [] u = Some (Ret ((0, replicate 100 7), v))"
proof -
  have l: "leading (-1) = []" by (simp add: leading_def)
  have d: "memory_device (memory_env (replicate 200 0)) 3 1 2 (length (leading (-1))) (replicate 200 0)"
    unfolding memory_device_def l by (simp add: memory_env_def no_answer_def Let_def)
  have "unat (50 :: u32) + length (replicate 100 (7 :: u8)) \<le> length (stored 3 2 (length (leading (-1))) (replicate 200 0) [])"
    "unat (50 :: u32) + length (replicate 100 (7 :: u8)) \<le> 2 ^ 32"
    by (simp_all add: stored_def)
  from buffer_round_trip [OF d _ _ this, of "[]"] show ?thesis by auto
qed

end
