(* ===== verification/Usb_Camera.thy ===== *)
theory Usb_Camera
  imports Usb_Packets
begin

text \<open>
  The depth sensor of the host as a V4L2 device, \<^verbatim>\<open>sdk/src/connections/usb/linux/usb_depth_sensor_linux.cpp\<close>:
  opening, the mode and the mapped buffers, streaming, frames, programming and the end. The host's
  operating system answers the calls; requests to the target go through a \<open>transport\<close>, as in
  \<open>Usb_Requests\<close>.

  The answer \<open>None\<close> is an operation that never returns, \<open>Some Fault\<close> one that may access memory that is
  not there. An allocation that fails answers a negative number. Log messages are left out, and the
  cache of calibrations, which is always empty.
\<close>

section \<open>The state\<close>

text \<open>
  The buffers are the array that was allocated, of addresses and lengths; how many of them are
  mapped is kept apart from it.
\<close>

record 't usb_sensor =
  us_fd :: int
  us_path :: string
  us_name :: string
  us_buffers :: "(nat \<times> nat) list option"
  us_buffersCount :: nat
  us_fmt :: host_format
  us_opened :: bool
  us_started :: bool
  us_types :: "DepthSensorFrameType list"
  us_fps :: int
  us_calls :: "hcall list"
  us_link :: 't

definition no_format :: host_format where
  "no_format = \<lparr>h_width = 0, h_height = 0, h_pixelformat = 0, h_field = 0, h_rest = []\<rparr>"

text \<open>The frame rate is not initialised, nor is the format.\<close>

definition UsbDepthSensor :: "string \<Rightarrow> string \<Rightarrow> host_format \<Rightarrow> int \<Rightarrow> hcall list \<Rightarrow> 't \<Rightarrow> 't usb_sensor" where
  "UsbDepthSensor name path fmt0 fps0 w t =
     \<lparr>us_fd = 0, us_path = path, us_name = name, us_buffers = None, us_buffersCount = 0, us_fmt = fmt0,
      us_opened = False, us_started = False, us_types = [], us_fps = fps0, us_calls = w, us_link = t\<rparr>"

section \<open>Calls\<close>

definition hcall :: "henv \<Rightarrow> hcall \<Rightarrow> 't usb_sensor \<Rightarrow> hanswer \<times> 't usb_sensor" where
  "hcall k c s = (k (us_calls s) c, s\<lparr>us_calls := us_calls s @ [c]\<rparr>)"

definition hioctl :: "henv \<Rightarrow> hrequest \<Rightarrow> 't usb_sensor \<Rightarrow> (hanswer \<times> 't usb_sensor) option" where
  "hioctl k r s =
     (case usb_xioctl k (us_fd s) r (us_calls s) of
        None \<Rightarrow> None
      | Some (a, w) \<Rightarrow> Some (a, s\<lparr>us_calls := w\<rparr>))"

text \<open>Going on when a call returned, and when an operation did without a fault.\<close>

definition and_then :: "'a option \<Rightarrow> ('a \<Rightarrow> 'b mem option) \<Rightarrow> 'b mem option" where
  "and_then x f = (case x of None \<Rightarrow> None | Some a \<Rightarrow> f a)"

definition and_safely :: "'a mem option \<Rightarrow> ('a \<Rightarrow> 'b mem option) \<Rightarrow> 'b mem option" where
  "and_safely x f = (case x of None \<Rightarrow> None | Some Fault \<Rightarrow> Some Fault | Some (Ret a) \<Rightarrow> f a)"

section \<open>Opening and streaming\<close>

definition usb_open ::
  "encoder \<Rightarrow> decoder \<Rightarrow> 't transport \<Rightarrow> henv \<Rightarrow> 't usb_sensor \<Rightarrow> (status \<times> 't usb_sensor) mem option" where
  "usb_open enc dec tr k s =
     (case hcall k (H_Open (us_path s)) s of (a, s) \<Rightarrow>
      let s = s\<lparr>us_fd := ha_ret a\<rparr> in
      if ha_ret a = -1 then Some (Ret (UNREACHABLE, s))
      else and_then (hioctl k H_G_Fmt (s\<lparr>us_fmt := no_format\<rparr>)) (\<lambda>(a, s).
        if ha_ret a = -1 then Some (Ret (GENERIC_ERROR, s))
        else let s = s\<lparr>us_fmt := ha_format a\<rparr> in
          (case usb_available_types enc dec tr (us_types s) (us_link s) of
             Fault \<Rightarrow> Some Fault
           | Ret (r, types, t) \<Rightarrow>
               if r \<noteq> OK then Some (Ret (r, s\<lparr>us_link := t\<rparr>))
               else Some (Ret (r, s\<lparr>us_link := t, us_types := types, us_opened := True\<rparr>)))))"

definition usb_start :: "henv \<Rightarrow> 't usb_sensor \<Rightarrow> (status \<times> 't usb_sensor) mem option" where
  "usb_start k s =
     (if us_started s then Some (Ret (BUSY, s))
      else and_then (hioctl k (H_S_Parm 1 (word_of_int (us_fps s))) s) (\<lambda>(a, s).
        if ha_ret a = -1 then Some (Ret (GENERIC_ERROR, s))
        else and_then (hioctl k H_Streamon s) (\<lambda>(a, s).
          if ha_ret a = -1 then Some (Ret (GENERIC_ERROR, s))
          else Some (Ret (OK, s\<lparr>us_started := True\<rparr>)))))"

definition usb_stop :: "henv \<Rightarrow> 't usb_sensor \<Rightarrow> (status \<times> 't usb_sensor) mem option" where
  "usb_stop k s =
     (if \<not> us_started s then Some (Ret (BUSY, s))
      else and_then (hioctl k H_Streamoff s) (\<lambda>(a, s).
        if ha_ret a = -1 then Some (Ret (GENERIC_ERROR, s))
        else Some (Ret (OK, s\<lparr>us_started := False\<rparr>))))"

definition usb_getAvailableFrameTypes :: "'t usb_sensor \<Rightarrow> status \<times> DepthSensorFrameType list" where
  "usb_getAvailableFrameTypes s = (OK, us_types s)"

section \<open>The mode\<close>

text \<open>The sizes of a format are asked for until one fits or there are no more, the formats until one has a size that fits.\<close>

partial_function (option) find_size ::
  "henv \<Rightarrow> u32 \<Rightarrow> u32 \<Rightarrow> u32 \<Rightarrow> u32 \<Rightarrow> 't usb_sensor \<Rightarrow> (bool \<times> 't usb_sensor) option" where
  "find_size k pixelformat w h i s =
     (case hioctl k (H_Enum_Framesizes i pixelformat) s of
        None \<Rightarrow> None
      | Some (a, s) \<Rightarrow>
          if ha_ret a \<noteq> 0 then Some (False, s)
          else if h_width (ha_format a) = w \<and> h_height (ha_format a) = h then Some (True, s)
          else find_size k pixelformat w h (i + 1) s)"

partial_function (option) find_format ::
  "henv \<Rightarrow> u32 \<Rightarrow> u32 \<Rightarrow> u32 \<Rightarrow> 't usb_sensor \<Rightarrow> (u32 option \<times> 't usb_sensor) option" where
  "find_format k w h i s =
     (case hioctl k (H_Enum_Fmt i) s of
        None \<Rightarrow> None
      | Some (a, s) \<Rightarrow>
          if ha_ret a \<noteq> 0 then Some (None, s)
          else case find_size k (h_pixelformat (ha_format a)) w h 0 s of
            None \<Rightarrow> None
          | Some (found, s) \<Rightarrow>
              if found then Some (Some (h_pixelformat (ha_format a)), s) else find_format k w h (i + 1) s)"

text \<open>Mapping: \<open>n\<close> buffers from the \<open>i\<close>-th on, which is the number of those that are mapped.\<close>

fun map_buffers :: "henv \<Rightarrow> nat \<Rightarrow> nat \<Rightarrow> 't usb_sensor \<Rightarrow> (status \<times> 't usb_sensor) mem option" where
  "map_buffers k 0 i s = Some (Ret (OK, s\<lparr>us_buffersCount := i\<rparr>))"
| "map_buffers k (Suc n) i s =
     and_then (hioctl k (H_Querybuf i) (s\<lparr>us_buffersCount := i\<rparr>)) (\<lambda>(buf, s).
       if ha_ret buf = -1 then Some (Ret (GENERIC_ERROR, s))
       else case us_buffers s of
           None \<Rightarrow> Some Fault
         | Some bs \<Rightarrow>
             if length bs \<le> i then Some Fault
             else (case hcall k (H_Mmap (us_fd s) (ha_length buf) (ha_offset buf)) s of (a, s) \<Rightarrow>
               let s = s\<lparr>us_buffers := Some (bs[i := (ha_addr a, ha_length buf)])\<rparr> in
               if ha_addr a = MAP_FAILED then Some (Ret (GENERIC_ERROR, s))
               else map_buffers k n (i + 1) s))"

fun queue_buffers :: "henv \<Rightarrow> nat \<Rightarrow> nat \<Rightarrow> 't usb_sensor \<Rightarrow> (status \<times> 't usb_sensor) mem option" where
  "queue_buffers k 0 i s = Some (Ret (OK, s))"
| "queue_buffers k (Suc n) i s =
     and_then (hioctl k (H_Qbuf i) s) (\<lambda>(a, s).
       if ha_ret a = -1 then Some (Ret (GENERIC_ERROR, s)) else queue_buffers k n (i + 1) s)"

text \<open>From the request of buffers on. The array is only allocated when there is none.\<close>

definition usb_request_buffers :: "henv \<Rightarrow> 't usb_sensor \<Rightarrow> (status \<times> 't usb_sensor) mem option" where
  "usb_request_buffers k s =
     and_then (hioctl k (H_Reqbufs 4) s) (\<lambda>(req, s).
       if ha_ret req = -1 then Some (Ret (GENERIC_ERROR, s))
       else if ha_count req < 2 then Some (Ret (GENERIC_ERROR, s))
       else let s = (if us_buffers s = None
                     then (case hcall k (H_Calloc (ha_count req)) s of (a, s) \<Rightarrow>
                       if ha_ret a < 0 then s else s\<lparr>us_buffers := Some (replicate (ha_count req) (0, 0))\<rparr>)
                     else s)
         in if us_buffers s = None then Some (Ret (GENERIC_ERROR, s))
            else and_safely (map_buffers k (ha_count req) 0 s) (\<lambda>(r, s).
              if r \<noteq> OK then Some (Ret (r, s)) else queue_buffers k (us_buffersCount s) 0 s))"

definition usb_setFrameType ::
  "encoder \<Rightarrow> 't transport \<Rightarrow> henv \<Rightarrow> DepthSensorFrameType \<Rightarrow> 't usb_sensor \<Rightarrow> (status \<times> 't usb_sensor) mem option" where
  "usb_setFrameType enc tr k type s =
     (case usb_send_frame_type enc tr type (us_link s) of Fault \<Rightarrow> Some Fault | Ret (r, t) \<Rightarrow>
      let s = s\<lparr>us_link := t\<rparr> in
      if r \<noteq> OK then Some (Ret (r, s))
      else and_then (hioctl k (H_Reqbufs 0) s) (\<lambda>(a, s).
        if ha_ret a = -1 then Some (Ret (GENERIC_ERROR, s))
        else and_then (find_format k (ft_width type) (ft_height type) 0 s) (\<lambda>(pixelformat, s).
          case pixelformat of
            None \<Rightarrow> Some (Ret (GENERIC_ERROR, s))
          | Some pf \<Rightarrow>
              let f = (us_fmt s)\<lparr>h_width := ft_width type, h_height := ft_height type, h_pixelformat := pf, h_field := 0\<rparr> in
              and_then (hioctl k (H_S_Fmt f) (s\<lparr>us_fmt := f\<rparr>)) (\<lambda>(a, s).
                if ha_ret a = -1 then Some (Ret (GENERIC_ERROR, s))
                else usb_request_buffers k (s\<lparr>us_fmt := ha_format a\<rparr>)))))"

section \<open>Programming\<close>

text \<open>Whether a packet arrives is not looked at.\<close>

function program_loop :: "henv \<Rightarrow> u8 list \<Rightarrow> 't usb_sensor \<Rightarrow> 't usb_sensor option" where
  "program_loop k bytes s =
     (if bytes = [] then Some s
      else let s = snd (hcall k (H_Usleep 5000) s) in
        if length bytes > 58
        then (case hioctl k (H_Query 1 UVC_QUERY_SET_CUR ([0x01, 58] @ take 58 bytes)) s of
                None \<Rightarrow> None
              | Some (a, s) \<Rightarrow> program_loop k (drop 58 bytes) s)
        else (case hioctl k (H_Query 1 UVC_QUERY_SET_CUR ([0x02, word_of_nat (length bytes)] @ bytes @ replicate (58 - length bytes) 0)) s of
                None \<Rightarrow> None
              | Some (a, s) \<Rightarrow> Some s))"
  by pat_completeness auto
termination by (relation "measure (\<lambda>(k, bytes, s). length bytes)") auto

declare program_loop.simps [simp del]

definition usb_program :: "henv \<Rightarrow> u8 list option \<Rightarrow> nat \<Rightarrow> 't usb_sensor \<Rightarrow> (status \<times> 't usb_sensor) mem option" where
  "usb_program k firmware n s =
     (case firmware of
        None \<Rightarrow> Some (Ret (INVALID_ARGUMENT, s))
      | Some fw \<Rightarrow>
          (case mem_read n fw of
             Fault \<Rightarrow> Some Fault
           | Ret bytes \<Rightarrow>
               and_then (program_loop k bytes s) (\<lambda>s.
                 and_then (hioctl k H_Streamon (snd (hcall k (H_Usleep 100000) s))) (\<lambda>(a, s).
                   if ha_ret a = -1 then Some (Ret (GENERIC_ERROR, s))
                   else Some (Ret (OK, s\<lparr>us_started := True\<rparr>))))))"

section \<open>Frames\<close>

abbreviation EAGAIN :: int where "EAGAIN \<equiv> 11"

text \<open>
  \<open>ha_data\<close> of the answer is what the mapping of the buffer that it names holds. A buffer that is not
  filled in names the first one, as it was cleared.
\<close>

definition usb_getFrame ::
  "henv \<Rightarrow> u8 list option \<Rightarrow> 't usb_sensor \<Rightarrow> (status \<times> u8 list option \<times> 't usb_sensor) mem option" where
  "usb_getFrame k buffer s =
     (case buffer of
        None \<Rightarrow> Some (Ret (INVALID_ARGUMENT, None, s))
      | Some dest \<Rightarrow>
          (case hcall k (H_Select (us_fd s)) s of (r, s) \<Rightarrow>
           if ha_ret r = -1 \<and> ha_errno r = EINTR then Some (Ret (GENERIC_ERROR, buffer, s))
           else if ha_ret r = 0 then Some (Ret (BUSY, buffer, s))
           else and_then (hioctl k H_Dqbuf s) (\<lambda>(buf, s).
             if ha_ret buf = -1 \<and> ha_errno buf \<noteq> EAGAIN then Some (Ret (GENERIC_ERROR, buffer, s))
             else let i = (if ha_ret buf = -1 then 0 else ha_index buf) in
               if us_buffersCount s \<le> i then Some (Ret (INVALID_ARGUMENT, buffer, s))
               else case us_buffers s of
                   None \<Rightarrow> Some Fault
                 | Some bs \<Rightarrow>
                     if length bs \<le> i then Some Fault
                     else (case mem_write 0 (put_back (ha_data buf) (replicate (snd (bs ! i)) 0)) dest of
                             Fault \<Rightarrow> Some Fault
                           | Ret dest \<Rightarrow>
                               and_then (hioctl k (H_Qbuf i) s) (\<lambda>(a, s).
                                 Some (Ret (if ha_ret a = -1 then GENERIC_ERROR else OK, Some dest, s)))))))"

section \<open>The end\<close>

fun unmap_mapped :: "henv \<Rightarrow> nat \<Rightarrow> nat \<Rightarrow> 't usb_sensor \<Rightarrow> (bool \<times> 't usb_sensor) mem" where
  "unmap_mapped k 0 i s = Ret (True, s)"
| "unmap_mapped k (Suc n) i s =
     (case us_buffers s of
        None \<Rightarrow> Fault
      | Some bs \<Rightarrow>
          if length bs \<le> i then Fault
          else (case hcall k (H_Munmap (fst (bs ! i)) (snd (bs ! i))) s of (a, s) \<Rightarrow>
            if ha_ret a = -1 then Ret (False, s) else unmap_mapped k n (i + 1) s))"

text \<open>A mapping that cannot be undone ends it: the rest, the array and the descriptor stay.\<close>

definition usb_delete :: "henv \<Rightarrow> 't usb_sensor \<Rightarrow> 't usb_sensor mem option" where
  "usb_delete k s =
     and_safely (if us_started s then usb_stop k s else Some (Ret (OK, s))) (\<lambda>(r, s).
       (case unmap_mapped k (us_buffersCount s) 0 s of
          Fault \<Rightarrow> Some Fault
        | Ret (all, s) \<Rightarrow>
            if \<not> all then Some (Ret s)
            else let s = (if us_buffers s \<noteq> None then snd (hcall k H_Free s) else s);
                     s = (if us_fd s \<noteq> 0 then snd (hcall k (H_Close (us_fd s)) s) else s)
              in Some (Ret s)))"

definition usb_getName :: "'t usb_sensor \<Rightarrow> status \<times> string" where
  "usb_getName s = (OK, us_name s)"

definition usb_getHandle :: "'t usb_sensor \<Rightarrow> status \<times> int option" where
  "usb_getHandle s = (if us_opened s then (OK, Some (us_fd s)) else (UNAVAILABLE, None))"

section \<open>Outcomes\<close>

text \<open>An operation that does not fault, and whose result has a property when it returns.\<close>

fun safely :: "('a \<Rightarrow> bool) \<Rightarrow> 'a mem option \<Rightarrow> bool" where
  "safely P None \<longleftrightarrow> True"
| "safely P (Some Fault) \<longleftrightarrow> False"
| "safely P (Some (Ret a)) \<longleftrightarrow> P a"

lemma safely_and_then: "(\<And>a. x = Some a \<Longrightarrow> safely P (f a)) \<Longrightarrow> safely P (and_then x f)"
  by (simp add: and_then_def split: option.split)

lemma safely_and_safely: "safely Q x \<Longrightarrow> (\<And>a. Q a \<Longrightarrow> safely P (f a)) \<Longrightarrow> safely P (and_safely x f)"
  by (auto simp: and_safely_def split: option.split mem.split)

text \<open>A call changes nothing but what was called.\<close>

definition same_but_calls :: "'t usb_sensor \<Rightarrow> 't usb_sensor \<Rightarrow> bool" where
  "same_but_calls s t \<longleftrightarrow> (\<exists>w. t = s\<lparr>us_calls := w\<rparr>)"

lemma same_refl [simp]: "same_but_calls s s"
  unfolding same_but_calls_def by (rule exI [of _ "us_calls s"]) simp

lemma same_trans [trans]: "same_but_calls s t \<Longrightarrow> same_but_calls t u \<Longrightarrow> same_but_calls s u"
  by (auto simp: same_but_calls_def)

lemma same_fields:
  assumes "same_but_calls s t"
  shows "us_buffers t = us_buffers s" "us_buffersCount t = us_buffersCount s" "us_fd t = us_fd s" "us_started t = us_started s"
    "us_link t = us_link s" "us_fmt t = us_fmt s"
  using assms by (auto simp: same_but_calls_def)

lemma same_hcall: "hcall k c s = (a, t) \<Longrightarrow> same_but_calls s t"
  by (auto simp: hcall_def same_but_calls_def)

lemma same_snd_hcall: "same_but_calls s (snd (hcall k c s))"
  by (auto simp: hcall_def same_but_calls_def)

lemma same_hioctl: "hioctl k r s = Some (a, t) \<Longrightarrow> same_but_calls s t"
  by (auto simp: hioctl_def same_but_calls_def split: option.splits)

lemma same_find_size: "find_size k pf w h i s = Some x \<Longrightarrow> same_but_calls s (snd x)"
proof (induction rule: find_size.raw_induct [rotated 1, consumes 1])
  case (1 loop k pf w h i s x)
  then obtain a u where u: "hioctl k (H_Enum_Framesizes i pf) s = Some (a, u)" by (auto split: option.splits)
  show ?case
  proof (cases "ha_ret a \<noteq> 0 \<or> h_width (ha_format a) = w \<and> h_height (ha_format a) = h")
    case True
    then show ?thesis using 1(2) u same_hioctl [OF u] by (auto split: if_splits)
  next
    case False
    then have "loop k pf w h (i + 1) u = Some x" using 1(2) u by auto
    then show ?thesis using 1(1) same_hioctl [OF u] same_trans by blast
  qed
qed

lemma same_find_format: "find_format k w h i s = Some x \<Longrightarrow> same_but_calls s (snd x)"
proof (induction rule: find_format.raw_induct [rotated 1, consumes 1])
  case (1 loop k w h i s x)
  then obtain a u where u: "hioctl k (H_Enum_Fmt i) s = Some (a, u)" by (auto split: option.splits)
  show ?case
  proof (cases "ha_ret a = 0")
    case False
    then show ?thesis using 1(2) u same_hioctl [OF u] by auto
  next
    case True
    then obtain b v where v: "find_size k (h_pixelformat (ha_format a)) w h 0 u = Some (b, v)"
      using 1(2) u by (auto split: option.splits)
    have sv: "same_but_calls s v" using same_hioctl [OF u] same_find_size [OF v] same_trans by (metis snd_conv)
    show ?thesis
    proof (cases b)
      case True
      then show ?thesis using 1(2) u v sv \<open>ha_ret a = 0\<close> by auto
    next
      case False
      then have "loop k w h (i + 1) v = Some x" using 1(2) u v \<open>ha_ret a = 0\<close> by simp
      then show ?thesis using 1(1) sv same_trans by blast
    qed
  qed
qed

lemma xioctl_shape:
  assumes "usb_xioctl k fd r w = Some (a, v)"
  shows "\<exists>n. v = w @ replicate (Suc n) (H_Ioctl fd r) \<and> a = k (w @ replicate n (H_Ioctl fd r)) (H_Ioctl fd r) \<and> \<not> retried a"
proof -
  have e: "\<exists>n. \<not> retried (k (w @ replicate n (H_Ioctl fd r)) (H_Ioctl fd r))" using xioctl_tried assms by metis
  let ?n = "LEAST n. \<not> retried (k (w @ replicate n (H_Ioctl fd r)) (H_Ioctl fd r))"
  have "\<not> retried (k (w @ replicate ?n (H_Ioctl fd r)) (H_Ioctl fd r))" using e by (rule LeastI_ex)
  moreover have "\<forall>i<?n. retried (k (w @ replicate i (H_Ioctl fd r)) (H_Ioctl fd r))" using not_less_Least by blast
  ultimately show ?thesis using assms xioctl_after [of ?n k w fd r] by (intro exI [of _ ?n]) auto
qed

lemma hioctl_shape:
  assumes "hioctl k r s = Some (a, t)"
  obtains n where "us_calls t = us_calls s @ replicate (Suc n) (H_Ioctl (us_fd s) r)"
    "a = k (us_calls s @ replicate n (H_Ioctl (us_fd s) r)) (H_Ioctl (us_fd s) r)" "\<not> retried a"
    "t = s\<lparr>us_calls := us_calls t\<rparr>"
proof -
  obtain w where w: "usb_xioctl k (us_fd s) r (us_calls s) = Some (a, w)" "t = s\<lparr>us_calls := w\<rparr>"
    using assms by (auto simp: hioctl_def split: option.splits)
  then show thesis using xioctl_shape [OF w(1)] that by auto
qed

section \<open>The invariant\<close>

text \<open>
  The array has as many elements as the driver grants buffers, and no more of them are mapped; no
  buffer is longer than \<open>l\<close> bytes.
\<close>

definition cam_inv :: "nat \<Rightarrow> nat \<Rightarrow> 't usb_sensor \<Rightarrow> bool" where
  "cam_inv n l s \<longleftrightarrow>
     (case us_buffers s of
        None \<Rightarrow> us_buffersCount s = 0
      | Some bs \<Rightarrow> length bs = n \<and> us_buffersCount s \<le> n \<and> (\<forall>b\<in>set bs. snd b \<le> l))"

text \<open>A driver that always grants \<open>n\<close> buffers of at most \<open>l\<close> bytes.\<close>

definition grants :: "nat \<Rightarrow> nat \<Rightarrow> henv \<Rightarrow> bool" where
  "grants n l k \<longleftrightarrow>
     (\<forall>w fd. ha_ret (k w (H_Ioctl fd (H_Reqbufs 4))) = -1 \<or> ha_count (k w (H_Ioctl fd (H_Reqbufs 4))) = n) \<and>
     (\<forall>w fd i. ha_length (k w (H_Ioctl fd (H_Querybuf i))) \<le> l)"

definition sound_transport :: "'t transport \<Rightarrow> bool" where
  "sound_transport tr \<longleftrightarrow> (\<forall>req t. tr_send tr req t \<noteq> Fault) \<and> (\<forall>t. tr_receive tr t \<noteq> Fault)"

lemma cam_inv_same: "same_but_calls s t \<Longrightarrow> cam_inv n l s \<Longrightarrow> cam_inv n l t"
  by (simp add: cam_inv_def same_fields split: option.splits)

lemma same_inv: "cam_inv n l s \<Longrightarrow> same_but_calls s t \<Longrightarrow> cam_inv n l t"
  by (rule cam_inv_same)

lemma cam_inv_fields [simp]:
  "cam_inv n l (s\<lparr>us_fd := fd\<rparr>) = cam_inv n l s" "cam_inv n l (s\<lparr>us_calls := w\<rparr>) = cam_inv n l s"
  "cam_inv n l (s\<lparr>us_link := t\<rparr>) = cam_inv n l s" "cam_inv n l (s\<lparr>us_fmt := f\<rparr>) = cam_inv n l s"
  "cam_inv n l (s\<lparr>us_types := ts\<rparr>) = cam_inv n l s" "cam_inv n l (s\<lparr>us_opened := b\<rparr>) = cam_inv n l s"
  "cam_inv n l (s\<lparr>us_started := b\<rparr>) = cam_inv n l s"
  by (simp_all add: cam_inv_def split: option.split)

text \<open>How an operation goes on after a call, with the invariant.\<close>

lemma safely_hioctl:
  assumes "cam_inv n l s"
    and "\<And>a t w. cam_inv n l t \<Longrightarrow> same_but_calls s t \<Longrightarrow> a = k w (H_Ioctl (us_fd s) r) \<Longrightarrow> safely P (f (a, t))"
  shows "safely P (and_then (hioctl k r s) f)"
proof (rule safely_and_then)
  fix x assume x: "hioctl k r s = Some x"
  obtain a t where t: "x = (a, t)" by fastforce
  show "safely P (f x)"
    using assms(2) [OF same_inv [OF assms(1)]] same_hioctl [OF x [unfolded t]] hioctl_shape [OF x [unfolded t]]
    unfolding t by metis
qed

lemma safely_find_format:
  assumes "cam_inv n l s" "\<And>pf t. cam_inv n l t \<Longrightarrow> safely P (f (pf, t))"
  shows "safely P (and_then (find_format k w h i s) f)"
proof (rule safely_and_then)
  fix x assume x: "find_format k w h i s = Some x"
  then show "safely P (f x)" using assms(2) [OF same_inv [OF assms(1) same_find_format [OF x]], of "fst x"] by simp
qed

lemma available_types_sound: "sound_transport tr \<Longrightarrow> usb_available_types enc dec tr types t \<noteq> Fault"
  by (auto simp: usb_available_types_def exchange_def sound_transport_def split: mem.splits prod.splits if_splits)

lemma send_type_sound: "sound_transport tr \<Longrightarrow> usb_send_frame_type enc tr ty t \<noteq> Fault"
  by (simp add: usb_send_frame_type_def sound_transport_def)

abbreviation keeps :: "nat \<Rightarrow> nat \<Rightarrow> (status \<times> 't usb_sensor) mem option \<Rightarrow> bool" where
  "keeps n l \<equiv> safely (\<lambda>(r, t). cam_inv n l t)"

lemma open_safe: "sound_transport tr \<Longrightarrow> cam_inv n l s \<Longrightarrow> keeps n l (usb_open enc dec tr k s)"
  using available_types_sound [of tr enc dec]
  by (auto simp: usb_open_def Let_def hcall_def same_inv intro!: safely_hioctl [where n = n and l = l] split: mem.split)

lemma usb_start_safe: "cam_inv n l s \<Longrightarrow> keeps n l (usb_start k s)"
  by (auto simp: usb_start_def intro!: safely_hioctl [where n = n and l = l])

lemma stop_safe: "cam_inv n l s \<Longrightarrow> keeps n l (usb_stop k s)"
  by (auto simp: usb_stop_def intro!: safely_hioctl [where n = n and l = l])

text \<open>While buffers are mapped, the array is there.\<close>

lemma map_buffers_safe:
  "grants n l k \<Longrightarrow> cam_inv n l s \<Longrightarrow> us_buffers s \<noteq> None \<Longrightarrow> i + m \<le> n \<Longrightarrow>
    safely (\<lambda>(r, t). cam_inv n l t \<and> us_buffers t \<noteq> None) (map_buffers k m i s)"
proof (induction m arbitrary: i s)
  case 0
  then show ?case by (auto simp: cam_inv_def)
next
  case (Suc m)
  show ?case
    unfolding map_buffers.simps
  proof (rule safely_and_then)
    fix x assume x: "hioctl k (H_Querybuf i) (s\<lparr>us_buffersCount := i\<rparr>) = Some x"
    obtain buf u where u: "x = (buf, u)" by fastforce
    note f = same_fields [OF same_hioctl [OF x [unfolded u]]]
    obtain bs where bs: "us_buffers u = Some bs" "length bs = n" "\<forall>b\<in>set bs. snd b \<le> l" "us_buffersCount u = i"
      using Suc.prems f by (auto simp: cam_inv_def)
    have len: "ha_length buf \<le> l" using Suc.prems(1) hioctl_shape [OF x [unfolded u]] by (metis grants_def)
    obtain a v where v: "hcall k (H_Mmap (us_fd u) (ha_length buf) (ha_offset buf)) u = (a, v)" by fastforce
    let ?v = "v\<lparr>us_buffers := Some (bs[i := (ha_addr a, ha_length buf)])\<rparr>"
    have iv: "cam_inv n l ?v" "us_buffers ?v \<noteq> None"
      using bs len Suc.prems(4) same_fields(2) [OF same_hcall [OF v]]
      by (auto simp: cam_inv_def dest!: set_update_subset_insert [THEN subsetD])
    have iu: "cam_inv n l u" using bs Suc.prems(4) by (simp add: cam_inv_def)
    show "safely (\<lambda>(r, t). cam_inv n l t \<and> us_buffers t \<noteq> None)
      (case x of (buf, s) \<Rightarrow>
         if ha_ret buf = - 1 then Some (Ret (GENERIC_ERROR, s))
         else case us_buffers s of
             None \<Rightarrow> Some Fault
           | Some bs \<Rightarrow>
               if length bs \<le> i then Some Fault
               else (case hcall k (H_Mmap (us_fd s) (ha_length buf) (ha_offset buf)) s of (a, s) \<Rightarrow>
                 let s = s\<lparr>us_buffers := Some (bs[i := (ha_addr a, ha_length buf)])\<rparr> in
                 if ha_addr a = MAP_FAILED then Some (Ret (GENERIC_ERROR, s)) else map_buffers k m (i + 1) s))"
      using u bs v iu iv Suc.prems(4) Suc.IH [OF Suc.prems(1) iv, of "i + 1"] by (auto simp: Let_def)
  qed
qed

lemma queue_buffers_safe: "cam_inv n l s \<Longrightarrow> keeps n l (queue_buffers k m i s)"
  by (induction m arbitrary: i s) (auto intro!: safely_hioctl [where n = n and l = l])

lemma request_buffers_safe:
  assumes "grants n l k" "cam_inv n l s"
  shows "keeps n l (usb_request_buffers k s)"
  unfolding usb_request_buffers_def
proof (rule safely_hioctl [OF assms(2)], unfold prod.case)
  fix req w and u :: "'a usb_sensor" assume iu: "cam_inv n l u" and req: "req = k w (H_Ioctl (us_fd s) (H_Reqbufs 4))"
  have c: "ha_ret req = -1 \<or> ha_count req = n" using assms(1) unfolding req grants_def by blast
  let ?v = "if us_buffers u = None
      then (case hcall k (H_Calloc (ha_count req)) u of (a, s) \<Rightarrow>
        if ha_ret a < 0 then s else s\<lparr>us_buffers := Some (replicate (ha_count req) (0, 0))\<rparr>)
      else u"
  have iv: "ha_ret req \<noteq> -1 \<Longrightarrow> cam_inv n l ?v" using iu c by (auto simp: cam_inv_def hcall_def)
  have loop: "keeps n l (and_safely (map_buffers k (ha_count req) 0 v)
      (\<lambda>(r, s). if r \<noteq> OK then Some (Ret (r, s)) else queue_buffers k (us_buffersCount s) 0 s))"
    if "ha_ret req \<noteq> -1" "cam_inv n l v" "us_buffers v \<noteq> None" for v
    using map_buffers_safe [OF assms(1) that(2,3), of 0 n] c that(1)
    by (intro safely_and_safely [where Q = "\<lambda>(r, t). cam_inv n l t \<and> us_buffers t \<noteq> None"]) (auto intro: queue_buffers_safe)
  show "keeps n l
    (if ha_ret req = -1 then Some (Ret (GENERIC_ERROR, u))
     else if ha_count req < 2 then Some (Ret (GENERIC_ERROR, u))
     else let s = ?v in
       if us_buffers s = None then Some (Ret (GENERIC_ERROR, s))
       else and_safely (map_buffers k (ha_count req) 0 s)
         (\<lambda>(r, s). if r \<noteq> OK then Some (Ret (r, s)) else queue_buffers k (us_buffersCount s) 0 s))"
    unfolding Let_def using iu iv loop [of ?v] by (auto simp del: split_paired_All)
qed

lemma set_type_safe:
  assumes "sound_transport tr" "grants n l k" "cam_inv n l s"
  shows "keeps n l (usb_setFrameType enc tr k ty s)"
  using send_type_sound [OF assms(1), of enc ty "us_link s"] assms(3)
  by (auto simp: usb_setFrameType_def Let_def split: mem.split option.split
      intro!: safely_hioctl [where n = n and l = l] safely_find_format [where n = n and l = l]
        request_buffers_safe [OF assms(2)])

lemma safely_program:
  assumes "cam_inv n l s" "\<And>t. cam_inv n l t \<Longrightarrow> safely P (f t)"
  shows "safely P (and_then (program_loop k bytes s) f)"
proof -
  have "program_loop k bytes s = Some t \<Longrightarrow> same_but_calls s t" for t
  proof (induction k bytes s rule: program_loop.induct)
    case (1 k bytes s)
    let ?s = "snd (hcall k (H_Usleep 5000) s)"
    note st = same_snd_hcall [of s k "H_Usleep 5000"]
    show ?case
    proof (cases "bytes = []")
      case True
      then show ?thesis using 1(2) by (simp add: program_loop.simps)
    next
      case False
      show ?thesis
      proof (cases "length bytes > 58")
        case True
        then obtain a u where u: "hioctl k (H_Query 1 UVC_QUERY_SET_CUR ([0x01, 58] @ take 58 bytes)) ?s = Some (a, u)"
          "program_loop k (drop 58 bytes) u = Some t"
          using False 1(2) by (subst (asm) program_loop.simps) (auto simp: Let_def split: option.splits)
        show ?thesis
          using 1(1) [OF False refl True u(1) refl u(2)] same_hioctl [OF u(1)] st same_trans by blast
      next
        case short: False
        then obtain a where "hioctl k (H_Query 1 UVC_QUERY_SET_CUR ([0x02, word_of_nat (length bytes)] @ bytes @
            replicate (58 - length bytes) 0)) ?s = Some (a, t)"
          using False 1(2) by (subst (asm) program_loop.simps) (auto simp: Let_def split: option.splits)
        then show ?thesis using same_hioctl st same_trans by blast
      qed
    qed
  qed
  then show ?thesis using assms by (intro safely_and_then) (blast intro: same_inv)
qed

lemma program_safe: "cam_inv n l s \<Longrightarrow> n' \<le> length fw \<Longrightarrow> keeps n l (usb_program k (Some fw) n' s)"
  by (auto simp: usb_program_def mem_read_def hcall_def cam_inv_same
      intro!: safely_hioctl [where n = n and l = l] safely_program [where n = n and l = l])

lemma frame_safe:
  assumes "cam_inv n l s" "\<And>d. buffer = Some d \<Longrightarrow> l \<le> length d"
  shows "safely (\<lambda>(r, d, t). cam_inv n l t) (usb_getFrame k buffer s)"
proof (cases buffer)
  case None
  then show ?thesis using assms(1) by (simp add: usb_getFrame_def)
next
  case (Some d)
  have fits: "mem_write 0 (put_back x (replicate m 0)) d \<noteq> Fault" if "m \<le> l" for x m
    using that assms(2) [OF Some] by (simp add: mem_write_def put_back_def)
  have go: "safely (\<lambda>(r, d, t). cam_inv n l t)
      (case us_buffers t of
         None \<Rightarrow> Some Fault
       | Some bs \<Rightarrow>
           if length bs \<le> i then Some Fault
           else (case mem_write 0 (put_back x (replicate (snd (bs ! i)) 0)) d of
                   Fault \<Rightarrow> Some Fault
                 | Ret dest \<Rightarrow>
                     and_then (hioctl k (H_Qbuf i) t) (\<lambda>(a, s).
                       Some (Ret (if ha_ret a = -1 then GENERIC_ERROR else OK, Some dest, s)))))"
    if t: "cam_inv n l t" "\<not> us_buffersCount t \<le> i" for t i x
  proof -
    obtain bs where bs: "us_buffers t = Some bs" "length bs = n" "i < n" "snd (bs ! i) \<le> l"
      using t by (auto simp: cam_inv_def split: option.splits)
    show ?thesis
      using bs t fits [OF bs(4), of x] by (auto intro!: safely_hioctl [where n = n and l = l] split: mem.split)
  qed
  show ?thesis
    using assms(1) by (auto simp: usb_getFrame_def Some hcall_def Let_def intro!: safely_hioctl [where n = n and l = l] go)
qed

text \<open>Unmapping, while it succeeds.\<close>

definition unmaps :: "henv \<Rightarrow> bool" where
  "unmaps k \<longleftrightarrow> (\<forall>w a n. ha_ret (k w (H_Munmap a n)) \<noteq> -1)"

lemma unmap_total: "us_buffers s = Some bs \<Longrightarrow> i + m \<le> length bs \<Longrightarrow> unmap_mapped k m i s \<noteq> Fault"
proof (induction m arbitrary: i s)
  case (Suc m)
  obtain a u where u: "hcall k (H_Munmap (fst (bs ! i)) (snd (bs ! i))) s = (a, u)" by fastforce
  have "us_buffers u = Some bs" using Suc.prems(1) same_fields(1) [OF same_hcall [OF u]] by simp
  then show ?case using Suc.prems u Suc.IH [of u "i + 1"] by simp
qed simp

lemma unmap_value:
  "unmaps k \<Longrightarrow> us_buffers s = Some bs \<Longrightarrow> i + m \<le> length bs \<Longrightarrow>
    unmap_mapped k m i s = Ret (True, s\<lparr>us_calls := us_calls s @ map (\<lambda>(a, n). H_Munmap a n) (take m (drop i bs))\<rparr>)"
proof (induction m arbitrary: i s)
  case (Suc m)
  let ?c = "H_Munmap (fst (bs ! i)) (snd (bs ! i))"
  have d: "drop i bs = bs ! i # drop (Suc i) bs" using Suc.prems(3) by (simp add: Cons_nth_drop_Suc)
  have "ha_ret (k (us_calls s) ?c) \<noteq> -1" using Suc.prems(1) by (simp add: unmaps_def)
  then show ?case
    using Suc.prems Suc.IH [OF Suc.prems(1), of "s\<lparr>us_calls := us_calls s @ [?c]\<rparr>" "i + 1"]
    by (simp add: hcall_def d case_prod_unfold)
qed simp

section \<open>Runs\<close>

datatype cam_op =
    Do_open
  | Do_start
  | Do_stop
  | Do_set_type DepthSensorFrameType
  | Do_frame "u8 list option"
  | Do_program "u8 list option" nat

fun cam_do ::
  "encoder \<Rightarrow> decoder \<Rightarrow> 't transport \<Rightarrow> henv \<Rightarrow> cam_op \<Rightarrow> 't usb_sensor \<Rightarrow> 't usb_sensor mem option" where
  "cam_do enc dec tr k Do_open s = and_safely (usb_open enc dec tr k s) (\<lambda>(r, s). Some (Ret s))"
| "cam_do enc dec tr k Do_start s = and_safely (usb_start k s) (\<lambda>(r, s). Some (Ret s))"
| "cam_do enc dec tr k Do_stop s = and_safely (usb_stop k s) (\<lambda>(r, s). Some (Ret s))"
| "cam_do enc dec tr k (Do_set_type ty) s = and_safely (usb_setFrameType enc tr k ty s) (\<lambda>(r, s). Some (Ret s))"
| "cam_do enc dec tr k (Do_frame d) s = and_safely (usb_getFrame k d s) (\<lambda>(r, d, s). Some (Ret s))"
| "cam_do enc dec tr k (Do_program fw n) s = and_safely (usb_program k fw n s) (\<lambda>(r, s). Some (Ret s))"

text \<open>A step from a fault stays there. The caller's memory takes a frame, and the firmware is as long as stated.\<close>

definition cam_step ::
  "encoder \<Rightarrow> decoder \<Rightarrow> 't transport \<Rightarrow> henv \<Rightarrow> cam_op \<Rightarrow> 't usb_sensor mem \<Rightarrow> 't usb_sensor mem option" where
  "cam_step enc dec tr k x st = (case st of Fault \<Rightarrow> Some Fault | Ret s \<Rightarrow> cam_do enc dec tr k x s)"

fun cam_fits :: "nat \<Rightarrow> cam_op \<Rightarrow> bool" where
  "cam_fits l (Do_frame (Some d)) \<longleftrightarrow> l \<le> length d"
| "cam_fits l (Do_program (Some fw) n) \<longleftrightarrow> n \<le> length fw"
| "cam_fits l x \<longleftrightarrow> True"

lemma keeps_state: "keeps n l x \<Longrightarrow> safely (cam_inv n l) (and_safely x (\<lambda>(r, s). Some (Ret s)))"
  by (erule safely_and_safely) auto

lemma cam_do_safe:
  assumes "sound_transport tr" "grants n l k" "cam_inv n l s" "cam_fits l x"
  shows "safely (cam_inv n l) (cam_do enc dec tr k x s)"
proof (cases x)
  case Do_open
  then show ?thesis using open_safe [OF assms(1,3)] by (simp add: keeps_state)
next
  case Do_start
  then show ?thesis using usb_start_safe [OF assms(3)] by (simp add: keeps_state)
next
  case Do_stop
  then show ?thesis using stop_safe [OF assms(3)] by (simp add: keeps_state)
next
  case (Do_set_type ty)
  then show ?thesis using set_type_safe [OF assms(1-3)] by (simp add: keeps_state)
next
  case (Do_frame d)
  have "safely (\<lambda>(r, d, t). cam_inv n l t) (usb_getFrame k d s)"
    by (rule frame_safe [OF assms(3)]) (use assms(4) Do_frame in auto)
  then have "safely (cam_inv n l) (and_safely (usb_getFrame k d s) (\<lambda>(r, d, s). Some (Ret s)))"
    by (rule safely_and_safely) auto
  then show ?thesis using Do_frame by simp
next
  case (Do_program fw m)
  have "keeps n l (usb_program k fw m s)"
    using program_safe [OF assms(3)] assms(3,4) Do_program by (cases fw) (auto simp: usb_program_def)
  then show ?thesis using Do_program by (simp add: keeps_state)
qed

interpretation camera: stepped "cam_step enc dec tr k" "cam_fits l"
  "\<lambda>st. sound_transport tr \<and> grants n l k \<and> (case st of Fault \<Rightarrow> False | Ret s \<Rightarrow> cam_inv n l s)"
  for enc dec and tr :: "'t transport" and k n l
proof unfold_locales
  fix st x and t :: "'t usb_sensor mem"
  assume "sound_transport tr \<and> grants n l k \<and> (case st of Fault \<Rightarrow> False | Ret s \<Rightarrow> cam_inv n l s)" "cam_fits l x"
    "cam_step enc dec tr k x st = Some t"
  then show "sound_transport tr \<and> grants n l k \<and> (case t of Fault \<Rightarrow> False | Ret s \<Rightarrow> cam_inv n l s)"
    using cam_do_safe [of tr n l k _ x enc dec] by (cases st; cases t) (fastforce simp: cam_step_def)+
qed

lemma delete_safe:
  assumes "cam_inv n l s"
  shows "usb_delete k s \<noteq> Some Fault"
proof -
  have "safely (\<lambda>_. True) (usb_delete k s)"
    unfolding usb_delete_def
  proof (rule safely_and_safely [where Q = "\<lambda>(r, t). cam_inv n l t"])
    show "keeps n l (if us_started s then usb_stop k s else Some (Ret (OK, s)))"
      using assms stop_safe [OF assms] by simp
    fix x :: "status \<times> 'a usb_sensor" assume x: "case x of (r, t) \<Rightarrow> cam_inv n l t"
    obtain r t where t: "x = (r, t)" by fastforce
    have "unmap_mapped k (us_buffersCount t) 0 t \<noteq> Fault"
      using x t unmap_total [of t _ 0 "us_buffersCount t" k] by (cases "us_buffers t") (auto simp: cam_inv_def)
    then show "safely (\<lambda>_. True) (case x of (r, s) \<Rightarrow>
       (case unmap_mapped k (us_buffersCount s) 0 s of
          Fault \<Rightarrow> Some Fault
        | Ret (all, s) \<Rightarrow>
            if \<not> all then Some (Ret s)
            else let s = (if us_buffers s \<noteq> None then snd (hcall k H_Free s) else s);
                     s = (if us_fd s \<noteq> 0 then snd (hcall k (H_Close (us_fd s)) s) else s)
              in Some (Ret s)))"
      using t by (auto simp: Let_def split: mem.split)
  qed
  then show ?thesis by auto
qed


definition steady_env :: henv where
  "steady_env w c = no_answer\<lparr>ha_count := 4, ha_length := 8, ha_addr := 4096, ha_data := replicate 8 1, ha_ret := 3\<rparr>"

definition silent_transport :: "unit transport" where
  "silent_transport = \<lparr>tr_send = (\<lambda>_ t. Ret (OK, t)), tr_receive = (\<lambda>t. Ret (OK, [], t))\<rparr>"


section \<open>What the operations do\<close>

text \<open>The calls that are made for requests of which each may have to be made again.\<close>

inductive repeats :: "hcall list \<Rightarrow> hcall list \<Rightarrow> bool" where
  none: "repeats [] []"
| again: "repeats cs w \<Longrightarrow> repeats (c # cs) (replicate (Suc n) c @ w)"

definition is_mmap :: "hcall \<Rightarrow> bool" where
  "is_mmap c \<longleftrightarrow> (case c of H_Mmap fd n i \<Rightarrow> True | _ \<Rightarrow> False)"

definition is_munmap :: "hcall \<Rightarrow> bool" where
  "is_munmap c \<longleftrightarrow> (case c of H_Munmap a n \<Rightarrow> True | _ \<Rightarrow> False)"

lemma queue_value:
  "queue_buffers k m i s = Some (Ret (OK, t)) \<Longrightarrow>
    \<exists>w. t = s\<lparr>us_calls := us_calls s @ w\<rparr> \<and> repeats (map (\<lambda>i. H_Ioctl (us_fd s) (H_Qbuf i)) [i..<i + m]) w"
proof (induction m arbitrary: i s)
  case 0
  then show ?case by (auto intro: exI [of _ "[]"] repeats.none)
next
  case (Suc m)
  then obtain a u where u: "hioctl k (H_Qbuf i) s = Some (a, u)" by (auto simp: and_then_def split: option.splits)
  then have q: "queue_buffers k m (Suc i) u = Some (Ret (OK, t))"
    using Suc.prems by (auto simp: and_then_def split: if_splits)
  obtain n where n: "us_calls u = us_calls s @ replicate (Suc n) (H_Ioctl (us_fd s) (H_Qbuf i))" "u = s\<lparr>us_calls := us_calls u\<rparr>"
    using hioctl_shape [OF u] by metis
  have fd: "us_fd u = us_fd s" by (subst n(2)) simp
  obtain w where w: "t = u\<lparr>us_calls := us_calls u @ w\<rparr>"
    "repeats (map (\<lambda>i. H_Ioctl (us_fd s) (H_Qbuf i)) [Suc i..<Suc i + m]) w"
    using Suc.IH [OF q] fd by auto
  have "t = s\<lparr>us_calls := us_calls s @ replicate (Suc n) (H_Ioctl (us_fd s) (H_Qbuf i)) @ w\<rparr>"
    unfolding w(1) by (subst (2) n(2)) (simp add: n(1) del: replicate_Suc)
  moreover have "[i..<i + Suc m] = i # [Suc i..<Suc i + m]" by (simp add: upt_rec)
  ultimately show ?case using repeats.again [OF w(2), of "H_Ioctl (us_fd s) (H_Qbuf i)" n] by (auto simp del: replicate_Suc)
qed

lemma map_value:
  "map_buffers k m i s = Some (Ret (OK, t)) \<Longrightarrow> us_buffers s = Some bs \<Longrightarrow>
    \<exists>bs' w. us_buffers t = Some bs' \<and> length bs' = length bs \<and> us_buffersCount t = i + m \<and> us_fd t = us_fd s \<and>
      us_calls t = us_calls s @ w \<and> length (filter is_mmap w) = m \<and> filter is_munmap w = [] \<and>
      (0 < m \<longrightarrow> i + m \<le> length bs) \<and> take i bs' = take i bs \<and>
      (\<forall>j. i \<le> j \<longrightarrow> j < i + m \<longrightarrow> fst (bs' ! j) \<noteq> MAP_FAILED \<and>
        (\<exists>w' n. H_Mmap (us_fd s) (snd (bs' ! j)) n \<in> set w \<and>
          fst (bs' ! j) = ha_addr (k (us_calls s @ w') (H_Mmap (us_fd s) (snd (bs' ! j)) n))))"
proof (induction m arbitrary: i s bs)
  case 0
  then show ?case by auto
next
  case (Suc m)
  let ?s = "s\<lparr>us_buffersCount := i\<rparr>"
  obtain buf u where u: "hioctl k (H_Querybuf i) ?s = Some (buf, u)"
    using Suc.prems(1) by (auto simp: and_then_def split: option.splits)
  obtain q where q: "us_calls u = us_calls s @ replicate (Suc q) (H_Ioctl (us_fd s) (H_Querybuf i))"
    using hioctl_shape [OF u] by (metis usb_sensor.select_convs(1,11) usb_sensor.surjective usb_sensor.update_convs(5))
  note f = same_fields [OF same_hioctl [OF u]]
  have bu: "us_buffers u = Some bs" using f(1) Suc.prems(2) by simp
  obtain a v where v: "hcall k (H_Mmap (us_fd u) (ha_length buf) (ha_offset buf)) u = (a, v)" by fastforce
  let ?v = "v\<lparr>us_buffers := Some (bs[i := (ha_addr a, ha_length buf)])\<rparr>" and ?c = "H_Mmap (us_fd s) (ha_length buf) (ha_offset buf)"
  have i: "i < length bs" and ok: "ha_addr a \<noteq> MAP_FAILED" and m: "map_buffers k m (i + 1) ?v = Some (Ret (OK, t))"
    using Suc.prems(1) u bu v by (auto simp: and_then_def Let_def split: if_splits)
  have cv: "us_calls v = us_calls u @ [?c]" "a = k (us_calls u) ?c" "us_fd v = us_fd s"
    using v f(3) by (auto simp: hcall_def)
  obtain bs' w where w: "us_buffers t = Some bs'" "length bs' = length bs" "us_buffersCount t = i + 1 + m" "us_fd t = us_fd s"
      "us_calls t = us_calls v @ w" "length (filter is_mmap w) = m" "filter is_munmap w = []" "0 < m \<longrightarrow> i + 1 + m \<le> length bs"
      "take (i + 1) bs' = take (i + 1) (bs[i := (ha_addr a, ha_length buf)])"
      "\<forall>j. i + 1 \<le> j \<longrightarrow> j < i + 1 + m \<longrightarrow> fst (bs' ! j) \<noteq> MAP_FAILED \<and>
        (\<exists>w' n. H_Mmap (us_fd s) (snd (bs' ! j)) n \<in> set w \<and>
          fst (bs' ! j) = ha_addr (k (us_calls v @ w') (H_Mmap (us_fd s) (snd (bs' ! j)) n)))"
    using Suc.IH [OF m, of "bs[i := (ha_addr a, ha_length buf)]"] cv(3) by auto
  let ?w = "replicate (Suc q) (H_Ioctl (us_fd s) (H_Querybuf i)) @ ?c # w"
  have calls: "us_calls t = us_calls s @ ?w" using w(5) cv(1) q by simp
  have bi: "bs' ! i = (ha_addr a, ha_length buf)"
    using w(9) i w(2) by (metis less_add_one length_list_update nth_list_update_eq nth_take)
  have ti: "take i bs' = take i bs"
    using w(9) by (metis add.commute le_add1 min.absorb1 plus_1_eq_Suc take_take take_update_cancel le_refl)
  have fm: "length (filter is_mmap ?w) = Suc m" "filter is_munmap ?w = []"
    using w(6,7) by (simp_all add: is_mmap_def is_munmap_def filter_replicate)
  have "fst (bs' ! j) \<noteq> MAP_FAILED \<and>
        (\<exists>w' n. H_Mmap (us_fd s) (snd (bs' ! j)) n \<in> set ?w \<and>
          fst (bs' ! j) = ha_addr (k (us_calls s @ w') (H_Mmap (us_fd s) (snd (bs' ! j)) n)))"
    if j: "i \<le> j" "j < i + Suc m" for j
  proof (cases "j = i")
    case True
    then show ?thesis using bi ok cv(2) q by auto
  next
    case False
    then have "i + 1 \<le> j" "j < i + 1 + m" using j by auto
    then obtain w' n where "fst (bs' ! j) \<noteq> MAP_FAILED" "H_Mmap (us_fd s) (snd (bs' ! j)) n \<in> set w"
      "fst (bs' ! j) = ha_addr (k (us_calls v @ w') (H_Mmap (us_fd s) (snd (bs' ! j)) n))"
      using w(10) by blast
    then show ?thesis
      using cv(1) q by (intro conjI exI [of _ "replicate (Suc q) (H_Ioctl (us_fd s) (H_Querybuf i)) @ ?c # w'"] exI [of _ n]) auto
  qed
  then have "\<forall>j. i \<le> j \<longrightarrow> j < i + Suc m \<longrightarrow> fst (bs' ! j) \<noteq> MAP_FAILED \<and>
        (\<exists>w' n. H_Mmap (us_fd s) (snd (bs' ! j)) n \<in> set ?w \<and>
          fst (bs' ! j) = ha_addr (k (us_calls s @ w') (H_Mmap (us_fd s) (snd (bs' ! j)) n)))" by blast
  moreover have "us_buffersCount t = i + Suc m" "0 < Suc m \<longrightarrow> i + Suc m \<le> length bs" using w(3,8) i by auto
  ultimately show ?case using w(1,2,4) calls fm ti by blast
qed

lemma requestBuffers_value:
  assumes "usb_request_buffers k s = Some (Ret (OK, t))"
  shows "\<exists>bs w v. us_buffers t = Some bs \<and> 2 \<le> us_buffersCount t \<and> us_buffersCount t \<le> length bs \<and>
    us_calls t = us_calls s @ w @ v \<and> repeats (map (\<lambda>i. H_Ioctl (us_fd s) (H_Qbuf i)) [0..<us_buffersCount t]) v \<and>
    length (filter is_mmap w) = us_buffersCount t \<and> filter is_munmap w = [] \<and>
    (\<forall>i<us_buffersCount t. fst (bs ! i) \<noteq> MAP_FAILED \<and>
      (\<exists>w' n. H_Mmap (us_fd s) (snd (bs ! i)) n \<in> set w \<and> fst (bs ! i) = ha_addr (k w' (H_Mmap (us_fd s) (snd (bs ! i)) n))))"
proof -
  obtain req u where u: "hioctl k (H_Reqbufs 4) s = Some (req, u)"
    using assms by (auto simp: usb_request_buffers_def and_then_def split: option.splits)
  obtain q where q: "us_calls u = us_calls s @ replicate (Suc q) (H_Ioctl (us_fd s) (H_Reqbufs 4))"
    using hioctl_shape [OF u] by metis
  have fu: "us_fd u = us_fd s" using same_fields [OF same_hioctl [OF u]] by simp
  define v where "v = (if us_buffers u = None
      then (case hcall k (H_Calloc (ha_count req)) u of (a, s) \<Rightarrow>
        if ha_ret a < 0 then s else s\<lparr>us_buffers := Some (replicate (ha_count req) (0, 0))\<rparr>)
      else u)"
  have r: "2 \<le> ha_count req" "us_buffers v \<noteq> None"
    and loop: "and_safely (map_buffers k (ha_count req) 0 v)
      (\<lambda>(r, s). if r \<noteq> OK then Some (Ret (r, s)) else queue_buffers k (us_buffersCount s) 0 s) = Some (Ret (OK, t))"
    using assms unfolding usb_request_buffers_def u and_then_def option.case prod.case Let_def v_def [symmetric]
    by (auto split: if_splits)
  obtain c where c: "us_calls v = us_calls u @ c" "filter is_mmap c = []" "filter is_munmap c = []" "us_fd v = us_fd u"
    using that [of "[]"] that [of "[H_Calloc (ha_count req)]"]
    by (cases "us_buffers u") (auto simp: v_def hcall_def is_mmap_def is_munmap_def split: if_splits)
  obtain x where x: "map_buffers k (ha_count req) 0 v = Some (Ret (OK, x))" "queue_buffers k (us_buffersCount x) 0 x = Some (Ret (OK, t))"
    using loop by (auto simp: and_safely_def split: option.splits mem.splits if_splits)
  obtain bs where bs: "us_buffers v = Some bs" using r(2) by blast
  from map_value [OF x(1) bs] obtain bs' w where w: "us_buffers x = Some bs'" "length bs' = length bs"
    "us_buffersCount x = ha_count req" "us_fd x = us_fd v" "us_calls x = us_calls v @ w"
    "length (filter is_mmap w) = ha_count req" "filter is_munmap w = []" "0 < ha_count req \<longrightarrow> ha_count req \<le> length bs"
    "\<forall>j. j < ha_count req \<longrightarrow> fst (bs' ! j) \<noteq> MAP_FAILED \<and>
        (\<exists>w' n. H_Mmap (us_fd v) (snd (bs' ! j)) n \<in> set w \<and>
          fst (bs' ! j) = ha_addr (k (us_calls v @ w') (H_Mmap (us_fd v) (snd (bs' ! j)) n)))"
    by auto
  obtain y where y: "t = x\<lparr>us_calls := us_calls x @ y\<rparr>"
    "repeats (map (\<lambda>i. H_Ioctl (us_fd x) (H_Qbuf i)) [0..<us_buffersCount x]) y"
    using queue_value [OF x(2)] by auto
  let ?w = "replicate (Suc q) (H_Ioctl (us_fd s) (H_Reqbufs 4)) @ c @ w"
  have t: "us_buffers t = Some bs'" "us_buffersCount t = ha_count req" "us_calls t = us_calls s @ ?w @ y"
    using y(1) w(1,3,5) c(1) q by simp_all
  have m: "length (filter is_mmap ?w) = ha_count req" "filter is_munmap ?w = []"
    using w(6,7) c(2,3) by (simp_all add: is_mmap_def is_munmap_def filter_replicate)
  have l: "ha_count req \<le> length bs'" using w(2,8) r(1) by simp
  have fd: "us_fd v = us_fd s" "us_fd x = us_fd s" using c(4) fu w(4) by simp_all
  have a: "\<forall>i<ha_count req. fst (bs' ! i) \<noteq> MAP_FAILED \<and>
      (\<exists>w' n. H_Mmap (us_fd s) (snd (bs' ! i)) n \<in> set ?w \<and> fst (bs' ! i) = ha_addr (k w' (H_Mmap (us_fd s) (snd (bs' ! i)) n)))"
    using w(9) unfolding fd(1) by fastforce
  show ?thesis
    using t m l r(1) a y(2) unfolding w(3) fd(2) by (intro exI [of _ bs'] exI [of _ ?w] exI [of _ y]) simp
qed

text \<open>When buffers were requested with success, at least two are mapped, each at an address and with a length that
  the system answered for it, the array has room for them, nothing was unmapped, and then all of
  them were queued, in their order.\<close>

theorem buffers_mapped_and_queued:
  assumes "usb_request_buffers k s = Some (Ret (OK, t))"
  shows "\<exists>bs w v. us_buffers t = Some bs \<and> 2 \<le> us_buffersCount t \<and> us_buffersCount t \<le> length bs \<and>
    us_calls t = us_calls s @ w @ v \<and> repeats (map (\<lambda>i. H_Ioctl (us_fd s) (H_Qbuf i)) [0..<us_buffersCount t]) v \<and>
    length (filter is_mmap w) = us_buffersCount t \<and> filter is_munmap w = [] \<and>
    (\<forall>i<us_buffersCount t. fst (bs ! i) \<noteq> MAP_FAILED \<and>
      (\<exists>w' n. H_Mmap (us_fd s) (snd (bs ! i)) n \<in> set w \<and> fst (bs ! i) = ha_addr (k w' (H_Mmap (us_fd s) (snd (bs ! i)) n))))"
  using assms by (rule requestBuffers_value)

abbreviation plain_sensor :: "unit usb_sensor" where
  "plain_sensor \<equiv> (UsbDepthSensor ''tof'' ''/dev/video0'' no_format 0 [] ())\<lparr>us_fd := 3\<rparr>"

lemma steady_xioctl: "usb_xioctl steady_env fd r w = Some (steady_env w (H_Ioctl fd r), w @ [H_Ioctl fd r])"
  by (rule xioctl_now) (simp add: steady_env_def no_answer_def retried_def)

lemma four_buffers:
  "map_buffers k 4 i s = map_buffers k (Suc (Suc (Suc (Suc 0)))) i s"
  "queue_buffers k 4 i s = queue_buffers k (Suc (Suc (Suc (Suc 0)))) i s"
  "unmap_mapped k 4 i s = unmap_mapped k (Suc (Suc (Suc (Suc 0)))) i s"
  by (simp_all only: numeral_eq_Suc numeral_nat pred_numeral_simps Num.BitM.simps)

lemma steady_request: "\<exists>t. usb_request_buffers steady_env plain_sensor = Some (Ret (OK, t)) \<and> us_buffersCount t = 4"
  by (simp add: usb_request_buffers_def hioctl_def steady_xioctl and_then_def and_safely_def Let_def hcall_def UsbDepthSensor_def
      steady_env_def no_answer_def four_buffers)

theorem buffers_mapped_and_queued_witness:
  "\<exists>t. usb_request_buffers steady_env plain_sensor = Some (Ret (OK, t)) \<and> 2 \<le> us_buffersCount t"
proof -
  obtain t where "usb_request_buffers steady_env plain_sensor = Some (Ret (OK, t))" using steady_request by blast
  from this buffers_mapped_and_queued [OF this] show ?thesis by blast
qed

text \<open>Nothing unmaps what a mode mapped before the next one is set: after two modes and the end, twice as many
  mappings were made as were undone.\<close>

theorem modes_leak_mappings:
  assumes "grants n l k" "cam_inv n l s" "unmaps k" "filter is_mmap (us_calls s) = []" "filter is_munmap (us_calls s) = []"
    and "usb_request_buffers k s = Some (Ret (OK, t))" "usb_request_buffers k t = Some (Ret (OK, u))"
    and "usb_delete k u = Some (Ret v)" "\<not> us_started u"
  shows "length (filter is_mmap (us_calls v)) = us_buffersCount t + us_buffersCount u \<and>
    length (filter is_munmap (us_calls v)) = us_buffersCount u"
proof -
  have none: "repeats cs w \<Longrightarrow> filter P cs = [] \<Longrightarrow> filter P w = []" for cs w P
    by (induction rule: repeats.induct) (auto simp: filter_replicate split: if_splits)
  have q: "filter is_mmap (map (\<lambda>i. H_Ioctl fd (H_Qbuf i)) [0..<m]) = []" "filter is_munmap (map (\<lambda>i. H_Ioctl fd (H_Qbuf i)) [0..<m]) = []" for fd m
    by (simp_all add: filter_map comp_def is_mmap_def is_munmap_def)
  have one: "length (filter is_mmap (us_calls b)) = length (filter is_mmap (us_calls a)) + us_buffersCount b"
    "filter is_munmap (us_calls b) = filter is_munmap (us_calls a)"
    if r: "usb_request_buffers k a = Some (Ret (OK, b))" for a b
    using requestBuffers_value [OF r] none [OF _ q(1)] none [OF _ q(2)] by auto
  obtain bs where bs: "us_buffers u = Some bs" "us_buffersCount u \<le> length bs" using requestBuffers_value [OF assms(7)] by blast
  let ?w = "us_calls u @ map (\<lambda>(a, n). H_Munmap a n) (take (us_buffersCount u) bs)"
  have un: "unmap_mapped k (us_buffersCount u) 0 u = Ret (True, u\<lparr>us_calls := ?w\<rparr>)"
    using unmap_value [OF assms(3) bs(1), of 0 "us_buffersCount u"] bs(2) by simp
  have v: "us_calls v = ?w @ H_Free # (if us_fd u \<noteq> 0 then [H_Close (us_fd u)] else [])"
    using assms(8,9) un bs(1) by (auto simp: usb_delete_def and_safely_def Let_def hcall_def)
  have "filter is_mmap (map (\<lambda>(a, n). H_Munmap a n) xs) = []" "filter is_munmap (map (\<lambda>(a, n). H_Munmap a n) xs) = map (\<lambda>(a, n). H_Munmap a n) xs" for xs
    by (induction xs) (auto simp: is_mmap_def is_munmap_def)
  then show ?thesis
    using one [OF assms(6)] one [OF assms(7)] assms(4,5) bs(2) unfolding v by (simp add: is_mmap_def is_munmap_def)
qed

theorem modes_leak_mappings_witness:
  "\<exists>v. length (filter is_mmap (us_calls v)) = 8 \<and> length (filter is_munmap (us_calls (v :: unit usb_sensor))) = 4"
proof -
  have g: "grants 4 8 steady_env" "unmaps steady_env" by (simp_all add: grants_def unmaps_def steady_env_def no_answer_def)
  have i: "cam_inv 4 8 plain_sensor" "filter is_mmap (us_calls plain_sensor) = []" "filter is_munmap (us_calls plain_sensor) = []"
    by (simp_all add: cam_inv_def UsbDepthSensor_def)
  have run: "\<exists>t u v. usb_request_buffers steady_env plain_sensor = Some (Ret (OK, t)) \<and> us_buffersCount t = 4 \<and>
      usb_request_buffers steady_env t = Some (Ret (OK, u)) \<and> us_buffersCount u = 4 \<and> usb_delete steady_env u = Some (Ret v) \<and> \<not> us_started u"
    by (simp add: usb_request_buffers_def usb_delete_def hioctl_def steady_xioctl and_then_def and_safely_def Let_def hcall_def
        UsbDepthSensor_def steady_env_def no_answer_def four_buffers)
  then obtain t u v where r: "usb_request_buffers steady_env plain_sensor = Some (Ret (OK, t))" "us_buffersCount t = 4"
    "usb_request_buffers steady_env t = Some (Ret (OK, u))" "us_buffersCount u = 4" "usb_delete steady_env u = Some (Ret v)" "\<not> us_started u"
    by blast
  from modes_leak_mappings [OF g(1) i(1) g(2) i(2,3) r(1,3,5,6)] r(2,4) show ?thesis by (intro exI [of _ v]) simp
qed

text \<open>A driver that grants more buffers for a mode than for the one before it makes the mapping write behind the array.\<close>

theorem growing_buffers_fault:
  assumes "us_buffers s = Some bs" "length bs < m" "2 \<le> m"
    and "\<forall>w fd. ha_ret (k w (H_Ioctl fd (H_Reqbufs 4))) = 0 \<and> ha_count (k w (H_Ioctl fd (H_Reqbufs 4))) = m"
    and "\<forall>w fd i. ha_ret (k w (H_Ioctl fd (H_Querybuf i))) = 0" "\<forall>w fd n i. ha_addr (k w (H_Mmap fd n i)) \<noteq> MAP_FAILED"
  shows "usb_request_buffers k s = Some Fault"
proof -
  have z: "hioctl k r s = Some (k (us_calls s) (H_Ioctl (us_fd s) r), s\<lparr>us_calls := us_calls s @ [H_Ioctl (us_fd s) r]\<rparr>)"
    if "ha_ret (k (us_calls s) (H_Ioctl (us_fd s) r)) = 0" for r and s :: "'a usb_sensor"
    using that by (simp add: hioctl_def xioctl_zero [where k = k])
  have "us_buffers s = Some bs \<Longrightarrow> length bs < i + m \<Longrightarrow> i \<le> length bs \<Longrightarrow> map_buffers k m i s = Some Fault"
    for i m and bs and s :: "'a usb_sensor"
  proof (induction m arbitrary: i s bs)
    case (Suc m)
    then show ?case using assms(5,6) by (auto simp: and_then_def z hcall_def Let_def)
  qed simp
  then show ?thesis
    using assms(1-4) by (simp add: usb_request_buffers_def and_then_def z and_safely_def Let_def)
qed

text \<open>A frame that is delivered is what the buffer holds that the driver hands over, and the same buffer is queued
  again. The driver that has none is taken at its cleared answer: then it is the first buffer.\<close>

theorem frame_delivered:
  assumes "usb_getFrame k (Some d) s = Some (Ret (OK, d', t))"
  shows "\<exists>bs m n i buf. us_buffers s = Some bs \<and> i < us_buffersCount s \<and>
    buf = k (us_calls s @ H_Select (us_fd s) # replicate m (H_Ioctl (us_fd s) H_Dqbuf)) (H_Ioctl (us_fd s) H_Dqbuf) \<and>
    us_calls t = us_calls s @ H_Select (us_fd s) # replicate (Suc m) (H_Ioctl (us_fd s) H_Dqbuf) @
      replicate (Suc n) (H_Ioctl (us_fd s) (H_Qbuf i)) \<and>
    d' = Some (put_back (ha_data buf) (replicate (snd (bs ! i)) 0) @ drop (snd (bs ! i)) d) \<and>
    i = (if ha_ret buf = -1 then 0 else ha_index buf) \<and> (ha_ret buf = -1 \<longrightarrow> ha_errno buf = EAGAIN)"
proof -
  let ?u = "s\<lparr>us_calls := us_calls s @ [H_Select (us_fd s)]\<rparr>"
  obtain buf v where v: "hioctl k H_Dqbuf ?u = Some (buf, v)"
    using assms by (auto simp: usb_getFrame_def hcall_def and_then_def split: option.splits if_splits)
  obtain m where m: "us_calls v = us_calls s @ H_Select (us_fd s) # replicate (Suc m) (H_Ioctl (us_fd s) H_Dqbuf)"
    "buf = k (us_calls s @ H_Select (us_fd s) # replicate m (H_Ioctl (us_fd s) H_Dqbuf)) (H_Ioctl (us_fd s) H_Dqbuf)"
    using hioctl_shape [OF v] by (metis (no_types, lifting) append.assoc append_Cons append_Nil usb_sensor.select_convs(1,11)
        usb_sensor.surjective usb_sensor.update_convs(11))
  define i where "i = (if ha_ret buf = -1 then 0 else ha_index buf)"
  note f = same_fields [OF same_hioctl [OF v]]
  have ok: "\<not> (ha_ret buf = -1 \<and> ha_errno buf \<noteq> EAGAIN)" "\<not> us_buffersCount v \<le> i"
    and rest: "(case us_buffers v of None \<Rightarrow> Some Fault
       | Some bs \<Rightarrow>
           if length bs \<le> i then Some Fault
           else (case mem_write 0 (put_back (ha_data buf) (replicate (snd (bs ! i)) 0)) d of
                   Fault \<Rightarrow> Some Fault
                 | Ret dest \<Rightarrow>
                     and_then (hioctl k (H_Qbuf i) v) (\<lambda>(a, s).
                       Some (Ret (if ha_ret a = -1 then GENERIC_ERROR else OK, Some dest, s))))) = Some (Ret (OK, d', t))"
    using assms unfolding usb_getFrame_def hcall_def prod.case option.case Let_def and_then_def v i_def [symmetric]
    by (auto split: if_splits)
  obtain bs where bs: "us_buffers v = Some bs" "\<not> length bs \<le> i" using rest by (auto split: option.splits if_splits)
  let ?got = "put_back (ha_data buf) (replicate (snd (bs ! i)) 0)"
  obtain dest where dest: "mem_write 0 ?got d = Ret dest" using rest bs by (auto split: mem.splits)
  obtain a w where w: "hioctl k (H_Qbuf i) v = Some (a, w)" "t = w" "d' = Some dest"
    using rest bs dest by (auto simp: and_then_def split: option.splits if_splits)
  obtain n where n: "us_calls w = us_calls v @ replicate (Suc n) (H_Ioctl (us_fd v) (H_Qbuf i))"
    using hioctl_shape [OF w(1)] by metis
  have "length ?got = snd (bs ! i)" by (simp add: put_back_def)
  then have "dest = ?got @ drop (snd (bs ! i)) d" using dest by (simp add: mem_write_def split: if_splits)
  then have d: "d' = Some (?got @ drop (snd (bs ! i)) d)" using w(3) by simp
  have s: "us_buffers s = Some bs" "us_buffersCount v = us_buffersCount s" "us_fd v = us_fd s" using f bs(1) by simp_all
  have c: "us_calls t = us_calls s @ H_Select (us_fd s) # replicate (Suc m) (H_Ioctl (us_fd s) H_Dqbuf) @
      replicate (Suc n) (H_Ioctl (us_fd s) (H_Qbuf i))"
    unfolding w(2) n m(1) s(3) by (simp del: replicate_Suc)
  have "i < us_buffersCount s" "ha_ret buf = -1 \<longrightarrow> ha_errno buf = EAGAIN" using ok s(2) by auto
  with s(1) m(2) c d i_def show ?thesis by blast
qed

definition mapped_sensor :: "unit usb_sensor" where
  "mapped_sensor = plain_sensor\<lparr>us_buffers := Some [(4096, 8), (8192, 8)], us_buffersCount := 2\<rparr>"

definition frame_env :: henv where
  "frame_env w c = no_answer\<lparr>ha_ret := 1, ha_index := 1, ha_data := [1, 2, 3, 4, 5, 6, 7, 8]\<rparr>"

theorem frame_delivered_witness:
  "\<exists>t. usb_getFrame frame_env (Some (replicate 9 0)) mapped_sensor = Some (Ret (OK, Some [1, 2, 3, 4, 5, 6, 7, 8, 0], t)) \<and>
    H_Ioctl 3 (H_Qbuf 1) \<in> set (us_calls t)"
proof -
  have x: "usb_xioctl frame_env fd r w = Some (frame_env w (H_Ioctl fd r), w @ [H_Ioctl fd r])" for fd r w
    by (rule xioctl_now) (simp add: frame_env_def no_answer_def retried_def)
  have r9: "replicate 9 (0 :: u8) = [0, 0, 0, 0, 0, 0, 0, 0, 0]" by (simp add: numeral_eq_Suc)
  obtain d t where t: "usb_getFrame frame_env (Some (replicate 9 0)) mapped_sensor = Some (Ret (OK, d, t))"
    by (simp add: usb_getFrame_def hioctl_def x and_then_def Let_def hcall_def mapped_sensor_def UsbDepthSensor_def
        frame_env_def no_answer_def mem_write_def put_back_def)
  show ?thesis
    using frame_delivered [OF t] t
    by (auto simp: mapped_sensor_def UsbDepthSensor_def frame_env_def no_answer_def put_back_def r9)
qed

definition growing_env :: henv where
  "growing_env w c = no_answer\<lparr>ha_count := 4, ha_length := 8, ha_addr := 4096\<rparr>"

theorem growing_buffers_fault_witness: "usb_request_buffers growing_env mapped_sensor = Some Fault"
proof -
  have b: "us_buffers mapped_sensor = Some [(4096, 8), (8192, 8)]" "length [(4096 :: nat, 8 :: nat), (8192, 8)] < 4" "2 \<le> (4 :: nat)"
    by (simp_all add: mapped_sensor_def)
  show ?thesis by (rule growing_buffers_fault [OF b]) (simp_all add: growing_env_def no_answer_def)
qed

end
