(* ===== verification/Uvc_Host.thy ===== *)
theory Uvc_Host
  imports Uvc_Facts
begin

text \<open>
  Client requests and server responses from end to end. The host side is
  \<^verbatim>\<open>uvcExUnitSendRequest\<close> and \<^verbatim>\<open>uvcExUnitGetResponse\<close> of
  \<^verbatim>\<open>sdk/src/connections/usb/linux/usb_linux_utils.cpp\<close>; the gadget side is the extension unit of
  \<open>Uvc_Device\<close>. A query of the host reaches the gadget as the request of a SETUP event, followed
  by a DATA event with the 60 bytes for one that sets. In the other direction the host's buffer
  receives as many bytes as the reply is long, and keeps what it held behind them.
\<close>

section \<open>The host\<close>

definition xu_setup :: "u8 \<Rightarrow> u8 \<Rightarrow> u8 \<Rightarrow> usb_ctrlrequest" where
  "xu_setup type query selector =
     \<lparr>bRequestType = type, bRequest = query, wValue = push_bit 8 (ucast selector), wIndex = 0x0300, wLength = 60\<rparr>"

definition UvcExUnitSetProperty ::
  "os \<Rightarrow> 'm gadget_scheme video_source_ops \<Rightarrow> u8 list \<Rightarrow> 'm gadget_scheme \<Rightarrow> 'm gadget_scheme mem" where
  "UvcExUnitSetProperty k src packet s =
     (case uvc_events_process_setup (xu_setup 0x21 UVC_SET_CUR 1) empty_response s of
        Fault \<Rightarrow> Fault
      | Ret (resp, s) \<Rightarrow> uvc_events_process_data k src \<lparr>rs_length = 60, rs_data = packet\<rparr> s)"

text \<open>The answer is \<open>None\<close> when the query fails, because the gadget stalled it.\<close>

definition UvcExUnitGetProperty ::
  "u8 list \<Rightarrow> 'm gadget_scheme \<Rightarrow> (u8 list option \<times> 'm gadget_scheme) mem" where
  "UvcExUnitGetProperty packet s =
     (case uvc_events_process_setup (xu_setup 0xA1 UVC_GET_CUR 2) empty_response s of
        Fault \<Rightarrow> Fault
      | Ret (resp, s) \<Rightarrow>
          Ret (if rs_length resp < 0 then None
               else let n = min 60 (nat (rs_length resp)) in Some (take n (rs_data resp) @ drop n packet), s))"

text \<open>
  The packets of a request: its length, in the first 8 of the 60 bytes that are read from the
  variable that holds it, then the request itself through a buffer of 60 bytes. \<open>junk\<close> is what
  lies behind the variable on the stack, \<open>buf\<close> what the buffer held before.
\<close>

function data_packets :: "u8 list \<Rightarrow> u8 list \<Rightarrow> u8 list list" where
  "data_packets buf xs =
     (if xs = [] then []
      else let p = take 60 xs @ drop (length (take 60 xs)) buf in p # data_packets p (drop 60 xs))"
  by pat_completeness auto
termination by (relation "measure (\<lambda>(buf, xs). length xs)") auto

declare data_packets.simps [simp del]

definition uvcExUnitSendRequest :: "u8 list \<Rightarrow> u8 list \<Rightarrow> u8 list \<Rightarrow> u8 list list" where
  "uvcExUnitSendRequest junk buf request = (le64 (length request) @ junk) # data_packets buf request"

fun send_packets ::
  "os \<Rightarrow> 'm gadget_scheme video_source_ops \<Rightarrow> u8 list list \<Rightarrow> 'm gadget_scheme \<Rightarrow> 'm gadget_scheme mem" where
  "send_packets k src [] s = Ret s"
| "send_packets k src (p # ps) s =
     (case UvcExUnitSetProperty k src p s of Fault \<Rightarrow> Fault | Ret s \<Rightarrow> send_packets k src ps s)"

text \<open>The number in the bytes of a packet, least significant first.\<close>

fun le_value :: "u8 list \<Rightarrow> nat" where
  "le_value [] = 0"
| "le_value (b # bs) = unat b + 256 * le_value bs"

function receive_loop ::
  "nat \<Rightarrow> nat \<Rightarrow> u8 list \<Rightarrow> u8 list \<Rightarrow> 'm gadget_scheme \<Rightarrow> (u8 list option \<times> 'm gadget_scheme) mem" where
  "receive_loop len read packet resp s =
     (if len \<le> read then Ret (Some resp, s)
      else let n = (if len - read > 60 then 60 else len - read) in
        case UvcExUnitGetProperty packet s of
          Fault \<Rightarrow> Fault
        | Ret (None, s) \<Rightarrow> Ret (None, s)
        | Ret (Some packet, s) \<Rightarrow> receive_loop len (read + n) packet (resp @ take n packet) s)"
  by pat_completeness auto
termination by (relation "measure (\<lambda>(len, read, packet, resp, s). len - read)") auto

declare receive_loop.simps [simp del]

definition uvcExUnitGetResponse ::
  "u8 list \<Rightarrow> 'm gadget_scheme \<Rightarrow> (u8 list option \<times> 'm gadget_scheme) mem" where
  "uvcExUnitGetResponse packet s =
     (case UvcExUnitGetProperty packet s of
        Fault \<Rightarrow> Fault
      | Ret (None, s) \<Rightarrow> Ret (None, s)
      | Ret (Some packet, s) \<Rightarrow> receive_loop (le_value (take 8 packet)) 0 packet [] s)"

section \<open>Numbers as bytes\<close>

lemma le_value_digits: "le_value (map (\<lambda>i. word_of_nat (n div 256 ^ i)) [0..<k]) = n mod 256 ^ k"
proof (induction k arbitrary: n)
  case (Suc k)
  have "map (\<lambda>i. word_of_nat (n div 256 ^ i) :: u8) [0..<Suc k] =
      word_of_nat n # map (\<lambda>i. word_of_nat (n div 256 div 256 ^ i)) [0..<k]"
    by (simp add: upt_conv_Cons map_Suc_upt [symmetric] div_mult2_eq del: upt_Suc)
  then have "le_value (map (\<lambda>i. word_of_nat (n div 256 ^ i)) [0..<Suc k]) = n mod 256 + 256 * (n div 256 mod 256 ^ k)"
    using Suc.IH [of "n div 256"] by (simp add: unat_of_nat)
  then show ?case by (simp add: mod_mult2_eq)
qed simp

lemma le_value_append: "le_value (xs @ ys) = le_value xs + 256 ^ length xs * le_value ys"
  by (induction xs) (simp_all add: algebra_simps)

lemma le_value_le64: "n < 2 ^ 64 \<Longrightarrow> le_value (le64 n) = n"
  using le_value_digits [of n 8] by (simp add: le64_def)

lemma length_le64 [simp]: "length (le64 n) = 8"
  by (simp add: le64_def)

lemma le64_head: "le64 n ! 0 = word_of_nat n"
  by (simp add: le64_def)

section \<open>Queries at the gadget\<close>

text \<open>The extension unit is reached when no interface of the function has the number of its unit.\<close>

definition xu_reachable :: "'m gadget_scheme \<Rightarrow> bool" where
  "xu_reachable s \<longleftrightarrow> (\<exists>c. fc s = Some c \<and> control_interface c \<noteq> 0x0300 \<and> streaming_interface c \<noteq> 0x0300)"

lemma xu_reachable_own: "own_state s t \<Longrightarrow> xu_reachable t = xu_reachable s"
  by (simp add: own_state_def xu_reachable_def)

lemma selector_bytes:
  "ucast (drop_bit 8 (push_bit 8 (1 :: u16))) = (1 :: u8)" "ucast (drop_bit 8 (push_bit 8 (2 :: u16))) = (2 :: u8)"
  by simp_all

lemma setup_extension:
  assumes "xu_reachable s" "type = 0x21 \<or> type = 0xA1" "selector = 1 \<or> selector = 2"
  shows "uvc_events_process_setup (xu_setup type query selector) resp s =
    uvc_events_process_extension_unit query selector 60 resp (s\<lparr>ud_control := 0\<rparr>)"
proof -
  have m: "(0x21 :: u8) AND 0x60 = 0x20" "(0xA1 :: u8) AND 0x60 = 0x20" "(0x21 :: u8) AND 0x1f = 1"
    "(0xA1 :: u8) AND 0x1f = 1" "(0x0300 :: u16) AND 0x0300 = 0x0300" "ucast (0x0300 :: u16) = (0x0300 :: u32)"
    by simp_all
  show ?thesis
    using assms
    by (elim disjE; auto simp: uvc_events_process_setup_def uvc_events_process_class_def xu_setup_def xu_reachable_def
        Let_def m selector_bytes)
qed

lemma set_property_value:
  assumes "xu_reachable s"
  shows "UvcExUnitSetProperty k src p s =
    (if blob_len_read s then client_packet k p (s\<lparr>ud_control := 0x0301\<rparr>)
     else Ret (client_length k p (s\<lparr>ud_control := 0x0301\<rparr>)))"
  using setup_extension [OF assms, of "0x21" 1 UVC_SET_CUR empty_response]
  by (simp add: UvcExUnitSetProperty_def uvc_events_process_extension_unit_def uvc_events_process_data_def)

lemma get_property_value:
  assumes "xu_reachable s"
  shows "UvcExUnitGetProperty p s =
    (case get_response empty_response (s\<lparr>ud_control := 0\<rparr>) of
       Fault \<Rightarrow> Fault
     | Ret (resp, s) \<Rightarrow>
         Ret (if rs_length resp < 0 then None
              else let n = min 60 (nat (rs_length resp)) in Some (take n (rs_data resp) @ drop n p), s))"
  using setup_extension [OF assms, of "0xA1" 2 UVC_GET_CUR empty_response]
  by (simp add: UvcExUnitGetProperty_def uvc_events_process_extension_unit_def)

section \<open>Requests\<close>

text \<open>In the middle of a request: \<open>i\<close> of the \<open>r\<close> bytes expected have come, and they are the first of \<open>d\<close>.\<close>

definition uploading :: "u8 list \<Rightarrow> nat \<Rightarrow> nat \<Rightarrow> 'm gadget_scheme \<Rightarrow> bool" where
  "uploading d r i s \<longleftrightarrow> xu_reachable s \<and> blob_len_read s \<and> in_len s = r \<and> client_req_bytes_read s = i \<and>
     (\<exists>b. in_data s = Some b \<and> length b = r \<and> take i b = take i d)"

text \<open>After a request: it has been handled, and the response is what the handler gave.\<close>

definition handled :: "os \<Rightarrow> u8 list \<Rightarrow> 'm gadget_scheme \<Rightarrow> 'm gadget_scheme \<Rightarrow> bool" where
  "handled k req s t \<longleftrightarrow>
     (let a = k (app_world s) (Handle_Client_Request req) in
      app_world t = app_world s @ [Handle_Client_Request req] \<and>
      out_data t = Some (a_bytes a) \<and> out_len t = length (a_bytes a) \<and> \<not> blob_len_read t \<and> xu_reachable t)"

lemma client_packet_step:
  assumes "uploading d r i s" "i \<le> r" "r \<le> length d" "take 60 (drop i d) = take (length (take 60 (drop i d))) p"
  defines "n \<equiv> min 60 (r - i)"
  shows "\<exists>t. client_packet k p s = Ret t \<and>
    (if i + n = r then handled k (take r d) s t else uploading d r (i + n) t \<and> app_world t = app_world s)"
proof -
  obtain b where b: "in_data s = Some b" "length b = r" "take i b = take i d"
    and s: "blob_len_read s" "in_len s = r" "client_req_bytes_read s = i" "xu_reachable s"
    using assms(1) by (auto simp: uploading_def)
  have n: "packet_size (r - i) = n" "n \<le> r - i" "n \<le> 60" by (auto simp: packet_size_def n_def MAX_PACKET_SIZE_def)
  have m: "minus_size r i = r - i" using assms(2) by (simp add: minus_size_def)
  let ?l = "length (take 60 (drop i d))"
  have "n \<le> ?l" using assms(3) n by simp
  moreover have "take n (take 60 (drop i d)) = take n (take ?l p)" using assms(4) by (rule arg_cong)
  ultimately have p: "take n p = take n (drop i d)" using n(3) by (simp only: take_take min_absorb1)
  define b' where "b' = take i b @ take n p @ drop (i + n) b"
  have b': "length b' = r" "take (i + n) b' = take (i + n) d"
  proof -
    have l: "length (take n p) = n" using n(2) assms(3) by (simp add: p)
    then show "length b' = r" using b(2) assms(2) n(2) by (simp add: b'_def)
    have "take (i + n) b' = take i b @ take n p" using l b(2) assms(2) n(2) by (simp add: b'_def)
    then show "take (i + n) b' = take (i + n) d" by (simp add: b(3) p take_add)
  qed
  have x: "(if n = 0 then Ret (Some b)
      else if i + n \<le> length b then Ret (Some (take i b @ take n p @ drop (i + n) b)) else Fault) = Ret (Some b')"
    using assms(2) n(2) b(2) by (auto simp: b'_def)
  define u where "u = s\<lparr>in_data := Some b', client_req_bytes_read := i + n\<rparr>"
  have v: "client_packet k p s = (if r - i - n = 0
      then case sys k (Handle_Client_Request (take r b')) (app_world s) of
          (a, w) \<Rightarrow> Ret (u\<lparr>app_world := w, out_data := Some (a_bytes a), out_len := length (a_bytes a),
             mode_changed := (mode_changed u \<or> a_value a \<noteq> 0),
             in_data := None, in_len := 0, client_req_bytes_read := 0, blob_len_read := False\<rparr>)
      else Ret u)"
    unfolding client_packet_def Let_def s(2,3) m n(1) b(1) option.case x mem.case
    by (simp add: u_def s)
  have e: "r - i - n = 0 \<longleftrightarrow> i + n = r" using n(2) assms(2) by linarith
  have tr: "i + n = r \<Longrightarrow> take r b' = take r d" using b' by simp
  show ?thesis
  proof (cases "i + n = r")
    case True
    then show ?thesis
      using s(4) tr by (auto simp: v e sys_def handled_def Let_def u_def xu_reachable_def)
  next
    case False
    have "uploading d r (i + n) u" using s b' by (simp add: uploading_def u_def xu_reachable_def)
    then show ?thesis using False unfolding v e by (simp add: u_def)
  qed
qed

lemma uploading_control: "uploading d r i (s\<lparr>ud_control := c\<rparr>) = uploading d r i s"
  by (simp add: uploading_def xu_reachable_def)

lemma handled_control: "handled k req (s\<lparr>ud_control := c\<rparr>) t = handled k req s t"
  by (simp add: handled_def)

lemma set_property_step:
  fixes rest :: "u8 list"
  assumes "uploading d r i s" "i \<le> r" "r \<le> length d"
  defines "p \<equiv> take 60 (drop i d) @ rest" and "n \<equiv> min 60 (r - i)"
  shows "\<exists>t. UvcExUnitSetProperty k src p s = Ret t \<and>
    (if i + n = r then handled k (take r d) s t else uploading d r (i + n) t \<and> app_world t = app_world s)"
proof -
  have u: "uploading d r i (s\<lparr>ud_control := 0x0301\<rparr>)" using assms(1) by (simp add: uploading_control)
  have x: "xu_reachable s" "blob_len_read s" using assms(1) by (auto simp: uploading_def)
  have p: "take 60 (drop i d) = take (length (take 60 (drop i d))) p"
    by (cases "60 \<le> length d - i") (simp_all add: p_def)
  show ?thesis
    using client_packet_step [OF u assms(2,3) p, of k] x(2)
    by (auto simp: set_property_value [OF x(1)] handled_control n_def split: if_splits)
qed

text \<open>Feeding the data packets until the bytes expected have come.\<close>

lemma feed_packets:
  assumes "uploading d r i s" "i < r" "r \<le> length d" "length buf = 60"
  shows "\<exists>ps qs t. data_packets buf (drop i d) = ps @ qs \<and> length ps = (r - i + 59) div 60 \<and>
    (r = length d \<longrightarrow> qs = []) \<and> send_packets k src ps s = Ret t \<and> handled k (take r d) s t"
  using assms
proof (induction "r - i" arbitrary: i s buf rule: less_induct)
  case less
  define p where "p = take 60 (drop i d) @ drop (length (take 60 (drop i d))) buf"
  have ne: "drop i d \<noteq> []" using less.prems(2,3) by simp
  have d: "data_packets buf (drop i d) = p # data_packets p (drop (i + 60) d)"
    using ne by (subst data_packets.simps) (simp add: p_def Let_def add.commute)
  have l: "length p = 60" using less.prems(4) by (simp add: p_def)
  obtain t where t: "UvcExUnitSetProperty k src p s = Ret t"
    "if i + min 60 (r - i) = r then handled k (take r d) s t
     else uploading d r (i + min 60 (r - i)) t \<and> app_world t = app_world s"
    using set_property_step [where k = k and src = src, OF less.prems(1) _ less.prems(3)] less.prems(2)
    unfolding p_def by (metis less_imp_le)
  show ?case
  proof (cases "r - i \<le> 60")
    case True
    then have "handled k (take r d) s t" using t(2) less.prems(2) by simp
    moreover have "data_packets p (drop (i + 60) d) = []" if "r = length d"
      using True that by (simp add: data_packets.simps)
    moreover have "(r - i + 59) div 60 = 1" using True less.prems(2) by simp
    ultimately show ?thesis
      using t(1) by (rule_tac x = "[p]" in exI, rule_tac x = "data_packets p (drop (i + 60) d)" in exI, rule_tac x = t in exI) (simp add: d)
  next
    case False
    then have m: "min 60 (r - i) = 60" and lt: "i + 60 < r" by simp_all
    have u: "uploading d r (i + 60) t" "app_world t = app_world s" "i + 60 < r"
      using t(2) lt unfolding m by simp_all
    have dec: "r - (i + 60) < r - i" using lt by simp
    obtain ps qs z where z: "data_packets p (drop (i + 60) d) = ps @ qs" "length ps = (r - (i + 60) + 59) div 60"
      "r = length d \<longrightarrow> qs = []" "send_packets k src ps t = Ret z" "handled k (take r d) t z"
      using less.hyps [OF dec u(1,3) less.prems(3) l] by blast
    have "(r - i + 59) div 60 = Suc ((r - (i + 60) + 59) div 60)" using False by simp
    then show ?thesis
      using z t(1) u(2)
      by (rule_tac x = "p # ps" in exI, rule_tac x = qs in exI, rule_tac x = z in exI) (simp add: d handled_def)
  qed
qed

text \<open>The first packet announces the length, of which the gadget reads one byte.\<close>

lemma length_packet:
  assumes "xu_reachable s" "\<not> blob_len_read s" "0 \<le> ret (k (app_world s) Malloc)"
  shows "\<exists>t. UvcExUnitSetProperty k src (le64 n @ junk) s = Ret t \<and> app_world t = app_world s @ [Malloc] \<and>
    uploading d (n mod 256) 0 t"
proof -
  have n: "unat ((le64 n @ junk) ! 0) = n mod 256" by (simp add: nth_append le64_head unat_of_nat)
  show ?thesis
    using assms
    by (simp add: set_property_value client_length_def sys_def Let_def n uploading_def xu_reachable_def)
qed

lemma request_value:
  assumes "xu_reachable s" "\<not> blob_len_read s" "0 \<le> ret (k (app_world s) Malloc)"
    and "d \<noteq> []" "length buf = 60"
  defines "r \<equiv> length d mod 256"
  shows "\<exists>ps qs t. uvcExUnitSendRequest junk buf d = ps @ qs \<and> length ps = 1 + max 1 ((r + 59) div 60) \<and>
    (length d < 256 \<longrightarrow> qs = []) \<and> send_packets k src ps s = Ret t \<and>
    app_world t = app_world s @ [Malloc, Handle_Client_Request (take r d)] \<and>
    out_data t = Some (a_bytes (k (app_world s @ [Malloc]) (Handle_Client_Request (take r d)))) \<and>
    out_len t = length (a_bytes (k (app_world s @ [Malloc]) (Handle_Client_Request (take r d)))) \<and>
    \<not> blob_len_read t \<and> xu_reachable t"
proof -
  obtain u where u: "UvcExUnitSetProperty k src (le64 (length d) @ junk) s = Ret u" "app_world u = app_world s @ [Malloc]"
    "uploading d r 0 u"
    using length_packet [where k = k and s = s and src = src and n = "length d" and junk = junk and d = d, OF assms(1-3)] by (auto simp: r_def)
  have r: "r \<le> length d" by (simp add: r_def)
  have req: "uvcExUnitSendRequest junk buf d = (le64 (length d) @ junk) # data_packets buf d"
    by (simp add: uvcExUnitSendRequest_def)
  have small: "length d < 256 \<Longrightarrow> r = length d \<and> 0 < r" using assms(4) by (simp add: r_def)
  show ?thesis
  proof (cases "r = 0")
    case False
    then obtain ps qs t where z: "data_packets buf d = ps @ qs" "length ps = (r + 59) div 60"
      "r = length d \<longrightarrow> qs = []" "send_packets k src ps u = Ret t" "handled k (take r d) u t"
      using feed_packets [OF u(3) _ r assms(5), of k src] by auto
    then show ?thesis
      using u(1,2) small False
      by (rule_tac x = "(le64 (length d) @ junk) # ps" in exI, rule_tac x = qs in exI, rule_tac x = t in exI)
        (auto simp: req handled_def Let_def max_def)
  next
    case True
    define p where "p = take 60 d @ drop (length (take 60 d)) buf"
    have dp: "data_packets buf d = p # data_packets p (drop 60 d)"
      using assms(4) by (subst data_packets.simps) (simp add: p_def Let_def)
    obtain t where t: "UvcExUnitSetProperty k src p u = Ret t" "handled k (take r d) u t"
      using set_property_step [where rest = "drop (length (take 60 d)) buf" and k = k and src = src, OF u(3) _ r] True
      by (auto simp: p_def)
    then show ?thesis
      using u(1,2) small True
      by (rule_tac x = "[le64 (length d) @ junk, p]" in exI, rule_tac x = "data_packets p (drop 60 d)" in exI, rule_tac x = t in exI)
        (auto simp: req dp handled_def Let_def)
  qed
qed

lemma client_packet_response:
  "client_packet k p s = Ret t \<Longrightarrow>
   resp_len_sent t = resp_len_sent s \<and> server_resp_bytes_sent t = server_resp_bytes_sent s"
  by (auto simp: client_packet_def sys_def Let_def split: mem.splits if_splits)

section \<open>Responses\<close>

text \<open>In the middle of a response: the length has been sent, and \<open>i\<close> of its bytes.\<close>

definition downloading :: "u8 list \<Rightarrow> nat \<Rightarrow> 'm gadget_scheme \<Rightarrow> bool" where
  "downloading d i s \<longleftrightarrow> xu_reachable s \<and> out_data s = Some d \<and> out_len s = length d \<and> resp_len_sent s \<and>
     server_resp_bytes_sent s = i"

text \<open>After a response: nothing is left of it.\<close>

definition delivered :: "'m gadget_scheme \<Rightarrow> bool" where
  "delivered s \<longleftrightarrow> out_data s = None \<and> out_len s = 0 \<and> \<not> resp_len_sent s"

lemma to_s32_small: "n < 2 ^ 31 \<Longrightarrow> to_s32 n = int n"
  by (simp add: to_s32_def signed_of_nat signed_take_bit_int_eq_self)

lemma get_property_packet:
  assumes "downloading d i s" "i < length d"
  defines "n \<equiv> min 60 (length d - i)"
  shows "\<exists>t. UvcExUnitGetProperty p s = Ret (Some (take n (drop i d) @ drop n p), t) \<and>
    (if i + n = length d then delivered t else downloading d (i + n) t)"
proof -
  let ?s = "s\<lparr>ud_control := 0\<rparr>"
  have s: "xu_reachable s" "out_data ?s = Some d" "out_len ?s = length d" "resp_len_sent ?s" "server_resp_bytes_sent ?s = i"
    using assms(1) by (auto simp: downloading_def)
  have n: "packet_size (minus_size (length d) i) = n" "n \<le> 60" "i + n \<le> length d" "0 < n"
    using assms(2) by (auto simp: n_def packet_size_def minus_size_def MAX_PACKET_SIZE_def)
  define u where "u = ?s\<lparr>server_resp_bytes_sent := i + n\<rparr>"
  define t where "t = (if i + n = length d then u\<lparr>out_data := None, out_len := 0, resp_len_sent := False\<rparr> else u)"
  let ?r = "(put_data (take n (drop i d)) empty_response)\<lparr>rs_length := int n\<rparr>"
  have g: "get_response empty_response ?s = Ret (?r, t)"
    using s n assms(2) to_s32_small [of n]
    by (auto simp: get_response_def next_packet_def Let_def t_def u_def)
  have l: "length (take n (drop i d)) = n" using n(3) by simp
  have "take n (rs_data ?r) = take n (drop i d)" using l by (simp add: put_data_def)
  then have "UvcExUnitGetProperty p s = Ret (Some (take n (drop i d) @ drop n p), t)"
    using n(2) by (simp add: get_property_value [OF s(1)] g min_absorb2)
  moreover have "if i + n = length d then delivered t else downloading d (i + n) t"
    using s by (auto simp: t_def u_def delivered_def downloading_def xu_reachable_def)
  ultimately show ?thesis by blast
qed

lemma receive_rest:
  assumes "downloading d i s" "i < length d" "length p = 60"
  shows "\<exists>t. receive_loop (length d) i p (take i d) s = Ret (Some d, t) \<and> delivered t"
  using assms
proof (induction "length d - i" arbitrary: i p s rule: less_induct)
  case less
  define n where "n = min 60 (length d - i)"
  let ?p = "take n (drop i d) @ drop n p"
  obtain t where t: "UvcExUnitGetProperty p s = Ret (Some ?p, t)"
    "if i + n = length d then delivered t else downloading d (i + n) t"
    using get_property_packet [OF less.prems(1,2)] unfolding n_def by blast
  have n: "0 < n" "i + n \<le> length d" "n \<le> 60" using less.prems(2) by (auto simp: n_def)
  have l: "length ?p = 60" using n less.prems(3) by simp
  have tk: "take i d @ take n ?p = take (i + n) d" using n(2) by (simp add: take_add)
  have c: "(if length d - i > 60 then 60 else length d - i) = n" by (simp add: n_def)
  have step: "receive_loop (length d) i p (take i d) s = receive_loop (length d) (i + n) ?p (take (i + n) d) t"
    using less.prems(2) t(1) tk by (subst receive_loop.simps) (simp add: Let_def c)
  show ?case
  proof (cases "i + n = length d")
    case True
    then have "receive_loop (length d) (i + n) ?p (take (i + n) d) t = Ret (Some d, t)"
      by (subst receive_loop.simps) simp
    then show ?thesis using t(2) True by (simp add: step)
  next
    case False
    then have "i + n < length d" using n(2) by simp
    moreover have "length d - (i + n) < length d - i" using n by simp
    ultimately show ?thesis
      using less.hyps [of "i + n" t ?p] t(2) False l by (simp add: step)
  qed
qed

lemma get_property_length:
  fixes s :: "'m gadget_scheme" and p :: "u8 list"
  assumes "xu_reachable s" "\<not> resp_len_sent s" "0 < out_len s" "out_len s < 2 ^ 31"
  defines "n \<equiv> min 60 (out_len s)"
  shows "UvcExUnitGetProperty p s =
    Ret (Some (take n (le64 (out_len s) @ replicate 52 0) @ drop n p),
         s\<lparr>ud_control := 0, resp_len_sent := True, server_resp_bytes_sent := 0\<rparr>)"
proof -
  let ?r = "(put_data (le64 (out_len s)) empty_response)\<lparr>rs_length := int (out_len s)\<rparr>"
  have g: "get_response empty_response (s\<lparr>ud_control := 0\<rparr>) =
      Ret (?r, s\<lparr>ud_control := 0, resp_len_sent := True, server_resp_bytes_sent := 0\<rparr>)"
    using assms(2-4) to_s32_small [OF assms(4)] by (simp add: get_response_def)
  have d: "rs_data ?r = le64 (out_len s) @ replicate 52 0"
    by (simp add: put_data_def empty_response_def)
  show ?thesis by (simp add: get_property_value [OF assms(1)] g d n_def Let_def)
qed

text \<open>
  The length that the host reads first, when the bytes that the gadget does not send for short
  responses are zero in the host's buffer.
\<close>

definition whole :: "u8 list \<Rightarrow> nat \<Rightarrow> bool" where
  "whole p n \<longleftrightarrow> n < 2 ^ 31 \<and> (\<forall>i\<in>{max 1 n..<8}. p ! i = 0)"

lemma whole_long: "8 \<le> n \<Longrightarrow> n < 2 ^ 31 \<Longrightarrow> whole p n"
  by (simp add: whole_def)

lemma length_query:
  assumes "xu_reachable s" "\<not> resp_len_sent s" "whole p (out_len s)" "length p = 60"
  shows "\<exists>q. UvcExUnitGetProperty p s = Ret (Some q,
      if out_len s = 0 then s\<lparr>ud_control := 0\<rparr> else s\<lparr>ud_control := 0, resp_len_sent := True, server_resp_bytes_sent := 0\<rparr>) \<and>
    length q = 60 \<and> le_value (take 8 q) = out_len s"
proof -
  let ?n = "out_len s"
  define m where "m = min 60 (max 1 (out_len s))"
  let ?q = "take m (le64 ?n @ replicate 52 0) @ drop m p"
  have m: "m \<le> 60" "1 \<le> m" by (simp_all add: m_def)
  have n: "?n < 2 ^ 31" "\<forall>i\<in>{max 1 ?n..<8}. p ! i = 0" using assms(3) by (auto simp: whole_def)
  have lq: "length ?q = 60" using m assms(4) by simp
  have g: "UvcExUnitGetProperty p s = Ret (Some ?q,
      if ?n = 0 then s\<lparr>ud_control := 0\<rparr> else s\<lparr>ud_control := 0, resp_len_sent := True, server_resp_bytes_sent := 0\<rparr>)"
  proof (cases "?n = 0")
    case True
    then show ?thesis
      by (simp add: get_property_value [OF assms(1)] get_response_def answer_byte_def put_data_def le64_def
          Let_def empty_response_def upt_rec m_def)
  next
    case False
    then have "m = min 60 ?n" by (simp add: m_def)
    then show ?thesis using False get_property_length [OF assms(1,2) _ n(1), of p] by simp
  qed
  have "take 8 ?q = le64 ?n"
  proof (rule nth_equalityI)
    show l: "length (take 8 ?q) = length (le64 ?n)" by (simp only: length_take lq length_le64)
    fix i assume "i < length (take 8 ?q)"
    then have i: "i < 8" using l by simp
    show "take 8 ?q ! i = le64 ?n ! i"
    proof (cases "i < m")
      case True
      then show ?thesis using i m(1) by (simp add: nth_append)
    next
      case False
      then have "i \<in> {max 1 ?n..<8}" using i by (auto simp: m_def)
      then have "p ! i = 0" "?n < i + 1" "1 \<le> i" using n(2) by auto
      moreover have "i + 1 \<le> 256 ^ i" using less_exp [of i] power_mono [of "2 :: nat" 256 i] by linarith
      ultimately show ?thesis using False i assms(4) m(1) by (simp add: nth_append le64_def)
    qed
  qed
  moreover have "le_value (le64 ?n) = ?n" by (rule le_value_le64) (use n(1) in simp)
  ultimately have "le_value (take 8 ?q) = ?n" by simp
  then show ?thesis using g lq by blast
qed

lemma response_value:
  assumes "xu_reachable s" "\<not> resp_len_sent s" "out_data s = Some d" "out_len s = length d"
    and "whole p (length d)" "length p = 60"
  shows "\<exists>t. uvcExUnitGetResponse p s = Ret (Some d, t) \<and> out_len t = 0 \<and> \<not> resp_len_sent t \<and> (d \<noteq> [] \<longrightarrow> out_data t = None)"
proof -
  let ?t = "if out_len s = 0 then s\<lparr>ud_control := 0\<rparr> else s\<lparr>ud_control := 0, resp_len_sent := True, server_resp_bytes_sent := 0\<rparr>"
  obtain q where q: "UvcExUnitGetProperty p s = Ret (Some q, ?t)" "length q = 60" "le_value (take 8 q) = length d"
    using length_query [OF assms(1,2) _ assms(6)] assms(4,5) by auto
  show ?thesis
  proof (cases "d = []")
    case True
    then show ?thesis
      using q assms(2,4) by (intro exI [of _ ?t]) (simp add: uvcExUnitGetResponse_def receive_loop.simps)
  next
    case False
    then have "downloading d 0 ?t" using assms(1,3,4) by (simp add: downloading_def xu_reachable_def)
    from receive_rest [OF this _ q(2)] False
    obtain t where "receive_loop (length d) 0 q [] ?t = Ret (Some d, t)" "delivered t" by auto
    then show ?thesis using q by (intro exI [of _ t]) (simp add: uvcExUnitGetResponse_def delivered_def)
  qed
qed

text \<open>Reading changes nothing but the response.\<close>

definition reads :: "'m gadget_scheme \<Rightarrow> 'm gadget_scheme \<Rightarrow> bool" where
  "reads s t \<longleftrightarrow> app_world t = app_world s \<and> blob_len_read t = blob_len_read s \<and> fc t = fc s"

lemma reads_trans: "reads s t \<Longrightarrow> reads t u \<Longrightarrow> reads s u"
  by (simp add: reads_def)

lemma reads_reachable: "reads s t \<Longrightarrow> xu_reachable s \<Longrightarrow> xu_reachable t"
  by (simp add: reads_def xu_reachable_def)

lemma get_property_reads: "xu_reachable s \<Longrightarrow> UvcExUnitGetProperty p s = Ret (r, t) \<Longrightarrow> reads s t"
  by (auto simp: get_property_value get_response_def next_packet_def Let_def reads_def split: mem.splits option.splits if_splits)

lemma receive_loop_reads: "xu_reachable s \<Longrightarrow> receive_loop n i p d s = Ret (r, t) \<Longrightarrow> reads s t"
proof (induction n i p d s arbitrary: t rule: receive_loop.induct)
  case (1 n i p d s)
  show ?case
  proof (cases "n \<le> i")
    case True
    then show ?thesis using 1(3) by (subst (asm) receive_loop.simps) (simp add: reads_def)
  next
    case False
    let ?m = "if n - i > 60 then 60 else n - i"
    obtain a u where u: "UvcExUnitGetProperty p s = Ret (a, u)"
      using 1(3) False by (subst (asm) receive_loop.simps) (auto simp: Let_def split: mem.splits)
    note su = get_property_reads [OF 1(2) u]
    show ?thesis
    proof (cases a)
      case None
      then show ?thesis using 1(3) False u su by (subst (asm) receive_loop.simps) (simp add: Let_def)
    next
      case (Some q)
      have "receive_loop n (i + ?m) q (d @ take ?m q) u = Ret (r, t)"
        using 1(3) False u Some by (subst (asm) receive_loop.simps) (simp add: Let_def)
      from 1(1) [OF False refl u [unfolded Some] refl refl reads_reachable [OF su 1(2)] this] show ?thesis
        by (rule reads_trans [OF su])
    qed
  qed
qed

lemma response_reads:
  assumes "xu_reachable s" "uvcExUnitGetResponse p s = Ret (r, t)"
  shows "reads s t"
proof -
  obtain a u where u: "UvcExUnitGetProperty p s = Ret (a, u)"
    using assms(2) by (auto simp: uvcExUnitGetResponse_def split: mem.splits)
  note su = get_property_reads [OF assms(1) u]
  show ?thesis
  proof (cases a)
    case None
    then show ?thesis using assms(2) u su by (simp add: uvcExUnitGetResponse_def)
  next
    case (Some q)
    then have "receive_loop (le_value (take 8 q)) 0 q [] u = Ret (r, t)"
      using assms(2) u by (simp add: uvcExUnitGetResponse_def)
    from reads_trans [OF su receive_loop_reads [OF reads_reachable [OF su assms(1)] this]] show ?thesis .
  qed
qed

text \<open>Sending leaves the state of the response alone.\<close>

lemma set_property_frame:
  "xu_reachable s \<Longrightarrow> UvcExUnitSetProperty k src p s = Ret t \<Longrightarrow> resp_len_sent t = resp_len_sent s \<and> fc t = fc s"
  by (auto simp: set_property_value client_packet_def client_length_def sys_def Let_def split: mem.splits option.splits if_splits)

lemma send_packets_frame:
  "xu_reachable s \<Longrightarrow> send_packets k src ps s = Ret t \<Longrightarrow> resp_len_sent t = resp_len_sent s \<and> fc t = fc s"
proof (induction ps arbitrary: s)
  case (Cons p ps)
  obtain u where u: "UvcExUnitSetProperty k src p s = Ret u" "send_packets k src ps u = Ret t"
    using Cons.prems(2) by (auto split: mem.splits)
  note f = set_property_frame [OF Cons.prems(1) u(1)]
  have "xu_reachable u" using Cons.prems(1) f by (simp add: xu_reachable_def)
  from Cons.IH [OF this u(2)] f show ?case by simp
qed simp

section \<open>Properties\<close>

text \<open>C20: a client request sent by the host reaches its handler cut to the length that one byte can
  announce: of a request of n bytes the gadget takes n modulo 256 and handles those as soon as they
  have come. A request below 256 bytes is handled as it was sent, with no packet left over, and
  what the handler answers is the response to be read; a longer one is handled truncated, and the
  packets that remain are taken for a new request.\<close>

theorem request_reaches_handler:
  assumes "xu_reachable s" "\<not> blob_len_read s" "0 \<le> ret (k (app_world s) Malloc)"
    and "d \<noteq> []" "length buf = 60"
  shows "\<exists>ps qs t. uvcExUnitSendRequest junk buf d = ps @ qs \<and> (length d < 256 \<longrightarrow> qs = []) \<and>
    send_packets k src ps s = Ret t \<and> \<not> blob_len_read t \<and>
    (let req = take (length d mod 256) d in
     app_world t = app_world s @ [Malloc, Handle_Client_Request req] \<and>
     out_data t = Some (a_bytes (k (app_world s @ [Malloc]) (Handle_Client_Request req))))"
  using request_value [where k = k and s = s and src = src and junk = junk, OF assms]
  unfolding Let_def by blast

lemma sample_reachable: "xu_reachable sample_gadget"
  by (simp add: xu_reachable_def sample_gadget_def g_webcam_config_def)

theorem request_reaches_handler_witness:
  "\<exists>t. send_packets ok_os (v4l2_source_ops ok_os)
       (uvcExUnitSendRequest (replicate 52 7) (replicate 60 9) [1, 2, 3]) sample_gadget = Ret t \<and>
     app_world t = [Malloc, Handle_Client_Request [1, 2, 3]]"
proof -
  have s: "\<not> blob_len_read sample_gadget" "app_world sample_gadget = []" by (simp_all add: sample_gadget_def)
  have m: "0 \<le> ret (ok_os (app_world sample_gadget) Malloc)" by (simp add: ok_os_def ok_answer_def)
  show ?thesis
    using request_reaches_handler [where k = ok_os and s = sample_gadget and d = "[1, 2, 3]"
        and buf = "replicate 60 9" and junk = "replicate 52 7" and src = "v4l2_source_ops ok_os",
        OF sample_reachable s(1) m] s(2)
    by (auto simp: Let_def)
qed

text \<open>C21: a server response of at least 8 bytes, read by the host from the beginning, arrives whole and
  in order, and nothing is left of it at the gadget.\<close>

theorem response_arrives_whole:
  assumes "xu_reachable s" "\<not> resp_len_sent s" "out_data s = Some d" "out_len s = length d"
    and "8 \<le> length d" "length d < 2 ^ 31" "length p = 60"
  shows "\<exists>t. uvcExUnitGetResponse p s = Ret (Some d, t) \<and>
    out_data t = None \<and> out_len t = 0 \<and> \<not> resp_len_sent t"
proof -
  have "d \<noteq> []" using assms(5) by auto
  then show ?thesis using response_value [OF assms(1-4) whole_long [OF assms(5,6)] assms(7)] by blast
qed

theorem response_arrives_whole_witness:
  "\<exists>t. uvcExUnitGetResponse (replicate 60 0) (sample_gadget\<lparr>out_data := Some (replicate 100 5), out_len := 100\<rparr>) =
     Ret (Some (replicate 100 5), t)"
proof -
  let ?s = "sample_gadget\<lparr>out_data := Some (replicate 100 5), out_len := 100\<rparr>"
  have "xu_reachable ?s" using sample_reachable by (simp add: xu_reachable_def)
  moreover have "\<not> resp_len_sent ?s" by (simp add: sample_gadget_def)
  ultimately show ?thesis
    using response_arrives_whole [of ?s "replicate 100 5" "replicate 60 0"] by auto
qed

text \<open>Of the length of a response shorter than 8 bytes the host receives as many bytes as the
  response has, because the gadget replies with the length of the response instead of the size of
  the length; of an empty response it receives a single zero byte. The rest of the number the host
  takes for the length is what its buffer held before.\<close>

theorem short_response_length_garbled:
  assumes "xu_reachable s" "out_len s < 8" "out_len s = 0 \<or> \<not> resp_len_sent s" "length p = 60"
  shows "\<exists>q t. UvcExUnitGetProperty p s = Ret (Some q, t) \<and>
    (let n = max 1 (out_len s) in
     le_value (take 8 q) = out_len s + 256 ^ n * le_value (take (8 - n) (drop n p)))"
proof -
  let ?n = "max 1 (out_len s)"
  have "UvcExUnitGetProperty p s \<noteq> Fault \<and> (\<exists>t. UvcExUnitGetProperty p s =
      Ret (Some (take ?n (le64 (out_len s)) @ drop ?n p), t))"
  proof (cases "out_len s = 0")
    case True
    then show ?thesis
      by (simp add: get_property_value [OF assms(1)] get_response_def answer_byte_def put_data_def le64_def
          Let_def empty_response_def upt_rec)
  next
    case False
    then have n: "?n = out_len s" "min 60 (out_len s) = out_len s" using assms(2) by auto
    show ?thesis
      using False assms(2,3) get_property_length [OF assms(1), of p] by (simp add: n)
  qed
  then obtain t where t: "UvcExUnitGetProperty p s = Ret (Some (take ?n (le64 (out_len s)) @ drop ?n p), t)" by blast
  have "take ?n (le64 (out_len s)) = map (\<lambda>i. word_of_nat (out_len s div 256 ^ i)) [0..<?n]"
    using assms(2) by (simp add: le64_def take_map del: upt_conv_Cons)
  moreover have "out_len s < 256 ^ ?n"
    using assms(2) power_increasing [of 1 ?n "256 :: nat"] by simp
  ultimately have v: "le_value (take ?n (le64 (out_len s))) = out_len s"
    using le_value_digits [of "out_len s" ?n] by (simp only: mod_less)
  have "take 8 (take ?n (le64 (out_len s)) @ drop ?n p) = take ?n (le64 (out_len s)) @ take (8 - ?n) (drop ?n p)"
    using assms(2) by simp
  then show ?thesis
    using t v assms(2)
    by (intro exI [of _ "take ?n (le64 (out_len s)) @ drop ?n p"] exI [of _ t]) (simp add: Let_def le_value_append)
qed

definition brief_gadget :: gadget where
  "brief_gadget = sample_gadget\<lparr>out_data := Some [80, 3], out_len := 2\<rparr>"

theorem short_response_length_garbled_witness:
  "\<exists>q t. UvcExUnitGetProperty (replicate 60 1) brief_gadget = Ret (Some q, t) \<and>
     le_value (take 8 q) = 2 + 65536 * le_value (replicate 6 1)"
proof -
  have "xu_reachable brief_gadget" using sample_reachable by (simp add: xu_reachable_def brief_gadget_def)
  moreover have o: "out_len brief_gadget = 2" "\<not> resp_len_sent brief_gadget"
    by (simp_all add: brief_gadget_def sample_gadget_def)
  ultimately show ?thesis
    using short_response_length_garbled [of brief_gadget "replicate 60 1"] by (simp add: Let_def)
qed

text \<open>When the last packet of a request comes while an older response is being read, and the new
  response is shorter than what has been sent of the old one, the next read of the response copies
  from beyond the end of the new one.\<close>

theorem new_response_overread:
  assumes "xu_reachable s" "blob_len_read s" "in_data s = Some b" "length b = in_len s"
    and "client_req_bytes_read s = i" "i \<le> in_len s" "in_len s - i \<le> 60" "length p = 60"
    and "resp_len_sent s" "server_resp_bytes_sent s = sent"
    and "\<And>w req. 0 < length (a_bytes (k w (Handle_Client_Request req))) \<and>
      length (a_bytes (k w (Handle_Client_Request req))) < sent"
  shows "\<exists>t. UvcExUnitSetProperty k src p s = Ret t \<and> stale t \<and> UvcExUnitGetProperty q t = Fault"
proof -
  let ?s = "s\<lparr>ud_control := 0x0301\<rparr>"
  let ?d = "take i b @ take (in_len s - i) p"
  have u: "uploading ?d (in_len s) i ?s"
    using assms(1-6) by (simp add: uploading_def xu_reachable_def)
  have l: "length ?d = in_len s" using assms(4,6,7,8) by simp
  have "take 60 (drop i ?d) = take (length (take 60 (drop i ?d))) p"
    using assms(4,6,7,8) by simp
  from client_packet_step [OF u assms(6) _ this, of k] l assms(6,7)
  obtain t where t: "client_packet k p ?s = Ret t" "handled k (take (in_len s) ?d) ?s t"
    by (auto simp: min_absorb2)
  have keep: "resp_len_sent t" "server_resp_bytes_sent t = sent"
    using client_packet_response [OF t(1)] assms(9,10) by simp_all
  have st: "stale t" "xu_reachable t" "out_len t \<noteq> 0"
    using t(2) keep assms(11) by (auto simp: handled_def Let_def stale_def)
  let ?t = "t\<lparr>ud_control := 0\<rparr>"
  have o: "out_data ?t = Some (a_bytes (k (app_world ?s) (Handle_Client_Request (take (in_len s) ?d))))"
    "out_len ?t = length (a_bytes (k (app_world ?s) (Handle_Client_Request (take (in_len s) ?d))))"
    using t(2) by (simp_all add: handled_def Let_def)
  have "next_packet empty_response ?t = Fault"
    using st(1) keep o by (auto simp: next_packet_def Let_def stale_def)
  then have "UvcExUnitGetProperty q t = Fault"
    using st keep by (simp add: get_property_value get_response_def)
  then show ?thesis
    using t(1) st(1) assms(2) by (auto simp: set_property_value [OF assms(1)])
qed

definition reading_gadget :: gadget where
  "reading_gadget = sample_gadget\<lparr>out_data := Some (replicate 200 5), out_len := 200, resp_len_sent := True,
     server_resp_bytes_sent := 120, blob_len_read := True, in_data := Some [0, 0], in_len := 2\<rparr>"

definition brief_os :: os where
  "brief_os w c = ok_answer\<lparr>a_bytes := [80, 3]\<rparr>"

theorem new_response_overread_witness:
  "\<exists>t. UvcExUnitSetProperty brief_os (v4l2_source_ops brief_os) (replicate 60 1) reading_gadget = Ret t \<and>
     UvcExUnitGetProperty [] t = Fault"
proof -
  have r: "xu_reachable reading_gadget" using sample_reachable by (simp add: xu_reachable_def reading_gadget_def)
  have s: "blob_len_read reading_gadget" "in_data reading_gadget = Some [0, 0]" "length [0 :: u8, 0] = in_len reading_gadget"
    "client_req_bytes_read reading_gadget = 0" "0 \<le> in_len reading_gadget" "in_len reading_gadget - 0 \<le> 60"
    "resp_len_sent reading_gadget" "server_resp_bytes_sent reading_gadget = 120"
    by (simp_all add: reading_gadget_def sample_gadget_def)
  show ?thesis
    using new_response_overread [OF r s(1-6) _ s(7,8), of "replicate 60 1" brief_os "v4l2_source_ops brief_os" "[]"]
    by (auto simp: brief_os_def)
qed

end
