(* ===== verification/Sensor_Facts.thy ===== *)
theory Sensor_Facts
  imports Adsd3500_Sensor
begin

text \<open>
  What \<^verbatim>\<open>adsd3500_sensor.cpp\<close> keeps whatever its device nodes answer: its memory is accessed in bounds,
  what it holds is released once, and which of the frame types it offers can be set.
\<close>

section \<open>Memory\<close>

text \<open>The sensor is open: it has as many devices as given, at least one, and the static buffers have their size.\<close>

definition full_buffers :: "sensor \<Rightarrow> bool" where
  "full_buffers s \<longleftrightarrow> length (read_cmd_buf s) = 4099 \<and> length (write_cmd_buf s) = 4099 \<and>
     length (read_payload_cmd_buf s) = 4099 \<and> length (read_payload_buf s) = 4099 \<and>
     length (write_payload_cmd_buf s) = 4099 \<and> length (write_payload_buf s) = 4099"

text \<open>As many of a device's buffers as it counts are there.\<close>

definition buffers :: "VideoDev \<Rightarrow> (nat \<times> nat) list" where
  "buffers d = (case videoBuffers d of None \<Rightarrow> [] | Some bs \<Rightarrow> bs)"

definition dev_ok :: "VideoDev \<Rightarrow> bool" where
  "dev_ok d \<longleftrightarrow> nVideoBuffers d \<le> length (buffers d)"

definition opened :: "nat \<Rightarrow> sensor \<Rightarrow> bool" where
  "opened N s \<longleftrightarrow> (\<exists>ds. videoDevs s = Some ds \<and> length ds = N \<and> (\<forall>d\<in>set ds. dev_ok d)) \<and> numVideoDevs s = N \<and> N \<noteq> 0 \<and> full_buffers s"

lemma length_put_back [simp]: "length (put_back got buf) = length buf"
  by (simp add: put_back_def)

text \<open>A call leaves everything but the record of the calls.\<close>

definition only_calls :: "sensor \<Rightarrow> sensor \<Rightarrow> bool" where
  "only_calls s t \<longleftrightarrow> (\<exists>w. t = s\<lparr>s_calls := w\<rparr>)"

lemma only_calls_refl [simp]: "only_calls s s"
  unfolding only_calls_def by (rule exI [of _ "s_calls s"]) simp

lemma only_calls_trans [trans]: "only_calls s t \<Longrightarrow> only_calls t u \<Longrightarrow> only_calls s u"
  by (auto simp: only_calls_def)

lemma only_calls_node [simp]: "only_calls s (snd (node k c s))"
  by (auto simp: node_def only_calls_def)

lemma only_calls_tries: "only_calls s (snd (xioctl_tries n k fd r s))"
proof (induction n arbitrary: s)
  case (Suc n)
  have "only_calls s (snd (xioctl_tries n k fd r (snd (node k (Ioctl fd r) s))))"
    using only_calls_trans [OF only_calls_node Suc.IH] .
  then show ?case by (simp add: case_prod_unfold)
qed simp

lemma only_calls_xioctl [simp]: "only_calls s (snd (xioctl k fd r s))"
  by (simp add: xioctl_def only_calls_tries)

lemma only_calls_set_chip: "set_chip k fd b s = (ok, b', t) \<Longrightarrow> only_calls s t \<and> length b' = length b"
  using only_calls_xioctl [of s k fd "S_EXT_CTRLS V4L2_CID_AD_DEV_CHIP_CONFIG b"] by (auto simp: set_chip_def case_prod_unfold)

lemma only_calls_get_chip: "get_chip k fd b s = (ok, b', t) \<Longrightarrow> only_calls s t \<and> length b' = length b"
  using only_calls_xioctl [of s k fd "G_EXT_CTRLS V4L2_CID_AD_DEV_CHIP_CONFIG b"] by (auto simp: get_chip_def case_prod_unfold)

lemma only_calls_opened: "only_calls s t \<Longrightarrow> opened N t = opened N s"
  by (auto simp: only_calls_def opened_def full_buffers_def)

lemma opened_bufs [simp]:
  "length b = 4099 \<Longrightarrow> opened N s \<Longrightarrow> opened N (s\<lparr>read_cmd_buf := b\<rparr>)"
  "length b = 4099 \<Longrightarrow> opened N s \<Longrightarrow> opened N (s\<lparr>write_cmd_buf := b\<rparr>)"
  "length b = 4099 \<Longrightarrow> opened N s \<Longrightarrow> opened N (s\<lparr>read_payload_cmd_buf := b\<rparr>)"
  "length b = 4099 \<Longrightarrow> opened N s \<Longrightarrow> opened N (s\<lparr>read_payload_buf := b\<rparr>)"
  "length b = 4099 \<Longrightarrow> opened N s \<Longrightarrow> opened N (s\<lparr>write_payload_cmd_buf := b\<rparr>)"
  "length b = 4099 \<Longrightarrow> opened N s \<Longrightarrow> opened N (s\<lparr>write_payload_buf := b\<rparr>)"
  by (simp_all add: opened_def full_buffers_def)

lemma opened_dev: "opened N s \<Longrightarrow> \<exists>d. dev_at 0 s = Ret d"
  by (auto simp: opened_def dev_at_def)

text \<open>A step of a command keeps the sensor open, and the buffer its size.\<close>

lemma set_chip_opened: "set_chip k fd b s = (ok, b', t) \<Longrightarrow> opened N s \<Longrightarrow> opened N t \<and> length b' = length b"
  using only_calls_set_chip only_calls_opened by blast

lemma get_chip_opened: "get_chip k fd b s = (ok, b', t) \<Longrightarrow> opened N s \<Longrightarrow> opened N t \<and> length b' = length b"
  using only_calls_get_chip only_calls_opened by blast

lemma node_opened [simp]: "opened N (snd (node k c s)) = opened N s"
  using only_calls_opened [OF only_calls_node] .

lemma xioctl_opened [simp]: "opened N (snd (xioctl k fd r s)) = opened N s"
  using only_calls_opened [OF only_calls_xioctl] .

lemma opened_sizes:
  "opened N s \<Longrightarrow> length (read_cmd_buf s) = 4099" "opened N s \<Longrightarrow> length (write_cmd_buf s) = 4099"
  "opened N s \<Longrightarrow> length (write_payload_cmd_buf s) = 4099" "opened N s \<Longrightarrow> length (write_payload_buf s) = 4099"
  by (simp_all add: opened_def full_buffers_def)

lemma write_cmd_opened:
  assumes "opened N s"
  shows "\<exists>r t. adsd3500_write_cmd k cmd v s = Ret (r, t) \<and> opened N t"
proof -
  obtain d where d: "dev_at 0 s = Ret d" using opened_dev [OF assms] by blast
  obtain ok b t where t: "set_chip k (vd_sfd d) ([1, 0, 4, hi8 cmd, lo8 cmd, hi8 v, lo8 v] @ drop 7 (write_cmd_buf s)) s = (ok, b, t)"
    by (metis surj_pair)
  show ?thesis using set_chip_opened [OF t assms] t d opened_sizes [OF assms] by (auto simp: adsd3500_write_cmd_def)
qed

lemma read_cmd_opened:
  assumes "opened N s"
  shows "\<exists>r v' t. adsd3500_read_cmd k cmd v us s = Ret (r, v', t) \<and> opened N t"
proof -
  obtain d where d: "dev_at 0 s = Ret d" using opened_dev [OF assms] by blast
  obtain ok b t where t: "set_chip k (vd_sfd d) ([1, 0, 2, hi8 cmd, lo8 cmd] @ drop 5 (read_cmd_buf s)) s = (ok, b, t)"
    by (metis surj_pair)
  let ?u = "snd (node k (Usleep (unat us)) t)"
  obtain ok2 b2 t2 where t2: "set_chip k (vd_sfd d) ([0, 0, 2] @ drop 3 b) ?u = (ok2, b2, t2)" by (metis surj_pair)
  obtain ok3 b3 t3 where t3: "get_chip k (vd_sfd d) b2 t2 = (ok3, b3, t3)" by (metis surj_pair)
  have o1: "opened N t" "length b = 4099" using set_chip_opened [OF t assms] opened_sizes [OF assms] by simp_all
  have o2: "opened N t2" "length b2 = 4099" using set_chip_opened [OF t2] o1 by simp_all
  have o3: "opened N t3" "length b3 = 4099" using get_chip_opened [OF t3 o2(1)] o2 by simp_all
  show ?thesis using t t2 t3 d o1 o2 o3 by (cases ok; cases ok2; cases ok3) (auto simp: adsd3500_read_cmd_def)
qed

lemma length_read_header [simp]: "length (read_payload_header cmd x) = 4099"
  by (simp add: read_payload_header_def Let_def)

lemma length_write_header: "length b = 4099 \<Longrightarrow> length (write_payload_header cmd n b) = 4099"
  by (simp add: write_payload_header_def Let_def)

lemma switch_back_opened:
  assumes "switch_back k fd buf s = (ok, b, t)" "opened N s" "length buf = 4099"
  shows "opened N t \<and> length b = 4099"
  using set_chip_opened [OF assms(1) [unfolded switch_back_def] assms(2)] assms(3) by (simp add: switchBuf_def)

lemma read_payload_opened:
  assumes "opened N s" "unat n \<le> 4096" "unat n \<le> length m"
  shows "\<exists>r m' t. adsd3500_read_payload k m n s = Ret (r, m', t) \<and> length m' = length m \<and> opened N t"
proof -
  obtain d where d: "dev_at 0 s = Ret d" using opened_dev [OF assms(1)] by blast
  let ?s = "snd (node k (Usleep 30000) s)"
  obtain ok b t where t: "set_chip k (vd_sfd d) ([0, hi8 n, lo8 n] @ replicate 4096 0) ?s = (ok, b, t)"
    by (metis surj_pair)
  have o1: "opened N t" "length b = 4099" using set_chip_opened [OF t] assms(1) by simp_all
  obtain ok2 b2 t2 where t2: "get_chip k (vd_sfd d) b t = (ok2, b2, t2)" by (metis surj_pair)
  have o2: "opened N t2" "length b2 = 4099" using get_chip_opened [OF t2 o1(1)] o1 by simp_all
  have "mem_read (unat n) (drop 3 b2) = Ret (take (unat n) (drop 3 b2))" using o2(2) assms(2) by (simp add: mem_read_def)
  moreover have "mem_write 0 (take (unat n) (drop 3 b2)) m = Ret (take (unat n) (drop 3 b2) @ drop (unat n) m)"
    using o2(2) assms(2,3) by (simp add: mem_write_def)
  ultimately show ?thesis
    using t t2 d o1 o2 assms(2,3) by (cases ok; cases ok2) (auto simp: adsd3500_read_payload_def)
qed

lemma burst_receive_opened:
  assumes "opened N s" "length buf = 4099" "unat n \<le> 4096" "unat n \<le> length m"
  shows "\<exists>r m' t. burst_receive k fd cmd m n buf s = Ret (r, m', t) \<and> length m' = length m \<and> opened N t"
proof -
  obtain ok b t where t: "set_chip k fd ([0, hi8 n, lo8 n] @ drop 3 buf) s = (ok, b, t)" by (metis surj_pair)
  have o1: "opened N t" "length b = 4099" using set_chip_opened [OF t assms(1)] assms(2) by simp_all
  obtain ok2 b2 t2 where t2: "get_chip k fd b t = (ok2, b2, t2)" by (metis surj_pair)
  have o2: "opened N t2" "length b2 = 4099" using get_chip_opened [OF t2 o1(1)] o1 by simp_all
  obtain ok3 b3 t3 where t3: "switch_back k fd b2 t2 = (ok3, b3, t3)" by (metis surj_pair)
  have o3: "opened N t3" "length b3 = 4099" using switch_back_opened [OF t3 o2] by simp_all
  have "mem_read (unat n) (drop 3 b2) = Ret (take (unat n) (drop 3 b2))" using o2(2) assms(3) by (simp add: mem_read_def)
  moreover have "mem_write 0 (take (unat n) (drop 3 b2)) m = Ret (take (unat n) (drop 3 b2) @ drop (unat n) m)"
    using o2(2) assms(3,4) by (simp add: mem_write_def)
  ultimately show ?thesis
    using t t2 t3 o1 o2 o3 assms(3,4) by (cases ok; cases ok2; cases "cmd = 0x13") (auto simp: burst_receive_def)
qed

lemma read_payload_cmd_opened:
  assumes "opened N s" "unat n \<le> 4096" "max 1 (unat n) \<le> length m"
  shows "\<exists>r m' t. adsd3500_read_payload_cmd k cmd m n s = Ret (r, m', t) \<and> length m' = length m \<and> opened N t"
proof -
  obtain r0 s1 where s1: "adsd3500_write_cmd k 0x19 0 s = Ret (r0, s1)" "opened N s1" using write_cmd_opened [OF assms(1)] by blast
  obtain d where d: "dev_at 0 s1 = Ret d" using opened_dev [OF s1(2)] by blast
  have ne: "m \<noteq> []" using assms(3) by auto
  obtain ok b t where t: "set_chip k (vd_sfd d) (read_payload_header cmd (hd m)) s1 = (ok, b, t)" by (metis surj_pair)
  have o1: "opened N t" "length b = 4099" using set_chip_opened [OF t s1(2)] by simp_all
  define u where "u = (if cmd = 0x13 then snd (node k (Usleep 1000) t) else t)"
  have u: "opened N u" using o1(1) by (simp add: u_def)
  have n: "unat n \<le> length m" using assms(3) by simp
  obtain r m' v where v: "burst_receive k (vd_sfd d) cmd m n b u = Ret (r, m', v)" "length m' = length m" "opened N v"
    using burst_receive_opened [OF u o1(2) assms(2) n] by blast
  show ?thesis
    using s1 d ne t o1 v by (cases "r0 = OK"; cases ok) (auto simp: adsd3500_read_payload_cmd_def u_def)
qed

lemma write_payload_opened:
  assumes "opened N s" "unat n \<le> 4096" "unat n \<le> length m"
  shows "\<exists>r t. adsd3500_write_payload k m n s = Ret (r, t) \<and> opened N t"
proof -
  obtain d where d: "dev_at 0 s = Ret d" using opened_dev [OF assms(1)] by blast
  let ?buf = "take 3 ([1, hi8 n, lo8 n] @ drop 3 (write_payload_buf s)) @ take (unat n) m @
      drop (3 + unat n) ([1, hi8 n, lo8 n] @ drop 3 (write_payload_buf s))"
  have w: "mem_write 3 (take (unat n) m) ([1, hi8 n, lo8 n] @ drop 3 (write_payload_buf s)) = Ret ?buf"
    using opened_sizes [OF assms(1)] assms(2,3) by (simp add: mem_write_def)
  have l: "length ?buf = 4099" using opened_sizes [OF assms(1)] assms(2,3) by simp
  obtain ok b t where t: "set_chip k (vd_sfd d) ?buf s = (ok, b, t)" by (metis surj_pair)
  have o1: "opened N t" "length b = 4099" using set_chip_opened [OF t assms(1)] unfolding l by simp_all
  have r: "mem_read (unat n) m = Ret (take (unat n) m)" using assms(3) by (simp add: mem_read_def)
  have "adsd3500_write_payload k m n s = (if \<not> ok then Ret (GENERIC_ERROR, t\<lparr>write_payload_buf := b\<rparr>)
      else Ret (OK, (snd (node k (Usleep 100000) t))\<lparr>write_payload_buf := b\<rparr>))"
    using d r w t by (simp add: adsd3500_write_payload_def)
  then show ?thesis using o1 by (cases ok) simp_all
qed

lemma write_payload_cmd_opened:
  assumes "opened N s" "unat n \<le> 4084" "unat n \<le> length m"
  shows "\<exists>r t. adsd3500_write_payload_cmd k cmd m n s = Ret (r, t) \<and> opened N t"
proof -
  obtain r0 s1 where s1: "adsd3500_write_cmd k 0x19 0 s = Ret (r0, s1)" "opened N s1" using write_cmd_opened [OF assms(1)] by blast
  obtain d where d: "dev_at 0 s1 = Ret d" using opened_dev [OF s1(2)] by blast
  have lh: "length (write_payload_header cmd n (write_payload_cmd_buf s1)) = 4099"
    using length_write_header opened_sizes(3) [OF s1(2)] by blast
  have r: "mem_read (unat n) m = Ret (take (unat n) m)" using assms(3) by (simp add: mem_read_def)
  obtain b where b: "mem_write 15 (take (unat n) m) (write_payload_header cmd n (write_payload_cmd_buf s1)) = Ret b"
    using lh assms(2,3) by (simp add: mem_write_def)
  then have lb: "length b = 4099" using mem_write_length lh by metis
  obtain ok b' t where t: "set_chip k (vd_sfd d) b s1 = (ok, b', t)" by (metis surj_pair)
  have o1: "opened N t" "length b' = 4099" using set_chip_opened [OF t s1(2)] lb by simp_all
  obtain ok2 b2 t2 where t2: "switch_back k (vd_sfd d) b' t = (ok2, b2, t2)" by (metis surj_pair)
  have o2: "opened N t2" "length b2 = 4099" using switch_back_opened [OF t2 o1] by simp_all
  show ?thesis
    using s1 d r b t o1 t2 o2 by (cases ok) (auto simp: adsd3500_write_payload_cmd_def burst_send_def)
qed

section \<open>The interface\<close>

lemma sixteen_fits: "n \<le> n + 16 \<Longrightarrow> unat (n + 16) \<le> 4096 \<Longrightarrow> unat n \<le> 4080" for n :: u16
proof -
  assume a: "n \<le> n + 16" "unat (n + 16) \<le> 4096"
  have "unat n \<le> unat (n + 16)" using a(1) by (simp add: word_le_nat_alt)
  moreover have "unat (n + 16) = (unat n + 16) mod 65536" by (simp add: unat_word_ariths)
  moreover have "unat n < 65536" by (rule unat_u16_bound)
  ultimately show ?thesis using a(2) by (cases "unat n + 16 < 65536") (simp_all add: mod_if)
qed

interpretation target: memory_safe "adsd3500_ops k adsd3030" "opened N" "\<lambda>n. unat n \<le> 4096" for k adsd3030 N
proof unfold_locales
  show "\<exists>r m' c'. ds_read_payload (adsd3500_ops k adsd3030) m n c = Ret (r, m', c') \<and> length m' = length m \<and> opened N c'"
    if "opened N c" "unat n \<le> 4096" "unat n \<le> length m" for c n m
    using read_payload_opened [OF that] by (simp add: adsd3500_ops_def)
  show "\<exists>r m' c'. ds_read_payload_cmd (adsd3500_ops k adsd3030) x m n c = Ret (r, m', c') \<and> length m' = length m \<and> opened N c'"
    if "opened N c" "unat n \<le> 4096" "max 1 (unat n) \<le> length m" for c n m x
    using read_payload_cmd_opened [OF that] by (simp add: adsd3500_ops_def)
  show "\<exists>r c'. ds_write_payload (adsd3500_ops k adsd3030) m n c = Ret (r, c') \<and> opened N c'"
    if "opened N c" "unat n \<le> 4096" "unat n \<le> length m" for c n m
    using write_payload_opened [OF that] by (simp add: adsd3500_ops_def)
  show "\<exists>r c'. ds_write_payload_cmd (adsd3500_ops k adsd3030) x m n c = Ret (r, c') \<and> opened N c'"
    if "opened N c" "unat (n + 16) \<le> 4096" "n \<le> n + 16" "unat n \<le> length m" for c n m x
    using write_payload_cmd_opened [OF that(1) _ that(4)] sixteen_fits [OF that(3,2)] by (simp add: adsd3500_ops_def)
  show "\<exists>r d' c'. ds_read_cmd (adsd3500_ops k adsd3030) a d u c = Ret (r, d', c') \<and> opened N c'" if "opened N c" for c a d u
    using read_cmd_opened [OF that] by (simp add: adsd3500_ops_def)
  show "\<exists>r c'. ds_write_cmd (adsd3500_ops k adsd3030) a d c = Ret (r, c') \<and> opened N c'" if "opened N c" for c a d
    using write_cmd_opened [OF that] by (simp add: adsd3500_ops_def)
qed

section \<open>Opening\<close>

lemma opened_at: "opened N s \<Longrightarrow> i < N \<Longrightarrow> \<exists>d. dev_at i s = Ret d \<and> dev_ok d"
  by (auto simp: opened_def dev_at_def)

lemma opened_set_dev: "opened N s \<Longrightarrow> dev_ok d \<Longrightarrow> opened N (set_dev i d s)"
  using set_update_subset_insert by (fastforce simp: opened_def set_dev_def full_buffers_def)

lemma opened_other [simp]:
  "opened N (s\<lparr>firstRun := b\<rparr>) = opened N s" "opened N (s\<lparr>s_fw_ver := v\<rparr>) = opened N s"
  "opened N (s\<lparr>ccbVersion := c\<rparr>) = opened N s" "opened N (s\<lparr>imagerType := i\<rparr>) = opened N s"
  "opened N (s\<lparr>controls := cs\<rparr>) = opened N s" "opened N (s\<lparr>availableTypes := ts\<rparr>) = opened N s"
  "opened N (s\<lparr>modes := m\<rparr>) = opened N s" "opened N (s\<lparr>adsd3500Queried := b\<rparr>) = opened N s"
  "opened N (s\<lparr>frameType := t\<rparr>) = opened N s" "opened N (s\<lparr>sensorFps := n\<rparr>) = opened N s"
  by (simp_all add: opened_def full_buffers_def)

lemma opened_reset [simp]: "opened N (snd (adsd3500_reset k s)) = opened N s"
  by (simp add: adsd3500_reset_def Let_def)

lemma check_chip_opened:
  "opened N s \<Longrightarrow> length buf = 32 \<Longrightarrow> \<exists>st' t. check_chip k n st chip buf s = Ret (st', t) \<and> opened N t"
proof (induction n arbitrary: st chip buf s)
  case (Suc n)
  obtain c chip' t where t: "adsd3500_read_cmd k 0x0112 chip 0 s = Ret (c, chip', t)" "opened N t"
    using read_cmd_opened [OF Suc.prems(1)] by blast
  have "unat (32 :: u16) \<le> 4096" "max 1 (unat (32 :: u16)) \<le> length buf" using Suc.prems(2) by simp_all
  from read_payload_cmd_opened [OF t(2) this]
  obtain d buf' u where u: "adsd3500_read_payload_cmd k 0x02 buf 32 t = Ret (d, buf', u)" "length buf' = length buf" "opened N u" by blast
  have "opened N (snd (adsd3500_reset k t))" "opened N (snd (adsd3500_reset k u))" using t(2) u(3) by simp_all
  then show ?case using t u Suc.IH Suc.prems(2) by simp
qed simp

lemma first_run_opened: "opened N s \<Longrightarrow> \<exists>r t. first_run k s = Ret (r, t) \<and> opened N t"
proof -
  assume a: "opened N s"
  have l: "length (1 # replicate 31 0 :: u8 list) = 32" by simp
  obtain c d t where "check_chip k 10 (GENERIC_ERROR, GENERIC_ERROR) 0 (1 # replicate 31 0) s = Ret ((c, d), t)" "opened N t"
    using check_chip_opened [OF a l] by (metis surj_pair)
  then show ?thesis using a by (auto simp: first_run_def)
qed

lemma dev_ok_fields [simp]:
  "dev_ok (d\<lparr>vd_fd := a\<rparr>) = dev_ok d" "dev_ok (d\<lparr>vd_sfd := b\<rparr>) = dev_ok d" "dev_ok (d\<lparr>videoBuffersType := c\<rparr>) = dev_ok d"
  "dev_ok (d\<lparr>vd_started := e\<rparr>) = dev_ok d" "dev_ok new_VideoDev"
  by (simp_all add: dev_ok_def buffers_def new_VideoDev_def)

lemma open_video_opened: "open_video k name c d s = (ok, d', t) \<Longrightarrow> opened N s \<Longrightarrow> opened N t \<and> dev_ok d' = dev_ok d"
  by (auto simp: open_video_def Let_def case_prod_unfold split: if_splits)

lemma open_subdev_opened: "open_subdev k name d s = (ok, d', t) \<Longrightarrow> opened N s \<Longrightarrow> opened N t \<and> dev_ok d' = dev_ok d"
  by (auto simp: open_subdev_def case_prod_unfold split: if_splits)

lemma open_devices_opened:
  assumes "\<forall>i\<in>set is. i < N \<and> i < length paths \<and> i < length subs \<and> i < length cards" "opened N s"
  shows "\<exists>r t. open_devices k (paths, subs, cards) is s = Ret (r, t) \<and> opened N t"
  using assms
proof (induction "is" arbitrary: s)
  case (Cons i "is")
  then have i: "at_throws i paths = Ret (paths ! i)" "at_throws i subs = Ret (subs ! i)" "at_throws i cards = Ret (cards ! i)"
    by (simp_all add: at_throws_def)
  obtain d where d: "dev_at i s = Ret d" "dev_ok d" using opened_at Cons.prems by fastforce
  obtain ok d1 t1 where t1: "(if hostConnectionType s \<noteq> USB then open_video k (paths ! i) (cards ! i) d s else (True, d, s)) = (ok, d1, t1)"
    by (metis surj_pair)
  have o1: "opened N t1" "dev_ok d1" using t1 open_video_opened Cons.prems(2) d(2) by (auto split: if_splits)
  obtain ok2 d2 t2 where t2: "open_subdev k (subs ! i) d1 t1 = (ok2, d2, t2)" by (metis surj_pair)
  have o2: "opened N (set_dev i d2 t2)" "opened N (set_dev i d1 t1)" using open_subdev_opened [OF t2 o1(1)] o1 opened_set_dev by simp_all
  obtain r u where u: "first_run k (set_dev i d2 t2) = Ret (r, u)" "opened N u" using first_run_opened [OF o2(1)] by blast
  obtain r' v where v: "open_devices k (paths, subs, cards) is u = Ret (r', v)" "opened N v"
    using Cons.IH [OF _ u(2)] Cons.prems(1) by auto
  show ?case using i d(1) t1 o1 t2 o2 u v by (cases ok; cases ok2; cases "r = OK") auto
qed simp

lemma version_read_opened [simp]: "opened N (version_read v s) = opened N s"
  by (simp add: version_read_def Let_def)

lemma set_mode_version_opened: "opened N (snd (set_mode_version n s)) = opened N s"
proof -
  have m: "opened N (snd (OK, t\<lparr>modes := m\<rparr>)) = opened N t" for t m by simp
  show ?thesis
  proof (cases "n = 0 \<or> n = 2")
    case True
    let ?s = "s\<lparr>ccbVersion := (if n = 0 then CCB_VERSION0 else CCB_VERSION1)\<rparr>"
    have o: "opened N ?s = opened N s" by simp
    show ?thesis
      unfolding set_mode_version_def Let_def if_P [OF True]
      by (cases "types_of n ?s") (simp_all only: option.case m o opened_other snd_conv)
  next
    case False
    show ?thesis unfolding set_mode_version_def Let_def if_not_P [OF False] m ..
  qed
qed

lemma set_mode_version_control:
  assumes "opened N s" "v = ''0'' \<or> v = ''2''"
  shows "\<exists>r t. setControl k ''modeInfoVersion'' v s = Ret (r, t) \<and> opened N t"
proof -
  let ?s = "s\<lparr>controls := map (\<lambda>(c, w). (c, if c = ''modeInfoVersion'' then v else w)) (controls s)\<rparr>"
  have "stoi ''0'' = Some 0" "stoi ''2'' = Some 2" 
    by (simp_all add: stoi_def sign_of_def is_space_def digit_def number_def)
  then obtain n where n: "stoi v = Some n" using assms(2) by blast
  obtain r t where t: "set_mode_version n ?s = (r, t)" by (cases "set_mode_version n ?s") blast
  have "opened N t" using set_mode_version_opened [of N n ?s] t assms(1) by simp
  then show ?thesis using n t assms(1) by (auto simp: setControl_def Let_def)
qed

lemma query_finish_opened: "opened N s \<Longrightarrow> \<exists>r t. query_finish k b s = Ret (r, t) \<and> opened N t"
proof -
  assume a: "opened N s"
  let ?s = "if imagerType s = IMAGER_UNKNOWN then s\<lparr>imagerType := (if b then IMAGER_ADSD3030 else IMAGER_ADSD3100)\<rparr> else s"
  have o: "opened N ?s" using a by simp
  obtain r0 t0 where t0: "setControl k ''modeInfoVersion'' ''0'' ?s = Ret (r0, t0)" "opened N t0"
    using set_mode_version_control [OF o] by blast
  obtain r2 t2 where t2: "setControl k ''modeInfoVersion'' ''2'' ?s = Ret (r2, t2)" "opened N t2"
    using set_mode_version_control [OF o] by blast
  show ?thesis using t0 t2 o by (cases "ccbVersion ?s") (simp_all add: query_finish_def Let_def)
qed

lemma query_opened: "opened N s \<Longrightarrow> \<exists>r t. queryAdsd3500 k b s = Ret (r, t) \<and> opened N t"
proof -
  assume a: "opened N s"
  have "unat (44 :: u16) \<le> 4096" "max 1 (unat (44 :: u16)) \<le> length (1 # replicate 43 0 :: u8 list)" by simp_all
  from read_payload_cmd_opened [OF a this]
  obtain g fw t where t: "adsd3500_read_payload_cmd k 0x05 (1 # replicate 43 0) 44 s = Ret (g, fw, t)" "opened N t" by blast
  let ?t = "t\<lparr>s_fw_ver := take 4 fw\<rparr>"
  obtain r v u where u: "adsd3500_read_cmd k 0x0032 0 0 ?t = Ret (r, v, u)" "opened N u"
    using read_cmd_opened [OF opened_other(2) [THEN iffD2, OF t(2)]] by blast
  have o: "opened N (if r = OK then version_read v u else u)" using u(2) by simp
  show ?thesis
    using t u query_finish_opened [OF a] query_finish_opened [OF o] query_finish_opened [of N ?t] unfolding queryAdsd3500_def
    by (simp add: Let_def)
qed

text \<open>The names of the devices match: there are as many paths and cards as sub-device paths.\<close>

definition names_match :: "nat \<Rightarrow> sensor \<Rightarrow> bool" where
  "names_match N s \<longleftrightarrow> length (splitIntoTokens CHR ''|'' (driverSubPath s)) = N \<and> 0 < N \<and> N < 256 \<and>
     N \<le> length (splitIntoTokens CHR ''|'' (driverPath s)) \<and> N \<le> length (splitIntoTokens CHR ''|'' (captureDev s))"

lemma sensor_open_opened:
  assumes "full_buffers s" "names_match N s"
  shows "\<exists>r t. sensor_open k b s = Ret (r, t) \<and> opened N t"
proof -
  let ?tok = "splitIntoTokens CHR ''|''"
  define s1 where "s1 = (if sa_ret (fst (node k Interrupts_Available s)) \<noteq> 0
      then snd (node k Subscribe_Sensor (snd (node k Interrupts_Available s))) else snd (node k Interrupts_Available s))"
  have f: "driverSubPath s1 = driverSubPath s" "driverPath s1 = driverPath s" "captureDev s1 = captureDev s" "full_buffers s1"
    using assms(1) by (simp_all add: s1_def node_def full_buffers_def)
  define s2 where "s2 = s1\<lparr>numVideoDevs := N, videoDevs := Some (replicate N new_VideoDev)\<rparr>"
  have o: "opened N s2" using f(4) assms(2) by (simp add: opened_def s2_def full_buffers_def names_match_def)
  have nn: "\<forall>i\<in>set [0..<N]. i < N \<and> i < length (?tok (driverPath s)) \<and> i < length (?tok (driverSubPath s)) \<and> i < length (?tok (captureDev s))"
    using assms(2) by (auto simp: names_match_def)
  obtain r t where t: "open_devices k (?tok (driverPath s), ?tok (driverSubPath s), ?tok (captureDev s)) [0..<N] s2 = Ret (r, t)" "opened N t"
    using open_devices_opened [OF nn o] by blast
  obtain r' u where u: "queryAdsd3500 k b t = Ret (r', u)" "opened N u" using query_opened [OF t(2)] by blast
  have n: "length (?tok (driverSubPath s)) mod 256 = N" using assms(2) by (simp add: names_match_def)
  have e: "sensor_open k b s =
      (case open_devices k (?tok (driverPath s1), ?tok (driverSubPath s1), ?tok (captureDev s1)) [0..<N] s2 of
           Fault \<Rightarrow> Fault
         | Ret (status, s) \<Rightarrow>
             if status \<noteq> OK then Ret (status, s)
             else if adsd3500Queried s then Ret (OK, s)
             else (case queryAdsd3500 k b s of
                     Fault \<Rightarrow> Fault
                   | Ret (status, s) \<Rightarrow> Ret (status, s\<lparr>adsd3500Queried := True\<rparr>)))"
    unfolding sensor_open_def s2_def case_prod_unfold Let_def s1_def [symmetric] f(1) n by (simp add: f(2,3))
  have "\<exists>r t. sensor_open k b s = Ret (r, t) \<and> opened N t"
    unfolding e f(1-3) t(1) using t(2) u by (cases "r = OK"; cases "adsd3500Queried t") simp_all
  then show ?thesis .
qed

section \<open>Releasing\<close>

text \<open>What a device holds, as it is given back.\<close>

definition gives_back :: "VideoDev \<Rightarrow> scall list" where
  "gives_back d = map (\<lambda>(a, l). Unmap_Buffer a l) (take (nVideoBuffers d) (buffers d)) @ [Free_Buffers] @
     (if vd_fd d \<noteq> -1 then [Close_Node (vd_fd d)] else []) @ (if vd_sfd d \<noteq> -1 then [Close_Node (vd_sfd d)] else [])"

lemma unmap_buffers_calls:
  "n \<le> length bs \<Longrightarrow> unmap_buffers k n bs s = Ret (s\<lparr>s_calls := s_calls s @ map (\<lambda>(a, l). Unmap_Buffer a l) (take n bs)\<rparr>)"
proof (induction bs arbitrary: n s)
  case (Cons b bs)
  then show ?case by (cases n; cases b) (simp_all add: node_def)
qed simp

lemma close_node_calls: "close_node k fd s = s\<lparr>s_calls := s_calls s @ (if fd \<noteq> -1 then [Close_Node fd] else [])\<rparr>"
  by (simp add: close_node_def node_def)

lemma close_devices_calls:
  assumes "videoDevs s = Some ds" "\<forall>i\<in>set is. i < length ds \<and> dev_ok (ds ! i)"
  shows "close_devices k is s = Ret (s\<lparr>s_calls := s_calls s @ concat (map (\<lambda>i. gives_back (ds ! i)) is)\<rparr>)"
  using assms
proof (induction "is" arbitrary: s)
  case (Cons i "is")
  have d: "dev_at i s = Ret (ds ! i)" using Cons.prems by (simp add: dev_at_def)
  have n: "nVideoBuffers (ds ! i) \<le> length (case videoBuffers (ds ! i) of None \<Rightarrow> [] | Some bs \<Rightarrow> bs)"
    using Cons.prems(2) by (simp add: dev_ok_def buffers_def)
  let ?t = "s\<lparr>s_calls := s_calls s @ gives_back (ds ! i)\<rparr>"
  have "close_devices k (i # is) s = close_devices k is ?t"
    using d unmap_buffers_calls [OF n] by (simp add: close_node_calls node_def gives_back_def buffers_def)
  also have "\<dots> = Ret (?t\<lparr>s_calls := s_calls ?t @ concat (map (\<lambda>i. gives_back (ds ! i)) is)\<rparr>)"
    using Cons.prems by (intro Cons.IH) simp_all
  finally show ?case by simp
qed simp

text \<open>Stopping changes the state of the streams only, with calls that stop them.\<close>

definition stops :: "sensor \<Rightarrow> sensor \<Rightarrow> bool" where
  "stops s t \<longleftrightarrow> (\<exists>w ds'. t = s\<lparr>s_calls := s_calls s @ w, videoDevs := ds'\<rparr> \<and>
     (\<forall>c\<in>set w. \<exists>fd ty. c = Ioctl fd (STREAMOFF ty)) \<and>
     map_option (map (\<lambda>d. d\<lparr>vd_started := False\<rparr>)) ds' = map_option (map (\<lambda>d. d\<lparr>vd_started := False\<rparr>)) (videoDevs s))"

lemma stops_refl [simp]: "stops s s"
  unfolding stops_def by (intro exI [of _ "[]"] exI [of _ "videoDevs s"]) simp

lemma stops_trans: "stops s t \<Longrightarrow> stops t u \<Longrightarrow> stops s u"
proof -
  assume "stops s t" "stops t u"
  then obtain w ds w' ds' where a: "t = s\<lparr>s_calls := s_calls s @ w, videoDevs := ds\<rparr>" "\<forall>c\<in>set w. \<exists>fd ty. c = Ioctl fd (STREAMOFF ty)"
      "map_option (map (\<lambda>d. d\<lparr>vd_started := False\<rparr>)) ds = map_option (map (\<lambda>d. d\<lparr>vd_started := False\<rparr>)) (videoDevs s)"
      "u = t\<lparr>s_calls := s_calls t @ w', videoDevs := ds'\<rparr>" "\<forall>c\<in>set w'. \<exists>fd ty. c = Ioctl fd (STREAMOFF ty)"
      "map_option (map (\<lambda>d. d\<lparr>vd_started := False\<rparr>)) ds' = map_option (map (\<lambda>d. d\<lparr>vd_started := False\<rparr>)) (videoDevs t)"
    by (auto simp: stops_def)
  show ?thesis unfolding stops_def using a by (intro exI [of _ "w @ w'"] exI [of _ ds']) auto
qed

lemma xioctl_calls: "\<exists>n. snd (xioctl k fd r s) = s\<lparr>s_calls := s_calls s @ replicate n (Ioctl fd r)\<rparr> \<and> n \<le> 3"
proof -
  have "\<exists>n. snd (xioctl_tries m k fd r s) = s\<lparr>s_calls := s_calls s @ replicate n (Ioctl fd r)\<rparr> \<and> n \<le> max 1 m" for m
  proof (induction m arbitrary: s)
    case 0
    show ?case by (intro exI [of _ 1]) (simp add: node_def)
  next
    case (Suc m)
    let ?s = "snd (node k (Ioctl fd r) s)"
    obtain n where n: "snd (xioctl_tries m k fd r ?s) = ?s\<lparr>s_calls := s_calls ?s @ replicate n (Ioctl fd r)\<rparr>" "n \<le> max 1 m"
      using Suc.IH by blast
    show ?case
    proof (cases "0 < m \<and> sa_ret (fst (node k (Ioctl fd r) s)) = -1 \<and> sa_errno (fst (node k (Ioctl fd r) s)) = 4")
      case True
      then show ?thesis using n by (intro exI [of _ "Suc n"]) (simp add: case_prod_unfold node_def replicate_append_same [symmetric])
    next
      case False
      then show ?thesis by (intro exI [of _ 1]) (auto simp: case_prod_unfold node_def)
    qed
  qed
  from this [of 3] show ?thesis by (simp add: xioctl_def)
qed

lemma stops_ioctl: "stops s (snd (xioctl k fd (STREAMOFF ty) s))"
proof -
  obtain n where "snd (xioctl k fd (STREAMOFF ty) s) = s\<lparr>s_calls := s_calls s @ replicate n (Ioctl fd (STREAMOFF ty))\<rparr>"
    using xioctl_calls by blast
  then show ?thesis unfolding stops_def by (intro exI [of _ "replicate n (Ioctl fd (STREAMOFF ty))"] exI [of _ "videoDevs s"]) simp
qed

lemma stops_set_dev:
  assumes "dev_at i s = Ret d"
  shows "stops s (set_dev i (d\<lparr>vd_started := False\<rparr>) s)"
proof -
  obtain ds where ds: "videoDevs s = Some ds" "i < length ds" "d = ds ! i"
    using assms by (auto simp: dev_at_def split: option.splits if_splits)
  have "map (\<lambda>d. d\<lparr>vd_started := False\<rparr>) (ds[i := d\<lparr>vd_started := False\<rparr>]) = map (\<lambda>d. d\<lparr>vd_started := False\<rparr>) ds"
    using ds(2,3) by (intro nth_equalityI) (auto simp: nth_list_update)
  then show ?thesis
    unfolding stops_def using ds(1) by (intro exI [of _ "[]"] exI [of _ "Some (ds[i := d\<lparr>vd_started := False\<rparr>])"]) (simp add: set_dev_def)
qed

lemma stops_devs:
  assumes "stops s t" "videoDevs s = Some ds"
  obtains ds' where "videoDevs t = Some ds'" "length ds' = length ds" "map gives_back ds' = map gives_back ds"
    "map dev_ok ds' = map dev_ok ds"
proof -
  obtain w x where t: "t = s\<lparr>s_calls := s_calls s @ w, videoDevs := x\<rparr>"
    "map_option (map (\<lambda>d. d\<lparr>vd_started := False\<rparr>)) x = map_option (map (\<lambda>d. d\<lparr>vd_started := False\<rparr>)) (Some ds)"
    using assms by (auto simp: stops_def)
  then obtain ds' where ds': "x = Some ds'" "map (\<lambda>d. d\<lparr>vd_started := False\<rparr>) ds' = map (\<lambda>d. d\<lparr>vd_started := False\<rparr>) ds"
    by (cases x) auto
  have r: "map f ds' = map f ds" if "\<And>d :: VideoDev. f (d\<lparr>vd_started := False\<rparr>) = f d" for f :: "VideoDev \<Rightarrow> 'x"
    using arg_cong [OF ds'(2), of "map f"] that by (simp add: comp_def)
  show ?thesis
  proof (rule that)
    show "videoDevs t = Some ds'" using t(1) ds'(1) by simp
    show "length ds' = length ds" using arg_cong [OF ds'(2), of length] by simp
    show "map gives_back ds' = map gives_back ds" by (rule r) (simp add: gives_back_def buffers_def)
    show "map dev_ok ds' = map dev_ok ds" by (rule r) simp
  qed
qed

lemma stops_opened: "stops s t \<Longrightarrow> opened N s \<Longrightarrow> opened N t"
proof -
  assume a: "stops s t" "opened N s"
  then obtain ds where ds: "videoDevs s = Some ds" "length ds = N" "\<forall>d\<in>set ds. dev_ok d" by (auto simp: opened_def)
  obtain ds' where ds': "videoDevs t = Some ds'" "length ds' = length ds" "map dev_ok ds' = map dev_ok ds"
    using stops_devs [OF a(1) ds(1)] by blast
  have "\<forall>d\<in>set ds'. dev_ok d" using ds(3) ds'(2,3) by (metis in_set_conv_nth nth_map nth_mem)
  moreover obtain w x where "t = s\<lparr>s_calls := w, videoDevs := x\<rparr>" using a(1) by (auto simp: stops_def)
  ultimately show ?thesis using a(2) ds(2) ds' by (auto simp: opened_def full_buffers_def)
qed

lemma stop_from_stops:
  "opened N s \<Longrightarrow> \<forall>i\<in>set is. i < N \<Longrightarrow> \<exists>r t. stop_from k is s = Ret (r, t) \<and> stops s t"
proof (induction "is" arbitrary: s)
  case (Cons i "is")
  obtain d where d: "dev_at i s = Ret d" using opened_at Cons.prems by fastforce
  let ?x = "xioctl k (vd_fd d) (STREAMOFF (videoBuffersType d)) s"
  have x: "stops s (snd ?x)" by (rule stops_ioctl)
  have "dev_at i (snd ?x) = Ret d" using d only_calls_xioctl [of s k "vd_fd d" "STREAMOFF (videoBuffersType d)"]
    by (auto simp: only_calls_def dev_at_def)
  from stops_trans [OF x stops_set_dev [OF this]]
  have y: "stops s (set_dev i (d\<lparr>vd_started := False\<rparr>) (snd ?x))" .
  obtain r t where t: "stop_from k is (set_dev i (d\<lparr>vd_started := False\<rparr>) (snd ?x)) = Ret (r, t)"
    "stops (set_dev i (d\<lparr>vd_started := False\<rparr>) (snd ?x)) t"
    using Cons.IH [OF stops_opened [OF y Cons.prems(1)]] Cons.prems(2) by auto
  show ?case using d x t stops_trans [OF y t(2)] by (auto simp: case_prod_unfold)
qed simp

lemma stop_running_stops:
  "opened N s \<Longrightarrow> \<forall>i\<in>set is. i < N \<Longrightarrow> \<exists>t. stop_running k is s = Ret t \<and> stops s t"
proof (induction "is" arbitrary: s)
  case (Cons i "is")
  obtain d where d: "dev_at i s = Ret d" using opened_at Cons.prems by fastforce
  have n: "numVideoDevs s = N" using Cons.prems(1) by (simp add: opened_def)
  obtain r t where t: "sensor_stop k s = Ret (r, t)" "stops s t"
    using stop_from_stops [OF Cons.prems(1), of "[0..<N]" k] n by (auto simp: sensor_stop_def)
  obtain u where u: "stop_running k is t = Ret u" "stops t u"
    using Cons.IH [OF stops_opened [OF t(2) Cons.prems(1)]] Cons.prems(2) by auto
  obtain v where v: "stop_running k is s = Ret v" "stops s v" using Cons.IH [OF Cons.prems(1)] Cons.prems(2) by auto
  show ?case using d t u v stops_trans [OF t(2) u(2)] by auto
qed simp

lemma sensor_delete_calls:
  assumes "opened N s" "videoDevs s = Some ds"
  obtains t w where "sensor_delete k s = Ret t" "s_calls t = s_calls s @ w @ concat (map gives_back ds)"
    "\<forall>c\<in>set w. \<exists>fd ty. c = Ioctl fd (STREAMOFF ty)" "opened N t"
    "driverPath t = driverPath s" "driverSubPath t = driverSubPath s" "captureDev t = captureDev s" "modes t = modes s"
proof -
  have n: "numVideoDevs s = N" "length ds = N" using assms by (auto simp: opened_def)
  obtain u where u: "stop_running k [0..<N] s = Ret u" "stops s u" using stop_running_stops [OF assms(1), of "[0..<N]"] by auto
  obtain w x where w: "u = s\<lparr>s_calls := s_calls s @ w, videoDevs := x\<rparr>" "\<forall>c\<in>set w. \<exists>fd ty. c = Ioctl fd (STREAMOFF ty)"
    using u(2) by (auto simp: stops_def)
  obtain ds' where ds': "videoDevs u = Some ds'" "length ds' = length ds" "map gives_back ds' = map gives_back ds"
    "map dev_ok ds' = map dev_ok ds" using stops_devs [OF u(2) assms(2)] by blast
  have ou: "opened N u" using stops_opened [OF u(2) assms(1)] .
  have ok: "\<forall>i\<in>set [0..<N]. i < length ds' \<and> dev_ok (ds' ! i)" using ou ds'(1,2) n by (auto simp: opened_def)
  have "map (\<lambda>i. gives_back (ds' ! i)) [0..<N] = map gives_back ds'"
    using arg_cong [OF map_nth [of ds'], of "map gives_back"] ds'(2) n by (simp add: comp_def)
  then have m: "map (\<lambda>i. gives_back (ds' ! i)) [0..<N] = map gives_back ds" using ds'(3) by simp
  let ?t = "u\<lparr>s_calls := s_calls u @ concat (map gives_back ds)\<rparr>"
  have nu: "numVideoDevs u = N" using ou by (simp add: opened_def)
  have "sensor_delete k s = Ret ?t"
    using u(1) n(1) nu close_devices_calls [OF ds'(1) ok, where k = k] m by (simp add: sensor_delete_def)
  moreover have "opened N ?t" using only_calls_opened [of u ?t] ou by (auto simp: only_calls_def)
  ultimately show ?thesis using that [of ?t w] w by simp
qed

section \<open>Setting the frame type\<close>

lemma unmap_checked_opened:
  "opened N s \<Longrightarrow> n \<le> length bs \<Longrightarrow> \<exists>ok t. unmap_checked k n bs s = Ret (ok, t) \<and> opened N t"
proof (induction bs arbitrary: n s)
  case (Cons b bs)
  let ?t = "snd (node k (Unmap_Buffer (fst b) (snd b)) s)"
  have o: "opened N ?t" using Cons.prems(1) by simp
  show ?case
  proof (cases n)
    case (Suc m)
    obtain ok u where "unmap_checked k m bs ?t = Ret (ok, u)" "opened N u" using Cons.IH [OF o, of m] Cons.prems(2) Suc by auto
    then show ?thesis using Suc o by (cases b) (auto simp: case_prod_unfold)
  qed (use Cons.prems in auto)
qed auto

lemma map_from_opened:
  assumes "opened N s" "videoBuffers d = Some bs" "nVideoBuffers d + left \<le> length bs"
  shows "\<exists>ok d' t. map_from k left d s = Ret (ok, d', t) \<and> dev_ok d' \<and> opened N t"
  using assms
proof (induction left arbitrary: d s bs)
  case 0
  then show ?case by (auto simp: dev_ok_def buffers_def)
next
  case (Suc left)
  obtain a s1 where a: "xioctl k (vd_fd d) (QUERYBUF (videoBuffersType d) (nVideoBuffers d)) s = (a, s1)" by fastforce
  obtain m s2 where m: "node k (Map_Buffer (vd_fd d) (sa_length a) (sa_offset a)) s1 = (m, s2)" by fastforce
  have o1: "opened N s1" using Suc.prems(1) a xioctl_opened by (metis snd_conv)
  have o2: "opened N s2" using o1 m node_opened by (metis snd_conv)
  let ?n = "nVideoBuffers d"
  let ?d = "d\<lparr>videoBuffers := Some (bs[?n := (sa_addr m, sa_length a)]), nVideoBuffers := ?n + 1\<rparr>"
  obtain ok d' t where r: "map_from k left ?d s2 = Ret (ok, d', t)" "dev_ok d'" "opened N t"
    using Suc.IH [OF o2, of ?d "bs[?n := (sa_addr m, sa_length a)]"] Suc.prems(3) by auto
  have lt: "\<not> length bs \<le> ?n" using Suc.prems(3) by simp
  have ok: "dev_ok d" "dev_ok (d\<lparr>videoBuffers := Some (bs[?n := x])\<rparr>)" for x
    using Suc.prems(2,3) by (simp_all add: dev_ok_def buffers_def)
  show ?case using a m o1 o2 r lt ok Suc.prems(2) by auto
qed

lemma set_up_buffers_opened:
  assumes "opened N s" "dev_ok d" "nVideoBuffers d = 0"
  shows "\<exists>r t. set_up_buffers k ty i d s = Ret (r, t) \<and> opened N t"
proof (cases "pixel_format (imagerType s) (ft_type ty) (abBits s)")
  case None
  then show ?thesis using assms opened_set_dev by (simp add: set_up_buffers_def)
next
  case (Some fmt)
  obtain w h where wh: "frame_dims (imagerType s) (abBits s) ty = (w, h)" by fastforce
  obtain a1 s1 where a1: "xioctl k (vd_fd d) (S_FMT (videoBuffersType d) fmt w h) s = (a1, s1)" by fastforce
  have o1: "opened N s1" using assms(1) a1 xioctl_opened by (metis snd_conv)
  obtain a2 s2 where a2: "xioctl k (vd_fd d) (REQBUFS (videoBuffersType d) (1 + EXTRA_BUFFERS_COUNT)) s1 = (a2, s2)" by fastforce
  have o2: "opened N s2" using o1 a2 xioctl_opened by (metis snd_conv)
  obtain a3 s3 where a3: "node k (Calloc_Buffers (sa_count a2)) s2 = (a3, s3)" by fastforce
  have o3: "opened N s3" using o2 a3 node_opened by (metis snd_conv)
  let ?d = "d\<lparr>videoBuffers := Some (replicate (sa_count a2) (0, 0)), nVideoBuffers := 0\<rparr>"
  obtain ok d' t where r: "map_from k (sa_count a2) ?d s3 = Ret (ok, d', t)" "dev_ok d'" "opened N t"
    using map_from_opened [OF o3, of ?d "replicate (sa_count a2) (0, 0)" "sa_count a2" k] by auto
  have "dev_ok (d\<lparr>videoBuffers := None\<rparr>)" using assms(3) by (simp add: dev_ok_def)
  then show ?thesis
    using Some wh a1 a2 a3 r o1 o2 o3 assms(2) opened_set_dev by (simp add: set_up_buffers_def)
qed

lemma set_up_device_opened:
  assumes "opened N s" "i < N"
  shows "\<exists>r t. set_up_device k ty i s = Ret (r, t) \<and> opened N t"
proof -
  obtain d where d: "dev_at i s = Ret d" "dev_ok d" using opened_at [OF assms] by blast
  have n: "nVideoBuffers d \<le> length (case videoBuffers d of None \<Rightarrow> [] | Some bs \<Rightarrow> bs)"
    using d(2) by (simp add: dev_ok_def buffers_def)
  obtain ok s1 where s1: "unmap_checked k (nVideoBuffers d) (case videoBuffers d of None \<Rightarrow> [] | Some bs \<Rightarrow> bs) s = Ret (ok, s1)" "opened N s1"
    using unmap_checked_opened [OF assms(1) n] by blast
  let ?s = "snd (node k Free_Buffers s1)" and ?d = "d\<lparr>videoBuffers := None, nVideoBuffers := 0\<rparr>"
  obtain a s2 where a: "xioctl k (vd_fd d) (REQBUFS (videoBuffersType d) 0) ?s = (a, s2)" by fastforce
  have o2: "opened N s2" using s1(2) a xioctl_opened node_opened by (metis snd_conv)
  have dk: "dev_ok ?d" by (simp add: dev_ok_def)
  obtain r t where r: "set_up_buffers k ty i ?d s2 = Ret (r, t)" "opened N t" using set_up_buffers_opened [OF o2 dk, of k ty i] by auto
  show ?thesis
  proof (cases "ft_type ty \<noteq> ft_type (frameType s)")
    case True
    then show ?thesis using d s1 a o2 dk r opened_set_dev by (cases ok) (simp_all add: set_up_device_def Let_def)
  next
    case False
    then show ?thesis using d set_up_buffers_opened [OF assms(1) d(2)] assms(1)
      by (cases "nVideoBuffers d = 0") (simp_all add: set_up_device_def)
  qed
qed

lemma set_up_devices_opened:
  "opened N s \<Longrightarrow> \<forall>i\<in>set is. i < N \<Longrightarrow> \<exists>r t. set_up_devices k ty is s = Ret (r, t) \<and> opened N t"
proof (induction "is" arbitrary: s)
  case (Cons i "is")
  obtain r t where t: "set_up_device k ty i s = Ret (r, t)" "opened N t" using set_up_device_opened [OF Cons.prems(1), of i k ty] Cons.prems(2) by auto
  obtain r' u where "set_up_devices k ty is t = Ret (r', u)" "opened N u" using Cons.IH [OF t(2)] Cons.prems(2) by auto
  then show ?case using t by (cases r) simp_all
qed simp

lemma setMode_opened: "opened N s \<Longrightarrow> \<exists>r t. setMode k m s = Ret (r, t) \<and> opened N t"
proof -
  assume a: "opened N s"
  obtain d where d: "dev_at 0 s = Ret d" using opened_dev [OF a] by blast
  have "\<exists>r t. setModeByIndex k i s = Ret (r, t) \<and> opened N t" for i
    using d a by (auto simp: setModeByIndex_def case_prod_unfold)
  then show ?thesis using a by (simp add: setMode_def split: prod.splits option.splits)
qed

lemma setFrameType_opened:
  assumes "opened N s" "names_match N s"
  shows "\<exists>r t. setFrameType k b ty s = Ret (r, t) \<and> opened N t"
proof -
  obtain ds where ds: "videoDevs s = Some ds" using assms(1) by (auto simp: opened_def)
  obtain t where t: "sensor_delete k s = Ret t" "opened N t" "names_match N t"
    using sensor_delete_calls [OF assms(1) ds] assms(2) unfolding names_match_def by metis
  have "full_buffers t" using t(2) by (simp add: opened_def)
  then obtain r u where u: "sensor_open k b t = Ret (r, u)" "opened N u" using sensor_open_opened [OF _ t(3)] by blast
  obtain r' v where v: "setMode k (ft_type ty) u = Ret (r', v)" "opened N v" using setMode_opened [OF u(2)] by blast
  have n: "numVideoDevs v = N" using v(2) by (simp add: opened_def)
  obtain r2 z where z: "set_up_devices k ty [0..<N] v = Ret (r2, z)" "opened N z" using set_up_devices_opened [OF v(2), of "[0..<N]" k ty] by auto
  show ?thesis
    using t u v z n by (cases "r = OK"; cases "r' = OK"; cases "hostConnectionType v = USB") (simp_all add: setFrameType_def)
qed

section \<open>Streaming\<close>

lemma queue_from_opened: "opened N s \<Longrightarrow> opened N (snd (queue_from k fd t is s))"
proof (induction "is" arbitrary: s)
  case (Cons i "is")
  have "opened N (snd (xioctl k fd (QBUF t i) s))" using Cons.prems by simp
  then show ?case using Cons.IH by (simp add: case_prod_unfold)
qed simp

lemma start_from_opened:
  "opened N s \<Longrightarrow> \<forall>i\<in>set is. i < N \<Longrightarrow> \<exists>r t. start_from k is s = Ret (r, t) \<and> opened N t"
proof (induction "is" arbitrary: s)
  case (Cons i "is")
  obtain d where d: "dev_at i s = Ret d" "dev_ok d" using opened_at Cons.prems by fastforce
  obtain ok s1 where s1: "queue_from k (vd_fd d) (videoBuffersType d) [0..<nVideoBuffers d] s = (ok, s1)" by fastforce
  have o1: "opened N s1" using queue_from_opened [OF Cons.prems(1)] s1 by (metis snd_conv)
  obtain a s2 where a: "xioctl k (vd_fd d) (STREAMON (videoBuffersType d)) s1 = (a, s2)" by fastforce
  have o2: "opened N s2" using o1 a xioctl_opened by (metis snd_conv)
  have "opened N (set_dev i (d\<lparr>vd_started := True\<rparr>) s2)" using opened_set_dev [OF o2] d(2) by simp
  then obtain r t where "start_from k is (set_dev i (d\<lparr>vd_started := True\<rparr>) s2) = Ret (r, t)" "opened N t"
    using Cons.IH Cons.prems(2) by fastforce
  then show ?case using d s1 o1 a o2 Cons.prems(1) by simp
qed simp

lemma start_opened: "opened N s \<Longrightarrow> \<exists>r t. sensor_start k s = Ret (r, t) \<and> opened N t"
  using start_from_opened [of N s "[0..<N]" k] by (auto simp: sensor_start_def opened_def)

lemma stop_opened: "opened N s \<Longrightarrow> \<exists>r t. sensor_stop k s = Ret (r, t) \<and> opened N t"
proof -
  assume a: "opened N s"
  then have n: "numVideoDevs s = N" by (simp add: opened_def)
  obtain r t where "stop_from k [0..<N] s = Ret (r, t)" "stops s t" using stop_from_stops [OF a, of "[0..<N]" k] by auto
  then show ?thesis using stops_opened [OF _ a] by (auto simp: sensor_stop_def n)
qed

text \<open>A frame is copied without a check: the destination must be as long as any mapped buffer.\<close>

lemma getFrame_opened:
  assumes "opened N s" "videoDevs s = Some ds" "\<forall>(a, l)\<in>set (buffers (hd ds)). l \<le> length buf"
  shows "\<exists>r buf' t. getFrame k buf s = Ret (r, buf', t) \<and> length buf' = length buf \<and> opened N t"
proof -
  have ne: "ds \<noteq> []" using assms(1,2) by (auto simp: opened_def)
  then have d: "dev_at 0 s = Ret (hd ds)" "dev_ok (hd ds)" using assms(1,2) by (auto simp: dev_at_def opened_def hd_conv_nth)
  let ?d = "hd ds"
  obtain r0 s0 where r0: "waitForBuffer k ?d s = (r0, s0)" by fastforce
  have o0: "opened N s0" using r0 assms(1) by (auto simp: waitForBuffer_def case_prod_unfold)
  obtain r1 a s1 where r1: "dequeueInternalBuffer k ?d s0 = (r1, a, s1)" by (cases "dequeueInternalBuffer k ?d s0") auto
  have o1: "opened N s1" using r1 o0 xioctl_opened [of N k "vd_fd ?d" "DQBUF (videoBuffersType ?d)" s0]
    by (auto simp: dequeueInternalBuffer_def case_prod_unfold)
  have b: "buffers ?d = (case videoBuffers ?d of None \<Rightarrow> [] | Some bs \<Rightarrow> bs)" by (simp add: buffers_def)
  have g: "\<exists>r bytes. getInternalBuffer a ?d = Ret (r, bytes) \<and> length bytes \<le> length buf"
  proof (cases "videoBuffers ?d")
    case (Some bs)
    have l: "nVideoBuffers ?d \<le> length bs" using d(2) Some b by (simp add: dev_ok_def)
    have "snd (bs ! sa_index a) \<le> length buf" if "sa_index a < nVideoBuffers ?d"
      using that l assms(3) Some b by (fastforce simp: case_prod_unfold)
    then show ?thesis using Some l by (auto simp: getInternalBuffer_def min_def)
  qed (simp add: getInternalBuffer_def)
  then obtain r2 bytes where r2: "getInternalBuffer a ?d = Ret (r2, bytes)" "length bytes \<le> length buf" by blast
  have w: "mem_write 0 bytes buf = Ret (bytes @ drop (length bytes) buf)" using r2(2) by (simp add: mem_write_def)
  obtain r3 s3 where r3: "enqueueInternalBuffer k a ?d s1 = (r3, s3)" by fastforce
  have o3: "opened N s3" using r3 o1 by (auto simp: enqueueInternalBuffer_def case_prod_unfold)
  show ?thesis using d r0 o0 r1 o1 r2 w r3 o3 by (simp add: getFrame_def)
qed

section \<open>Properties\<close>

text \<open>A sensor with one open device, for the examples.\<close>

definition one_device :: sensor where
  "one_device = (Adsd3500Sensor ''/dev/video0'' ''/dev/v4l-subdev1'' ''mxc-isi-cap'' ON_TARGET mode_start)
     \<lparr>videoDevs := Some [new_VideoDev\<lparr>vd_fd := 5, vd_sfd := 7, videoBuffers := Some [(4096, 10), (8192, 10)],
        nVideoBuffers := 1, videoBuffersType := 1, vd_started := True\<rparr>], imagerType := IMAGER_ADSD3100\<rparr>"

lemma one_device_opened: "opened 1 one_device"
  by (simp add: opened_def full_buffers_def one_device_def Adsd3500Sensor_def dev_ok_def buffers_def new_VideoDev_def)

lemma one_device_names: "names_match 1 one_device"
  by (simp add: names_match_def one_device_def Adsd3500Sensor_def)



text \<open>The length of a payload is not checked against the static buffers of 4099 bytes: sending one
  writes out of bounds exactly when it is longer than 4096 bytes, in burst mode longer than 4084.\<close>

theorem payload_bounds:
  assumes "opened N s" "unat n \<le> length m"
  shows "(adsd3500_write_payload k m n s = Fault \<longleftrightarrow> 4096 < unat n) \<and>
    (adsd3500_write_payload_cmd k c m n s = Fault \<longleftrightarrow> 4084 < unat n)"
proof (intro conjI)
  obtain d where d: "dev_at 0 s = Ret d" using opened_dev [OF assms(1)] by blast
  have r: "mem_read (unat n) m = Ret (take (unat n) m)" using assms(2) by (simp add: mem_read_def)
  have "adsd3500_write_payload k m n s = Fault" if "4096 < unat n"
    using that d r opened_sizes(4) [OF assms(1)] assms(2) by (simp add: adsd3500_write_payload_def mem_write_def)
  then show "adsd3500_write_payload k m n s = Fault \<longleftrightarrow> 4096 < unat n"
    using write_payload_opened [OF assms(1) _ assms(2), of k] by (cases "unat n \<le> 4096") auto
  obtain r0 s1 where s1: "adsd3500_write_cmd k 0x19 0 s = Ret (r0, s1)" "opened N s1" using write_cmd_opened [OF assms(1)] by blast
  obtain d1 where d1: "dev_at 0 s1 = Ret d1" using opened_dev [OF s1(2)] by blast
  have "length (write_payload_header c n (write_payload_cmd_buf s1)) = 4099"
    using length_write_header opened_sizes(3) [OF s1(2)] by blast
  then have "adsd3500_write_payload_cmd k c m n s = Fault" if "4084 < unat n"
    using that s1 d1 r assms(2) by (simp add: adsd3500_write_payload_cmd_def mem_write_def)
  then show "adsd3500_write_payload_cmd k c m n s = Fault \<longleftrightarrow> 4084 < unat n"
    using write_payload_cmd_opened [OF assms(1) _ assms(2), of k c] by (cases "unat n \<le> 4084") auto
qed

theorem payload_bounds_witness:
  "adsd3500_write_payload (\<lambda>_ _. undefined) (replicate 4097 0) 4097 one_device = Fault"
proof -
  have u: "unat (4097 :: u16) = 4097" by simp
  have l: "unat (4097 :: u16) \<le> length (replicate 4097 (0 :: u8))" unfolding u by (simp only: length_replicate le_refl)
  show ?thesis unfolding payload_bounds [OF one_device_opened l, THEN conjunct1] u by simp
qed

text \<open>The destructor, and setting a frame type before it opens the devices again, gives back
  what the devices hold, each mapping and each descriptor once, in the order of the devices, after
  nothing but calls that stop the streams.\<close>

theorem sensor_delete_releases:
  assumes "opened N s" "videoDevs s = Some ds"
  shows "\<exists>t w. sensor_delete k s = Ret t \<and> s_calls t = s_calls s @ w @ concat (map gives_back ds) \<and>
    (\<forall>c\<in>set w. \<exists>fd ty. c = Ioctl fd (STREAMOFF ty))"
  by (rule sensor_delete_calls [OF assms]) blast

theorem sensor_delete_releases_witness:
  "\<exists>t w. sensor_delete (\<lambda>_ _. undefined) one_device = Ret t \<and>
     s_calls t = w @ [Unmap_Buffer 4096 10, Free_Buffers, Close_Node 5, Close_Node 7] \<and>
     (\<forall>c\<in>set w. \<exists>fd ty. c = Ioctl fd (STREAMOFF ty))"
proof -
  obtain ds where ds: "videoDevs one_device = Some ds" "concat (map gives_back ds) = [Unmap_Buffer 4096 10, Free_Buffers, Close_Node 5, Close_Node 7]"
    "s_calls one_device = []"
    by (simp add: one_device_def Adsd3500Sensor_def gives_back_def buffers_def new_VideoDev_def)
  show ?thesis using sensor_delete_releases [OF one_device_opened ds(1)] unfolding ds(2,3) by simp
qed

text \<open>A frame type has a mode when its name is one of the table in use.\<close>

definition has_mode :: "sensor \<Rightarrow> DepthSensorFrameType \<Rightarrow> bool" where
  "has_mode s t \<longleftrightarrow> fst (convertCameraMode (ft_type t) (modes s)) = OK"

text \<open>After the version of the modes is set for a known imager, version 0 offers frame types that
  can all be set; version 2 offers seven of which \<^verbatim>\<open>sr-mixed\<close> and \<^verbatim>\<open>lr-mixed\<close> cannot; setting
  version 3 after it makes all of them possible. What is read back after 0 is 1, after 3 still 2.\<close>

theorem offered_types:
  assumes "imagerType s \<noteq> IMAGER_UNKNOWN"
  shows "(case set_mode_version 0 s of (r, t) \<Rightarrow> r = OK \<and> availableTypes t \<noteq> [] \<and> list_all (has_mode t) (availableTypes t) \<and>
      to_string (ccb_int (ccbVersion t)) = ''1'') \<and>
    (case set_mode_version 2 s of (r, t) \<Rightarrow> r = OK \<and> length (availableTypes t) = 7 \<and>
      map ft_type (filter (\<lambda>ty. \<not> has_mode t ty) (availableTypes t)) = [''sr-mixed'', ''lr-mixed''] \<and>
      (case set_mode_version 3 t of (r, u) \<Rightarrow> r = OK \<and> availableTypes u = availableTypes t \<and>
         list_all (has_mode u) (availableTypes u) \<and> to_string (ccb_int (ccbVersion u)) = ''2''))"
proof (intro conjI)
  note tables = has_mode_def convertCameraMode_def mode_table_def mode_row_def g_oldModes_def g_oldModesAdsd3030_def
    g_newModesAdsd3500_def g_newModesAdsd3030_def g_newMixedModesAdsd3500_def g_newMixedModesAdsd3030_def
    availableFrameTypes_def availableFrameTypesOld_def availableFrameTypesAdsd3030_def availableFrameTypesAdsd3030Old_def
    depth_type_def ir_type_def
  have d: "to_string 1 = ''1''" "to_string 2 = ''2''" by (simp_all add: to_string_def decimal.simps char_of_def bit_iff_odd)
  show "case set_mode_version 0 s of (r, t) \<Rightarrow> r = OK \<and> availableTypes t \<noteq> [] \<and> list_all (has_mode t) (availableTypes t) \<and>
      to_string (ccb_int (ccbVersion t)) = ''1''"
    using assms by (cases "imagerType s") (simp_all add: set_mode_version_def Let_def types_of_def setImagerTypeAndModeVersion_def tables d)
  show "case set_mode_version 2 s of (r, t) \<Rightarrow> r = OK \<and> length (availableTypes t) = 7 \<and>
      map ft_type (filter (\<lambda>ty. \<not> has_mode t ty) (availableTypes t)) = [''sr-mixed'', ''lr-mixed''] \<and>
      (case set_mode_version 3 t of (r, u) \<Rightarrow> r = OK \<and> availableTypes u = availableTypes t \<and>
         list_all (has_mode u) (availableTypes u) \<and> to_string (ccb_int (ccbVersion u)) = ''2'')"
    using assms by (cases "imagerType s") (simp_all add: set_mode_version_def Let_def types_of_def setImagerTypeAndModeVersion_def tables d)
qed

theorem offered_types_witness: "fst (set_mode_version 0 one_device) = OK"
  using offered_types [of one_device, THEN conjunct1] by (simp add: one_device_def case_prod_unfold)

end
