(* ===== verification/Sdk_Facts.thy ===== *)
theory Sdk_Facts
  imports Usb_Requests Sensor_Facts
begin

text \<open>
  Which requests the handler of \<open>Sdk_Interface\<close> survives, and what requests do to the storages; the
  frame types of a message are those that were put into it.
\<close>

section \<open>Requests with the parameters that the handler reads\<close>

text \<open>The length of a payload is the parameter, cut to 16 bits.\<close>

definition payload_len :: "ClientRequest \<Rightarrow> nat \<Rightarrow> u16" where
  "payload_len rq i = ucast (func_int32_param rq ! i)"

text \<open>
  The requests for which the handler is safe: they have the parameters that are read, as many bytes
  as are copied, and a payload that fits the sensor's buffers; in burst mode a payload to be read has
  at least the four bytes that are copied into its memory first. The names of the requests that do
  not use memory of the request come first.
\<close>

definition wf_request :: "ClientRequest \<Rightarrow> bool" where
  "wf_request rq =
     (let ints = func_int32_param rq; bytes = func_bytes_param rq in
      case func_name rq of
        SEARCH_SENSORS \<Rightarrow> True
      | ADSD3500_RESET \<Rightarrow> True
      | STORAGE_OPEN \<Rightarrow> True
      | STORAGE_CLOSE \<Rightarrow> True
      | Unknown_Function n \<Rightarrow> True
      | ADSD3500_READ_CMD \<Rightarrow> 2 \<le> length ints
      | ADSD3500_WRITE_CMD \<Rightarrow> ints \<noteq> [] \<and> bytes \<noteq> [] \<and> hd bytes \<noteq> []
      | ADSD3500_READ_PAYLOAD_CMD \<Rightarrow>
          2 \<le> length ints \<and> bytes \<noteq> [] \<and> 3 \<le> length (hd bytes) \<and>
          4 \<le> unat (payload_len rq 1) \<and> unat (payload_len rq 1) \<le> 4096
      | ADSD3500_READ_PAYLOAD \<Rightarrow> ints \<noteq> [] \<and> unat (payload_len rq 0) \<le> 4096
      | ADSD3500_WRITE_PAYLOAD_CMD \<Rightarrow>
          2 \<le> length ints \<and> bytes \<noteq> [] \<and> unat (payload_len rq 1) \<le> length (hd bytes) + 1 \<and>
          unat (payload_len rq 1) \<le> 4080
      | ADSD3500_WRITE_PAYLOAD \<Rightarrow>
          ints \<noteq> [] \<and> bytes \<noteq> [] \<and> unat (payload_len rq 0) \<le> length (hd bytes) + 1 \<and>
          unat (payload_len rq 0) \<le> 4096
      | _ \<Rightarrow> False)"

lemma param_0: "xs \<noteq> [] \<Longrightarrow> param xs 0 = Ret (hd xs)"
  by (simp add: param_def hd_conv_nth)

lemma param_at: "i < length xs \<Longrightarrow> param xs i = Ret (xs ! i)"
  by (simp add: param_def)

lemma two_params: "2 \<le> length xs \<Longrightarrow> param xs 0 = Ret (xs ! 0)" "2 \<le> length xs \<Longrightarrow> param xs 1 = Ret (xs ! 1)"
  by (auto simp: param_def)

lemma param_none: "length xs \<le> i \<Longrightarrow> param xs i = Fault"
  by (simp add: param_def)

lemma length_c_str [simp]: "length (c_str bs) = Suc (length bs)"
  by (simp add: c_str_def)

lemma length_fresh_bytes [simp]: "length (fresh_bytes heap n) = n"
  by (simp add: fresh_bytes_def)

text \<open>What a request leaves: the depth sensor as the operation left it, everything else but the flag.\<close>

definition only_sensor :: "('c, 'd) sdk \<Rightarrow> ('c, 'd) sdk \<Rightarrow> bool" where
  "only_sensor s t \<longleftrightarrow> depthSensors t = depthSensors s \<and> storages t = storages s \<and>
     temperatureSensors t = temperatureSensors s \<and> versions t = versions s"

lemma only_sensor_refl [simp]: "only_sensor s s"
  by (simp add: only_sensor_def)

lemma only_sensor_trans: "only_sensor s t \<Longrightarrow> only_sensor t u \<Longrightarrow> only_sensor s u"
  by (simp add: only_sensor_def)

lemma only_sensor_updates [simp]:
  "only_sensor s (s\<lparr>camDepthSensor := c\<rparr>)" "only_sensor s (s\<lparr>modeChanged := b\<rparr>)"
  by (simp_all add: only_sensor_def)

context memory_safe
begin

lemma read_cmd_served:
  assumes "ready (camDepthSensor s)" "2 \<le> length (func_int32_param rq)"
  shows "\<exists>p t. read_cmd_request ops heap rq s = Ret (p, t) \<and> ready (camDepthSensor t) \<and> only_sensor s t"
proof -
  note p = two_params [OF assms(2)]
  show ?thesis
    using read_cmd_safe [OF assms(1), of "ucast (func_int32_param rq ! 0)" "get16 (fresh_bytes heap 2) 0" "func_int32_param rq ! 1"] p
    by (auto simp: read_cmd_request_def)
qed

lemma write_cmd_served:
  assumes "ready (camDepthSensor s)" "func_int32_param rq \<noteq> []" "func_bytes_param rq \<noteq> []" "hd (func_bytes_param rq) \<noteq> []"
  shows "\<exists>p t. write_cmd_request ops rq s = Ret (p, t) \<and> ready (camDepthSensor t) \<and> only_sensor s t"
proof -
  let ?m = "c_str (hd (func_bytes_param rq))"
  have "2 \<le> length ?m" using assms(4) by (cases "hd (func_bytes_param rq)") simp_all
  then have m: "mem_read 2 ?m = Ret (take 2 ?m)" by (rule mem_read_fits)
  show ?thesis
    using write_cmd_safe [OF assms(1), of "ucast (hd (func_int32_param rq))" "get16 (take 2 ?m) 0"] m assms(2,3)
    by (auto simp: write_cmd_request_def param_0)
qed

lemma read_payload_cmd_served:
  assumes "ready (camDepthSensor s)" "2 \<le> length (func_int32_param rq)" "func_bytes_param rq \<noteq> []" "3 \<le> length (hd (func_bytes_param rq))"
    and "4 \<le> unat (payload_len rq 1)" "fits (payload_len rq 1)"
  shows "\<exists>p t. read_payload_cmd_request ops heap rq s = Ret (p, t) \<and> ready (camDepthSensor t) \<and> only_sensor s t"
proof -
  let ?m = "c_str (hd (func_bytes_param rq))" and ?n = "payload_len rq 1"
  note p = two_params [OF assms(2)]
  have m: "mem_read 4 ?m = Ret (take 4 ?m)" "length (take 4 ?m) = 4" using assms(4) by (simp_all add: mem_read_fits)
  let ?d = "take 4 ?m @ drop 4 (fresh_bytes heap (unat ?n))"
  have w: "mem_write 0 (take 4 ?m) (fresh_bytes heap (unat ?n)) = Ret ?d" using m(2) assms(5) by (simp add: mem_write_def)
  have l: "max 1 (unat ?n) \<le> length ?d" using m(2) assms(5) by simp
  show ?thesis
    using read_payload_cmd_safe [OF assms(1,6) l, of "func_int32_param rq ! 0"] p m(1) w assms(3)
    by (auto simp: read_payload_cmd_request_def param_0 payload_len_def)
qed

lemma read_payload_served:
  assumes "ready (camDepthSensor s)" "func_int32_param rq \<noteq> []" "fits (payload_len rq 0)"
  shows "\<exists>p t. read_payload_request ops heap rq s = Ret (p, t) \<and> ready (camDepthSensor t) \<and> only_sensor s t"
proof -
  have l: "unat (payload_len rq 0) \<le> length (fresh_bytes heap (unat (payload_len rq 0)))" by simp
  show ?thesis
    using read_payload_safe [OF assms(1,3) l] assms(2)
    by (auto simp: read_payload_request_def param_0 payload_len_def hd_conv_nth)
qed

lemma write_payload_cmd_served:
  assumes "ready (camDepthSensor s)" "2 \<le> length (func_int32_param rq)" "func_bytes_param rq \<noteq> []"
    and "unat (payload_len rq 1) \<le> length (hd (func_bytes_param rq)) + 1"
    and "fits (payload_len rq 1 + 16)" "payload_len rq 1 \<le> payload_len rq 1 + 16"
  shows "\<exists>p t. write_payload_cmd_request ops rq s = Ret (p, t) \<and> ready (camDepthSensor t) \<and> only_sensor s t"
proof -
  note p = two_params [OF assms(2)]
  have l: "unat (payload_len rq 1) \<le> length (c_str (hd (func_bytes_param rq)))" using assms(4) by simp
  show ?thesis
    using write_payload_cmd_safe [OF assms(1,5,6) l, of "func_int32_param rq ! 0"] p assms(3)
    by (auto simp: write_payload_cmd_request_def param_0 payload_len_def)
qed

lemma write_payload_served:
  assumes "ready (camDepthSensor s)" "func_int32_param rq \<noteq> []" "func_bytes_param rq \<noteq> []"
    and "unat (payload_len rq 0) \<le> length (hd (func_bytes_param rq)) + 1" "fits (payload_len rq 0)"
  shows "\<exists>p t. write_payload_request ops rq s = Ret (p, t) \<and> ready (camDepthSensor t) \<and> only_sensor s t"
proof -
  have l: "unat (payload_len rq 0) \<le> length (c_str (hd (func_bytes_param rq)))" using assms(4) by simp
  show ?thesis
    using write_payload_safe [OF assms(1,5) l] assms(2,3)
    by (auto simp: write_payload_request_def param_0 payload_len_def hd_conv_nth)
qed

text \<open>A provider whose payloads may have at most 4096 bytes survives all of them.\<close>

lemma wf_request_served:
  assumes "fits = (\<lambda>n. unat n \<le> 4096)" "ready (camDepthSensor s)" "wf_request rq"
  shows "\<exists>p t. serve_request ops sops heap rq s = Ret (p, t) \<and> ready (camDepthSensor t) \<and> only_sensor s t"
proof -
  have sixteen: "unat (n + 16) \<le> 4096 \<and> n \<le> n + 16" if "unat n \<le> 4080" for n :: u16
    using that by (simp add: word_le_nat_alt unat_word_ariths)
  show ?thesis
  proof (cases "func_name rq")
    case ADSD3500_READ_CMD
    then show ?thesis using read_cmd_served [OF assms(2)] assms(3) by (simp add: wf_request_def Let_def serve_request_def)
  next
    case ADSD3500_WRITE_CMD
    then show ?thesis using write_cmd_served [OF assms(2)] assms(3) by (simp add: wf_request_def Let_def serve_request_def)
  next
    case ADSD3500_READ_PAYLOAD_CMD
    then show ?thesis using read_payload_cmd_served [OF assms(2)] assms(3) by (simp add: wf_request_def Let_def serve_request_def assms(1))
  next
    case ADSD3500_READ_PAYLOAD
    then show ?thesis using read_payload_served [OF assms(2)] assms(3) by (simp add: wf_request_def Let_def serve_request_def assms(1))
  next
    case ADSD3500_WRITE_PAYLOAD_CMD
    then show ?thesis
      using write_payload_cmd_served [OF assms(2)] sixteen [of "payload_len rq 1"] assms(3) by (simp add: wf_request_def Let_def serve_request_def assms(1))
  next
    case ADSD3500_WRITE_PAYLOAD
    then show ?thesis using write_payload_served [OF assms(2)] assms(3) by (simp add: wf_request_def Let_def serve_request_def assms(1))
  qed (use assms(2,3) in \<open>simp_all add: wf_request_def Let_def serve_request_def\<close>)
qed

end

text \<open>A run of requests, handled one after the other.\<close>

fun serve_requests ::
  "'c depth_sensor_interface \<Rightarrow> 'd storage_interface \<Rightarrow> (nat \<Rightarrow> u8) \<Rightarrow> ClientRequest list \<Rightarrow> ('c, 'd) sdk \<Rightarrow>
   (ServerResponse list \<times> ('c, 'd) sdk) mem" where
  "serve_requests ops sops heap [] s = Ret ([], s)"
| "serve_requests ops sops heap (rq # rqs) s =
     (case serve_request ops sops heap rq s of Fault \<Rightarrow> Fault | Ret (p, s) \<Rightarrow>
      (case serve_requests ops sops heap rqs s of Fault \<Rightarrow> Fault | Ret (ps, s) \<Rightarrow> Ret (p # ps, s)))"

lemma requests_served:
  "opened N (camDepthSensor s) \<Longrightarrow> \<forall>rq\<in>set rqs. wf_request rq \<Longrightarrow>
    \<exists>ps t. serve_requests (adsd3500_ops k adsd3030) sops heap rqs s = Ret (ps, t) \<and> length ps = length rqs \<and>
      opened N (camDepthSensor t) \<and> only_sensor s t"
proof (induction rqs arbitrary: s)
  case (Cons rq rqs)
  obtain p u where u: "serve_request (adsd3500_ops k adsd3030) sops heap rq s = Ret (p, u)"
    "opened N (camDepthSensor u)" "only_sensor s u"
    using target.wf_request_served [OF refl Cons.prems(1)] Cons.prems(2) by fastforce
  then show ?case using Cons.IH [OF u(2)] Cons.prems(2) only_sensor_trans by fastforce
qed simp

section \<open>Closed storages\<close>

definition all_closed :: "('c, eeprom) sdk \<Rightarrow> bool" where
  "all_closed s \<longleftrightarrow> (\<forall>(name, e)\<in>set (storages s). \<not> ee_fd e)"

definition uses_storage :: "ClientRequest \<Rightarrow> bool" where
  "uses_storage rq \<longleftrightarrow> func_name rq \<in> {STORAGE_READ, STORAGE_WRITE, STORAGE_READ_CAPACITY}"

lemma closed_first:
  assumes "all_closed s" "param (storages s) 0 = Ret (name, e)"
  shows "\<not> ee_fd e" "(storages s)[0 := (name, e)] = storages s"
proof -
  have i: "0 < length (storages s)" "storages s ! 0 = (name, e)" using assms(2) by (simp_all add: param_def split: if_splits)
  then show "\<not> ee_fd e" using assms(1) by (metis (no_types, lifting) all_closed_def case_prodD nth_mem)
  show "(storages s)[0 := (name, e)] = storages s" using i by (metis list_update_id)
qed

lemma closed_storage_requests:
  assumes "all_closed s"
  shows "storage_read_request eeprom_ops heap rq s = Ret (p, t) \<Longrightarrow> t = s \<and> rp_status p \<noteq> OK"
    and "storage_write_request eeprom_ops rq s = Ret (p, t) \<Longrightarrow> t = s \<and> rp_status p \<noteq> OK"
    and "storage_capacity_request eeprom_ops s = Ret (p, t) \<Longrightarrow> t = s \<and> rp_status p \<noteq> OK"
  using closed_first [OF assms]
  by (auto simp: storage_read_request_def storage_write_request_def storage_capacity_request_def eeprom_ops_def
      Eeprom_read_def Eeprom_write_def Eeprom_getCapacity_def split: mem.splits)

lemma other_request_storages:
  assumes "serve_request ops sops heap rq s = Ret (p, t)" "\<not> uses_storage rq"
  shows "storages t = storages s"
  using assms
  by (auto simp: serve_request_def uses_storage_def read_registers_request_def write_registers_request_def
      read_cmd_request_def write_cmd_request_def read_payload_cmd_request_def read_payload_request_def
      write_payload_cmd_request_def write_payload_request_def split: FunctionName.splits mem.splits prod.splits)

lemma closed_served:
  assumes "all_closed s" "serve_request ops eeprom_ops heap rq s = Ret (p, t)"
  shows "storages t = storages s \<and> (uses_storage rq \<longrightarrow> rp_status p \<noteq> OK)"
proof (cases "uses_storage rq")
  case True
  then show ?thesis
    using closed_storage_requests(1) [OF assms(1), of heap rq p t] closed_storage_requests(2) [OF assms(1), of rq p t]
      closed_storage_requests(3) [OF assms(1), of p t] assms(2)
    by (auto simp: uses_storage_def serve_request_def)
next
  case False
  then show ?thesis using other_request_storages [OF assms(2)] by simp
qed

lemma closed_run:
  "all_closed s \<Longrightarrow> serve_requests ops eeprom_ops heap rqs s = Ret (ps, t) \<Longrightarrow>
    storages t = storages s \<and> list_all2 (\<lambda>rq p. uses_storage rq \<longrightarrow> rp_status p \<noteq> OK) rqs ps"
proof (induction rqs arbitrary: s ps)
  case (Cons rq rqs)
  obtain p u qs where u: "serve_request ops eeprom_ops heap rq s = Ret (p, u)" "serve_requests ops eeprom_ops heap rqs u = Ret (qs, t)"
    "ps = p # qs"
    using Cons.prems(2) by (auto split: mem.splits)
  note c = closed_served [OF Cons.prems(1) u(1)]
  have "all_closed u" using Cons.prems(1) c by (simp add: all_closed_def)
  then show ?case using Cons.IH u(2,3) c by simp
qed simp


section \<open>Frame types in messages\<close>

lemma contents_same: "map (\<lambda>c. \<lparr>fc_type = fc_type c, fc_width = fc_width c, fc_height = fc_height c\<rparr>) cs = cs"
proof -
  have "\<lparr>fc_type = fc_type c, fc_width = fc_width c, fc_height = fc_height c\<rparr> = c" for c by (cases c) simp
  then show ?thesis by (simp only: map_ident)
qed

lemma frame_type_same: "\<lparr>ft_type = ft_type t, ft_content = ft_content t, ft_width = ft_width t, ft_height = ft_height t\<rparr> = t"
  by (cases t) simp

lemma frame_type_back: "convertProtoMsgToDepthSensorFrameType (depthSensorFrameTypeToProtoMsg t no_frame_type_msg) empty_frame_type = t"
  by (simp add: convertProtoMsgToDepthSensorFrameType_def depthSensorFrameTypeToProtoMsg_def no_frame_type_msg_def
      empty_frame_type_def o_def contents_same frame_type_same)

lemma frame_types_back: "protoMsgToDepthSensorFrameTypes (convertDepthSensorFrameTypesToProtoMsg ts) = ts"
  by (simp add: protoMsgToDepthSensorFrameTypes_def convertDepthSensorFrameTypesToProtoMsg_def o_def contents_same frame_type_same)

section \<open>Properties\<close>

text \<open>A sensor of the SDK with one open device and no storage, for the examples.\<close>

definition no_versions :: CardImageVersion where
  "no_versions = \<lparr>kernelversion = [], sdversion = [], ubootversion = []\<rparr>"

definition sample_sdk :: "'c \<Rightarrow> (string \<times> eeprom) list \<Rightarrow> ('c, eeprom) sdk" where
  "sample_sdk c sts = \<lparr>depthSensors = 1, camDepthSensor = c, storages = sts, temperatureSensors = [],
     versions = no_versions, modeChanged = False\<rparr>"



text \<open>C22: Requests that lack what the handler reads are memory errors: the payload that is asked for in
  burst mode with fewer than four bytes, although any such length is accepted from the host; a payload to be
  written without bytes, which is what the host sends to read one; one longer than the bytes that come with
  it; and a storage when there is none.\<close>

theorem handler_faults:
  fixes n :: u16
  shows "(unat n < 4 \<longrightarrow> length first = 4 \<longrightarrow> serve_request ops sops heap (read_payload_cmd_msg cmd first n) s = Fault) \<and>
    serve_request ops sops heap (read_payload_msg n) s = Fault \<and>
    (length bytes + 1 < unat n \<longrightarrow>
      serve_request (adsd3500_ops k adsd3030) sops heap (write_payload_msg bytes n) s' = Fault) \<and>
    (storages s = [] \<longrightarrow> uses_storage rq \<longrightarrow> serve_request ops sops heap rq s = Fault)"
proof (intro conjI impI)
  have c: "ucast (ucast n :: u32) = n" by (rule bit_word_eqI) (simp add: bit_simps)
  show "serve_request ops sops heap (read_payload_cmd_msg cmd first n) s = Fault" if "unat n < 4" "length first = 4"
  proof -
    have "mem_read 4 (c_str first) = Ret first" using that(2) by (simp add: mem_read_def c_str_def)
    moreover have "mem_write 0 first (fresh_bytes heap (unat n)) = Fault" using that by (simp add: mem_write_def)
    ultimately show ?thesis
      by (simp add: serve_request_def read_payload_cmd_request_def read_payload_cmd_msg_def param_def c)
  qed
  show "serve_request ops sops heap (read_payload_msg n) s = Fault"
    by (simp add: serve_request_def write_payload_request_def read_payload_msg_def param_def new_request_def)
  show "serve_request (adsd3500_ops k adsd3030) sops heap (write_payload_msg bytes n) s' = Fault" if "length bytes + 1 < unat n"
  proof -
    have "mem_read (unat n) (c_str bytes) = Fault" using that by (simp add: mem_read_def)
    then have "adsd3500_write_payload k (c_str bytes) n (camDepthSensor s') = Fault"
      by (cases "dev_at 0 (camDepthSensor s')") (simp_all add: adsd3500_write_payload_def)
    then show ?thesis
      by (simp add: serve_request_def write_payload_request_def write_payload_msg_def param_def c adsd3500_ops_def)
  qed
  show "serve_request ops sops heap rq s = Fault" if "storages s = []" "uses_storage rq"
    using that
    by (auto simp: uses_storage_def serve_request_def storage_read_request_def storage_write_request_def
        storage_capacity_request_def param_def split: mem.splits)
qed

theorem handler_faults_witness:
  "serve_request (adsd3500_ops (\<lambda>_ _. undefined) False) eeprom_ops (\<lambda>_. 0) (read_payload_cmd_msg 0x13 [1, 0, 0, 0] 2)
     (sample_sdk one_device []) = Fault"
proof -
  have "unat (2 :: u16) < 4" "length [1, 0, 0, 0 :: u8] = 4" by simp_all
  then show ?thesis using handler_faults by blast
qed

text \<open>No request opens a storage: when those that were found are closed, as they are when the SDK starts, every
  request to read, write or measure one fails, and the storages are as they were after any run of requests,
  requests to open them included.\<close>

theorem storages_stay_closed:
  assumes "all_closed s" "serve_requests ops eeprom_ops heap rqs s = Ret (ps, t)"
  shows "storages t = storages s \<and> list_all2 (\<lambda>rq p. uses_storage rq \<longrightarrow> rp_status p \<noteq> OK) rqs ps"
  by (rule closed_run [OF assms])

definition closed_eeprom :: eeprom where
  "closed_eeprom = \<lparr>ee_fd = False, ee_length = 4, ee_medium = [1, 2, 3, 4], ee_name = ''eeprom''\<rparr>"

theorem storages_stay_closed_witness:
  "\<exists>p1 p2 t. serve_requests (adsd3500_ops (\<lambda>_ _. undefined) False) eeprom_ops (\<lambda>_. 0)
       [new_request\<lparr>func_name := STORAGE_OPEN\<rparr>, storage_read_msg 0 [0, 0] 2] (sample_sdk one_device [(''eeprom'', closed_eeprom)]) =
     Ret ([p1, p2], t) \<and> rp_status p1 = OK \<and> rp_status p2 \<noteq> OK"
proof -
  let ?rqs = "[new_request\<lparr>func_name := STORAGE_OPEN\<rparr>, storage_read_msg 0 [0, 0] 2]"
  let ?s = "sample_sdk one_device [(''eeprom'', closed_eeprom)]"
  have c: "all_closed ?s" by (simp add: all_closed_def sample_sdk_def closed_eeprom_def)
  obtain p1 p2 t where r: "serve_requests (adsd3500_ops (\<lambda>_ _. undefined) False) eeprom_ops (\<lambda>_. 0) ?rqs ?s = Ret ([p1, p2], t)"
    "rp_status p1 = OK"
    by (simp add: serve_request_def storage_read_request_def storage_read_msg_def param_def new_bytes_def sample_sdk_def
        closed_eeprom_def eeprom_ops_def Eeprom_read_def)
  from storages_stay_closed [OF c r(1)] r show ?thesis by (simp add: uses_storage_def storage_read_msg_def)
qed

text \<open>A frame type that the host sends is the one that the target sets, and the types that the target
  offers are those the host has, whatever their contents.\<close>

theorem frame_types_roundtrip:
  "convertProtoMsgToDepthSensorFrameType (frame_type (frame_type_request ty)) empty_frame_type = ty \<and>
   protoMsgToDepthSensorFrameTypes (convertDepthSensorFrameTypesToProtoMsg ts) = ts"
  by (simp add: frame_type_back frame_types_back frame_type_request_def)

text \<open>The handler takes a request only up to its first zero byte: bytes from there on change nothing.\<close>

theorem request_cut_at_zero:
  "handleClientRequest parse ser ops sops heap (xs @ 0 # ys) s = handleClientRequest parse ser ops sops heap xs s"
proof -
  have "takeWhile (\<lambda>b. b \<noteq> 0) ((xs @ 0 # ys) @ [0]) = takeWhile (\<lambda>b. b \<noteq> 0) (xs @ [0])" by (induction xs) simp_all
  then show ?thesis by (simp add: handleClientRequest_def)
qed

end
