(* ===== verification/Sensor_Driver.thy ===== *)
theory Sensor_Driver
  imports Adsd3500_Sensor Adsd3500_Facts
begin

text \<open>
  The commands of the sensor on the bus: what \<^verbatim>\<open>adsd3500_sensor.cpp\<close> writes to the control for the chip
  configuration, put through the driver's handler of that control in \<open>Adsd3500_Driver\<close>.
\<close>

section \<open>The control framework\<close>

text \<open>
  Between the two is the kernel's framework for controls. It calls the driver's handler only when
  the new value of the control differs from the current one, makes the new value the current one
  when the handler succeeds, and hands it back; an error is returned as \<open>-1\<close> with \<^verbatim>\<open>errno\<close>. \<open>st\<close> is
  the current value and the state of the driver after a history of calls.
\<close>

definition chip_ctrl :: "u8 list \<Rightarrow> v4l2_ctrl" where
  "chip_ctrl buf = \<lparr>ctrl_id = V4L2_CID_ADSD3500_CHIP_CONFIG, ctrl_val = 0, p_new = buf\<rparr>"

definition chip_framework ::
  "kernel \<Rightarrow> int \<Rightarrow> (scall list \<Rightarrow> u8 list \<times> adsd3500) \<Rightarrow> senv \<Rightarrow> bool" where
  "chip_framework dk fd st k \<longleftrightarrow>
     (\<forall>w buf. length buf = 4099 \<and> buf \<noteq> fst (st w) \<longrightarrow>
        (let c = Ioctl fd (S_EXT_CTRLS V4L2_CID_AD_DEV_CHIP_CONFIG buf) in
         case adsd3500_s_ctrl dk (chip_ctrl buf) (snd (st w)) of ((r, ctrl), d) \<Rightarrow>
           if r < 0 then sa_ret (k w c) = -1 \<and> sa_errno (k w c) = - r \<and> sa_bytes (k w c) = [] \<and> st (w @ [c]) = (fst (st w), d)
           else sa_ret (k w c) = 0 \<and> sa_bytes (k w c) = p_new ctrl \<and> st (w @ [c]) = (p_new ctrl, d))) \<and>
     (\<forall>w buf. let c = Ioctl fd (G_EXT_CTRLS V4L2_CID_AD_DEV_CHIP_CONFIG buf) in
        sa_ret (k w c) = 0 \<and> sa_bytes (k w c) = fst (st w) \<and> st (w @ [c]) = st w) \<and>
     (\<forall>w n. st (w @ [Usleep n]) = st w)"

text \<open>A receiving transfer that succeeds fills what it was asked for.\<close>

definition bus_fills :: "kernel \<Rightarrow> bool" where
  "bus_fills dk \<longleftrightarrow> (\<forall>h n. 0 \<le> rc (env dk h (I2c_Master_Recv n)) \<longrightarrow> length (rdata (env dk h (I2c_Master_Recv n))) = n)"

lemma node_calls [simp]: "s_calls (snd (node k c s)) = s_calls s @ [c]"
  by (simp add: node_def)

lemma xioctl_once:
  assumes "sa_ret (k (s_calls s) (Ioctl fd r)) = -1 \<longrightarrow> sa_errno (k (s_calls s) (Ioctl fd r)) \<noteq> 4"
  shows "xioctl k fd r s = node k (Ioctl fd r) s"
  using assms by (auto simp: xioctl_def numeral_3_eq_3 node_def)

lemma chip_ctrl_handler: "adsd3500_s_ctrl dk (chip_ctrl buf) d = adsd3500_chip_config dk (chip_ctrl buf) d"
  by (simp add: adsd3500_s_ctrl_def chip_ctrl_def)

lemma framework_set:
  fixes w :: "scall list" and buf :: "u8 list"
  assumes "chip_framework dk fd st k" "length buf = 4099" "buf \<noteq> fst (st w)"
  defines "c \<equiv> Ioctl fd (S_EXT_CTRLS V4L2_CID_AD_DEV_CHIP_CONFIG buf)"
  shows "case adsd3500_chip_config dk (chip_ctrl buf) (snd (st w)) of ((r, ctrl), d) \<Rightarrow>
    if r < 0 then sa_ret (k w c) = -1 \<and> sa_errno (k w c) = - r \<and> sa_bytes (k w c) = [] \<and> st (w @ [c]) = (fst (st w), d)
    else sa_ret (k w c) = 0 \<and> sa_bytes (k w c) = p_new ctrl \<and> st (w @ [c]) = (p_new ctrl, d)"
proof -
  have "length buf = 4099 \<and> buf \<noteq> fst (st w)" using assms(2,3) by blast
  from assms(1) [unfolded chip_framework_def Let_def chip_ctrl_handler, THEN conjunct1, THEN spec [of _ w], THEN spec [of _ buf],
      THEN mp, OF this]
  show ?thesis unfolding c_def .
qed

text \<open>How setting the control ends when the handler answers.\<close>

lemma set_chip_by_handler:
  assumes "chip_framework dk fd st k" "length buf = 4099" "buf \<noteq> fst (st (s_calls s))"
    and "adsd3500_chip_config dk (chip_ctrl buf) (snd (st (s_calls s))) = ((r, ctrl), d)"
    and "r = 0 \<or> r = - EIO \<or> r = - EINVAL" "length (p_new ctrl) = 4099"
  shows "\<exists>t. set_chip k fd buf s = (r = 0, if r = 0 then p_new ctrl else buf, t) \<and>
    st (s_calls t) = (if r = 0 then p_new ctrl else fst (st (s_calls s)), d) \<and> t = s\<lparr>s_calls := s_calls t\<rparr>"
proof -
  let ?c = "Ioctl fd (S_EXT_CTRLS V4L2_CID_AD_DEV_CHIP_CONFIG buf)"
  let ?t = "s\<lparr>s_calls := s_calls s @ [?c]\<rparr>"
  note f = framework_set [OF assms(1-3), unfolded assms(4) prod.case]
  have "xioctl k fd (S_EXT_CTRLS V4L2_CID_AD_DEV_CHIP_CONFIG buf) s = (k (s_calls s) ?c, ?t)"
    using f assms(5) by (subst xioctl_once) (auto simp: node_def)
  then show ?thesis
    using f assms(2,5,6) by (intro exI [of _ ?t]) (auto simp: set_chip_def put_back_def)
qed

lemma get_chip_by_framework:
  assumes "chip_framework dk fd st k" "length (fst (st (s_calls s))) = length buf"
  shows "\<exists>t. get_chip k fd buf s = (True, fst (st (s_calls s)), t) \<and> st (s_calls t) = st (s_calls s) \<and>
    t = s\<lparr>s_calls := s_calls t\<rparr>"
proof -
  let ?c = "Ioctl fd (G_EXT_CTRLS V4L2_CID_AD_DEV_CHIP_CONFIG buf)"
  let ?t = "s\<lparr>s_calls := s_calls s @ [?c]\<rparr>"
  have f: "sa_ret (k (s_calls s) ?c) = 0" "sa_bytes (k (s_calls s) ?c) = fst (st (s_calls s))"
    "st (s_calls s @ [?c]) = st (s_calls s)"
    using assms(1) unfolding chip_framework_def Let_def by blast+
  have "xioctl k fd (G_EXT_CTRLS V4L2_CID_AD_DEV_CHIP_CONFIG buf) s = (k (s_calls s) ?c, ?t)"
    using f by (subst xioctl_once) (auto simp: node_def)
  then show ?thesis
    using f assms(2) by (intro exI [of _ ?t]) (auto simp: get_chip_def put_back_def)
qed

section \<open>Single transfers\<close>

text \<open>The size that a packet for the control states.\<close>

definition stated :: "u8 list \<Rightarrow> nat" where
  "stated buf = unat (buf ! 1) * 256 + unat (buf ! 2)"

lemma stated_size: "unat (pld_size_of buf) = stated buf"
  by (simp add: pld_size_unat stated_def)

lemma set_chip_send:
  fixes s :: sensor and st :: "scall list \<Rightarrow> u8 list \<times> adsd3500"
  assumes "chip_framework dk fd st k" "length buf = 4099" "buf ! 0 = 1" "2 \<le> stated buf" "stated buf \<le> 4096"
    and "fst (st (s_calls s)) ! 0 \<noteq> 1"
  defines "d \<equiv> snd (st (s_calls s))" and "c \<equiv> I2c_Master_Send (take (stated buf) (drop 3 buf))"
  defines "ok \<equiv> 0 \<le> rc (env dk (calls d) c)"
  shows "\<exists>t. set_chip k fd buf s = (ok, if ok then buf[0 := 0xFF] else buf, t) \<and>
    st (s_calls t) = (if ok then buf[0 := 0xFF] else fst (st (s_calls s)), d\<lparr>calls := calls d @ [c]\<rparr>) \<and>
    t = s\<lparr>s_calls := s_calls t\<rparr>"
proof -
  have ne: "buf \<noteq> fst (st (s_calls s))" using assms(3,6) by metis
  have "adsd3500_chip_config dk (chip_ctrl buf) d =
      ((if ok then 0 else - EIO, chip_ctrl (if ok then buf[0 := 0xFF] else buf)), d\<lparr>calls := calls d @ [c]\<rparr>)"
    using assms(2-5) by (auto simp: adsd3500_chip_config_def chip_ctrl_def Let_def stated_size call_def ok_def c_def)
  from set_chip_by_handler [OF assms(1,2) ne, folded d_def, OF this] assms(2) show ?thesis
    by (auto simp: chip_ctrl_def)
qed

lemma set_chip_receive:
  fixes s :: sensor and st :: "scall list \<Rightarrow> u8 list \<times> adsd3500"
  assumes "chip_framework dk fd st k" "length buf = 4099" "buf ! 0 = 0" "2 \<le> stated buf" "stated buf \<le> 4096"
    and "fst (st (s_calls s)) \<noteq> buf" "bus_fills dk"
  defines "d \<equiv> snd (st (s_calls s))" and "c \<equiv> I2c_Master_Recv (stated buf)"
  defines "ok \<equiv> 0 \<le> rc (env dk (calls d) c)" and "got \<equiv> rdata (env dk (calls d) c)"
  shows "\<exists>t. set_chip k fd buf s = (ok, if ok then 0xFF # take 2 (drop 1 buf) @ got @ drop (3 + stated buf) buf else buf, t) \<and>
    (ok \<longrightarrow> length got = stated buf) \<and>
    st (s_calls t) = (if ok then 0xFF # take 2 (drop 1 buf) @ got @ drop (3 + stated buf) buf else fst (st (s_calls s)),
      d\<lparr>calls := calls d @ [c]\<rparr>) \<and>
    t = s\<lparr>s_calls := s_calls t\<rparr>"
proof -
  have l: "ok \<longrightarrow> length got = stated buf" using assms(7) by (simp add: bus_fills_def ok_def got_def c_def)
  have "3 \<le> length buf" using assms(2) by simp
  then obtain x y z rest where b: "buf = x # y # z # rest" by (auto simp: Suc_le_length_iff numeral_3_eq_3)
  let ?q = "0xFF # take 2 (drop 1 buf) @ got @ drop (3 + stated buf) buf"
  have "adsd3500_chip_config dk (chip_ctrl buf) d =
      ((if ok then 0 else - EIO, chip_ctrl (if ok then ?q else buf)), d\<lparr>calls := calls d @ [c]\<rparr>)"
    using assms(2-5) l
    by (auto simp: adsd3500_chip_config_def chip_ctrl_def Let_def stated_size call_def ok_def c_def got_def b numeral_2_eq_2 numeral_3_eq_3)
  moreover have "length (if ok then ?q else buf) = 4099" using assms(2,5) l by auto
  ultimately show ?thesis
    using set_chip_by_handler [OF assms(1,2) assms(6) [symmetric], folded d_def, of "if ok then 0 else - EIO" "chip_ctrl (if ok then ?q else buf)"]
    using l by (auto simp: chip_ctrl_def)
qed

section \<open>Sequences of transfers\<close>

text \<open>
  What a command promises: transfers on the bus one after the other, up to the first that fails.
\<close>

fun transfers :: "kernel \<Rightarrow> call list \<Rightarrow> adsd3500 \<Rightarrow> bool \<times> adsd3500" where
  "transfers dk [] d = (True, d)"
| "transfers dk (c # cs) d =
     (if 0 \<le> rc (env dk (calls d) c) then transfers dk cs (d\<lparr>calls := calls d @ [c]\<rparr>)
      else (False, d\<lparr>calls := calls d @ [c]\<rparr>))"

abbreviation bus :: "(scall list \<Rightarrow> u8 list \<times> adsd3500) \<Rightarrow> sensor \<Rightarrow> adsd3500" where
  "bus st s \<equiv> snd (st (s_calls s))"

text \<open>
  A sensor whose first device is open on the driver: the static buffers have their size, and the
  control does not hold a packet that was never handed to the driver.
\<close>

definition static_buffers :: "sensor \<Rightarrow> bool" where
  "static_buffers s \<longleftrightarrow> length (read_cmd_buf s) = 4099 \<and> length (write_cmd_buf s) = 4099 \<and>
     length (write_payload_cmd_buf s) = 4099 \<and> length (write_payload_buf s) = 4099 \<and>
     take 4 (drop 7 (write_payload_cmd_buf s)) = [0, 0, 0, 0]"

definition on_bus ::
  "kernel \<Rightarrow> (scall list \<Rightarrow> u8 list \<times> adsd3500) \<Rightarrow> senv \<Rightarrow> int \<Rightarrow> sensor \<Rightarrow> bool" where
  "on_bus dk st k fd s \<longleftrightarrow> chip_framework dk fd st k \<and> bus_fills dk \<and>
     (\<exists>dev. dev_at 0 s = Ret dev \<and> vd_sfd dev = fd) \<and> static_buffers s \<and>
     length (fst (st (s_calls s))) = 4099 \<and> fst (st (s_calls s)) ! 0 \<noteq> 1"

lemma dev_at_frame [simp]:
  "dev_at i (s\<lparr>s_calls := w\<rparr>) = dev_at i s" "dev_at i (s\<lparr>read_cmd_buf := b\<rparr>) = dev_at i s"
  "dev_at i (s\<lparr>write_cmd_buf := b\<rparr>) = dev_at i s" "dev_at i (s\<lparr>read_payload_cmd_buf := b\<rparr>) = dev_at i s"
  "dev_at i (s\<lparr>read_payload_buf := b\<rparr>) = dev_at i s" "dev_at i (s\<lparr>write_payload_cmd_buf := b\<rparr>) = dev_at i s"
  "dev_at i (s\<lparr>write_payload_buf := b\<rparr>) = dev_at i s"
  by (simp_all add: dev_at_def)

lemma static_buffers_calls [simp]: "static_buffers (s\<lparr>s_calls := w\<rparr>) = static_buffers s"
  by (simp add: static_buffers_def)

lemma on_bus_calls:
  assumes "on_bus dk st k fd s" "t = s\<lparr>s_calls := s_calls t\<rparr>" "length (fst (st (s_calls t))) = 4099" "fst (st (s_calls t)) ! 0 \<noteq> 1"
  shows "on_bus dk st k fd t"
proof -
  obtain w where t: "t = s\<lparr>s_calls := w\<rparr>" using assms(2) by blast
  show ?thesis using assms(1,3,4) unfolding t by (simp add: on_bus_def)
qed

text \<open>One packet that sends, and one that receives, in a state that stays on the bus.\<close>

lemma send_step:
  assumes "on_bus dk st k fd s" "length buf = 4099" "buf ! 0 = 1" "stated buf = n" "2 \<le> n" "n \<le> 4096"
    and "I2c_Master_Send (take n (drop 3 buf)) = c"
  shows "\<exists>t. set_chip k fd buf s = (fst (transfers dk [c] (bus st s)), if fst (transfers dk [c] (bus st s)) then buf[0 := 0xFF] else buf, t) \<and>
    bus st t = snd (transfers dk [c] (bus st s)) \<and> on_bus dk st k fd t \<and> t = s\<lparr>s_calls := s_calls t\<rparr> \<and>
    (fst (transfers dk [c] (bus st s)) \<longrightarrow> fst (st (s_calls t)) ! 0 = 0xFF)"
proof -
  from assms(1) have fw: "chip_framework dk fd st k" "fst (st (s_calls s)) ! 0 \<noteq> 1" by (simp_all add: on_bus_def)
  have n: "2 \<le> stated buf" "stated buf \<le> 4096" using assms(4-6) by simp_all
  from set_chip_send [OF fw(1) assms(2,3) n fw(2), unfolded assms(4,7)]
  obtain t where t: "set_chip k fd buf s = (0 \<le> rc (env dk (calls (bus st s)) c), if 0 \<le> rc (env dk (calls (bus st s)) c) then buf[0 := 0xFF] else buf, t)"
    "st (s_calls t) = (if 0 \<le> rc (env dk (calls (bus st s)) c) then buf[0 := 0xFF] else fst (st (s_calls s)), (bus st s)\<lparr>calls := calls (bus st s) @ [c]\<rparr>)"
    "t = s\<lparr>s_calls := s_calls t\<rparr>" by blast
  have n: "0 < length buf" using assms(2) by simp
  have "on_bus dk st k fd t"
    using on_bus_calls [OF assms(1) t(3)] assms(1,2) t(2) n by (auto simp: on_bus_def)
  then show ?thesis using t n by (intro exI [of _ t]) auto
qed

lemma receive_step:
  assumes "on_bus dk st k fd s" "length buf = 4099" "buf ! 0 = 0" "stated buf = n" "2 \<le> n" "n \<le> 4096"
    and "fst (st (s_calls s)) \<noteq> buf"
  defines "c \<equiv> I2c_Master_Recv n"
  shows "\<exists>b t u. set_chip k fd buf s = (fst (transfers dk [c] (bus st s)), b, t) \<and> length b = 4099 \<and>
    bus st t = snd (transfers dk [c] (bus st s)) \<and> on_bus dk st k fd t \<and> t = s\<lparr>s_calls := s_calls t\<rparr> \<and>
    (fst (transfers dk [c] (bus st s)) \<longrightarrow> fst (st (s_calls u)) ! 0 = 0xFF \<and> take n (drop 3 b) = rdata (env dk (calls (bus st s)) c) \<and>
       length (rdata (env dk (calls (bus st s)) c)) = n \<and>
       get_chip k fd b t = (True, b, u) \<and> bus st u = bus st t \<and> on_bus dk st k fd u \<and> u = t\<lparr>s_calls := s_calls u\<rparr>)"
proof -
  from assms(1) have fw: "chip_framework dk fd st k" "bus_fills dk" by (simp_all add: on_bus_def)
  have n: "2 \<le> stated buf" "stated buf \<le> 4096" using assms(4-6) by simp_all
  let ?ok = "0 \<le> rc (env dk (calls (bus st s)) c)" and ?got = "rdata (env dk (calls (bus st s)) c)"
  let ?b = "0xFF # take 2 (drop 1 buf) @ ?got @ drop (3 + n) buf"
  from set_chip_receive [OF fw(1) assms(2,3) n assms(7) fw(2), unfolded assms(4), folded c_def]
  obtain t where t: "set_chip k fd buf s = (?ok, if ?ok then ?b else buf, t)" "?ok \<longrightarrow> length ?got = n"
    "st (s_calls t) = (if ?ok then ?b else fst (st (s_calls s)), (bus st s)\<lparr>calls := calls (bus st s) @ [c]\<rparr>)"
    "t = s\<lparr>s_calls := s_calls t\<rparr>" by blast
  have l: "?ok \<longrightarrow> length ?b = 4099" using t(2) assms(2,6) by simp
  have ob: "on_bus dk st k fd t"
    using on_bus_calls [OF assms(1) t(4)] assms(1) t(3) l by (auto simp: on_bus_def)
  have "length (take 2 (drop 1 buf)) = 2" using assms(2) by simp
  then have d: "?ok \<longrightarrow> take n (drop 3 ?b) = ?got" using t(2) by (simp add: numeral_3_eq_3)
  have "\<exists>u. ?ok \<longrightarrow> get_chip k fd ?b t = (True, ?b, u) \<and> st (s_calls u) = st (s_calls t) \<and> u = t\<lparr>s_calls := s_calls u\<rparr>"
    using get_chip_by_framework [OF fw(1), of t ?b] t(3) by auto
  then obtain u where u: "?ok \<longrightarrow> get_chip k fd ?b t = (True, ?b, u) \<and> st (s_calls u) = st (s_calls t) \<and> u = t\<lparr>s_calls := s_calls u\<rparr>" by blast
  have "?ok \<longrightarrow> on_bus dk st k fd u"
    using on_bus_calls [OF ob, of u] u ob by (auto simp: on_bus_def)
  then show ?thesis
    using t ob u d l assms(2)
    by (intro exI [of _ "if ?ok then ?b else buf"] exI [of _ t] exI [of _ u]) auto
qed

section \<open>Commands\<close>

lemma on_bus_read_cmd_buf: "on_bus dk st k fd s \<Longrightarrow> length b = 4099 \<Longrightarrow> on_bus dk st k fd (s\<lparr>read_cmd_buf := b\<rparr>)"
  by (simp add: on_bus_def static_buffers_def)

lemma on_bus_write_cmd_buf: "on_bus dk st k fd s \<Longrightarrow> length b = 4099 \<Longrightarrow> on_bus dk st k fd (s\<lparr>write_cmd_buf := b\<rparr>)"
  by (simp add: on_bus_def static_buffers_def)

lemma on_bus_write_payload_buf: "on_bus dk st k fd s \<Longrightarrow> length b = 4099 \<Longrightarrow> on_bus dk st k fd (s\<lparr>write_payload_buf := b\<rparr>)"
  by (simp add: on_bus_def static_buffers_def)

lemma on_bus_write_payload_cmd_buf:
  "on_bus dk st k fd s \<Longrightarrow> length b = 4099 \<Longrightarrow> take 4 (drop 7 b) = [0, 0, 0, 0] \<Longrightarrow> on_bus dk st k fd (s\<lparr>write_payload_cmd_buf := b\<rparr>)"
  by (simp add: on_bus_def static_buffers_def)

lemma on_bus_other_bufs:
  "on_bus dk st k fd (s\<lparr>read_payload_cmd_buf := b\<rparr>) = on_bus dk st k fd s"
  "on_bus dk st k fd (s\<lparr>read_payload_buf := b\<rparr>) = on_bus dk st k fd s"
  by (simp_all add: on_bus_def static_buffers_def)

lemmas on_bus_bufs = on_bus_read_cmd_buf on_bus_write_cmd_buf on_bus_write_payload_buf on_bus_other_bufs [THEN iffD2]

lemma on_bus_dev: "on_bus dk st k fd s \<Longrightarrow> \<exists>dev. dev_at 0 s = Ret dev \<and> vd_sfd dev = fd"
  by (simp add: on_bus_def)

lemma on_bus_usleep:
  assumes "on_bus dk st k fd s"
  shows "on_bus dk st k fd (snd (node k (Usleep n) s))" "bus st (snd (node k (Usleep n) s)) = bus st s"
    "fst (st (s_calls (snd (node k (Usleep n) s)))) = fst (st (s_calls s))"
proof -
  have e: "st (s_calls s @ [Usleep n]) = st (s_calls s)"
    using assms by (simp add: on_bus_def chip_framework_def)
  show "on_bus dk st k fd (snd (node k (Usleep n) s))"
    by (rule on_bus_calls [OF assms]) (use assms e in \<open>simp_all add: node_def on_bus_def\<close>)
  show "bus st (snd (node k (Usleep n) s)) = bus st s" "fst (st (s_calls (snd (node k (Usleep n) s)))) = fst (st (s_calls s))"
    using e by simp_all
qed

text \<open>The status that a sequence of transfers gives.\<close>

definition ending :: "bool \<Rightarrow> status" where
  "ending ok = (if ok then OK else GENERIC_ERROR)"

lemma write_cmd_transfers:
  fixes cmd data :: u16
  assumes "on_bus dk st k fd s"
  defines "cs \<equiv> [I2c_Master_Send [hi8 cmd, lo8 cmd, hi8 data, lo8 data]]"
  obtains t where "adsd3500_write_cmd k cmd data s = Ret (ending (fst (transfers dk cs (bus st s))), t)"
    "bus st t = snd (transfers dk cs (bus st s))" "on_bus dk st k fd t"
    "write_payload_cmd_buf t = write_payload_cmd_buf s"
proof -
  obtain dev where dev: "dev_at 0 s = Ret dev" "vd_sfd dev = fd" using on_bus_dev [OF assms(1)] by blast
  let ?buf = "[1, 0, 4, hi8 cmd, lo8 cmd, hi8 data, lo8 data] @ drop 7 (write_cmd_buf s)"
  have l: "length ?buf = 4099" using assms(1) by (simp add: on_bus_def static_buffers_def)
  have n: "stated ?buf = 4" by (simp add: stated_def)
  have d: "I2c_Master_Send (take 4 (drop 3 ?buf)) = I2c_Master_Send [hi8 cmd, lo8 cmd, hi8 data, lo8 data]" by (simp add: numeral_eq_Suc)
  obtain t where t: "set_chip k fd ?buf s = (fst (transfers dk cs (bus st s)), if fst (transfers dk cs (bus st s)) then ?buf[0 := 0xFF] else ?buf, t)"
    "bus st t = snd (transfers dk cs (bus st s))" "on_bus dk st k fd t" "t = s\<lparr>s_calls := s_calls t\<rparr>"
    using send_step [OF assms(1) l _ n _ _ d] unfolding cs_def by auto
  obtain w where w: "t = s\<lparr>s_calls := w\<rparr>" using t(4) by blast
  let ?t = "t\<lparr>write_cmd_buf := (if fst (transfers dk cs (bus st s)) then ?buf[0 := 0xFF] else ?buf)\<rparr>"
  have "adsd3500_write_cmd k cmd data s = Ret (ending (fst (transfers dk cs (bus st s))), ?t)"
    using t(1) dev by (simp add: adsd3500_write_cmd_def ending_def)
  moreover have "on_bus dk st k fd ?t" by (rule on_bus_write_cmd_buf [OF t(3)]) (use l in simp)
  ultimately show ?thesis using that [of ?t] t(2) by (simp add: w)
qed

text \<open>The value of two bytes, the higher first.\<close>

definition be16 :: "u8 list \<Rightarrow> u16" where
  "be16 bs = push_bit 8 (ucast (bs ! 0)) + ucast (bs ! 1)"

text \<open>What the last of some transfers received.\<close>

definition received :: "kernel \<Rightarrow> adsd3500 \<Rightarrow> call list \<Rightarrow> u8 list" where
  "received dk d cs = rdata (env dk (calls d @ butlast cs) (last cs))"

lemma transfers_Cons: "transfers dk (c # cs) d =
    (if fst (transfers dk [c] d) then transfers dk cs (snd (transfers dk [c] d)) else (False, snd (transfers dk [c] d)))"
  by simp

lemma transfers_single: "calls (snd (transfers dk [c] d)) = calls d @ [c]"
  by simp

lemma read_cmd_transfers:
  fixes cmd v :: u16
  assumes "on_bus dk st k fd s"
  defines "cs \<equiv> [I2c_Master_Send [hi8 cmd, lo8 cmd], I2c_Master_Recv 2]"
  obtains t where "adsd3500_read_cmd k cmd v us s = Ret (ending (fst (transfers dk cs (bus st s))),
      if fst (transfers dk cs (bus st s)) then be16 (received dk (bus st s) cs) else v, t)"
    "bus st t = snd (transfers dk cs (bus st s))" "on_bus dk st k fd t"
    "write_payload_cmd_buf t = write_payload_cmd_buf s"
proof -
  obtain dev where dev: "dev_at 0 s = Ret dev" "vd_sfd dev = fd" using on_bus_dev [OF assms(1)] by blast
  let ?buf = "[1, 0, 2, hi8 cmd, lo8 cmd] @ drop 5 (read_cmd_buf s)"
  let ?send = "I2c_Master_Send [hi8 cmd, lo8 cmd]"
  have l: "length ?buf = 4099" using assms(1) by (simp add: on_bus_def static_buffers_def)
  have n: "stated ?buf = 2" by (simp add: stated_def)
  have d: "I2c_Master_Send (take 2 (drop 3 ?buf)) = ?send" by (simp add: numeral_eq_Suc)
  let ?ok = "fst (transfers dk [?send] (bus st s))"
  obtain t where t: "set_chip k fd ?buf s = (?ok, if ?ok then ?buf[0 := 0xFF] else ?buf, t)"
    "bus st t = snd (transfers dk [?send] (bus st s))" "on_bus dk st k fd t" "t = s\<lparr>s_calls := s_calls t\<rparr>"
    "?ok \<longrightarrow> fst (st (s_calls t)) ! 0 = 0xFF"
    using send_step [OF assms(1) l _ n _ _ d] by auto
  obtain w where w: "t = s\<lparr>s_calls := w\<rparr>" using t(4) by blast
  show ?thesis
  proof (cases ?ok)
    case False
    then have f: "transfers dk cs (bus st s) = (False, snd (transfers dk [?send] (bus st s)))"
      unfolding cs_def by (subst transfers_Cons) (simp del: transfers.simps)
    have "adsd3500_read_cmd k cmd v us s = Ret (GENERIC_ERROR, v, t\<lparr>read_cmd_buf := ?buf\<rparr>)"
      using t(1) False dev by (simp add: adsd3500_read_cmd_def del: transfers.simps)
    moreover have "on_bus dk st k fd (t\<lparr>read_cmd_buf := ?buf\<rparr>)" by (rule on_bus_read_cmd_buf [OF t(3) l])
    ultimately show ?thesis
      using that [of "t\<lparr>read_cmd_buf := ?buf\<rparr>"] t(2) f w by (simp add: ending_def del: transfers.simps)
  next
    case True
    let ?t = "snd (node k (Usleep (unat us)) t)"
    let ?buf2 = "[0, 0, 2] @ drop 3 (?buf[0 := 0xFF])"
    have ob: "on_bus dk st k fd ?t" "bus st ?t = bus st t" "fst (st (s_calls ?t)) ! 0 = 0xFF"
      using on_bus_usleep [OF t(3)] t(5) True by simp_all
    have l2: "length ?buf2 = 4099" using l by simp
    have n2: "stated ?buf2 = 2" and z2: "?buf2 ! 0 = 0" and le2: "2 \<le> (4096 :: nat)" by (simp_all add: stated_def)
    have ne: "fst (st (s_calls ?t)) \<noteq> ?buf2" using ob(3) by auto
    let ?recv = "I2c_Master_Recv 2" and ?d = "bus st t"
    let ?ok2 = "fst (transfers dk [?recv] ?d)"
    obtain b u z where u: "set_chip k fd ?buf2 ?t = (?ok2, b, u)" "length b = 4099" "bus st u = snd (transfers dk [?recv] ?d)" "on_bus dk st k fd u"
      "u = ?t\<lparr>s_calls := s_calls u\<rparr>"
      "?ok2 \<longrightarrow> take 2 (drop 3 b) = rdata (env dk (calls ?d) ?recv)"
      "?ok2 \<longrightarrow> get_chip k fd b u = (True, b, z) \<and> bus st z = bus st u \<and> on_bus dk st k fd z \<and> z = u\<lparr>s_calls := s_calls z\<rparr>"
      using receive_step [OF ob(1) l2 z2 n2 le_refl le2 ne, unfolded ob(2)] by (elim exE conjE) (rule that; blast)
    have tr: "transfers dk cs (bus st s) = transfers dk [?recv] ?d"
      using True t(2) unfolding cs_def by (subst transfers_Cons) (simp del: transfers.simps)
    have c: "calls ?d = calls (bus st s) @ [?send]" using t(2) by simp
    obtain w2 where w2: "u = s\<lparr>s_calls := w2\<rparr>" using u(5) w by (auto simp: node_def)
    show ?thesis
    proof (cases ?ok2)
      case False
      have "adsd3500_read_cmd k cmd v us s = Ret (GENERIC_ERROR, v, u\<lparr>read_cmd_buf := b\<rparr>)"
        using t(1) True dev u(1) False by (simp add: adsd3500_read_cmd_def del: transfers.simps)
      moreover have "on_bus dk st k fd (u\<lparr>read_cmd_buf := b\<rparr>)" by (rule on_bus_read_cmd_buf [OF u(4,2)])
      ultimately show ?thesis
        using that [of "u\<lparr>read_cmd_buf := b\<rparr>"] u(3) tr False w2 by (simp add: ending_def del: transfers.simps)
    next
      case ok: True
      have z: "get_chip k fd b u = (True, b, z)" "bus st z = bus st u" "on_bus dk st k fd z" "z = u\<lparr>s_calls := s_calls z\<rparr>"
        using u(7) ok by blast+
      have g: "take 2 (drop 3 b) = rdata (env dk (calls ?d) ?recv)" using u(6) ok by blast
      have "received dk (bus st s) cs = rdata (env dk (calls ?d) ?recv)" by (simp add: received_def cs_def c)
      moreover have "be16 (take 2 (drop 3 b)) = push_bit 8 (ucast (b ! 3)) + ucast (b ! 4)"
        using u(2) by (simp add: be16_def)
      ultimately have v: "be16 (received dk (bus st s) cs) = push_bit 8 (ucast (b ! 3)) + ucast (b ! 4)"
        unfolding g by simp
      obtain w3 where w3: "z = s\<lparr>s_calls := w3\<rparr>" using z(4) w2 by auto
      have "adsd3500_read_cmd k cmd v us s = Ret (OK, be16 (received dk (bus st s) cs), z\<lparr>read_cmd_buf := b\<rparr>)"
        using t(1) True dev u(1) ok z(1) v by (simp add: adsd3500_read_cmd_def del: transfers.simps)
      moreover have "on_bus dk st k fd (z\<lparr>read_cmd_buf := b\<rparr>)" by (rule on_bus_read_cmd_buf [OF z(3) u(2)])
      ultimately show ?thesis
        using that [of "z\<lparr>read_cmd_buf := b\<rparr>"] u(3) z(2) tr ok w3 by (simp add: ending_def del: transfers.simps)
    qed
  qed
qed

lemma hi_lo: "unat (hi8 x) * 256 + unat (lo8 x) = unat x"
proof -
  have "unat x div 256 < 256" using unat_u16_bound [of x] by linarith
  then have "unat (hi8 x) = unat x div 256"
    by (simp add: hi8_def drop_bit_eq_div unsigned_ucast_eq take_bit_eq_mod unat_div)
  moreover have "unat (lo8 x) = unat x mod 256" by (simp add: lo8_def unsigned_ucast_eq take_bit_eq_mod)
  ultimately show ?thesis by simp
qed

lemma stated_header: "stated (x # hi8 n # lo8 n # bs) = unat n"
  by (simp add: stated_def hi_lo)

lemma write_payload_transfers:
  fixes n :: u16
  assumes "on_bus dk st k fd s" "2 \<le> unat n" "unat n \<le> 4096" "unat n \<le> length payload"
  defines "cs \<equiv> [I2c_Master_Send (take (unat n) payload)]"
  obtains t where "adsd3500_write_payload k payload n s = Ret (ending (fst (transfers dk cs (bus st s))), t)"
    "bus st t = snd (transfers dk cs (bus st s))" "on_bus dk st k fd t"
proof -
  obtain dev where dev: "dev_at 0 s = Ret dev" "vd_sfd dev = fd" using on_bus_dev [OF assms(1)] by blast
  have w: "length (write_payload_buf s) = 4099" using assms(1) by (simp add: on_bus_def static_buffers_def)
  let ?buf = "1 # hi8 n # lo8 n # take (unat n) payload @ drop (3 + unat n) (write_payload_buf s)"
  have m: "mem_read (unat n) payload = Ret (take (unat n) payload)" using assms(4) by (simp add: mem_read_def)
  have wr: "mem_write 3 (take (unat n) payload) (1 # hi8 n # lo8 n # drop 3 (write_payload_buf s)) = Ret ?buf"
    using assms(3,4) w by (simp add: mem_write_def numeral_3_eq_3)
  have l: "length ?buf = 4099" using assms(3,4) w by simp
  have d: "I2c_Master_Send (take (unat n) (drop 3 ?buf)) = I2c_Master_Send (take (unat n) payload)"
    using assms(4) by (simp add: numeral_3_eq_3)
  obtain t where t: "set_chip k fd ?buf s = (fst (transfers dk cs (bus st s)), if fst (transfers dk cs (bus st s)) then ?buf[0 := 0xFF] else ?buf, t)"
    "bus st t = snd (transfers dk cs (bus st s))" "on_bus dk st k fd t"
    using send_step [OF assms(1) l _ stated_header assms(2,3) d] unfolding cs_def by auto
  let ?b = "if fst (transfers dk cs (bus st s)) then ?buf[0 := 0xFF] else ?buf"
  let ?t = "(if fst (transfers dk cs (bus st s)) then snd (node k (Usleep 100000) t) else t)\<lparr>write_payload_buf := ?b\<rparr>"
  have "adsd3500_write_payload k payload n s = Ret (ending (fst (transfers dk cs (bus st s))), ?t)"
    using t(1) dev m wr by (simp add: adsd3500_write_payload_def ending_def del: transfers.simps)
  moreover have "on_bus dk st k fd ?t"
    by (rule on_bus_write_payload_buf) (use on_bus_usleep [OF t(3)] t(3) l in auto)
  moreover have "bus st ?t = snd (transfers dk cs (bus st s))" using on_bus_usleep [OF t(3)] t(2) by simp
  ultimately show ?thesis using that by blast
qed

lemma read_payload_transfers:
  fixes n :: u16
  assumes "on_bus dk st k fd s" "2 \<le> unat n" "unat n \<le> 4096" "unat n \<le> length payload"
    and "fst (st (s_calls s)) ! 0 \<noteq> 0"
  defines "cs \<equiv> [I2c_Master_Recv (unat n)]"
  obtains t where "adsd3500_read_payload k payload n s = Ret (ending (fst (transfers dk cs (bus st s))),
      if fst (transfers dk cs (bus st s)) then received dk (bus st s) cs @ drop (unat n) payload else payload, t)"
    "bus st t = snd (transfers dk cs (bus st s))" "on_bus dk st k fd t"
proof -
  obtain dev where dev: "dev_at 0 s = Ret dev" "vd_sfd dev = fd" using on_bus_dev [OF assms(1)] by blast
  let ?s = "snd (node k (Usleep 30000) s)"
  note ob = on_bus_usleep [OF assms(1), of 30000]
  let ?buf = "0 # hi8 n # lo8 n # replicate 4096 0" and ?d = "bus st s"
  let ?c = "I2c_Master_Recv (unat n)"
  have l: "length ?buf = 4099" by simp
  have ne: "fst (st (s_calls ?s)) \<noteq> ?buf" using ob(3) assms(5) by auto
  have z: "?buf ! 0 = 0" by simp
  obtain b t u where t: "set_chip k fd ?buf ?s = (fst (transfers dk [?c] ?d), b, t)" "length b = 4099"
    "bus st t = snd (transfers dk [?c] ?d)" "on_bus dk st k fd t" "t = ?s\<lparr>s_calls := s_calls t\<rparr>"
    "fst (transfers dk [?c] ?d) \<longrightarrow> fst (st (s_calls u)) ! 0 = 0xFF \<and> take (unat n) (drop 3 b) = rdata (env dk (calls ?d) ?c) \<and>
       length (rdata (env dk (calls ?d) ?c)) = unat n \<and>
       get_chip k fd b t = (True, b, u) \<and> bus st u = bus st t \<and> on_bus dk st k fd u \<and> u = t\<lparr>s_calls := s_calls u\<rparr>"
    using receive_step [OF ob(1) l z stated_header assms(2,3) ne, unfolded ob(2)] by blast
  show ?thesis
  proof (cases "fst (transfers dk [?c] ?d)")
    case False
    have "adsd3500_read_payload k payload n s = Ret (GENERIC_ERROR, payload, t\<lparr>read_payload_buf := b\<rparr>)"
      using t(1) dev False by (simp add: adsd3500_read_payload_def del: transfers.simps)
    then show ?thesis
      using that [of "t\<lparr>read_payload_buf := b\<rparr>"] t(3,4) False by (simp add: ending_def cs_def on_bus_other_bufs del: transfers.simps)
  next
    case True
    then have g: "take (unat n) (drop 3 b) = rdata (env dk (calls ?d) ?c)" "length (rdata (env dk (calls ?d) ?c)) = unat n"
      "get_chip k fd b t = (True, b, u)" "bus st u = bus st t" "on_bus dk st k fd u"
      using t(6) by blast+
    have r: "received dk ?d cs = rdata (env dk (calls ?d) ?c)" by (simp add: received_def cs_def)
    have m: "mem_read (unat n) (drop 3 b) = Ret (received dk ?d cs)" using t(2) assms(3) g(1) r by (simp add: mem_read_def)
    have w: "mem_write 0 (received dk ?d cs) payload = Ret (received dk ?d cs @ drop (unat n) payload)"
      using g(2) assms(4) r by (simp add: mem_write_def)
    have "adsd3500_read_payload k payload n s = Ret (OK, received dk ?d cs @ drop (unat n) payload, u\<lparr>read_payload_buf := b\<rparr>)"
      using t(1) dev True g(3) m w by (simp add: adsd3500_read_payload_def del: transfers.simps)
    then show ?thesis
      using that [of "u\<lparr>read_payload_buf := b\<rparr>"] t(3) g(4,5) True by (simp add: ending_def cs_def on_bus_other_bufs del: transfers.simps)
  qed
qed

section \<open>Commands in burst mode\<close>

text \<open>A packet in burst mode: its length, the command, four zeros, the checksum of these, and data.\<close>

definition packet :: "u16 \<Rightarrow> u8 \<Rightarrow> u8 list \<Rightarrow> u8 list" where
  "packet n c bytes =
     [0xAD, hi8 n, lo8 n, c, 0, 0, 0, 0] @ le32 (ucast (hi8 n) + ucast (lo8 n) + ucast c) @ bytes"

text \<open>The packets that switch to burst mode and back.\<close>

definition burst_mode :: call where
  "burst_mode = I2c_Master_Send [0x00, 0x19, 0x00, 0x00]"

definition standard_mode :: call where
  "standard_mode = I2c_Master_Send (packet 0 0x10 [0, 0, 0, 0])"

lemma transfers_append: "transfers dk (xs @ ys) d =
    (if fst (transfers dk xs d) then transfers dk ys (snd (transfers dk xs d)) else (False, snd (transfers dk xs d)))"
  by (induction xs arbitrary: d) auto

lemma transfers_calls: "fst (transfers dk cs d) \<Longrightarrow> calls (snd (transfers dk cs d)) = calls d @ cs"
  by (induction cs arbitrary: d) (auto split: if_splits)

lemma switch_packet:
  assumes "length buf = 4099"
  shows "length (switchBuf @ drop 19 buf) = 4099" "(switchBuf @ drop 19 buf) ! 0 = 1" "stated (switchBuf @ drop 19 buf) = 16"
    "I2c_Master_Send (take 16 (drop 3 (switchBuf @ drop 19 buf))) = standard_mode"
proof -
  show "length (switchBuf @ drop 19 buf) = 4099" using assms by (simp add: switchBuf_def)
  show "(switchBuf @ drop 19 buf) ! 0 = 1" "stated (switchBuf @ drop 19 buf) = 16" by (simp_all add: switchBuf_def stated_def)
  have "take 16 (drop 3 (switchBuf @ drop 19 buf)) = drop 3 switchBuf" by (simp add: switchBuf_def numeral_3_eq_3)
  also have "\<dots> = packet 0 0x10 [0, 0, 0, 0]" by (simp add: switchBuf_def packet_def hi8_def lo8_def le32_def numeral_3_eq_3)
  finally show "I2c_Master_Send (take 16 (drop 3 (switchBuf @ drop 19 buf))) = standard_mode" by (simp add: standard_mode_def)
qed

lemma switch_back_transfers:
  assumes "on_bus dk st k fd s" "length buf = 4099"
  shows "\<exists>b t. switch_back k fd buf s = (fst (transfers dk [standard_mode] (bus st s)), b, t) \<and> length b = 4099 \<and>
    bus st t = snd (transfers dk [standard_mode] (bus st s)) \<and> on_bus dk st k fd t \<and> t = s\<lparr>s_calls := s_calls t\<rparr> \<and>
    take 4 (drop 7 b) = [0, 0, 0, 0]"
proof -
  let ?buf = "switchBuf @ drop 19 buf"
  note p = switch_packet [OF assms(2)]
  have z: "take 4 (drop 7 ?buf) = [0, 0, 0, 0]" by (simp add: switchBuf_def numeral_eq_Suc)
  have z': "take 4 (drop 7 (?buf[0 := x])) = [0, 0, 0, 0]" for x by (simp add: switchBuf_def numeral_eq_Suc)
  have "2 \<le> (16 :: nat)" "(16 :: nat) \<le> 4096" by simp_all
  from send_step [OF assms(1) p(1-3) this p(4)]
  obtain t where "set_chip k fd ?buf s = (fst (transfers dk [standard_mode] (bus st s)),
      if fst (transfers dk [standard_mode] (bus st s)) then ?buf[0 := 0xFF] else ?buf, t)"
    "bus st t = snd (transfers dk [standard_mode] (bus st s))" "on_bus dk st k fd t" "t = s\<lparr>s_calls := s_calls t\<rparr>" by blast
  then show ?thesis
    using p(1) z z' unfolding switch_back_def
    by (intro exI [of _ "if fst (transfers dk [standard_mode] (bus st s)) then ?buf[0 := 0xFF] else ?buf"] exI [of _ t])
      (simp del: transfers.simps)
qed

lemma read_header_packet:
  "length (read_payload_header cmd x) = 4099" "read_payload_header cmd x ! 0 = 1" "stated (read_payload_header cmd x) = 16"
  "I2c_Master_Send (take 16 (drop 3 (read_payload_header cmd x))) = I2c_Master_Send (packet 0 (ucast cmd) [x, 0, 0, 0])"
proof -
  have e: "read_payload_header cmd x = [0x01, 0x00, 0x10] @ packet 0 (ucast cmd) [x, 0, 0, 0] @ replicate 4080 0"
  proof -
    have "replicate 4083 (0 :: u8) = replicate 3 0 @ replicate 4080 0" by (simp flip: replicate_add)
    also have "replicate 3 (0 :: u8) = [0, 0, 0]" by (simp add: numeral_3_eq_3)
    finally have r: "replicate 4083 (0 :: u8) = [0, 0, 0] @ replicate 4080 0" .
    show ?thesis unfolding read_payload_header_def Let_def r
      by (simp add: packet_def checksum_def hi8_def lo8_def)
  qed
  have l: "length (packet 0 (ucast cmd) [x, 0, 0, 0]) = 16" by (simp add: packet_def)
  show "length (read_payload_header cmd x) = 4099" "read_payload_header cmd x ! 0 = 1" "stated (read_payload_header cmd x) = 16"
    by (simp_all add: e l stated_def)
  show "I2c_Master_Send (take 16 (drop 3 (read_payload_header cmd x))) = I2c_Master_Send (packet 0 (ucast cmd) [x, 0, 0, 0])"
    unfolding e using l by (simp add: numeral_3_eq_3)
qed

definition read_payload_plan :: "u32 \<Rightarrow> u8 \<Rightarrow> u16 \<Rightarrow> call list" where
  "read_payload_plan cmd x n =
     [burst_mode, I2c_Master_Send (packet 0 (ucast cmd) [x, 0, 0, 0]), I2c_Master_Recv (unat n)]"

definition back_plan :: "u32 \<Rightarrow> call list" where
  "back_plan cmd = (if cmd = 0x13 then [] else [standard_mode])"

lemma transfers_stop: "\<not> fst (transfers dk xs d) \<Longrightarrow> transfers dk (xs @ ys) d = (False, snd (transfers dk xs d))"
  by (simp add: transfers_append)

lemma transfers_go: "fst (transfers dk xs d) \<Longrightarrow> transfers dk (xs @ ys) d = transfers dk ys (snd (transfers dk xs d))"
  by (simp add: transfers_append)

lemma burst_receive_transfers:
  fixes n :: u16 and cmd :: u32
  assumes "on_bus dk st k fd s" "2 \<le> unat n" "unat n \<le> 4096" "unat n \<le> length readback" "length buf = 4099"
    and "fst (st (s_calls s)) ! 0 = 0xFF"
  defines "c \<equiv> I2c_Master_Recv (unat n)" and "d \<equiv> bus st s"
  shows "\<exists>t. burst_receive k fd cmd readback n buf s =
      Ret (ending (fst (transfers dk ([c] @ back_plan cmd) d)),
        if fst (transfers dk [c] d) then rdata (env dk (calls d) c) @ drop (unat n) readback else readback, t) \<and>
    bus st t = snd (transfers dk ([c] @ back_plan cmd) d) \<and> on_bus dk st k fd t"
proof -
  let ?b = "0 # hi8 n # lo8 n # drop 3 buf" and ?ok = "fst (transfers dk [c] d)" and ?got = "rdata (env dk (calls d) c)"
  have b: "length ?b = 4099" "?b ! 0 = 0" "fst (st (s_calls s)) \<noteq> ?b" using assms(5,6) by auto
  obtain b t u where t: "set_chip k fd ?b s = (?ok, b, t)" "length b = 4099" "bus st t = snd (transfers dk [c] d)" "on_bus dk st k fd t"
    "?ok \<longrightarrow> fst (st (s_calls u)) ! 0 = 0xFF \<and> take (unat n) (drop 3 b) = ?got \<and> length ?got = unat n \<and>
       get_chip k fd b t = (True, b, u) \<and> bus st u = bus st t \<and> on_bus dk st k fd u \<and> u = t\<lparr>s_calls := s_calls u\<rparr>"
    using receive_step [OF assms(1) b(1,2) stated_header assms(2,3) b(3), folded c_def d_def] by blast
  show ?thesis
  proof (cases ?ok)
    case False
    have "burst_receive k fd cmd readback n buf s = Ret (GENERIC_ERROR, readback, t\<lparr>read_payload_cmd_buf := b\<rparr>)"
      using t(1) False by (simp add: burst_receive_def del: transfers.simps)
    then show ?thesis
      using t(3,4) False transfers_stop [OF False, of "back_plan cmd"] by (simp add: ending_def on_bus_other_bufs del: transfers.simps)
  next
    case True
    then have u: "take (unat n) (drop 3 b) = ?got" "length ?got = unat n" "get_chip k fd b t = (True, b, u)"
      "bus st u = bus st t" "on_bus dk st k fd u"
      using t(5) by blast+
    have mr: "mem_read (unat n) (drop 3 b) = Ret ?got" using t(2) assms(3) u(1) by (simp add: mem_read_def)
    have mw: "mem_write 0 ?got readback = Ret (?got @ drop (unat n) readback)" using u(2) assms(4) by (simp add: mem_write_def)
    obtain b' z where z: "switch_back k fd b u = (fst (transfers dk [standard_mode] (bus st t)), b', z)"
      "bus st z = snd (transfers dk [standard_mode] (bus st t))" "on_bus dk st k fd z"
      using switch_back_transfers [OF u(5) t(2)] unfolding u(4) by blast
    let ?t = "if cmd = 0x13 then u\<lparr>read_payload_cmd_buf := b\<rparr> else z\<lparr>read_payload_cmd_buf := b'\<rparr>"
    have tr: "transfers dk ([c] @ back_plan cmd) d = transfers dk (back_plan cmd) (bus st t)"
      unfolding t(3) by (rule transfers_go [OF True])
    have "burst_receive k fd cmd readback n buf s =
        Ret (ending (fst (transfers dk (back_plan cmd) (bus st t))), ?got @ drop (unat n) readback, ?t)"
    proof (cases "cmd = 0x13")
      case x: True
      show ?thesis using t(1) True u(3) mr mw x by (simp add: burst_receive_def ending_def back_plan_def del: transfers.simps(2))
    next
      case x: False
      have "burst_receive k fd cmd readback n buf s = Ret (ending (fst (transfers dk [standard_mode] (bus st t))), ?got @ drop (unat n) readback,
          z\<lparr>read_payload_cmd_buf := b'\<rparr>)"
        using t(1) True u(3) mr mw x z(1) by (simp add: burst_receive_def ending_def del: transfers.simps)
      then show ?thesis using x by (simp add: back_plan_def del: transfers.simps)
    qed
    moreover have "bus st ?t = snd (transfers dk (back_plan cmd) (bus st t))" "on_bus dk st k fd ?t"
      using u(4,5) z(2,3) by (simp_all add: back_plan_def on_bus_other_bufs del: transfers.simps(2))
    ultimately show ?thesis using True unfolding tr by (intro exI [of _ ?t]) (simp del: transfers.simps(2))
  qed
qed

lemma burst_read_transfers:
  fixes n :: u16 and cmd :: u32
  assumes "on_bus dk st k fd s" "2 \<le> unat n" "unat n \<le> 4096" "unat n \<le> length readback"
  defines "cs \<equiv> read_payload_plan cmd (hd readback) n" and "d \<equiv> bus st s"
  shows "\<exists>t. adsd3500_read_payload_cmd k cmd readback n s =
      Ret (ending (fst (transfers dk (cs @ back_plan cmd) d)),
        if fst (transfers dk cs d) then received dk d cs @ drop (unat n) readback else readback, t) \<and>
    bus st t = snd (transfers dk (cs @ back_plan cmd) d) \<and> on_bus dk st k fd t"
proof -
  have ne: "readback \<noteq> []" using assms(2,4) by auto
  let ?h = "read_payload_header cmd (hd readback)"
  let ?c1 = "I2c_Master_Send (packet 0 (ucast cmd) [hd readback, 0, 0, 0])" and ?c2 = "I2c_Master_Recv (unat n)"
  have cs: "cs = [burst_mode] @ [?c1] @ [?c2]" "cs @ back_plan cmd = [burst_mode] @ [?c1] @ [?c2] @ back_plan cmd"
    by (simp_all add: cs_def read_payload_plan_def)
  have hl: "hi8 0x19 = 0" "lo8 0x19 = 0x19" "hi8 0 = 0" "lo8 0 = 0" by (simp_all add: hi8_def lo8_def)
  obtain s1 where s1: "adsd3500_write_cmd k 0x19 0 s = Ret (ending (fst (transfers dk [burst_mode] d)), s1)"
    "bus st s1 = snd (transfers dk [burst_mode] d)" "on_bus dk st k fd s1"
    using write_cmd_transfers [OF assms(1), of "0x19" 0] unfolding hl burst_mode_def d_def by metis
  obtain dev where dev: "dev_at 0 s1 = Ret dev" "vd_sfd dev = fd" using on_bus_dev [OF s1(3)] by blast
  note h = read_header_packet [of cmd "hd readback"]
  let ?ok1 = "fst (transfers dk [?c1] (bus st s1))"
  have sz: "2 \<le> (16 :: nat)" "(16 :: nat) \<le> 4096" by simp_all
  obtain s2 where s2: "set_chip k fd ?h s1 = (?ok1, if ?ok1 then ?h[0 := 0xFF] else ?h, s2)"
    "bus st s2 = snd (transfers dk [?c1] (bus st s1))" "on_bus dk st k fd s2" "?ok1 \<longrightarrow> fst (st (s_calls s2)) ! 0 = 0xFF"
    using send_step [OF s1(3) h(1-3) sz h(4)] by blast
  define s3 where "s3 = (if cmd = 0x13 then snd (node k (Usleep 1000) s2) else s2)"
  have s3: "on_bus dk st k fd s3" "bus st s3 = bus st s2" "?ok1 \<longrightarrow> fst (st (s_calls s3)) ! 0 = 0xFF"
    using on_bus_usleep [OF s2(3), of 1000] s2(3,4) by (auto simp: s3_def)
  consider (m) "\<not> fst (transfers dk [burst_mode] d)" | (c1) "fst (transfers dk [burst_mode] d)" "\<not> ?ok1"
    | (on) "fst (transfers dk [burst_mode] d)" ?ok1 by blast
  then show ?thesis
  proof cases
    case m
    have "adsd3500_read_payload_cmd k cmd readback n s = Ret (GENERIC_ERROR, readback, s1)"
      using s1(1) m by (simp add: adsd3500_read_payload_cmd_def ending_def del: transfers.simps)
    moreover have "transfers dk cs d = (False, bus st s1)" "transfers dk (cs @ back_plan cmd) d = (False, bus st s1)"
      unfolding cs(2) unfolding cs(1) transfers_stop [OF m] s1(2) by simp_all
    ultimately show ?thesis using s1(3) by (simp add: ending_def del: transfers.simps)
  next
    case c1
    have "adsd3500_read_payload_cmd k cmd readback n s = Ret (GENERIC_ERROR, readback, s2\<lparr>read_payload_cmd_buf := ?h\<rparr>)"
      using s1(1) c1 dev s2(1) ne by (simp add: adsd3500_read_payload_cmd_def ending_def del: transfers.simps)
    moreover have "transfers dk cs d = (False, bus st s2)" "transfers dk (cs @ back_plan cmd) d = (False, bus st s2)"
      unfolding cs(2) unfolding cs(1) transfers_go [OF c1(1)] s1(2) [symmetric] transfers_stop [OF c1(2)] s2(2) by simp_all
    ultimately show ?thesis
      using s2(3) by (intro exI [of _ "s2\<lparr>read_payload_cmd_buf := ?h\<rparr>"]) (simp add: ending_def on_bus_other_bufs del: transfers.simps)
  next
    case on
    have lh: "length (?h[0 := 0xFF]) = 4099" using h(1) by simp
    obtain t where t: "burst_receive k fd cmd readback n (?h[0 := 0xFF]) s3 =
        Ret (ending (fst (transfers dk ([?c2] @ back_plan cmd) (bus st s3))),
          if fst (transfers dk [?c2] (bus st s3)) then rdata (env dk (calls (bus st s3)) ?c2) @ drop (unat n) readback else readback, t)"
      "bus st t = snd (transfers dk ([?c2] @ back_plan cmd) (bus st s3))" "on_bus dk st k fd t"
      using burst_receive_transfers [OF s3(1) assms(2-4) lh] s3(3) on(2) by blast
    have "calls (bus st s3) = calls d @ [burst_mode, ?c1]"
      using transfers_calls [OF on(1)] transfers_calls [OF on(2)] s1(2) s2(2) s3(2) by (simp del: transfers.simps)
    then have r: "received dk d cs = rdata (env dk (calls (bus st s3)) ?c2)" by (simp add: received_def cs(1))
    have tr: "transfers dk cs d = transfers dk [?c2] (bus st s3)" "transfers dk (cs @ back_plan cmd) d = transfers dk ([?c2] @ back_plan cmd) (bus st s3)"
      unfolding cs(2) unfolding cs(1) transfers_go [OF on(1)] s1(2) [symmetric] transfers_go [OF on(2)] s2(2) [symmetric] s3(2) by simp_all
    have e: "adsd3500_read_payload_cmd k cmd readback n s = burst_receive k fd cmd readback n (?h[0 := 0xFF]) s3"
      using s1(1) on dev s2(1) ne by (simp add: adsd3500_read_payload_cmd_def ending_def s3_def del: transfers.simps)
    show ?thesis unfolding tr r e by (intro exI [of _ t] conjI t)
  qed
qed

text \<open>C23: Reading in burst mode switches the processor over, sends the packet with the command, receives the
  payload and, but for command 0x13, switches back; it stops at the first transfer that fails.\<close>

theorem read_payload_cmd_transfers:
  fixes n :: u16 and cmd :: u32
  assumes "on_bus dk st k fd s" "2 \<le> unat n" "unat n \<le> 4096" "unat n \<le> length readback"
  defines "cs \<equiv> read_payload_plan cmd (hd readback) n" and "d \<equiv> bus st s"
  shows "\<exists>t. adsd3500_read_payload_cmd k cmd readback n s =
      Ret (ending (fst (transfers dk (cs @ back_plan cmd) d)),
        if fst (transfers dk cs d) then received dk d cs @ drop (unat n) readback else readback, t) \<and>
    bus st t = snd (transfers dk (cs @ back_plan cmd) d) \<and> on_bus dk st k fd t"
  unfolding cs_def d_def by (rule burst_read_transfers [OF assms(1-4)])

lemma on_bus_write_cmd_buf4:
  "on_bus dk st k fd s \<Longrightarrow> length (write_payload_cmd_buf s) = 4099 \<and> take 4 (drop 7 (write_payload_cmd_buf s)) = [0, 0, 0, 0]"
  by (simp add: on_bus_def static_buffers_def)

lemma write_header_packet:
  fixes n :: u16 and cmd :: u32
  assumes "length buf = 4099" "take 4 (drop 7 buf) = [0, 0, 0, 0]"
  shows "write_payload_header cmd n buf = [1, hi8 (n + 16), lo8 (n + 16)] @ packet n (ucast cmd) [] @ drop 15 buf"
proof -
  have "drop 7 buf = take 4 (drop 7 buf) @ drop 11 buf" by (subst append_take_drop_id [of 4 "drop 7 buf", symmetric]) simp
  then have d: "drop 7 buf = [0, 0, 0, 0] @ drop 11 buf" using assms(2) by simp
  show ?thesis
    unfolding write_payload_header_def Let_def d by (simp add: packet_def checksum_def add.assoc)
qed

lemma write_buffer:
  fixes n :: u16 and cmd :: u32
  assumes "length buf = 4099" "take 4 (drop 7 buf) = [0, 0, 0, 0]" "unat n \<le> 4080" "unat n \<le> length payload"
  defines "b \<equiv> [1, hi8 (n + 16), lo8 (n + 16)] @ packet n (ucast cmd) (take (unat n) payload) @ drop (15 + unat n) buf"
  shows "mem_write 15 (take (unat n) payload) (write_payload_header cmd n buf) = Ret b"
    "length b = 4099" "b ! 0 = 1" "stated b = unat n + 16" "take 4 (drop 7 b) = [0, 0, 0, 0]" "take 4 (drop 7 (b[0 := x])) = [0, 0, 0, 0]"
    "I2c_Master_Send (take (unat n + 16) (drop 3 b)) =
     I2c_Master_Send (packet n (ucast cmd) (take (unat n) payload) @ take 4 (drop (15 + unat n) buf))"
proof -
  have l: "length (packet n (ucast cmd) (take (unat n) payload)) = unat n + 12" "length (packet n (ucast cmd) []) = 12"
    using assms(4) by (simp_all add: packet_def)
  have p: "packet n (ucast cmd) (take (unat n) payload) = packet n (ucast cmd) [] @ take (unat n) payload" by (simp add: packet_def)
  have "unat (n + 16) = unat n + 16" using assms(3) by (simp add: unat_word_ariths)
  then show "stated b = unat n + 16" using stated_header [of 1 "n + 16"] by (simp add: b_def)
  show "length b = 4099" using l(1) assms(1,3) by (simp add: b_def)
  define h where "h = [1, hi8 (n + 16), lo8 (n + 16)] @ packet n (ucast cmd) []"
  have h: "length h = 15" "write_payload_header cmd n buf = h @ drop 15 buf" "b = h @ take (unat n) payload @ drop (15 + unat n) buf"
    using l(2) by (simp_all add: h_def write_header_packet [OF assms(1,2)] b_def p)
  show "mem_write 15 (take (unat n) payload) (write_payload_header cmd n buf) = Ret b"
    unfolding h(2,3) using h(1) assms(1,3,4) by (simp add: mem_write_def add.commute)
  show "b ! 0 = 1" by (simp add: b_def)
  show "take 4 (drop 7 b) = [0, 0, 0, 0]" "take 4 (drop 7 (b[0 := x])) = [0, 0, 0, 0]" by (simp_all add: b_def packet_def)
  show "I2c_Master_Send (take (unat n + 16) (drop 3 b)) =
     I2c_Master_Send (packet n (ucast cmd) (take (unat n) payload) @ take 4 (drop (15 + unat n) buf))"
    using l(1) by (simp add: b_def numeral_3_eq_3)
qed

lemma burst_send_transfers:
  assumes "on_bus dk st k fd s" "length b = 4099" "b ! 0 = 1" "stated b = n" "2 \<le> n" "n \<le> 4096"
    and "I2c_Master_Send (take n (drop 3 b)) = c" "take 4 (drop 7 b) = [0, 0, 0, 0]" "\<And>x. take 4 (drop 7 (b[0 := x])) = [0, 0, 0, 0]"
  defines "d \<equiv> bus st s"
  shows "\<exists>t. burst_send k fd status b s = (if fst (transfers dk [c, standard_mode] d) then status else GENERIC_ERROR, t) \<and>
    bus st t = snd (transfers dk [c, standard_mode] d) \<and> on_bus dk st k fd t"
proof -
  let ?ok = "fst (transfers dk [c] d)" and ?b = "if fst (transfers dk [c] d) then b[0 := 0xFF] else b"
  obtain t where t: "set_chip k fd b s = (?ok, ?b, t)" "bus st t = snd (transfers dk [c] d)" "on_bus dk st k fd t"
    using send_step [OF assms(1-7), folded d_def] by blast
  have lb: "length ?b = 4099" "take 4 (drop 7 ?b) = [0, 0, 0, 0]" using assms(2,8,9) by auto
  have e: "[c, standard_mode] = [c] @ [standard_mode]" by simp
  obtain b' z where z: "switch_back k fd ?b t = (fst (transfers dk [standard_mode] (bus st t)), b', z)" "length b' = 4099"
    "bus st z = snd (transfers dk [standard_mode] (bus st t))" "on_bus dk st k fd z" "take 4 (drop 7 b') = [0, 0, 0, 0]"
    using switch_back_transfers [OF t(3) lb(1)] by blast
  show ?thesis
  proof (cases ?ok)
    case False
    have "burst_send k fd status b s = (GENERIC_ERROR, t\<lparr>write_payload_cmd_buf := b\<rparr>)"
      using t(1) False by (simp add: burst_send_def del: transfers.simps)
    moreover have "on_bus dk st k fd (t\<lparr>write_payload_cmd_buf := b\<rparr>)"
      by (rule on_bus_write_payload_cmd_buf [OF t(3) assms(2,8)])
    ultimately show ?thesis
      unfolding e transfers_stop [OF False] using t(2) by (intro exI [of _ "t\<lparr>write_payload_cmd_buf := b\<rparr>"]) (simp del: transfers.simps)
  next
    case True
    have "burst_send k fd status b s =
        (if fst (transfers dk [standard_mode] (bus st t)) then status else GENERIC_ERROR, z\<lparr>write_payload_cmd_buf := b'\<rparr>)"
      using t(1) z(1) True by (simp add: burst_send_def del: transfers.simps)
    moreover have "on_bus dk st k fd (z\<lparr>write_payload_cmd_buf := b'\<rparr>)"
      by (rule on_bus_write_payload_cmd_buf [OF z(4,2,5)])
    ultimately show ?thesis
      unfolding e transfers_go [OF True] t(2) [symmetric] using z(3)
      by (intro exI [of _ "z\<lparr>write_payload_cmd_buf := b'\<rparr>"]) (simp del: transfers.simps)
  qed
qed

definition write_payload_plan :: "u32 \<Rightarrow> u8 list \<Rightarrow> u16 \<Rightarrow> u8 list \<Rightarrow> call list" where
  "write_payload_plan cmd payload n left_over =
     [I2c_Master_Send (packet n (ucast cmd) (take (unat n) payload) @ left_over), standard_mode]"

text \<open>C24: Writing in burst mode sends one packet with header, checksum and payload, then switches back. When
  the processor could not be switched to burst mode it sends the packet all the same and fails
  only afterwards. The packet is four bytes too long: bytes of earlier packets follow the payload.\<close>

theorem write_payload_cmd_transfers:
  fixes n :: u16 and cmd :: u32
  assumes "on_bus dk st k fd s" "unat n \<le> 4080" "unat n \<le> length payload"
  defines "d \<equiv> bus st s" and "left_over \<equiv> take 4 (drop (15 + unat n) (write_payload_cmd_buf s))"
  defines "m \<equiv> transfers dk [burst_mode] d"
  defines "r \<equiv> transfers dk (write_payload_plan cmd payload n left_over) (snd m)"
  shows "\<exists>t. adsd3500_write_payload_cmd k cmd payload n s = Ret (if fst r then ending (fst m) else GENERIC_ERROR, t) \<and>
    bus st t = snd r \<and> on_bus dk st k fd t"
proof -
  have hl: "hi8 0x19 = 0" "lo8 0x19 = 0x19" "hi8 0 = 0" "lo8 0 = 0" by (simp_all add: hi8_def lo8_def)
  obtain s1 where s1: "adsd3500_write_cmd k 0x19 0 s = Ret (ending (fst m), s1)" "bus st s1 = snd m" "on_bus dk st k fd s1"
    "write_payload_cmd_buf s1 = write_payload_cmd_buf s"
    using write_cmd_transfers [OF assms(1), of "0x19" 0] unfolding hl m_def burst_mode_def d_def by metis
  obtain dev where dev: "dev_at 0 s1 = Ret dev" "vd_sfd dev = fd" using on_bus_dev [OF s1(3)] by blast
  have wb: "length (write_payload_cmd_buf s) = 4099" "take 4 (drop 7 (write_payload_cmd_buf s)) = [0, 0, 0, 0]"
    using on_bus_write_cmd_buf4 [OF assms(1)] by blast+
  note b = write_buffer [OF wb assms(2,3), where cmd = cmd]
  have mr: "mem_read (unat n) payload = Ret (take (unat n) payload)" using assms(3) by (simp add: mem_read_def)
  have sz: "2 \<le> unat n + 16" "unat n + 16 \<le> 4096" using assms(2) by simp_all
  from burst_send_transfers [OF s1(3) b(2-4) sz b(7,5,6), of "ending (fst m)", unfolded s1(2), folded left_over_def]
  obtain t where t: "burst_send k fd (ending (fst m)) ([1, hi8 (n + 16), lo8 (n + 16)] @
        packet n (ucast cmd) (take (unat n) payload) @ drop (15 + unat n) (write_payload_cmd_buf s)) s1 =
      (if fst r then ending (fst m) else GENERIC_ERROR, t)" "bus st t = snd r" "on_bus dk st k fd t"
    unfolding r_def write_payload_plan_def by blast
  have "adsd3500_write_payload_cmd k cmd payload n s = Ret (if fst r then ending (fst m) else GENERIC_ERROR, t)"
    using s1(1,4) dev mr b(1) t(1) by (simp add: adsd3500_write_payload_cmd_def)
  then show ?thesis using t(2,3) by blast
qed

section \<open>Properties\<close>

text \<open>A control framework for any driver: the state is computed from the calls.\<close>

definition no_sanswer :: sanswer where
  "no_sanswer = \<lparr>sa_ret = 0, sa_errno = 0, sa_chr = True, sa_caps = 0, sa_card = [], sa_value = 0, sa_bytes = [],
     sa_count = 0, sa_length = 0, sa_offset = 0, sa_index = 0, sa_bytesused = 0, sa_addr = 0, sa_data = []\<rparr>"

definition chip_next ::
  "kernel \<Rightarrow> int \<Rightarrow> u8 list \<times> adsd3500 \<Rightarrow> scall \<Rightarrow> sanswer \<times> u8 list \<times> adsd3500" where
  "chip_next dk fd x c =
     (case c of
        Ioctl f (S_EXT_CTRLS i buf) \<Rightarrow>
          if f = fd \<and> i = V4L2_CID_AD_DEV_CHIP_CONFIG
          then (case adsd3500_s_ctrl dk (chip_ctrl buf) (snd x) of ((r, ctrl), d) \<Rightarrow>
                  if r < 0 then (no_sanswer\<lparr>sa_ret := -1, sa_errno := - r\<rparr>, fst x, d)
                  else (no_sanswer\<lparr>sa_bytes := p_new ctrl\<rparr>, p_new ctrl, d))
          else (no_sanswer, x)
      | Ioctl f (G_EXT_CTRLS i buf) \<Rightarrow> (no_sanswer\<lparr>sa_bytes := fst x\<rparr>, x)
      | _ \<Rightarrow> (no_sanswer, x))"

definition chip_state :: "kernel \<Rightarrow> int \<Rightarrow> u8 list \<times> adsd3500 \<Rightarrow> scall list \<Rightarrow> u8 list \<times> adsd3500" where
  "chip_state dk fd x w = foldl (\<lambda>x c. snd (chip_next dk fd x c)) x w"

definition framework_env :: "kernel \<Rightarrow> int \<Rightarrow> u8 list \<times> adsd3500 \<Rightarrow> senv" where
  "framework_env dk fd x w c = fst (chip_next dk fd (chip_state dk fd x w) c)"

lemma chip_framework_env: "chip_framework dk fd (chip_state dk fd x) (framework_env dk fd x)"
  unfolding chip_framework_def
proof (intro conjI allI impI)
  fix w :: "scall list" and buf :: "u8 list"
  let ?r = "adsd3500_s_ctrl dk (chip_ctrl buf) (snd (chip_state dk fd x w))"
  obtain r ctrl d where "?r = ((r, ctrl), d)" by (metis surj_pair)
  then show "let c = Ioctl fd (S_EXT_CTRLS V4L2_CID_AD_DEV_CHIP_CONFIG buf) in
      case ?r of ((r, ctrl), d) \<Rightarrow>
        if r < 0 then sa_ret (framework_env dk fd x w c) = -1 \<and> sa_errno (framework_env dk fd x w c) = - r \<and>
            sa_bytes (framework_env dk fd x w c) = [] \<and> chip_state dk fd x (w @ [c]) = (fst (chip_state dk fd x w), d)
        else sa_ret (framework_env dk fd x w c) = 0 \<and> sa_bytes (framework_env dk fd x w c) = p_new ctrl \<and>
            chip_state dk fd x (w @ [c]) = (p_new ctrl, d)"
    by (simp add: framework_env_def chip_next_def chip_state_def no_sanswer_def)
qed (simp_all add: framework_env_def chip_next_def chip_state_def no_sanswer_def)

text \<open>A bus on which every transfer succeeds, and what is received is zero.\<close>

definition zero_bus :: kernel where
  "zero_bus = eager_kernel (\<lambda>h c. \<lparr>rc = 0, rval = 0,
     rdata = (case c of I2c_Master_Recv n \<Rightarrow> replicate n 0 | _ \<Rightarrow> [])\<rparr>)"

lemma zero_bus_transfers: "transfers zero_bus cs d = (True, d\<lparr>calls := calls d @ cs\<rparr>)"
  by (induction cs arbitrary: d) (simp_all add: zero_bus_def eager_kernel_def)

lemma zero_bus_received: "received zero_bus d (cs @ [I2c_Master_Recv n]) = replicate n 0"
  by (simp add: received_def zero_bus_def eager_kernel_def)

definition fresh_chip :: "u8 list \<times> adsd3500" where
  "fresh_chip = (replicate 4099 0xFF, idle_state)"

definition on_seven :: sensor where
  "on_seven = (Adsd3500Sensor ''/dev/video0'' ''/dev/v4l-subdev1'' ''mxc-isi-cap'' ON_TARGET mode_start)
     \<lparr>videoDevs := Some [new_VideoDev\<lparr>vd_sfd := 7\<rparr>]\<rparr>"

lemma on_seven_bus:
  "on_bus zero_bus (chip_state zero_bus 7 fresh_chip) (framework_env zero_bus 7 fresh_chip) 7 on_seven"
proof -
  have "bus_fills zero_bus" by (simp add: bus_fills_def zero_bus_def eager_kernel_def)
  moreover have "take 4 (drop 7 (replicate 4099 (0 :: u8))) = replicate 4 0" by simp
  then have "take 4 (drop 7 (replicate 4099 (0 :: u8))) = [0, 0, 0, 0]" by (simp add: numeral_eq_Suc [of "Num.Bit0 (Num.Bit0 num.One)"] numeral_3_eq_3)
  moreover have "replicate 4099 (0xFF :: u8) ! 0 = 0xFF" by (rule nth_replicate) simp
  ultimately show ?thesis
    using chip_framework_env
    by (simp add: on_bus_def static_buffers_def on_seven_def Adsd3500Sensor_def dev_at_def new_VideoDev_def chip_state_def fresh_chip_def)
qed

text \<open>C5: Through the control of the driver the sensor's commands are transfers on the bus, with the
  status of the first that fails: a command that writes is one transfer of four bytes, one that
  reads sends two bytes and receives two, the value's higher byte first; payloads are one transfer
  of their bytes.\<close>

theorem commands_on_bus:
  fixes cmd v n :: u16
  assumes "on_bus dk st k fd s" "2 \<le> unat n" "unat n \<le> 4096" "unat n \<le> length m"
  defines "w \<equiv> [I2c_Master_Send [hi8 cmd, lo8 cmd, hi8 v, lo8 v]]"
    and "r \<equiv> [I2c_Master_Send [hi8 cmd, lo8 cmd], I2c_Master_Recv 2]"
    and "wp \<equiv> [I2c_Master_Send (take (unat n) m)]" and "rp \<equiv> [I2c_Master_Recv (unat n)]"
    and "run \<equiv> (\<lambda>cs. transfers dk cs (bus st s))"
  shows "(\<exists>t. adsd3500_write_cmd k cmd v s = Ret (ending (fst (run w)), t) \<and> bus st t = snd (run w) \<and> on_bus dk st k fd t) \<and>
    (\<exists>t. adsd3500_read_cmd k cmd v us s =
        Ret (ending (fst (run r)), if fst (run r) then be16 (received dk (bus st s) r) else v, t) \<and>
      bus st t = snd (run r) \<and> on_bus dk st k fd t) \<and>
    (\<exists>t. adsd3500_write_payload k m n s = Ret (ending (fst (run wp)), t) \<and> bus st t = snd (run wp) \<and> on_bus dk st k fd t) \<and>
    (fst (st (s_calls s)) ! 0 \<noteq> 0 \<longrightarrow> (\<exists>t. adsd3500_read_payload k m n s =
        Ret (ending (fst (run rp)), if fst (run rp) then received dk (bus st s) rp @ drop (unat n) m else m, t) \<and>
      bus st t = snd (run rp) \<and> on_bus dk st k fd t))"
proof (intro conjI)
  show "\<exists>t. adsd3500_write_cmd k cmd v s = Ret (ending (fst (run w)), t) \<and> bus st t = snd (run w) \<and> on_bus dk st k fd t"
    unfolding run_def w_def using write_cmd_transfers [OF assms(1)] by metis
  show "\<exists>t. adsd3500_read_cmd k cmd v us s =
        Ret (ending (fst (run r)), if fst (run r) then be16 (received dk (bus st s) r) else v, t) \<and>
      bus st t = snd (run r) \<and> on_bus dk st k fd t"
    unfolding run_def r_def using read_cmd_transfers [OF assms(1)] by metis
  show "\<exists>t. adsd3500_write_payload k m n s = Ret (ending (fst (run wp)), t) \<and> bus st t = snd (run wp) \<and> on_bus dk st k fd t"
    unfolding run_def wp_def using write_payload_transfers [OF assms(1-4)] by metis
  show "fst (st (s_calls s)) ! 0 \<noteq> 0 \<longrightarrow> (\<exists>t. adsd3500_read_payload k m n s =
        Ret (ending (fst (run rp)), if fst (run rp) then received dk (bus st s) rp @ drop (unat n) m else m, t) \<and>
      bus st t = snd (run rp) \<and> on_bus dk st k fd t)"
    unfolding run_def rp_def using read_payload_transfers [OF assms(1-4)] by metis
qed

theorem commands_on_bus_witness:
  "\<exists>t. adsd3500_write_cmd (framework_env zero_bus 7 fresh_chip) 0x0022 30 on_seven = Ret (OK, t) \<and>
     calls (snd (chip_state zero_bus 7 fresh_chip (s_calls t))) = calls idle_state @ [I2c_Master_Send [0, 0x22, 0, 30]]"
proof -
  have n: "2 \<le> unat (2 :: u16)" "unat (2 :: u16) \<le> 4096" "unat (2 :: u16) \<le> length [0, 0 :: u8]" by simp_all
  have b: "hi8 0x22 = 0" "lo8 0x22 = 0x22" "hi8 30 = 0" "lo8 30 = 30" by (simp_all add: hi8_def lo8_def)
  have "chip_state zero_bus 7 fresh_chip (s_calls on_seven) = fresh_chip"
    by (simp add: chip_state_def on_seven_def Adsd3500Sensor_def)
  then show ?thesis
    using commands_on_bus [OF on_seven_bus n, of "0x22" 30, THEN conjunct1] unfolding b zero_bus_transfers
    by (auto simp: ending_def fresh_chip_def)
qed

theorem read_payload_cmd_transfers_witness:
  "\<exists>t. adsd3500_read_payload_cmd (framework_env zero_bus 7 fresh_chip) 5 [1, 2, 3] 2 on_seven = Ret (OK, [0, 0, 3], t)"
proof -
  have n: "2 \<le> unat (2 :: u16)" "unat (2 :: u16) \<le> 4096" "unat (2 :: u16) \<le> length [1, 2, 3 :: u8]" by simp_all
  have r: "read_payload_plan 5 1 2 = butlast (read_payload_plan 5 1 2) @ [I2c_Master_Recv 2]" by (simp add: read_payload_plan_def)
  have "received zero_bus d (read_payload_plan 5 1 2) = [0, 0]" for d
    by (subst r, subst zero_bus_received) (simp add: numeral_2_eq_2)
  then show ?thesis
    using read_payload_cmd_transfers [OF on_seven_bus n, of 5] unfolding zero_bus_transfers by (auto simp: ending_def)
qed

theorem write_payload_cmd_transfers_witness:
  "\<exists>t. adsd3500_write_payload_cmd (framework_env zero_bus 7 fresh_chip) 5 [1, 2, 3] 2 on_seven = Ret (OK, t)"
proof -
  have n: "unat (2 :: u16) \<le> 4080" "unat (2 :: u16) \<le> length [1, 2, 3 :: u8]" by simp_all
  show ?thesis
    using write_payload_cmd_transfers [OF on_seven_bus n, of 5] unfolding zero_bus_transfers by (auto simp: ending_def)
qed

end
