(* ===== verification/Usb_Remote.thy ===== *)
theory Usb_Remote
  imports Uvc_Host Sdk_Facts Sensor_Driver
begin

text \<open>
  Remote calls from end to end: what an operation of the host's sensor does on the target, through
  the extension unit of \<open>Uvc_Host\<close>, the handler of \<open>Sdk_Interface\<close>, the sensor of \<open>Adsd3500_Sensor\<close> and the
  driver behind it; which requests the handler survives, and what becomes of a storage.
\<close>

section \<open>The contract of a connection\<close>

text \<open>
  A connection carries requests of at most 255 bytes to a server, and brings back the responses
  that \<open>arrive\<close>. \<open>sees\<close> is the server's state as far as it can be told from the connection's.
\<close>

locale remote =
  fixes tr :: "'t transport"
    and serve :: "u8 list \<Rightarrow> 's \<Rightarrow> (u8 list \<times> 's) mem"
    and sees :: "'t \<Rightarrow> 's"
    and ready :: "'t \<Rightarrow> bool"
    and arrives :: "u8 list \<Rightarrow> bool"
  assumes called: "ready t \<Longrightarrow> req \<noteq> [] \<Longrightarrow> length req < 256 \<Longrightarrow> serve req (sees t) = Ret (resp, s') \<Longrightarrow> arrives resp \<Longrightarrow>
      \<exists>t1 t2. tr_send tr req t = Ret (OK, t1) \<and> tr_receive tr t1 = Ret (OK, resp, t2) \<and> sees t2 = s' \<and> ready t2"
begin

lemma exchange_called:
  assumes "ready t" "enc req \<noteq> []" "length (enc req) < 256" "serve (enc req) (sees t) = Ret (str, s')" "arrives str"
    and "dec str = (True, resp)"
  shows "\<exists>t'. exchange enc dec tr req t = Ret (rp_status resp, resp, t') \<and> sees t' = s' \<and> ready t'"
proof -
  obtain t1 t2 where "tr_send tr (enc req) t = Ret (OK, t1)" "tr_receive tr t1 = Ret (OK, str, t2)" "sees t2 = s'" "ready t2"
    using called [OF assms(1-5)] by blast
  then show ?thesis using assms(6) by (simp add: exchange_def)
qed

end

section \<open>The extension unit as a connection\<close>

definition gadget_transport ::
  "os \<Rightarrow> 'm gadget_scheme video_source_ops \<Rightarrow> u8 list \<Rightarrow> u8 list \<Rightarrow> u8 list \<Rightarrow> 'm gadget_scheme transport" where
  "gadget_transport k src junk buf pkt =
     \<lparr>tr_send = (\<lambda>req s. case send_packets k src (uvcExUnitSendRequest junk buf req) s of
                   Fault \<Rightarrow> Fault | Ret s \<Rightarrow> Ret (OK, s)),
      tr_receive = (\<lambda>s. case uvcExUnitGetResponse pkt s of
                   Fault \<Rightarrow> Fault
                 | Ret (None, s) \<Rightarrow> Ret (GENERIC_ERROR, [], s)
                 | Ret (Some d, s) \<Rightarrow> Ret (OK, d, s))\<rparr>"

text \<open>The state of a server after the requests that were handled so far.\<close>

definition serve_step :: "(u8 list \<Rightarrow> 's \<Rightarrow> (u8 list \<times> 's) mem) \<Rightarrow> 's \<Rightarrow> sys \<Rightarrow> 's" where
  "serve_step serve s c =
     (case c of
        Handle_Client_Request req \<Rightarrow> (case serve req s of Fault \<Rightarrow> s | Ret (resp, s') \<Rightarrow> s')
      | _ \<Rightarrow> s)"

definition served :: "(u8 list \<Rightarrow> 's \<Rightarrow> (u8 list \<times> 's) mem) \<Rightarrow> 's \<Rightarrow> world \<Rightarrow> 's" where
  "served serve s w = foldl (serve_step serve) s w"

text \<open>
  The handler of the application is the server. Memory is there; the buffers of the host have 60
  bytes.
\<close>

definition gadget_ready ::
  "os \<Rightarrow> (u8 list \<Rightarrow> 's \<Rightarrow> (u8 list \<times> 's) mem) \<Rightarrow> 's \<Rightarrow> u8 list \<Rightarrow> u8 list \<Rightarrow> 'm gadget_scheme \<Rightarrow> bool" where
  "gadget_ready k serve s0 buf pkt s \<longleftrightarrow>
     (\<forall>w req resp s'. serve req (served serve s0 w) = Ret (resp, s') \<longrightarrow> a_bytes (k w (Handle_Client_Request req)) = resp) \<and>
     (\<forall>w. 0 \<le> ret (k w Malloc)) \<and> length buf = 60 \<and> length pkt = 60 \<and>
     xu_reachable s \<and> \<not> blob_len_read s \<and> \<not> resp_len_sent s"

lemma served_snoc: "served serve s0 (w @ [c]) = serve_step serve (served serve s0 w) c"
  by (simp add: served_def)

interpretation gadget: remote "gadget_transport k src junk buf pkt" serve "\<lambda>s. served serve s0 (app_world s)"
  "gadget_ready k serve s0 buf pkt" "\<lambda>d. whole pkt (length d)"
  for k :: os and src :: "'m gadget_scheme video_source_ops" and junk buf pkt serve s0
proof unfold_locales
  fix s :: "'m gadget_scheme" and req resp s'
  assume r: "gadget_ready k serve s0 buf pkt s" and req: "req \<noteq> []" "length req < 256"
    and sv: "serve req (served serve s0 (app_world s)) = Ret (resp, s')" and wh: "whole pkt (length resp)"
  let ?w = "app_world s @ [Malloc]"
  have sm: "served serve s0 ?w = served serve s0 (app_world s)" by (simp add: served_snoc serve_step_def)
  have a: "a_bytes (k ?w (Handle_Client_Request req)) = resp"
    using r sv unfolding gadget_ready_def sm [symmetric] by blast
  have m: "0 \<le> ret (k (app_world s) Malloc)" "length buf = 60" "length pkt = 60" "xu_reachable s" "\<not> blob_len_read s" "\<not> resp_len_sent s"
    using r by (simp_all add: gadget_ready_def)
  have t: "take (length req mod 256) req = req" using req(2) by simp
  obtain u where u: "send_packets k src (uvcExUnitSendRequest junk buf req) s = Ret u"
    "app_world u = app_world s @ [Malloc, Handle_Client_Request req]" "out_data u = Some resp" "out_len u = length resp"
    "\<not> blob_len_read u" "xu_reachable u"
    using request_value [where k = k and s = s and src = src and junk = junk, OF m(4,5,1) req(1) m(2)] req(2)
    unfolding t a by auto
  have su: "\<not> resp_len_sent u" using send_packets_frame [OF m(4) u(1)] m(6) by simp
  obtain v where v: "uvcExUnitGetResponse pkt u = Ret (Some resp, v)" "\<not> resp_len_sent v"
    using response_value [OF u(6) su u(3,4) wh m(3)] by blast
  note f = response_reads [OF u(6) v(1)]
  have w: "app_world v = ?w @ [Handle_Client_Request req]" using f u(2) by (simp add: reads_def)
  have "served serve s0 (app_world v) = s'" unfolding w served_snoc sm by (simp add: serve_step_def sv)
  moreover have "gadget_ready k serve s0 buf pkt v"
    using r f u(5) v(2) reads_reachable [OF f u(6)] by (simp add: gadget_ready_def reads_def)
  ultimately show "\<exists>t1 t2. tr_send (gadget_transport k src junk buf pkt) req s = Ret (OK, t1) \<and>
      tr_receive (gadget_transport k src junk buf pkt) t1 = Ret (OK, resp, t2) \<and>
      served serve s0 (app_world t2) = s' \<and> gadget_ready k serve s0 buf pkt t2"
    using u(1) v(1) by (intro exI [of _ u] exI [of _ v]) (simp add: gadget_transport_def)
qed

section \<open>The SDK behind the connection\<close>

text \<open>
  A request that fits: it is not empty, shorter than 256 bytes, without a zero byte, and parses to
  what was encoded. A response that fits arrives and decodes to what was encoded.
\<close>

definition message_fits :: "encoder \<Rightarrow> (u8 list \<Rightarrow> bool \<times> ClientRequest) \<Rightarrow> ClientRequest \<Rightarrow> bool" where
  "message_fits enc parse req \<longleftrightarrow> enc req \<noteq> [] \<and> length (enc req) < 256 \<and> 0 \<notin> set (enc req) \<and> snd (parse (enc req)) = req"

definition answer_fits :: "(ServerResponse \<Rightarrow> u8 list) \<Rightarrow> decoder \<Rightarrow> u8 list \<Rightarrow> ServerResponse \<Rightarrow> bool" where
  "answer_fits ser dec pkt resp \<longleftrightarrow> whole pkt (length (ser resp)) \<and> dec (ser resp) = (True, resp)"

definition sdk_state where
  "sdk_state parse ser ops sops heap s0 t = served (handleClientRequest parse ser ops sops heap) s0 (app_world t)"

definition sdk_ready where
  "sdk_ready k parse ser ops sops heap s0 buf pkt t = gadget_ready k (handleClientRequest parse ser ops sops heap) s0 buf pkt t"

lemma handle_whole:
  "0 \<notin> set req \<Longrightarrow> handleClientRequest parse ser ops sops heap req s =
    (case serve_request ops sops heap (snd (parse req)) s of Fault \<Rightarrow> Fault | Ret (resp, s) \<Rightarrow> Ret (ser resp, s))"
proof -
  assume "0 \<notin> set req"
  then have "takeWhile (\<lambda>b. b \<noteq> 0) (req @ [0]) = req" by (subst takeWhile_append2) auto
  then show ?thesis by (simp add: handleClientRequest_def case_prod_unfold)
qed

lemma sdk_exchange:
  assumes "sdk_ready k parse ser ops sops heap s0 buf pkt t" "message_fits enc parse req"
    and "serve_request ops sops heap req (sdk_state parse ser ops sops heap s0 t) = Ret (resp, s')"
    and "answer_fits ser dec pkt resp"
  shows "\<exists>t'. exchange enc dec (gadget_transport k src junk buf pkt) req t = Ret (rp_status resp, resp, t') \<and>
    sdk_state parse ser ops sops heap s0 t' = s' \<and> sdk_ready k parse ser ops sops heap s0 buf pkt t'"
proof -
  have m: "enc req \<noteq> []" "length (enc req) < 256" "0 \<notin> set (enc req)" "snd (parse (enc req)) = req"
    using assms(2) by (simp_all add: message_fits_def)
  have h: "handleClientRequest parse ser ops sops heap (enc req) (sdk_state parse ser ops sops heap s0 t) = Ret (ser resp, s')"
    using m(4) assms(3) by (simp add: handle_whole [OF m(3)])
  show ?thesis
    using gadget.exchange_called [where enc = enc and req = req and dec = dec and resp = resp and src = src and junk = junk,
        OF assms(1) [unfolded sdk_ready_def] m(1,2) h [unfolded sdk_state_def]] assms(4)
    unfolding sdk_state_def sdk_ready_def answer_fits_def by blast
qed

lemma read_le16: "mem_read 2 (c_str (le16 d)) = Ret (le16 d)"
  by (simp add: mem_read_def c_str_def le16_def)

lemma get16_le16_0: "get16 (le16 d) 0 = d"
  using get16_le16 [of "[]" d "[]"] by simp

lemma ucast_down_up: "ucast (ucast (x :: u16) :: u32) = x"
  by (rule bit_word_eqI) (simp add: bit_simps)

text \<open>What the handler makes of the requests.\<close>

lemma serve_write_cmd:
  "serve_request ops sops heap (write_cmd_msg cmd data) s =
    (case ds_write_cmd ops cmd data (camDepthSensor s) of
       Fault \<Rightarrow> Fault | Ret (r, c) \<Rightarrow> Ret (new_response\<lparr>rp_status := r\<rparr>, s\<lparr>camDepthSensor := c\<rparr>))"
  by (simp add: serve_request_def write_cmd_request_def write_cmd_msg_def param_def read_le16 get16_le16_0 ucast_down_up)

lemma serve_read_cmd:
  "serve_request ops sops heap (read_cmd_msg cmd us) s =
    (case ds_read_cmd ops cmd (get16 (fresh_bytes heap 2) 0) us (camDepthSensor s) of
       Fault \<Rightarrow> Fault
     | Ret (r, v, c) \<Rightarrow> Ret (new_response\<lparr>bytes_payload := (if r = OK then [le16 v] else []), rp_status := r\<rparr>, s\<lparr>camDepthSensor := c\<rparr>))"
  by (simp add: serve_request_def read_cmd_request_def read_cmd_msg_def param_def ucast_down_up)

lemma serve_read_payload_cmd:
  assumes "length first = 4" "4 \<le> unat n"
  shows "serve_request ops sops heap (read_payload_cmd_msg cmd first n) s =
    (case ds_read_payload_cmd ops cmd (first @ drop 4 (fresh_bytes heap (unat n))) n (camDepthSensor s) of
       Fault \<Rightarrow> Fault
     | Ret (r, data, c) \<Rightarrow> Ret (new_response\<lparr>bytes_payload := (if r = OK then [data] else []), rp_status := r\<rparr>, s\<lparr>camDepthSensor := c\<rparr>))"
proof -
  have "mem_read 4 (c_str first) = Ret first" using assms(1) by (simp add: mem_read_def c_str_def)
  moreover have "mem_write 0 first (fresh_bytes heap (unat n)) = Ret (first @ drop 4 (fresh_bytes heap (unat n)))"
    using assms by (simp add: mem_write_def fresh_bytes_def)
  ultimately show ?thesis
    by (simp add: serve_request_def read_payload_cmd_request_def read_payload_cmd_msg_def param_def ucast_down_up)
qed

section \<open>From the host to the bus\<close>

lemma received_length:
  assumes "bus_fills dk" "fst (transfers dk (cs @ [I2c_Master_Recv n]) d)"
  shows "length (received dk d (cs @ [I2c_Master_Recv n])) = n"
proof -
  have ok: "fst (transfers dk cs d)" "0 \<le> rc (env dk (calls (snd (transfers dk cs d))) (I2c_Master_Recv n))"
    using assms(2) by (simp_all add: transfers_append split: if_splits)
  then show ?thesis using assms(1) transfers_calls [OF ok(1)] by (simp add: received_def bus_fills_def)
qed

lemma sdk_exchange_bus:
  assumes "sdk_ready k parse ser ops sops heap s0 buf pkt t" "message_fits enc parse req"
    and "serve_request ops sops heap req (sdk_state parse ser ops sops heap s0 t) =
      Ret (resp, (sdk_state parse ser ops sops heap s0 t)\<lparr>camDepthSensor := c\<rparr>)"
    and "answer_fits ser dec pkt resp"
  obtains t' where "exchange enc dec (gadget_transport k src junk buf pkt) req t = Ret (rp_status resp, resp, t')"
    "camDepthSensor (sdk_state parse ser ops sops heap s0 t') = c" "sdk_ready k parse ser ops sops heap s0 buf pkt t'"
  using sdk_exchange [OF assms, of src junk] by auto




text \<open>The frame types that the sensor offers on the target are those that the host finds, and asking for them
  changes nothing on the target.\<close>

theorem host_finds_offered_types:
  fixes parse ser nodes adsd3030 sops heap s0
  defines "state \<equiv> sdk_state parse ser (adsd3500_ops nodes adsd3030) sops heap s0"
  assumes "sdk_ready k parse ser (adsd3500_ops nodes adsd3030) sops heap s0 buf pkt t"
    and "message_fits enc parse available_types_request"
    and "answer_fits ser dec pkt (new_response\<lparr>available_frame_types :=
      convertDepthSensorFrameTypesToProtoMsg (availableTypes (camDepthSensor (state t))), rp_status := OK\<rparr>)"
  shows "\<exists>t'. usb_available_types enc dec (gadget_transport k src junk buf pkt) types t =
      Ret (OK, availableTypes (camDepthSensor (state t)), t') \<and>
    camDepthSensor (state t') = camDepthSensor (state t) \<and>
    sdk_ready k parse ser (adsd3500_ops nodes adsd3030) sops heap s0 buf pkt t'"
proof -
  let ?c = "camDepthSensor (state t)"
  let ?p = "new_response\<lparr>available_frame_types := convertDepthSensorFrameTypesToProtoMsg (availableTypes ?c), rp_status := OK\<rparr>"
  have "serve_request (adsd3500_ops nodes adsd3030) sops heap available_types_request (state t) =
      Ret (?p, (state t)\<lparr>camDepthSensor := ?c\<rparr>)"
    by (simp add: serve_request_def available_types_request_def adsd3500_ops_def getAvailableFrameTypes_def)
  from sdk_exchange_bus [OF assms(2,3) this [unfolded state_def] assms(4) [unfolded state_def], of src junk]
  obtain t' where t': "exchange enc dec (gadget_transport k src junk buf pkt) available_types_request t = Ret (OK, ?p, t')"
    "camDepthSensor (state t') = ?c" "sdk_ready k parse ser (adsd3500_ops nodes adsd3030) sops heap s0 buf pkt t'"
    unfolding state_def by auto
  then show ?thesis by (simp add: usb_available_types_def frame_types_back)
qed

section \<open>A gadget with the SDK\<close>

text \<open>An operating system on which memory is there, and whose application answers as the handler does.\<close>

definition serving_os :: "(u8 list \<Rightarrow> 's \<Rightarrow> (u8 list \<times> 's) mem) \<Rightarrow> 's \<Rightarrow> os" where
  "serving_os serve s0 w c =
     (case c of
        Handle_Client_Request req \<Rightarrow>
          (case serve req (served serve s0 w) of Fault \<Rightarrow> ok_answer | Ret (resp, s) \<Rightarrow> ok_answer\<lparr>a_bytes := resp\<rparr>)
      | _ \<Rightarrow> ok_answer)"

lemma serving_os_ready: "gadget_ready (serving_os serve s0) serve s0 (replicate 60 0) (replicate 60 0) sample_gadget"
proof -
  have "a_bytes (serving_os serve s0 w (Handle_Client_Request req)) = resp"
    if "serve req (served serve s0 w) = Ret (resp, s')" for w req resp s'
    using that by (simp add: serving_os_def)
  moreover have "0 \<le> ret (serving_os serve s0 w Malloc)" for w by (simp add: serving_os_def ok_answer_def)
  moreover have "\<not> blob_len_read sample_gadget" "\<not> resp_len_sent sample_gadget" by (simp_all add: sample_gadget_def)
  ultimately show ?thesis
    unfolding gadget_ready_def by (intro conjI allI impI sample_reachable length_replicate) blast+
qed

lemma served_start: "served serve s0 (app_world sample_gadget) = s0"
  by (simp add: served_def sample_gadget_def)

lemma whole_zeros: "n < 2 ^ 31 \<Longrightarrow> whole (replicate 60 0) n"
  by (auto simp: whole_def intro!: nth_replicate)

text \<open>A codec for one request and one response.\<close>

lemma one_request_fits: "message_fits (\<lambda>_. [1]) (\<lambda>_. (True, rq)) rq"
  by (simp add: message_fits_def)

lemma one_response_fits: "answer_fits (\<lambda>_. []) (\<lambda>_. (True, p)) (replicate 60 0) p"
  by (simp add: answer_fits_def whole_zeros)

abbreviation seven_ops :: "sensor depth_sensor_interface" where
  "seven_ops \<equiv> adsd3500_ops (framework_env zero_bus 7 fresh_chip) False"

definition seven_handler :: "ClientRequest \<Rightarrow> u8 list \<Rightarrow> (sensor, eeprom) sdk \<Rightarrow> (u8 list \<times> (sensor, eeprom) sdk) mem" where
  "seven_handler rq = handleClientRequest (\<lambda>_. (True, rq)) (\<lambda>_. []) seven_ops eeprom_ops (\<lambda>_. 0)"

lemma seven_ready:
  "sdk_ready (serving_os (seven_handler rq) (sample_sdk on_seven [])) (\<lambda>_. (True, rq)) (\<lambda>_. []) seven_ops eeprom_ops (\<lambda>_. 0)
     (sample_sdk on_seven []) (replicate 60 0) (replicate 60 0) sample_gadget"
  unfolding sdk_ready_def seven_handler_def [symmetric] by (rule serving_os_ready)

lemma seven_state:
  "sdk_state (\<lambda>_. (True, rq)) (\<lambda>_. []) seven_ops eeprom_ops (\<lambda>_. 0) (sample_sdk on_seven []) sample_gadget = sample_sdk on_seven []"
  unfolding sdk_state_def by (rule served_start)

lemma seven_bus:
  "on_bus zero_bus (chip_state zero_bus 7 fresh_chip) (framework_env zero_bus 7 fresh_chip) 7
     (camDepthSensor (sdk_state (\<lambda>_. (True, rq)) (\<lambda>_. []) seven_ops eeprom_ops (\<lambda>_. 0) (sample_sdk on_seven []) sample_gadget))"
  unfolding seven_state using on_seven_bus by (simp only: sample_sdk_def sdk.simps)




theorem host_finds_offered_types_witness:
  "\<exists>p t. usb_available_types (\<lambda>_. [1]) (\<lambda>_. (True, p))
     (gadget_transport (serving_os (seven_handler available_types_request) (sample_sdk on_seven []))
        (v4l2_source_ops ok_os) [] (replicate 60 0) (replicate 60 0)) [] sample_gadget = Ret (OK, [], t)"
proof -
  have a: "availableTypes (camDepthSensor (sample_sdk on_seven [])) = []"
    by (simp add: sample_sdk_def on_seven_def Adsd3500Sensor_def)
  let ?p = "new_response\<lparr>available_frame_types := [], rp_status := OK\<rparr>"
  have "convertDepthSensorFrameTypesToProtoMsg [] = []" by (simp add: convertDepthSensorFrameTypesToProtoMsg_def)
  then show ?thesis
    using host_finds_offered_types [OF seven_ready one_request_fits, unfolded seven_state a, where dec = "\<lambda>_. (True, ?p)" and junk = "[]"
        and src = "v4l2_source_ops ok_os" and types = "[]"] one_response_fits [of ?p]
    by auto
qed

end
