(* ===== verification/Usb_Search.thy ===== *)
theory Usb_Search
  imports Usb_Camera Usb_Remote
begin

text \<open>
  Finding the camera on the host, \<^verbatim>\<open>sdk/src/connections/usb/linux/usb_sensor_enumerator.cpp\<close>: the nodes
  in \<^verbatim>\<open>/dev\<close> that are the gadget, what the target is asked then, and the objects that are made of its
  answer. The conventions are those of \<open>Usb_Camera\<close>.
\<close>

section \<open>The state\<close>

record 't usb_enumerator =
  ue_fd :: int
  ue_sensorName :: string
  ue_sensors :: "string list"
  ue_storages :: "(string \<times> u32) list"
  ue_temps :: "(string \<times> u32) list"
  ue_uboot :: string
  ue_kernel :: string
  ue_sd :: string
  ue_calls :: "hcall list"
  ue_link :: 't

definition ecall :: "henv \<Rightarrow> hcall \<Rightarrow> 't usb_enumerator \<Rightarrow> hanswer \<times> 't usb_enumerator" where
  "ecall k c e = (k (ue_calls e) c, e\<lparr>ue_calls := ue_calls e @ [c]\<rparr>)"

definition eioctl :: "henv \<Rightarrow> hrequest \<Rightarrow> 't usb_enumerator \<Rightarrow> (hanswer \<times> 't usb_enumerator) option" where
  "eioctl k r e =
     (case usb_xioctl k (ue_fd e) r (ue_calls e) of None \<Rightarrow> None | Some (a, w) \<Rightarrow> Some (a, e\<lparr>ue_calls := w\<rparr>))"

section \<open>Nodes\<close>

definition gadget_name :: string where
  "gadget_name = ''ADI TOF USB Gadget''"

definition dev_path :: "string \<Rightarrow> string" where
  "dev_path name = ''/dev/'' @ name"

text \<open>Not the name of the gadget but the letters of its kind: how many of \<^verbatim>\<open>video\<close> the name has.\<close>

definition video_letters :: "string \<Rightarrow> nat" where
  "video_letters name = length (takeWhile (\<lambda>c. c \<in> set name) ''video'')"

text \<open>
  Whether a node is taken; its descriptor stays open then. The capabilities that could not be asked
  for, unless the device says that it is not one for video, are what the stack holds: here, what the
  answer says.
\<close>

definition check_opened :: "henv \<Rightarrow> 't usb_enumerator \<Rightarrow> (bool \<times> 't usb_enumerator) option" where
  "check_opened k e =
     (let close = (\<lambda>e. Some (False, snd (ecall k (H_Close (ue_fd e)) e))) in
      case eioctl k H_Querycap e of
        None \<Rightarrow> None
      | Some (cap, e) \<Rightarrow>
          if ha_ret cap = -1 \<and> ha_errno cap = EINVAL then close e
          else (case eioctl k H_G_Fmt e of
                  None \<Rightarrow> None
                | Some (a, e) \<Rightarrow>
                    if ha_ret a = -1 then close e
                    else if take (length gadget_name) (ha_card cap) \<noteq> gadget_name then close e
                    else if ha_caps cap AND CAP_VIDEO_CAPTURE = 0 then close e
                    else if ha_caps cap AND CAP_STREAMING = 0 then close e
                    else Some (True, e)))"

definition check_node :: "henv \<Rightarrow> string \<Rightarrow> 't usb_enumerator \<Rightarrow> (bool \<times> 't usb_enumerator) option" where
  "check_node k name e =
     (if video_letters name \<noteq> 5 then Some (False, e)
      else case ecall k (H_Stat (dev_path name)) e of (st, e) \<Rightarrow>
        if ha_ret st = -1 then Some (False, e)
        else if \<not> ha_chr st then Some (False, e)
        else case ecall k (H_Open (dev_path name)) e of (a, e) \<Rightarrow>
          let e = e\<lparr>ue_fd := ha_ret a\<rparr> in
          if ha_ret a = -1 then Some (False, e) else check_opened k e)"

section \<open>The target\<close>

definition search_request :: ClientRequest where
  "search_request = new_request\<lparr>func_name := SEARCH_SENSORS, func_int32_param := [1]\<rparr>"

definition no_sensors_info :: SensorsInfo where
  "no_sensors_info = \<lparr>info_storages = [], temp_sensors = [], image_sensors = ''''\<rparr>"

definition no_card_version :: CardImageVersion where
  "no_card_version = \<lparr>kernelversion = '''', sdversion = '''', ubootversion = ''''\<rparr>"

text \<open>The temperature sensors are appended to the storages.\<close>

definition take_answer :: "string \<Rightarrow> ServerResponse \<Rightarrow> 't usb_enumerator \<Rightarrow> 't usb_enumerator" where
  "take_answer path response e =
     (let info = (case sensors_info response of None \<Rightarrow> no_sensors_info | Some i \<Rightarrow> i);
          card = (case card_image_version response of None \<Rightarrow> no_card_version | Some c \<Rightarrow> c)
      in e\<lparr>ue_sensors := ue_sensors e @ [path], ue_sensorName := image_sensors info,
           ue_storages := info_storages info @ temp_sensors info, ue_temps := [],
           ue_kernel := kernelversion card, ue_sd := sdversion card, ue_uboot := ubootversion card\<rparr>)"

definition query_target ::
  "encoder \<Rightarrow> decoder \<Rightarrow> 't transport \<Rightarrow> string \<Rightarrow> 't usb_enumerator \<Rightarrow> (status \<times> 't usb_enumerator) mem" where
  "query_target enc dec tr path e =
     (case exchange enc dec tr search_request (ue_link e) of
        Fault \<Rightarrow> Fault
      | Ret (r, response, t) \<Rightarrow>
          Ret (r, if r \<noteq> OK then e\<lparr>ue_link := t\<rparr> else take_answer path response (e\<lparr>ue_link := t\<rparr>)))"

text \<open>A request that fails ends the search, and the directory is not closed.\<close>

partial_function (option) search_loop ::
  "encoder \<Rightarrow> decoder \<Rightarrow> 't transport \<Rightarrow> henv \<Rightarrow> status \<Rightarrow> 't usb_enumerator \<Rightarrow> (status \<times> 't usb_enumerator) mem option" where
  "search_loop enc dec tr k status e =
     (case ecall k H_Readdir e of (d, e) \<Rightarrow>
      (case ha_name d of
         None \<Rightarrow> Some (Ret (status, snd (ecall k H_Closedir e)))
       | Some name \<Rightarrow>
           (case check_node k name e of
              None \<Rightarrow> None
            | Some (found, e) \<Rightarrow>
                if \<not> found then search_loop enc dec tr k status e
                else (case query_target enc dec tr (dev_path name) e of
                        Fault \<Rightarrow> Some Fault
                      | Ret (r, e) \<Rightarrow> if r \<noteq> OK then Some (Ret (r, e)) else search_loop enc dec tr k r e))))"

definition usb_searchSensors ::
  "encoder \<Rightarrow> decoder \<Rightarrow> 't transport \<Rightarrow> henv \<Rightarrow> 't usb_enumerator \<Rightarrow> (status \<times> 't usb_enumerator) mem option" where
  "usb_searchSensors enc dec tr k e =
     (case ecall k (H_Opendir ''/dev/'') e of (d, e) \<Rightarrow>
        if ha_ret d < 0 then Some (Ret (UNREACHABLE, e)) else search_loop enc dec tr k OK e)"

section \<open>The objects\<close>

definition usb_getDepthSensors :: "host_format \<Rightarrow> int \<Rightarrow> 't usb_enumerator \<Rightarrow> status \<times> 't usb_sensor list" where
  "usb_getDepthSensors fmt0 fps0 e =
     (OK, map (\<lambda>path. UsbDepthSensor (ue_sensorName e) path fmt0 fps0 (ue_calls e) (ue_link e)) (ue_sensors e))"

definition usb_getStorages :: "'t usb_enumerator \<Rightarrow> status \<times> usb_storage list" where
  "usb_getStorages e = (OK, map (\<lambda>(name, i). UsbStorage name (ucast i)) (ue_storages e))"

definition usb_getTemperatureSensors :: "'t usb_enumerator \<Rightarrow> status \<times> usb_temperature list" where
  "usb_getTemperatureSensors e = (OK, map (\<lambda>(name, i). UsbTemperatureSensor name (ucast i)) (ue_temps e))"

definition usb_getUbootVersion :: "'t usb_enumerator \<Rightarrow> status \<times> string" where
  "usb_getUbootVersion e = (OK, ue_uboot e)"

definition usb_getKernelVersion :: "'t usb_enumerator \<Rightarrow> status \<times> string" where
  "usb_getKernelVersion e = (OK, ue_kernel e)"

definition usb_getSdVersion :: "'t usb_enumerator \<Rightarrow> status \<times> string" where
  "usb_getSdVersion e = (OK, ue_sd e)"

section \<open>A host with one gadget\<close>

text \<open>
  The directory lists \<open>names\<close>. The node \<open>g\<close>, among them, opens as \<open>fd\<close> and is the gadget; every other one
  is not a device for video, does not open, or opens as a descriptor with another card. No call is
  refused for good or needs to be made again.
\<close>

definition lists :: "henv \<Rightarrow> string list \<Rightarrow> bool" where
  "lists k names \<longleftrightarrow>
     (\<forall>w. 0 \<le> ha_ret (k w (H_Opendir ''/dev/''))) \<and>
     (\<forall>w. let i = length (filter (\<lambda>c. c = H_Readdir) w) in
        ha_name (k w H_Readdir) = (if i < length names then Some (names ! i) else None))"

definition other_node :: "henv \<Rightarrow> string \<Rightarrow> bool" where
  "other_node k name \<longleftrightarrow> video_letters name \<noteq> 5 \<or> (\<forall>w. \<not> ha_chr (k w (H_Stat (dev_path name)))) \<or>
     (\<exists>fd. (\<forall>w. ha_ret (k w (H_Open (dev_path name))) = fd) \<and>
        (fd = -1 \<or>
          (\<forall>w r. ha_ret (k w (H_Ioctl fd r)) = 0) \<and>
          (\<forall>w. take (length gadget_name) (ha_card (k w (H_Ioctl fd H_Querycap))) \<noteq> gadget_name)))"

definition gadget_node :: "henv \<Rightarrow> string \<Rightarrow> int \<Rightarrow> bool" where
  "gadget_node k name fd \<longleftrightarrow> video_letters name = 5 \<and> fd \<noteq> -1 \<and>
     (\<forall>w. ha_ret (k w (H_Stat (dev_path name))) = 0 \<and> ha_chr (k w (H_Stat (dev_path name)))) \<and>
     (\<forall>w. ha_ret (k w (H_Open (dev_path name))) = fd) \<and> (\<forall>w r. ha_ret (k w (H_Ioctl fd r)) = 0) \<and>
     (\<forall>w. take (length gadget_name) (ha_card (k w (H_Ioctl fd H_Querycap))) = gadget_name \<and>
        ha_caps (k w (H_Ioctl fd H_Querycap)) AND CAP_VIDEO_CAPTURE \<noteq> 0 \<and>
        ha_caps (k w (H_Ioctl fd H_Querycap)) AND CAP_STREAMING \<noteq> 0)"

text \<open>What was found is not touched, and the directory is not read further.\<close>

definition only_looked :: "'t usb_enumerator \<Rightarrow> 't usb_enumerator \<Rightarrow> bool" where
  "only_looked e f \<longleftrightarrow> f = e\<lparr>ue_calls := ue_calls f, ue_fd := ue_fd f\<rparr> \<and>
     filter (\<lambda>c. c = H_Readdir) (ue_calls f) = filter (\<lambda>c. c = H_Readdir) (ue_calls e)"

lemma eioctl_zero:
  "ha_ret (k (ue_calls e) (H_Ioctl (ue_fd e) r)) = 0 \<Longrightarrow>
    eioctl k r e = Some (k (ue_calls e) (H_Ioctl (ue_fd e) r), e\<lparr>ue_calls := ue_calls e @ [H_Ioctl (ue_fd e) r]\<rparr>)"
  by (simp add: eioctl_def xioctl_zero [where k = k])

lemma check_other: "other_node k name \<Longrightarrow> \<exists>f. check_node k name e = Some (False, f) \<and> only_looked e f"
proof -
  assume o: "other_node k name"
  consider (name) "video_letters name \<noteq> 5" | (stat) "video_letters name = 5" "\<not> ha_chr (k (ue_calls e) (H_Stat (dev_path name)))"
    | (fd) fd where "video_letters name = 5" "\<forall>w. ha_ret (k w (H_Open (dev_path name))) = fd"
      "fd = -1 \<or> (\<forall>w r. ha_ret (k w (H_Ioctl fd r)) = 0) \<and>
        (\<forall>w. take (length gadget_name) (ha_card (k w (H_Ioctl fd H_Querycap))) \<noteq> gadget_name)"
    using o unfolding other_node_def by blast
  then show ?thesis
    by cases (auto simp: check_node_def check_opened_def ecall_def eioctl_zero Let_def only_looked_def)
qed

lemma check_gadget:
  "gadget_node k name fd \<Longrightarrow> \<exists>f. check_node k name e = Some (True, f) \<and> only_looked e f"
  unfolding gadget_node_def
  by (auto simp: check_node_def check_opened_def ecall_def eioctl_zero Let_def only_looked_def)

section \<open>The search\<close>

definition readdirs :: "hcall list \<Rightarrow> nat" where
  "readdirs w = length (filter (\<lambda>c. c = H_Readdir) w)"

lemma readdirs_looked: "only_looked e f \<Longrightarrow> readdirs (ue_calls f) = readdirs (ue_calls e)"
  by (metis only_looked_def readdirs_def)

definition found_same :: "'t usb_enumerator \<Rightarrow> 't usb_enumerator \<Rightarrow> bool" where
  "found_same e f \<longleftrightarrow> (\<exists>w fd. f = e\<lparr>ue_calls := w, ue_fd := fd\<rparr>)"

lemma found_same_calls [simp]: "found_same e (e\<lparr>ue_calls := w\<rparr>)"
  unfolding found_same_def by (rule exI [of _ w], rule exI [of _ "ue_fd e"]) simp

lemma found_same_trans: "found_same e f \<Longrightarrow> found_same f g \<Longrightarrow> found_same e g"
  unfolding found_same_def by clarsimp blast

lemma looked_same: "only_looked e f \<Longrightarrow> found_same e f"
  unfolding only_looked_def found_same_def by blast

lemma found_same_refl [simp]: "found_same e e"
  using found_same_calls [of e "ue_calls e"] by simp

lemma found_same_fields:
  assumes "found_same e f"
  shows "ue_sensors f = ue_sensors e" "ue_storages f = ue_storages e" "ue_temps f = ue_temps e" "ue_sensorName f = ue_sensorName e"
    "ue_link f = ue_link e" "ue_kernel f = ue_kernel e" "ue_sd f = ue_sd e" "ue_uboot f = ue_uboot e"
  using assms by (auto simp: found_same_def)

lemma next_name:
  assumes "lists k names"
  shows "\<exists>f. ecall k H_Readdir e = (k (ue_calls e) H_Readdir, f) \<and> found_same e f \<and> readdirs (ue_calls f) = Suc (readdirs (ue_calls e)) \<and>
    ha_name (k (ue_calls e) H_Readdir) = (if readdirs (ue_calls e) < length names then Some (names ! readdirs (ue_calls e)) else None)"
proof -
  have "ha_name (k (ue_calls e) H_Readdir) = (if readdirs (ue_calls e) < length names then Some (names ! readdirs (ue_calls e)) else None)"
    using assms by (simp add: lists_def Let_def readdirs_def)
  then show ?thesis by (simp add: ecall_def readdirs_def)
qed

lemma search_others:
  "lists k names \<Longrightarrow> list_all (other_node k) xs \<Longrightarrow> drop (readdirs (ue_calls e)) names = xs @ ys \<Longrightarrow>
    \<exists>f. search_loop enc dec tr k status e = search_loop enc dec tr k status f \<and> found_same e f \<and>
      drop (readdirs (ue_calls f)) names = ys"
proof (induction xs arbitrary: e)
  case (Cons x xs)
  let ?i = "readdirs (ue_calls e)"
  obtain f where f: "ecall k H_Readdir e = (k (ue_calls e) H_Readdir, f)" "found_same e f" "readdirs (ue_calls f) = Suc ?i"
    "ha_name (k (ue_calls e) H_Readdir) = (if ?i < length names then Some (names ! ?i) else None)"
    using next_name [OF Cons.prems(1)] by blast
  have i: "?i < length names" "names ! ?i = x" "drop (Suc ?i) names = xs @ ys"
    using Cons.prems(3) by (metis append_Cons drop_all length_greater_0_conv list.distinct(1) not_less drop_eq_Nil,
      metis append_Cons nth_via_drop, metis append_Cons drop_Suc tl_drop list.sel(3))
  obtain g where g: "check_node k x f = Some (False, g)" "only_looked f g" using check_other Cons.prems(2) by (metis list.pred_inject(2))
  have s: "search_loop enc dec tr k status e = search_loop enc dec tr k status g"
    using f(1,4) i(1,2) g(1) by (subst search_loop.simps) simp
  have "found_same f g" using g(2) by (rule looked_same)
  then have "found_same e g" using f(2) found_same_trans by blast
  moreover obtain h where "search_loop enc dec tr k status g = search_loop enc dec tr k status h" "found_same g h"
    "drop (readdirs (ue_calls h)) names = ys"
    using Cons.IH [of g] Cons.prems(1,2) i(3) f(3) readdirs_looked [OF g(2)] by auto
  ultimately show ?case using s found_same_trans by metis
qed auto

lemma search_done:
  assumes "lists k names" "drop (readdirs (ue_calls e)) names = []"
  shows "\<exists>f. search_loop enc dec tr k status e = Some (Ret (status, f)) \<and> found_same e f"
proof -
  obtain f where f: "ecall k H_Readdir e = (k (ue_calls e) H_Readdir, f)" "found_same e f"
    "ha_name (k (ue_calls e) H_Readdir) = (if readdirs (ue_calls e) < length names then Some (names ! readdirs (ue_calls e)) else None)"
    using next_name [OF assms(1)] by blast
  have "search_loop enc dec tr k status e = Some (Ret (status, snd (ecall k H_Closedir f)))"
    using f assms(2) by (subst search_loop.simps) simp
  moreover have "found_same f (snd (ecall k H_Closedir f))" by (simp add: ecall_def)
  ultimately show ?thesis using f(2) found_same_trans by blast
qed

text \<open>The one gadget of a host, when it answers.\<close>

lemma search_value:
  assumes "lists k (pre @ g # post)" "list_all (other_node k) pre" "list_all (other_node k) post" "gadget_node k g fd"
    and "readdirs (ue_calls e) = 0" "exchange enc dec tr search_request (ue_link e) = Ret (OK, response, t)"
  shows "\<exists>f. usb_searchSensors enc dec tr k e = Some (Ret (OK, f)) \<and> found_same (take_answer (dev_path g) response (e\<lparr>ue_link := t\<rparr>)) f"
proof -
  let ?names = "pre @ g # post" and ?e = "e\<lparr>ue_calls := ue_calls e @ [H_Opendir ''/dev/'']\<rparr>"
  have o: "usb_searchSensors enc dec tr k e = search_loop enc dec tr k OK ?e"
    using assms(1) by (simp add: usb_searchSensors_def ecall_def lists_def Let_def leD)
  have r: "readdirs (ue_calls ?e) = 0" using assms(5) by (simp add: readdirs_def)
  obtain f where f: "search_loop enc dec tr k OK ?e = search_loop enc dec tr k OK f" "found_same ?e f"
    "drop (readdirs (ue_calls f)) ?names = g # post"
    using search_others [OF assms(1,2), of ?e "g # post" enc dec tr OK] r by (metis drop_0)
  let ?i = "readdirs (ue_calls f)"
  obtain h where h: "ecall k H_Readdir f = (k (ue_calls f) H_Readdir, h)" "found_same f h" "readdirs (ue_calls h) = Suc ?i"
    "ha_name (k (ue_calls f) H_Readdir) = (if ?i < length ?names then Some (?names ! ?i) else None)"
    using next_name [OF assms(1)] by blast
  have i: "?i < length ?names" "?names ! ?i = g" "drop (Suc ?i) ?names = post"
    using f(3) by (metis drop_eq_Nil list.distinct(1) not_less, metis nth_via_drop, metis drop_Suc tl_drop list.sel(3))
  obtain m where m: "check_node k g h = Some (True, m)" "only_looked h m" using check_gadget [OF assms(4)] by blast
  have hm: "found_same h m" using m(2) by (rule looked_same)
  have em: "found_same ?e m" using f(2) h(2) hm found_same_trans by metis
  have "found_same e ?e" by simp
  then have sm: "found_same e m" using em found_same_trans by blast
  let ?q = "take_answer (dev_path g) response (m\<lparr>ue_link := t\<rparr>)"
  have q: "query_target enc dec tr (dev_path g) m = Ret (OK, ?q)"
    using assms(6) found_same_fields(5) [OF sm] by (simp add: query_target_def)
  have s: "search_loop enc dec tr k OK f = search_loop enc dec tr k OK ?q"
    using h(1,4) i(1,2) m(1) q by (subst search_loop.simps) simp
  have "ue_calls ?q = ue_calls m" by (simp add: take_answer_def Let_def)
  then have d: "drop (readdirs (ue_calls ?q)) ?names = post" using i(3) h(3) readdirs_looked [OF m(2)] by simp
  obtain u where u: "search_loop enc dec tr k OK ?q = search_loop enc dec tr k OK u" "found_same ?q u"
    "drop (readdirs (ue_calls u)) ?names = []"
    using search_others [OF assms(1,3), of ?q "[]" enc dec tr OK] d by (metis append_Nil2)
  obtain v where v: "search_loop enc dec tr k OK u = Some (Ret (OK, v))" "found_same u v"
    using search_done [OF assms(1) u(3)] by blast
  obtain w fd' where "m = e\<lparr>ue_calls := w, ue_fd := fd'\<rparr>" using sm by (auto simp: found_same_def)
  then have "?q = (take_answer (dev_path g) response (e\<lparr>ue_link := t\<rparr>))\<lparr>ue_calls := w, ue_fd := fd'\<rparr>"
    by (simp add: take_answer_def Let_def)
  then have "found_same (take_answer (dev_path g) response (e\<lparr>ue_link := t\<rparr>)) ?q" unfolding found_same_def by blast
  then have "found_same (take_answer (dev_path g) response (e\<lparr>ue_link := t\<rparr>)) v" using u(2) v(2) found_same_trans by metis
  then show ?thesis using o f(1) s u(1) v(1) by metis
qed

lemma small_id: "ucast (word_of_nat i :: u32) = (word_of_nat i :: u8)"
  by (rule bit_word_eqI) (simp add: bit_simps)

text \<open>C16: A host on which one node is the gadget finds, with the SDK serving on the target: that node as its only new
  sensor, under the name of the target's sensor; the storages of the target with their numbers, and
  behind them, as storages too, the temperature sensors; no temperature sensor; and the versions of
  the target. The SDK's state is what it was.\<close>

theorem host_search_lists_target:
  fixes parse ser ops sops heap s0
  defines "state \<equiv> sdk_state parse ser ops sops heap s0"
  assumes "lists k (pre @ g # post)" "list_all (other_node k) pre" "list_all (other_node k) post" "gadget_node k g fd"
    and "readdirs (ue_calls e) = 0" "sdk_ready os parse ser ops sops heap s0 buf pkt (ue_link e)"
    and "message_fits enc parse search_request" "answer_fits ser dec pkt (search_sensors ops (state (ue_link e)))"
    and "1 \<le> depthSensors (state (ue_link e))"
  shows "\<exists>f. usb_searchSensors enc dec (gadget_transport os src junk buf pkt) k e = Some (Ret (OK, f)) \<and>
    ue_sensors f = ue_sensors e @ [dev_path g] \<and> ue_sensorName f = snd (ds_getName ops (camDepthSensor (state (ue_link e)))) \<and>
    snd (usb_getStorages f) =
      map2 (\<lambda>name i. UsbStorage name (word_of_nat i)) (map fst (storages (state (ue_link e)))) [0..<length (storages (state (ue_link e)))] @
      map2 (\<lambda>name i. UsbStorage name (word_of_nat i)) (temperatureSensors (state (ue_link e))) [0..<length (temperatureSensors (state (ue_link e)))] \<and>
    snd (usb_getTemperatureSensors f) = [] \<and>
    (ue_kernel f, ue_sd f, ue_uboot f) = (kernelversion (versions (state (ue_link e))), sdversion (versions (state (ue_link e))),
      ubootversion (versions (state (ue_link e)))) \<and>
    state (ue_link f) = state (ue_link e)"
proof -
  let ?s = "state (ue_link e)"
  let ?r = "search_sensors ops ?s"
  have "serve_request ops sops heap search_request ?s = Ret (?r, ?s)"
    by (simp add: serve_request_def search_request_def)
  from sdk_exchange [OF assms(7,8) this [unfolded state_def] assms(9) [unfolded state_def], of src junk]
  obtain t where t: "exchange enc dec (gadget_transport os src junk buf pkt) search_request (ue_link e) = Ret (OK, ?r, t)" "state t = ?s"
    using assms(10) by (auto simp: state_def search_sensors_def)
  obtain f where f: "usb_searchSensors enc dec (gadget_transport os src junk buf pkt) k e = Some (Ret (OK, f))"
    "found_same (take_answer (dev_path g) ?r (e\<lparr>ue_link := t\<rparr>)) f"
    using search_value [OF assms(2-6) t(1)] by blast
  have "map (\<lambda>(name, i). UsbStorage name (ucast i)) (zip ns (map word_of_nat [0..<m] :: u32 list)) =
      map2 (\<lambda>name i. UsbStorage name (word_of_nat i)) ns [0..<m]" for ns m
    by (simp add: zip_map2 split_def comp_def small_id)
  then show ?thesis
    using f(1) t(2) found_same_fields [OF f(2)] assms(10)
    by (intro exI [of _ f]) (simp add: take_answer_def search_sensors_def usb_getStorages_def usb_getTemperatureSensors_def Let_def)
qed

definition one_node_env :: henv where
  "one_node_env w c = no_answer\<lparr>ha_ret := (if c = H_Open (dev_path ''video0'') then 3 else 0), ha_chr := True,
     ha_card := gadget_name, ha_caps := 0x4000001,
     ha_name := (if readdirs w = 0 then Some ''video0'' else None)\<rparr>"

definition new_enumerator :: "'t \<Rightarrow> 't usb_enumerator" where
  "new_enumerator t = \<lparr>ue_fd = 0, ue_sensorName = [], ue_sensors = [], ue_storages = [], ue_temps = [], ue_uboot = [],
     ue_kernel = [], ue_sd = [], ue_calls = [], ue_link = t\<rparr>"

theorem host_search_lists_target_witness:
  "\<exists>p f. usb_searchSensors (\<lambda>_. [1]) (\<lambda>_. (True, p))
     (gadget_transport (serving_os (seven_handler search_request) (sample_sdk on_seven []))
        (v4l2_source_ops ok_os) [] (replicate 60 0) (replicate 60 0)) one_node_env (new_enumerator sample_gadget) = Some (Ret (OK, f)) \<and>
     ue_sensors f = [''/dev/video0'']"
proof -
  let ?e = "new_enumerator sample_gadget" and ?p = "search_sensors seven_ops (sample_sdk on_seven [])"
  have v: "video_letters ''video0'' = 5" by (simp add: video_letters_def)
  have l: "lists one_node_env ([] @ ''video0'' # [])" "gadget_node one_node_env ''video0'' 3"
    using v by (auto simp: lists_def gadget_node_def one_node_env_def no_answer_def readdirs_def Let_def)
  have e: "readdirs (ue_calls ?e) = 0" "ue_link ?e = sample_gadget" "ue_sensors ?e = []" by (simp_all add: new_enumerator_def readdirs_def)
  have d: "1 \<le> depthSensors (sample_sdk on_seven [])" by (simp add: sample_sdk_def)
  show ?thesis
    using host_search_lists_target [where ops = seven_ops and sops = eeprom_ops and heap = "\<lambda>_. 0",
        OF l(1) _ _ l(2) e(1), unfolded e(2), OF _ _ seven_ready one_request_fits one_response_fits, unfolded seven_state, OF _ _ d, of "v4l2_source_ops ok_os" "[]"]
    by (auto simp: e(3) dev_path_def)
qed

end
