(* ===== verification/Spec2Isabelle.thy ===== *)
theory Spec2Isabelle
  imports Crc Ccb Adsd3500_Probe Adsd3500_Spi Adsd3100_Facts Uvc_App Module_Facts Usb_Search
begin

text \<open>
  A model of the time-of-flight camera software of this repository, in Isabelle/HOL, with the
  theorems that make it correct. All paths are relative to \<^verbatim>\<open>src/\<close>.

  \<^bold>\<open>The program.\<close> A depth camera is an ADSD3500 processor with an imager, a flash memory in the
  camera module, and an application processor. On the application processor run the kernel driver
  of the ADSD3500 (\<^verbatim>\<open>ToF-drivers/drivers/adsd3500/nxp/src/i2c\<close>, or \<^verbatim>\<open>src/spi\<close> for a processor on an SPI bus),
  which offers the sensor to V4L2, and an application that makes the camera a USB video device
  (\<^verbatim>\<open>ToF/apps/uvc-app\<close>): it reads the configuration of its USB function from ConfigFS, negotiates a
  format with the USB host, passes buffers from the sensor's video node to the gadget's, and carries
  requests and responses of the SDK over a UVC extension unit.

  Both sides run the SDK (\<^verbatim>\<open>ToF/sdk\<close>). On the host a sensor is a V4L2 device
  (\<^verbatim>\<open>src/connections/usb/linux\<close>) whose commands become requests (\<^verbatim>\<open>src/connections/usb\<close>). On the target
  \<^verbatim>\<open>tof-sdk-interface.cpp\<close> serves them, with the sensor object of \<^verbatim>\<open>src/connections/target\<close>, which writes
  the registers of the processor through the controls of the kernel driver. The SDK also reads and writes
  the flash image of the module (\<^verbatim>\<open>src/cameras/itof-camera/module_memory.cpp\<close>, over \<^verbatim>\<open>eeprom.cpp\<close>) and
  reads the calibration file in it (\<^verbatim>\<open>common/adi/ccb\<close>).

  \<^bold>\<open>Conventions.\<close> C integers keep their width (\<open>u8\<close>, \<open>u16\<close>, \<open>u32\<close> are words) wherever they may wrap; return
  codes are \<open>int\<close>, negative for a failure, as in the code. Structures are records, with the code's
  names where Isabelle allows them. What is outside of the sources (the bus, the kernel's
  frameworks, system calls, the C library's allocation, what a fresh allocation or the stack holds) is a
  parameter: a function that answers a call from the calls made before it, with the calls in the
  state, so that theorems speak of what the hardware or the kernel sees. An access outside of a
  buffer, through a null pointer or to freed memory is \<open>Fault\<close> of type \<open>mem\<close>; not returning is \<open>None\<close>.

  \<^bold>\<open>The theories.\<close>

    \<^item> \<open>Prelude\<close>: types, errors, environments, the locales \<open>stepped\<close> (an invariant that every
      operation keeps holds after every run) and \<open>live\<close> (a run of well-formed requests returns), shared
      lemmas. \<open>Bytes\<close>: little-endian fields of packed structures. \<open>C_String\<close>: the functions of the C library
      on strings.

    \<^item> \<open>Adsd3500_Modes\<close>, \<open>Adsd3500_Driver\<close>, \<open>Adsd3500_Facts\<close>, \<open>Adsd3500_Firmware\<close>, \<open>Adsd3500_Probe\<close>: the
      kernel driver \<^verbatim>\<open>adsd3500.c\<close>: mode table, every operation of the sub-device, runtime PM, controls, debugfs,
      firmware transfer, probe and remove. Shown: formats are applied as negotiated, the runtime PM
      count balances over any run, well-formed runs never block, the registers get every configured
      field, transfers stay in bounds or which ones do not, probe leaves a ready device.

    \<^item> \<open>Adsd3500_Spi\<close>: what \<^verbatim>\<open>adsd3500-spi.c\<close> does otherwise, on the state of the same driver. Shown: booting
      and choosing a mode give the processor the commands that the I2C variant gives it, formats are the
      same, and which failures the SPI variant hides.

    \<^item> \<open>Adsd3100_Driver\<close> and \<open>Adsd3100_Facts\<close>: the driver \<^verbatim>\<open>drivers/adsd3100/nxp/src/adsd3100.c\<close> of an imager
      without the processor, whole. Shown, again with \<open>stepped\<close> over its runs: why it is never powered down,
      what a failed start and a failed control leave behind, that a firmware image is written as it states,
      and when a payload or an image is read behind its end.

    \<^item> \<open>Crc\<close>: \<^verbatim>\<open>crc.c\<close> of the SDK and \<^verbatim>\<open>compute_crc.c\<close> of the flash tool, with their tables. The locale
      \<open>crc_table\<close> states what a table contains, and is interpreted on both tables; shown are the equality with
      division by the polynomial, the equality of the two routines, and the bursts they detect.

    \<^item> \<open>Ccb\<close>: the calibration reader \<^verbatim>\<open>ccb.c\<close>; the searches refine the list of the blocks and never leave
      the buffer.

    \<^item> \<open>V4l2_Device\<close> (\<^verbatim>\<open>v4l2.c\<close>, \<^verbatim>\<open>video-buffers.c\<close>), \<open>Uvc_Events\<close> (\<^verbatim>\<open>events.c\<close>), \<open>Video_Source\<close>
      (\<^verbatim>\<open>video-source.c\<close>, \<^verbatim>\<open>v4l2-source.c\<close>), \<open>Uvc_Stream\<close> (\<^verbatim>\<open>stream.c\<close>), \<open>Frame_Rate\<close>, \<open>Uvc_Device\<close> and \<open>Uvc_Facts\<close>
      (\<^verbatim>\<open>uvc.c\<close>): the UVC application from the buffers up to the extension unit. \<open>video_source\<close> is the contract of
      the table of operations of a source, interpreted on the V4L2 source; \<open>event_callbacks\<close> that of the
      callbacks of the event loop, interpreted on the callbacks of the gadget. Shown: buffers and descriptors
      are released exactly once, starting and stopping leave both devices well-formed, negotiation stays
      within what is configured, and the loop keeps its invariant.

    \<^item> \<open>Mode_Info\<close> (\<^verbatim>\<open>mode_info.cpp\<close>), \<open>Sensor_Interface\<close> (\<^verbatim>\<open>depth_sensor_interface.h\<close>, with the locale
      \<open>memory_safe\<close>: operations that keep an invariant and never access memory that is not there),
      \<open>Adsd3500_Sensor\<close> and \<open>Sensor_Facts\<close> (\<^verbatim>\<open>adsd3500_sensor.cpp\<close>): the sensor object of the target, interpreted
      as \<open>target\<close>. \<open>Sensor_Driver\<close> composes it with the kernel driver: the commands of the SDK are the
      transfers on the bus that they name, given that V4L2 hands the control to the driver and its return
      value back (\<open>chip_framework\<close>).

    \<^item> \<open>Sdk_Interface\<close> and \<open>Sdk_Facts\<close> (\<^verbatim>\<open>tof-sdk-interface.cpp\<close>): the handler of the requests on the target,
      over that sensor and the EEPROMs. Shown: the requests it survives and those it does not, and what
      becomes of a storage.

    \<^item> \<open>Usb_Requests\<close>: the commands of the host's sensor and storage as requests, over a
      \<open>transport\<close>. \<open>Uvc_Host\<close> (\<^verbatim>\<open>usb_linux_utils.cpp\<close>): the extension unit as a transport, composed with the
      gadget's side: requests and responses arrive whole, and which do not. \<open>Usb_Remote\<close>: the contract \<open>remote\<close>
      of a connection, interpreted as \<open>gadget\<close> on that composition, and from it what a command on the host
      does on the target's bus.

    \<^item> \<open>Usb_Packets\<close> (\<^verbatim>\<open>usb_linux_utils.cpp\<close>, \<^verbatim>\<open>usb_temperature_sensor_linux.cpp\<close>): calls to the host's system and the
      transfers of buffers. \<open>Usb_Camera\<close> (\<^verbatim>\<open>usb_depth_sensor_linux.cpp\<close>): the host's sensor as a V4L2 device;
      the locale \<open>stepped\<close> of \<open>Prelude\<close> is interpreted on its operations, so that every run keeps the
      mapped buffers valid and queued. \<open>Usb_Search\<close> (\<^verbatim>\<open>usb_sensor_enumerator.cpp\<close>): finding the camera; over
      the handler it lists what the target has.

    \<^item> \<open>Configfs\<close>, \<open>Configfs_Read\<close>, \<open>Configfs_Parse\<close>, \<open>Configfs_Facts\<close> (\<^verbatim>\<open>configfs.c\<close>): the configuration, the
      attributes and searches, the parser, and what they guarantee: an answered configuration is complete and
      sorted, one that is given up is released once, attributes are read back as the kernel prints them.

    \<^item> \<open>Uvc_App\<close> (\<^verbatim>\<open>uvc-app.cpp\<close>): the main program over all of these, with the signal that stops it and the
      replacement of the source after a change of mode. Shown: under what circumstances it can use memory that it
      does not own, what is left when it returns, and that a replaced source may still be called back.

    \<^item> \<open>Storage\<close> (\<^verbatim>\<open>storage_interface.h\<close>, \<^verbatim>\<open>eeprom.cpp\<close>), \<open>Module_Memory\<close> and \<open>Module_Facts\<close>
      (\<^verbatim>\<open>module_memory.cpp\<close>): the flash image. The locale \<open>storage\<close> is the contract of a storage, the reading of a
      written image is proved in it, and it is interpreted on the EEPROM. Shown: the round trip of an image
      through the flash, when following its chain ends, and which chunks are read outside of their buffer.

  \<^bold>\<open>Bounds and termination.\<close> Loops over lists recurse on them; the other loops have a measure, with these
  exceptions. Operations that may block or run forever (locking a mutex, the event loop over a script of
  events, following the chain of a flash image) answer an option; that they return is a theorem of its own.
  The host's system calls, which are made again until they are not interrupted, its searches for a format
  and for a node, and what is built on them are partial functions, \<open>None\<close> where they never end: a
  call returns as soon as the system gives another answer, and an endless one is possible.
  The walks over calibration blocks take as fuel the number of blocks that the header states, which is the
  bound of the code's loop. The scaling of a quotient in \<open>Frame_Rate\<close> has 80 steps, more than 32-bit
  intervals over 10000000 can need.

  \<^bold>\<open>Not modelled.\<close> The ports of the driver to NVIDIA boards; of the SDK its cameras, frames and
  calibration correction, the sensor \<^verbatim>\<open>adsd3100_sensor.cpp\<close>, the target's enumerator and interrupt
  notifier, the depth computation (a library that is not in the repository), recorded files, the network
  and Windows connections, the server and the tools, written in C++ over libraries; \<^verbatim>\<open>compat/glob.c\<close>,
  cJSON, docopt, glog, libwebsockets, protobuf, imgui and pybind11, which are third-party code; the examples
  and viewers; and the trees \<^verbatim>\<open>libaditof\<close>, \<^verbatim>\<open>tof_net\<close> and \<^verbatim>\<open>ToF/drivers\<close>, copies of parts of this one. Log
  messages, and failures that only change them, are left out everywhere.
\<close>

end
